(* ===== verification/Prelude.thy ===== *)
theory Prelude
  imports Main "HOL-Library.Word" "HOL-Library.Monad_Syntax"
begin

text \<open>
  Shared vocabulary of the development.

  A Rust function that can panic (an explicit \<open>panic!\<close>, \<open>unimplemented!\<close>, \<open>unreachable!\<close>,
  an \<open>unwrap\<close> of \<open>None\<close>, an index out of range, an integer overflow in the default debug
  profile that \<open>cargo build\<close> uses) is a function into \<open>'a option\<close>: \<open>None\<close> is the panic.
  A \<open>Result<T, E>\<close> is a value of the sum \<open>'e + 't\<close> (\<open>Inl\<close> is \<open>Err\<close>).  A function that
  can do both has type \<open>('e + 't) option\<close>.

  A \<open>Vec<T>\<close> is a list in index order, so \<open>push\<close> appends at the end and \<open>pop\<close> takes the
  last element.  The definitions below are the standard library operations the sources use.
\<close>

section \<open>Machine types\<close>

type_synonym u8 = "8 word"
type_synonym u16 = "16 word"
type_synonym u32 = "32 word"
type_synonym u64 = "64 word"

text \<open>Signed integers are words read with \<open>sint\<close>; floats are their IEEE-754 bit patterns.\<close>

type_synonym i16 = "16 word"
type_synonym i32 = "32 word"
type_synonym i64 = "64 word"
type_synonym f32 = "32 word"
type_synonym f64 = "64 word"

named_theorems panic_simps \<open>unfolding rules for operations that may panic\<close>

section \<open>Indexing, slices and vectors\<close>

definition index :: "'a list \<Rightarrow> nat \<Rightarrow> 'a option" where
  "index xs i = (if i < length xs then Some (xs ! i) else None)"

definition index_set :: "'a list \<Rightarrow> nat \<Rightarrow> 'a \<Rightarrow> 'a list option" where
  "index_set xs i v = (if i < length xs then Some (xs[i := v]) else None)"

text \<open>\<open>slice.swap(i, j)\<close> panics when an index is out of range.\<close>

definition swap :: "'a list \<Rightarrow> nat \<Rightarrow> nat \<Rightarrow> 'a list option" where
  "swap xs i j =
     (if i < length xs \<and> j < length xs then Some (xs[i := xs ! j, j := xs ! i]) else None)"

text \<open>\<open>vec.drain(..n).collect()\<close>: the drained prefix and what stays; panics past the end.\<close>

definition drain :: "nat \<Rightarrow> 'a list \<Rightarrow> ('a list \<times> 'a list) option" where
  "drain n xs = (if n \<le> length xs then Some (take n xs, drop n xs) else None)"

text \<open>\<open>dst.copy_from_slice(src)\<close> panics when the lengths differ.\<close>

definition copy_from_slice :: "nat \<Rightarrow> 'a list \<Rightarrow> 'a list option" where
  "copy_from_slice n src = (if length src = n then Some src else None)"

definition vec_pop :: "'a list \<Rightarrow> ('a \<times> 'a list) option" where
  "vec_pop xs = (if xs = [] then None else Some (last xs, butlast xs))"

lemma index_eq_Some_iff [simp]: "index xs i = Some v \<longleftrightarrow> i < length xs \<and> xs ! i = v"
  by (auto simp: index_def)

lemma index_eq_None_iff [simp]: "index xs i = None \<longleftrightarrow> length xs \<le> i"
  by (auto simp: index_def)

lemma index_less [simp]: "i < length xs \<Longrightarrow> index xs i = Some (xs ! i)"
  by (simp add: index_def)

lemma index_set_less [simp]: "i < length xs \<Longrightarrow> index_set xs i v = Some (xs[i := v])"
  by (simp add: index_set_def)

lemma index_Nil [simp]: "index [] i = None"
  by (simp add: index_def)

lemma index_Cons_0 [simp]: "index (x # xs) 0 = Some x"
  by (simp add: index_def)

lemma index_Cons_Suc [simp]: "index (x # xs) (Suc i) = index xs i"
  by (simp add: index_def)

lemma index_Cons_numeral [simp]: "index (x # xs) (numeral k) = index xs (pred_numeral k)"
  by (simp add: numeral_eq_Suc)

lemma index_Cons_1 [simp]: "index (x # xs) 1 = index xs 0"
  by (simp add: index_def)

lemma index_set_eq_Some_iff [simp]:
  "index_set xs i v = Some ys \<longleftrightarrow> i < length xs \<and> ys = xs[i := v]"
  by (auto simp: index_set_def)

lemma swap_eq_Some_iff:
  "swap xs i j = Some ys \<longleftrightarrow>
     i < length xs \<and> j < length xs \<and> ys = xs[i := xs ! j, j := xs ! i]"
  by (auto simp: swap_def)

lemma drain_eq_Some_iff [simp]:
  "drain n xs = Some (ys, zs) \<longleftrightarrow> n \<le> length xs \<and> ys = take n xs \<and> zs = drop n xs"
  by (auto simp: drain_def)

lemma drain_eq_None_iff [simp]: "drain n xs = None \<longleftrightarrow> length xs < n"
  by (auto simp: drain_def)

lemma drain_le [simp]: "n \<le> length xs \<Longrightarrow> drain n xs = Some (take n xs, drop n xs)"
  by (simp add: drain_def)

lemma drain_append [simp]: "n = length xs \<Longrightarrow> drain n (xs @ ys) = Some (xs, ys)"
  by (simp add: drain_def)

lemma copy_from_slice_eq_Some_iff [simp]:
  "copy_from_slice n src = Some v \<longleftrightarrow> length src = n \<and> v = src"
  by (auto simp: copy_from_slice_def)

lemma copy_from_slice_same [simp]: "length src = n \<Longrightarrow> copy_from_slice n src = Some src"
  by (simp add: copy_from_slice_def)

lemma vec_pop_Nil [simp]: "vec_pop [] = None"
  by (simp add: vec_pop_def)

lemma vec_pop_snoc [simp]: "vec_pop (xs @ [x]) = Some (x, xs)"
  by (simp add: vec_pop_def)

lemma vec_pop_eq_Some_iff: "vec_pop xs = Some (x, ys) \<longleftrightarrow> xs = ys @ [x]"
  by (cases xs rule: rev_cases) (auto simp: vec_pop_def)

lemma vec_pop_eq_None_iff [simp]: "vec_pop xs = None \<longleftrightarrow> xs = []"
  by (simp add: vec_pop_def)

section \<open>Option, the panic monad\<close>

text \<open>\<open>for x in xs { s = f(s, x)? }\<close>: a loop over a list whose body may panic.\<close>

fun foldm :: "('s \<Rightarrow> 'a \<Rightarrow> 's option) \<Rightarrow> 's \<Rightarrow> 'a list \<Rightarrow> 's option" where
  "foldm f s [] = Some s"
| "foldm f s (x # xs) = do { s' \<leftarrow> f s x; foldm f s' xs }"

text \<open>\<open>for _ in 0..n\<close>: a counted loop whose body may panic.\<close>

fun repeatm :: "nat \<Rightarrow> ('s \<Rightarrow> 's option) \<Rightarrow> 's \<Rightarrow> 's option" where
  "repeatm 0 f s = Some s"
| "repeatm (Suc n) f s = do { s' \<leftarrow> f s; repeatm n f s' }"

lemma foldm_append: "foldm f s (xs @ ys) = do { s' \<leftarrow> foldm f s xs; foldm f s' ys }"
  by (induction xs arbitrary: s) simp_all

lemma foldm_snoc: "foldm f s (xs @ [x]) = do { s' \<leftarrow> foldm f s xs; f s' x }"
  by (simp add: foldm_append)

lemma foldm_invariant:
  assumes "foldm f s xs = Some t" and "P s"
    and "\<And>s x t. P s \<Longrightarrow> x \<in> set xs \<Longrightarrow> f s x = Some t \<Longrightarrow> P t"
  shows "P t"
  using assms
proof (induction xs arbitrary: s)
  case Nil
  then show ?case by simp
next
  case (Cons x xs)
  from Cons.prems(1) obtain u where u: "f s x = Some u" and rest: "foldm f u xs = Some t"
    by (auto simp: bind_eq_Some_conv)
  from u Cons.prems(2,3) have "P u" by auto
  with rest show ?case
    by (rule Cons.IH) (use Cons.prems(3) in auto)
qed

lemma repeatm_invariant:
  assumes "repeatm n f s = Some t" and "P s" and "\<And>s t. P s \<Longrightarrow> f s = Some t \<Longrightarrow> P t"
  shows "P t"
  using assms by (induction n arbitrary: s) (auto simp: bind_eq_Some_conv)

lemma repeatm_pop:
  "repeatm n (\<lambda>(xs, buf). do { (x, ys) \<leftarrow> vec_pop xs; Some (ys, buf @ [x]) }) (xs, buf) =
     (if n \<le> length xs
      then Some (take (length xs - n) xs, buf @ rev (drop (length xs - n) xs)) else None)"
proof (induction n arbitrary: xs buf)
  case 0
  then show ?case by simp
next
  case (Suc n)
  show ?case
  proof (cases xs rule: rev_cases)
    case Nil
    then show ?thesis by simp
  next
    case (snoc ys y)
    then show ?thesis
      by (simp add: Suc.IH)
  qed
qed

lemma map_sum_Inr_iff:
  "map_option (map_sum id c) m = Some (Inr y) \<longleftrightarrow> (\<exists>x. m = Some (Inr x) \<and> y = c x)"
  by (cases m) (auto simp: map_sum_def split: sum.split_asm)

text \<open>
  Taking a computation that did not panic apart: \<open>(elim panic_elims)\<close> leaves one goal per path
  through the binds, tuples and conditionals.
\<close>

lemma bind_SomeE:
  assumes "m \<bind> f = Some y"
  obtains x where "m = Some x" "f x = Some y"
  using assms by (auto simp: bind_eq_Some_conv)

lemma case_prod_eqE:
  assumes "(case p of (x, y) \<Rightarrow> f x y) = z"
  obtains x y where "p = (x, y)" "f x y = z"
  using assms by (cases p) auto

lemma if_eqE:
  assumes "(if b then s else t) = z"
  obtains "b" "s = z" | "\<not> b" "t = z"
  using assms by (auto split: if_splits)

lemmas panic_elims = bind_SomeE case_prod_eqE if_eqE

declare bind_eq_Some_conv [panic_simps] bind_eq_None_conv [panic_simps]

section \<open>Arithmetic with overflow checks\<close>

text \<open>In the debug profile \<open>a + b\<close> panics when the exact result does not fit the type.\<close>

definition checked_add :: "'a::len word \<Rightarrow> 'a word \<Rightarrow> 'a word option" where
  "checked_add a b = (if unat a + unat b < 2 ^ LENGTH('a) then Some (a + b) else None)"

definition checked_sub :: "'a::len word \<Rightarrow> 'a word \<Rightarrow> 'a word option" where
  "checked_sub a b = (if unat b \<le> unat a then Some (a - b) else None)"

text \<open>Evaluation without the unary representation of natural numbers.\<close>

lemma add_mod_ge:
  assumes "x < m" "y < (m :: nat)"
  shows "x \<le> (x + y) mod m \<longleftrightarrow> x + y < m"
proof (cases "x + y < m")
  case False
  then have "(x + y) mod m = x + y - m" using assms by (simp add: le_mod_geq not_less)
  with False assms show ?thesis by simp
qed simp

lemma checked_code [code]:
  "checked_add a b = (if a \<le> a + b then Some (a + b) else None)"
  "checked_sub a b = (if b \<le> a then Some (a - b) else None)"
  by (simp_all add: checked_add_def checked_sub_def word_le_nat_alt unat_word_ariths add_mod_ge)

definition checked_sadd :: "'a::len word \<Rightarrow> 'a word \<Rightarrow> 'a word option" where
  "checked_sadd a b =
     (if - (2 ^ (LENGTH('a) - 1)) \<le> sint a + sint b \<and> sint a + sint b < 2 ^ (LENGTH('a) - 1)
      then Some (a + b) else None)"

lemma checked_add_Some_unat: "checked_add a b = Some c \<Longrightarrow> unat c = unat a + unat b"
  by (auto simp: checked_add_def unat_word_ariths split: if_splits)

lemma checked_add_Some_iff:
  "checked_add a b = Some c \<longleftrightarrow> unat (c :: 'a::len word) = unat a + unat b"
proof
  assume h: "unat c = unat a + unat b"
  then have "unat a + unat b < 2 ^ LENGTH('a)"
    using unsigned_less[of c] by (metis)
  moreover from this h have "a + b = c"
    by (metis unat_add_lem word_unat_eq_iff)
  ultimately show "checked_add a b = Some c"
    by (simp add: checked_add_def)
qed (rule checked_add_Some_unat)

lemma checked_sub_Some_unat: "checked_sub a b = Some c \<Longrightarrow> unat c = unat a - unat b"
  by (auto simp: checked_sub_def unat_sub word_le_nat_alt split: if_splits)

lemma checked_sadd_Some_sint:
  assumes "checked_sadd a b = Some c"
  shows "sint c = sint a + sint (b :: 'a::len word)"
proof -
  from assms have r: "- (2 ^ (LENGTH('a) - 1)) \<le> sint a + sint b"
      "sint a + sint b < 2 ^ (LENGTH('a) - 1)" and c: "c = a + b"
    by (auto simp: checked_sadd_def split: if_splits)
  then have "signed_take_bit (LENGTH('a) - 1) (sint a + sint b) = sint a + sint b"
    by (simp add: signed_take_bit_int_eq_self)
  then show ?thesis
    by (simp add: c sint_word_ariths)
qed

end
