(* ===== verification/Instruction_Set.thy ===== *)
theory Instruction_Set
  imports Prelude
begin

text \<open>
  The instruction set of the virtual machine (\<open>purple_vm/src/instruction_set.rs\<close>) and the
  transitions of the code validator (\<open>purple_vm/src/code/transition.rs\<close>).

  The 162 variants of the enum \<open>Instruction\<close> are grouped as the comments of the source group
  them: the control flow, local stack, operand stack and state instructions are constructors of
  \<open>Instruction\<close>, each other group is a datatype of its own under one constructor, so
  \<open>Instruction::i32Load\<close> is \<open>Load i32Load\<close>.  \<open>repr\<close> gives the discriminants, and
  \<open>from_repr\<close> (generated by the \<open>EnumRepr\<close> attribute) the variant with a given one.
\<close>

section \<open>Instructions\<close>

datatype LoadOp =
    i32Load
  | i64Load
  | f32Load
  | f64Load
  | i32Load8Signed
  | i32Load8Unsigned
  | i32Load16Signed
  | i32Load16Unsigned
  | i64Load8Signed
  | i64Load8Unsigned
  | i64Load16Signed
  | i64Load16Unsigned
  | i64Load32Signed
  | i64Load32Unsigned

datatype StoreOp =
    i32Store
  | i64Store
  | f32Store
  | f64Store
  | i32Store8
  | i32Store16
  | i64Store8
  | i64Store16
  | i64Store32

datatype ArrayOp =
    Fetch
  | Grow
  | ArrayPush
  | ArrayPop

datatype CommonOp =
    Add
  | Sub
  | Mul
  | DivSigned
  | DivUnsigned
  | RemSigned
  | RemUnsigned
  | Min
  | Max

datatype IntegerOp =
    And
  | Or
  | Xor
  | Shl
  | ShrSigned
  | ShrUnsigned
  | Rotl
  | Rotr

datatype FloatingOp =
    Abs
  | Neg
  | Div
  | Ceil
  | Floor
  | Trunc
  | Nearest
  | CopySign
  | Sqrt

datatype CompOp =
    Eqz
  | Eq
  | Ne
  | LtSigned
  | LtUnsigned
  | GtSigned
  | GtUnsigned
  | LeSigned
  | LeUnsigned
  | GeSigned
  | GeUnsigned

datatype ConstOp =
    i32Const
  | i64Const
  | f32Const
  | f64Const
  | i32Array2
  | i32Array4
  | i32Array8
  | i32Array16
  | i32Array32
  | i32Array64
  | i32Array128
  | i32Array256
  | i64Array2
  | i64Array4
  | i64Array8
  | i64Array16
  | i64Array32
  | i64Array64
  | i64Array128
  | i64Array256
  | f32Array2
  | f32Array4
  | f32Array8
  | f32Array16
  | f32Array32
  | f32Array64
  | f32Array128
  | f32Array256
  | f64Array2
  | f64Array4
  | f64Array8
  | f64Array16
  | f64Array32
  | f64Array64
  | f64Array128
  | f64Array256

datatype ConvOp =
    i32Wrapi64
  | i32TruncSignedf32
  | i32TrunsUnsignedf32
  | i32TruncSignedf64
  | i32TruncUnsignedf64
  | i64ExtendSignedi32
  | i64ExtendUnsignedi32
  | i64TruncSignedf32
  | i64TruncUnsignedf32
  | i64TruncSignedf64
  | i64TruncUnsignedf64
  | f32ConvertSignedi32
  | f32ConvertUnsignedi32
  | f32ConvertSignedi64
  | f32ConvertUnsignedi64
  | f32Demotef64
  | f64ConvertSignedi32
  | f64ConvertUnsignedi32
  | f64ConvertSignedi64
  | f64ConvertUnsignedi64
  | f64Promotef32
  | i32Reinterpretf32
  | i64Reinterpretf64
  | f32Reinterpreti32
  | f64Reinterpreti64

datatype ApiOp =
    AssetInfo
  | GetBalance
  | SendCurrency
  | Mint
  | Burn
  | CreateContract
  | CreateCurrency
  | CreateMintable
  | CreateUnique
  | CallerAddress
  | CallCurrency
  | RandomNumber
  | CurrentTime
  | CurrentPrice
  | PriceAt
  | Suicide

datatype Instruction =
    Halt
  | Nop
  | Begin
  | Loop
  | If
  | Else
  | End
  | Break
  | BreakIf
  | Return
  | Call
  | PushLocal
  | PopLocal
  | PickLocal
  | PeekLocal
  | PushOperand
  | PopOperand
  | PickOperand
  | PeekOperand
  | GetState
  | SetState
  | Load LoadOp
  | Store StoreOp
  | Array ArrayOp
  | Common CommonOp
  | IntOp IntegerOp
  | FloatOp FloatingOp
  | Comp CompOp
  | Const ConstOp
  | Conv ConvOp
  | Api ApiOp

primrec loadOp_repr :: "LoadOp \<Rightarrow> u8" where
  "loadOp_repr i32Load = 0x15"
| "loadOp_repr i64Load = 0x16"
| "loadOp_repr f32Load = 0x17"
| "loadOp_repr f64Load = 0x18"
| "loadOp_repr i32Load8Signed = 0x19"
| "loadOp_repr i32Load8Unsigned = 0x1a"
| "loadOp_repr i32Load16Signed = 0x1b"
| "loadOp_repr i32Load16Unsigned = 0x1c"
| "loadOp_repr i64Load8Signed = 0x1d"
| "loadOp_repr i64Load8Unsigned = 0x1e"
| "loadOp_repr i64Load16Signed = 0x1f"
| "loadOp_repr i64Load16Unsigned = 0x20"
| "loadOp_repr i64Load32Signed = 0x21"
| "loadOp_repr i64Load32Unsigned = 0x22"

primrec storeOp_repr :: "StoreOp \<Rightarrow> u8" where
  "storeOp_repr i32Store = 0x23"
| "storeOp_repr i64Store = 0x24"
| "storeOp_repr f32Store = 0x25"
| "storeOp_repr f64Store = 0x26"
| "storeOp_repr i32Store8 = 0x27"
| "storeOp_repr i32Store16 = 0x28"
| "storeOp_repr i64Store8 = 0x29"
| "storeOp_repr i64Store16 = 0x2a"
| "storeOp_repr i64Store32 = 0x2b"

primrec arrayOp_repr :: "ArrayOp \<Rightarrow> u8" where
  "arrayOp_repr Fetch = 0x2c"
| "arrayOp_repr Grow = 0x2d"
| "arrayOp_repr ArrayPush = 0x2e"
| "arrayOp_repr ArrayPop = 0x2f"

primrec commonOp_repr :: "CommonOp \<Rightarrow> u8" where
  "commonOp_repr Add = 0x30"
| "commonOp_repr Sub = 0x31"
| "commonOp_repr Mul = 0x32"
| "commonOp_repr DivSigned = 0x33"
| "commonOp_repr DivUnsigned = 0x34"
| "commonOp_repr RemSigned = 0x35"
| "commonOp_repr RemUnsigned = 0x36"
| "commonOp_repr Min = 0x37"
| "commonOp_repr Max = 0x38"

primrec integerOp_repr :: "IntegerOp \<Rightarrow> u8" where
  "integerOp_repr And = 0x39"
| "integerOp_repr Or = 0x3a"
| "integerOp_repr Xor = 0x3b"
| "integerOp_repr Shl = 0x3c"
| "integerOp_repr ShrSigned = 0x3d"
| "integerOp_repr ShrUnsigned = 0x3e"
| "integerOp_repr Rotl = 0x3f"
| "integerOp_repr Rotr = 0x40"

primrec floatingOp_repr :: "FloatingOp \<Rightarrow> u8" where
  "floatingOp_repr Abs = 0x41"
| "floatingOp_repr Neg = 0x42"
| "floatingOp_repr Div = 0x43"
| "floatingOp_repr Ceil = 0x44"
| "floatingOp_repr Floor = 0x45"
| "floatingOp_repr Trunc = 0x46"
| "floatingOp_repr Nearest = 0x47"
| "floatingOp_repr CopySign = 0x48"
| "floatingOp_repr Sqrt = 0x49"

primrec compOp_repr :: "CompOp \<Rightarrow> u8" where
  "compOp_repr Eqz = 0x4a"
| "compOp_repr Eq = 0x4b"
| "compOp_repr Ne = 0x4c"
| "compOp_repr LtSigned = 0x4d"
| "compOp_repr LtUnsigned = 0x4e"
| "compOp_repr GtSigned = 0x4f"
| "compOp_repr GtUnsigned = 0x50"
| "compOp_repr LeSigned = 0x51"
| "compOp_repr LeUnsigned = 0x52"
| "compOp_repr GeSigned = 0x53"
| "compOp_repr GeUnsigned = 0x54"

primrec constOp_repr :: "ConstOp \<Rightarrow> u8" where
  "constOp_repr i32Const = 0x60"
| "constOp_repr i64Const = 0x61"
| "constOp_repr f32Const = 0x62"
| "constOp_repr f64Const = 0x63"
| "constOp_repr i32Array2 = 0x64"
| "constOp_repr i32Array4 = 0x65"
| "constOp_repr i32Array8 = 0x66"
| "constOp_repr i32Array16 = 0x67"
| "constOp_repr i32Array32 = 0x68"
| "constOp_repr i32Array64 = 0x69"
| "constOp_repr i32Array128 = 0x6a"
| "constOp_repr i32Array256 = 0x6c"
| "constOp_repr i64Array2 = 0x6d"
| "constOp_repr i64Array4 = 0x6e"
| "constOp_repr i64Array8 = 0x6f"
| "constOp_repr i64Array16 = 0x70"
| "constOp_repr i64Array32 = 0x71"
| "constOp_repr i64Array64 = 0x72"
| "constOp_repr i64Array128 = 0x73"
| "constOp_repr i64Array256 = 0x74"
| "constOp_repr f32Array2 = 0x76"
| "constOp_repr f32Array4 = 0x77"
| "constOp_repr f32Array8 = 0x78"
| "constOp_repr f32Array16 = 0x79"
| "constOp_repr f32Array32 = 0x7a"
| "constOp_repr f32Array64 = 0x7b"
| "constOp_repr f32Array128 = 0x7c"
| "constOp_repr f32Array256 = 0x7d"
| "constOp_repr f64Array2 = 0x7e"
| "constOp_repr f64Array4 = 0x7f"
| "constOp_repr f64Array8 = 0x80"
| "constOp_repr f64Array16 = 0x81"
| "constOp_repr f64Array32 = 0x82"
| "constOp_repr f64Array64 = 0x83"
| "constOp_repr f64Array128 = 0x84"
| "constOp_repr f64Array256 = 0x85"

primrec convOp_repr :: "ConvOp \<Rightarrow> u8" where
  "convOp_repr i32Wrapi64 = 0x86"
| "convOp_repr i32TruncSignedf32 = 0x87"
| "convOp_repr i32TrunsUnsignedf32 = 0x88"
| "convOp_repr i32TruncSignedf64 = 0x89"
| "convOp_repr i32TruncUnsignedf64 = 0x8a"
| "convOp_repr i64ExtendSignedi32 = 0x8b"
| "convOp_repr i64ExtendUnsignedi32 = 0x8c"
| "convOp_repr i64TruncSignedf32 = 0x8d"
| "convOp_repr i64TruncUnsignedf32 = 0x8f"
| "convOp_repr i64TruncSignedf64 = 0x90"
| "convOp_repr i64TruncUnsignedf64 = 0x91"
| "convOp_repr f32ConvertSignedi32 = 0x92"
| "convOp_repr f32ConvertUnsignedi32 = 0x93"
| "convOp_repr f32ConvertSignedi64 = 0x94"
| "convOp_repr f32ConvertUnsignedi64 = 0x95"
| "convOp_repr f32Demotef64 = 0x96"
| "convOp_repr f64ConvertSignedi32 = 0x97"
| "convOp_repr f64ConvertUnsignedi32 = 0x98"
| "convOp_repr f64ConvertSignedi64 = 0x99"
| "convOp_repr f64ConvertUnsignedi64 = 0x9a"
| "convOp_repr f64Promotef32 = 0x9b"
| "convOp_repr i32Reinterpretf32 = 0x9c"
| "convOp_repr i64Reinterpretf64 = 0x9d"
| "convOp_repr f32Reinterpreti32 = 0x9f"
| "convOp_repr f64Reinterpreti64 = 0xa0"

primrec apiOp_repr :: "ApiOp \<Rightarrow> u8" where
  "apiOp_repr AssetInfo = 0xf0"
| "apiOp_repr GetBalance = 0xf1"
| "apiOp_repr SendCurrency = 0xf2"
| "apiOp_repr Mint = 0xf3"
| "apiOp_repr Burn = 0xf4"
| "apiOp_repr CreateContract = 0xf5"
| "apiOp_repr CreateCurrency = 0xf6"
| "apiOp_repr CreateMintable = 0xf7"
| "apiOp_repr CreateUnique = 0xf8"
| "apiOp_repr CallerAddress = 0xf9"
| "apiOp_repr CallCurrency = 0xfa"
| "apiOp_repr RandomNumber = 0xfb"
| "apiOp_repr CurrentTime = 0xfc"
| "apiOp_repr CurrentPrice = 0xfd"
| "apiOp_repr PriceAt = 0xfe"
| "apiOp_repr Suicide = 0xff"

primrec repr :: "Instruction \<Rightarrow> u8" where
  "repr Halt = 0x00"
| "repr Nop = 0x01"
| "repr Begin = 0x02"
| "repr Loop = 0x03"
| "repr If = 0x04"
| "repr Else = 0x05"
| "repr End = 0x06"
| "repr Break = 0x07"
| "repr BreakIf = 0x08"
| "repr Return = 0x09"
| "repr Call = 0x0a"
| "repr PushLocal = 0x0b"
| "repr PopLocal = 0x0c"
| "repr PickLocal = 0x0d"
| "repr PeekLocal = 0x0e"
| "repr PushOperand = 0x0f"
| "repr PopOperand = 0x10"
| "repr PickOperand = 0x11"
| "repr PeekOperand = 0x12"
| "repr GetState = 0x13"
| "repr SetState = 0x14"
| "repr (Load x) = loadOp_repr x"
| "repr (Store x) = storeOp_repr x"
| "repr (Array x) = arrayOp_repr x"
| "repr (Common x) = commonOp_repr x"
| "repr (IntOp x) = integerOp_repr x"
| "repr (FloatOp x) = floatingOp_repr x"
| "repr (Comp x) = compOp_repr x"
| "repr (Const x) = constOp_repr x"
| "repr (Conv x) = convOp_repr x"
| "repr (Api x) = apiOp_repr x"

definition ALL_INSTRUCTIONS :: "Instruction list" where
  "ALL_INSTRUCTIONS = [
     Halt, Nop, Begin, Loop, If, Else, End, Break, BreakIf, Return, Call,
     PushLocal, PopLocal, PickLocal, PeekLocal,
     PushOperand, PopOperand, PickOperand, PeekOperand,
     GetState, SetState,
     Load i32Load, Load i64Load, Load f32Load, Load f64Load, Load i32Load8Signed, Load i32Load8Unsigned, Load i32Load16Signed, Load i32Load16Unsigned, Load i64Load8Signed, Load i64Load8Unsigned, Load i64Load16Signed, Load i64Load16Unsigned, Load i64Load32Signed, Load i64Load32Unsigned,
     Store i32Store, Store i64Store, Store f32Store, Store f64Store, Store i32Store8, Store i32Store16, Store i64Store8, Store i64Store16, Store i64Store32,
     Array Fetch, Array Grow, Array ArrayPush, Array ArrayPop,
     Common Add, Common Sub, Common Mul, Common DivSigned, Common DivUnsigned, Common RemSigned, Common RemUnsigned, Common Min, Common Max,
     IntOp And, IntOp Or, IntOp Xor, IntOp Shl, IntOp ShrSigned, IntOp ShrUnsigned, IntOp Rotl, IntOp Rotr,
     FloatOp Abs, FloatOp Neg, FloatOp Div, FloatOp Ceil, FloatOp Floor, FloatOp Trunc, FloatOp Nearest, FloatOp CopySign, FloatOp Sqrt,
     Comp Eqz, Comp Eq, Comp Ne, Comp LtSigned, Comp LtUnsigned, Comp GtSigned, Comp GtUnsigned, Comp LeSigned, Comp LeUnsigned, Comp GeSigned, Comp GeUnsigned,
     Const i32Const, Const i64Const, Const f32Const, Const f64Const, Const i32Array2, Const i32Array4, Const i32Array8, Const i32Array16, Const i32Array32, Const i32Array64, Const i32Array128, Const i32Array256, Const i64Array2, Const i64Array4, Const i64Array8, Const i64Array16, Const i64Array32, Const i64Array64, Const i64Array128, Const i64Array256, Const f32Array2, Const f32Array4, Const f32Array8, Const f32Array16, Const f32Array32, Const f32Array64, Const f32Array128, Const f32Array256, Const f64Array2, Const f64Array4, Const f64Array8, Const f64Array16, Const f64Array32, Const f64Array64, Const f64Array128, Const f64Array256,
     Conv i32Wrapi64, Conv i32TruncSignedf32, Conv i32TrunsUnsignedf32, Conv i32TruncSignedf64, Conv i32TruncUnsignedf64, Conv i64ExtendSignedi32, Conv i64ExtendUnsignedi32, Conv i64TruncSignedf32, Conv i64TruncUnsignedf32, Conv i64TruncSignedf64, Conv i64TruncUnsignedf64, Conv f32ConvertSignedi32, Conv f32ConvertUnsignedi32, Conv f32ConvertSignedi64, Conv f32ConvertUnsignedi64, Conv f32Demotef64, Conv f64ConvertSignedi32, Conv f64ConvertUnsignedi32, Conv f64ConvertSignedi64, Conv f64ConvertUnsignedi64, Conv f64Promotef32, Conv i32Reinterpretf32, Conv i64Reinterpretf64, Conv f32Reinterpreti32, Conv f64Reinterpreti64,
     Api AssetInfo, Api GetBalance, Api SendCurrency, Api Mint, Api Burn, Api CreateContract, Api CreateCurrency, Api CreateMintable, Api CreateUnique, Api CallerAddress, Api CallCurrency, Api RandomNumber, Api CurrentTime, Api CurrentPrice, Api PriceAt, Api Suicide]"

definition from_repr :: "u8 \<Rightarrow> Instruction option" where
  "from_repr b = find (\<lambda>i. repr i = b) ALL_INSTRUCTIONS"

section \<open>Transitions\<close>

datatype Transition = Op Instruction | Byte u8 | AnyByte

fun accepts_byte :: "Transition \<Rightarrow> u8 \<Rightarrow> bool" where
  "accepts_byte (Op op) byte = (case from_repr byte of Some oi \<Rightarrow> oi = op | None \<Rightarrow> False)"
| "accepts_byte (Byte b) byte = (b = byte)"
| "accepts_byte AnyByte byte = True"

definition CT_FLOW_OPS :: "Instruction list" where
  "CT_FLOW_OPS = [
     Begin, Loop, If, Else]"

definition COMP_OPS :: "Instruction list" where
  "COMP_OPS = [
     Comp Eqz, Comp Eq, Comp Ne, Comp LtSigned, Comp LtUnsigned, Comp GtSigned,
     Comp GtUnsigned, Comp LeSigned, Comp LeUnsigned, Comp GeSigned, Comp GeUnsigned]"

definition OPS_LIST :: "Instruction list" where
  "OPS_LIST = [
     Halt, Nop, Begin, Loop, If, End, Return, Call, PushLocal, PopLocal, PickLocal,
     PushOperand, PopOperand, PickOperand, GetState, SetState, Load i32Load, Load i64Load,
     Load f32Load, Load f64Load, Load i32Load8Signed, Load i32Load8Unsigned,
     Load i32Load16Signed, Load i32Load16Unsigned, Load i64Load8Signed, Load i64Load8Unsigned,
     Load i64Load16Signed, Load i64Load16Unsigned, Load i64Load32Signed,
     Load i64Load32Unsigned, Store i32Store, Store i64Store, Store f32Store, Store f64Store,
     Store i32Store8, Store i32Store16, Store i64Store8, Store i64Store16, Store i64Store32,
     Array Fetch, Common Add, Common Sub, Common Mul, Common DivSigned, Common DivUnsigned,
     Common RemSigned, Common RemUnsigned, Common Min, Common Max, IntOp And, IntOp Or,
     IntOp Xor, IntOp Shl, IntOp ShrSigned, IntOp ShrUnsigned, IntOp Rotl, IntOp Rotr,
     FloatOp Abs, FloatOp Neg, FloatOp Div, FloatOp Ceil, FloatOp Floor, FloatOp Trunc,
     FloatOp Nearest, FloatOp CopySign, FloatOp Sqrt, Comp Eqz, Comp Eq, Comp Ne,
     Comp LtSigned, Comp LtUnsigned, Comp GtSigned, Comp GtUnsigned, Comp LeSigned,
     Comp LeUnsigned, Comp GeSigned, Comp GeUnsigned, Conv i32Wrapi64, Conv i32TruncSignedf32,
     Conv i32TrunsUnsignedf32, Conv i32TruncSignedf64, Conv i32TruncUnsignedf64,
     Conv i64ExtendSignedi32, Conv i64ExtendUnsignedi32, Conv i64TruncSignedf32,
     Conv i64TruncUnsignedf32, Conv i64TruncSignedf64, Conv i64TruncUnsignedf64,
     Conv f32ConvertSignedi32, Conv f32ConvertUnsignedi32, Conv f32ConvertSignedi64,
     Conv f32ConvertUnsignedi64, Conv f32Demotef64, Conv f64ConvertSignedi32,
     Conv f64ConvertUnsignedi32, Conv f64ConvertSignedi64, Conv f64ConvertUnsignedi64,
     Conv f64Promotef32, Conv i32Reinterpretf32, Conv i64Reinterpretf64,
     Conv f32Reinterpreti32, Conv f64Reinterpreti64, Api GetBalance, Api SendCurrency,
     Api Mint, Api Burn, Api CreateContract, Api CreateCurrency, Api CreateMintable,
     Api CallerAddress, Api CallCurrency, Api RandomNumber, Api CurrentTime, Api CurrentPrice,
     Api PriceAt, Api Suicide]"

definition DEFAULT_TRANSITIONS :: "Transition list" where
  "DEFAULT_TRANSITIONS = map Op OPS_LIST"

definition COMP_TRANSITIONS :: "Transition list" where
  "COMP_TRANSITIONS = map Op COMP_OPS"

text \<open>The instructions the \<open>match\<close> does not list reach its last arm, which panics.\<close>

fun transitions :: "Instruction \<Rightarrow> Transition list option" where
  "transitions Halt = Some [Op End]"
| "transitions Nop = Some DEFAULT_TRANSITIONS"
| "transitions Begin = Some DEFAULT_TRANSITIONS"
| "transitions Loop = Some DEFAULT_TRANSITIONS"
| "transitions If = Some COMP_TRANSITIONS"
| "transitions Else = Some DEFAULT_TRANSITIONS"
| "transitions End = Some DEFAULT_TRANSITIONS"
| "transitions Break = Some [Op End]"
| "transitions BreakIf = Some COMP_TRANSITIONS"
| "transitions Return = Some [Op End]"
| "transitions Call = Some DEFAULT_TRANSITIONS"
| "transitions PushLocal = Some DEFAULT_TRANSITIONS"
| "transitions PopLocal = Some DEFAULT_TRANSITIONS"
| "transitions PickLocal = Some DEFAULT_TRANSITIONS"
| "transitions PeekLocal = None"
| "transitions PushOperand = Some DEFAULT_TRANSITIONS"
| "transitions PopOperand = Some DEFAULT_TRANSITIONS"
| "transitions PickOperand = Some DEFAULT_TRANSITIONS"
| "transitions PeekOperand = None"
| "transitions GetState = Some DEFAULT_TRANSITIONS"
| "transitions SetState = Some DEFAULT_TRANSITIONS"
| "transitions (Load x) = Some DEFAULT_TRANSITIONS"
| "transitions (Store x) = Some DEFAULT_TRANSITIONS"
| "transitions (Array Fetch) = Some DEFAULT_TRANSITIONS"
| "transitions (Array Grow) = None"
| "transitions (Array ArrayPush) = None"
| "transitions (Array ArrayPop) = None"
| "transitions (Common x) = Some DEFAULT_TRANSITIONS"
| "transitions (IntOp x) = Some DEFAULT_TRANSITIONS"
| "transitions (FloatOp x) = Some DEFAULT_TRANSITIONS"
| "transitions (Comp x) = Some DEFAULT_TRANSITIONS"
| "transitions (Const x) = None"
| "transitions (Conv x) = Some DEFAULT_TRANSITIONS"
| "transitions (Api AssetInfo) = Some DEFAULT_TRANSITIONS"
| "transitions (Api GetBalance) = Some DEFAULT_TRANSITIONS"
| "transitions (Api SendCurrency) = Some DEFAULT_TRANSITIONS"
| "transitions (Api Mint) = Some DEFAULT_TRANSITIONS"
| "transitions (Api Burn) = Some DEFAULT_TRANSITIONS"
| "transitions (Api CreateContract) = Some DEFAULT_TRANSITIONS"
| "transitions (Api CreateCurrency) = Some DEFAULT_TRANSITIONS"
| "transitions (Api CreateMintable) = Some DEFAULT_TRANSITIONS"
| "transitions (Api CreateUnique) = Some DEFAULT_TRANSITIONS"
| "transitions (Api CallerAddress) = Some DEFAULT_TRANSITIONS"
| "transitions (Api CallCurrency) = Some DEFAULT_TRANSITIONS"
| "transitions (Api RandomNumber) = Some DEFAULT_TRANSITIONS"
| "transitions (Api CurrentTime) = Some DEFAULT_TRANSITIONS"
| "transitions (Api CurrentPrice) = Some DEFAULT_TRANSITIONS"
| "transitions (Api PriceAt) = Some DEFAULT_TRANSITIONS"
| "transitions (Api Suicide) = Some [Op End]"

section \<open>Discriminants\<close>

lemma in_ALL_INSTRUCTIONS: "i \<in> set ALL_INSTRUCTIONS"
proof (cases i)
  case (Load x) then show ?thesis by (cases x) (simp_all add: ALL_INSTRUCTIONS_def)
next
  case (Store x) then show ?thesis by (cases x) (simp_all add: ALL_INSTRUCTIONS_def)
next
  case (Array x) then show ?thesis by (cases x) (simp_all add: ALL_INSTRUCTIONS_def)
next
  case (Common x) then show ?thesis by (cases x) (simp_all add: ALL_INSTRUCTIONS_def)
next
  case (IntOp x) then show ?thesis by (cases x) (simp_all add: ALL_INSTRUCTIONS_def)
next
  case (FloatOp x) then show ?thesis by (cases x) (simp_all add: ALL_INSTRUCTIONS_def)
next
  case (Comp x) then show ?thesis by (cases x) (simp_all add: ALL_INSTRUCTIONS_def)
next
  case (Const x) then show ?thesis by (cases x) (simp_all add: ALL_INSTRUCTIONS_def)
next
  case (Conv x) then show ?thesis by (cases x) (simp_all add: ALL_INSTRUCTIONS_def)
next
  case (Api x) then show ?thesis by (cases x) (simp_all add: ALL_INSTRUCTIONS_def)
qed (simp_all add: ALL_INSTRUCTIONS_def)

text \<open>The table lists the discriminants in increasing order, so they are pairwise different.\<close>

lemma sorted_reprs: "sorted_wrt (<) (map (\<lambda>i. unat (repr i)) ALL_INSTRUCTIONS)"
  by (simp add: ALL_INSTRUCTIONS_def sorted_wrt2_simps del: sorted_wrt.simps)

lemma inj_repr: "inj repr"
proof (rule injI)
  fix i j :: Instruction
  assume "repr i = repr j"
  moreover have "inj_on (\<lambda>i. unat (repr i)) (set ALL_INSTRUCTIONS)"
    using sorted_reprs by (metis distinct_map strict_sorted_iff)
  ultimately show "i = j"
    by (simp add: inj_onD in_ALL_INSTRUCTIONS)
qed

lemma from_repr_eq_Some_iff: "from_repr b = Some i \<longleftrightarrow> repr i = b"
proof
  assume "repr i = b"
  then have "from_repr b \<noteq> None"
    using in_ALL_INSTRUCTIONS[of i] by (auto simp: from_repr_def find_None_iff)
  then obtain j where j: "from_repr b = Some j" by blast
  then have "repr j = b" by (auto simp: from_repr_def find_Some_iff)
  with \<open>repr i = b\<close> j show "from_repr b = Some i" using inj_repr by (auto dest: injD)
qed (auto simp: from_repr_def find_Some_iff)

lemma from_repr_I: "repr i = b \<Longrightarrow> from_repr b = Some i"
  by (simp add: from_repr_eq_Some_iff)

lemma from_repr_repr [simp]: "from_repr (repr i) = Some i"
  by (rule from_repr_I) simp

lemma from_repr_simps [simp]:
  "from_repr 0x00 = Some Halt"
  "from_repr 0x01 = Some Nop"
  "from_repr 0x02 = Some Begin"
  "from_repr 0x03 = Some Loop"
  "from_repr 0x04 = Some If"
  "from_repr 0x05 = Some Else"
  "from_repr 0x06 = Some End"
  "from_repr 0x07 = Some Break"
  "from_repr 0x08 = Some BreakIf"
  "from_repr 0x09 = Some Return"
  "from_repr 0x0a = Some Call"
  "from_repr 0x0b = Some PushLocal"
  "from_repr 0x0c = Some PopLocal"
  "from_repr 0x0d = Some PickLocal"
  "from_repr 0x0e = Some PeekLocal"
  "from_repr 0x0f = Some PushOperand"
  "from_repr 0x10 = Some PopOperand"
  "from_repr 0x11 = Some PickOperand"
  "from_repr 0x12 = Some PeekOperand"
  "from_repr 0x13 = Some GetState"
  "from_repr 0x14 = Some SetState"
  "from_repr 0x15 = Some (Load i32Load)"
  "from_repr 0x16 = Some (Load i64Load)"
  "from_repr 0x17 = Some (Load f32Load)"
  "from_repr 0x18 = Some (Load f64Load)"
  "from_repr 0x19 = Some (Load i32Load8Signed)"
  "from_repr 0x1a = Some (Load i32Load8Unsigned)"
  "from_repr 0x1b = Some (Load i32Load16Signed)"
  "from_repr 0x1c = Some (Load i32Load16Unsigned)"
  "from_repr 0x1d = Some (Load i64Load8Signed)"
  "from_repr 0x1e = Some (Load i64Load8Unsigned)"
  "from_repr 0x1f = Some (Load i64Load16Signed)"
  "from_repr 0x20 = Some (Load i64Load16Unsigned)"
  "from_repr 0x21 = Some (Load i64Load32Signed)"
  "from_repr 0x22 = Some (Load i64Load32Unsigned)"
  "from_repr 0x23 = Some (Store i32Store)"
  "from_repr 0x24 = Some (Store i64Store)"
  "from_repr 0x25 = Some (Store f32Store)"
  "from_repr 0x26 = Some (Store f64Store)"
  "from_repr 0x27 = Some (Store i32Store8)"
  "from_repr 0x28 = Some (Store i32Store16)"
  "from_repr 0x29 = Some (Store i64Store8)"
  "from_repr 0x2a = Some (Store i64Store16)"
  "from_repr 0x2b = Some (Store i64Store32)"
  "from_repr 0x2c = Some (Array Fetch)"
  "from_repr 0x2d = Some (Array Grow)"
  "from_repr 0x2e = Some (Array ArrayPush)"
  "from_repr 0x2f = Some (Array ArrayPop)"
  "from_repr 0x30 = Some (Common Add)"
  "from_repr 0x31 = Some (Common Sub)"
  "from_repr 0x32 = Some (Common Mul)"
  "from_repr 0x33 = Some (Common DivSigned)"
  "from_repr 0x34 = Some (Common DivUnsigned)"
  "from_repr 0x35 = Some (Common RemSigned)"
  "from_repr 0x36 = Some (Common RemUnsigned)"
  "from_repr 0x37 = Some (Common Min)"
  "from_repr 0x38 = Some (Common Max)"
  "from_repr 0x39 = Some (IntOp And)"
  "from_repr 0x3a = Some (IntOp Or)"
  "from_repr 0x3b = Some (IntOp Xor)"
  "from_repr 0x3c = Some (IntOp Shl)"
  "from_repr 0x3d = Some (IntOp ShrSigned)"
  "from_repr 0x3e = Some (IntOp ShrUnsigned)"
  "from_repr 0x3f = Some (IntOp Rotl)"
  "from_repr 0x40 = Some (IntOp Rotr)"
  "from_repr 0x41 = Some (FloatOp Abs)"
  "from_repr 0x42 = Some (FloatOp Neg)"
  "from_repr 0x43 = Some (FloatOp Div)"
  "from_repr 0x44 = Some (FloatOp Ceil)"
  "from_repr 0x45 = Some (FloatOp Floor)"
  "from_repr 0x46 = Some (FloatOp Trunc)"
  "from_repr 0x47 = Some (FloatOp Nearest)"
  "from_repr 0x48 = Some (FloatOp CopySign)"
  "from_repr 0x49 = Some (FloatOp Sqrt)"
  "from_repr 0x4a = Some (Comp Eqz)"
  "from_repr 0x4b = Some (Comp Eq)"
  "from_repr 0x4c = Some (Comp Ne)"
  "from_repr 0x4d = Some (Comp LtSigned)"
  "from_repr 0x4e = Some (Comp LtUnsigned)"
  "from_repr 0x4f = Some (Comp GtSigned)"
  "from_repr 0x50 = Some (Comp GtUnsigned)"
  "from_repr 0x51 = Some (Comp LeSigned)"
  "from_repr 0x52 = Some (Comp LeUnsigned)"
  "from_repr 0x53 = Some (Comp GeSigned)"
  "from_repr 0x54 = Some (Comp GeUnsigned)"
  "from_repr 0x60 = Some (Const i32Const)"
  "from_repr 0x61 = Some (Const i64Const)"
  "from_repr 0x62 = Some (Const f32Const)"
  "from_repr 0x63 = Some (Const f64Const)"
  "from_repr 0x64 = Some (Const i32Array2)"
  "from_repr 0x65 = Some (Const i32Array4)"
  "from_repr 0x66 = Some (Const i32Array8)"
  "from_repr 0x67 = Some (Const i32Array16)"
  "from_repr 0x68 = Some (Const i32Array32)"
  "from_repr 0x69 = Some (Const i32Array64)"
  "from_repr 0x6a = Some (Const i32Array128)"
  "from_repr 0x6c = Some (Const i32Array256)"
  "from_repr 0x6d = Some (Const i64Array2)"
  "from_repr 0x6e = Some (Const i64Array4)"
  "from_repr 0x6f = Some (Const i64Array8)"
  "from_repr 0x70 = Some (Const i64Array16)"
  "from_repr 0x71 = Some (Const i64Array32)"
  "from_repr 0x72 = Some (Const i64Array64)"
  "from_repr 0x73 = Some (Const i64Array128)"
  "from_repr 0x74 = Some (Const i64Array256)"
  "from_repr 0x76 = Some (Const f32Array2)"
  "from_repr 0x77 = Some (Const f32Array4)"
  "from_repr 0x78 = Some (Const f32Array8)"
  "from_repr 0x79 = Some (Const f32Array16)"
  "from_repr 0x7a = Some (Const f32Array32)"
  "from_repr 0x7b = Some (Const f32Array64)"
  "from_repr 0x7c = Some (Const f32Array128)"
  "from_repr 0x7d = Some (Const f32Array256)"
  "from_repr 0x7e = Some (Const f64Array2)"
  "from_repr 0x7f = Some (Const f64Array4)"
  "from_repr 0x80 = Some (Const f64Array8)"
  "from_repr 0x81 = Some (Const f64Array16)"
  "from_repr 0x82 = Some (Const f64Array32)"
  "from_repr 0x83 = Some (Const f64Array64)"
  "from_repr 0x84 = Some (Const f64Array128)"
  "from_repr 0x85 = Some (Const f64Array256)"
  "from_repr 0x86 = Some (Conv i32Wrapi64)"
  "from_repr 0x87 = Some (Conv i32TruncSignedf32)"
  "from_repr 0x88 = Some (Conv i32TrunsUnsignedf32)"
  "from_repr 0x89 = Some (Conv i32TruncSignedf64)"
  "from_repr 0x8a = Some (Conv i32TruncUnsignedf64)"
  "from_repr 0x8b = Some (Conv i64ExtendSignedi32)"
  "from_repr 0x8c = Some (Conv i64ExtendUnsignedi32)"
  "from_repr 0x8d = Some (Conv i64TruncSignedf32)"
  "from_repr 0x8f = Some (Conv i64TruncUnsignedf32)"
  "from_repr 0x90 = Some (Conv i64TruncSignedf64)"
  "from_repr 0x91 = Some (Conv i64TruncUnsignedf64)"
  "from_repr 0x92 = Some (Conv f32ConvertSignedi32)"
  "from_repr 0x93 = Some (Conv f32ConvertUnsignedi32)"
  "from_repr 0x94 = Some (Conv f32ConvertSignedi64)"
  "from_repr 0x95 = Some (Conv f32ConvertUnsignedi64)"
  "from_repr 0x96 = Some (Conv f32Demotef64)"
  "from_repr 0x97 = Some (Conv f64ConvertSignedi32)"
  "from_repr 0x98 = Some (Conv f64ConvertUnsignedi32)"
  "from_repr 0x99 = Some (Conv f64ConvertSignedi64)"
  "from_repr 0x9a = Some (Conv f64ConvertUnsignedi64)"
  "from_repr 0x9b = Some (Conv f64Promotef32)"
  "from_repr 0x9c = Some (Conv i32Reinterpretf32)"
  "from_repr 0x9d = Some (Conv i64Reinterpretf64)"
  "from_repr 0x9f = Some (Conv f32Reinterpreti32)"
  "from_repr 0xa0 = Some (Conv f64Reinterpreti64)"
  "from_repr 0xf0 = Some (Api AssetInfo)"
  "from_repr 0xf1 = Some (Api GetBalance)"
  "from_repr 0xf2 = Some (Api SendCurrency)"
  "from_repr 0xf3 = Some (Api Mint)"
  "from_repr 0xf4 = Some (Api Burn)"
  "from_repr 0xf5 = Some (Api CreateContract)"
  "from_repr 0xf6 = Some (Api CreateCurrency)"
  "from_repr 0xf7 = Some (Api CreateMintable)"
  "from_repr 0xf8 = Some (Api CreateUnique)"
  "from_repr 0xf9 = Some (Api CallerAddress)"
  "from_repr 0xfa = Some (Api CallCurrency)"
  "from_repr 0xfb = Some (Api RandomNumber)"
  "from_repr 0xfc = Some (Api CurrentTime)"
  "from_repr 0xfd = Some (Api CurrentPrice)"
  "from_repr 0xfe = Some (Api PriceAt)"
  "from_repr 0xff = Some (Api Suicide)"
  by (rule from_repr_I, simp)+

lemma accepts_Op_iff: "accepts_byte (Op i) b \<longleftrightarrow> from_repr b = Some i"
  by (auto split: option.splits)

lemma in_DEFAULT_iff: "t \<in> set DEFAULT_TRANSITIONS \<longleftrightarrow> (\<exists>i \<in> set OPS_LIST. t = Op i)"
  by (auto simp: DEFAULT_TRANSITIONS_def)

text \<open>Every instruction the validator lets through has transitions.\<close>

lemma OPS_LIST_transitions: "i \<in> set OPS_LIST \<Longrightarrow> \<exists>ts. transitions i = Some ts"
  by (auto simp: OPS_LIST_def)

lemma transitions_ops:
  "transitions i = Some ts \<Longrightarrow> t \<in> set ts \<Longrightarrow> \<exists>j. t = Op j \<and> transitions j \<noteq> None"
  by (cases i rule: transitions.cases)
    (auto simp: in_DEFAULT_iff COMP_TRANSITIONS_def COMP_OPS_def dest!: OPS_LIST_transitions)

end
