(* ===== verification/Bin_Tools.thy ===== *)
theory Bin_Tools
  imports Prelude
begin

unbundle bit_operations_syntax

text \<open>
  The macros of \<open>util/bin-tools\<close>: fixed-width integers and floats to bytes and back, in both
  byte orders.  An encoder fills a fresh vector; a decoder reads from a \<open>Cursor\<close> at position 0:
  it fails (\<open>Err\<close>, here \<open>None\<close>) when fewer bytes are there than the type needs and ignores
  what follows them.  Signed integers and floats go through the same bytes as the unsigned
  integer of their width (two's complement, \<open>to_bits\<close>).
\<close>

section \<open>Bytes of a word\<close>

fun le_bytes :: "nat \<Rightarrow> 'a::len word \<Rightarrow> u8 list" where
  "le_bytes 0 x = []"
| "le_bytes (Suc n) x = ucast x # le_bytes n (drop_bit 8 x)"

fun le_word :: "u8 list \<Rightarrow> 'a::len word" where
  "le_word [] = 0"
| "le_word (b # bs) = ucast b OR push_bit 8 (le_word bs)"

text \<open>Reading \<open>n\<close> bytes from a cursor at position 0.\<close>

definition read_le :: "nat \<Rightarrow> u8 list \<Rightarrow> 'a::len word option" where
  "read_le n bs = (if n \<le> length bs then Some (le_word (take n bs)) else None)"

definition read_be :: "nat \<Rightarrow> u8 list \<Rightarrow> 'a::len word option" where
  "read_be n bs = (if n \<le> length bs then Some (le_word (rev (take n bs))) else None)"

lemma length_le_bytes [simp]: "length (le_bytes n x) = n"
  by (induction n arbitrary: x) auto

lemma le_word_le_bytes: "le_word (le_bytes n x) = take_bit (8 * n) (x :: 'a::len word)"
proof (induction n arbitrary: x)
  case 0
  then show ?case by simp
next
  case (Suc n)
  have "ucast (ucast x :: u8) OR push_bit 8 (take_bit (8 * n) (drop_bit 8 x)) =
        take_bit (8 * Suc n) x"
    by (rule bit_word_eqI) (auto simp: bit_simps)
  with Suc.IH show ?case by simp
qed

lemma bit_le_word_ge:
  "8 * length bs \<le> k \<Longrightarrow> \<not> bit (le_word bs :: 'a::len word) k"
proof (induction bs arbitrary: k)
  case Nil
  then show ?case by simp
next
  case (Cons b bs)
  then have "\<not> bit (le_word bs :: 'a word) (k - 8)" by simp
  with Cons.prems show ?case by (auto simp: bit_simps dest: bit_imp_le_length)
qed

lemma le_bytes_le_word:
  "8 * length bs \<le> LENGTH('a::len) \<Longrightarrow> le_bytes (length bs) (le_word bs :: 'a word) = bs"
proof (induction bs)
  case Nil
  then show ?case by simp
next
  case (Cons b bs)
  let ?w = "le_word bs :: 'a word"
  have h: "ucast (ucast b OR push_bit 8 ?w) = b"
    using Cons.prems by (intro bit_word_eqI) (auto simp: bit_simps)
  have d: "drop_bit 8 (ucast b OR push_bit 8 ?w) = ?w"
  proof (rule bit_word_eqI)
    fix k
    assume k: "k < LENGTH('a)"
    show "bit (drop_bit 8 (ucast b OR push_bit 8 ?w)) k = bit ?w k"
      using Cons.prems bit_le_word_ge[of bs k, where 'a = 'a] k
      by (cases "8 * length bs \<le> k") (auto simp: bit_simps dest: bit_imp_le_length)
  qed
  have "le_bytes (length bs) (drop_bit 8 (ucast b OR push_bit 8 ?w)) = bs"
    unfolding d using Cons by simp
  then show ?case by (simp add: h del: drop_bit_or)
qed

section \<open>The contract of a fixed-width codec\<close>

text \<open>
  What the callers of the macros rely on: a fixed width, decoding what was encoded whatever
  follows it, encoding what was decoded, and failure on short input.
\<close>

locale fixed_codec =
  fixes enc :: "'v \<Rightarrow> u8 list" and dec :: "u8 list \<Rightarrow> 'v option" and width :: nat
  assumes enc_width: "length (enc v) = width"
    and dec_enc: "dec (enc v @ rest) = Some v"
    and enc_dec: "dec bs = Some v \<Longrightarrow> enc v = take width bs"
    and dec_short: "length bs < width \<Longrightarrow> dec bs = None"
begin

lemma roundtrip: "dec (enc v) = Some v"
  using dec_enc[of v "[]"] by simp

lemma enc_inj: "enc v @ r = enc w @ s \<Longrightarrow> v = w \<and> r = s"
proof -
  assume h: "enc v @ r = enc w @ s"
  then have "dec (enc w @ s) = Some v" using dec_enc[of v r] by simp
  then have "v = w" by (simp add: dec_enc)
  with h show ?thesis by simp
qed

lemma dec_iff: "dec bs = Some v \<longleftrightarrow> take width bs = enc v"
proof
  assume h: "take width bs = enc v"
  then have "bs = enc v @ drop width bs" by (metis append_take_drop_id)
  then show "dec bs = Some v" by (metis dec_enc)
qed (simp add: enc_dec)

lemma dec_total: "width \<le> length bs \<Longrightarrow> dec bs = Some v \<Longrightarrow> dec (bs @ rest) = Some v"
proof -
  assume w: "width \<le> length bs" and d: "dec bs = Some v"
  from d have "enc v = take width bs" by (rule enc_dec)
  then have "bs @ rest = enc v @ (drop width bs @ rest)" by simp
  then show ?thesis by (metis dec_enc)
qed

end

lemma read_le_codec:
  assumes "LENGTH('a::len) = 8 * n"
  shows "fixed_codec (le_bytes n :: 'a word \<Rightarrow> u8 list) (read_le n) n"
proof
  fix v :: "'a word" and rest bs
  show "length (le_bytes n v) = n" by simp
  have "take_bit (8 * n) v = v"
    using assms by (metis take_bit_word_eq_self order_refl)
  then show "read_le n (le_bytes n v @ rest) = Some v"
    by (simp add: read_le_def le_word_le_bytes)
  show "read_le n bs = Some v \<Longrightarrow> le_bytes n v = take n bs"
    using le_bytes_le_word[of "take n bs", where 'a = 'a] assms
    by (auto simp: read_le_def min_absorb2 split: if_splits)
  show "length bs < n \<Longrightarrow> read_le n bs = (None :: 'a word option)"
    by (simp add: read_le_def)
qed

lemma read_be_codec:
  assumes "LENGTH('a::len) = 8 * n"
  shows "fixed_codec (\<lambda>x :: 'a word. rev (le_bytes n x)) (read_be n) n"
proof
  fix v :: "'a word" and rest bs
  show "length (rev (le_bytes n v)) = n" by simp
  have "take_bit (8 * n) v = v"
    using assms by (metis take_bit_word_eq_self order_refl)
  then show "read_be n (rev (le_bytes n v) @ rest) = Some v"
    by (simp add: read_be_def le_word_le_bytes)
  show "read_be n bs = Some v \<Longrightarrow> rev (le_bytes n v) = take n bs"
    using le_bytes_le_word[of "rev (take n bs)", where 'a = 'a] assms
    by (auto simp: read_be_def min_absorb2 rev_swap split: if_splits)
  show "length bs < n \<Longrightarrow> read_be n bs = (None :: 'a word option)"
    by (simp add: read_be_def)
qed

section \<open>The macros\<close>

named_theorems codec_defs \<open>definitions of the encode/decode macros\<close>

definition encode_u8 :: "u8 \<Rightarrow> u8 list" where
  [codec_defs]: "encode_u8 x = le_bytes 1 x"

definition decode_u8 :: "u8 list \<Rightarrow> u8 option" where
  [codec_defs]: "decode_u8 bs = read_le 1 bs"

definition encode_be_u16 :: "u16 \<Rightarrow> u8 list" where
  [codec_defs]: "encode_be_u16 x = rev (le_bytes 2 x)"

definition decode_be_u16 :: "u8 list \<Rightarrow> u16 option" where
  [codec_defs]: "decode_be_u16 bs = read_be 2 bs"

definition encode_be_u32 :: "u32 \<Rightarrow> u8 list" where
  [codec_defs]: "encode_be_u32 x = rev (le_bytes 4 x)"

definition decode_be_u32 :: "u8 list \<Rightarrow> u32 option" where
  [codec_defs]: "decode_be_u32 bs = read_be 4 bs"

definition encode_be_u64 :: "u64 \<Rightarrow> u8 list" where
  [codec_defs]: "encode_be_u64 x = rev (le_bytes 8 x)"

definition decode_be_u64 :: "u8 list \<Rightarrow> u64 option" where
  [codec_defs]: "decode_be_u64 bs = read_be 8 bs"

definition encode_le_u16 :: "u16 \<Rightarrow> u8 list" where
  [codec_defs]: "encode_le_u16 x = le_bytes 2 x"

definition decode_le_u16 :: "u8 list \<Rightarrow> u16 option" where
  [codec_defs]: "decode_le_u16 bs = read_le 2 bs"

definition encode_le_u32 :: "u32 \<Rightarrow> u8 list" where
  [codec_defs]: "encode_le_u32 x = le_bytes 4 x"

definition decode_le_u32 :: "u8 list \<Rightarrow> u32 option" where
  [codec_defs]: "decode_le_u32 bs = read_le 4 bs"

definition encode_le_u64 :: "u64 \<Rightarrow> u8 list" where
  [codec_defs]: "encode_le_u64 x = le_bytes 8 x"

definition decode_le_u64 :: "u8 list \<Rightarrow> u64 option" where
  [codec_defs]: "decode_le_u64 bs = read_le 8 bs"

definition encode_i8 :: "u8 \<Rightarrow> u8 list" where
  [codec_defs]: "encode_i8 x = le_bytes 1 x"

definition decode_i8 :: "u8 list \<Rightarrow> u8 option" where
  [codec_defs]: "decode_i8 bs = read_le 1 bs"

definition encode_be_i16 :: "i16 \<Rightarrow> u8 list" where
  [codec_defs]: "encode_be_i16 x = rev (le_bytes 2 x)"

definition decode_be_i16 :: "u8 list \<Rightarrow> i16 option" where
  [codec_defs]: "decode_be_i16 bs = read_be 2 bs"

definition encode_be_i32 :: "i32 \<Rightarrow> u8 list" where
  [codec_defs]: "encode_be_i32 x = rev (le_bytes 4 x)"

definition decode_be_i32 :: "u8 list \<Rightarrow> i32 option" where
  [codec_defs]: "decode_be_i32 bs = read_be 4 bs"

definition encode_be_i64 :: "i64 \<Rightarrow> u8 list" where
  [codec_defs]: "encode_be_i64 x = rev (le_bytes 8 x)"

definition decode_be_i64 :: "u8 list \<Rightarrow> i64 option" where
  [codec_defs]: "decode_be_i64 bs = read_be 8 bs"

definition encode_le_i16 :: "i16 \<Rightarrow> u8 list" where
  [codec_defs]: "encode_le_i16 x = le_bytes 2 x"

definition decode_le_i16 :: "u8 list \<Rightarrow> i16 option" where
  [codec_defs]: "decode_le_i16 bs = read_le 2 bs"

definition encode_le_i32 :: "i32 \<Rightarrow> u8 list" where
  [codec_defs]: "encode_le_i32 x = le_bytes 4 x"

definition decode_le_i32 :: "u8 list \<Rightarrow> i32 option" where
  [codec_defs]: "decode_le_i32 bs = read_le 4 bs"

definition encode_le_i64 :: "i64 \<Rightarrow> u8 list" where
  [codec_defs]: "encode_le_i64 x = le_bytes 8 x"

definition decode_le_i64 :: "u8 list \<Rightarrow> i64 option" where
  [codec_defs]: "decode_le_i64 bs = read_le 8 bs"

definition encode_be_f32 :: "f32 \<Rightarrow> u8 list" where
  [codec_defs]: "encode_be_f32 x = rev (le_bytes 4 x)"

definition decode_be_f32 :: "u8 list \<Rightarrow> f32 option" where
  [codec_defs]: "decode_be_f32 bs = read_be 4 bs"

definition encode_be_f64 :: "f64 \<Rightarrow> u8 list" where
  [codec_defs]: "encode_be_f64 x = rev (le_bytes 8 x)"

definition decode_be_f64 :: "u8 list \<Rightarrow> f64 option" where
  [codec_defs]: "decode_be_f64 bs = read_be 8 bs"

definition encode_le_f32 :: "f32 \<Rightarrow> u8 list" where
  [codec_defs]: "encode_le_f32 x = le_bytes 4 x"

definition decode_le_f32 :: "u8 list \<Rightarrow> f32 option" where
  [codec_defs]: "decode_le_f32 bs = read_le 4 bs"

definition encode_le_f64 :: "f64 \<Rightarrow> u8 list" where
  [codec_defs]: "encode_le_f64 x = le_bytes 8 x"

definition decode_le_f64 :: "u8 list \<Rightarrow> f64 option" where
  [codec_defs]: "decode_le_f64 bs = read_le 8 bs"

text \<open>Every pair of macros meets the contract.\<close>

interpretation u8: fixed_codec encode_u8 decode_u8 1
  using read_le_codec[where 'a = 8 and n = 1] unfolding encode_u8_def [abs_def] decode_u8_def [abs_def]
  by (simp del: le_bytes.simps)

interpretation be_u16: fixed_codec encode_be_u16 decode_be_u16 2
  using read_be_codec[where 'a = 16 and n = 2] unfolding encode_be_u16_def [abs_def] decode_be_u16_def [abs_def] by simp

interpretation be_u32: fixed_codec encode_be_u32 decode_be_u32 4
  using read_be_codec[where 'a = 32 and n = 4] unfolding encode_be_u32_def [abs_def] decode_be_u32_def [abs_def] by simp

interpretation be_u64: fixed_codec encode_be_u64 decode_be_u64 8
  using read_be_codec[where 'a = 64 and n = 8] unfolding encode_be_u64_def [abs_def] decode_be_u64_def [abs_def] by simp

interpretation le_u16: fixed_codec encode_le_u16 decode_le_u16 2
  using read_le_codec[where 'a = 16 and n = 2] unfolding encode_le_u16_def [abs_def] decode_le_u16_def [abs_def] by simp

interpretation le_u32: fixed_codec encode_le_u32 decode_le_u32 4
  using read_le_codec[where 'a = 32 and n = 4] unfolding encode_le_u32_def [abs_def] decode_le_u32_def [abs_def] by simp

interpretation le_u64: fixed_codec encode_le_u64 decode_le_u64 8
  using read_le_codec[where 'a = 64 and n = 8] unfolding encode_le_u64_def [abs_def] decode_le_u64_def [abs_def] by simp

interpretation i8: fixed_codec encode_i8 decode_i8 1
  using read_le_codec[where 'a = 8 and n = 1] unfolding encode_i8_def [abs_def] decode_i8_def [abs_def]
  by (simp del: le_bytes.simps)

interpretation be_i16: fixed_codec encode_be_i16 decode_be_i16 2
  using read_be_codec[where 'a = 16 and n = 2] unfolding encode_be_i16_def [abs_def] decode_be_i16_def [abs_def] by simp

interpretation be_i32: fixed_codec encode_be_i32 decode_be_i32 4
  using read_be_codec[where 'a = 32 and n = 4] unfolding encode_be_i32_def [abs_def] decode_be_i32_def [abs_def] by simp

interpretation be_i64: fixed_codec encode_be_i64 decode_be_i64 8
  using read_be_codec[where 'a = 64 and n = 8] unfolding encode_be_i64_def [abs_def] decode_be_i64_def [abs_def] by simp

interpretation le_i16: fixed_codec encode_le_i16 decode_le_i16 2
  using read_le_codec[where 'a = 16 and n = 2] unfolding encode_le_i16_def [abs_def] decode_le_i16_def [abs_def] by simp

interpretation le_i32: fixed_codec encode_le_i32 decode_le_i32 4
  using read_le_codec[where 'a = 32 and n = 4] unfolding encode_le_i32_def [abs_def] decode_le_i32_def [abs_def] by simp

interpretation le_i64: fixed_codec encode_le_i64 decode_le_i64 8
  using read_le_codec[where 'a = 64 and n = 8] unfolding encode_le_i64_def [abs_def] decode_le_i64_def [abs_def] by simp

interpretation be_f32: fixed_codec encode_be_f32 decode_be_f32 4
  using read_be_codec[where 'a = 32 and n = 4] unfolding encode_be_f32_def [abs_def] decode_be_f32_def [abs_def] by simp

interpretation be_f64: fixed_codec encode_be_f64 decode_be_f64 8
  using read_be_codec[where 'a = 64 and n = 8] unfolding encode_be_f64_def [abs_def] decode_be_f64_def [abs_def] by simp

interpretation le_f32: fixed_codec encode_le_f32 decode_le_f32 4
  using read_le_codec[where 'a = 32 and n = 4] unfolding encode_le_f32_def [abs_def] decode_le_f32_def [abs_def] by simp

interpretation le_f64: fixed_codec encode_le_f64 decode_le_f64 8
  using read_le_codec[where 'a = 64 and n = 8] unfolding encode_le_f64_def [abs_def] decode_le_f64_def [abs_def] by simp

end
