(* ===== verification/Vm_Types.thy ===== *)
theory Vm_Types
  imports Instruction_Set Bin_Tools
begin

text \<open>
  \<open>purple_vm/src/primitives/type.rs\<close> and \<open>value.rs\<close>: the types and values of the machine.
  An array value carries the list of its elements; \<open>wf_value\<close> says the list has the length of
  its variant.  Addition of floats is the target's IEEE-754 addition and a parameter
  (\<open>fadd32\<close>, \<open>fadd64\<close>, on bit patterns); equality of floats is written out.  Addition of integers
  depends on whether the program was compiled with overflow checks, which is a parameter too.
\<close>

section \<open>Types\<close>

text \<open>
  \<open>bits_get\<close> is \<open>bitvec::Bits::get\<close> of the third-party crate \<open>bitvec\<close>: bit \<open>i\<close> of a byte, or a
  panic (\<open>None\<close>) when the crate rejects the index.  It is an argument of every definition
  that uses it.
\<close>

type_synonym bits_get = "u8 \<Rightarrow> u8 \<Rightarrow> bool option"

unbundle bit_operations_syntax

datatype VmType =
    I32 | I64 | F32 | F64
  | i32Array2 | i32Array4 | i32Array8 | i32Array16 | i32Array32 | i32Array64 | i32Array128 | i32Array256
  | i64Array2 | i64Array4 | i64Array8 | i64Array16 | i64Array32 | i64Array64 | i64Array128 | i64Array256
  | f32Array2 | f32Array4 | f32Array8 | f32Array16 | f32Array32 | f32Array64 | f32Array128 | f32Array256
  | f64Array2 | f64Array4 | f64Array8 | f64Array16 | f64Array32 | f64Array64 | f64Array128 | f64Array256

primrec const_type :: "ConstOp \<Rightarrow> VmType" where
  "const_type ConstOp.i32Const = VmType.I32"
| "const_type ConstOp.i64Const = VmType.I64"
| "const_type ConstOp.f32Const = VmType.F32"
| "const_type ConstOp.f64Const = VmType.F64"
| "const_type ConstOp.i32Array2 = VmType.i32Array2"
| "const_type ConstOp.i32Array4 = VmType.i32Array4"
| "const_type ConstOp.i32Array8 = VmType.i32Array8"
| "const_type ConstOp.i32Array16 = VmType.i32Array16"
| "const_type ConstOp.i32Array32 = VmType.i32Array32"
| "const_type ConstOp.i32Array64 = VmType.i32Array64"
| "const_type ConstOp.i32Array128 = VmType.i32Array128"
| "const_type ConstOp.i32Array256 = VmType.i32Array256"
| "const_type ConstOp.i64Array2 = VmType.i64Array2"
| "const_type ConstOp.i64Array4 = VmType.i64Array4"
| "const_type ConstOp.i64Array8 = VmType.i64Array8"
| "const_type ConstOp.i64Array16 = VmType.i64Array16"
| "const_type ConstOp.i64Array32 = VmType.i64Array32"
| "const_type ConstOp.i64Array64 = VmType.i64Array64"
| "const_type ConstOp.i64Array128 = VmType.i64Array128"
| "const_type ConstOp.i64Array256 = VmType.i64Array256"
| "const_type ConstOp.f32Array2 = VmType.f32Array2"
| "const_type ConstOp.f32Array4 = VmType.f32Array4"
| "const_type ConstOp.f32Array8 = VmType.f32Array8"
| "const_type ConstOp.f32Array16 = VmType.f32Array16"
| "const_type ConstOp.f32Array32 = VmType.f32Array32"
| "const_type ConstOp.f32Array64 = VmType.f32Array64"
| "const_type ConstOp.f32Array128 = VmType.f32Array128"
| "const_type ConstOp.f32Array256 = VmType.f32Array256"
| "const_type ConstOp.f64Array2 = VmType.f64Array2"
| "const_type ConstOp.f64Array4 = VmType.f64Array4"
| "const_type ConstOp.f64Array8 = VmType.f64Array8"
| "const_type ConstOp.f64Array16 = VmType.f64Array16"
| "const_type ConstOp.f64Array32 = VmType.f64Array32"
| "const_type ConstOp.f64Array64 = VmType.f64Array64"
| "const_type ConstOp.f64Array128 = VmType.f64Array128"
| "const_type ConstOp.f64Array256 = VmType.f64Array256"

definition from_op :: "u8 \<Rightarrow> VmType option" where
  "from_op op = (case from_repr op of Some (Const c) \<Rightarrow> Some (const_type c) | _ \<Rightarrow> None)"

fun byte_size :: "VmType \<Rightarrow> nat option" where
  "byte_size VmType.I32 = Some 4"
| "byte_size VmType.I64 = Some 8"
| "byte_size VmType.F32 = Some 4"
| "byte_size VmType.F64 = Some 8"
| "byte_size VmType.i32Array2 = Some 8"
| "byte_size VmType.i32Array4 = Some 16"
| "byte_size VmType.i32Array8 = Some 32"
| "byte_size VmType.i64Array2 = Some 16"
| "byte_size VmType.i64Array4 = Some 32"
| "byte_size VmType.i64Array8 = Some 64"
| "byte_size VmType.f32Array2 = Some 8"
| "byte_size VmType.f32Array4 = Some 16"
| "byte_size VmType.f32Array8 = Some 32"
| "byte_size VmType.f64Array2 = Some 16"
| "byte_size VmType.f64Array4 = Some 32"
| "byte_size VmType.f64Array8 = Some 64"
| "byte_size _ = None"

text \<open>The array arms are \<open>unimplemented!()\<close>, the rest \<open>panic!()\<close>.\<close>

definition validate_structure :: "VmType \<Rightarrow> u8 list \<Rightarrow> bool option" where
  "validate_structure t buf = do {
     n \<leftarrow> byte_size t;
     if length buf \<noteq> n then Some False
     else (case t of
         VmType.I32 \<Rightarrow> Some (decode_be_i32 buf \<noteq> None)
       | VmType.I64 \<Rightarrow> Some (decode_be_i64 buf \<noteq> None)
       | VmType.F32 \<Rightarrow> Some (decode_be_f32 buf \<noteq> None)
       | VmType.F64 \<Rightarrow> Some (decode_be_f64 buf \<noteq> None)
       | _ \<Rightarrow> None)
   }"

section \<open>Values\<close>

datatype VmValue =
    I32 i32 | I64 i64 | F32 f32 | F64 f64
  | i32Array2 "i32 list" | i32Array4 "i32 list" | i32Array8 "i32 list" | i32Array16 "i32 list"
  | i32Array32 "i32 list" | i32Array64 "i32 list" | i32Array128 "i32 list" | i32Array256 "i32 list"
  | i64Array2 "i64 list" | i64Array4 "i64 list" | i64Array8 "i64 list" | i64Array16 "i64 list"
  | i64Array32 "i64 list" | i64Array64 "i64 list" | i64Array128 "i64 list" | i64Array256 "i64 list"
  | f32Array2 "f32 list" | f32Array4 "f32 list" | f32Array8 "f32 list" | f32Array16 "f32 list"
  | f32Array32 "f32 list" | f32Array64 "f32 list" | f32Array128 "f32 list" | f32Array256 "f32 list"
  | f64Array2 "f64 list" | f64Array4 "f64 list" | f64Array8 "f64 list" | f64Array16 "f64 list"
  | f64Array32 "f64 list" | f64Array64 "f64 list" | f64Array128 "f64 list" | f64Array256 "f64 list"

fun value_byte_size :: "VmValue \<Rightarrow> nat option" where
  "value_byte_size (VmValue.I32 _) = Some 4"
| "value_byte_size (VmValue.I64 _) = Some 8"
| "value_byte_size (VmValue.F32 _) = Some 4"
| "value_byte_size (VmValue.F64 _) = Some 8"
| "value_byte_size (VmValue.i32Array2 _) = Some 8"
| "value_byte_size (VmValue.i32Array4 _) = Some 16"
| "value_byte_size (VmValue.i32Array8 _) = Some 32"
| "value_byte_size (VmValue.i64Array2 _) = Some 16"
| "value_byte_size (VmValue.i64Array4 _) = Some 32"
| "value_byte_size (VmValue.i64Array8 _) = Some 64"
| "value_byte_size (VmValue.f32Array2 _) = Some 8"
| "value_byte_size (VmValue.f32Array4 _) = Some 16"
| "value_byte_size (VmValue.f32Array8 _) = Some 32"
| "value_byte_size (VmValue.f64Array2 _) = Some 8"
| "value_byte_size (VmValue.f64Array4 _) = Some 16"
| "value_byte_size (VmValue.f64Array8 _) = Some 32"
| "value_byte_size _ = None"

text \<open>The type a value has.\<close>

primrec value_type :: "VmValue \<Rightarrow> VmType" where
  "value_type (VmValue.I32 _) = VmType.I32"
| "value_type (VmValue.I64 _) = VmType.I64"
| "value_type (VmValue.F32 _) = VmType.F32"
| "value_type (VmValue.F64 _) = VmType.F64"
| "value_type (VmValue.i32Array2 _) = VmType.i32Array2"
| "value_type (VmValue.i32Array4 _) = VmType.i32Array4"
| "value_type (VmValue.i32Array8 _) = VmType.i32Array8"
| "value_type (VmValue.i32Array16 _) = VmType.i32Array16"
| "value_type (VmValue.i32Array32 _) = VmType.i32Array32"
| "value_type (VmValue.i32Array64 _) = VmType.i32Array64"
| "value_type (VmValue.i32Array128 _) = VmType.i32Array128"
| "value_type (VmValue.i32Array256 _) = VmType.i32Array256"
| "value_type (VmValue.i64Array2 _) = VmType.i64Array2"
| "value_type (VmValue.i64Array4 _) = VmType.i64Array4"
| "value_type (VmValue.i64Array8 _) = VmType.i64Array8"
| "value_type (VmValue.i64Array16 _) = VmType.i64Array16"
| "value_type (VmValue.i64Array32 _) = VmType.i64Array32"
| "value_type (VmValue.i64Array64 _) = VmType.i64Array64"
| "value_type (VmValue.i64Array128 _) = VmType.i64Array128"
| "value_type (VmValue.i64Array256 _) = VmType.i64Array256"
| "value_type (VmValue.f32Array2 _) = VmType.f32Array2"
| "value_type (VmValue.f32Array4 _) = VmType.f32Array4"
| "value_type (VmValue.f32Array8 _) = VmType.f32Array8"
| "value_type (VmValue.f32Array16 _) = VmType.f32Array16"
| "value_type (VmValue.f32Array32 _) = VmType.f32Array32"
| "value_type (VmValue.f32Array64 _) = VmType.f32Array64"
| "value_type (VmValue.f32Array128 _) = VmType.f32Array128"
| "value_type (VmValue.f32Array256 _) = VmType.f32Array256"
| "value_type (VmValue.f64Array2 _) = VmType.f64Array2"
| "value_type (VmValue.f64Array4 _) = VmType.f64Array4"
| "value_type (VmValue.f64Array8 _) = VmType.f64Array8"
| "value_type (VmValue.f64Array16 _) = VmType.f64Array16"
| "value_type (VmValue.f64Array32 _) = VmType.f64Array32"
| "value_type (VmValue.f64Array64 _) = VmType.f64Array64"
| "value_type (VmValue.f64Array128 _) = VmType.f64Array128"
| "value_type (VmValue.f64Array256 _) = VmType.f64Array256"

fun wf_value :: "VmValue \<Rightarrow> bool" where
  "wf_value (VmValue.i32Array2 xs) = (length xs = 2)"
| "wf_value (VmValue.i32Array4 xs) = (length xs = 4)"
| "wf_value (VmValue.i32Array8 xs) = (length xs = 8)"
| "wf_value (VmValue.i32Array16 xs) = (length xs = 16)"
| "wf_value (VmValue.i32Array32 xs) = (length xs = 32)"
| "wf_value (VmValue.i32Array64 xs) = (length xs = 64)"
| "wf_value (VmValue.i32Array128 xs) = (length xs = 128)"
| "wf_value (VmValue.i32Array256 xs) = (length xs = 256)"
| "wf_value (VmValue.i64Array2 xs) = (length xs = 2)"
| "wf_value (VmValue.i64Array4 xs) = (length xs = 4)"
| "wf_value (VmValue.i64Array8 xs) = (length xs = 8)"
| "wf_value (VmValue.i64Array16 xs) = (length xs = 16)"
| "wf_value (VmValue.i64Array32 xs) = (length xs = 32)"
| "wf_value (VmValue.i64Array64 xs) = (length xs = 64)"
| "wf_value (VmValue.i64Array128 xs) = (length xs = 128)"
| "wf_value (VmValue.i64Array256 xs) = (length xs = 256)"
| "wf_value (VmValue.f32Array2 xs) = (length xs = 2)"
| "wf_value (VmValue.f32Array4 xs) = (length xs = 4)"
| "wf_value (VmValue.f32Array8 xs) = (length xs = 8)"
| "wf_value (VmValue.f32Array16 xs) = (length xs = 16)"
| "wf_value (VmValue.f32Array32 xs) = (length xs = 32)"
| "wf_value (VmValue.f32Array64 xs) = (length xs = 64)"
| "wf_value (VmValue.f32Array128 xs) = (length xs = 128)"
| "wf_value (VmValue.f32Array256 xs) = (length xs = 256)"
| "wf_value (VmValue.f64Array2 xs) = (length xs = 2)"
| "wf_value (VmValue.f64Array4 xs) = (length xs = 4)"
| "wf_value (VmValue.f64Array8 xs) = (length xs = 8)"
| "wf_value (VmValue.f64Array16 xs) = (length xs = 16)"
| "wf_value (VmValue.f64Array32 xs) = (length xs = 32)"
| "wf_value (VmValue.f64Array64 xs) = (length xs = 64)"
| "wf_value (VmValue.f64Array128 xs) = (length xs = 128)"
| "wf_value (VmValue.f64Array256 xs) = (length xs = 256)"
| "wf_value _ = True"

text \<open>IEEE-754 equality on bit patterns: NaN is not equal to itself, the two zeros are equal.\<close>

definition f32_is_nan :: "f32 \<Rightarrow> bool" where
  "f32_is_nan a = (0x7f800000 < (a AND 0x7fffffff))"

definition f64_is_nan :: "f64 \<Rightarrow> bool" where
  "f64_is_nan a = (0x7ff0000000000000 < (a AND 0x7fffffffffffffff))"

definition f32_eq :: "f32 \<Rightarrow> f32 \<Rightarrow> bool" where
  "f32_eq a b = (\<not> f32_is_nan a \<and> \<not> f32_is_nan b \<and>
     (a = b \<or> (a AND 0x7fffffff = 0 \<and> b AND 0x7fffffff = 0)))"

definition f64_eq :: "f64 \<Rightarrow> f64 \<Rightarrow> bool" where
  "f64_eq a b = (\<not> f64_is_nan a \<and> \<not> f64_is_nan b \<and>
     (a = b \<or> (a AND 0x7fffffffffffffff = 0 \<and> b AND 0x7fffffffffffffff = 0)))"

text \<open>\<open>PartialEq::eq\<close>; it panics between different variants and on the longer arrays.\<close>

primrec value_eq :: "VmValue \<Rightarrow> VmValue \<Rightarrow> bool option" where
  "value_eq (VmValue.I32 x) w =
     (case w of VmValue.I32 y \<Rightarrow> Some (x = y) | _ \<Rightarrow> None)"
| "value_eq (VmValue.I64 x) w =
     (case w of VmValue.I64 y \<Rightarrow> Some (x = y) | _ \<Rightarrow> None)"
| "value_eq (VmValue.F32 x) w =
     (case w of VmValue.F32 y \<Rightarrow> Some (f32_eq x y) | _ \<Rightarrow> None)"
| "value_eq (VmValue.F64 x) w =
     (case w of VmValue.F64 y \<Rightarrow> Some (f64_eq x y) | _ \<Rightarrow> None)"
| "value_eq (VmValue.i32Array2 x) w =
     (case w of VmValue.i32Array2 y \<Rightarrow> Some (x = y) | _ \<Rightarrow> None)"
| "value_eq (VmValue.i32Array4 x) w =
     (case w of VmValue.i32Array4 y \<Rightarrow> Some (x = y) | _ \<Rightarrow> None)"
| "value_eq (VmValue.i32Array8 x) w =
     (case w of VmValue.i32Array8 y \<Rightarrow> Some (x = y) | _ \<Rightarrow> None)"
| "value_eq (VmValue.i64Array2 x) w =
     (case w of VmValue.i64Array2 y \<Rightarrow> Some (x = y) | _ \<Rightarrow> None)"
| "value_eq (VmValue.i64Array4 x) w =
     (case w of VmValue.i64Array4 y \<Rightarrow> Some (x = y) | _ \<Rightarrow> None)"
| "value_eq (VmValue.i64Array8 x) w =
     (case w of VmValue.i64Array8 y \<Rightarrow> Some (x = y) | _ \<Rightarrow> None)"
| "value_eq (VmValue.f32Array2 x) w =
     (case w of VmValue.f32Array2 y \<Rightarrow> Some (list_all2 f32_eq x y) | _ \<Rightarrow> None)"
| "value_eq (VmValue.f32Array4 x) w =
     (case w of VmValue.f32Array4 y \<Rightarrow> Some (list_all2 f32_eq x y) | _ \<Rightarrow> None)"
| "value_eq (VmValue.f32Array8 x) w =
     (case w of VmValue.f32Array8 y \<Rightarrow> Some (list_all2 f32_eq x y) | _ \<Rightarrow> None)"
| "value_eq (VmValue.f64Array2 x) w =
     (case w of VmValue.f64Array2 y \<Rightarrow> Some (list_all2 f64_eq x y) | _ \<Rightarrow> None)"
| "value_eq (VmValue.f64Array4 x) w =
     (case w of VmValue.f64Array4 y \<Rightarrow> Some (list_all2 f64_eq x y) | _ \<Rightarrow> None)"
| "value_eq (VmValue.f64Array8 x) w =
     (case w of VmValue.f64Array8 y \<Rightarrow> Some (list_all2 f64_eq x y) | _ \<Rightarrow> None)"
| "value_eq (VmValue.i32Array16 x) w = None"
| "value_eq (VmValue.i32Array32 x) w = None"
| "value_eq (VmValue.i32Array64 x) w = None"
| "value_eq (VmValue.i32Array128 x) w = None"
| "value_eq (VmValue.i32Array256 x) w = None"
| "value_eq (VmValue.i64Array16 x) w = None"
| "value_eq (VmValue.i64Array32 x) w = None"
| "value_eq (VmValue.i64Array64 x) w = None"
| "value_eq (VmValue.i64Array128 x) w = None"
| "value_eq (VmValue.i64Array256 x) w = None"
| "value_eq (VmValue.f32Array16 x) w = None"
| "value_eq (VmValue.f32Array32 x) w = None"
| "value_eq (VmValue.f32Array64 x) w = None"
| "value_eq (VmValue.f32Array128 x) w = None"
| "value_eq (VmValue.f32Array256 x) w = None"
| "value_eq (VmValue.f64Array16 x) w = None"
| "value_eq (VmValue.f64Array32 x) w = None"
| "value_eq (VmValue.f64Array64 x) w = None"
| "value_eq (VmValue.f64Array128 x) w = None"
| "value_eq (VmValue.f64Array256 x) w = None"

text \<open>
  Addition of two integers, the plain \<open>+\<close> of \<open>value.rs\<close>: with overflow checks (the debug profile)
  a sum out of range panics, without them (the release profile) it wraps around.
\<close>

definition int_add :: "bool \<Rightarrow> 'a::len word \<Rightarrow> 'a word \<Rightarrow> 'a word option" where
  "int_add checks x y = (if checks then checked_sadd x y else Some (x + y))"

text \<open>Element-wise addition of two arrays: a panic of one element is a panic of the whole.\<close>

fun zip_add :: "('a \<Rightarrow> 'a \<Rightarrow> 'a option) \<Rightarrow> 'a list \<Rightarrow> 'a list \<Rightarrow> 'a list option" where
  "zip_add f (x # xs) (y # ys) = do { z \<leftarrow> f x y; zs \<leftarrow> zip_add f xs ys; Some (z # zs) }"
| "zip_add f _ _ = Some []"

primrec value_add ::
  "bool \<Rightarrow> (f32 \<Rightarrow> f32 \<Rightarrow> f32) \<Rightarrow> (f64 \<Rightarrow> f64 \<Rightarrow> f64) \<Rightarrow> VmValue \<Rightarrow> VmValue \<Rightarrow> VmValue option" where
  "value_add checks fadd32 fadd64 (VmValue.I32 x) w =
     (case w of VmValue.I32 y \<Rightarrow> map_option VmValue.I32 (int_add checks x y)
      | _ \<Rightarrow> None)"
| "value_add checks fadd32 fadd64 (VmValue.I64 x) w =
     (case w of VmValue.I64 y \<Rightarrow> map_option VmValue.I64 (int_add checks x y)
      | _ \<Rightarrow> None)"
| "value_add checks fadd32 fadd64 (VmValue.F32 x) w =
     (case w of VmValue.F32 y \<Rightarrow> Some (VmValue.F32 (fadd32 x y))
      | _ \<Rightarrow> None)"
| "value_add checks fadd32 fadd64 (VmValue.F64 x) w =
     (case w of VmValue.F64 y \<Rightarrow> Some (VmValue.F64 (fadd64 x y))
      | _ \<Rightarrow> None)"
| "value_add checks fadd32 fadd64 (VmValue.i32Array2 x) w =
     (case w of VmValue.i32Array2 y \<Rightarrow> map_option VmValue.i32Array2 (zip_add (int_add checks) x y)
      | _ \<Rightarrow> None)"
| "value_add checks fadd32 fadd64 (VmValue.i32Array4 x) w =
     (case w of VmValue.i32Array4 y \<Rightarrow> map_option VmValue.i32Array4 (zip_add (int_add checks) x y)
      | _ \<Rightarrow> None)"
| "value_add checks fadd32 fadd64 (VmValue.i32Array8 x) w =
     (case w of VmValue.i32Array8 y \<Rightarrow> map_option VmValue.i32Array8 (zip_add (int_add checks) x y)
      | _ \<Rightarrow> None)"
| "value_add checks fadd32 fadd64 (VmValue.i64Array2 x) w =
     (case w of VmValue.i64Array2 y \<Rightarrow> map_option VmValue.i64Array2 (zip_add (int_add checks) x y)
      | _ \<Rightarrow> None)"
| "value_add checks fadd32 fadd64 (VmValue.i64Array4 x) w =
     (case w of VmValue.i64Array4 y \<Rightarrow> map_option VmValue.i64Array4 (zip_add (int_add checks) x y)
      | _ \<Rightarrow> None)"
| "value_add checks fadd32 fadd64 (VmValue.i64Array8 x) w =
     (case w of VmValue.i64Array8 y \<Rightarrow> map_option VmValue.i64Array8 (zip_add (int_add checks) x y)
      | _ \<Rightarrow> None)"
| "value_add checks fadd32 fadd64 (VmValue.f32Array2 x) w =
     (case w of VmValue.f32Array2 y \<Rightarrow> map_option VmValue.f32Array2 (zip_add (\<lambda>a b. Some (fadd32 a b)) x y)
      | _ \<Rightarrow> None)"
| "value_add checks fadd32 fadd64 (VmValue.f32Array4 x) w =
     (case w of VmValue.f32Array4 y \<Rightarrow> map_option VmValue.f32Array4 (zip_add (\<lambda>a b. Some (fadd32 a b)) x y)
      | _ \<Rightarrow> None)"
| "value_add checks fadd32 fadd64 (VmValue.f32Array8 x) w =
     (case w of VmValue.f32Array8 y \<Rightarrow> map_option VmValue.f32Array8 (zip_add (\<lambda>a b. Some (fadd32 a b)) x y)
      | _ \<Rightarrow> None)"
| "value_add checks fadd32 fadd64 (VmValue.f64Array2 x) w =
     (case w of VmValue.f64Array2 y \<Rightarrow> map_option VmValue.f64Array2 (zip_add (\<lambda>a b. Some (fadd64 a b)) x y)
      | _ \<Rightarrow> None)"
| "value_add checks fadd32 fadd64 (VmValue.f64Array4 x) w =
     (case w of VmValue.f64Array4 y \<Rightarrow> map_option VmValue.f64Array4 (zip_add (\<lambda>a b. Some (fadd64 a b)) x y)
      | _ \<Rightarrow> None)"
| "value_add checks fadd32 fadd64 (VmValue.f64Array8 x) w =
     (case w of VmValue.f64Array8 y \<Rightarrow> map_option VmValue.f64Array8 (zip_add (\<lambda>a b. Some (fadd64 a b)) x y)
      | _ \<Rightarrow> None)"
| "value_add checks fadd32 fadd64 (VmValue.i32Array16 x) w = None"
| "value_add checks fadd32 fadd64 (VmValue.i32Array32 x) w = None"
| "value_add checks fadd32 fadd64 (VmValue.i32Array64 x) w = None"
| "value_add checks fadd32 fadd64 (VmValue.i32Array128 x) w = None"
| "value_add checks fadd32 fadd64 (VmValue.i32Array256 x) w = None"
| "value_add checks fadd32 fadd64 (VmValue.i64Array16 x) w = None"
| "value_add checks fadd32 fadd64 (VmValue.i64Array32 x) w = None"
| "value_add checks fadd32 fadd64 (VmValue.i64Array64 x) w = None"
| "value_add checks fadd32 fadd64 (VmValue.i64Array128 x) w = None"
| "value_add checks fadd32 fadd64 (VmValue.i64Array256 x) w = None"
| "value_add checks fadd32 fadd64 (VmValue.f32Array16 x) w = None"
| "value_add checks fadd32 fadd64 (VmValue.f32Array32 x) w = None"
| "value_add checks fadd32 fadd64 (VmValue.f32Array64 x) w = None"
| "value_add checks fadd32 fadd64 (VmValue.f32Array128 x) w = None"
| "value_add checks fadd32 fadd64 (VmValue.f32Array256 x) w = None"
| "value_add checks fadd32 fadd64 (VmValue.f64Array16 x) w = None"
| "value_add checks fadd32 fadd64 (VmValue.f64Array32 x) w = None"
| "value_add checks fadd32 fadd64 (VmValue.f64Array64 x) w = None"
| "value_add checks fadd32 fadd64 (VmValue.f64Array128 x) w = None"
| "value_add checks fadd32 fadd64 (VmValue.f64Array256 x) w = None"

section \<open>Facts about types and values\<close>

lemma from_op_constOp [simp]: "from_op (constOp_repr c) = Some (const_type c)"
proof -
  have "from_repr (constOp_repr c) = Some (Const c)" by (rule from_repr_I) simp
  then show ?thesis by (simp add: from_op_def)
qed

lemma from_op_eq_Some_iff:
  "from_op b = Some t \<longleftrightarrow> (\<exists>c. b = constOp_repr c \<and> t = const_type c)"
proof
  assume "from_op b = Some t"
  then obtain c where "from_repr b = Some (Const c)" "t = const_type c"
    by (auto simp: from_op_def split: option.splits Instruction.splits)
  then show "\<exists>c. b = constOp_repr c \<and> t = const_type c"
    by (auto simp: from_repr_eq_Some_iff)
qed auto

lemma from_op_simps [simp]:
  "from_op 0x60 = Some VmType.I32" "from_op 0x61 = Some VmType.I64"
  "from_op 0x62 = Some VmType.F32" "from_op 0x63 = Some VmType.F64"
  by (simp_all add: from_op_def)

text \<open>
  \<open>VmValue::byte_size\<close> and \<open>VmType::byte_size\<close> disagree exactly on the arrays of \<open>f64\<close>.
\<close>

lemma value_byte_size_type:
  "value_byte_size v = byte_size (value_type v) \<longleftrightarrow>
     value_type v \<notin> {VmType.f64Array2, VmType.f64Array4, VmType.f64Array8}"
  by (cases v) simp_all

lemma validate_structure_True:
  "validate_structure t buf = Some True \<longleftrightarrow>
     (t = VmType.I32 \<or> t = VmType.F32) \<and> length buf = 4 \<or>
     (t = VmType.I64 \<or> t = VmType.F64) \<and> length buf = 8"
  by (cases t) (auto simp: validate_structure_def codec_defs read_be_def)

lemma zip_add_length: "zip_add f xs ys = Some zs \<Longrightarrow> length zs = min (length xs) (length ys)"
  by (induction f xs ys arbitrary: zs rule: zip_add.induct) (auto simp: bind_eq_Some_conv)

lemma value_add_type:
  "value_add c f g v w = Some u \<Longrightarrow> value_type v = value_type u \<and> value_type w = value_type u"
  by (cases v) (auto split: VmValue.splits)

lemma value_add_wf:
  "value_add c f g v w = Some u \<Longrightarrow> wf_value v \<Longrightarrow> wf_value w \<Longrightarrow> wf_value u"
  by (cases v) (auto split: VmValue.splits dest!: zip_add_length)

lemma value_eq_type: "value_eq v w = Some r \<Longrightarrow> value_type w = value_type v"
  by (cases v) (auto split: VmValue.splits)

lemma f32_eq_comm: "f32_eq a b = f32_eq b a"
  by (auto simp: f32_eq_def)

lemma f64_eq_comm: "f64_eq a b = f64_eq b a"
  by (auto simp: f64_eq_def)

lemma list_all2_comm: "(\<And>a b. P a b = P b a) \<Longrightarrow> list_all2 P xs ys = list_all2 P ys xs"
  by (auto simp: list_all2_conv_all_nth)

lemma value_eq_comm: "value_eq v w = value_eq w v"
  by (cases v; cases w)
    (simp_all add: eq_commute f32_eq_comm f64_eq_comm
      list_all2_comm[of f32_eq, OF f32_eq_comm] list_all2_comm[of f64_eq, OF f64_eq_comm])

end
