(* ===== verification/Vm_Stack.thy ===== *)
theory Vm_Stack
  imports Prelude
begin

text \<open>
  \<open>purple_vm/src/stack.rs\<close>, \<open>frame.rs\<close>, \<open>address.rs\<close> and \<open>primitives/control_flow.rs\<close>: the
  stack shared by the validator and the machine, the frames of the call stack and the
  instruction address.  A stack is the \<open>Vec\<close> of the source, bottom first: \<open>push\<close> appends and
  \<open>pick\<close> counts from the bottom.  \<open>peek_mut\<close>, which hands out a mutable reference, becomes
  \<open>stack_modify\<close>, which replaces the top element by the result of a computation on it.
\<close>

section \<open>The stack\<close>

definition stack_new :: "'a list" where
  "stack_new = []"

definition stack_is_empty :: "'a list \<Rightarrow> bool" where
  "stack_is_empty s = (s = [])"

definition stack_push :: "'a \<Rightarrow> 'a list \<Rightarrow> 'a list" where
  "stack_push v s = s @ [v]"

definition stack_pick :: "nat \<Rightarrow> 'a list \<Rightarrow> 'a list option" where
  "stack_pick idx s = (if length s \<le> idx then None else Some (s @ [s ! idx]))"

definition stack_pop :: "'a list \<Rightarrow> ('a \<times> 'a list) option" where
  "stack_pop s = vec_pop s"

definition stack_peek :: "'a list \<Rightarrow> 'a option" where
  "stack_peek s = (if length s = 0 then None else Some (s ! (length s - 1)))"

definition stack_modify :: "('a \<Rightarrow> ('b \<times> 'a) option) \<Rightarrow> 'a list \<Rightarrow> ('b \<times> 'a list) option" where
  "stack_modify f s =
     (if length s = 0 then None
      else do { (r, v) \<leftarrow> f (s ! (length s - 1)); Some (r, s[length s - 1 := v]) })"

definition stack_len :: "'a list \<Rightarrow> nat" where
  "stack_len s = length s"

lemma stack_peek_snoc [simp]: "stack_peek (s @ [v]) = Some v"
  by (simp add: stack_peek_def)

lemma stack_peek_Nil [simp]: "stack_peek [] = None"
  by (simp add: stack_peek_def)

lemma stack_peek_last: "s \<noteq> [] \<Longrightarrow> stack_peek s = Some (last s)"
  by (simp add: stack_peek_def last_conv_nth)

lemma stack_pop_snoc [simp]: "stack_pop (s @ [v]) = Some (v, s)"
  by (simp add: stack_pop_def)

lemma stack_pop_Nil [simp]: "stack_pop [] = None"
  by (simp add: stack_pop_def)

lemma stack_pop_iff: "stack_pop s = Some (v, t) \<longleftrightarrow> s = t @ [v]"
  by (simp add: stack_pop_def vec_pop_eq_Some_iff)

lemma stack_pop_Cons: "stack_pop (x # xs) = Some (last (x # xs), butlast (x # xs))"
  by (simp add: stack_pop_def vec_pop_def)

lemma stack_singleton [simp]:
  "stack_pop [v] = Some (v, [])" "stack_peek [v] = Some v"
  "stack_modify f [v] = do { (r, w) \<leftarrow> f v; Some (r, [w]) }"
  by (simp_all add: stack_pop_def vec_pop_def stack_peek_def stack_modify_def)

lemma stack_peek_Cons: "stack_peek (x # xs) = Some (last (x # xs))"
  by (rule stack_peek_last) simp

lemma stack_modify_snoc [simp]:
  "stack_modify f (s @ [v]) = do { (r, w) \<leftarrow> f v; Some (r, s @ [w]) }"
  by (simp add: stack_modify_def)

lemma stack_modify_Nil [simp]: "stack_modify f [] = None"
  by (simp add: stack_modify_def)

lemma stack_modify_iff:
  "stack_modify f s = Some (r, t) \<longleftrightarrow>
     (\<exists>u v w. s = u @ [v] \<and> f v = Some (r, w) \<and> t = u @ [w])"
  by (cases s rule: rev_cases) (auto simp: bind_eq_Some_conv)

lemma stack_pick_iff:
  "stack_pick i s = Some t \<longleftrightarrow> i < length s \<and> t = s @ [s ! i]"
  by (auto simp: stack_pick_def not_le)

lemmas stack_defs = stack_new_def stack_is_empty_def stack_push_def stack_len_def
lemmas stack_iffs = stack_pop_iff stack_modify_iff stack_pick_iff

text \<open>
  What the validator and the machine rely on: last in, first out, a panic exactly on the empty
  stack, and access to the top element only.  \<open>abs\<close> lists the elements from the top.
\<close>

locale lifo =
  fixes new :: "'s" and push :: "'a \<Rightarrow> 's \<Rightarrow> 's" and pop :: "'s \<Rightarrow> ('a \<times> 's) option"
    and peek :: "'s \<Rightarrow> 'a option" and len :: "'s \<Rightarrow> nat" and abs :: "'s \<Rightarrow> 'a list"
  assumes abs_new: "abs new = []"
    and abs_push: "abs (push v s) = v # abs s"
    and pop_spec: "pop s = Some (v, t) \<Longrightarrow> abs s = v # abs t"
    and pop_panics: "pop s = None \<longleftrightarrow> abs s = []"
    and peek_spec: "peek s = (case abs s of [] \<Rightarrow> None | v # _ \<Rightarrow> Some v)"
    and len_spec: "len s = length (abs s)"
begin

lemma pop_push: "\<exists>t. pop (push v s) = Some (v, t) \<and> abs t = abs s"
proof -
  have "pop (push v s) \<noteq> None" by (simp add: pop_panics abs_push)
  then obtain w t where "pop (push v s) = Some (w, t)" by auto
  with pop_spec[OF this] show ?thesis by (simp add: abs_push)
qed

lemma peek_push: "peek (push v s) = Some v"
  by (simp add: peek_spec abs_push)

lemma pop_peek: "pop s = Some (v, t) \<Longrightarrow> peek s = Some v \<and> len s = Suc (len t)"
  by (simp add: peek_spec len_spec pop_spec)

lemma pops_in_reverse: "abs (fold push vs s) = rev vs @ abs s"
  by (induction vs arbitrary: s) (simp_all add: abs_push)

end

interpretation stack: lifo stack_new stack_push stack_pop stack_peek stack_len rev
proof
  fix s t :: "'a list" and v :: 'a
  show "rev stack_new = ([] :: 'a list)" by (simp add: stack_new_def)
  show "rev (stack_push v s) = v # rev s" by (simp add: stack_push_def)
  show "stack_pop s = Some (v, t) \<Longrightarrow> rev s = v # rev t" by (simp add: stack_pop_iff)
  show "(stack_pop s = None) = (rev s = [])" by (simp add: stack_pop_def)
  show "stack_peek s = (case rev s of [] \<Rightarrow> None | v # _ \<Rightarrow> Some v)"
    by (cases s rule: rev_cases) simp_all
  show "stack_len s = length (rev s)" by (simp add: stack_len_def)
qed

section \<open>Addresses and frames\<close>

record Address =
  ip :: nat
  fun_idx :: nat
  module_idx :: nat

definition address_new :: "nat \<Rightarrow> nat \<Rightarrow> nat \<Rightarrow> Address" where
  "address_new i f m = \<lparr>ip = i, fun_idx = f, module_idx = m\<rparr>"

definition increment :: "Address \<Rightarrow> Address" where
  "increment a = a\<lparr>ip := ip a + 1\<rparr>"

definition set_ip :: "nat \<Rightarrow> Address \<Rightarrow> Address" where
  "set_ip new_ip a = a\<lparr>ip := new_ip\<rparr>"

datatype CfOperator = Begin | Loop | If | Else

record 't Frame =
  locals :: "'t list"
  scope_type :: "CfOperator option"
  return_address :: "Address option"

text \<open>The \<open>for\<close> loop of \<open>Frame::new\<close> pushes the arguments one by one.\<close>

definition frame_new ::
  "CfOperator option \<Rightarrow> Address option \<Rightarrow> 't list option \<Rightarrow> 't Frame" where
  "frame_new sc ra argv =
     \<lparr>locals = (case argv of None \<Rightarrow> stack_new | Some args \<Rightarrow> fold stack_push args stack_new),
      scope_type = sc, return_address = ra\<rparr>"

lemma fold_stack_push: "fold stack_push args s = s @ args"
  by (induction args arbitrary: s) (simp_all add: stack_push_def)

lemma frame_new_simps [simp]:
  "locals (frame_new sc ra None) = []"
  "locals (frame_new sc ra (Some args)) = args"
  "scope_type (frame_new sc ra argv) = sc"
  "return_address (frame_new sc ra argv) = ra"
  by (simp_all add: frame_new_def stack_new_def fold_stack_push)

lemma increment_simps [simp]:
  "ip (increment a) = ip a + 1" "fun_idx (increment a) = fun_idx a"
  "module_idx (increment a) = module_idx a"
  by (simp_all add: increment_def)

lemma set_ip_simps [simp]:
  "ip (set_ip n a) = n" "fun_idx (set_ip n a) = fun_idx a"
  "module_idx (set_ip n a) = module_idx a"
  by (simp_all add: set_ip_def)

text \<open>
  Taking the arguments of a block from a frame: \<open>arity\<close> times \<open>buf.push(frame.locals.pop())\<close>,
  then \<open>buf.reverse()\<close>.  The validator and the machine both contain this loop several times.
\<close>

definition pop_args :: "nat \<Rightarrow> 't Frame \<Rightarrow> ('t list \<times> 't Frame) option" where
  "pop_args arity frame = do {
     (ls, buf) \<leftarrow> repeatm arity
        (\<lambda>(xs, buf). do { (x, ys) \<leftarrow> stack_pop xs; Some (ys, buf @ [x]) }) (locals frame, []);
     Some (rev buf, frame\<lparr>locals := ls\<rparr>)
   }"

text \<open>The block receives the top \<open>arity\<close> locals in their original order.\<close>

lemma pop_args_eq:
  "pop_args arity frame =
     (if arity \<le> length (locals frame)
      then Some (drop (length (locals frame) - arity) (locals frame),
                 frame\<lparr>locals := take (length (locals frame) - arity) (locals frame)\<rparr>)
      else None)"
  unfolding pop_args_def stack_pop_def by (simp add: repeatm_pop)

lemma pop_args_append:
  assumes "pop_args arity frame = Some (buf, frame')"
  shows "locals frame = locals frame' @ buf" "length buf = arity"
    "scope_type frame' = scope_type frame" "return_address frame' = return_address frame"
  using assms by (auto simp: pop_args_eq split: if_splits)

end
