(* ===== verification/Validator.thy ===== *)
theory Validator
  imports Vm_Types Vm_Stack
begin

text \<open>
  The code validator \<open>purple_vm/src/code/validator.rs\<close> and \<open>validate_block\<close> of
  \<open>purple_vm/src/code/mod.rs\<close>.  The validator is a push automaton: \<open>push_op\<close> takes one byte of
  a block of code; the field \<open>transitions\<close> says which bytes may come next, the validation stack
  collects the operands of the instruction being read and the call stack mirrors the frames the
  machine would have, with types in place of values.

  The parameter \<open>bits_get\<close> (see \<open>Vm_Types\<close>) reads a bit of the argument bitmask.
\<close>

section \<open>State\<close>

datatype Validity = Valid | Invalid | IrrefutablyInvalid

record Validator =
  v_state :: Validity
  v_transitions :: "Transition list"
  v_validation_stack :: "(u8 \<times> bool) list"
  v_validation_buffer :: "u8 list"
  v_call_stack :: "VmType Frame list"
  v_operand_stack :: "VmType list"
  v_last_arity :: "u8 option"

definition validator_new :: Validator where
  "validator_new = \<lparr>v_state = Invalid, v_transitions = [], v_validation_stack = stack_new,
     v_validation_buffer = [], v_call_stack = stack_new, v_operand_stack = stack_new,
     v_last_arity = None\<rparr>"

definition ARITY_TRANSITIONS :: "Transition list" where
  "ARITY_TRANSITIONS = map (\<lambda>x. Byte (of_nat x)) [0..<9]"

definition ARG_DECLARATIONS :: "Transition list" where
  "ARG_DECLARATIONS = [Byte (repr (Const i32Const)), Byte (repr (Const i64Const)),
     Byte (repr (Const f32Const)), Byte (repr (Const f64Const))]"

definition POP_TRANSITIONS :: "Transition list" where
  "POP_TRANSITIONS = [Byte (repr PopLocal), Byte (repr PopOperand)]"

section \<open>Reading an instruction\<close>

text \<open>\<open>for _ in 0..n { frame.locals.pop(); }\<close> on the top frame.\<close>

definition drop_locals :: "nat \<Rightarrow> 't Frame list \<Rightarrow> 't Frame list option" where
  "drop_locals n cs = do {
     (_, cs') \<leftarrow> stack_modify (\<lambda>frame. do {
        ls \<leftarrow> repeatm n (\<lambda>ls. do { (_, ls') \<leftarrow> stack_pop ls; Some ls' }) (locals frame);
        Some ((), frame\<lparr>locals := ls\<rparr>) }) cs;
     Some cs'
   }"

text \<open>An instruction that takes operands is put on the validation stack.\<close>

definition mark_op :: "Instruction \<Rightarrow> Validator \<Rightarrow> Validator" where
  "mark_op i v =
     v\<lparr>v_validation_stack := stack_push (repr i, True) (v_validation_stack v)\<rparr>"

definition next_of_instr :: "Instruction \<Rightarrow> Validator \<Rightarrow> (Transition list \<times> Validator) option" where
  "next_of_instr i v = (case i of
       PushLocal \<Rightarrow> Some (ARITY_TRANSITIONS, mark_op PushLocal v)
     | PushOperand \<Rightarrow> Some (ARITY_TRANSITIONS, mark_op PushOperand v)
     | PickLocal \<Rightarrow> Some ([AnyByte], mark_op PickLocal v)
     | Instruction.Loop \<Rightarrow> Some (ARITY_TRANSITIONS, mark_op Instruction.Loop v)
     | Instruction.If \<Rightarrow> Some (ARITY_TRANSITIONS, mark_op Instruction.If v)
     | Instruction.Else \<Rightarrow> Some (ARITY_TRANSITIONS, mark_op Instruction.Else v)
     | _ \<Rightarrow> do { ts \<leftarrow> transitions i; Some (ts, v) })"

text \<open>
  The arm \<open>Some(Transition::Op(op))\<close> of \<open>push_op\<close>: an \<open>End\<close> closes the top frame; the code is
  valid when that was the last one; otherwise the next transitions are computed.
\<close>

definition after_instr ::
  "bool \<Rightarrow> Instruction \<Rightarrow> Validator \<Rightarrow> (Validator \<times> Transition list option) option" where
  "after_instr allow_else i v1 = do {
     (nxt, v2) \<leftarrow> next_of_instr i v1;
     let has_loop = list_ex (\<lambda>frame. scope_type frame = Some Loop) (v_call_stack v2);
     let last_was_if = list_ex (\<lambda>t. t = Op Instruction.Else) (v_transitions v2);
     v3 \<leftarrow>
       (if i = Instruction.Else then Some v2
        else if last_was_if then do {
          last_arity \<leftarrow> v_last_arity v2;
          cs \<leftarrow> drop_locals (unat last_arity) (v_call_stack v2);
          Some (v2\<lparr>v_call_stack := cs\<rparr>)
        } else Some v2);
     Some (v3\<lparr>v_state := Invalid\<rparr>,
       Some (nxt @ (if has_loop then [Op Break, Op BreakIf] else [])
                 @ (if allow_else then [Op Instruction.Else] else [])))
   }"

definition push_instr :: "Validator \<Rightarrow> Instruction \<Rightarrow> (Validator \<times> Transition list option) option" where
  "push_instr v i = do {
     (allow_else, v1) \<leftarrow>
       (if i = End then do {
          frame \<leftarrow> stack_peek (v_call_stack v);
          (_, cs) \<leftarrow> stack_pop (v_call_stack v);
          Some (scope_type frame = Some If, v\<lparr>v_call_stack := cs\<rparr>)
        } else Some (False, v));
     if stack_len (v_call_stack v1) = 0 then Some (v1\<lparr>v_state := Valid\<rparr>, None)
     else after_instr allow_else i v1
   }"

section \<open>Reading the arity of a block\<close>

text \<open>
  The code shared by the arms \<open>Begin\<close> (nested), \<open>Loop\<close>, \<open>If\<close> and \<open>Else\<close>: read the arity, take
  that many locals from the top frame (an \<open>If\<close> puts a copy back, for its \<open>Else\<close>) and open the
  frame of the block.
\<close>

definition open_block ::
  "CfOperator \<Rightarrow> Instruction \<Rightarrow> Validator \<Rightarrow> u8 \<Rightarrow> (Validator \<times> Transition list option) option" where
  "open_block sc i v op = (case find (\<lambda>t. accepts_byte t op) ARITY_TRANSITIONS of
       Some (Byte arity) \<Rightarrow> do {
         let v1 = v\<lparr>v_last_arity := Some arity\<rparr>;
         top \<leftarrow> stack_peek (v_call_stack v1);
         if unat arity \<le> stack_len (locals top) then do {
           (buf, cs) \<leftarrow> stack_modify (\<lambda>frame. do {
              (buf, frame') \<leftarrow> pop_args (unat arity) frame;
              Some (buf, if sc = If then frame'\<lparr>locals := fold stack_push buf (locals frame')\<rparr>
                         else frame') }) (v_call_stack v1);
           ts \<leftarrow> transitions i;
           Some (v1\<lparr>v_call_stack := stack_push (frame_new (Some sc) None (Some buf)) cs,
                    v_state := Invalid\<rparr>, Some ts)
         } else Some (v1\<lparr>v_state := IrrefutablyInvalid\<rparr>, None)
       }
     | _ \<Rightarrow> Some (v\<lparr>v_state := IrrefutablyInvalid\<rparr>, None))"

text \<open>Every such arm first checks that the validation stack has one element and pops it.\<close>

definition pop_single :: "Validator \<Rightarrow> Validator option" where
  "pop_single v =
     (if stack_len (v_validation_stack v) \<noteq> 1 then None
      else do { (_, vs) \<leftarrow> stack_pop (v_validation_stack v);
                Some (v\<lparr>v_validation_stack := vs\<rparr>) })"

definition begin_arity ::
  "Validator \<Rightarrow> u8 \<Rightarrow> Transition \<Rightarrow> (Validator \<times> Transition list option) option" where
  "begin_arity v op t =
     (case t of
        Byte byte \<Rightarrow> do {
          v1 \<leftarrow> pop_single v;
          if stack_len (v_call_stack v1) = 1 \<and> byte = 0x00 then do {
            ts \<leftarrow> transitions Instruction.Begin;
            Some (v1\<lparr>v_state := Invalid\<rparr>, Some ts)
          } else if stack_len (v_call_stack v1) = 1 then
            Some (v1\<lparr>v_state := IrrefutablyInvalid\<rparr>, None)
          else open_block Begin Instruction.Begin v1 op
        }
      | _ \<Rightarrow> None)"

section \<open>Reading the operands of a push or a pick\<close>

fun get_next_elem_from :: "nat \<Rightarrow> (u8 \<times> bool) list \<Rightarrow> (VmType \<times> nat) option" where
  "get_next_elem_from idx [] = None"
| "get_next_elem_from idx ((byte, validated) # rest) =
     (if \<not> validated then do { t \<leftarrow> from_op byte; Some (t, idx) }
      else get_next_elem_from (idx + 1) rest)"

definition get_next_elem :: "(u8 \<times> bool) list \<Rightarrow> (VmType \<times> nat) option" where
  "get_next_elem val_stack = get_next_elem_from 0 val_stack"

definition irrefutable :: "Validator \<Rightarrow> Validator" where
  "irrefutable v = v\<lparr>v_state := IrrefutablyInvalid, v_validation_buffer := [],
     v_validation_stack := stack_new\<rparr>"

text \<open>Marking an element of the validation stack as done.\<close>

definition mark_done :: "nat \<Rightarrow> Validator \<Rightarrow> Validator option" where
  "mark_done idx v = do {
     (arg, _) \<leftarrow> index (v_validation_stack v) idx;
     vs \<leftarrow> index_set (v_validation_stack v) idx (arg, True);
     Some (v\<lparr>v_validation_stack := vs\<rparr>)
   }"

text \<open>The type of the item a pop instruction takes, and moving that item between the stacks.\<close>

definition popped_type :: "Instruction option \<Rightarrow> Validator \<Rightarrow> VmType option" where
  "popped_type instr v =
     (if instr = Some PopOperand then stack_peek (v_operand_stack v)
      else do { frame \<leftarrow> stack_peek (v_call_stack v); stack_peek (locals frame) })"

definition move_item :: "Instruction option \<Rightarrow> Validator \<Rightarrow> Validator option" where
  "move_item instr v =
     (if instr = Some PopOperand then do {
        (ty, os) \<leftarrow> stack_pop (v_operand_stack v);
        (_, cs) \<leftarrow> stack_modify
           (\<lambda>frame. Some ((), frame\<lparr>locals := stack_push ty (locals frame)\<rparr>)) (v_call_stack v);
        Some (v\<lparr>v_operand_stack := os, v_call_stack := cs\<rparr>)
      } else do {
        (ty, cs) \<leftarrow> stack_modify
           (\<lambda>frame. do { (ty, ls) \<leftarrow> stack_pop (locals frame);
                        Some (ty, frame\<lparr>locals := ls\<rparr>) }) (v_call_stack v);
        Some (v\<lparr>v_call_stack := cs, v_operand_stack := stack_push ty (v_operand_stack v)\<rparr>)
      })"

text \<open>
  An argument that is popped from a stack.  The boolean of the result is \<open>True\<close> when the Rust
  code returns from \<open>validate_push\<close> inside this branch.
\<close>

definition popped_arg ::
  "Validator \<Rightarrow> u8 \<Rightarrow> VmType \<Rightarrow> nat \<Rightarrow> bool \<Rightarrow> (bool \<times> Validator \<times> Transition list option) option" where
  "popped_arg v op arg_type elem_idx next_is_popped =
     (let instr = from_repr op; next_idx = elem_idx + 1 in
      if instr = Some PopLocal \<or> instr = Some PopOperand then do {
        (push_byte, _) \<leftarrow> index (v_validation_stack v) 0;
        let push_instruction = from_repr push_byte;
        v1 \<leftarrow> mark_done elem_idx v;
        if \<not> (instr = Some PopLocal \<and> push_instruction = Some PushOperand \<or>
             instr = Some PopOperand \<and> push_instruction = Some PushLocal)
        then Some (True, irrefutable v1, None)
        else do {
          at \<leftarrow> popped_type instr v1;
          if at \<noteq> arg_type then Some (True, irrefutable v1, None)
          else do {
            v2 \<leftarrow> move_item instr v1;
            let v3 = v2\<lparr>v_validation_buffer := [], v_state := Invalid\<rparr>;
            if next_idx = stack_len (v_validation_stack v3) then do {
              ts \<leftarrow> transitions Instruction.Begin;
              Some (False, v3\<lparr>v_validation_stack := stack_new\<rparr>, Some ts)
            } else Some (False, v3, if next_is_popped then None else Some [AnyByte])
          }
        }
      } else Some (False, irrefutable v, None))"

text \<open>An argument whose bytes follow in the code.\<close>

definition push_item :: "VmType \<Rightarrow> Validator \<Rightarrow> Validator option" where
  "push_item arg_type v = do {
     (push_byte, _) \<leftarrow> index (v_validation_stack v) 0;
     (case from_repr push_byte of
        Some PushLocal \<Rightarrow> do {
          (_, cs) \<leftarrow> stack_modify
             (\<lambda>frame. Some ((), frame\<lparr>locals := stack_push arg_type (locals frame)\<rparr>))
             (v_call_stack v);
          Some (v\<lparr>v_call_stack := cs\<rparr>)
        }
      | Some PushOperand \<Rightarrow> Some (v\<lparr>v_operand_stack := stack_push arg_type (v_operand_stack v)\<rparr>)
      | _ \<Rightarrow> None)
   }"

definition inline_arg ::
  "Validator \<Rightarrow> u8 \<Rightarrow> VmType \<Rightarrow> nat \<Rightarrow> nat \<Rightarrow> (Validator \<times> Transition list option) option" where
  "inline_arg v op arg_type elem_idx offset = do {
     let v1 = v\<lparr>v_validation_buffer := v_validation_buffer v @ [op]\<rparr>;
     n \<leftarrow> byte_size arg_type;
     if length (v_validation_buffer v1) = n then do {
       ok \<leftarrow> validate_structure arg_type (v_validation_buffer v1);
       if ok then do {
         v2 \<leftarrow> push_item arg_type v1;
         (v3, nxt) \<leftarrow> (if elem_idx = offset then do {
             ts \<leftarrow> transitions Instruction.Begin;
             Some (v2\<lparr>v_validation_stack := stack_new\<rparr>, Some ts)
           } else do { v3 \<leftarrow> mark_done elem_idx v2; Some (v3, None) });
         Some (v3\<lparr>v_validation_buffer := [], v_state := Invalid\<rparr>, nxt)
       } else Some (irrefutable v1, None)
     } else Some (v1, None)
   }"

definition validate_arg ::
  "bits_get \<Rightarrow> Validator \<Rightarrow> u8 \<Rightarrow> nat \<Rightarrow> (Validator \<times> Transition list option) option" where
  "validate_arg bits_get v op offset = do {
     (arg_type, elem_idx) \<leftarrow> get_next_elem (v_validation_stack v);
     (bitmask, _) \<leftarrow> index (v_validation_stack v) 2;
     is_popped \<leftarrow> (if elem_idx < 3 then None else bits_get bitmask (of_nat (elem_idx - 3)));
     let next_idx = elem_idx + 1;
     next_is_popped \<leftarrow> (if next_idx = stack_len (v_validation_stack v) then Some False
                       else bits_get bitmask (of_nat next_idx));
     (returned, v', nxt) \<leftarrow>
       (if is_popped then popped_arg v op arg_type elem_idx next_is_popped
        else do { (v', nxt) \<leftarrow> inline_arg v op arg_type elem_idx offset; Some (False, v', nxt) });
     Some (v', if \<not> returned \<and> next_is_popped then Some POP_TRANSITIONS else nxt)
   }"

definition validate_push ::
  "bits_get \<Rightarrow> Validator \<Rightarrow> u8 \<Rightarrow> Transition \<Rightarrow> (Validator \<times> Transition list option) option" where
  "validate_push bits_get v op t =
     (let vs = v_validation_stack v; len = stack_len vs in
      if len = 1 then (case t of
          Byte arity \<Rightarrow>
            Some (v\<lparr>v_validation_stack := stack_push (arity, True) vs, v_state := Invalid\<rparr>,
                  Some [AnyByte])
        | _ \<Rightarrow> None)
      else if len = 2 then
        Some (v\<lparr>v_validation_stack := stack_push (op, True) vs, v_state := Invalid\<rparr>,
              Some ARG_DECLARATIONS)
      else do {
        (arity, _) \<leftarrow> index vs 1;
        offset8 \<leftarrow> checked_add arity 2;
        let offset = unat offset8;
        if 3 \<le> len \<and> len \<le> offset then do {
          let vs' = stack_push (op, False) vs;
          nxt \<leftarrow> (if len = offset then do {
              (bitmask, _) \<leftarrow> index vs' 2;
              first_popped \<leftarrow> bits_get bitmask 0;
              Some (if first_popped then POP_TRANSITIONS else [AnyByte])
            } else Some ARG_DECLARATIONS);
          Some (v\<lparr>v_validation_stack := vs', v_state := Invalid\<rparr>, Some nxt)
        } else if offset < len then validate_arg bits_get v op offset
        else None
      })"

definition validate_pick :: "Validator \<Rightarrow> u8 \<Rightarrow> (Validator \<times> Transition list option) option" where
  "validate_pick v op =
     (let v1 = v\<lparr>v_validation_buffer := v_validation_buffer v @ [op]\<rparr> in
      if length (v_validation_buffer v1) = 2 then
        (case decode_be_u16 (v_validation_buffer v1) of
           Some idx \<Rightarrow> do {
             (_, cs) \<leftarrow> stack_modify (\<lambda>frame. do {
                ls \<leftarrow> stack_pick (unat idx) (locals frame);
                Some ((), frame\<lparr>locals := ls\<rparr>) }) (v_call_stack v1);
             ts \<leftarrow> transitions Instruction.Begin;
             Some (v1\<lparr>v_call_stack := cs, v_validation_buffer := [],
                      v_validation_stack := stack_new, v_state := Invalid\<rparr>, Some ts)
           }
         | None \<Rightarrow> Some (v1\<lparr>v_state := IrrefutablyInvalid\<rparr>, None))
      else Some (v1, None))"

text \<open>The arm \<open>Some(Transition::Byte(_)) | Some(Transition::AnyByte)\<close> of \<open>push_op\<close>.\<close>

definition push_operand_byte ::
  "bits_get \<Rightarrow> Validator \<Rightarrow> u8 \<Rightarrow> Transition \<Rightarrow> (Validator \<times> Transition list option) option" where
  "push_operand_byte bits_get v op t = do {
     (operand, _) \<leftarrow> index (v_validation_stack v) 0;
     (case from_repr operand of
        Some Instruction.Begin \<Rightarrow> begin_arity v op t
      | Some Instruction.Loop \<Rightarrow>
          do { v1 \<leftarrow> pop_single v; open_block Loop Instruction.Loop v1 op }
      | Some PushOperand \<Rightarrow> validate_push bits_get v op t
      | Some PushLocal \<Rightarrow> validate_push bits_get v op t
      | Some PickLocal \<Rightarrow> validate_pick v op
      | Some Instruction.If \<Rightarrow>
          do { v1 \<leftarrow> pop_single v; open_block If Instruction.If v1 op }
      | Some Instruction.Else \<Rightarrow>
          do { v1 \<leftarrow> pop_single v; open_block Else Instruction.Else v1 op }
      | _ \<Rightarrow> None)
   }"

section \<open>The automaton\<close>

definition push_op :: "bits_get \<Rightarrow> Validator \<Rightarrow> u8 \<Rightarrow> Validator option" where
  "push_op bits_get v op =
     (if v_state v = IrrefutablyInvalid then None
      else if stack_len (v_call_stack v) = 0 then
        Some (case from_repr op of
            Some Instruction.Begin \<Rightarrow>
              v\<lparr>v_call_stack := stack_push (frame_new (Some Begin) None None) (v_call_stack v),
                v_validation_stack :=
                  stack_push (repr Instruction.Begin, True) (v_validation_stack v),
                v_transitions := [Byte 0x00]\<rparr>
          | _ \<Rightarrow> v\<lparr>v_state := IrrefutablyInvalid\<rparr>)
      else do {
        (v', next_transitions) \<leftarrow>
          (case find (\<lambda>t. accepts_byte t op) (v_transitions v) of
             Some (Op i) \<Rightarrow> push_instr v i
           | Some (Byte b) \<Rightarrow> push_operand_byte bits_get v op (Byte b)
           | Some AnyByte \<Rightarrow> push_operand_byte bits_get v op AnyByte
           | None \<Rightarrow> Some (v\<lparr>v_state := IrrefutablyInvalid\<rparr>, None));
        Some (case next_transitions of None \<Rightarrow> v' | Some ts \<Rightarrow> v'\<lparr>v_transitions := ts\<rparr>)
      })"

definition validator_done :: "Validator \<Rightarrow> bool" where
  "validator_done v = (v_state v = IrrefutablyInvalid)"

definition validator_valid :: "Validator \<Rightarrow> bool" where
  "validator_valid v = (v_state v = Valid)"

fun validate_block_from :: "bits_get \<Rightarrow> Validator \<Rightarrow> u8 list \<Rightarrow> bool option" where
  "validate_block_from bits_get v [] = Some (validator_valid v)"
| "validate_block_from bits_get v (byte # rest) = do {
     v' \<leftarrow> push_op bits_get v byte;
     if validator_done v' then Some False else validate_block_from bits_get v' rest
   }"

text \<open>\<open>validate_block\<close> takes the return type and the argument types and ignores both.\<close>

definition validate_block :: "bits_get \<Rightarrow> u8 list \<Rightarrow> VmType \<Rightarrow> VmType list \<Rightarrow> bool option" where
  "validate_block bits_get block return_type argv =
     validate_block_from bits_get validator_new block"

end
