(* ===== verification/Validator_Props.thy ===== *)
theory Validator_Props
  imports Validator
begin

text \<open>
  Properties of the code validator: the modes its automaton can be in, the invariant that every
  \<open>push_op\<close> keeps, and what an accepted block looks like.
\<close>

section \<open>Modes of the automaton\<close>

definition op_transition :: "Transition \<Rightarrow> bool" where
  "op_transition t = (case t of Op i \<Rightarrow> transitions i \<noteq> None | _ \<Rightarrow> False)"

definition operand_transitions :: "Transition list \<Rightarrow> bool" where
  "operand_transitions ts \<longleftrightarrow> (\<forall>b i. find (\<lambda>t. accepts_byte t b) ts \<noteq> Some (Op i))"

definition arity_transitions :: "Transition list \<Rightarrow> bool" where
  "arity_transitions ts \<longleftrightarrow>
     (\<forall>b. find (\<lambda>t. accepts_byte t b) ts = (if b < 9 then Some (Byte b) else None))"

text \<open>The bytes on the validation stack: the instruction, then its arity, bitmask and types.\<close>

fun push_operands_wf :: "u8 list \<Rightarrow> bool" where
  "push_operands_wf [] = True"
| "push_operands_wf (arity # rest) = (arity < 9 \<and> length rest \<le> unat arity + 1)"

definition operands_wf :: "u8 list \<Rightarrow> u8 list \<Rightarrow> bool" where
  "operands_wf bytes buf = (case bytes of [] \<Rightarrow> False | b # rest \<Rightarrow>
     if b \<in> {repr Instruction.Loop, repr Instruction.If, repr Instruction.Else}
     then rest = [] \<and> buf = []
     else if b = repr PickLocal then rest = [] \<and> length buf \<le> 1
     else (b = repr PushLocal \<or> b = repr PushOperand) \<and> push_operands_wf rest)"

definition idle_mode :: "Validator \<Rightarrow> bool" where
  "idle_mode v \<longleftrightarrow> v_call_stack v = [] \<and> v_validation_stack v = [] \<and> v_validation_buffer v = []"

definition first_mode :: "Validator \<Rightarrow> bool" where
  "first_mode v \<longleftrightarrow> length (v_call_stack v) = 1 \<and>
     v_validation_stack v = [(repr Instruction.Begin, True)] \<and>
     v_transitions v = [Byte 0x00] \<and> v_validation_buffer v = []"

definition op_mode :: "Validator \<Rightarrow> bool" where
  "op_mode v \<longleftrightarrow> v_state v = Invalid \<and> v_call_stack v \<noteq> [] \<and> v_validation_stack v = [] \<and>
     v_validation_buffer v = [] \<and> list_all op_transition (v_transitions v)"

definition operand_mode :: "Validator \<Rightarrow> bool" where
  "operand_mode v \<longleftrightarrow> v_state v = Invalid \<and> v_call_stack v \<noteq> [] \<and>
     operands_wf (map fst (v_validation_stack v)) (v_validation_buffer v) \<and>
     operand_transitions (v_transitions v) \<and>
     (\<forall>b s. v_validation_stack v = [(b, s)] \<longrightarrow> b \<noteq> repr PickLocal \<longrightarrow>
        arity_transitions (v_transitions v))"

definition running :: "Validator \<Rightarrow> bool" where
  "running v \<longleftrightarrow> validator_done v \<or> op_mode v \<or> operand_mode v"

definition validator_inv :: "Validator \<Rightarrow> bool" where
  "validator_inv v \<longleftrightarrow> running v \<or> idle_mode v \<or> first_mode v"

lemma less_9_iff: "(b :: u8) < 9 \<longleftrightarrow> b \<in> {0, 1, 2, 3, 4, 5, 6, 7, 8}"
proof
  assume "b < 9"
  then have "unat b < 9" by (simp add: word_less_nat_alt)
  then have "unat b \<in> {0, 1, 2, 3, 4, 5, 6, 7, 8}" by auto
  then show "b \<in> {0, 1, 2, 3, 4, 5, 6, 7, 8}" by (auto simp: word_unat_eq_iff)
qed (auto simp: word_less_nat_alt)

lemma ARITY_eq: "ARITY_TRANSITIONS =
    [Byte 0, Byte 1, Byte 2, Byte 3, Byte 4, Byte 5, Byte 6, Byte 7, Byte 8]"
  by (simp add: ARITY_TRANSITIONS_def upt_rec)

lemma find_ARITY:
  "find (\<lambda>t. accepts_byte t b) (ARITY_TRANSITIONS @ ts) =
     (if b < 9 then Some (Byte b) else find (\<lambda>t. accepts_byte t b) ts)"
  unfolding less_9_iff by (auto simp: ARITY_eq)

lemma find_ARITY_Nil:
  "find (\<lambda>t. accepts_byte t b) ARITY_TRANSITIONS = (if b < 9 then Some (Byte b) else None)"
  using find_ARITY[of b "[]"] by simp

lemma operand_transitions_simps:
  "operand_transitions [Byte b]" "operand_transitions [AnyByte]"
  "operand_transitions ARG_DECLARATIONS" "operand_transitions POP_TRANSITIONS"
  "operand_transitions ARITY_TRANSITIONS"
  "operand_transitions (AnyByte # ts)"
  by (auto simp: operand_transitions_def ARG_DECLARATIONS_def POP_TRANSITIONS_def find_ARITY_Nil)

lemma arity_transitions_ARITY:
  "arity_transitions ARITY_TRANSITIONS"
  "arity_transitions (ARITY_TRANSITIONS @ [Op Break, Op BreakIf])"
  by (auto simp: arity_transitions_def find_ARITY find_ARITY_Nil from_repr_eq_Some_iff less_9_iff
      split: option.splits)

lemma operand_transitions_ARITY_break:
  "operand_transitions (ARITY_TRANSITIONS @ [Op Break, Op BreakIf])"
  using arity_transitions_ARITY(2) by (auto simp: operand_transitions_def arity_transitions_def)

lemma list_all_op_transition:
  "transitions i = Some ts \<Longrightarrow> list_all op_transition ts"
  by (auto simp: list_all_iff op_transition_def dest: transitions_ops split: Transition.splits)

lemma op_transition_find:
  assumes "list_all op_transition ts"
  shows "find (\<lambda>t. accepts_byte t b) ts =
    (case from_repr b of None \<Rightarrow> None | Some i \<Rightarrow> if Op i \<in> set ts then Some (Op i) else None)"
  using assms
  by (induction ts) (auto simp: op_transition_def split: Transition.splits option.splits)

section \<open>The invariant\<close>

definition set_next :: "Transition list option \<Rightarrow> Validator \<Rightarrow> Validator" where
  "set_next nxt v = (case nxt of None \<Rightarrow> v | Some ts \<Rightarrow> v\<lparr>v_transitions := ts\<rparr>)"

lemma set_next_simps [simp]:
  "set_next None v = v" "set_next (Some ts) v = v\<lparr>v_transitions := ts\<rparr>"
  "v_state (set_next nxt v) = v_state v" "v_call_stack (set_next nxt v) = v_call_stack v"
  by (simp_all add: set_next_def split: option.splits)

lemma next_of_instr_cases:
  assumes "next_of_instr i v = Some (nxt, w)"
  obtains (plain) "w = v" "transitions i = Some nxt"
  | (arity) "i \<in> {PushLocal, PushOperand, Instruction.Loop, Instruction.If, Instruction.Else}"
      "nxt = ARITY_TRANSITIONS" "w = mark_op i v"
  | (pick) "i = PickLocal" "nxt = [AnyByte]" "w = mark_op i v"
  using assms by (cases i) (auto simp: next_of_instr_def bind_eq_Some_conv)

lemma drop_locals_length: "drop_locals n cs = Some cs' \<Longrightarrow> length cs' = length cs"
  by (auto simp: drop_locals_def bind_eq_Some_conv stack_modify_iff)

lemma op_transition_extra:
  "op_transition (Op Break)" "op_transition (Op BreakIf)" "op_transition (Op Instruction.Else)"
  by (simp_all add: op_transition_def)

lemma after_instr_cases:
  assumes "after_instr allow_else i v1 = Some (v', nxt)"
  obtains ts w cs bs where "next_of_instr i v1 = Some (ts, w)"
      "length cs = length (v_call_stack w)"
      "v' = w\<lparr>v_call_stack := cs, v_state := Invalid\<rparr>"
      "nxt = Some (ts @ bs @ (if allow_else then [Op Instruction.Else] else []))"
      "bs = [] \<or> bs = [Op Break, Op BreakIf]"
proof -
  from assms obtain ts w where n: "next_of_instr i v1 = Some (ts, w)"
    by (auto simp: after_instr_def bind_eq_Some_conv)
  let ?bs = "if list_ex (\<lambda>f. scope_type f = Some Loop) (v_call_stack w)
    then [Op Break, Op BreakIf] else []"
  obtain cs where "v' = w\<lparr>v_call_stack := cs, v_state := Invalid\<rparr>"
      "length cs = length (v_call_stack w)"
      "nxt = Some (ts @ ?bs @ (if allow_else then [Op Instruction.Else] else []))"
  proof (cases "i = Instruction.Else \<or> \<not> list_ex (\<lambda>t. t = Op Instruction.Else) (v_transitions w)")
    case True
    with assms n that[of "v_call_stack w"] show ?thesis
      by (auto simp: after_instr_def Let_def split: if_splits)
  next
    case False
    with assms n obtain a cs where "v_last_arity w = Some a"
        and a: "drop_locals (unat a) (v_call_stack w) = Some cs"
      by (auto simp: after_instr_def Let_def bind_eq_Some_conv)
    with assms n False have r: "v' = w\<lparr>v_call_stack := cs, v_state := Invalid\<rparr>"
        "nxt = Some (ts @ ?bs @ (if allow_else then [Op Instruction.Else] else []))"
      by (simp_all add: after_instr_def Let_def)
    show ?thesis by (rule that[OF r(1) drop_locals_length[OF a] r(2)])
  qed
  with n show thesis by (intro that[of ts w cs ?bs]) simp_all
qed

lemma next_of_instr_call_stack:
  "next_of_instr i v = Some (ts, w) \<Longrightarrow> v_call_stack w = v_call_stack v"
  by (erule next_of_instr_cases) (simp_all add: mark_op_def)

lemma push_instr_cases:
  assumes "push_instr v i = Some (v', nxt)" and ne: "v_call_stack v \<noteq> []"
  obtains (last_end) "i = End" "length (v_call_stack v) = 1" "nxt = None"
      "v' = v\<lparr>v_call_stack := [], v_state := Valid\<rparr>"
  | (inner_end) cs bs ae where "i = End" "length (v_call_stack v) = Suc (length cs)" "cs \<noteq> []"
      "v' = v\<lparr>v_call_stack := cs, v_state := Invalid\<rparr>"
      "nxt = Some (DEFAULT_TRANSITIONS @ bs @ (if ae then [Op Instruction.Else] else []))"
      "bs = [] \<or> bs = [Op Break, Op BreakIf]"
  | (go) ts w cs bs where "i \<noteq> End" "next_of_instr i v = Some (ts, w)"
      "length cs = length (v_call_stack v)"
      "v' = w\<lparr>v_call_stack := cs, v_state := Invalid\<rparr>"
      "nxt = Some (ts @ bs)" "bs = [] \<or> bs = [Op Break, Op BreakIf]"
proof (cases "i = End")
  case True
  from ne obtain u f where cs: "v_call_stack v = u @ [f]"
    by (cases "v_call_stack v" rule: rev_cases) auto
  show ?thesis
  proof (cases "u = []")
    case True
    with assms(1) cs \<open>i = End\<close> show ?thesis
      by (intro last_end) (simp_all add: push_instr_def stack_len_def)
  next
    case False
    with assms(1) cs \<open>i = End\<close>
    have t: "after_instr (scope_type f = Some If) i (v\<lparr>v_call_stack := u\<rparr>) = Some (v', nxt)"
      by (simp add: push_instr_def stack_len_def)
    have n: "next_of_instr i (v\<lparr>v_call_stack := u\<rparr>) =
        Some (DEFAULT_TRANSITIONS, v\<lparr>v_call_stack := u\<rparr>)"
      using \<open>i = End\<close> by (simp add: next_of_instr_def)
    from t n False cs \<open>i = End\<close> show ?thesis
      by (elim after_instr_cases) (rule inner_end, auto)
  qed
next
  case False
  with assms have "after_instr False i v = Some (v', nxt)"
    by (simp add: push_instr_def stack_len_def)
  then show ?thesis
    by (elim after_instr_cases) (rule go[OF False], auto simp: next_of_instr_call_stack)
qed

lemma push_instr_inv:
  assumes "op_mode v" and "push_instr v i = Some (v', nxt)"
  shows "validator_inv (set_next nxt v')"
proof -
  from assms(1) have ne: "v_call_stack v \<noteq> []" and e: "v_validation_stack v = []" "v_validation_buffer v = []"
    by (auto simp: op_mode_def)
  from assms(2) ne show ?thesis
  proof (cases rule: push_instr_cases)
    case last_end
    with e show ?thesis by (simp add: validator_inv_def running_def idle_mode_def)
  next
    case (inner_end cs bs ae)
    have "list_all op_transition DEFAULT_TRANSITIONS"
      using list_all_op_transition[of Instruction.Begin] by simp
    with inner_end e show ?thesis
      by (auto simp: validator_inv_def running_def op_mode_def op_transition_extra)
  next
    case (go ts w cs bs)
    from go(3) ne have cs: "cs \<noteq> []" by auto
    from go(2) show ?thesis
    proof (cases rule: next_of_instr_cases)
      case plain
      with go e cs list_all_op_transition[OF plain(2)] show ?thesis
        by (auto simp: validator_inv_def running_def op_mode_def op_transition_extra)
    next
      case arity
      with go e cs have "operand_mode (set_next nxt v')"
        by (auto simp: operand_mode_def mark_op_def stack_push_def operands_wf_def
            operand_transitions_simps operand_transitions_ARITY_break arity_transitions_ARITY)
      then show ?thesis by (simp add: validator_inv_def running_def)
    next
      case pick
      with go e cs have "operand_mode (set_next nxt v')"
        by (auto simp: operand_mode_def mark_op_def stack_push_def operands_wf_def
            operand_transitions_simps)
      then show ?thesis by (simp add: validator_inv_def running_def)
    qed
  qed
qed

lemma open_block_total:
  assumes "v_call_stack v \<noteq> []" and "transitions i = Some ts"
  obtains (bad) w where "open_block sc i v op = Some (w, None)" "validator_done w"
  | (ok) w where "open_block sc i v op = Some (w, Some ts)" "op < 9" "v_state w = Invalid"
      "length (v_call_stack w) = Suc (length (v_call_stack v))"
      "v_validation_stack w = v_validation_stack v" "v_validation_buffer w = v_validation_buffer v"
      "v_last_arity w = Some op"
proof -
  from assms(1) obtain u f where cs: "v_call_stack v = u @ [f]"
    by (cases "v_call_stack v" rule: rev_cases) auto
  show thesis
  proof (cases "op < 9 \<and> unat op \<le> length (locals f)")
    case True
    then show thesis
      using ok cs assms(2)
      by (simp add: open_block_def find_ARITY_Nil stack_len_def pop_args_eq stack_push_def)
  next
    case False
    then show thesis
      using bad cs
      by (cases "op < 9") (simp_all add: open_block_def find_ARITY_Nil stack_len_def validator_done_def)
  qed
qed

lemma op_mode_intro:
  assumes "transitions i = Some ts" "v_state v = Invalid" "v_call_stack v \<noteq> []"
    "v_validation_stack v = []" "v_validation_buffer v = []"
  shows "op_mode (set_next (Some ts) v)"
  using assms list_all_op_transition[OF assms(1)] by (simp add: op_mode_def)

lemma open_block_inv:
  assumes "v_call_stack v \<noteq> []" "transitions i = Some ts" "v_validation_stack v = []"
    "v_validation_buffer v = []" "open_block sc i v op = Some (w, nxt)"
  shows "validator_done (set_next nxt w) \<or> op_mode (set_next nxt w)"
  using assms(1,2)
proof (cases rule: open_block_total[where sc = sc and op = op])
  case (bad w')
  with assms(5) show ?thesis by (simp add: validator_done_def)
next
  case (ok w')
  with assms have w: "w' = w" "nxt = Some ts" by simp_all
  with ok assms(1,3,4) have "op_mode (set_next (Some ts) w)"
    by (intro op_mode_intro[OF assms(2)]) auto
  with w show ?thesis by simp
qed

lemma mark_done_fields:
  assumes "mark_done idx v = Some w"
  shows "map fst (v_validation_stack w) = map fst (v_validation_stack v)"
    "length (v_validation_stack w) = length (v_validation_stack v)"
    "v_state w = v_state v" "v_call_stack w = v_call_stack v" "v_operand_stack w = v_operand_stack v"
    "v_validation_buffer w = v_validation_buffer v" "v_transitions w = v_transitions v"
  using assms
  by (auto simp: mark_done_def bind_eq_Some_conv map_update list_update_same_conv split: prod.splits)

lemma move_item_fields:
  assumes "move_item instr v = Some w"
  shows "length (v_call_stack w) = length (v_call_stack v)" "v_state w = v_state v"
    "v_validation_stack w = v_validation_stack v" "v_validation_buffer w = v_validation_buffer v"
    "v_transitions w = v_transitions v"
  using assms
  by (auto simp: move_item_def bind_eq_Some_conv stack_modify_iff split: prod.splits if_splits)

lemma push_item_fields:
  assumes "push_item ty v = Some w"
  shows "length (v_call_stack w) = length (v_call_stack v)" "v_state w = v_state v"
    "v_validation_stack w = v_validation_stack v" "v_validation_buffer w = v_validation_buffer v"
    "v_transitions w = v_transitions v"
  using assms
  by (auto simp: push_item_def bind_eq_Some_conv stack_modify_iff
      split: prod.splits option.splits Instruction.splits)

lemma irrefutable_done [simp]: "validator_done (irrefutable v)"
  by (simp add: irrefutable_def validator_done_def)

text \<open>What a step of an argument of a push does to the automaton.\<close>

definition arg_step :: "Validator \<Rightarrow> Validator \<Rightarrow> Transition list option \<Rightarrow> bool" where
  "arg_step v w nxt \<longleftrightarrow> validator_done w \<or>
     length (v_call_stack w) = length (v_call_stack v) \<and> v_state w = Invalid \<and>
     v_transitions w = v_transitions v \<and>
     (v_validation_stack w = [] \<and> v_validation_buffer w = [] \<and> nxt = Some DEFAULT_TRANSITIONS \<or>
      map fst (v_validation_stack w) = map fst (v_validation_stack v) \<and>
        nxt \<in> {None, Some [AnyByte], Some POP_TRANSITIONS})"

lemma popped_arg_step:
  assumes "popped_arg v op ty idx np = Some (ret, w, nxt)"
    and "np \<longrightarrow> idx + 1 \<noteq> length (v_validation_stack v)"
  shows "arg_step v w (if \<not> ret \<and> np then Some POP_TRANSITIONS else nxt)"
  using assms(1) unfolding popped_arg_def Let_def
  apply (elim panic_elims)
  using assms(2) apply (simp_all add: arg_step_def stack_new_def stack_len_def mark_done_fields move_item_fields)
  apply (auto simp: arg_step_def stack_new_def stack_len_def mark_done_fields move_item_fields)
  done

lemma inline_arg_step:
  assumes "inline_arg v op ty idx offset = Some (w, nxt)" and "v_state v = Invalid"
    and "np \<longrightarrow> idx \<noteq> offset"
  shows "arg_step v w (if np then Some POP_TRANSITIONS else nxt)"
  using assms(1) unfolding inline_arg_def Let_def
  apply (elim panic_elims)
  using assms(2,3) apply (auto simp: arg_step_def stack_new_def mark_done_fields push_item_fields)
  done

lemma validate_arg_cases:
  assumes "validate_arg g v op offset = Some (w, nxt)"
  obtains (popped) ty idx np ret nx where "popped_arg v op ty idx np = Some (ret, w, nx)"
      "(if \<not> ret \<and> np then Some POP_TRANSITIONS else nx) = nxt"
      "np \<longrightarrow> idx + 1 \<noteq> length (v_validation_stack v)"
  | (inline) ty idx np nx where "inline_arg v op ty idx offset = Some (w, nx)"
      "(if np then Some POP_TRANSITIONS else nx) = nxt"
      "np \<longrightarrow> idx + 1 \<noteq> length (v_validation_stack v)"
  using assms unfolding validate_arg_def Let_def stack_len_def
  apply (elim panic_elims)
  apply (simp_all only: option.inject prod.inject option.distinct if_True if_False simp_thms)
  apply ((rule popped[where np = False], assumption, simp, simp) | (rule popped, assumption, assumption, simp)
    | (rule inline[where np = False], assumption, simp, simp) | (rule inline, assumption, erule conjunct2, simp))+
  done

lemma validate_arg_step:
  assumes "validate_arg g v op offset = Some (w, nxt)" and "v_state v = Invalid"
    and "length (v_validation_stack v) = Suc offset"
  shows "arg_step v w nxt"
  using assms(1)
proof (cases rule: validate_arg_cases)
  case (popped ty idx np ret nx)
  from popped_arg_step[OF popped(1,3)] show ?thesis unfolding popped(2) .
next
  case (inline ty idx np nx)
  have "np \<longrightarrow> idx \<noteq> offset" using inline(3) assms(3) by simp
  from inline_arg_step[OF inline(1) assms(2) this] show ?thesis unfolding inline(2) .
qed

lemma POP_operand [simp]: "operand_transitions POP_TRANSITIONS" "operand_transitions [AnyByte]"
  by (simp_all add: operand_transitions_simps)

lemma arg_step_inv:
  assumes "operand_mode v" "arg_step v w nxt"
    "length (v_validation_stack v) \<noteq> 1" "operands_wf (map fst (v_validation_stack v)) (v_validation_buffer w)"
  shows "running (set_next nxt w)"
proof -
  consider (stop) "validator_done w"
    | (fin) "length (v_call_stack w) = length (v_call_stack v)" "v_state w = Invalid"
      "v_validation_stack w = []" "v_validation_buffer w = []" "nxt = Some DEFAULT_TRANSITIONS"
    | (more) "v_transitions w = v_transitions v" "length (v_call_stack w) = length (v_call_stack v)" "v_state w = Invalid"
      "map fst (v_validation_stack w) = map fst (v_validation_stack v)"
      "nxt \<in> {None, Some [AnyByte], Some POP_TRANSITIONS}"
    using assms(2) by (auto simp: arg_step_def)
  then show ?thesis
  proof cases
    case stop
    then show ?thesis by (simp add: running_def validator_done_def)
  next
    case fin
    from fin(1) assms(1) have "v_call_stack w \<noteq> []" by (auto simp: operand_mode_def)
    with fin have "op_mode (set_next nxt w)"
      using op_mode_intro[of Instruction.Begin DEFAULT_TRANSITIONS w] by simp
    then show ?thesis by (simp add: running_def)
  next
    case more
    have "length (v_validation_stack w) = length (v_validation_stack v)"
      using more(4) by (metis length_map)
    with assms(3) have nosing: "v_validation_stack w \<noteq> [(b, s)]" for b s
      by auto
    have tr: "operand_transitions (v_transitions (set_next nxt w))"
      using more(1,5) assms(1) by (auto simp: operand_mode_def)
    have "v_call_stack w \<noteq> []" using more(2) assms(1) by (auto simp: operand_mode_def)
    moreover have "v_validation_stack (set_next nxt w) = v_validation_stack w"
      "v_validation_buffer (set_next nxt w) = v_validation_buffer w"
      by (simp_all add: set_next_def split: option.splits)
    ultimately have "operand_mode (set_next nxt w)"
      unfolding operand_mode_def using more(3,4) assms(4) nosing tr by simp
    then show ?thesis by (simp add: running_def)
  qed
qed

lemma validate_push_inv:
  assumes m: "operand_mode v" and b: "\<exists>s rest. v_validation_stack v = (b, s) # rest"
    "b = repr PushLocal \<or> b = repr PushOperand"
    and t: "find (\<lambda>t. accepts_byte t op) (v_transitions v) = Some t"
    and r: "validate_push g v op t = Some (w, nxt)"
  shows "running (set_next nxt w)"
proof -
  obtain s rest where vs: "v_validation_stack v = (b, s) # rest" using b(1) by blast
  have wf: "push_operands_wf (map fst rest)"
    using m b(2) vs by (auto simp: operand_mode_def operands_wf_def)
  have owf: "operands_wf (b # bytes) buf" if "push_operands_wf bytes" for bytes buf
    using that b(2) by (auto simp: operands_wf_def)
  have st: "v_call_stack v \<noteq> []" using m by (simp add: operand_mode_def)
  show ?thesis
  proof (cases rest)
    case Nil
    with m vs b(2) have "arity_transitions (v_transitions v)" by (auto simp: operand_mode_def)
    with t have ar: "t = Byte op" "op < 9" by (auto simp: arity_transitions_def split: if_splits)
    with r vs Nil have "w = v\<lparr>v_validation_stack := [(b, s), (op, True)], v_state := Invalid\<rparr>"
        "nxt = Some [AnyByte]"
      by (simp_all add: validate_push_def stack_len_def stack_push_def)
    with st ar owf[of "[op]"] have "operand_mode (set_next nxt w)"
      by (simp add: operand_mode_def)
    then show ?thesis by (simp add: running_def)
  next
    case (Cons a1 rest1)
    obtain ar s1 where a1: "a1 = (ar, s1)" by force
    with wf Cons have ar: "ar < 9" "length rest1 \<le> unat ar + 1" by simp_all
    have off: "checked_add ar 2 = Some (ar + 2)" "unat (ar + 2) = unat ar + 2"
      using ar(1) by (auto simp: checked_add_def unat_word_ariths word_less_nat_alt)
    show ?thesis
    proof (cases "length rest1 \<le> unat ar")
      case True
      have "\<exists>x nx. w = v\<lparr>v_validation_stack := v_validation_stack v @ [(op, x)], v_state := Invalid\<rparr> \<and>
          nxt = Some nx \<and> operand_transitions nx"
        using r vs Cons a1 off True
        by (auto simp: validate_push_def stack_len_def stack_push_def Let_def bind_eq_Some_conv
            operand_transitions_simps split: if_splits prod.split_asm)
      then obtain x nx where w: "w = v\<lparr>v_validation_stack := v_validation_stack v @ [(op, x)], v_state := Invalid\<rparr>"
          "nxt = Some nx" "operand_transitions nx" by blast
      with vs Cons a1 True st ar owf[of "ar # map fst rest1 @ [op]"] have "operand_mode (set_next nxt w)"
        by (simp add: operand_mode_def)
      then show ?thesis by (simp add: running_def)
    next
      case False
      with ar have len: "length rest1 = unat ar + 1" by simp
      with r vs Cons a1 off have va: "validate_arg g v op (unat ar + 2) = Some (w, nxt)"
        by (auto simp: validate_push_def stack_len_def Let_def)
      have "arg_step v w nxt"
        using validate_arg_step[OF va] m vs Cons len by (simp add: operand_mode_def)
      with m vs Cons wf owf show ?thesis
        by (intro arg_step_inv[of v]) simp_all
    qed
  qed
qed

lemma validate_pick_inv:
  assumes m: "operand_mode v" and vs: "v_validation_stack v = [(repr PickLocal, s)]"
    and r: "validate_pick v op = Some (w, nxt)"
  shows "running (set_next nxt w)"
proof -
  from m vs have inv: "v_state v = Invalid" "v_call_stack v \<noteq> []" "length (v_validation_buffer v) \<le> 1"
    by (auto simp: operand_mode_def operands_wf_def)
  show ?thesis
  proof (cases "v_validation_buffer v")
    case Nil
    with r have "w = v\<lparr>v_validation_buffer := [op]\<rparr>" "nxt = None"
      by (simp_all add: validate_pick_def)
    with m vs have "operand_mode (set_next nxt w)"
      by (simp add: operand_mode_def operands_wf_def)
    then show ?thesis by (simp add: running_def)
  next
    case (Cons b bs)
    with inv(3) have b: "v_validation_buffer v = [b]" by simp
    obtain idx where idx: "decode_be_u16 [b, op] = Some idx" by (cases "decode_be_u16 [b, op]") (auto simp: decode_be_u16_def read_be_def)
    from r b idx obtain cs u where cs: "stack_modify (\<lambda>frame. do {
                ls \<leftarrow> stack_pick (unat idx) (locals frame);
                Some ((), frame\<lparr>locals := ls\<rparr>) }) (v_call_stack v) = Some (u, cs)"
      and w: "w = v\<lparr>v_call_stack := cs, v_validation_buffer := [], v_validation_stack := stack_new, v_state := Invalid\<rparr>"
        "nxt = Some DEFAULT_TRANSITIONS"
      by (auto simp: validate_pick_def bind_eq_Some_conv split: prod.split_asm)
    from cs have "cs \<noteq> []" by (auto simp: stack_modify_iff)
    with w have "op_mode (set_next nxt w)"
      using op_mode_intro[of Instruction.Begin DEFAULT_TRANSITIONS w] by (simp add: stack_new_def)
    then show ?thesis by (simp add: running_def)
  qed
qed

lemma pop_single_operand:
  "v_validation_stack v = [x] \<Longrightarrow> pop_single v = Some (v\<lparr>v_validation_stack := []\<rparr>)"
  by (simp add: pop_single_def stack_len_def)

lemma operand_mode_cases:
  assumes "operand_mode v"
  obtains (block) i sc s where "v_validation_stack v = [(repr i, s)]" "v_validation_buffer v = []"
      "(i, sc) \<in> {(Instruction.Loop, Loop), (Instruction.If, If), (Instruction.Else, Else)}"
  | (pick) s where "v_validation_stack v = [(repr PickLocal, s)]"
  | (push) b s rest where "v_validation_stack v = (b, s) # rest"
      "b = repr PushLocal \<or> b = repr PushOperand"
proof -
  from assms obtain b s rest where vs: "v_validation_stack v = (b, s) # rest"
    by (cases "v_validation_stack v") (auto simp: operand_mode_def operands_wf_def)
  from assms vs have wf: "operands_wf (b # map fst rest) (v_validation_buffer v)"
    by (simp add: operand_mode_def)
  show thesis
  proof (cases "b \<in> {repr Instruction.Loop, repr Instruction.If, repr Instruction.Else}")
    case True
    with wf have "rest = []" "v_validation_buffer v = []" by (auto simp: operands_wf_def)
    with vs True show thesis using block[of Instruction.Loop s Loop]
        block[of Instruction.If s If] block[of Instruction.Else s Else] by auto
  next
    case False
    with wf vs pick push show thesis by (auto simp: operands_wf_def split: if_splits)
  qed
qed

lemma push_operand_byte_inv:
  assumes m: "operand_mode v"
    and t: "find (\<lambda>t. accepts_byte t op) (v_transitions v) = Some t"
    and r: "push_operand_byte g v op t = Some (w, nxt)"
  shows "running (set_next nxt w)"
  using m
proof (cases rule: operand_mode_cases)
  case (block i sc s)
  have ne: "v_call_stack v \<noteq> []" using m by (simp add: operand_mode_def)
  obtain ts where ts: "transitions i = Some ts" using block(3) by auto
  from block(1,3) r have "open_block sc i (v\<lparr>v_validation_stack := []\<rparr>) op = Some (w, nxt)"
    by (auto simp: push_operand_byte_def pop_single_operand)
  from open_block_inv[OF _ ts _ _ this] ne block(2) show ?thesis
    by (auto simp: running_def)
next
  case (pick s)
  with r have "validate_pick v op = Some (w, nxt)" by (simp add: push_operand_byte_def)
  from validate_pick_inv[OF m pick this] show ?thesis .
next
  case (push b s rest)
  with r have r': "validate_push g v op t = Some (w, nxt)" by (auto simp: push_operand_byte_def)
  show ?thesis by (rule validate_push_inv[OF m _ push(2) t r']) (use push(1) in blast)
qed

lemma push_op_eq:
  "v_state v \<noteq> IrrefutablyInvalid \<Longrightarrow> v_call_stack v \<noteq> [] \<Longrightarrow> push_op g v op = do {
     (w, nxt) \<leftarrow> (case find (\<lambda>t. accepts_byte t op) (v_transitions v) of
             Some (Op i) \<Rightarrow> push_instr v i
           | Some t \<Rightarrow> push_operand_byte g v op t
           | None \<Rightarrow> Some (v\<lparr>v_state := IrrefutablyInvalid\<rparr>, None));
     Some (set_next nxt w) }"
  by (simp add: push_op_def stack_len_def set_next_def split: option.splits Transition.splits)

lemma push_op_idle:
  assumes "idle_mode v" "\<not> validator_done v"
  obtains (start) w where "op = 2" "push_op g v op = Some w" "first_mode w" "v_state w = v_state v"
  | (stop) w where "op \<noteq> 2" "push_op g v op = Some w" "validator_done w"
proof (cases "op = 2")
  case True
  let ?w = "v\<lparr>v_call_stack := [frame_new (Some Begin) None None],
      v_validation_stack := [(repr Instruction.Begin, True)], v_transitions := [Byte 0x00]\<rparr>"
  have "push_op g v op = Some ?w"
    using assms True
    by (simp add: push_op_def idle_mode_def validator_done_def stack_len_def stack_push_def)
  from start[OF True this] assms(1) show thesis by (simp add: first_mode_def idle_mode_def)
next
  case False
  then have "from_repr op \<noteq> Some Instruction.Begin" by (simp add: from_repr_eq_Some_iff)
  with assms have "push_op g v op = Some (v\<lparr>v_state := IrrefutablyInvalid\<rparr>)"
    by (auto simp: push_op_def idle_mode_def validator_done_def stack_len_def
      split: option.split Instruction.split)
  from stop[OF False this] show thesis by (simp add: validator_done_def)
qed

lemma push_op_first:
  assumes "first_mode v" "\<not> validator_done v"
  obtains (start) w where "op = 0" "push_op g v op = Some w" "op_mode w"
     "v_call_stack w = v_call_stack v"
  | (stop) w where "op \<noteq> 0" "push_op g v op = Some w" "validator_done w"
proof -
  from assms have ne: "v_state v \<noteq> IrrefutablyInvalid" "v_call_stack v \<noteq> []"
    by (auto simp: first_mode_def validator_done_def)
  show thesis
  proof (cases "op = 0")
    case True
    let ?w = "v\<lparr>v_validation_stack := [], v_state := Invalid\<rparr>"
    from assms True have "push_op g v op = Some (set_next (Some DEFAULT_TRANSITIONS) ?w)"
      by (simp add: push_op_eq[OF ne] first_mode_def push_operand_byte_def begin_arity_def
          pop_single_operand stack_len_def)
    moreover have "op_mode (set_next (Some DEFAULT_TRANSITIONS) ?w)"
      by (rule op_mode_intro[of Instruction.Begin]) (use assms ne in \<open>auto simp: first_mode_def\<close>)
    ultimately show thesis using start[OF True] by simp
  next
    case False
    with assms have "push_op g v op = Some (v\<lparr>v_state := IrrefutablyInvalid\<rparr>)"
      by (simp add: push_op_eq[OF ne] first_mode_def)
    from stop[OF False this] show thesis by (simp add: validator_done_def)
  qed
qed

lemma push_op_operand:
  assumes m: "operand_mode v" and p: "push_op g v op = Some w"
  shows "running w"
proof -
  from m have ne: "v_state v \<noteq> IrrefutablyInvalid" "v_call_stack v \<noteq> []"
    and ot: "\<And>i. find (\<lambda>t. accepts_byte t op) (v_transitions v) \<noteq> Some (Op i)"
    by (auto simp: operand_mode_def operand_transitions_def)
  from p ot consider "w = v\<lparr>v_state := IrrefutablyInvalid\<rparr>"
    | t w' nxt where "find (\<lambda>t. accepts_byte t op) (v_transitions v) = Some t"
      "push_operand_byte g v op t = Some (w', nxt)" "w = set_next nxt w'"
    unfolding push_op_eq[OF ne]
    by (auto simp: bind_eq_Some_conv split: option.split_asm Transition.split_asm)
  then show ?thesis
  proof cases
    case 1
    then show ?thesis by (simp add: running_def validator_done_def)
  next
    case 2
    then show ?thesis by (simp add: push_operand_byte_inv[OF m])
  qed
qed

lemma push_op_instr:
  assumes "op_mode v"
  shows "push_op g v op = (case from_repr op of
      Some i \<Rightarrow> if Op i \<in> set (v_transitions v)
        then do { (w, nxt) \<leftarrow> push_instr v i; Some (set_next nxt w) }
        else Some (v\<lparr>v_state := IrrefutablyInvalid\<rparr>)
    | None \<Rightarrow> Some (v\<lparr>v_state := IrrefutablyInvalid\<rparr>))"
proof -
  from assms have ne: "v_state v \<noteq> IrrefutablyInvalid" "v_call_stack v \<noteq> []"
    and ops: "list_all op_transition (v_transitions v)" by (auto simp: op_mode_def)
  show ?thesis
    unfolding push_op_eq[OF ne] op_transition_find[OF ops] by (simp split: option.split)
qed

lemma push_op_instr_cases:
  assumes "op_mode v" "push_op g v op = Some w"
  obtains (reject) "w = v\<lparr>v_state := IrrefutablyInvalid\<rparr>"
  | (instr) i w' nxt where "op = repr i" "Op i \<in> set (v_transitions v)"
      "push_instr v i = Some (w', nxt)" "w = set_next nxt w'"
  using assms(2) unfolding push_op_instr[OF assms(1)]
  by (auto simp: bind_eq_Some_conv from_repr_eq_Some_iff split: option.split_asm if_splits)

lemma validator_inv_cases:
  assumes "validator_inv v" "push_op g v op = Some w"
  obtains (idle) "idle_mode v" "\<not> validator_done v" | (first) "first_mode v" "\<not> validator_done v"
    | (op) "op_mode v" | (operand) "operand_mode v"
proof -
  from assms(2) have "\<not> validator_done v" by (auto simp: push_op_def validator_done_def)
  with assms(1) show thesis
    using that by (auto simp: validator_inv_def running_def)
qed

theorem push_op_inv:
  assumes "validator_inv v" and "push_op g v op = Some w"
  shows "validator_inv w"
  using assms
proof (cases rule: validator_inv_cases)
  case idle
  then show ?thesis
    by (cases rule: push_op_idle[where g = g and op = op])
      (use assms(2) in \<open>auto simp: validator_inv_def running_def\<close>)
next
  case first
  then show ?thesis
    by (cases rule: push_op_first[where g = g and op = op])
      (use assms(2) in \<open>auto simp: validator_inv_def running_def\<close>)
next
  case op
  from this assms(2) show ?thesis
  proof (cases rule: push_op_instr_cases)
    case reject
    then show ?thesis by (simp add: validator_inv_def running_def validator_done_def)
  next
    case (instr i w' nxt)
    then show ?thesis using push_instr_inv[OF op] by simp
  qed
next
  case operand
  from push_op_operand[OF this assms(2)] show ?thesis by (simp add: validator_inv_def)
qed

section \<open>What the validator accepts\<close>

lemma validate_block_from_True:
  "validate_block_from g v block = Some True \<longleftrightarrow>
     (\<exists>w. foldm (push_op g) v block = Some w \<and> v_state w = Valid)"
proof (induction block arbitrary: v)
  case Nil
  show ?case by (auto simp: validator_valid_def)
next
  case (Cons b block)
  have stuck: "foldm (push_op g) w block = Some u \<Longrightarrow> v_state u = Valid \<Longrightarrow> \<not> validator_done w" for w u
    by (cases block) (auto simp: validator_done_def push_op_def)
  show ?case
    by (cases "push_op g v b") (use Cons.IH stuck in auto)
qed

lemma validator_new_idle: "idle_mode validator_new" "v_state validator_new = Invalid"
  by (simp_all add: validator_new_def idle_mode_def stack_new_def)

lemma foldm_push_op_inv:
  assumes "foldm (push_op g) v bytes = Some w" "validator_inv v"
  shows "validator_inv w"
  using foldm_invariant[where P = validator_inv, OF assms] push_op_inv by blast

lemma reach_inv: "foldm (push_op g) validator_new bytes = Some v \<Longrightarrow> validator_inv v"
  by (rule foldm_push_op_inv) (auto simp: validator_inv_def validator_new_idle)

lemma running_not_Valid: "running v \<Longrightarrow> v_state v \<noteq> Valid"
  by (auto simp: running_def op_mode_def operand_mode_def validator_done_def)

lemma push_op_Valid:
  assumes "validator_inv v" "push_op g v op = Some w" "v_state w = Valid"
  shows "op_mode v \<and> op = repr End \<and> length (v_call_stack v) = 1 \<and> idle_mode w \<or>
     idle_mode v \<and> v_state v = Valid \<and> op = repr Instruction.Begin \<and> first_mode w"
  using assms(1,2)
proof (cases rule: validator_inv_cases)
  case idle
  then show ?thesis
    by (cases rule: push_op_idle[where g = g and op = op])
      (use assms(2,3) idle in \<open>auto simp: validator_done_def\<close>)
next
  case first
  then show ?thesis
    by (cases rule: push_op_first[where g = g and op = op])
      (use assms(2,3) in \<open>auto simp: validator_done_def op_mode_def\<close>)
next
  case op
  then have ne: "v_call_stack v \<noteq> []" and e: "v_validation_stack v = []" "v_validation_buffer v = []"
    by (auto simp: op_mode_def)
  from op assms(2) show ?thesis
  proof (cases rule: push_op_instr_cases)
    case reject
    with assms(3) show ?thesis by simp
  next
    case (instr i w' nxt)
    from instr(3) ne show ?thesis
      by (cases rule: push_instr_cases)
        (use instr assms(3) op e in \<open>simp_all add: idle_mode_def\<close>)
  qed
next
  case operand
  from running_not_Valid[OF push_op_operand[OF this assms(2)]] assms(3) show ?thesis by simp
qed

text \<open>
  The first two bytes: a block that is not rejected starts with \<open>Begin\<close> and the arity 0.
\<close>

lemma reach_prefix:
  assumes "foldm (push_op g) validator_new bytes = Some v" "\<not> validator_done v"
  shows "bytes = [] \<or> bytes = [repr Instruction.Begin] \<and> first_mode v \<and> v_state v = Invalid
    \<or> (\<exists>rest. bytes = repr Instruction.Begin # 0 # rest)"
proof (cases bytes)
  case (Cons b rest)
  have nd: "\<not> validator_done validator_new"
    by (simp add: validator_new_idle validator_done_def)
  from assms(1) Cons obtain v1 where v1: "push_op g validator_new b = Some v1"
    "foldm (push_op g) v1 rest = Some v" by (auto simp: bind_eq_Some_conv)
  have nd1: "\<not> validator_done v1"
    using v1(2) assms(2) by (cases rest) (auto simp: push_op_def validator_done_def)
  from validator_new_idle(1) nd have f: "b = 2" "first_mode v1" "v_state v1 = Invalid"
    by (cases rule: push_op_idle[where g = g and op = b];
        use v1 nd1 validator_new_idle in auto)+
  show ?thesis
  proof (cases rest)
    case Nil
    with v1 f Cons show ?thesis by simp
  next
    case (Cons c rest')
    with v1(2) obtain v2 where v2: "push_op g v1 c = Some v2" "foldm (push_op g) v2 rest' = Some v"
      by (auto simp: bind_eq_Some_conv)
    have "\<not> validator_done v2"
      using v2(2) assms(2) by (cases rest') (auto simp: push_op_def validator_done_def)
    with f(2) nd1 v2(1) have "c = 0"
      by (cases rule: push_op_first[where g = g and op = c]) auto
    with Cons \<open>bytes = b # rest\<close> f(1) show ?thesis by simp
  qed
qed simp

lemma reach_last:
  assumes "foldm (push_op g) validator_new block = Some w" "v_state w = Valid"
  obtains q x v rest where "block = q @ [x]" "foldm (push_op g) validator_new q = Some v"
    "push_op g v x = Some w" "validator_inv v" "block = repr Instruction.Begin # 0 # rest"
proof -
  obtain rest where r: "block = repr Instruction.Begin # 0 # rest"
    using reach_prefix[OF assms(1)] assms validator_new_idle by (auto simp: validator_done_def)
  then have "block \<noteq> []" by simp
  then obtain q x where q: "block = q @ [x]" by (cases block rule: rev_cases) auto
  from assms(1) q obtain v where v: "foldm (push_op g) validator_new q = Some v" "push_op g v x = Some w"
    by (auto simp: foldm_append bind_eq_Some_conv)
  from that[OF q v reach_inv[OF v(1)] r] show thesis .
qed

lemma reach_Valid_idle:
  assumes "foldm (push_op g) validator_new block = Some w" "v_state w = Valid" "idle_mode w"
  shows "\<exists>p. block = repr Instruction.Begin # 0 # p @ [repr End]"
  using assms(1,2)
proof (cases rule: reach_last)
  case (1 q x v rest)
  have "\<not> first_mode w" using assms(3) by (simp add: idle_mode_def first_mode_def)
  with push_op_Valid[OF 1(4,3) assms(2)] have "x = repr End" by simp
  with 1(1,5) show ?thesis by (cases rest rule: rev_cases) auto
qed

lemma accepted_shape:
  assumes "validate_block g block r a = Some True"
  shows "\<exists>p. block = repr Instruction.Begin # 0 # p @ [repr End] \<or>
    block = repr Instruction.Begin # 0 # p @ [repr End, repr Instruction.Begin]"
proof -
  from assms obtain w where w: "foldm (push_op g) validator_new block = Some w" "v_state w = Valid"
    by (auto simp: validate_block_def validate_block_from_True)
  then show ?thesis
  proof (cases rule: reach_last)
    case (1 q x v rest)
    from push_op_Valid[OF 1(4,3) w(2)] show ?thesis
    proof
      assume "op_mode v \<and> x = repr End \<and> length (v_call_stack v) = 1 \<and> idle_mode w"
      then show ?thesis using reach_Valid_idle[OF w] by blast
    next
      assume h: "idle_mode v \<and> v_state v = Valid \<and> x = repr Instruction.Begin \<and> first_mode w"
      then obtain p where "q = repr Instruction.Begin # 0 # p @ [repr End]"
        using reach_Valid_idle[OF 1(2)] by blast
      with h 1(1) show ?thesis by (intro exI[of _ p]) simp
    qed
  qed
qed

text \<open>A trailing \<open>Begin\<close> byte after a complete block is accepted: the state stays valid.\<close>

lemma trailing_begin_accepted:
  assumes "foldm (push_op g) validator_new block = Some w" "v_state w = Valid" "idle_mode w"
  shows "validate_block g (block @ [repr Instruction.Begin]) r a = Some True"
proof -
  have "\<not> validator_done w" using assms(2) by (simp add: validator_done_def)
  with assms(3) obtain u where "push_op g w (repr Instruction.Begin) = Some u" "v_state u = Valid"
    by (cases rule: push_op_idle[where g = g and op = "repr Instruction.Begin"]) (use assms(2) in auto)
  with assms(1) show ?thesis
    by (auto simp: validate_block_def validate_block_from_True foldm_snoc)
qed

section \<open>The frames follow the blocks\<close>

text \<open>The validator is about to read the arity of a \<open>Loop\<close>, \<open>If\<close> or \<open>Else\<close>.\<close>

definition opens_block :: "Validator \<Rightarrow> bool" where
  "opens_block v = (case v_validation_stack v of
     (b, _) # _ \<Rightarrow> b \<in> {repr Instruction.Loop, repr Instruction.If, repr Instruction.Else}
   | [] \<Rightarrow> False)"

lemma arity_offset: "(a :: u8) < 9 \<Longrightarrow> unat (a + 2) = unat a + 2"
  by (auto simp: unat_word_ariths word_less_nat_alt)

lemma validate_push_depth:
  assumes m: "operand_mode v" and vs: "v_validation_stack v = (b, s) # rest"
    "b = repr PushLocal \<or> b = repr PushOperand"
    and r: "validate_push g v op t = Some (w, nxt)"
  shows "validator_done w \<or> length (v_call_stack w) = length (v_call_stack v)"
proof -
  have wf: "push_operands_wf (map fst rest)" "v_state v = Invalid"
    using m vs by (auto simp: operand_mode_def operands_wf_def)
  consider "v_call_stack w = v_call_stack v"
    | a s1 rest1 where "rest = (a, s1) # rest1" "unat (a + 2) < length (v_validation_stack v)"
      "validate_arg g v op (unat (a + 2)) = Some (w, nxt)"
    using r vs unfolding validate_push_def Let_def stack_len_def
    by (cases rest) (auto simp: checked_add_def bind_eq_Some_conv
        split: if_splits prod.split_asm Transition.split_asm)
  then show ?thesis
  proof cases
    case 2
    then have "length (v_validation_stack v) = Suc (unat (a + 2))"
      using wf vs arity_offset[of a] by auto
    from validate_arg_step[OF 2(3) wf(2) this] show ?thesis by (auto simp: arg_step_def)
  qed simp
qed

lemma push_operand_byte_depth:
  assumes m: "operand_mode v" and r: "push_operand_byte g v op t = Some (w, nxt)"
  shows "validator_done w \<or>
    length (v_call_stack w) = length (v_call_stack v) + (if opens_block v then 1 else 0)"
  using m
proof (cases rule: operand_mode_cases)
  case (block i sc s)
  have ne: "v_call_stack (v\<lparr>v_validation_stack := []\<rparr>) \<noteq> []" using m by (simp add: operand_mode_def)
  obtain ts where ts: "transitions i = Some ts" using block(3) by auto
  have o: "opens_block v" using block by (auto simp: opens_block_def)
  from block(1,3) r have "open_block sc i (v\<lparr>v_validation_stack := []\<rparr>) op = Some (w, nxt)"
    by (auto simp: push_operand_byte_def pop_single_operand)
  with ne ts o show ?thesis
    by (cases rule: open_block_total[where sc = sc and op = op]) auto
next
  case (pick s)
  with r have "validate_pick v op = Some (w, nxt)" by (simp add: push_operand_byte_def)
  then have "validator_done w \<or> length (v_call_stack w) = length (v_call_stack v)"
    by (auto simp: validate_pick_def Let_def bind_eq_Some_conv stack_modify_iff validator_done_def
        split: if_splits option.splits)
  with pick show ?thesis by (auto simp: opens_block_def)
next
  case (push b s rest)
  with r have "validate_push g v op t = Some (w, nxt)" by (auto simp: push_operand_byte_def)
  from validate_push_depth[OF m push this] push show ?thesis by (auto simp: opens_block_def)
qed

lemma push_op_operand_depth:
  assumes m: "operand_mode v" and p: "push_op g v op = Some w" "\<not> validator_done w"
  shows "length (v_call_stack w) = length (v_call_stack v) + (if opens_block v then 1 else 0)"
proof -
  from m have ne: "v_state v \<noteq> IrrefutablyInvalid" "v_call_stack v \<noteq> []"
    and ot: "\<And>i. find (\<lambda>t. accepts_byte t op) (v_transitions v) \<noteq> Some (Op i)"
    by (auto simp: operand_mode_def operand_transitions_def)
  from p ot obtain t w' nxt where "push_operand_byte g v op t = Some (w', nxt)" "w = set_next nxt w'"
    unfolding push_op_eq[OF ne]
    by (auto simp: bind_eq_Some_conv validator_done_def split: option.split_asm Transition.split_asm)
  with push_operand_byte_depth[OF m this(1)] p(2) show ?thesis by (auto simp: validator_done_def)
qed

lemma push_op_depth:
  assumes "validator_inv v" "push_op g v op = Some w" "\<not> validator_done w"
  shows "length (v_call_stack w) =
    (if op_mode v \<and> op = repr End then length (v_call_stack v) - 1
     else if idle_mode v \<or> opens_block v then length (v_call_stack v) + 1
     else length (v_call_stack v))"
  using assms(1,2)
proof (cases rule: validator_inv_cases)
  case idle
  then have "\<not> op_mode v" by (auto simp: op_mode_def idle_mode_def)
  from idle show ?thesis
    by (cases rule: push_op_idle[where g = g and op = op])
      (use assms(2,3) idle \<open>\<not> op_mode v\<close> in \<open>auto simp: idle_mode_def first_mode_def\<close>)
next
  case first
  then have "\<not> op_mode v" "\<not> idle_mode v" "\<not> opens_block v"
    by (auto simp: op_mode_def idle_mode_def first_mode_def opens_block_def)
  with first show ?thesis
    by (cases rule: push_op_first[where g = g and op = op]) (use assms(2,3) in auto)
next
  case op
  then have ne: "v_call_stack v \<noteq> []" "\<not> idle_mode v" "\<not> opens_block v"
    by (auto simp: op_mode_def idle_mode_def opens_block_def)
  from op assms(2) show ?thesis
  proof (cases rule: push_op_instr_cases)
    case reject
    with assms(3) show ?thesis by (simp add: validator_done_def)
  next
    case (instr i w' nxt)
    from instr(1) have "op = repr End \<longleftrightarrow> i = End" using inj_repr by (auto simp: inj_def)
    with instr(3) ne(1) show ?thesis
      by (cases rule: push_instr_cases) (use instr(4) op ne in auto)
  qed
next
  case operand
  then have "\<not> op_mode v" "\<not> idle_mode v"
    by (auto simp: op_mode_def idle_mode_def operand_mode_def operands_wf_def)
  with push_op_operand_depth[OF operand assms(2,3)] show ?thesis by simp
qed

section \<open>Where the validator cannot panic\<close>

text \<open>
  Outside the operands of a push or a pick, and when no \<open>If\<close> has just been closed, every byte
  is either accepted or rejected.
\<close>

definition panic_free :: "Validator \<Rightarrow> bool" where
  "panic_free v \<longleftrightarrow> \<not> validator_done v \<and> Op Instruction.Else \<notin> set (v_transitions v) \<and>
     (case v_validation_stack v of
        (b, _) # _ \<Rightarrow> b \<notin> {repr PushLocal, repr PushOperand, repr PickLocal}
      | [] \<Rightarrow> True)"

lemma next_of_instr_transitions:
  "next_of_instr i v = Some (ts, w) \<Longrightarrow> v_transitions w = v_transitions v"
  by (erule next_of_instr_cases) (simp_all add: mark_op_def)

lemma next_of_instr_total:
  "transitions i = Some ts \<Longrightarrow> \<exists>r. next_of_instr i v = Some r"
  by (cases i) (auto simp: next_of_instr_def)

lemma after_instr_total:
  assumes "transitions i = Some ts" "Op Instruction.Else \<notin> set (v_transitions v)"
  shows "\<exists>r. after_instr ae i v = Some r"
proof -
  obtain nx w where n: "next_of_instr i v = Some (nx, w)"
    using next_of_instr_total[OF assms(1)] by fastforce
  with next_of_instr_transitions[OF n] assms(2) show ?thesis
    by (auto simp: after_instr_def Let_def list_ex_iff)
qed

lemma push_instr_total:
  assumes "op_mode v" "Op i \<in> set (v_transitions v)" "Op Instruction.Else \<notin> set (v_transitions v)"
  shows "\<exists>r. push_instr v i = Some r"
proof -
  from assms(1) obtain cs f where cs: "v_call_stack v = cs @ [f]"
    by (cases "v_call_stack v" rule: rev_cases) (auto simp: op_mode_def)
  from assms(1,2) obtain ts where ts: "transitions i = Some ts"
    by (fastforce simp: op_mode_def list_all_iff op_transition_def)
  show ?thesis
    unfolding push_instr_def using cs assms(3)
      after_instr_total[OF ts, of v] after_instr_total[OF ts, of "v\<lparr>v_call_stack := cs\<rparr>"]
    by (auto simp: stack_len_def)
qed

lemma push_op_total:
  assumes "validator_inv v" "panic_free v"
  shows "\<exists>w. push_op g v op = Some w"
proof -
  from assms(2) have nd: "\<not> validator_done v" and ne: "Op Instruction.Else \<notin> set (v_transitions v)"
    by (simp_all add: panic_free_def)
  with assms(1) consider "idle_mode v" | "first_mode v" | "op_mode v" | "operand_mode v"
    by (auto simp: validator_inv_def running_def)
  then show ?thesis
  proof cases
    case 1
    from this nd show ?thesis by (cases rule: push_op_idle[where g = g and op = op]) auto
  next
    case 2
    from this nd show ?thesis by (cases rule: push_op_first[where g = g and op = op]) auto
  next
    case 3
    show ?thesis
      unfolding push_op_instr[OF 3]
      by (auto split: option.split dest!: push_instr_total[OF 3 _ ne])
  next
    case 4
    then have cs: "v_call_stack v \<noteq> []" "v_state v \<noteq> IrrefutablyInvalid" by (auto simp: operand_mode_def)
    from 4 show ?thesis
    proof (cases rule: operand_mode_cases)
      case (block i sc s)
      obtain ts where ts: "transitions i = Some ts" using block(3) by auto
      have ne': "v_call_stack (v\<lparr>v_validation_stack := []\<rparr>) \<noteq> []" using cs by simp
      obtain r where "open_block sc i (v\<lparr>v_validation_stack := []\<rparr>) op = Some r"
        by (rule open_block_total[OF ne' ts, where sc = sc and op = op]) auto
      then have "push_operand_byte g v op t = Some r" for t
        using block by (auto simp: push_operand_byte_def pop_single_operand)
      moreover have "find (\<lambda>t. accepts_byte t op) (v_transitions v) \<noteq> Some (Op i)" for i
        using 4 by (auto simp: operand_mode_def operand_transitions_def)
      ultimately show ?thesis
        unfolding push_op_eq[OF cs(2,1)] by (cases r) (auto split: option.split Transition.split)
    qed (use assms(2) in \<open>auto simp: panic_free_def\<close>)
  qed
qed

end
