(* ===== verification/Code_Function.thy ===== *)
theory Code_Function
  imports Vm_Types Vm_Stack
begin

text \<open>
  \<open>purple_vm/src/code/function.rs\<close>: a function of a module and the length of a block of its
  code.  \<open>find_block_len\<close> walks over the instructions from a control flow instruction to the
  \<open>End\<close> that closes it; the counter \<open>i\<close> of its \<open>for\<close> loop and the \<open>offset\<close> of the operand
  bytes skipped so far give the position that is read.
\<close>

record Function =
  fn_arity :: u8
  fn_block :: "u8 list"
  fn_name :: string
  fn_arguments :: "VmType list"
  fn_return_type :: "VmType option"

definition fetch :: "Function \<Rightarrow> nat \<Rightarrow> u8 option" where
  "fetch f idx = (if length (fn_block f) \<le> idx then None else Some (fn_block f ! idx))"

text \<open>One argument of a push: its type byte now, its value bytes later (\<open>acc\<close>).\<close>

definition skip_arg ::
  "bits_get \<Rightarrow> u8 list \<Rightarrow> nat \<Rightarrow> u8 \<Rightarrow> nat \<times> nat \<times> nat \<Rightarrow> nat \<Rightarrow> (nat \<times> nat \<times> nat) option" where
  "skip_arg bits_get code i bitmask s j = (case s of (offset, result_len, acc) \<Rightarrow> do {
     let offset = offset + 1;
     let result_len = result_len + 1;
     arg_primitive_type \<leftarrow> index code (i + offset);
     t \<leftarrow> from_op arg_primitive_type;
     popped \<leftarrow> bits_get bitmask (of_nat j);
     n \<leftarrow> (if popped then Some 1 else byte_size t);
     Some (offset, result_len + n, acc + n)
   })"

text \<open>The arms \<open>PushLocal\<close> and \<open>PushOperand\<close>: arity, bitmask, then the arguments.\<close>

definition skip_push ::
  "bits_get \<Rightarrow> u8 list \<Rightarrow> nat \<Rightarrow> nat \<times> nat \<Rightarrow> (nat \<times> nat) option" where
  "skip_push bits_get code i s = (case s of (offset, result_len) \<Rightarrow> do {
     let offset = offset + 1;
     let result_len = result_len + 1;
     arity \<leftarrow> index code (i + offset);
     let offset = offset + 1;
     let result_len = result_len + 1;
     bitmask \<leftarrow> index code (i + offset);
     (offset, result_len, acc) \<leftarrow>
       foldm (skip_arg bits_get code i bitmask) (offset, result_len, 0) [0..<unat arity];
     Some (offset + acc, result_len)
   })"

text \<open>The operands of an instruction that does not open or close a block.\<close>

definition skip_operands ::
  "bits_get \<Rightarrow> u8 list \<Rightarrow> nat \<Rightarrow> Instruction \<Rightarrow> nat \<times> nat \<Rightarrow> (nat \<times> nat) option" where
  "skip_operands bits_get code i op s = (case s of (offset, result_len) \<Rightarrow>
     (case op of
        PickLocal \<Rightarrow> Some (offset + 2, result_len + 2)
      | Call \<Rightarrow> Some (offset + 2, result_len + 2)
      | Return \<Rightarrow> Some (offset + 1, result_len + 1)
      | PushLocal \<Rightarrow> skip_push bits_get code i (offset, result_len)
      | PushOperand \<Rightarrow> skip_push bits_get code i (offset, result_len)
      | _ \<Rightarrow> Some (offset, result_len)))"

text \<open>The body of the loop; \<open>Inl\<close> is the \<open>break\<close> with the resulting length.\<close>

definition block_len_step ::
  "bits_get \<Rightarrow> u8 list \<Rightarrow> nat \<Rightarrow> nat \<times> nat \<times> unit list \<Rightarrow> (nat + nat \<times> nat \<times> unit list) option" where
  "block_len_step bits_get code i s = (case s of (offset, result_len, stack) \<Rightarrow> do {
     let result_len = result_len + 1;
     byte \<leftarrow> index code (i + offset);
     (case from_repr byte of
        None \<Rightarrow> Some (Inr (offset, result_len, stack))
      | Some op \<Rightarrow>
          if op = End then do {
            (_, stack) \<leftarrow> stack_pop stack;
            Some (if stack_len stack = 0 then Inl result_len else Inr (offset, result_len, stack))
          } else if op \<in> set CT_FLOW_OPS then
            (let n = if op = Instruction.If then 2 else 1 in
             Some (Inr (offset + n, result_len + n, stack_push () stack)))
          else do {
            (offset, result_len) \<leftarrow> skip_operands bits_get code i op (offset, result_len);
            Some (Inr (offset, result_len, stack))
          })
   })"

fun block_len_loop ::
  "bits_get \<Rightarrow> u8 list \<Rightarrow> nat list \<Rightarrow> nat \<times> nat \<times> unit list \<Rightarrow> nat option" where
  "block_len_loop bits_get code [] (offset, result_len, stack) = Some result_len"
| "block_len_loop bits_get code (i # is) s = do {
     r \<leftarrow> block_len_step bits_get code i s;
     (case r of Inl result_len \<Rightarrow> Some result_len | Inr s' \<Rightarrow> block_len_loop bits_get code is s')
   }"

definition find_block_len :: "bits_get \<Rightarrow> Function \<Rightarrow> nat \<Rightarrow> nat option" where
  "find_block_len bits_get f idx =
     block_len_loop bits_get (fn_block f) [idx..<length (fn_block f)] (0, 0, stack_new)"

definition fetch_block_len :: "bits_get \<Rightarrow> Function \<Rightarrow> nat \<Rightarrow> nat option" where
  "fetch_block_len bits_get f idx = do {
     op \<leftarrow> index (fn_block f) idx;
     (case from_repr op of
        Some Instruction.Begin \<Rightarrow> find_block_len bits_get f idx
      | Some Instruction.Loop \<Rightarrow> find_block_len bits_get f idx
      | Some Instruction.If \<Rightarrow> find_block_len bits_get f idx
      | Some Instruction.Else \<Rightarrow> find_block_len bits_get f idx
      | _ \<Rightarrow> None)
   }"

section \<open>The end of a block\<close>

lemma fetch_eq: "fetch f idx = index (fn_block f) idx"
  by (simp add: fetch_def index_def)

text \<open>The skipped bytes are counted in the offset and in the length alike.\<close>

lemma skip_arg_balance:
  assumes "skip_arg g code i m (off, len, acc) j = Some (off', len', acc')"
  shows "len' + off + acc = len + off' + acc' \<and> off < off'"
  using assms by (auto simp: skip_arg_def bind_eq_Some_conv)

lemma skip_push_balance:
  assumes "skip_push g code i (off, len) = Some (off', len')"
  shows "len' + off = len + off' \<and> off < off'"
proof -
  let ?P = "\<lambda>(o1, l1, a1). l1 + off = len + o1 + a1 \<and> off < (o1 :: nat)"
  from assms obtain ar m o1 l1 a1 where
      f: "foldm (skip_arg g code i m) (off + 2, len + 2, 0) [0..<unat (ar :: u8)] = Some (o1, l1, a1)"
    and r: "off' = o1 + a1" "len' = l1"
    by (auto simp: skip_push_def bind_eq_Some_conv split: prod.split_asm)
  have "?P (o1, l1, a1)"
  proof (rule foldm_invariant[where P = ?P, OF f])
    show "?P (off + 2, len + 2, 0)" by simp
  next
    fix s j t
    assume "?P s" "j \<in> set [0..<unat ar]" "skip_arg g code i m s j = Some t"
    then show "?P t"
      by (cases s; cases t) (fastforce dest!: skip_arg_balance)
  qed
  with r show ?thesis by auto
qed

lemma skip_operands_balance:
  assumes "skip_operands g code i op (off, len) = Some (off', len')"
  shows "len' + off = len + off' \<and> off \<le> off'"
  using assms skip_push_balance[of g code i off len off' len']
  by (auto simp: skip_operands_def split: Instruction.split_asm)

lemma block_len_step_balance:
  assumes "block_len_step g code i (off, len, st) = Some (Inr (off', len', st'))"
  shows "len' + off = len + off' + 1 \<and> off \<le> off'"
  using assms
  by (auto simp: block_len_step_def Let_def bind_eq_Some_conv
      split: option.splits if_splits prod.split_asm dest!: skip_operands_balance)

lemma block_len_step_End:
  assumes "block_len_step g code i (off, len, st) = Some (Inl n)"
  shows "i + off < length code" "code ! (i + off) = repr End" "n = len + 1" "st = [()]"
  using assms
  by (auto simp: block_len_step_def Let_def bind_eq_Some_conv from_repr_eq_Some_iff stack_pop_iff
      stack_len_def split: option.splits if_splits prod.split_asm)

lemma block_len_loop_End:
  assumes "block_len_loop g code [i..<length code] (off, len, st) = Some n"
    and "len + idx = i + off" "0 < off" "i < length code"
  shows "idx + n \<le> length code \<and> 0 < n \<and> code ! (idx + n - 1) = repr End"
  using assms
proof (induction "length code - i" arbitrary: i off len st)
  case 0
  then show ?case by simp
next
  case (Suc k)
  from Suc.prems(4) have up: "[i..<length code] = i # [Suc i..<length code]"
    by (simp add: upt_conv_Cons)
  from Suc.prems(1) up obtain r where r: "block_len_step g code i (off, len, st) = Some r"
    and loop: "(case r of Inl n' \<Rightarrow> Some n' | Inr s \<Rightarrow> block_len_loop g code [Suc i..<length code] s) = Some n"
    by (auto simp: bind_eq_Some_conv)
  show ?case
  proof (cases r)
    case (Inl m)
    with r loop block_len_step_End[of g code i off len st m] Suc.prems(2) show ?thesis
      by (auto simp: add.commute)
  next
    case (Inr s)
    obtain off' len' st' where s: "s = (off', len', st')" by (cases s)
    note b = block_len_step_balance[OF r[unfolded Inr s]]
    from r have "i + off < length code"
      by (auto simp: block_len_step_def bind_eq_Some_conv)
    then have "Suc i < length code" using Suc.prems(3) by simp
    with Suc.hyps(1)[of "Suc i" off' len' st'] Suc.hyps(2) loop Inr s b Suc.prems show ?thesis
      by simp
  qed
qed

lemma fetch_block_len_End:
  assumes "fetch_block_len g f idx = Some n" "idx + 1 < length (fn_block f)"
  shows "idx + n \<le> length (fn_block f) \<and> 1 < n \<and> fetch f (idx + n - 1) = Some (repr End)"
proof -
  let ?code = "fn_block f"
  from assms obtain b i where b: "?code ! idx = b" "from_repr b = Some i"
      "i \<in> {Instruction.Begin, Instruction.Loop, Instruction.If, Instruction.Else}"
    and l: "block_len_loop g ?code [idx..<length ?code] (0, 0, []) = Some n"
    by (auto simp: fetch_block_len_def find_block_len_def bind_eq_Some_conv stack_new_def
        split: option.splits Instruction.splits)
  let ?k = "if i = Instruction.If then 2 else 1 :: nat"
  from b have "block_len_step g ?code idx (0, 0, []) = Some (Inr (?k, ?k + 1, [()]))"
    using assms(2) by (auto simp: block_len_step_def CT_FLOW_OPS_def stack_push_def)
  with l assms(2) have l2: "block_len_loop g ?code [Suc idx..<length ?code] (?k, ?k + 1, [()]) = Some n"
    by (simp add: upt_conv_Cons)
  have r: "idx + n \<le> length ?code \<and> 0 < n \<and> ?code ! (idx + n - 1) = repr End"
    by (rule block_len_loop_End[OF l2]) (use assms(2) in auto)
  moreover from r b have "n \<noteq> 1" by auto
  ultimately show ?thesis by (auto simp: fetch_eq)
qed

text \<open>At the last byte of the code there is no room for the operands of the block.\<close>

lemma fetch_block_len_last:
  assumes "fetch_block_len g f idx = Some n" "\<not> idx + 1 < length (fn_block f)"
  shows "idx + 1 = length (fn_block f) \<and> n = (if fetch f idx = Some (repr Instruction.If) then 3 else 2)"
proof -
  let ?code = "fn_block f"
  from assms obtain b i where b: "?code ! idx = b" "from_repr b = Some i"
      "i \<in> {Instruction.Begin, Instruction.Loop, Instruction.If, Instruction.Else}" "idx < length ?code"
    and l: "block_len_loop g ?code [idx..<length ?code] (0, 0, []) = Some n"
    by (auto simp: fetch_block_len_def find_block_len_def bind_eq_Some_conv stack_new_def
        split: option.splits Instruction.splits)
  from b(4) assms(2) have "idx + 1 = length ?code" by simp
  moreover from this have "[idx..<length ?code] = [idx]" by (simp add: upt_conv_Cons)
  ultimately show ?thesis using b l
    by (auto simp: block_len_step_def CT_FLOW_OPS_def stack_push_def fetch_eq from_repr_eq_Some_iff)
qed

end
