(* ===== verification/Vm_Args.thy ===== *)
theory Vm_Args
  imports Code_Function
begin

text \<open>
  Fetching the arguments of a push instruction: \<open>fetch_bytes\<close> and \<open>fetch_argv\<close> of
  \<open>purple_vm/src/virtual_machine.rs\<close>, and the error type of \<open>error.rs\<close>.

  \<open>fetch_argv\<close> works on mutable references to the top frame, the operand stack, the instruction
  pointer and the heap, and on its local vector \<open>argv\<close>; these are the fields of \<open>ArgState\<close>.  An
  early \<open>return Err(e)\<close> keeps what was changed until then, so an outcome is a panic (\<open>None\<close>),
  an error together with the state at that point (\<open>Inl\<close>) or the new state (\<open>Inr\<close>).
  Each arm of the \<open>match\<close> on the argument type is a definition of its own.
\<close>

section \<open>Errors and the heap\<close>

datatype VmError =
    NoModule | NoFun | NotLoaded | NotDefined | ImportNotLoaded nat nat | AlreadyLoaded | Overflow

type_synonym heap = "VmValue option list list"

definition heap_get :: "heap \<Rightarrow> nat \<Rightarrow> nat \<Rightarrow> VmValue option option" where
  "heap_get h x y = do { row \<leftarrow> index h x; index row y }"

definition heap_set :: "heap \<Rightarrow> nat \<Rightarrow> nat \<Rightarrow> VmValue option \<Rightarrow> heap option" where
  "heap_set h x y v = do { row \<leftarrow> index h x; row' \<leftarrow> index_set row y v; index_set h x row' }"

text \<open>The two coordinate bytes after a load or a store instruction.\<close>

definition fetch_coords :: "Function \<Rightarrow> Address \<Rightarrow> (nat \<times> nat \<times> Address) option" where
  "fetch_coords f a = do {
     let a = increment a;
     x \<leftarrow> fetch f (ip a);
     let a = increment a;
     y \<leftarrow> fetch f (ip a);
     Some (unat x, unat y, a)
   }"

definition fetch_bytes :: "nat \<Rightarrow> Address \<Rightarrow> Function \<Rightarrow> (u8 list \<times> Address) option" where
  "fetch_bytes amount a f =
     foldm (\<lambda>(b, a) i. do {
        byte \<leftarrow> fetch f (ip a);
        Some (b @ [byte], if i \<noteq> amount - 1 then increment a else a) }) ([], a) [0..<amount]"

section \<open>One argument\<close>

datatype ArgLocation = Inline | Memory

record ArgState =
  a_frame :: "VmValue Frame"
  a_operands :: "VmValue list"
  a_ip :: Address
  a_heap :: heap
  a_argv :: "VmValue list"

type_synonym outcome = "(VmError \<times> ArgState) + ArgState"

definition push_arg :: "VmValue \<Rightarrow> ArgState \<Rightarrow> ArgState" where
  "push_arg v s = s\<lparr>a_argv := a_argv s @ [v]\<rparr>"

definition take_local :: "ArgState \<Rightarrow> (VmValue \<times> ArgState) option" where
  "take_local s = do {
     (v, ls) \<leftarrow> stack_pop (locals (a_frame s));
     Some (v, s\<lparr>a_frame := (a_frame s)\<lparr>locals := ls\<rparr>\<rparr>)
   }"

definition take_operand :: "ArgState \<Rightarrow> (VmValue \<times> ArgState) option" where
  "take_operand s = do {
     (v, os) \<leftarrow> stack_pop (a_operands s);
     Some (v, s\<lparr>a_operands := os\<rparr>)
   }"

text \<open>\<open>let value = heap[x][y].unwrap(); heap[x][y] = None;\<close>\<close>

definition take_heap :: "Function \<Rightarrow> ArgState \<Rightarrow> (VmValue \<times> ArgState) option" where
  "take_heap f s = do {
     (x, y, a) \<leftarrow> fetch_coords f (a_ip s);
     cell \<leftarrow> heap_get (a_heap s) x y;
     v \<leftarrow> cell;
     h \<leftarrow> heap_set (a_heap s) x y None;
     Some (v, s\<lparr>a_ip := a, a_heap := h\<rparr>)
   }"

text \<open>The check \<open>if let VmValue::I32(_) = value\<close>, and the range checks of the narrow loads.\<close>

definition accept :: "VmType \<Rightarrow> VmValue \<times> ArgState \<Rightarrow> outcome option" where
  "accept t vs = (case vs of (v, s) \<Rightarrow>
     if value_type v = t then Some (Inr (push_arg v s)) else None)"

definition narrow_i32 :: "int \<Rightarrow> int \<Rightarrow> VmValue \<times> ArgState \<Rightarrow> outcome option" where
  "narrow_i32 lo hi vs = (case vs of (v, s) \<Rightarrow> (case v of
     VmValue.I32 inner \<Rightarrow>
       if hi < sint inner \<or> sint inner < lo then Some (Inl (Overflow, s))
       else Some (Inr (push_arg v s))
   | _ \<Rightarrow> None))"

definition narrow_i64 :: "int \<Rightarrow> int \<Rightarrow> VmValue \<times> ArgState \<Rightarrow> outcome option" where
  "narrow_i64 lo hi vs = (case vs of (v, s) \<Rightarrow> (case v of
     VmValue.I64 inner \<Rightarrow>
       if hi < sint inner \<or> sint inner < lo then Some (Inl (Overflow, s))
       else Some (Inr (push_arg v s))
   | _ \<Rightarrow> None))"

definition i32_arg :: "Function \<Rightarrow> ArgLocation \<Rightarrow> ArgState \<Rightarrow> outcome option" where
  "i32_arg f al s = do {
     byte \<leftarrow> fetch f (ip (a_ip s));
     (case al of
        Memory \<Rightarrow> (case from_repr byte of
            Some PopLocal \<Rightarrow> take_local s \<bind> accept VmType.I32
          | Some PopOperand \<Rightarrow> take_operand s \<bind> accept VmType.I32
          | Some (Load i32Load) \<Rightarrow> take_heap f s \<bind> accept VmType.I32
          | Some (Load i32Load8Signed) \<Rightarrow> take_heap f s \<bind> narrow_i32 (-128) 127
          | Some (Load i32Load8Unsigned) \<Rightarrow> take_heap f s \<bind> narrow_i32 0 255
          | Some (Load i32Load16Signed) \<Rightarrow> take_heap f s \<bind> narrow_i32 (-32768) 32767
          | Some (Load i32Load16Unsigned) \<Rightarrow> take_heap f s \<bind> narrow_i32 0 65535
          | _ \<Rightarrow> None)
      | Inline \<Rightarrow> do {
          (bytes, a) \<leftarrow> fetch_bytes 4 (a_ip s) f;
          val \<leftarrow> read_be 4 bytes;
          Some (Inr (push_arg (VmValue.I32 val) (s\<lparr>a_ip := a\<rparr>)))
        })
   }"

definition i64_arg :: "Function \<Rightarrow> ArgLocation \<Rightarrow> ArgState \<Rightarrow> outcome option" where
  "i64_arg f al s = do {
     byte \<leftarrow> fetch f (ip (a_ip s));
     (case al of
        Memory \<Rightarrow> (case from_repr byte of
            Some PopLocal \<Rightarrow> take_local s \<bind> accept VmType.I64
          | Some PopOperand \<Rightarrow> take_operand s \<bind> accept VmType.I64
          | Some (Load i64Load) \<Rightarrow> take_heap f s \<bind> accept VmType.I64
          | Some (Load i64Load8Signed) \<Rightarrow> take_heap f s \<bind> narrow_i64 (-128) 127
          | Some (Load i64Load8Unsigned) \<Rightarrow> take_heap f s \<bind> narrow_i64 0 255
          | Some (Load i64Load16Signed) \<Rightarrow> take_heap f s \<bind> narrow_i64 (-32768) 32767
          | Some (Load i64Load16Unsigned) \<Rightarrow> take_heap f s \<bind> narrow_i64 0 65535
          | Some (Load i64Load32Signed) \<Rightarrow> take_heap f s \<bind> narrow_i64 (-2147483648) 2147483647
          | Some (Load i64Load32Unsigned) \<Rightarrow> take_heap f s \<bind> narrow_i64 0 4294967295
          | _ \<Rightarrow> None)
      | Inline \<Rightarrow> do {
          (bytes, a) \<leftarrow> fetch_bytes 8 (a_ip s) f;
          val \<leftarrow> read_be 8 bytes;
          Some (Inr (push_arg (VmValue.I64 val) (s\<lparr>a_ip := a\<rparr>)))
        })
   }"

definition f32_arg :: "Function \<Rightarrow> ArgLocation \<Rightarrow> ArgState \<Rightarrow> outcome option" where
  "f32_arg f al s = do {
     byte \<leftarrow> fetch f (ip (a_ip s));
     (case al of
        Memory \<Rightarrow> (case from_repr byte of
            Some PopLocal \<Rightarrow> take_local s \<bind> accept VmType.F32
          | Some PopOperand \<Rightarrow> take_operand s \<bind> accept VmType.F32
          | Some (Load f32Load) \<Rightarrow> take_heap f s \<bind> accept VmType.F32
          | _ \<Rightarrow> None)
      | Inline \<Rightarrow> do {
          (bytes, a) \<leftarrow> fetch_bytes 4 (a_ip s) f;
          val \<leftarrow> read_be 4 bytes;
          Some (Inr (push_arg (VmValue.F32 val) (s\<lparr>a_ip := a\<rparr>)))
        })
   }"

text \<open>The scalar arm fetches \<open>amount = 4\<close> bytes, the array arms 8, and both read 8 of them.\<close>

definition f64_elem :: "nat \<Rightarrow> Function \<Rightarrow> ArgLocation \<Rightarrow> ArgState \<Rightarrow> outcome option" where
  "f64_elem amount f al s = do {
     byte \<leftarrow> fetch f (ip (a_ip s));
     (case al of
        Memory \<Rightarrow> (case from_repr byte of
            Some PopLocal \<Rightarrow> take_local s \<bind> accept VmType.F64
          | Some PopOperand \<Rightarrow> take_operand s \<bind> accept VmType.F64
          | Some (Load f64Load) \<Rightarrow> take_heap f s \<bind> accept VmType.F64
          | _ \<Rightarrow> None)
      | Inline \<Rightarrow> do {
          (bytes, a) \<leftarrow> fetch_bytes amount (a_ip s) f;
          val \<leftarrow> read_be 8 bytes;
          Some (Inr (push_arg (VmValue.F64 val) (s\<lparr>a_ip := a\<rparr>)))
        })
   }"

definition f64_arg :: "Function \<Rightarrow> ArgLocation \<Rightarrow> ArgState \<Rightarrow> outcome option" where
  "f64_arg f al s = f64_elem 4 f al s"

section \<open>Array arguments\<close>

text \<open>\<open>for _ in 0..n\<close> around a body that may return an error.\<close>

fun repeat_outcome :: "nat \<Rightarrow> (ArgState \<Rightarrow> outcome option) \<Rightarrow> ArgState \<Rightarrow> outcome option" where
  "repeat_outcome 0 elem s = Some (Inr s)"
| "repeat_outcome (Suc n) elem s = do {
     r \<leftarrow> elem s;
     (case r of Inl e \<Rightarrow> Some (Inl e) | Inr s' \<Rightarrow> repeat_outcome n elem s')
   }"

text \<open>
  The arms fetch \<open>n\<close> elements, which their bodies push to \<open>argv\<close>, and then copy \<open>buffer\<close> into
  the array; \<open>buffer\<close> is still the empty vector it was created as.
\<close>

definition array_arg ::
  "nat \<Rightarrow> (ArgState \<Rightarrow> outcome option) \<Rightarrow> ('e list \<Rightarrow> VmValue) \<Rightarrow> ArgState \<Rightarrow> outcome option" where
  "array_arg n elem variant s = do {
     let buffer = [];
     r \<leftarrow> repeat_outcome n elem s;
     (case r of
        Inl e \<Rightarrow> Some (Inl e)
      | Inr s' \<Rightarrow> do {
          result \<leftarrow> copy_from_slice n buffer;
          Some (Inr (push_arg (variant result) s'))
        })
   }"

definition i32Array2_arg :: "Function \<Rightarrow> ArgLocation \<Rightarrow> ArgState \<Rightarrow> outcome option" where
  "i32Array2_arg f al s = array_arg 2 (i32_arg f al) VmValue.i32Array2 s"

definition i32Array4_arg :: "Function \<Rightarrow> ArgLocation \<Rightarrow> ArgState \<Rightarrow> outcome option" where
  "i32Array4_arg f al s = array_arg 4 (i32_arg f al) VmValue.i32Array4 s"

definition i32Array8_arg :: "Function \<Rightarrow> ArgLocation \<Rightarrow> ArgState \<Rightarrow> outcome option" where
  "i32Array8_arg f al s = array_arg 8 (i32_arg f al) VmValue.i32Array8 s"

definition i64Array2_arg :: "Function \<Rightarrow> ArgLocation \<Rightarrow> ArgState \<Rightarrow> outcome option" where
  "i64Array2_arg f al s = array_arg 2 (i64_arg f al) VmValue.i64Array2 s"

definition i64Array4_arg :: "Function \<Rightarrow> ArgLocation \<Rightarrow> ArgState \<Rightarrow> outcome option" where
  "i64Array4_arg f al s = array_arg 4 (i64_arg f al) VmValue.i64Array4 s"

definition i64Array8_arg :: "Function \<Rightarrow> ArgLocation \<Rightarrow> ArgState \<Rightarrow> outcome option" where
  "i64Array8_arg f al s = array_arg 8 (i64_arg f al) VmValue.i64Array8 s"

definition f32Array2_arg :: "Function \<Rightarrow> ArgLocation \<Rightarrow> ArgState \<Rightarrow> outcome option" where
  "f32Array2_arg f al s = array_arg 2 (f32_arg f al) VmValue.f32Array2 s"

definition f32Array4_arg :: "Function \<Rightarrow> ArgLocation \<Rightarrow> ArgState \<Rightarrow> outcome option" where
  "f32Array4_arg f al s = array_arg 4 (f32_arg f al) VmValue.f32Array4 s"

definition f32Array8_arg :: "Function \<Rightarrow> ArgLocation \<Rightarrow> ArgState \<Rightarrow> outcome option" where
  "f32Array8_arg f al s = array_arg 8 (f32_arg f al) VmValue.f32Array8 s"

definition f64Array2_arg :: "Function \<Rightarrow> ArgLocation \<Rightarrow> ArgState \<Rightarrow> outcome option" where
  "f64Array2_arg f al s = array_arg 2 (f64_elem 8 f al) VmValue.f64Array2 s"

definition f64Array4_arg :: "Function \<Rightarrow> ArgLocation \<Rightarrow> ArgState \<Rightarrow> outcome option" where
  "f64Array4_arg f al s = array_arg 4 (f64_elem 8 f al) VmValue.f64Array4 s"

definition f64Array8_arg :: "Function \<Rightarrow> ArgLocation \<Rightarrow> ArgState \<Rightarrow> outcome option" where
  "f64Array8_arg f al s = array_arg 8 (f64_elem 8 f al) VmValue.f64Array8 s"

section \<open>All arguments\<close>

definition fetch_arg :: "Function \<Rightarrow> VmType \<Rightarrow> ArgLocation \<Rightarrow> ArgState \<Rightarrow> outcome option" where
  "fetch_arg f t al s = (case t of
       VmType.I32 \<Rightarrow> i32_arg f al s
     | VmType.I64 \<Rightarrow> i64_arg f al s
     | VmType.F32 \<Rightarrow> f32_arg f al s
     | VmType.F64 \<Rightarrow> f64_arg f al s
     | VmType.i32Array2 \<Rightarrow> i32Array2_arg f al s
     | VmType.i32Array4 \<Rightarrow> i32Array4_arg f al s
     | VmType.i32Array8 \<Rightarrow> i32Array8_arg f al s
     | VmType.i64Array2 \<Rightarrow> i64Array2_arg f al s
     | VmType.i64Array4 \<Rightarrow> i64Array4_arg f al s
     | VmType.i64Array8 \<Rightarrow> i64Array8_arg f al s
     | VmType.f32Array2 \<Rightarrow> f32Array2_arg f al s
     | VmType.f32Array4 \<Rightarrow> f32Array4_arg f al s
     | VmType.f32Array8 \<Rightarrow> f32Array8_arg f al s
     | VmType.f64Array2 \<Rightarrow> f64Array2_arg f al s
     | VmType.f64Array4 \<Rightarrow> f64Array4_arg f al s
     | VmType.f64Array8 \<Rightarrow> f64Array8_arg f al s
     | _ \<Rightarrow> None)"

definition fetch_arg_types ::
  "bits_get \<Rightarrow> Function \<Rightarrow> nat \<Rightarrow> Address \<Rightarrow> ((VmType \<times> ArgLocation) list \<times> Address) option" where
  "fetch_arg_types bits_get f arity a = do {
     let a = increment a;
     args_bitmask \<leftarrow> fetch f (ip a);
     foldm (\<lambda>(types, a) i. do {
        let a = increment a;
        op \<leftarrow> fetch f (ip a);
        arg \<leftarrow> from_op op;
        memory \<leftarrow> bits_get args_bitmask (of_nat i);
        Some (types @ [(arg, if memory then Memory else Inline)], a) }) ([], a) [0..<arity]
   }"

fun fetch_args :: "Function \<Rightarrow> (VmType \<times> ArgLocation) list \<Rightarrow> ArgState \<Rightarrow> outcome option" where
  "fetch_args f [] s = Some (Inr s)"
| "fetch_args f ((t, al) # rest) s = do {
     r \<leftarrow> fetch_arg f t al (s\<lparr>a_ip := increment (a_ip s)\<rparr>);
     (case r of Inl e \<Rightarrow> Some (Inl e) | Inr s' \<Rightarrow> fetch_args f rest s')
   }"

definition fetch_argv ::
  "bits_get \<Rightarrow> VmValue Frame \<Rightarrow> VmValue list \<Rightarrow> Address \<Rightarrow> heap \<Rightarrow> Function \<Rightarrow> nat \<Rightarrow>
     ((VmError \<times> ArgState) + (VmType list \<times> ArgState)) option" where
  "fetch_argv bits_get frame operand_stack a heap f arity = do {
     (argv_types, a) \<leftarrow> fetch_arg_types bits_get f arity a;
     r \<leftarrow> fetch_args f argv_types
        \<lparr>a_frame = frame, a_operands = operand_stack, a_ip = a, a_heap = heap, a_argv = []\<rparr>;
     Some (case r of Inl e \<Rightarrow> Inl e | Inr s \<Rightarrow> Inr (map fst argv_types, s))
   }"

section \<open>Reading bytes\<close>

lemma address_set_ip: "a\<lparr>ip := ip a\<rparr> = (a :: Address)"
  by (cases a) simp

lemma fetch_bytes_prefix:
  assumes "k \<le> n" "0 < n"
  shows "foldm (\<lambda>(b, a) i. do {
        byte \<leftarrow> fetch f (ip a);
        Some (b @ [byte], if i \<noteq> n - 1 then increment a else a) }) ([], a) [0..<k] =
    (if k = 0 then Some ([], a)
     else if ip a + k \<le> length (fn_block f)
     then Some (take k (drop (ip a) (fn_block f)), a\<lparr>ip := ip a + min k (n - 1)\<rparr>) else None)"
  using assms(1)
proof (induction k)
  case 0
  then show ?case by simp
next
  case (Suc k)
  note IH = Suc.IH[OF Suc_leD[OF Suc.prems]]
  show ?case
  proof (cases "ip a + k < length (fn_block f)")
    case True
    have t: "take (Suc k) (drop (ip a) (fn_block f)) = take k (drop (ip a) (fn_block f)) @ [fn_block f ! (ip a + k)]"
      using True by (simp add: take_Suc_conv_app_nth)
    have m: "min k (n - 1) = k" using Suc.prems by simp
    show ?thesis
      using IH True Suc.prems assms(2) t m
      by (cases "k = 0"; cases "Suc k = n") (auto simp: foldm_snoc fetch_def increment_def address_set_ip)
  next
    case False
    have "min k (n - 1) = k" using Suc.prems by simp
    with False show ?thesis
      using IH by (cases "k = 0") (auto simp: foldm_snoc fetch_def)
  qed
qed

lemma fetch_bytes_eq:
  assumes "0 < n"
  shows "fetch_bytes n a f =
    (if ip a + n \<le> length (fn_block f)
     then Some (take n (drop (ip a) (fn_block f)), a\<lparr>ip := ip a + n - 1\<rparr>) else None)"
  using assms fetch_bytes_prefix[of n n f a] by (auto simp: fetch_bytes_def)

section \<open>What fetching an argument does\<close>

text \<open>Array arguments never succeed, and neither does an inline \<open>f64\<close>.\<close>

lemma array_arg_fails: "0 < n \<Longrightarrow> array_arg n elem variant s \<noteq> Some (Inr s')"
  by (auto simp: array_arg_def bind_eq_Some_conv split: sum.split_asm)

lemma f64_inline_panics: "f64_arg f Inline s = None"
proof (cases "fetch_bytes 4 (a_ip s) f")
  case None
  then show ?thesis by (simp add: f64_arg_def f64_elem_def bind_eq_None_conv)
next
  case (Some r)
  then have "length (fst r) = 4"
    by (auto simp: fetch_bytes_eq split: if_splits)
  then have "(read_be 8 (fst r) :: f64 option) = None" by (simp add: read_be_def)
  with Some show ?thesis
    by (auto simp: f64_arg_def f64_elem_def bind_eq_None_conv split: prod.splits)
qed

definition scalar :: "VmType \<Rightarrow> bool" where
  "scalar t \<longleftrightarrow> t \<in> {VmType.I32, VmType.I64, VmType.F32, VmType.F64}"

lemmas array_arg_defs = i32Array2_arg_def i32Array4_arg_def i32Array8_arg_def
  i64Array2_arg_def i64Array4_arg_def i64Array8_arg_def f32Array2_arg_def f32Array4_arg_def
  f32Array8_arg_def f64Array2_arg_def f64Array4_arg_def f64Array8_arg_def

lemma fetch_arg_scalar: "fetch_arg f t al s = Some (Inr s') \<Longrightarrow> scalar t"
  by (cases t) (auto simp: fetch_arg_def array_arg_defs array_arg_fails scalar_def)

text \<open>
  The heap has 256 rows of 256 cells, so a pair of coordinate bytes is always in range, and
  every value anywhere is well formed.
\<close>

definition heap_ok :: "heap \<Rightarrow> bool" where
  "heap_ok h \<longleftrightarrow> length h = 256 \<and>
     (\<forall>row \<in> set h. length row = 256 \<and> (\<forall>v. Some v \<in> set row \<longrightarrow> wf_value v))"

definition arg_ok :: "ArgState \<Rightarrow> bool" where
  "arg_ok s \<longleftrightarrow> heap_ok (a_heap s) \<and> list_all wf_value (locals (a_frame s)) \<and>
     list_all wf_value (a_operands s) \<and> list_all wf_value (a_argv s)"

definition arg_rel :: "ArgState \<Rightarrow> ArgState \<Rightarrow> bool" where
  "arg_rel s s' \<longleftrightarrow> (arg_ok s \<longrightarrow> arg_ok s') \<and>
     scope_type (a_frame s') = scope_type (a_frame s) \<and>
     return_address (a_frame s') = return_address (a_frame s) \<and>
     fun_idx (a_ip s') = fun_idx (a_ip s) \<and> module_idx (a_ip s') = module_idx (a_ip s) \<and>
     ip (a_ip s) \<le> ip (a_ip s')"

primrec outcome_state :: "outcome \<Rightarrow> ArgState" where
  "outcome_state (Inl es) = snd es"
| "outcome_state (Inr s) = s"

lemma heap_get_iff:
  "heap_get h x y = Some c \<longleftrightarrow> x < length h \<and> y < length (h ! x) \<and> h ! x ! y = c"
  by (auto simp: heap_get_def bind_eq_Some_conv)

lemma heap_set_iff:
  "heap_set h x y c = Some h' \<longleftrightarrow>
     x < length h \<and> y < length (h ! x) \<and> h' = h[x := (h ! x)[y := c]]"
  by (auto simp: heap_set_def bind_eq_Some_conv)

lemma heap_ok_set:
  assumes "heap_ok h" "heap_set h x y c = Some h'" "\<And>v. c = Some v \<Longrightarrow> wf_value v"
  shows "heap_ok h'"
proof -
  from assms(2) have h: "x < length h" "h' = h[x := (h ! x)[y := c]]" by (auto simp: heap_set_iff)
  have "length row = 256 \<and> (\<forall>v. Some v \<in> set row \<longrightarrow> wf_value v)" if "row \<in> set h'" for row
  proof -
    from that h have "row \<in> set h \<or> row = (h ! x)[y := c]"
      using set_update_subset_insert by fastforce
    moreover have "h ! x \<in> set h" using h(1) by simp
    moreover have "set ((h ! x)[y := c]) \<subseteq> insert c (set (h ! x))"
      by (rule set_update_subset_insert)
    ultimately show ?thesis using assms(1,3) unfolding heap_ok_def by force
  qed
  with assms(1) h show ?thesis by (simp add: heap_ok_def)
qed

lemma heap_ok_get: "heap_ok h \<Longrightarrow> heap_get h x y = Some (Some v) \<Longrightarrow> wf_value v"
  by (auto simp: heap_ok_def heap_get_iff) (metis nth_mem)

lemma heap_ok_access:
  assumes "heap_ok h" "x < 256" "y < 256"
  shows "heap_get h x y \<noteq> None" "heap_set h x y c \<noteq> None"
proof -
  from assms have "x < length h" "y < length (h ! x)" by (auto simp: heap_ok_def)
  then show "heap_get h x y \<noteq> None" "heap_set h x y c \<noteq> None"
    by (simp_all add: heap_get_def heap_set_def)
qed

lemma arg_rel_refl [simp]: "arg_rel s s"
  by (simp add: arg_rel_def)

lemma arg_rel_trans: "arg_rel s t \<Longrightarrow> arg_rel t u \<Longrightarrow> arg_rel s u"
  by (auto simp: arg_rel_def)

lemma take_local_rel:
  "take_local s = Some (v, s') \<Longrightarrow> arg_rel s s' \<and> (arg_ok s \<longrightarrow> wf_value v) \<and> a_argv s' = a_argv s"
  by (auto simp: take_local_def bind_eq_Some_conv stack_pop_iff arg_rel_def arg_ok_def)

lemma take_operand_rel:
  "take_operand s = Some (v, s') \<Longrightarrow> arg_rel s s' \<and> (arg_ok s \<longrightarrow> wf_value v) \<and> a_argv s' = a_argv s"
  by (auto simp: take_operand_def bind_eq_Some_conv stack_pop_iff arg_rel_def arg_ok_def)

lemma fetch_coords_Some:
  assumes "fetch_coords f a = Some (x, y, a')"
  shows "x < 256" "y < 256" "a' = a\<lparr>ip := ip a + 2\<rparr>"
  using assms unsigned_less[where 'a = nat and 'b = 8]
  by (auto simp: fetch_coords_def bind_eq_Some_conv increment_def)

lemma take_heap_rel:
  "take_heap f s = Some (v, s') \<Longrightarrow> arg_rel s s' \<and> (arg_ok s \<longrightarrow> wf_value v) \<and> a_argv s' = a_argv s"
  by (auto simp: take_heap_def bind_eq_Some_conv arg_rel_def arg_ok_def
      dest: heap_ok_set heap_ok_get dest!: fetch_coords_Some(3) split: prod.split_asm)

lemmas take_rel = take_local_rel take_operand_rel take_heap_rel

text \<open>An outcome keeps the state in order; a success appends one value of the type asked for.\<close>

definition arg_result :: "VmType \<Rightarrow> ArgState \<Rightarrow> outcome \<Rightarrow> bool" where
  "arg_result t s r \<longleftrightarrow> arg_rel s (outcome_state r) \<and>
     (\<forall>s'. r = Inr s' \<longrightarrow> (\<exists>v. value_type v = t \<and> a_argv s' = a_argv s @ [v])) \<and>
     (\<forall>e s'. r = Inl (e, s') \<longrightarrow> e = Overflow)"

lemma push_arg_result:
  assumes "arg_rel s s'" "arg_ok s \<longrightarrow> wf_value v" "a_argv s' = a_argv s" "value_type v = t"
  shows "arg_result t s (Inr (push_arg v s'))"
  using assms by (auto simp: arg_result_def arg_rel_def push_arg_def arg_ok_def)

lemma bind_accept_result:
  assumes "m \<bind> accept t = Some r"
    and "\<And>v s'. m = Some (v, s') \<Longrightarrow> arg_rel s s' \<and> (arg_ok s \<longrightarrow> wf_value v) \<and> a_argv s' = a_argv s"
  shows "arg_result t s r"
  using assms push_arg_result by (auto simp: bind_eq_Some_conv accept_def split: if_splits)

lemma narrow_i32_cases:
  "narrow_i32 lo hi (v, s) = Some r \<Longrightarrow>
     value_type v = VmType.I32 \<and> (r = Inl (Overflow, s) \<or> r = Inr (push_arg v s))"
  by (cases v) (auto simp: narrow_i32_def split: if_splits)

lemma narrow_i64_cases:
  "narrow_i64 lo hi (v, s) = Some r \<Longrightarrow>
     value_type v = VmType.I64 \<and> (r = Inl (Overflow, s) \<or> r = Inr (push_arg v s))"
  by (cases v) (auto simp: narrow_i64_def split: if_splits)

lemma narrow_result:
  assumes "m = Some (v, s')"
    and "narrow (v, s') = Some r"
    and "\<And>v s r. narrow (v, s) = Some r \<Longrightarrow>
      value_type v = t \<and> (r = Inl (Overflow, s) \<or> r = Inr (push_arg v s))"
    and "\<And>v s'. m = Some (v, s') \<Longrightarrow> arg_rel s s' \<and> (arg_ok s \<longrightarrow> wf_value v) \<and> a_argv s' = a_argv s"
  shows "arg_result t s r"
  using assms(3)[OF assms(2)] assms(4)[OF assms(1)] push_arg_result[of s s' v t]
  by (auto simp: arg_result_def)

lemma bind_narrow_i32_result:
  assumes "m \<bind> narrow_i32 lo hi = Some r"
    and "\<And>v s'. m = Some (v, s') \<Longrightarrow> arg_rel s s' \<and> (arg_ok s \<longrightarrow> wf_value v) \<and> a_argv s' = a_argv s"
  shows "arg_result VmType.I32 s r"
proof -
  from assms(1) obtain v s' where "m = Some (v, s')" "narrow_i32 lo hi (v, s') = Some r"
    by (auto simp: bind_eq_Some_conv)
  from narrow_result[where narrow = "narrow_i32 lo hi", OF this narrow_i32_cases assms(2)] show ?thesis .
qed

lemma bind_narrow_i64_result:
  assumes "m \<bind> narrow_i64 lo hi = Some r"
    and "\<And>v s'. m = Some (v, s') \<Longrightarrow> arg_rel s s' \<and> (arg_ok s \<longrightarrow> wf_value v) \<and> a_argv s' = a_argv s"
  shows "arg_result VmType.I64 s r"
proof -
  from assms(1) obtain v s' where "m = Some (v, s')" "narrow_i64 lo hi (v, s') = Some r"
    by (auto simp: bind_eq_Some_conv)
  from narrow_result[where narrow = "narrow_i64 lo hi", OF this narrow_i64_cases assms(2)] show ?thesis .
qed

lemma bind_inline_result:
  assumes "fetch_bytes n (a_ip s) f \<bind> (\<lambda>(bytes, a). read_be m bytes \<bind>
      (\<lambda>val. Some (Inr (push_arg (variant val) (s\<lparr>a_ip := a\<rparr>))))) = Some r"
    and "0 < n" "\<And>x. wf_value (variant x)" "\<And>x. value_type (variant x) = t"
  shows "arg_result t s r"
proof -
  from assms(1) obtain bytes a val where f: "fetch_bytes n (a_ip s) f = Some (bytes, a)"
    and r: "r = Inr (push_arg (variant val) (s\<lparr>a_ip := a\<rparr>))"
    by (auto simp: bind_eq_Some_conv)
  show ?thesis
    unfolding r
    by (rule push_arg_result) (use assms(2-4) f in
        \<open>auto simp: fetch_bytes_eq arg_rel_def arg_ok_def split: if_splits\<close>)
qed

lemmas arg_results = bind_accept_result bind_narrow_i32_result bind_narrow_i64_result

lemma i32_arg_result: "i32_arg f al s = Some r \<Longrightarrow> arg_result VmType.I32 s r"
  unfolding i32_arg_def
  apply (cases al; erule bind_SomeE)
   apply (simp_all split: option.split_asm Instruction.split_asm LoadOp.split_asm)
  apply ((erule arg_results, erule take_rel) | (erule bind_inline_result; simp))+
  done

lemma i64_arg_result: "i64_arg f al s = Some r \<Longrightarrow> arg_result VmType.I64 s r"
  unfolding i64_arg_def
  apply (cases al; erule bind_SomeE)
   apply (simp_all split: option.split_asm Instruction.split_asm LoadOp.split_asm)
  apply ((erule arg_results, erule take_rel) | (erule bind_inline_result; simp))+
  done

lemma f32_arg_result: "f32_arg f al s = Some r \<Longrightarrow> arg_result VmType.F32 s r"
  unfolding f32_arg_def
  apply (cases al; erule bind_SomeE)
   apply (simp_all split: option.split_asm Instruction.split_asm LoadOp.split_asm)
  apply ((erule arg_results, erule take_rel) | (erule bind_inline_result; simp))+
  done

lemma f64_elem_result: "f64_elem n f al s = Some r \<Longrightarrow> 0 < n \<Longrightarrow> arg_result VmType.F64 s r"
  unfolding f64_elem_def
  apply (cases al; erule bind_SomeE)
   apply (simp_all split: option.split_asm Instruction.split_asm LoadOp.split_asm)
  apply ((erule arg_results, erule take_rel) | (erule bind_inline_result; simp))+
  done

lemma repeat_outcome_rel:
  assumes "repeat_outcome n elem s = Some r" and "\<And>s r. elem s = Some r \<Longrightarrow> \<exists>t. arg_result t s r"
  shows "arg_rel s (outcome_state r) \<and> (\<forall>e s'. r = Inl (e, s') \<longrightarrow> e = Overflow)"
  using assms(1)
proof (induction n arbitrary: s)
  case 0
  then show ?case by auto
next
  case (Suc n)
  from Suc.prems obtain q where q: "elem s = Some q"
    and rest: "(case q of Inl e \<Rightarrow> Some (Inl e) | Inr s' \<Rightarrow> repeat_outcome n elem s') = Some r"
    by (auto simp: bind_eq_Some_conv)
  note a = assms(2)[OF q]
  show ?case
  proof (cases q)
    case (Inl e)
    with rest a show ?thesis by (auto simp: arg_result_def)
  next
    case (Inr s')
    with rest have "repeat_outcome n elem s' = Some r" by simp
    from Suc.IH[OF this] a Inr show ?thesis
      by (auto simp: arg_result_def intro: arg_rel_trans)
  qed
qed

lemma array_arg_result:
  assumes "array_arg n elem variant s = Some r" "0 < n" and "\<And>s r. elem s = Some r \<Longrightarrow> \<exists>t. arg_result t s r"
  shows "arg_result t s r"
proof -
  from assms(1) obtain q where q: "repeat_outcome n elem s = Some q"
    and c: "(case q of Inl e \<Rightarrow> Some (Inl e) | Inr s' \<Rightarrow> do {
          result \<leftarrow> copy_from_slice n [];
          Some (Inr (push_arg (variant result) s')) }) = Some r"
    by (auto simp: array_arg_def bind_eq_Some_conv)
  from c assms(2) have "r = q" "\<forall>s'. q \<noteq> Inr s'" by (cases q; auto simp: bind_eq_Some_conv)+
  with repeat_outcome_rel[OF q assms(3)] show ?thesis by (auto simp: arg_result_def)
qed

lemmas elem_results = i32_arg_result i64_arg_result f32_arg_result f64_elem_result

lemma array_elem_result:
  "array_arg n elem variant s = Some r \<Longrightarrow> 0 < n \<Longrightarrow>
     elem \<in> {i32_arg f al, i64_arg f al, f32_arg f al, f64_elem 8 f al} \<Longrightarrow> arg_result t s r"
  by (erule array_arg_result) (auto dest!: elem_results)

lemma fetch_arg_result: "fetch_arg f t al s = Some r \<Longrightarrow> arg_result t s r"
  apply (cases t)
  apply (simp_all add: fetch_arg_def array_arg_defs f64_arg_def elem_results)
  apply (erule array_elem_result[where f = f and al = al]; simp)+
  done

lemma fetch_args_result:
  assumes "fetch_args f types s = Some r"
  shows "arg_rel s (outcome_state r) \<and> (\<forall>e s'. r = Inl (e, s') \<longrightarrow> e = Overflow) \<and>
    (\<forall>s'. r = Inr s' \<longrightarrow> list_all scalar (map fst types) \<and>
       (\<exists>vs. a_argv s' = a_argv s @ vs \<and> map value_type vs = map fst types))"
  using assms
proof (induction types arbitrary: s)
  case Nil
  then show ?case by auto
next
  case (Cons p types)
  obtain t al where p: "p = (t, al)" by force
  let ?s = "s\<lparr>a_ip := increment (a_ip s)\<rparr>"
  from Cons.prems p obtain q where q: "fetch_arg f t al ?s = Some q"
    and rest: "(case q of Inl e \<Rightarrow> Some (Inl e) | Inr s' \<Rightarrow> fetch_args f types s') = Some r"
    by (auto simp: bind_eq_Some_conv)
  note a = fetch_arg_result[OF q]
  have inc: "arg_rel s ?s" by (auto simp: arg_rel_def arg_ok_def)
  show ?case
  proof (cases q)
    case (Inl e)
    with rest a inc show ?thesis by (auto simp: arg_result_def intro: arg_rel_trans)
  next
    case (Inr s')
    with rest have "fetch_args f types s' = Some r" by simp
    note IH = Cons.IH[OF this]
    from a Inr obtain v where v: "value_type v = t" "a_argv s' = a_argv s @ [v]" "arg_rel ?s s'"
      by (auto simp: arg_result_def)
    have "list_all scalar (map fst (p # types)) \<and>
        (\<exists>vs. a_argv s'' = a_argv s @ vs \<and> map value_type vs = map fst (p # types))"
      if "r = Inr s''" for s''
    proof -
      from IH that obtain vs where "a_argv s'' = a_argv s' @ vs" "map value_type vs = map fst types"
        and "list_all scalar (map fst types)" by auto
      with v fetch_arg_scalar q Inr p show ?thesis by (auto intro!: exI[of _ "v # vs"])
    qed
    with IH arg_rel_trans[OF inc arg_rel_trans[OF v(3)]] show ?thesis by auto
  qed
qed

lemma fetch_arg_types_length:
  assumes "fetch_arg_types g f arity a = Some (types, a')"
  shows "length types = arity" "fun_idx a' = fun_idx a" "module_idx a' = module_idx a" "ip a \<le> ip a'"
proof -
  let ?body = "\<lambda>m. \<lambda>(types, a) i. do {
        let a = increment a;
        op \<leftarrow> fetch f (ip a);
        arg \<leftarrow> from_op op;
        memory \<leftarrow> g m (of_nat i);
        Some (types @ [(arg, if memory then Memory else Inline)], a) }"
  have "length types = k \<and> fun_idx a' = fun_idx a \<and> module_idx a' = module_idx a \<and> ip a \<le> ip a'"
    if "foldm (?body m) ([], a) [0..<k] = Some (types, a')" for k m types a' a
    using that
  proof (induction k arbitrary: types a')
    case (Suc k)
    then obtain ts b where "foldm (?body m) ([], a) [0..<k] = Some (ts, b)"
      and "?body m (ts, b) k = Some (types, a')"
      by (auto simp: foldm_snoc bind_eq_Some_conv)
    with Suc.IH show ?case by (fastforce simp: bind_eq_Some_conv)
  qed simp
  with assms show "length types = arity" "fun_idx a' = fun_idx a" "module_idx a' = module_idx a" "ip a \<le> ip a'"
    by (fastforce simp: fetch_arg_types_def bind_eq_Some_conv Let_def)+
qed

text \<open>The types are those that the bytes after the bitmask name.\<close>

lemma fetch_arg_types_bytes:
  assumes "fetch_arg_types g f arity a = Some (types, a')"
  shows "map Some (map fst types) = map from_op (take arity (drop (ip a + 2) (fn_block f)))"
proof -
  let ?body = "\<lambda>m. \<lambda>(types, a) i. do {
        let a = increment a;
        op \<leftarrow> fetch f (ip a);
        arg \<leftarrow> from_op op;
        memory \<leftarrow> g m (of_nat i);
        Some (types @ [(arg, if memory then Memory else Inline)], a) }"
  have *: "ip a' = ip b + k \<and> map Some (map fst types) = map from_op (take k (drop (ip b + 1) (fn_block f)))"
    if "foldm (?body m) ([], b) [0..<k] = Some (types, a')" for k m types a' b
    using that
  proof (induction k arbitrary: types a')
    case (Suc k)
    from Suc.prems obtain ts c where c: "foldm (?body m) ([], b) [0..<k] = Some (ts, c)"
      and s: "?body m (ts, c) k = Some (types, a')"
      by (auto simp: foldm_snoc bind_eq_Some_conv)
    note IH = Suc.IH[OF c]
    from s obtain op t where o: "fetch f (Suc (ip c)) = Some op" "from_op op = Some t"
      and r: "map Some (map fst types) = map Some (map fst ts) @ [Some t]" "a' = increment c"
      by (auto simp: bind_eq_Some_conv)
    from o(1) have "ip c + 1 < length (fn_block f)" "op = fn_block f ! (ip c + 1)"
      by (auto simp: fetch_eq)
    with IH have "take (Suc k) (drop (ip b + 1) (fn_block f)) = take k (drop (ip b + 1) (fn_block f)) @ [op]"
      by (simp add: take_Suc_conv_app_nth)
    with IH o(2) r show ?case by simp
  qed simp
  from assms obtain m where "foldm (?body m) ([], increment a) [0..<arity] = Some (types, a')"
    by (auto simp: fetch_arg_types_def bind_eq_Some_conv Let_def)
  from *[OF this] show ?thesis by simp
qed


lemma fetch_argv_cases:
  assumes "fetch_argv g frame os a h f arity = Some r"
  obtains types a' q where "fetch_arg_types g f arity a = Some (types, a')"
    "fetch_args f types \<lparr>a_frame = frame, a_operands = os, a_ip = a', a_heap = h, a_argv = []\<rparr> = Some q"
    "r = (case q of Inl e \<Rightarrow> Inl e | Inr s \<Rightarrow> Inr (map fst types, s))"
  using assms by (auto simp: fetch_argv_def bind_eq_Some_conv)

text \<open>What the push instructions rely on.\<close>

lemma fetch_argv_Ok:
  assumes "fetch_argv g frame os a h f arity = Some (Inr (types, s))"
  shows "map value_type (a_argv s) = types \<and> length types = arity \<and> list_all scalar types \<and>
    map Some types = map from_op (take arity (drop (ip a + 2) (fn_block f)))"
  using assms
proof (cases rule: fetch_argv_cases)
  case (1 ts a' q)
  from 1(3) have "q = Inr s" "types = map fst ts" by (auto split: sum.split_asm)
  with fetch_args_result[OF 1(2)] fetch_arg_types_length(1)[OF 1(1)] fetch_arg_types_bytes[OF 1(1)]
  show ?thesis by auto
qed

lemma fetch_argv_Err:
  assumes "fetch_argv g frame os a h f arity = Some (Inl (e, s))"
  shows "e = Overflow"
  using assms
proof (cases rule: fetch_argv_cases)
  case (1 ts a' q)
  from 1(3) have "q = Inl (e, s)" by (cases q) auto
  with fetch_args_result[OF 1(2)] show ?thesis by auto
qed

definition argv_state :: "(VmError \<times> ArgState) + (VmType list \<times> ArgState) \<Rightarrow> ArgState" where
  "argv_state r = (case r of Inl es \<Rightarrow> snd es | Inr ts \<Rightarrow> snd ts)"

lemma fetch_argv_rel:
  assumes "fetch_argv g frame os a h f arity = Some r"
  shows "arg_rel \<lparr>a_frame = frame, a_operands = os, a_ip = a, a_heap = h, a_argv = []\<rparr> (argv_state r)"
  using assms
proof (cases rule: fetch_argv_cases)
  case (1 types a' q)
  have r: "argv_state r = outcome_state q"
    unfolding 1(3) by (cases q) (simp_all add: argv_state_def)
  have "arg_rel \<lparr>a_frame = frame, a_operands = os, a_ip = a, a_heap = h, a_argv = []\<rparr>
      \<lparr>a_frame = frame, a_operands = os, a_ip = a', a_heap = h, a_argv = []\<rparr>"
    using fetch_arg_types_length[OF 1(1)] by (auto simp: arg_rel_def arg_ok_def)
  with fetch_args_result[OF 1(2)] r show ?thesis by (auto intro: arg_rel_trans)
qed

end
