(* ===== verification/Text_Format.thy ===== *)
theory Text_Format
  imports Prelude
begin

text \<open>
  Text in the program: \<open>str::from_utf8\<close> and \<open>as_bytes\<close> of the standard library, and the regular
  expressions \<open>^[0-9]*$\<close> and \<open>^[0-9]{1,18}([.][0-9]{1,p})?$\<close> that guard the decimal numbers
  of \<open>Gas\<close> and \<open>Balance\<close>, as executable matchers together with the languages they stand for.
  A Rust string is a valid UTF-8 byte sequence; it is modelled by the list of its bytes, as
  characters.
\<close>

section \<open>UTF-8\<close>

definition cont :: "u8 \<Rightarrow> bool" where
  "cont b \<longleftrightarrow> 0x80 \<le> b \<and> b \<le> 0xBF"

fun utf8_valid :: "u8 list \<Rightarrow> bool" where
  "utf8_valid [] = True"
| "utf8_valid (a # bs) =
     (if a < 0x80 then utf8_valid bs
      else (case bs of
          [] \<Rightarrow> False
        | b # cs \<Rightarrow>
            if 0xC2 \<le> a \<and> a \<le> 0xDF then cont b \<and> utf8_valid cs
            else (case cs of
                [] \<Rightarrow> False
              | c # ds \<Rightarrow>
                  if a = 0xE0 then 0xA0 \<le> b \<and> b \<le> 0xBF \<and> cont c \<and> utf8_valid ds
                  else if a = 0xED then 0x80 \<le> b \<and> b \<le> 0x9F \<and> cont c \<and> utf8_valid ds
                  else if 0xE1 \<le> a \<and> a \<le> 0xEF then cont b \<and> cont c \<and> utf8_valid ds
                  else (case ds of
                      [] \<Rightarrow> False
                    | d # es \<Rightarrow>
                        (if a = 0xF0 then 0x90 \<le> b \<and> b \<le> 0xBF
                         else if a = 0xF4 then 0x80 \<le> b \<and> b \<le> 0x8F
                         else 0xF1 \<le> a \<and> a \<le> 0xF3 \<and> cont b) \<and>
                        cont c \<and> cont d \<and> utf8_valid es))))"

definition from_utf8 :: "u8 list \<Rightarrow> string option" where
  "from_utf8 bs = (if utf8_valid bs then Some (map (\<lambda>b. char_of (unat b)) bs) else None)"

definition as_bytes :: "string \<Rightarrow> u8 list" where
  "as_bytes s = map (\<lambda>c. word_of_nat (of_char c)) s"

lemma as_bytes_from_utf8: "from_utf8 bs = Some s \<Longrightarrow> as_bytes s = bs"
  using unsigned_less[where 'a = nat and 'b = 8]
  by (auto simp: from_utf8_def as_bytes_def comp_def split: if_splits)

lemma char_of_as_byte: "char_of (unat (word_of_nat (of_char c) :: u8)) = (c :: char)"
proof -
  have "(of_char c :: nat) < 256" by simp
  then have "unat (word_of_nat (of_char c) :: u8) = of_char c"
    by (simp add: unat_of_nat)
  then show ?thesis by simp
qed

lemma from_utf8_as_bytes: "utf8_valid (as_bytes s) \<Longrightarrow> from_utf8 (as_bytes s) = Some s"
  by (simp add: from_utf8_def as_bytes_def comp_def char_of_as_byte)

lemma utf8_ascii: "list_all (\<lambda>b. b < 0x80) bs \<Longrightarrow> utf8_valid bs"
  by (induction bs) simp_all

section \<open>Decimal numbers\<close>

definition is_digit :: "char \<Rightarrow> bool" where
  "is_digit c \<longleftrightarrow> c \<in> set ''0123456789''"

definition digits :: "nat \<Rightarrow> nat \<Rightarrow> string \<Rightarrow> bool" where
  "digits lo hi s \<longleftrightarrow> list_all is_digit s \<and> lo \<le> length s \<and> length s \<le> hi"

text \<open>\<open>^[0-9]*$\<close>\<close>

definition prec0_match :: "string \<Rightarrow> bool" where
  "prec0_match s = list_all is_digit s"

text \<open>\<open>^[0-9]{1,18}([.][0-9]{1,p})?$\<close>\<close>

definition prec_match :: "nat \<Rightarrow> string \<Rightarrow> bool" where
  "prec_match p s =
     (let whole = takeWhile is_digit s; rest = dropWhile is_digit s in
      digits 1 18 whole \<and> (case rest of [] \<Rightarrow> True | c # frac \<Rightarrow> c = CHR ''.'' \<and> digits 1 p frac))"

lemma dot_not_digit [simp]: "\<not> is_digit (CHR ''.'')"
  by (simp add: is_digit_def)

lemma takeWhile_digits: "list_all is_digit w \<Longrightarrow> takeWhile is_digit w = w"
  by (simp add: takeWhile_eq_all_conv list_all_iff)

text \<open>The matcher accepts the language of the regular expression.\<close>

lemma prec_match_iff:
  "prec_match p s \<longleftrightarrow> (\<exists>whole. digits 1 18 whole \<and>
     (s = whole \<or> (\<exists>frac. digits 1 p frac \<and> s = whole @ ''.'' @ frac)))"
proof
  assume m: "prec_match p s"
  let ?w = "takeWhile is_digit s"
  have s: "s = ?w @ dropWhile is_digit s" by simp
  from m have w: "digits 1 18 ?w" by (simp add: prec_match_def Let_def)
  show "\<exists>whole. digits 1 18 whole \<and>
     (s = whole \<or> (\<exists>frac. digits 1 p frac \<and> s = whole @ ''.'' @ frac))"
  proof (cases "dropWhile is_digit s")
    case Nil
    with s have "s = ?w" by simp
    with w show ?thesis by metis
  next
    case (Cons c frac)
    with m have "c = CHR ''.''" "digits 1 p frac" by (simp_all add: prec_match_def Let_def)
    with Cons s have "s = ?w @ ''.'' @ frac" by simp
    with w \<open>digits 1 p frac\<close> show ?thesis by metis
  qed
next
  assume "\<exists>whole. digits 1 18 whole \<and>
     (s = whole \<or> (\<exists>frac. digits 1 p frac \<and> s = whole @ ''.'' @ frac))"
  then obtain w where w: "digits 1 18 w"
    and s: "s = w \<or> (\<exists>frac. digits 1 p frac \<and> s = w @ ''.'' @ frac)" by blast
  from w have "list_all is_digit w" by (simp add: digits_def)
  then have tw: "takeWhile is_digit (w @ CHR ''.'' # frac) = w" "takeWhile is_digit w = w"
      "dropWhile is_digit (w @ CHR ''.'' # frac) = CHR ''.'' # frac" "dropWhile is_digit w = []" for frac
    by (simp_all add: list_all_iff takeWhile_digits)
  from s show "prec_match p s"
  proof
    assume "s = w"
    with w show ?thesis by (simp add: prec_match_def tw)
  next
    assume "\<exists>frac. digits 1 p frac \<and> s = w @ ''.'' @ frac"
    with w show ?thesis by (auto simp: prec_match_def tw)
  qed
qed

lemma prec_match_mono:
  assumes "prec_match p s" "p \<le> q"
  shows "prec_match q s"
proof -
  from assms(2) have "digits 1 p frac \<Longrightarrow> digits 1 q frac" for frac by (simp add: digits_def)
  with assms(1) show ?thesis unfolding prec_match_iff by blast
qed

text \<open>Text made of digits and dots is ASCII, so it survives the trip through bytes.\<close>

lemma is_digit_ascii: "is_digit c \<Longrightarrow> (word_of_nat (of_char c) :: u8) < 0x80"
  by (auto simp: is_digit_def)

lemma prec0_utf8: "prec0_match s \<Longrightarrow> utf8_valid (as_bytes s)"
  by (rule utf8_ascii) (auto simp: prec0_match_def as_bytes_def list_all_iff is_digit_ascii)

lemma prec_utf8: "prec_match p s \<Longrightarrow> utf8_valid (as_bytes s)"
  by (rule utf8_ascii)
    (auto simp: prec_match_iff digits_def as_bytes_def list_all_iff is_digit_ascii)

end
