(* ===== verification/Gas.thy ===== *)
theory Gas
  imports Text_Format
begin

text \<open>
  \<open>purple_vm/src/gas.rs\<close>.  A gas amount wraps a \<open>rust_decimal::Decimal\<close>.  That crate is not part
  of the repository: its type is the type variable \<open>'d\<close>, and \<open>Decimal::from_str\<close> (\<open>parse\<close>,
  \<open>None\<close> is \<open>Err\<close>), its \<open>Display\<close> (\<open>print\<close>) and its operators (which may panic) are
  arguments of the definitions.
\<close>

datatype 'd Gas = Gas (to_inner: 'd)

datatype GasError = Invalid_gas | Invalid_utf8

definition gas_to_bytes :: "('d \<Rightarrow> string) \<Rightarrow> 'd Gas \<Rightarrow> u8 list" where
  "gas_to_bytes print g = as_bytes (print (to_inner g))"

definition gas_from_bytes :: "(string \<Rightarrow> 'd option) \<Rightarrow> u8 list \<Rightarrow> (GasError + 'd Gas) option" where
  "gas_from_bytes parse bin = (case from_utf8 bin of
       Some result \<Rightarrow>
         if prec_match 18 result then do { d \<leftarrow> parse result; Some (Inr (Gas d)) }
         else Some (Inl Invalid_gas)
     | None \<Rightarrow> Some (Inl Invalid_utf8))"

definition gas_add :: "('d \<Rightarrow> 'd \<Rightarrow> 'd option) \<Rightarrow> 'd Gas \<Rightarrow> 'd Gas \<Rightarrow> 'd Gas option" where
  "gas_add dadd a b = map_option Gas (dadd (to_inner a) (to_inner b))"

definition gas_sub :: "('d \<Rightarrow> 'd \<Rightarrow> 'd option) \<Rightarrow> 'd Gas \<Rightarrow> 'd Gas \<Rightarrow> 'd Gas option" where
  "gas_sub dsub a b = map_option Gas (dsub (to_inner a) (to_inner b))"

text \<open>
  The round trip needs what the crate documents: a printed decimal parses to itself.  It holds
  exactly for the amounts that print with at most 18 digits on each side and no sign.
\<close>

lemma gas_roundtrip:
  assumes "parse (print d) = Some d"
  shows "gas_from_bytes parse (gas_to_bytes print (Gas d)) = Some (Inr (Gas d)) \<longleftrightarrow>
    prec_match 18 (print d)"
proof
  assume "prec_match 18 (print d)"
  with assms prec_utf8[OF this] show "gas_from_bytes parse (gas_to_bytes print (Gas d)) = Some (Inr (Gas d))"
    by (simp add: gas_from_bytes_def gas_to_bytes_def from_utf8_as_bytes)
next
  assume h: "gas_from_bytes parse (gas_to_bytes print (Gas d)) = Some (Inr (Gas d))"
  then obtain s where s: "from_utf8 (as_bytes (print d)) = Some s" "prec_match 18 s"
    by (auto simp: gas_from_bytes_def gas_to_bytes_def split: option.split_asm if_splits)
  then have "utf8_valid (as_bytes (print d))" by (simp add: from_utf8_def split: if_splits)
  with s show "prec_match 18 (print d)" by (simp add: from_utf8_as_bytes)
qed

lemma gas_zero: "gas_from_bytes parse (as_bytes ''0.0'') = do { d \<leftarrow> parse ''0.0''; Some (Inr (Gas d)) }"
proof -
  have m: "prec_match 18 ''0.0''" by (simp add: prec_match_def is_digit_def digits_def)
  from prec_utf8[OF m] m show ?thesis by (simp add: gas_from_bytes_def from_utf8_as_bytes)
qed

lemma gas_from_bytes_accepts:
  assumes "gas_from_bytes parse bin = Some (Inr (Gas d))"
  obtains whole frac where "digits 1 18 whole" "digits 0 18 frac"
    "bin = as_bytes whole \<or> bin = as_bytes (whole @ ''.'' @ frac)"
proof -
  from assms obtain s where s: "from_utf8 bin = Some s" "prec_match 18 s"
    by (auto simp: gas_from_bytes_def bind_eq_Some_conv split: option.split_asm if_splits)
  from as_bytes_from_utf8[OF s(1)] s(2) that show thesis
    unfolding prec_match_iff by (metis digits_def le0)
qed

end
