(* ===== verification/Virtual_Machine.thy ===== *)
theory Virtual_Machine
  imports Vm_Args Gas
begin

text \<open>
  The virtual machine, \<open>purple_vm/src/virtual_machine.rs\<close> and \<open>module.rs\<close>.  One iteration of the
  \<open>loop\<close> of \<open>execute\<close> is \<open>vm_step\<close>, with a definition for every arm of its \<open>match\<close>; \<open>vm_run\<close>
  iterates it with fuel, since the loop of the source need not end.  Code outside the
  repository is collected in \<open>vm_ext\<close>: \<open>Bits::get\<close> of \<open>bitvec\<close>, the additions of the two float
  types, and \<open>Decimal::from_str\<close>; and with it the compiler's choice whether an integer addition
  checks for overflow (\<open>x_overflow_checks\<close>).  The parameters \<open>trie\<close> and \<open>gas\<close> of \<open>execute\<close> are not used
  by its body.  The debugging \<open>println!\<close>s are left out.
\<close>

section \<open>State\<close>

text \<open>An import of a module (\<open>code/import.rs\<close>); \<open>crypto::Hash\<close> is a byte array.\<close>

record Import =
  addr_idx :: u16
  function_name :: string

record Module =
  module_hash :: "u8 list"
  m_functions :: "Function list"
  m_imports :: "Import list"

definition module_eq :: "Module \<Rightarrow> Module \<Rightarrow> bool" where
  "module_eq m n = (module_hash m = module_hash n)"

record Vm =
  vm_ip :: "Address option"
  vm_modules :: "Module list"
  vm_call_stack :: "VmValue Frame list"
  vm_operand_stack :: "VmValue list"
  vm_heap :: heap

record 'd vm_ext =
  x_bits :: bits_get
  x_overflow_checks :: bool
  x_fadd32 :: "f32 \<Rightarrow> f32 \<Rightarrow> f32"
  x_fadd64 :: "f64 \<Rightarrow> f64 \<Rightarrow> f64"
  x_parse :: "string \<Rightarrow> 'd option"

definition MAX_OP_ARITY :: u8 where
  "MAX_OP_ARITY = 8"

definition vm_new :: Vm where
  "vm_new = \<lparr>vm_ip = None, vm_modules = [], vm_call_stack = stack_new,
     vm_operand_stack = stack_new, vm_heap = replicate 256 (replicate 256 None)\<rparr>"

definition load :: "Vm \<Rightarrow> Module \<Rightarrow> (VmError + unit) \<times> Vm" where
  "load vm m =
     (if list_ex (\<lambda>n. module_eq n m) (vm_modules vm) then (Inl AlreadyLoaded, vm)
      else (Inr (), vm\<lparr>vm_modules := vm_modules vm @ [m]\<rparr>))"

definition unload :: "Vm \<Rightarrow> nat \<Rightarrow> Vm" where
  "unload vm idx =
     (if idx < length (vm_modules vm)
      then vm\<lparr>vm_modules := take idx (vm_modules vm) @ drop (Suc idx) (vm_modules vm)\<rparr> else vm)"

section \<open>Comparison and addition\<close>

text \<open>\<open>for _ in 0..s.len() { buf.push(s.pop()) }\<close>: the elements, top first.\<close>

definition pop_all :: "'a list \<Rightarrow> ('a list) option" where
  "pop_all s = do {
     (_, buf) \<leftarrow> repeatm (stack_len s)
        (\<lambda>(xs, buf). do { (x, ys) \<leftarrow> stack_pop xs; Some (ys, buf @ [x]) }) (s, []);
     Some buf
   }"

definition perform_comparison :: "Instruction \<Rightarrow> VmValue list \<Rightarrow> bool option" where
  "perform_comparison op operands = (case op of
       Comp Eqz \<Rightarrow> None
     | Comp Eq \<Rightarrow>
         if length operands < 2 then None
         else do {
           (result, _) \<leftarrow> foldm (\<lambda>(result, last) v.
              (case last of
                 Some l \<Rightarrow> if result then do { r \<leftarrow> value_eq v l; Some (r, Some v) }
                           else Some (result, Some v)
               | None \<Rightarrow> Some (result, Some v))) (True, None) operands;
           Some result
         }
     | _ \<Rightarrow> None)"

definition perform_addition ::
  "'d vm_ext \<Rightarrow> Instruction \<Rightarrow> VmValue list \<Rightarrow> VmValue list option" where
  "perform_addition ext op operand_stack =
     (if stack_len operand_stack < 2 then None
      else (case op of
          Common Add \<Rightarrow> do {
            buf \<leftarrow> pop_all operand_stack;
            result \<leftarrow> foldm (\<lambda>acc x. (case acc of
                 Some a \<Rightarrow> do {
                   r \<leftarrow> value_add (x_overflow_checks ext) (x_fadd32 ext) (x_fadd64 ext) a x;
                   Some (Some r) }
               | None \<Rightarrow> Some (Some x))) None buf;
            r \<leftarrow> result;
            Some (stack_push r stack_new)
          }
        | _ \<Rightarrow> None))"

section \<open>Opening a block\<close>

text \<open>The last two arms of the \<open>match\<close>: a nested block, without or with arguments.\<close>

definition nested_block ::
  "CfOperator \<Rightarrow> Address \<Rightarrow> u8 \<Rightarrow> VmValue Frame list \<Rightarrow> VmValue Frame list option" where
  "nested_block block_type initial_ip arity cs =
     (if arity = 0 then Some (stack_push (frame_new (Some block_type) (Some initial_ip) None) cs)
      else do {
        (buf, cs') \<leftarrow> stack_modify (pop_args (unat arity)) cs;
        Some (stack_push (frame_new (Some block_type) (Some initial_ip) (Some buf)) cs')
      })"

text \<open>\<open>handle_begin_block(CfOperator::Else, ..)\<close>, which leaves the pointer on the arity byte.\<close>

definition handle_else_block ::
  "Address \<Rightarrow> VmValue Frame list \<Rightarrow> Function \<Rightarrow> (Address \<times> VmValue Frame list) option" where
  "handle_else_block a cs f = do {
     let initial_ip = a;
     let a = increment a;
     arity \<leftarrow> fetch f (ip a);
     cs' \<leftarrow> nested_block Else initial_ip arity cs;
     Some (a, cs')
   }"

text \<open>The arms for a nested \<open>If\<close>; \<open>a\<close> points to the arity.\<close>

definition handle_if_block ::
  "'d vm_ext \<Rightarrow> Address \<Rightarrow> Address \<Rightarrow> u8 \<Rightarrow> VmValue Frame list \<Rightarrow> VmValue list \<Rightarrow> Function \<Rightarrow>
     (Address \<times> VmValue Frame list) option" where
  "handle_if_block ext initial_ip a arity cs operand_stack f = do {
     let a = increment a;
     op \<leftarrow> fetch f (ip a);
     instruction \<leftarrow> from_repr op;
     if instruction \<in> set COMP_OPS then do {
       operands \<leftarrow> pop_all operand_stack;
       holds \<leftarrow> perform_comparison instruction operands;
       if holds then do {
         cs' \<leftarrow> nested_block If initial_ip arity cs;
         Some (a, cs')
       } else do {
         block_len \<leftarrow> fetch_block_len (x_bits ext) f (ip initial_ip);
         op \<leftarrow> fetch f (ip initial_ip + block_len);
         if from_repr op = Some Instruction.Else
         then handle_else_block (set_ip (ip initial_ip + block_len) a) cs f
         else Some (a, cs)
       }
     } else None
   }"

definition handle_begin_block ::
  "'d vm_ext \<Rightarrow> CfOperator \<Rightarrow> Address \<Rightarrow> VmValue Frame list \<Rightarrow> VmValue list \<Rightarrow> Function \<Rightarrow>
     VmValue list \<Rightarrow> (Address \<times> VmValue Frame list) option" where
  "handle_begin_block ext block_type a cs operand_stack f init_argv = do {
     let initial_ip = a;
     let a = increment a;
     arity \<leftarrow> fetch f (ip a);
     (a, cs) \<leftarrow>
       (if stack_len cs = 0 \<and> block_type \<noteq> Else then
          (if block_type = Begin \<and> arity = 0
           then Some (a, stack_push (frame_new (Some Begin) None (Some init_argv)) cs)
           else None)
        else if block_type = If then handle_if_block ext initial_ip a arity cs operand_stack f
        else do { cs' \<leftarrow> nested_block block_type initial_ip arity cs; Some (a, cs') });
     Some (if block_type = Else then a else increment a, cs)
   }"

section \<open>The instructions\<close>

text \<open>What one iteration of the loop leads to: the next one, \<open>break\<close>, or \<open>return Err\<close>.\<close>

datatype StepResult = Running Vm | Halted Vm | Failed VmError Vm

definition at :: "Address \<Rightarrow> Vm \<Rightarrow> Vm" where
  "at a vm = vm\<lparr>vm_ip := Some a\<rparr>"

text \<open>Pop frames until one satisfies the condition.\<close>

function unwind :: "('f \<Rightarrow> bool) \<Rightarrow> 'f list \<Rightarrow> ('f \<times> 'f list) option" where
  "unwind P cs = (case stack_pop cs of
       None \<Rightarrow> None
     | Some (frame, cs') \<Rightarrow> if P frame then Some (frame, cs') else unwind P cs')"
  by auto
termination
  by (relation "measure (\<lambda>(P, cs). length cs)") (auto simp: stack_pop_iff)

definition exec_call :: "Module \<Rightarrow> Function \<Rightarrow> Address \<Rightarrow> Vm \<Rightarrow> StepResult option" where
  "exec_call m f a vm = do {
     (a, buf) \<leftarrow> repeatm 2 (\<lambda>(a, buf). do {
        let a = increment a;
        byte \<leftarrow> fetch f (ip a);
        Some (a, buf @ [byte]) }) (a, []);
     let a = increment a;
     let return_ip = a;
     idx16 \<leftarrow> decode_be_u16 buf;
     let idx = unat idx16;
     callee \<leftarrow> index (m_functions m) idx;
     (argv, cs) \<leftarrow> (if fn_arity callee = 0 then Some ([], vm_call_stack vm)
        else stack_modify (pop_args (unat (fn_arity callee))) (vm_call_stack vm));
     Some (Running (at (a\<lparr>ip := 2, fun_idx := idx\<rparr>)
       (vm\<lparr>vm_call_stack := stack_push (frame_new None (Some return_ip) (Some argv)) cs\<rparr>)))
   }"

text \<open>The return values go to the frame below; without a return address the pointer stays.\<close>

definition return_to ::
  "Address \<Rightarrow> Address option \<Rightarrow> VmValue list \<Rightarrow> VmValue Frame list \<Rightarrow> Vm \<Rightarrow> StepResult option" where
  "return_to a ret return_values cs vm = do {
     (_, cs') \<leftarrow> stack_modify (\<lambda>frame.
        Some ((), frame\<lparr>locals := fold stack_push return_values (locals frame)\<rparr>)) cs;
     Some (Running (at (case ret of Some r \<Rightarrow> r | None \<Rightarrow> a)
       (vm\<lparr>vm_call_stack := cs', vm_operand_stack := stack_new\<rparr>)))
   }"

definition exec_return :: "Function \<Rightarrow> Address \<Rightarrow> Vm \<Rightarrow> StepResult option" where
  "exec_return f a vm = do {
     let a = increment a;
     return_arity \<leftarrow> fetch f (ip a);
     (frame, cs) \<leftarrow> stack_pop (vm_call_stack vm);
     (return_values, _) \<leftarrow> pop_args (unat return_arity) frame;
     if scope_type frame = None
     then return_to a (return_address frame) return_values cs vm
     else do {
       (frame', cs') \<leftarrow> unwind (\<lambda>fr. scope_type fr = None) cs;
       return_to a (return_address frame') return_values cs' vm
     }
   }"

definition exec_begin ::
  "'d vm_ext \<Rightarrow> CfOperator \<Rightarrow> VmValue list \<Rightarrow> Function \<Rightarrow> Address \<Rightarrow> Vm \<Rightarrow> StepResult option" where
  "exec_begin ext block_type argv f a vm = do {
     (a, cs) \<leftarrow> handle_begin_block ext block_type a (vm_call_stack vm) (vm_operand_stack vm) f argv;
     Some (Running (at a (vm\<lparr>vm_call_stack := cs\<rparr>)))
   }"

text \<open>What \<open>fetch_argv\<close> wrote through its references.\<close>

definition write_back :: "ArgState \<Rightarrow> Vm \<Rightarrow> Vm" where
  "write_back s vm = vm\<lparr>vm_ip := Some (a_ip s),
     vm_call_stack := (vm_call_stack vm)[length (vm_call_stack vm) - 1 := a_frame s],
     vm_operand_stack := a_operands s, vm_heap := a_heap s\<rparr>"

definition fetch_push_args ::
  "'d vm_ext \<Rightarrow> Function \<Rightarrow> Address \<Rightarrow> Vm \<Rightarrow> ((VmError \<times> ArgState) + (VmType list \<times> ArgState)) option" where
  "fetch_push_args ext f a vm = do {
     let a = increment a;
     arity \<leftarrow> fetch f (ip a);
     if MAX_OP_ARITY < arity then None
     else if arity = 0 then None
     else do {
       frame \<leftarrow> stack_peek (vm_call_stack vm);
       fetch_argv (x_bits ext) frame (vm_operand_stack vm) a (vm_heap vm) f (unat arity)
     }
   }"

definition exec_push_operand :: "'d vm_ext \<Rightarrow> Function \<Rightarrow> Address \<Rightarrow> Vm \<Rightarrow> StepResult option" where
  "exec_push_operand ext f a vm = do {
     r \<leftarrow> fetch_push_args ext f a vm;
     (case r of
        Inr (_, s) \<Rightarrow>
          (let vm = write_back s vm in
           Some (Running (at (increment (a_ip s))
             (vm\<lparr>vm_operand_stack := fold stack_push (a_argv s) (vm_operand_stack vm)\<rparr>))))
      | Inl (err, s) \<Rightarrow> Some (Failed err (write_back s vm)))
   }"

definition exec_push_local :: "'d vm_ext \<Rightarrow> Function \<Rightarrow> Address \<Rightarrow> Vm \<Rightarrow> StepResult option" where
  "exec_push_local ext f a vm = do {
     r \<leftarrow> fetch_push_args ext f a vm;
     (case r of
        Inr (_, s) \<Rightarrow> do {
          let vm = write_back s vm;
          (_, cs) \<leftarrow> stack_modify (\<lambda>frame.
             Some ((), frame\<lparr>locals := fold stack_push (a_argv s) (locals frame)\<rparr>)) (vm_call_stack vm);
          Some (Running (at (increment (a_ip s)) (vm\<lparr>vm_call_stack := cs\<rparr>)))
        }
      | Inl (err, s) \<Rightarrow> Some (Failed err (write_back s vm)))
   }"

definition exec_pop_operand :: "Address \<Rightarrow> Vm \<Rightarrow> StepResult option" where
  "exec_pop_operand a vm = do {
     (_, os) \<leftarrow> stack_pop (vm_operand_stack vm);
     Some (Running (at (increment a) (vm\<lparr>vm_operand_stack := os\<rparr>)))
   }"

definition exec_pop_local :: "Address \<Rightarrow> Vm \<Rightarrow> StepResult option" where
  "exec_pop_local a vm = do {
     (_, cs) \<leftarrow> stack_modify (\<lambda>frame. do {
        (_, ls) \<leftarrow> stack_pop (locals frame);
        Some ((), frame\<lparr>locals := ls\<rparr>) }) (vm_call_stack vm);
     Some (Running (at (increment a) (vm\<lparr>vm_call_stack := cs\<rparr>)))
   }"

definition exec_pick_local :: "Function \<Rightarrow> Address \<Rightarrow> Vm \<Rightarrow> StepResult option" where
  "exec_pick_local f a vm = do {
     (bytes, a) \<leftarrow> fetch_bytes 2 (increment a) f;
     idx \<leftarrow> (read_be 2 bytes :: u16 option);
     (_, cs) \<leftarrow> stack_modify (\<lambda>frame. do {
        ls \<leftarrow> stack_pick (unat idx) (locals frame);
        Some ((), frame\<lparr>locals := ls\<rparr>) }) (vm_call_stack vm);
     Some (Running (at (increment a) (vm\<lparr>vm_call_stack := cs\<rparr>)))
   }"

definition exec_pick_operand :: "Function \<Rightarrow> Address \<Rightarrow> Vm \<Rightarrow> StepResult option" where
  "exec_pick_operand f a vm = do {
     (bytes, a) \<leftarrow> fetch_bytes 2 (increment a) f;
     idx \<leftarrow> (read_be 2 bytes :: u16 option);
     os \<leftarrow> stack_pick (unat idx) (vm_operand_stack vm);
     Some (Running (at (increment a) (vm\<lparr>vm_operand_stack := os\<rparr>)))
   }"

definition exec_end :: "'d vm_ext \<Rightarrow> Function \<Rightarrow> Address \<Rightarrow> Vm \<Rightarrow> StepResult option" where
  "exec_end ext f a vm = do {
     (frame, cs) \<leftarrow> stack_pop (vm_call_stack vm);
     let vm = vm\<lparr>vm_call_stack := cs, vm_operand_stack := stack_new\<rparr>;
     (case return_address frame of
        Some r \<Rightarrow> do {
          block_len \<leftarrow> fetch_block_len (x_bits ext) f (ip r);
          Some (Running
            (if scope_type frame = Some Loop
             then at (set_ip (ip r + 2) r) (vm\<lparr>vm_call_stack := stack_push frame cs\<rparr>)
             else at (set_ip (ip r + block_len) r) vm))
        }
      | None \<Rightarrow> Some (Halted vm))
   }"

text \<open>The loop that both \<open>Break\<close> and a successful \<open>BreakIf\<close> run.\<close>

definition break_loop :: "'d vm_ext \<Rightarrow> Function \<Rightarrow> Vm \<Rightarrow> StepResult option" where
  "break_loop ext f vm = do {
     (frame, cs) \<leftarrow> unwind (\<lambda>fr. scope_type fr = Some Loop) (vm_call_stack vm);
     r \<leftarrow> return_address frame;
     block_len \<leftarrow> fetch_block_len (x_bits ext) f (ip r);
     Some (Running (at (set_ip (ip r + block_len) r)
       (vm\<lparr>vm_call_stack := cs, vm_operand_stack := stack_new\<rparr>)))
   }"

definition exec_break_if :: "'d vm_ext \<Rightarrow> Function \<Rightarrow> Address \<Rightarrow> Vm \<Rightarrow> StepResult option" where
  "exec_break_if ext f a vm = do {
     let a = increment a;
     op \<leftarrow> fetch f (ip a);
     instruction \<leftarrow> from_repr op;
     if instruction \<in> set COMP_OPS then do {
       operands \<leftarrow> pop_all (vm_operand_stack vm);
       result \<leftarrow> perform_comparison instruction operands;
       if result then break_loop ext f vm
       else Some (Running (at (increment a) vm))
     } else None
   }"

definition exec_add :: "'d vm_ext \<Rightarrow> Address \<Rightarrow> Vm \<Rightarrow> StepResult option" where
  "exec_add ext a vm = do {
     os \<leftarrow> perform_addition ext (Common Add) (vm_operand_stack vm);
     Some (Running (at (increment a) (vm\<lparr>vm_operand_stack := os\<rparr>)))
   }"

text \<open>
  The stores: pop a value, check it (\<open>check\<close> is \<open>None\<close> for a panic, \<open>False\<close> for an overflow),
  read the coordinates and write the cell.
\<close>

definition exec_store ::
  "(VmValue \<Rightarrow> bool option) \<Rightarrow> Function \<Rightarrow> Address \<Rightarrow> Vm \<Rightarrow> StepResult option" where
  "exec_store check f a vm =
     (if stack_is_empty (vm_operand_stack vm) then None
      else do {
        (elem, os) \<leftarrow> stack_pop (vm_operand_stack vm);
        let vm = vm\<lparr>vm_operand_stack := os\<rparr>;
        ok \<leftarrow> check elem;
        if \<not> ok then Some (Failed Overflow vm)
        else do {
          (x, y, a) \<leftarrow> fetch_coords f a;
          h \<leftarrow> heap_set (vm_heap vm) x y (Some elem);
          Some (Running (at (increment a) (vm\<lparr>vm_heap := h\<rparr>)))
        }
      })"

definition i32_within :: "int \<Rightarrow> int \<Rightarrow> VmValue \<Rightarrow> bool option" where
  "i32_within lo hi v = (case v of
     VmValue.I32 inner \<Rightarrow> Some (\<not> (hi < sint inner \<or> sint inner < lo)) | _ \<Rightarrow> None)"

definition i64_within :: "int \<Rightarrow> int \<Rightarrow> VmValue \<Rightarrow> bool option" where
  "i64_within lo hi v = (case v of
     VmValue.I64 inner \<Rightarrow> Some (\<not> (hi < sint inner \<or> sint inner < lo)) | _ \<Rightarrow> None)"

definition exec_store_any :: "Function \<Rightarrow> Address \<Rightarrow> Vm \<Rightarrow> StepResult option" where
  "exec_store_any = exec_store (\<lambda>_. Some True)"

definition exec_store8 :: "Function \<Rightarrow> Address \<Rightarrow> Vm \<Rightarrow> StepResult option" where
  "exec_store8 = exec_store (i32_within (-128) 255)"

definition exec_store16 :: "Function \<Rightarrow> Address \<Rightarrow> Vm \<Rightarrow> StepResult option" where
  "exec_store16 = exec_store (i32_within (-32768) 65535)"

definition exec_store32 :: "Function \<Rightarrow> Address \<Rightarrow> Vm \<Rightarrow> StepResult option" where
  "exec_store32 = exec_store (i64_within (-2147483648) 4294967295)"

text \<open>
  The loads move a value from its cell to the operand stack.  The narrow ones do so when the
  value is \<^emph>\<open>out\<close> of the range they are named after, and fail when it is within.
\<close>

definition exec_load ::
  "(VmValue \<Rightarrow> bool option) \<Rightarrow> Function \<Rightarrow> Address \<Rightarrow> Vm \<Rightarrow> StepResult option" where
  "exec_load check f a vm = do {
     (x, y, a) \<leftarrow> fetch_coords f a;
     cell \<leftarrow> heap_get (vm_heap vm) x y;
     elem \<leftarrow> cell;
     ok \<leftarrow> check elem;
     if ok then do {
       h \<leftarrow> heap_set (vm_heap vm) x y None;
       Some (Running (at (increment a)
         (vm\<lparr>vm_heap := h, vm_operand_stack := stack_push elem (vm_operand_stack vm)\<rparr>)))
     } else Some (Failed Overflow (at a vm))
   }"

definition i32_outside :: "int \<Rightarrow> int \<Rightarrow> VmValue \<Rightarrow> bool option" where
  "i32_outside lo hi v = (case v of
     VmValue.I32 inner \<Rightarrow> Some (hi < sint inner \<or> sint inner < lo) | _ \<Rightarrow> None)"

definition i64_outside :: "int \<Rightarrow> int \<Rightarrow> VmValue \<Rightarrow> bool option" where
  "i64_outside lo hi v = (case v of
     VmValue.I64 inner \<Rightarrow> Some (hi < sint inner \<or> sint inner < lo) | _ \<Rightarrow> None)"

primrec load_check :: "LoadOp \<Rightarrow> VmValue \<Rightarrow> bool option" where
  "load_check i32Load = (\<lambda>_. Some True)"
| "load_check i64Load = (\<lambda>_. Some True)"
| "load_check f32Load = (\<lambda>_. Some True)"
| "load_check f64Load = (\<lambda>_. Some True)"
| "load_check i32Load8Signed = i32_outside (-128) 127"
| "load_check i32Load8Unsigned = i32_outside 0 255"
| "load_check i32Load16Signed = i32_outside (-32768) 32767"
| "load_check i32Load16Unsigned = i32_outside 0 65535"
| "load_check i64Load8Signed = i64_outside (-128) 127"
| "load_check i64Load8Unsigned = i64_outside 0 255"
| "load_check i64Load16Signed = i64_outside (-32768) 32767"
| "load_check i64Load16Unsigned = i64_outside 0 65535"
| "load_check i64Load32Signed = i64_outside (-2147483648) 2147483647"
| "load_check i64Load32Unsigned = i64_outside 0 4294967295"

definition exec_store_op :: "StoreOp \<Rightarrow> Function \<Rightarrow> Address \<Rightarrow> Vm \<Rightarrow> StepResult option" where
  "exec_store_op op = (case op of
       i32Store8 \<Rightarrow> exec_store8 | i64Store8 \<Rightarrow> exec_store8
     | i32Store16 \<Rightarrow> exec_store16 | i64Store16 \<Rightarrow> exec_store16
     | i64Store32 \<Rightarrow> exec_store32
     | _ \<Rightarrow> exec_store_any)"

section \<open>Execution\<close>

text \<open>One iteration of the loop of \<open>execute\<close>.\<close>

definition vm_step :: "'d vm_ext \<Rightarrow> VmValue list \<Rightarrow> Vm \<Rightarrow> StepResult option" where
  "vm_step ext argv vm = do {
     a \<leftarrow> vm_ip vm;
     m \<leftarrow> index (vm_modules vm) (module_idx a);
     f \<leftarrow> index (m_functions m) (fun_idx a);
     op \<leftarrow> fetch f (ip a);
     (case from_repr op of
        Some Halt \<Rightarrow> Some (Halted vm)
      | Some Nop \<Rightarrow> Some (Running (at (increment a) vm))
      | Some Call \<Rightarrow> exec_call m f a vm
      | Some Return \<Rightarrow> exec_return f a vm
      | Some Instruction.Begin \<Rightarrow> exec_begin ext Begin argv f a vm
      | Some Instruction.Loop \<Rightarrow> exec_begin ext Loop argv f a vm
      | Some Instruction.If \<Rightarrow> exec_begin ext If argv f a vm
      | Some PushOperand \<Rightarrow> exec_push_operand ext f a vm
      | Some PushLocal \<Rightarrow> exec_push_local ext f a vm
      | Some PopOperand \<Rightarrow> exec_pop_operand a vm
      | Some PopLocal \<Rightarrow> exec_pop_local a vm
      | Some PickLocal \<Rightarrow> exec_pick_local f a vm
      | Some PickOperand \<Rightarrow> exec_pick_operand f a vm
      | Some End \<Rightarrow> exec_end ext f a vm
      | Some Break \<Rightarrow> break_loop ext f vm
      | Some BreakIf \<Rightarrow> exec_break_if ext f a vm
      | Some (Common Add) \<Rightarrow> exec_add ext a vm
      | Some (Store op) \<Rightarrow> exec_store_op op f a vm
      | Some (Load op) \<Rightarrow> exec_load (load_check op) f a vm
      | _ \<Rightarrow> None)
   }"

fun vm_run :: "'d vm_ext \<Rightarrow> VmValue list \<Rightarrow> nat \<Rightarrow> Vm \<Rightarrow> StepResult option" where
  "vm_run ext argv 0 vm = Some (Running vm)"
| "vm_run ext argv (Suc fuel) vm = do {
     r \<leftarrow> vm_step ext argv vm;
     (case r of Running vm' \<Rightarrow> vm_run ext argv fuel vm' | _ \<Rightarrow> Some r)
   }"

text \<open>\<open>Timeout\<close> is a run that has used its fuel.\<close>

datatype 'd ExecResult = Ok "'d Gas" Vm | Err VmError Vm | Timeout Vm

definition reset :: "Vm \<Rightarrow> Vm" where
  "reset vm = vm\<lparr>vm_ip := None, vm_call_stack := stack_new, vm_operand_stack := stack_new\<rparr>"

definition execute ::
  "'d vm_ext \<Rightarrow> nat \<Rightarrow> Vm \<Rightarrow> nat \<Rightarrow> nat \<Rightarrow> VmValue list \<Rightarrow> 'd ExecResult option" where
  "execute ext fuel vm midx fidx argv =
     (if length (vm_modules vm) \<le> midx then Some (Err NotLoaded vm)
      else if length (m_functions (vm_modules vm ! midx)) \<le> fidx then Some (Err NotDefined vm)
      else do {
        r \<leftarrow> vm_run ext argv fuel (at (address_new 0 fidx midx) vm);
        (case r of
           Running vm' \<Rightarrow> Some (Timeout vm')
         | Failed err vm' \<Rightarrow> Some (Err err vm')
         | Halted vm' \<Rightarrow> do {
             g \<leftarrow> gas_from_bytes (x_parse ext) (as_bytes ''0.0'');
             (case g of Inr gas \<Rightarrow> Some (Ok gas (reset vm')) | Inl _ \<Rightarrow> None)
           })
      })"

end
