(* ===== verification/Vm_Props.thy ===== *)
theory Vm_Props
  imports Virtual_Machine
begin

text \<open>
  Properties of the virtual machine: loading and unloading, the invariant of its state, what the
  single instructions compute, and what a run can end with.
\<close>

section \<open>Modules\<close>

definition modules_ok :: "Vm \<Rightarrow> bool" where
  "modules_ok vm \<longleftrightarrow> distinct (map module_hash (vm_modules vm))"

lemma load_iff:
  "load vm m = (if module_hash m \<in> set (map module_hash (vm_modules vm))
     then (Inl AlreadyLoaded, vm) else (Inr (), vm\<lparr>vm_modules := vm_modules vm @ [m]\<rparr>))"
  by (auto simp: load_def module_eq_def list_ex_iff intro: rev_image_eqI)

lemma load_modules_ok: "modules_ok vm \<Longrightarrow> modules_ok (snd (load vm m))"
  by (auto simp: load_iff modules_ok_def)

lemma unload_modules_ok: "modules_ok vm \<Longrightarrow> modules_ok (unload vm idx)"
  by (auto simp: unload_def modules_ok_def take_map[symmetric] drop_map[symmetric]
      dest: in_set_takeD in_set_dropD intro: set_take_disj_set_drop_if_distinct
      simp: set_take_disj_set_drop_if_distinct)

lemma unload_load:
  "load vm m = (Inr (), vm') \<Longrightarrow> unload vm' (length (vm_modules vm)) = vm"
  by (auto simp: load_def unload_def split: if_splits)

section \<open>The invariant of the state\<close>

definition vm_ok :: "Vm \<Rightarrow> bool" where
  "vm_ok vm \<longleftrightarrow> heap_ok (vm_heap vm) \<and> list_all wf_value (vm_operand_stack vm) \<and>
     list_all (\<lambda>frame. list_all wf_value (locals frame)) (vm_call_stack vm)"

primrec result_vm :: "StepResult \<Rightarrow> Vm" where
  "result_vm (Running vm) = vm"
| "result_vm (Halted vm) = vm"
| "result_vm (Failed e vm) = vm"

definition step_ok :: "Vm \<Rightarrow> StepResult \<Rightarrow> bool" where
  "step_ok vm r \<longleftrightarrow> vm_modules (result_vm r) = vm_modules vm \<and>
     (vm_ok vm \<longrightarrow> vm_ok (result_vm r)) \<and> (\<forall>e w. r = Failed e w \<longrightarrow> e = Overflow)"

lemma vm_new_ok: "vm_ok vm_new" "modules_ok vm_new"
  by (auto simp: vm_ok_def vm_new_def heap_ok_def stack_new_def modules_ok_def)

lemma vm_new_simps [simp]:
  "vm_ip vm_new = None" "vm_modules vm_new = []" "vm_call_stack vm_new = []"
  "vm_operand_stack vm_new = []"
  by (simp_all add: vm_new_def stack_new_def)

lemma at_simps [simp]:
  "vm_modules (at a vm) = vm_modules vm" "vm_ip (at a vm) = Some a"
  "vm_call_stack (at a vm) = vm_call_stack vm" "vm_operand_stack (at a vm) = vm_operand_stack vm"
  "vm_heap (at a vm) = vm_heap vm" "vm_ok (at a vm) = vm_ok vm"
  by (simp_all add: at_def vm_ok_def)

lemma pop_all_eq [simp]: "pop_all s = Some (rev s)"
  using repeatm_pop[of "length s" s "[]"] by (simp add: pop_all_def stack_len_def stack_pop_def)

lemma nested_block_ok:
  assumes "nested_block bt a ar cs = Some cs'"
    "list_all (\<lambda>frame. list_all wf_value (locals frame)) cs"
  shows "list_all (\<lambda>frame. list_all wf_value (locals frame)) cs'"
  using assms
  by (auto simp: nested_block_def bind_eq_Some_conv stack_push_def stack_modify_iff
      dest!: pop_args_append(1) split: if_splits)

lemma handle_begin_block_ok:
  assumes "handle_begin_block ext bt a cs os f argv = Some (a', cs')"
    "list_all (\<lambda>frame. list_all wf_value (locals frame)) cs" "list_all wf_value argv"
  shows "list_all (\<lambda>frame. list_all wf_value (locals frame)) cs'"
  using assms
  by (auto simp: handle_begin_block_def handle_if_block_def handle_else_block_def Let_def
      bind_eq_Some_conv stack_push_def nested_block_ok split: if_splits)

lemma unwind_Some:
  assumes "unwind P cs = Some (frame, cs')"
  shows "\<exists>us. cs = cs' @ frame # us \<and> P frame \<and> (\<forall>u \<in> set us. \<not> P u)"
  using assms
proof (induction P cs rule: unwind.induct)
  case (1 P cs)
  from "1.prems" obtain fr rest where cs: "stack_pop cs = Some (fr, rest)"
    by (auto split: option.split_asm)
  show ?case
  proof (cases "P fr")
    case True
    with "1.prems" cs show ?thesis by (simp add: stack_pop_iff)
  next
    case False
    with "1.prems" cs have "unwind P rest = Some (frame, cs')" by simp
    from "1.IH"[OF cs _ False this] obtain us where
      "rest = cs' @ frame # us" "P frame" "\<forall>u \<in> set us. \<not> P u" by auto
    with cs False show ?thesis by (auto simp: stack_pop_iff intro!: exI[of _ "us @ [fr]"])
  qed
qed

declare unwind.simps [simp del]

lemmas exec_simps = bind_eq_Some_conv stack_push_def stack_new_def stack_iffs fold_stack_push
  step_ok_def vm_ok_def

lemma exec_call_ok: "exec_call m f a vm = Some r \<Longrightarrow> step_ok vm r"
  by (auto simp: exec_call_def Let_def exec_simps dest!: pop_args_append(1) split: if_splits prod.split_asm)

lemma return_to_ok:
  assumes "return_to a ra vs cs vm = Some r" "list_all wf_value vs"
    "list_all (\<lambda>frame. list_all wf_value (locals frame)) cs" "heap_ok (vm_heap vm)"
  shows "vm_ok (result_vm r) \<and> vm_modules (result_vm r) = vm_modules vm \<and> (\<exists>w. r = Running w)"
  using assms by (auto simp: return_to_def exec_simps)

lemma exec_return_cases:
  assumes "exec_return f a vm = Some r"
  obtains cs fr n vals fr' ra cs' us where "vm_call_stack vm = cs @ [fr]"
    "fetch f (Suc (ip a)) = Some n" "pop_args (unat n) fr = Some (vals, fr')"
    "return_to (increment a) ra vals cs' vm = Some r"
    "scope_type fr = None \<and> cs' = cs \<and> ra = return_address fr \<or>
     scope_type fr \<noteq> None \<and> (\<exists>caller. cs = cs' @ caller # us \<and> scope_type caller = None \<and>
       ra = return_address caller \<and> (\<forall>u \<in> set us. scope_type u \<noteq> None))"
  using assms unfolding exec_return_def Let_def
  apply (elim panic_elims)
  subgoal for n _ fr cs _ vals fr'
    by (rule that[of cs fr n vals fr' "return_address fr" cs]) (simp_all add: stack_pop_iff)
  subgoal for n _ fr cs _ vals fr' _ fr2 cs2
    apply (hypsubst, drule unwind_Some)
    apply (elim exE conjE)
    subgoal for us
      by (rule that[of cs fr n vals fr' "return_address fr2" cs2 us]) (auto simp: stack_pop_iff)
    done
  done

lemma exec_return_ok:
  assumes "exec_return f a vm = Some r"
  shows "step_ok vm r"
  using assms
proof (cases rule: exec_return_cases)
  case (1 cs fr n vals fr' ra cs' us)
  from 1(4) have m: "vm_modules (result_vm r) = vm_modules vm" "\<exists>w. r = Running w"
    by (auto simp: return_to_def exec_simps)
  from 1(5) have sub: "set cs' \<subseteq> set cs" by auto
  have "vm_ok (result_vm r)" if ok: "vm_ok vm"
  proof -
    from ok 1(1) pop_args_append(1)[OF 1(3)] have "list_all wf_value vals" by (simp add: vm_ok_def)
    moreover from ok 1(1) sub have "list_all (\<lambda>frame. list_all wf_value (locals frame)) cs'"
      unfolding vm_ok_def list_all_iff by auto
    ultimately show ?thesis using return_to_ok[OF 1(4)] ok by (simp add: vm_ok_def)
  qed
  with m show ?thesis by (auto simp: step_ok_def)
qed

lemma exec_begin_ok: "exec_begin ext bt argv f a vm = Some r \<Longrightarrow> list_all wf_value argv \<Longrightarrow> step_ok vm r"
  by (auto simp: exec_begin_def exec_simps dest: handle_begin_block_ok)

lemma write_back_ok:
  assumes "fetch_push_args ext f a vm = Some r"
  shows "vm_modules (write_back (argv_state r) vm) = vm_modules vm"
    "vm_ok vm \<Longrightarrow> vm_ok (write_back (argv_state r) vm) \<and> list_all wf_value (a_argv (argv_state r))"
    "r = Inl (e, s) \<Longrightarrow> e = Overflow"
proof -
  show "vm_modules (write_back (argv_state r) vm) = vm_modules vm" by (simp add: write_back_def)
  from assms obtain fr b n where fr: "stack_peek (vm_call_stack vm) = Some fr"
    and fa: "fetch_argv (x_bits ext) fr (vm_operand_stack vm) b (vm_heap vm) f n = Some r"
    by (auto simp: fetch_push_args_def Let_def bind_eq_Some_conv split: if_splits)
  from fa show "r = Inl (e, s) \<Longrightarrow> e = Overflow" by (auto dest: fetch_argv_Err)
  assume ok: "vm_ok vm"
  from fr obtain cs where cs: "vm_call_stack vm = cs @ [fr]"
    by (cases "vm_call_stack vm" rule: rev_cases) auto
  from fetch_argv_rel[OF fa] ok cs show
    "vm_ok (write_back (argv_state r) vm) \<and> list_all wf_value (a_argv (argv_state r))"
    by (auto simp: arg_rel_def arg_ok_def vm_ok_def write_back_def)
qed

lemma exec_push_operand_ok:
  assumes "exec_push_operand ext f a vm = Some r"
  shows "step_ok vm r"
proof -
  from assms obtain q where q: "fetch_push_args ext f a vm = Some q"
    by (auto simp: exec_push_operand_def bind_eq_Some_conv)
  note w = write_back_ok[OF q]
  show ?thesis
  proof (cases q)
    case (Inl es)
    with assms q w show ?thesis
      by (cases es) (auto simp: exec_push_operand_def step_ok_def argv_state_def)
  next
    case (Inr ts)
    with assms q w show ?thesis
      by (cases ts) (auto simp: exec_push_operand_def Let_def step_ok_def argv_state_def vm_ok_def fold_stack_push)
  qed
qed

lemma exec_push_local_ok:
  assumes "exec_push_local ext f a vm = Some r"
  shows "step_ok vm r"
proof -
  from assms obtain q where q: "fetch_push_args ext f a vm = Some q"
    by (auto simp: exec_push_local_def bind_eq_Some_conv)
  note w = write_back_ok[OF q]
  show ?thesis
  proof (cases q)
    case (Inl es)
    with assms q w show ?thesis
      by (cases es) (auto simp: exec_push_local_def step_ok_def argv_state_def)
  next
    case (Inr ts)
    with assms q w show ?thesis
      by (cases ts) (auto simp: exec_push_local_def Let_def argv_state_def exec_simps)
  qed
qed

lemma exec_pop_operand_ok: "exec_pop_operand a vm = Some r \<Longrightarrow> step_ok vm r"
  by (auto simp: exec_pop_operand_def exec_simps)

lemma exec_pop_local_ok: "exec_pop_local a vm = Some r \<Longrightarrow> step_ok vm r"
  by (auto simp: exec_pop_local_def exec_simps)

lemma exec_pick_local_ok: "exec_pick_local f a vm = Some r \<Longrightarrow> step_ok vm r"
  by (auto simp: exec_pick_local_def exec_simps list_all_iff split: prod.split_asm)

lemma exec_pick_operand_ok: "exec_pick_operand f a vm = Some r \<Longrightarrow> step_ok vm r"
  by (auto simp: exec_pick_operand_def exec_simps list_all_iff split: prod.split_asm)

lemma exec_end_ok: "exec_end ext f a vm = Some r \<Longrightarrow> step_ok vm r"
  by (auto simp: exec_end_def Let_def exec_simps split: option.split_asm)

lemma break_loop_ok: "break_loop ext f vm = Some r \<Longrightarrow> step_ok vm r"
  by (auto simp: break_loop_def exec_simps dest!: unwind_Some)

lemma exec_break_if_ok: "exec_break_if ext f a vm = Some r \<Longrightarrow> step_ok vm r"
  using break_loop_ok[of ext f vm r]
  by (auto simp: exec_break_if_def Let_def bind_eq_Some_conv split: if_splits)
    (simp_all add: step_ok_def)

lemma exec_store_ok: "exec_store check f a vm = Some r \<Longrightarrow> step_ok vm r"
  by (auto simp: exec_store_def Let_def exec_simps split: if_splits prod.split_asm dest: heap_ok_set)

lemma exec_load_ok: "exec_load check f a vm = Some r \<Longrightarrow> step_ok vm r"
  by (auto simp: exec_load_def exec_simps split: if_splits prod.split_asm
      dest: heap_ok_set heap_ok_get)

lemma value_fold_wf:
  assumes "foldm (\<lambda>acc x. (case acc of
                 Some a \<Rightarrow> do { r \<leftarrow> value_add ck fa fb a x; Some (Some r) }
               | None \<Rightarrow> Some (Some x))) acc buf = Some res"
    "list_all wf_value buf" "\<forall>v. acc = Some v \<longrightarrow> wf_value v"
  shows "\<forall>v. res = Some v \<longrightarrow> wf_value v"
  by (rule foldm_invariant[where P = "\<lambda>acc. \<forall>v. acc = Some v \<longrightarrow> wf_value v", OF assms(1,3)])
    (use assms(2) in \<open>auto simp: list_all_iff bind_eq_Some_conv split: option.split_asm intro: value_add_wf\<close>)

lemma exec_add_ok:
  assumes "exec_add ext a vm = Some r"
  shows "step_ok vm r"
proof -
  from assms obtain res v where f: "foldm (\<lambda>acc x. (case acc of
                 Some a \<Rightarrow> do { r \<leftarrow> value_add (x_overflow_checks ext) (x_fadd32 ext) (x_fadd64 ext) a x; Some (Some r) }
               | None \<Rightarrow> Some (Some x))) None (rev (vm_operand_stack vm)) = Some (Some v)"
    and r: "r = Running (at (increment a) (vm\<lparr>vm_operand_stack := [v]\<rparr>))"
    by (auto simp: exec_add_def perform_addition_def bind_eq_Some_conv stack_push_def stack_new_def
        split: if_splits)
  from value_fold_wf[OF f] have "vm_ok vm \<longrightarrow> wf_value v" by (simp add: vm_ok_def)
  with r show ?thesis by (auto simp: step_ok_def vm_ok_def)
qed

lemmas exec_oks = exec_call_ok exec_return_ok exec_begin_ok exec_push_operand_ok exec_push_local_ok
  exec_pop_operand_ok exec_pop_local_ok exec_pick_local_ok exec_pick_operand_ok exec_end_ok
  break_loop_ok exec_break_if_ok exec_add_ok exec_load_ok exec_store_ok

lemmas exec_store_defs = exec_store8_def exec_store16_def exec_store32_def exec_store_any_def

lemma exec_store_op_ok: "exec_store_op op f a vm = Some r \<Longrightarrow> step_ok vm r"
  by (cases op) (auto simp: exec_store_op_def exec_store_defs intro: exec_store_ok)

text \<open>Every instruction keeps the invariant and the modules, and the only error is an overflow.\<close>

lemma vm_step_ok:
  assumes "vm_step ext argv vm = Some r" "list_all wf_value argv"
  shows "step_ok vm r"
proof -
  from assms(1) obtain a m f op where a: "vm_ip vm = Some a" "index (vm_modules vm) (module_idx a) = Some m"
      "index (m_functions m) (fun_idx a) = Some f" "fetch f (ip a) = Some op"
    by (auto simp: vm_step_def bind_eq_Some_conv)
  have stay: "step_ok vm (Halted vm)" "step_ok vm (Running (at a' vm))" for a'
    by (simp_all add: step_ok_def)
  show ?thesis
  proof (cases "from_repr op")
    case None
    with assms(1) a show ?thesis by (simp add: vm_step_def)
  next
    case (Some i)
    with assms a stay show ?thesis
      by (cases i) (auto simp: vm_step_def split: CommonOp.split_asm intro: exec_oks exec_store_op_ok)
  qed
qed

lemma vm_run_ok:
  assumes "vm_run ext argv fuel vm = Some r" "list_all wf_value argv"
  shows "step_ok vm r"
  using assms(1)
proof (induction fuel arbitrary: vm)
  case 0
  then show ?case by (auto simp: step_ok_def)
next
  case (Suc fuel)
  then obtain q where q: "vm_step ext argv vm = Some q"
    and c: "(case q of Running vm' \<Rightarrow> vm_run ext argv fuel vm' | _ \<Rightarrow> Some q) = Some r"
    by (auto simp: bind_eq_Some_conv)
  from vm_step_ok[OF q assms(2)] c Suc.IH show ?case
    by (cases q) (auto simp: step_ok_def)
qed

section \<open>Runs\<close>

text \<open>The states the loop of \<open>execute\<close> goes through.\<close>

inductive vm_reaches :: "'d vm_ext \<Rightarrow> VmValue list \<Rightarrow> Vm \<Rightarrow> Vm \<Rightarrow> bool"
  for ext :: "'d vm_ext" and argv :: "VmValue list" and vm :: Vm where
  refl: "vm_reaches ext argv vm vm"
| step: "vm_reaches ext argv vm v \<Longrightarrow> vm_step ext argv v = Some (Running w) \<Longrightarrow> vm_reaches ext argv vm w"

lemma vm_reaches_ok:
  assumes "vm_reaches ext argv vm w" "list_all wf_value argv" "vm_ok vm"
  shows "vm_ok w \<and> vm_modules w = vm_modules vm"
  using assms(1)
proof (induction rule: vm_reaches.induct)
  case refl
  with assms(3) show ?case by simp
next
  case (step v w)
  from vm_step_ok[OF step.hyps(2) assms(2)] step.IH show ?case by (auto simp: step_ok_def)
qed

lemma vm_run_add:
  "vm_run ext argv (m + n) vm = do {
     r \<leftarrow> vm_run ext argv m vm;
     (case r of Running vm' \<Rightarrow> vm_run ext argv n vm' | _ \<Rightarrow> Some r) }"
proof (induction m arbitrary: vm)
  case 0
  show ?case by simp
next
  case (Suc m)
  show ?case
    by (cases "vm_step ext argv vm") (auto simp: Suc.IH split: StepResult.split)
qed

lemma vm_run_more_fuel:
  assumes "vm_run ext argv m vm = r" "\<And>vm'. r \<noteq> Some (Running vm')" "m \<le> n"
  shows "vm_run ext argv n vm = r"
proof -
  obtain k where "n = m + k" using assms(3) le_Suc_ex by blast
  with assms(1,2) show ?thesis
    by (cases r) (auto simp: vm_run_add split: StepResult.split)
qed

lemma vm_run_1: "vm_run ext argv 1 v = Some (Running w) \<longleftrightarrow> vm_step ext argv v = Some (Running w)"
proof (cases "vm_step ext argv v")
  case (Some q)
  then show ?thesis by (cases q) simp_all
qed simp

lemma vm_reaches_run:
  "vm_reaches ext argv vm w \<longleftrightarrow> (\<exists>n. vm_run ext argv n vm = Some (Running w))"
proof
  assume "vm_reaches ext argv vm w"
  then show "\<exists>n. vm_run ext argv n vm = Some (Running w)"
  proof (induction rule: vm_reaches.induct)
    case refl
    show ?case by (rule exI[of _ 0]) simp
  next
    case (step v w)
    then obtain n where "vm_run ext argv n vm = Some (Running v)" by blast
    with step.hyps(2) have "vm_run ext argv (n + 1) vm = Some (Running w)"
      by (simp only: vm_run_add) simp
    then show ?case ..
  qed
next
  assume "\<exists>n. vm_run ext argv n vm = Some (Running w)"
  then obtain n where "vm_run ext argv n vm = Some (Running w)" ..
  then show "vm_reaches ext argv vm w"
  proof (induction n arbitrary: w)
    case 0
    then show ?case by (simp add: vm_reaches.refl)
  next
    case (Suc n)
    from Suc.prems have "vm_run ext argv (n + 1) vm = Some (Running w)" by simp
    then obtain q where q: "vm_run ext argv n vm = Some q"
      "(case q of Running v \<Rightarrow> vm_run ext argv 1 v | _ \<Rightarrow> Some q) = Some (Running w)"
      unfolding vm_run_add by (auto simp: bind_eq_Some_conv)
    then obtain v where v: "vm_run ext argv n vm = Some (Running v)"
      and s: "vm_step ext argv v = Some (Running w)"
      by (cases q) (simp_all only: StepResult.case vm_run_1 option.inject StepResult.distinct)
    from vm_reaches.step[OF Suc.IH[OF v] s] show ?case .
  qed
qed

section \<open>Results of an execution\<close>

lemma execute_cases:
  assumes "execute ext fuel vm mi fi argv = Some r"
  obtains (unloaded) "length (vm_modules vm) \<le> mi" "r = Err NotLoaded vm"
  | (undefined) "mi < length (vm_modules vm)" "length (m_functions (vm_modules vm ! mi)) \<le> fi"
      "r = Err NotDefined vm"
  | (ran) q where "mi < length (vm_modules vm)" "fi < length (m_functions (vm_modules vm ! mi))"
      "vm_run ext argv fuel (at (address_new 0 fi mi) vm) = Some q"
      "case q of Running w \<Rightarrow> r = Timeout w | Failed e w \<Rightarrow> r = Err e w
       | Halted w \<Rightarrow> (\<exists>g. r = Ok g (reset w))"
proof (cases "mi < length (vm_modules vm) \<and> fi < length (m_functions (vm_modules vm ! mi))")
  case True
  with assms obtain q where q: "vm_run ext argv fuel (at (address_new 0 fi mi) vm) = Some q"
    by (auto simp: execute_def bind_eq_Some_conv)
  with assms True show thesis
    by (intro ran[OF _ _ q]; cases q) (auto simp: execute_def gas_zero bind_eq_Some_conv)
next
  case False
  with assms unloaded undefined show thesis by (auto simp: execute_def split: if_splits)
qed

lemma execute_Ok:
  assumes "execute ext fuel vm mi fi argv = Some (Ok g vm')" "list_all wf_value argv" "vm_ok vm"
  shows "vm_ip vm' = None \<and> vm_call_stack vm' = [] \<and> vm_operand_stack vm' = [] \<and>
    vm_modules vm' = vm_modules vm \<and> vm_ok vm'"
  using assms(1)
proof (cases rule: execute_cases)
  case (ran q)
  from ran(4) obtain w where w: "q = Halted w" "vm' = reset w" by (cases q) auto
  from vm_run_ok[OF ran(3) assms(2)] assms(3) w(1) have "vm_modules w = vm_modules vm" "vm_ok w"
    by (simp_all add: step_ok_def)
  with w(2) show ?thesis by (simp add: reset_def vm_ok_def stack_new_def)
qed simp_all

text \<open>The instruction that the machine is about to execute, and the ones that can end in \<open>Overflow\<close>.\<close>

definition current_instruction :: "Vm \<Rightarrow> Instruction option" where
  "current_instruction vm = do {
     a \<leftarrow> vm_ip vm;
     m \<leftarrow> index (vm_modules vm) (module_idx a);
     f \<leftarrow> index (m_functions m) (fun_idx a);
     op \<leftarrow> fetch f (ip a);
     from_repr op
   }"

fun may_overflow :: "Instruction \<Rightarrow> bool" where
  "may_overflow (Load op) = (op \<notin> {i32Load, i64Load, f32Load, f64Load})"
| "may_overflow (Store op) = (op \<in> {i32Store8, i64Store8, i32Store16, i64Store16, i64Store32})"
| "may_overflow PushOperand = True"
| "may_overflow PushLocal = True"
| "may_overflow _ = False"

lemma fetch_push_args_Err: "fetch_push_args ext f a vm = Some (Inl (e, s)) \<Longrightarrow> e = Overflow"
  by (auto simp: fetch_push_args_def Let_def bind_eq_Some_conv dest: fetch_argv_Err split: if_splits)

lemma exec_not_Failed:
  "exec_call m f a vm \<noteq> Some (Failed e w)" "exec_return f a vm \<noteq> Some (Failed e w)"
  "exec_begin ext bt argv f a vm \<noteq> Some (Failed e w)" "exec_pop_operand a vm \<noteq> Some (Failed e w)"
  "exec_pop_local a vm \<noteq> Some (Failed e w)" "exec_pick_local f a vm \<noteq> Some (Failed e w)"
  "exec_pick_operand f a vm \<noteq> Some (Failed e w)" "exec_end ext f a vm \<noteq> Some (Failed e w)"
  "break_loop ext f vm \<noteq> Some (Failed e w)" "exec_break_if ext f a vm \<noteq> Some (Failed e w)"
  "exec_add ext a vm \<noteq> Some (Failed e w)" "exec_store_any f a vm \<noteq> Some (Failed e w)"
  "exec_load (\<lambda>_. Some True) f a vm \<noteq> Some (Failed e w)"
  by (auto simp: exec_call_def exec_return_def return_to_def exec_begin_def exec_pop_operand_def exec_pop_local_def
      exec_pick_local_def exec_pick_operand_def exec_end_def break_loop_def exec_break_if_def exec_add_def
      exec_store_any_def exec_store_def exec_load_def Let_def bind_eq_Some_conv split: if_splits option.split_asm)

lemma push_args_Failed:
  assumes "fetch_push_args ext f a vm \<bind> (\<lambda>r. case r of Inr (_, st) \<Rightarrow> k st
      | Inl (err, st) \<Rightarrow> Some (Failed err (write_back st vm))) = Some (Failed e w)"
    and "\<And>st. k st \<noteq> Some (Failed e w)"
  shows "e = Overflow"
proof -
  from assms(1) obtain q where q: "fetch_push_args ext f a vm = Some q"
    and c: "(case q of Inr (_, st) \<Rightarrow> k st | Inl (err, st) \<Rightarrow> Some (Failed err (write_back st vm))) =
      Some (Failed e w)"
    by (rule bind_SomeE)
  show ?thesis
  proof (cases q)
    case (Inl es)
    with q c fetch_push_args_Err show ?thesis by (cases es) auto
  next
    case (Inr ts)
    with c assms(2) show ?thesis by (cases ts) auto
  qed
qed

lemma exec_Failed:
  "exec_store check f a vm = Some (Failed e w) \<Longrightarrow> e = Overflow"
  "exec_load check f a vm = Some (Failed e w) \<Longrightarrow> e = Overflow"
  by (auto simp: exec_store_def exec_load_def Let_def bind_eq_Some_conv split: if_splits)

lemma exec_push_Failed:
  "exec_push_operand ext f a vm = Some (Failed e w) \<Longrightarrow> e = Overflow"
  "exec_push_local ext f a vm = Some (Failed e w) \<Longrightarrow> e = Overflow"
  unfolding exec_push_operand_def exec_push_local_def
  by (erule push_args_Failed, simp add: Let_def bind_eq_Some_conv)+

lemma exec_store_op_Failed:
  "exec_store_op op f a vm = Some (Failed e w) \<Longrightarrow> e = Overflow \<and> may_overflow (Store op)"
  by (cases op) (auto simp: exec_store_op_def exec_not_Failed exec_store_defs dest: exec_Failed
      simp del: exec_store_any_def)

lemma vm_step_Failed:
  assumes "vm_step ext argv vm = Some (Failed e w)"
  shows "e = Overflow \<and> (\<exists>i. current_instruction vm = Some i \<and> may_overflow i)"
proof -
  from assms obtain a m f op where a: "vm_ip vm = Some a" "index (vm_modules vm) (module_idx a) = Some m"
      "index (m_functions m) (fun_idx a) = Some f" "fetch f (ip a) = Some op"
    by (auto simp: vm_step_def bind_eq_Some_conv)
  from assms a obtain i where i: "from_repr op = Some i"
    by (cases "from_repr op") (simp_all add: vm_step_def)
  with a have cur: "current_instruction vm = Some i" by (simp add: current_instruction_def)
  have "e = Overflow \<and> may_overflow i"
  proof (cases i)
    case (Load op)
    with assms a i show ?thesis by (cases op) (auto simp: vm_step_def exec_not_Failed dest: exec_Failed)
  next
    case (Common c)
    with assms a i show ?thesis by (auto simp: vm_step_def exec_not_Failed split: CommonOp.split_asm)
  qed (use assms a i in \<open>auto simp: vm_step_def exec_not_Failed dest: exec_push_Failed exec_store_op_Failed\<close>)
  with cur show ?thesis by blast
qed

lemma vm_run_1_Failed:
  "vm_run ext argv 1 v = Some (Failed e w) \<longleftrightarrow> vm_step ext argv v = Some (Failed e w)"
proof (cases "vm_step ext argv v")
  case (Some q)
  then show ?thesis by (cases q) simp_all
qed simp

lemma vm_run_Failed:
  assumes "vm_run ext argv n v = Some (Failed e w)"
  shows "\<exists>u. vm_reaches ext argv v u \<and> vm_step ext argv u = Some (Failed e w)"
  using assms
proof (induction n)
  case (Suc n)
  have "vm_run ext argv (n + 1) v = Some (Failed e w)" using Suc.prems by simp
  then obtain q where q: "vm_run ext argv n v = Some q"
    and c: "(case q of Running u \<Rightarrow> vm_run ext argv 1 u | _ \<Rightarrow> Some q) = Some (Failed e w)"
    unfolding vm_run_add by (rule bind_SomeE)
  show ?case
  proof (cases q)
    case (Running u)
    with q have "vm_reaches ext argv v u" using vm_reaches_run by blast
    moreover from Running c have "vm_step ext argv u = Some (Failed e w)"
      by (simp only: StepResult.case vm_run_1_Failed)
    ultimately show ?thesis by blast
  qed (use q c Suc.IH in auto)
qed simp

lemma vm_run_Failed_iff:
  "(\<exists>n. vm_run ext argv n v = Some (Failed e w)) \<longleftrightarrow>
     (\<exists>u. vm_reaches ext argv v u \<and> vm_step ext argv u = Some (Failed e w))"
proof
  assume "\<exists>u. vm_reaches ext argv v u \<and> vm_step ext argv u = Some (Failed e w)"
  then obtain u n where "vm_run ext argv n v = Some (Running u)" "vm_step ext argv u = Some (Failed e w)"
    unfolding vm_reaches_run by blast
  then have "vm_run ext argv (n + 1) v = Some (Failed e w)" by (simp only: vm_run_add) simp
  then show "\<exists>n. vm_run ext argv n v = Some (Failed e w)" ..
qed (use vm_run_Failed in blast)

lemma execute_Err_iff:
  "execute ext fuel vm mi fi argv = Some (Err e vm') \<longleftrightarrow>
     length (vm_modules vm) \<le> mi \<and> e = NotLoaded \<and> vm' = vm \<or>
     mi < length (vm_modules vm) \<and> length (m_functions (vm_modules vm ! mi)) \<le> fi \<and> e = NotDefined \<and> vm' = vm \<or>
     mi < length (vm_modules vm) \<and> fi < length (m_functions (vm_modules vm ! mi)) \<and>
       vm_run ext argv fuel (at (address_new 0 fi mi) vm) = Some (Failed e vm')"
  by (auto simp: execute_def bind_eq_Some_conv gas_zero split: StepResult.split_asm option.split_asm sum.split_asm)

section \<open>What the instructions compute\<close>

text \<open>
  The range of the values that a narrow load is named after; the full-width loads have none.  And
  the number that a narrow load looks at, if the cell has a value of its type.
\<close>

definition signed_range :: "nat \<Rightarrow> int \<times> int" where
  "signed_range w = (- (2 ^ (w - 1)), 2 ^ (w - 1) - 1)"

definition unsigned_range :: "nat \<Rightarrow> int \<times> int" where
  "unsigned_range w = (0, 2 ^ w - 1)"

fun load_range :: "LoadOp \<Rightarrow> (int \<times> int) option" where
  "load_range i32Load8Signed = Some (signed_range 8)"
| "load_range i32Load8Unsigned = Some (unsigned_range 8)"
| "load_range i32Load16Signed = Some (signed_range 16)"
| "load_range i32Load16Unsigned = Some (unsigned_range 16)"
| "load_range i64Load8Signed = Some (signed_range 8)"
| "load_range i64Load8Unsigned = Some (unsigned_range 8)"
| "load_range i64Load16Signed = Some (signed_range 16)"
| "load_range i64Load16Unsigned = Some (unsigned_range 16)"
| "load_range i64Load32Signed = Some (signed_range 32)"
| "load_range i64Load32Unsigned = Some (unsigned_range 32)"
| "load_range _ = None"

definition load_int :: "LoadOp \<Rightarrow> VmValue \<Rightarrow> int option" where
  "load_int op v = (case v of
     VmValue.I32 x \<Rightarrow> if op \<in> {i32Load8Signed, i32Load8Unsigned, i32Load16Signed, i32Load16Unsigned}
       then Some (sint x) else None
   | VmValue.I64 x \<Rightarrow> if op \<in> {i32Load8Signed, i32Load8Unsigned, i32Load16Signed, i32Load16Unsigned}
       then None else Some (sint x)
   | _ \<Rightarrow> None)"

lemma load_check_eq:
  "load_check op v = (case load_range op of None \<Rightarrow> Some True
     | Some (lo, hi) \<Rightarrow> map_option (\<lambda>z. \<not> (lo \<le> z \<and> z \<le> hi)) (load_int op v))"
  by (cases op; cases v)
    (auto simp: load_int_def i32_outside_def i64_outside_def signed_range_def unsigned_range_def)

lemma exec_store_op_check: "\<exists>check. exec_store_op op = exec_store check"
  by (cases op) (auto simp: exec_store_op_def exec_store_defs)

text \<open>What a load makes of the value that was just stored in its cell.\<close>

lemma store_load:
  assumes st: "exec_store check f a vm = Some (Running vm1)"
    and ca: "fetch_coords f a = Some (x, y, a1)" and cb: "fetch_coords f b = Some (x, y, b1)"
  shows "\<exists>os elem h. vm_operand_stack vm = os @ [elem] \<and> heap_get h x y = Some None \<and>
    (\<forall>x' y'. (x', y') \<noteq> (x, y) \<longrightarrow> heap_get h x' y' = heap_get (vm_heap vm) x' y') \<and>
    exec_load chk f b vm1 = map_option (\<lambda>ok. if ok
      then Running (at (increment b1) (vm1\<lparr>vm_heap := h, vm_operand_stack := vm_operand_stack vm\<rparr>))
      else Failed Overflow (at b1 vm1)) (chk elem)"
proof -
  from st ca obtain elem os h1 where os: "vm_operand_stack vm = os @ [elem]"
    and h1: "heap_set (vm_heap vm) x y (Some elem) = Some h1"
    and vm1: "vm1 = at (increment a1) (vm\<lparr>vm_operand_stack := os, vm_heap := h1\<rparr>)"
    by (auto simp: exec_store_def Let_def bind_eq_Some_conv stack_pop_iff split: if_splits)
  from h1 have xy: "x < length (vm_heap vm)" "y < length (vm_heap vm ! x)"
      "h1 = (vm_heap vm)[x := (vm_heap vm ! x)[y := Some elem]]" by (auto simp: heap_set_iff)
  let ?h = "(vm_heap vm)[x := (vm_heap vm ! x)[y := None]]"
  have g: "heap_get h1 x y = Some (Some elem)" using xy by (simp add: heap_get_iff)
  have s: "heap_set h1 x y None = Some ?h" using xy by (simp add: heap_set_iff)
  have others: "heap_get ?h x' y' = heap_get (vm_heap vm) x' y'" if "(x', y') \<noteq> (x, y)" for x' y'
    using that xy by (cases "x' = x") (auto simp: heap_get_def index_def)
  have "exec_load chk f b vm1 = map_option (\<lambda>ok. if ok
      then Running (at (increment b1) (vm1\<lparr>vm_heap := ?h, vm_operand_stack := vm_operand_stack vm\<rparr>))
      else Failed Overflow (at b1 vm1)) (chk elem)"
    using cb g s vm1 os by (cases "chk elem") (simp_all add: exec_load_def stack_push_def)
  moreover have "heap_get ?h x y = Some None" using xy by (simp add: heap_get_iff)
  ultimately show ?thesis using os others by blast
qed

text \<open>
  The narrow loads as instructions and as arguments of a push disagree on every value: what the
  one accepts the other rejects.
\<close>

lemma narrow_load_i32:
  assumes "fetch_coords f a = Some (x, y, b)" "heap_get (vm_heap vm) x y = Some (Some (VmValue.I32 v))"
  shows "exec_load (i32_outside lo hi) f a vm = Some (Failed Overflow (at b vm)) \<longleftrightarrow>
      lo \<le> sint v \<and> sint v \<le> hi"
    and "narrow_i32 lo hi (VmValue.I32 v, s) = Some (Inr (push_arg (VmValue.I32 v) s)) \<longleftrightarrow>
      lo \<le> sint v \<and> sint v \<le> hi"
  using assms by (auto simp: exec_load_def i32_outside_def narrow_i32_def bind_eq_Some_conv not_less)

text \<open>\<open>Return\<close> unwinds the blocks of the function and hands its top locals to the caller.\<close>

lemma unwind_append:
  assumes "P frame" "\<forall>u \<in> set us. \<not> P u"
  shows "unwind P (cs @ frame # us) = Some (frame, cs)"
  using assms(2)
proof (induction us rule: rev_induct)
  case Nil
  show ?case using assms(1) by (simp add: unwind.simps[of _ "cs @ [frame]"])
next
  case (snoc u us)
  have "stack_pop (cs @ frame # us @ [u]) = Some (u, cs @ frame # us)"
    using stack_pop_snoc[of "cs @ frame # us" u] by simp
  with snoc show ?case by (subst unwind.simps) simp
qed

lemma exec_return_spec:
  assumes "vm_call_stack vm = cs @ [caller, callee] @ us"
    and "scope_type callee = None" "return_address callee = Some r"
    and "\<forall>u \<in> set us. scope_type u \<noteq> None"
    and "fetch f (ip a + 1) = Some n" "locals (last (callee # us)) = ls @ vals" "length vals = unat n"
  shows "exec_return f a vm = Some (Running (at r (vm\<lparr>
    vm_call_stack := cs @ [caller\<lparr>locals := locals caller @ vals\<rparr>], vm_operand_stack := []\<rparr>)))"
proof (cases us rule: rev_cases)
  case Nil
  with assms show ?thesis
    using stack_pop_snoc[of "cs @ [caller]" callee]
    by (simp add: exec_return_def return_to_def pop_args_eq fold_stack_push stack_new_def)
next
  case (snoc ws u)
  have "stack_pop (vm_call_stack vm) = Some (u, (cs @ [caller]) @ callee # ws)"
    using assms(1) snoc stack_pop_snoc[of "(cs @ [caller]) @ callee # ws" u] by simp
  moreover have "unwind (\<lambda>fr. scope_type fr = None) ((cs @ [caller]) @ callee # ws) = Some (callee, cs @ [caller])"
    by (rule unwind_append) (use assms(2,4) snoc in auto)
  ultimately show ?thesis
    using assms snoc
    by (auto simp: exec_return_def return_to_def pop_args_eq fold_stack_push stack_new_def)
qed

text \<open>\<open>Eq\<close> on integers holds when all operands are equal.\<close>

lemma comparison_fold:
  assumes "\<And>x y. value_eq (c x) (c y) = Some (x = y)"
  shows "foldm (\<lambda>(result, last) v.
              (case last of
                 Some l \<Rightarrow> if result then do { r \<leftarrow> value_eq v l; Some (r, Some v) }
                           else Some (result, Some v)
               | None \<Rightarrow> Some (result, Some v))) (res, Some (c z)) (map c xs) =
    Some (res \<and> (\<forall>x \<in> set xs. x = z), Some (c (last (z # xs))))"
  by (induction xs arbitrary: res z) (auto simp: assms)

lemma perform_comparison_Eq:
  assumes "\<And>x y. value_eq (c x) (c y) = Some (x = y)" "2 \<le> length xs"
  shows "perform_comparison (Comp Eq) (map c xs) = Some (\<forall>x \<in> set xs. \<forall>y \<in> set xs. x = y)"
proof (cases xs)
  case (Cons z zs)
  with assms(2) have "perform_comparison (Comp Eq) (map c xs) = Some (\<forall>x \<in> set zs. x = z)"
    by (auto simp: perform_comparison_def comparison_fold[OF assms(1)])
  moreover have "(\<forall>x \<in> set zs. x = z) \<longleftrightarrow> (\<forall>x \<in> set xs. \<forall>y \<in> set xs. x = y)"
    unfolding Cons by (metis list.set_intros(1) list.set_intros(2) set_ConsD)
  ultimately show ?thesis by simp
qed (use assms(2) in simp)

text \<open>
  \<open>Add\<close> sums up the operands from the top.  With overflow checks it panics as soon as a partial
  sum leaves the range.
\<close>

definition i32_fits :: "int \<Rightarrow> bool" where
  "i32_fits z \<longleftrightarrow> - 2147483648 \<le> z \<and> z \<le> 2147483647"

lemma i32_fits_sint [simp]: "i32_fits (sint (x :: i32))"
  using sint_range_size[of x] by (simp add: i32_fits_def word_size)

lemma checked_sadd_i32:
  "checked_sadd x (y :: i32) = (if i32_fits (sint x + sint y) then Some (x + y) else None)"
  by (auto simp: checked_sadd_def i32_fits_def)

lemma sint_add_i32: "i32_fits (sint x + sint (y :: i32)) \<Longrightarrow> sint (x + y) = sint x + sint y"
  using checked_sadd_Some_sint[of x y "x + y"] by (simp add: checked_sadd_i32)

lemma sint_sum_list_i32:
  "sint (sum_list (xs :: i32 list)) = sum_list (map sint xs) \<longleftrightarrow> i32_fits (sum_list (map sint xs))"
proof
  assume "sint (sum_list xs) = sum_list (map sint xs)"
  then show "i32_fits (sum_list (map sint xs))" using i32_fits_sint[of "sum_list xs"] by simp
next
  have "sum_list xs = word_of_int (sum_list (map sint xs))" by (induction xs) simp_all
  moreover assume "i32_fits (sum_list (map sint xs))"
  ultimately show "sint (sum_list xs) = sum_list (map sint xs)"
    by (simp add: i32_fits_def sint_sbintrunc' signed_take_bit_int_eq_self)
qed

lemma ex_prefix_Cons:
  "(\<exists>us vs. x # xs = us @ vs \<and> P us) \<longleftrightarrow> P [] \<or> (\<exists>us vs. xs = us @ vs \<and> P (x # us))"
proof
  assume "P [] \<or> (\<exists>us vs. xs = us @ vs \<and> P (x # us))"
  then show "\<exists>us vs. x # xs = us @ vs \<and> P us"
  proof (elim disjE exE conjE)
    fix us vs
    assume "xs = us @ vs" "P (x # us)"
    then show ?thesis by (intro exI[of _ "x # us"] exI[of _ vs]) simp
  qed (intro exI[of _ "[]"] exI[of _ "x # xs"], simp)
qed (auto simp: Cons_eq_append_conv)

lemma addition_fold:
  "foldm (\<lambda>acc x. (case acc of
                 Some a \<Rightarrow> do { r \<leftarrow> value_add ck fa fb a x; Some (Some r) }
               | None \<Rightarrow> Some (Some x))) (Some (VmValue.I32 z)) (map VmValue.I32 xs) =
    (if ck \<and> (\<exists>us vs. xs = us @ vs \<and> \<not> i32_fits (sint z + sum_list (map sint us))) then None
     else Some (Some (VmValue.I32 (z + sum_list xs))))"
proof (induction xs arbitrary: z)
  case (Cons x xs)
  have ex: "(\<exists>us vs. x # xs = us @ vs \<and> \<not> i32_fits (sint z + sum_list (map sint us))) \<longleftrightarrow>
      (\<exists>us vs. xs = us @ vs \<and> \<not> i32_fits (sint z + sint x + sum_list (map sint us)))"
    by (simp only: ex_prefix_Cons) (simp add: add.assoc)
  show ?case
  proof (cases "ck \<and> \<not> i32_fits (sint z + sint x)")
    case True
    then have "\<exists>us vs. xs = us @ vs \<and> \<not> i32_fits (sint z + sint x + sum_list (map sint us))"
      by (intro exI[of _ "[]"] exI[of _ xs]) simp
    with True show ?thesis unfolding ex by (simp add: int_add_def checked_sadd_i32)
  next
    case False
    then have "int_add ck z x = Some (z + x)" "ck \<Longrightarrow> sint (z + x) = sint z + sint x"
      by (auto simp: int_add_def checked_sadd_i32 sint_add_i32)
    then show ?thesis unfolding ex by (auto simp: Cons.IH add.assoc)
  qed
qed auto

lemma perform_addition_I32:
  "perform_addition ext (Common Add) (map VmValue.I32 xs) =
    (if length xs < 2 \<or> x_overflow_checks ext \<and>
       (\<exists>us vs. rev xs = us @ vs \<and> \<not> i32_fits (sum_list (map sint us))) then None
     else Some [VmValue.I32 (sum_list xs)])"
proof (cases "length xs < 2")
  case False
  then obtain z zs where zs: "rev xs = z # zs" by (cases "rev xs") auto
  have sum: "sum_list xs = z + sum_list zs"
    using zs by (metis sum_list.Cons sum_list.rev)
  have ex: "(\<exists>us vs. rev xs = us @ vs \<and> \<not> i32_fits (sum_list (map sint us))) \<longleftrightarrow>
      (\<exists>us vs. zs = us @ vs \<and> \<not> i32_fits (sint z + sum_list (map sint us)))"
    unfolding zs ex_prefix_Cons by (simp add: i32_fits_def)
  show ?thesis
    using False unfolding ex sum
    by (auto simp: perform_addition_def stack_len_def rev_map zs addition_fold stack_push_def stack_new_def)
qed (simp add: perform_addition_def stack_len_def)

text \<open>
  An \<open>If\<close> whose condition does not hold and that has no \<open>Else\<close> skips nothing: execution goes on
  inside its block, in the frame of the enclosing one.
\<close>

lemma if_false_falls_through:
  assumes "cs \<noteq> []" "fetch f (ip a + 1) = Some ar" "fetch f (ip a + 2) = Some c"
    "from_repr c = Some (Comp Eq)" "perform_comparison (Comp Eq) (rev os) = Some False"
    "fetch_block_len (x_bits ext) f (ip a) = Some n" "fetch f (ip a + n) = Some op"
    "from_repr op \<noteq> Some Instruction.Else"
  shows "handle_begin_block ext If a cs os f argv = Some (a\<lparr>ip := ip a + 3\<rparr>, cs)"
  using assms
  by (simp add: handle_begin_block_def handle_if_block_def COMP_OPS_def stack_len_def increment_def
      numeral_2_eq_2 numeral_3_eq_3)

lemma if_false_takes_else:
  assumes "cs \<noteq> []" "fetch f (ip a + 1) = Some ar" "fetch f (ip a + 2) = Some c"
    "from_repr c = Some (Comp Eq)" "perform_comparison (Comp Eq) (rev os) = Some False"
    "fetch_block_len (x_bits ext) f (ip a) = Some n" "fetch f (ip a + n) = Some op"
    "from_repr op = Some Instruction.Else" "fetch f (ip a + n + 1) = Some 0"
  shows "handle_begin_block ext If a cs os f argv =
    Some (a\<lparr>ip := ip a + n + 2\<rparr>, cs @ [frame_new (Some Else) (Some (a\<lparr>ip := ip a + n\<rparr>)) None])"
  using assms
  by (simp add: handle_begin_block_def handle_if_block_def handle_else_block_def nested_block_def
      COMP_OPS_def stack_len_def stack_push_def increment_def set_ip_def numeral_2_eq_2)

text \<open>The first instruction of a function whose code starts with \<open>Begin\<close> and the arity 0.\<close>

lemma first_begin_step:
  assumes "mi < length (vm_modules vm)" "fi < length (m_functions (vm_modules vm ! mi))"
    "fn_block (m_functions (vm_modules vm ! mi) ! fi) = repr Instruction.Begin # 0 # code"
    "vm_call_stack vm = []"
  shows "vm_step ext argv (at (address_new 0 fi mi) vm) =
    Some (Running (at (address_new 2 fi mi)
      (vm\<lparr>vm_call_stack := [frame_new (Some Begin) None (Some argv)]\<rparr>)))"
  using assms
  by (simp add: vm_step_def exec_begin_def handle_begin_block_def fetch_eq address_new_def
      increment_def stack_len_def stack_push_def at_def numeral_2_eq_2)

end
