(* ===== verification/Vm_Control.thy ===== *)
theory Vm_Control
  imports Vm_Props
begin

text \<open>
  The control flow of the virtual machine: the call stack of a running machine is always a record
  of how execution came to where it is.  Every frame of a block points to the instruction that
  opened it, in the function that is executing it, and every frame of a function points behind a
  \<open>Call\<close> of that function in its caller, down to the function that \<open>execute\<close> was asked for.
  The invariant reads the frames from the top and follows the return addresses from function to
  function.
\<close>

section \<open>Linked frames\<close>

primrec cf_instruction :: "CfOperator \<Rightarrow> Instruction" where
  "cf_instruction Begin = Instruction.Begin"
| "cf_instruction Loop = Instruction.Loop"
| "cf_instruction If = Instruction.If"
| "cf_instruction Else = Instruction.Else"

text \<open>The three bytes before \<open>p\<close> are a \<open>Call\<close> of the function with the index \<open>callee\<close>.\<close>

definition calls :: "Function \<Rightarrow> nat \<Rightarrow> nat \<Rightarrow> bool" where
  "calls f p callee \<longleftrightarrow> 3 \<le> p \<and> do {
     op \<leftarrow> fetch f (p - 3);
     hi \<leftarrow> fetch f (p - 2);
     lo \<leftarrow> fetch f (p - 1);
     idx \<leftarrow> decode_be_u16 [hi, lo];
     Some (from_repr op = Some Call \<and> unat idx = callee)
   } = Some True"

type_synonym link = "CfOperator option \<times> Address option"

definition link_of :: "VmValue Frame \<Rightarrow> link" where
  "link_of frame = (scope_type frame, return_address frame)"

text \<open>
  \<open>frames_linked fs m start cur links\<close>: of the functions \<open>fs\<close> of the module \<open>m\<close> the one with the
  index \<open>cur\<close> is being executed, and the frames, top first, lead back to the function \<open>start\<close>.
\<close>

fun frames_linked :: "Function list \<Rightarrow> nat \<Rightarrow> nat \<Rightarrow> nat \<Rightarrow> link list \<Rightarrow> bool" where
  "frames_linked fs m start cur [] = (cur = start)"
| "frames_linked fs m start cur ((Some bt, None) # links) = (bt = Begin \<and> links = [] \<and> cur = start)"
| "frames_linked fs m start cur ((Some bt, Some r) # links) =
     (module_idx r = m \<and> fun_idx r = cur \<and>
      fetch (fs ! cur) (ip r) = Some (repr (cf_instruction bt)) \<and> frames_linked fs m start cur links)"
| "frames_linked fs m start cur ((None, Some r) # links) =
     (module_idx r = m \<and> fun_idx r < length fs \<and> calls (fs ! fun_idx r) (ip r) cur \<and>
      frames_linked fs m start (fun_idx r) links)"
| "frames_linked fs m start cur ((None, None) # links) = False"

definition links_of :: "VmValue Frame list \<Rightarrow> link list" where
  "links_of cs = rev (map link_of cs)"

definition in_control :: "Function list \<Rightarrow> nat \<Rightarrow> nat \<Rightarrow> Vm \<Rightarrow> bool" where
  "in_control fs m start vm \<longleftrightarrow> (case vm_ip vm of None \<Rightarrow> False
     | Some a \<Rightarrow> module_idx a = m \<and> fun_idx a < length fs \<and>
         frames_linked fs m start (fun_idx a) (links_of (vm_call_stack vm)))"

lemma links_of_simps [simp]:
  "links_of [] = []" "links_of [fr] = [link_of fr]" "links_of (cs @ [fr]) = link_of fr # links_of cs"
  "links_of (cs @ fr # us) = links_of us @ link_of fr # links_of cs"
  by (simp_all add: links_of_def)

lemma link_of_simps [simp]:
  "link_of (frame_new sc ra argv) = (sc, ra)" "link_of (fr\<lparr>locals := ls\<rparr>) = link_of fr"
  by (simp_all add: link_of_def)

lemma link_of_pop_args: "pop_args n fr = Some (buf, fr') \<Longrightarrow> link_of fr' = link_of fr"
  by (simp add: link_of_def pop_args_append(3,4))

lemma linked_tail:
  assumes "frames_linked fs m s cur (us @ links)" "cur < length fs"
  shows "\<exists>cur' < length fs. frames_linked fs m s cur' links"
  using assms
proof (induction us arbitrary: cur)
  case (Cons l us)
  obtain sc ra where "l = (sc, ra)" by force
  with Cons show ?case by (cases sc; cases ra) (auto intro: exI[of _ cur])
qed auto

text \<open>The return address of a frame, and what is frames_linked below it.\<close>

lemma linked_frame:
  assumes "frames_linked fs m s cur (link_of fr # links)" "return_address fr = Some r" "cur < length fs"
  shows "module_idx r = m \<and> fun_idx r < length fs \<and> frames_linked fs m s (fun_idx r) links"
  using assms by (cases "scope_type fr") (auto simp: link_of_def)

lemma linked_function_frame:
  assumes "frames_linked fs m s cur (link_of fr # links)" "scope_type fr = None"
  obtains r where "return_address fr = Some r"
  using assms by (cases "return_address fr") (auto simp: link_of_def)

lemma stack_modify_links:
  assumes "stack_modify g cs = Some (x, cs')" "\<And>fr y fr'. g fr = Some (y, fr') \<Longrightarrow> link_of fr' = link_of fr"
  shows "links_of cs' = links_of cs"
  using assms by (auto simp: stack_modify_iff)

lemma pop_args_links:
  "stack_modify (pop_args n) cs = Some (buf, cs') \<Longrightarrow> links_of cs' = links_of cs"
  by (erule stack_modify_links) (rule link_of_pop_args)

section \<open>The instructions keep the frames frames_linked\<close>

lemma nested_block_links:
  assumes "nested_block bt a n cs = Some cs'"
  shows "links_of cs' = (Some bt, Some a) # links_of cs"
  using assms
  by (auto simp: nested_block_def bind_eq_Some_conv stack_push_def pop_args_links split: if_splits)

lemma handle_begin_block_links:
  assumes "handle_begin_block ext bt a cs os f argv = Some (a', cs')"
    and "frames_linked fs m s (fun_idx a) (links_of cs)" "f = fs ! fun_idx a" "module_idx a = m"
    and "fetch f (ip a) = Some (repr (cf_instruction bt))"
  shows "frames_linked fs m s (fun_idx a) (links_of cs') \<and> fun_idx a' = fun_idx a \<and> module_idx a' = module_idx a"
  using assms
  by (auto simp: handle_begin_block_def handle_if_block_def handle_else_block_def Let_def
      bind_eq_Some_conv stack_push_def stack_len_def from_repr_eq_Some_iff split: if_splits
      dest!: nested_block_links)

lemma exec_begin_control:
  assumes "exec_begin ext bt argv f a vm = Some (Running w)" "vm_ip vm = Some a"
    and "in_control fs m s vm" "f = fs ! fun_idx a"
    and "fetch f (ip a) = Some (repr (cf_instruction bt))"
  shows "in_control fs m s w \<and> vm_modules w = vm_modules vm"
  using assms handle_begin_block_links[of ext bt a "vm_call_stack vm" "vm_operand_stack vm" f argv]
  by (fastforce simp: exec_begin_def in_control_def bind_eq_Some_conv)

lemma exec_call_control:
  assumes "exec_call md f a vm = Some (Running w)" "vm_ip vm = Some a"
    and "in_control (m_functions md) m s vm" "f = m_functions md ! fun_idx a"
    and "fetch f (ip a) = Some (repr Call)"
  shows "in_control (m_functions md) m s w \<and> vm_modules w = vm_modules vm"
proof -
  from assms(1) obtain hi lo idx argv cs where
      b: "fetch f (Suc (ip a)) = Some hi" "fetch f (Suc (Suc (ip a))) = Some lo"
      "decode_be_u16 [hi, lo] = Some idx" "unat idx < length (m_functions md)"
    and pop: "(if fn_arity (m_functions md ! unat idx) = 0 then Some ([], vm_call_stack vm)
        else stack_modify (pop_args (unat (fn_arity (m_functions md ! unat idx)))) (vm_call_stack vm)) =
      Some (argv, cs)"
    and w: "w = at (a\<lparr>ip := 2, fun_idx := unat idx\<rparr>) (vm\<lparr>vm_call_stack :=
       stack_push (frame_new None (Some (increment (increment (increment a)))) (Some argv)) cs\<rparr>)"
    unfolding exec_call_def by (auto simp: numeral_2_eq_2 Let_def bind_eq_Some_conv increment_def)
  from pop have cs: "links_of cs = links_of (vm_call_stack vm)"
    by (auto split: if_splits dest: pop_args_links)
  have "calls f (ip a + 3) (unat idx)"
    using b assms(5) by (simp add: calls_def numeral_3_eq_3 numeral_2_eq_2)
  with assms(2,3,4) b(4) cs show ?thesis
    by (simp add: w in_control_def stack_push_def numeral_3_eq_3)
qed

lemma exec_return_control:
  assumes "exec_return f a vm = Some (Running w)" "vm_ip vm = Some a" "in_control fs m s vm"
  shows "in_control fs m s w \<and> vm_modules w = vm_modules vm"
  using assms(1)
proof (cases rule: exec_return_cases)
  case (1 cs fr n vals fr' ra cs' us)
  obtain callee rest cur where c: "vm_call_stack vm = cs' @ callee # rest" "scope_type callee = None"
      "ra = return_address callee"
    using 1(1,5) by auto
  from assms(2,3) c(1) have "frames_linked fs m s (fun_idx a) (links_of rest @ link_of callee # links_of cs')"
    "fun_idx a < length fs" by (auto simp: in_control_def)
  from linked_tail[OF this] obtain cur where l: "cur < length fs" "frames_linked fs m s cur (link_of callee # links_of cs')"
    by blast
  from linked_function_frame[OF l(2) c(2)] obtain r where r: "return_address callee = Some r" .
  from 1(4) c(3) r linked_frame[OF l(2) r l(1)] show ?thesis
    by (auto simp: return_to_def in_control_def bind_eq_Some_conv dest!: stack_modify_links)
qed

lemma exec_end_control:
  assumes "exec_end ext f a vm = Some (Running w)" "vm_ip vm = Some a" "in_control fs m s vm"
  shows "in_control fs m s w \<and> vm_modules w = vm_modules vm"
proof -
  from assms(1) obtain fr cs r n where cs: "vm_call_stack vm = cs @ [fr]" and r: "return_address fr = Some r"
    and n: "fetch_block_len (x_bits ext) f (ip r) = Some n"
    by (auto simp: exec_end_def Let_def bind_eq_Some_conv stack_pop_iff split: option.split_asm)
  with assms(1) have w: "w = (if scope_type fr = Some Loop
      then at (set_ip (ip r + 2) r) (vm\<lparr>vm_operand_stack := [], vm_call_stack := cs @ [fr]\<rparr>)
      else at (set_ip (ip r + n) r) (vm\<lparr>vm_call_stack := cs, vm_operand_stack := []\<rparr>))"
    by (cases "scope_type fr = Some Loop") (simp_all add: exec_end_def Let_def stack_new_def stack_push_def)
  from assms(2,3) cs have l: "frames_linked fs m s (fun_idx a) (link_of fr # links_of cs)" "fun_idx a < length fs"
    by (auto simp: in_control_def)
  have "frames_linked fs m s (fun_idx r) (link_of fr # links_of cs)" if "scope_type fr = Some Loop"
    using l(1) r that by (auto simp: link_of_def)
  with w linked_frame[OF l(1) r l(2)] show ?thesis by (auto simp: in_control_def)
qed

lemma break_loop_control:
  assumes "break_loop ext f vm = Some (Running w)" "in_control fs m s vm"
  shows "in_control fs m s w \<and> vm_modules w = vm_modules vm"
proof -
  from assms(1) obtain fr cs us r n where c: "vm_call_stack vm = cs @ fr # us" "return_address fr = Some r"
      "w = at (set_ip (ip r + n) r) (vm\<lparr>vm_call_stack := cs, vm_operand_stack := []\<rparr>)"
    by (auto simp: break_loop_def bind_eq_Some_conv stack_new_def dest!: unwind_Some)
  from assms(2) obtain a where "vm_ip vm = Some a" by (auto simp: in_control_def split: option.split_asm)
  with assms(2) c(1) have "frames_linked fs m s (fun_idx a) (links_of us @ link_of fr # links_of cs)"
    "fun_idx a < length fs" by (simp_all add: in_control_def)
  from linked_tail[OF this] obtain cur where l: "cur < length fs" "frames_linked fs m s cur (link_of fr # links_of cs)"
    by blast
  from linked_frame[OF l(2) c(2) l(1)] c(3) show ?thesis by (simp add: in_control_def)
qed

text \<open>Fetching arguments changes the locals of the top frame and the position, nothing else.\<close>

lemma write_back_links:
  assumes "fetch_push_args ext f a vm = Some r"
  shows "links_of (vm_call_stack (write_back (argv_state r) vm)) = links_of (vm_call_stack vm)"
    "fun_idx (a_ip (argv_state r)) = fun_idx a" "module_idx (a_ip (argv_state r)) = module_idx a"
proof -
  from assms obtain fr b n where fr: "stack_peek (vm_call_stack vm) = Some fr"
    and fa: "fetch_argv (x_bits ext) fr (vm_operand_stack vm) b (vm_heap vm) f n = Some r"
    and b: "fun_idx b = fun_idx a" "module_idx b = module_idx a"
    by (auto simp: fetch_push_args_def Let_def bind_eq_Some_conv split: if_splits)
  from fr obtain cs where cs: "vm_call_stack vm = cs @ [fr]"
    by (cases "vm_call_stack vm" rule: rev_cases) auto
  from fetch_argv_rel[OF fa] cs b
  show "links_of (vm_call_stack (write_back (argv_state r) vm)) = links_of (vm_call_stack vm)"
    "fun_idx (a_ip (argv_state r)) = fun_idx a" "module_idx (a_ip (argv_state r)) = module_idx a"
    by (simp_all add: arg_rel_def write_back_def link_of_def)
qed

text \<open>An instruction that keeps the links of the frames, the function and the modules.\<close>

lemma in_control_keep:
  assumes "in_control fs m s vm" "vm_ip vm = Some a" "vm_ip w = Some b"
    and "fun_idx b = fun_idx a" "module_idx b = module_idx a"
    and "links_of (vm_call_stack w) = links_of (vm_call_stack vm)"
  shows "in_control fs m s w"
  using assms by (simp add: in_control_def)

lemma push_argsE:
  assumes "fetch_push_args ext f a vm \<bind> (\<lambda>r. case r of Inr (_, st) \<Rightarrow> k st
      | Inl (err, st) \<Rightarrow> Some (Failed err (write_back st vm))) = Some (Running w)"
  obtains ts st where "fetch_push_args ext f a vm = Some (Inr (ts, st))" "k st = Some (Running w)"
proof -
  from assms obtain q where q: "fetch_push_args ext f a vm = Some q"
    and c: "(case q of Inr (_, st) \<Rightarrow> k st | Inl (err, st) \<Rightarrow> Some (Failed err (write_back st vm))) =
      Some (Running w)"
    by (rule bind_SomeE)
  show thesis
  proof (cases q)
    case (Inr ts)
    with q c that show thesis by (cases ts) simp
  qed (use c in \<open>simp split: prod.split_asm\<close>)
qed

lemma exec_push_operand_control:
  assumes "exec_push_operand ext f a vm = Some (Running w)" "vm_ip vm = Some a" "in_control fs m s vm"
  shows "in_control fs m s w \<and> vm_modules w = vm_modules vm"
proof -
  from assms(1)[unfolded exec_push_operand_def] obtain ts st
    where q: "fetch_push_args ext f a vm = Some (Inr (ts, st))"
      and w: "w = at (increment (a_ip st)) ((write_back st vm)\<lparr>vm_operand_stack :=
       fold stack_push (a_argv st) (vm_operand_stack (write_back st vm))\<rparr>)"
    by (elim push_argsE) (auto simp: Let_def)
  note l = write_back_links[OF q, unfolded argv_state_def sum.case snd_conv]
  have "in_control fs m s w"
    by (rule in_control_keep[OF assms(3,2), of w "increment (a_ip st)"]) (use l in \<open>simp_all add: w\<close>)
  then show ?thesis by (simp add: w write_back_def)
qed

lemma exec_push_local_control:
  assumes "exec_push_local ext f a vm = Some (Running w)" "vm_ip vm = Some a" "in_control fs m s vm"
  shows "in_control fs m s w \<and> vm_modules w = vm_modules vm"
proof -
  from assms(1)[unfolded exec_push_local_def] obtain ts st x cs
    where q: "fetch_push_args ext f a vm = Some (Inr (ts, st))"
      and cs: "stack_modify (\<lambda>frame. Some ((), frame\<lparr>locals := fold stack_push (a_argv st) (locals frame)\<rparr>))
       (vm_call_stack (write_back st vm)) = Some (x, cs)"
      and w: "w = at (increment (a_ip st)) ((write_back st vm)\<lparr>vm_call_stack := cs\<rparr>)"
    by (elim push_argsE) (auto simp: Let_def bind_eq_Some_conv)
  note l = write_back_links[OF q, unfolded argv_state_def sum.case snd_conv]
  from stack_modify_links[OF cs] have "links_of cs = links_of (vm_call_stack (write_back st vm))" by auto
  with l have "in_control fs m s w"
    by (intro in_control_keep[OF assms(3,2), of w "increment (a_ip st)"]) (simp_all add: w)
  then show ?thesis by (simp add: w write_back_def)
qed

lemma exec_simple_control:
  assumes "in_control fs m s vm" "vm_ip vm = Some a"
  shows "exec_pop_operand a vm = Some (Running w) \<Longrightarrow> in_control fs m s w \<and> vm_modules w = vm_modules vm"
    "exec_pop_local a vm = Some (Running w) \<Longrightarrow> in_control fs m s w \<and> vm_modules w = vm_modules vm"
    "exec_pick_local f a vm = Some (Running w) \<Longrightarrow> in_control fs m s w \<and> vm_modules w = vm_modules vm"
    "exec_pick_operand f a vm = Some (Running w) \<Longrightarrow> in_control fs m s w \<and> vm_modules w = vm_modules vm"
    "exec_add ext a vm = Some (Running w) \<Longrightarrow> in_control fs m s w \<and> vm_modules w = vm_modules vm"
    "exec_store check f a vm = Some (Running w) \<Longrightarrow> in_control fs m s w \<and> vm_modules w = vm_modules vm"
    "exec_load check f a vm = Some (Running w) \<Longrightarrow> in_control fs m s w \<and> vm_modules w = vm_modules vm"
  using assms
  by (auto simp: exec_pop_operand_def exec_pop_local_def exec_pick_local_def exec_pick_operand_def
      exec_add_def exec_store_def exec_load_def in_control_def bind_eq_Some_conv Let_def stack_iffs
      fetch_bytes_eq split: if_splits dest!: fetch_coords_Some(3))

lemma exec_store_op_control:
  assumes "exec_store_op op f a vm = Some (Running w)" "in_control fs m s vm" "vm_ip vm = Some a"
  shows "in_control fs m s w \<and> vm_modules w = vm_modules vm"
  using assms exec_simple_control(6)[OF assms(2,3)]
  by (cases op) (auto simp: exec_store_op_def exec_store_defs)

lemma exec_break_if_control:
  assumes "exec_break_if ext f a vm = Some (Running w)" "vm_ip vm = Some a" "in_control fs m s vm"
  shows "in_control fs m s w \<and> vm_modules w = vm_modules vm"
  using assms break_loop_control[of ext f vm w fs m s]
  by (auto simp: exec_break_if_def Let_def bind_eq_Some_conv in_control_def split: if_splits)

section \<open>Runs\<close>

lemma vm_step_control:
  assumes "vm_step ext argv vm = Some (Running w)" "in_control fs m s vm"
    and "m < length (vm_modules vm)" "fs = m_functions (vm_modules vm ! m)"
  shows "in_control fs m s w \<and> vm_modules w = vm_modules vm"
proof -
  let ?md = "vm_modules vm ! m"
  from assms obtain a op where a: "vm_ip vm = Some a" "module_idx a = m" "fun_idx a < length fs"
      "fetch (fs ! fun_idx a) (ip a) = Some op"
    by (auto simp: vm_step_def in_control_def bind_eq_Some_conv split: option.split_asm)
  let ?f = "fs ! fun_idx a"
  have stay: "in_control fs m s (at (increment a) vm)" using assms(2) a(1) by (simp add: in_control_def)
  have look: "index (vm_modules vm) (module_idx a) = Some ?md" "index (m_functions ?md) (fun_idx a) = Some ?f"
    using a assms(3,4) by auto
  show ?thesis
  proof (cases "from_repr op")
    case None
    with assms(1) a look show ?thesis by (simp add: vm_step_def)
  next
    case (Some i)
    then have op: "op = repr i" by (simp add: from_repr_eq_Some_iff)
    note blk = exec_begin_control[OF _ a(1) assms(2) HOL.refl, of ext _ argv w]
    note call = exec_call_control[of ?md ?f a vm w m s]
    note rest = exec_simple_control[OF assms(2) a(1)] exec_return_control[OF _ a(1) assms(2)]
      exec_end_control[OF _ a(1) assms(2)] break_loop_control[OF _ assms(2)]
      exec_break_if_control[OF _ a(1) assms(2)] exec_push_operand_control[OF _ a(1) assms(2)]
      exec_push_local_control[OF _ a(1) assms(2)] exec_store_op_control[OF _ assms(2) a(1)]
    show ?thesis
    proof (cases i)
      case Call
      with assms a look Some op show ?thesis using call by (simp add: vm_step_def)
    next
      case Begin
      with assms(1) a look Some op show ?thesis using blk[of Begin] by (simp add: vm_step_def)
    next
      case Loop
      with assms(1) a look Some op show ?thesis using blk[of Loop] by (simp add: vm_step_def)
    next
      case If
      with assms(1) a look Some op show ?thesis using blk[of If] by (simp add: vm_step_def)
    next
      case (Common c)
      with assms(1) a(1,4) look Some rest(5) show ?thesis by (auto simp: vm_step_def split: CommonOp.split_asm)
    qed (use assms(1) a(1,4) look Some stay in \<open>auto simp: vm_step_def dest: rest\<close>)
  qed
qed

lemma vm_reaches_control:
  assumes "vm_reaches ext argv (at (address_new 0 fi mi) vm) w" "vm_call_stack vm = []"
    and "mi < length (vm_modules vm)" "fi < length (m_functions (vm_modules vm ! mi))"
  shows "in_control (m_functions (vm_modules vm ! mi)) mi fi w \<and> vm_modules w = vm_modules vm"
  using assms(1)
proof (induction rule: vm_reaches.induct)
  case refl
  from assms(2-4) show ?case by (simp add: in_control_def address_new_def)
next
  case (step v w)
  from step.IH have c: "in_control (m_functions (vm_modules vm ! mi)) mi fi v" and v: "vm_modules v = vm_modules vm"
    by simp_all
  from vm_step_control[OF step.hyps(2) c] v assms(3) show ?case by simp
qed

end
