(* ===== verification/Code.thy ===== *)
theory Code
  imports Validator_Props Code_Function Text_Format Virtual_Machine
begin

text \<open>
  The validation of a whole contract, \<open>Code::validate\<close> of \<open>purple_vm/src/code/mod.rs\<close>.
  The result of a part of it is a panic (\<open>None\<close>), a \<open>return false\<close> (\<open>Inl ()\<close>) or the decoded
  data (\<open>Inr\<close>).  \<open>Code(Vec<u8>)\<close> is the list of its bytes; \<open>validate\<close> takes \<open>&mut self\<close> and
  drains that vector, so it returns what is left of it.
\<close>

section \<open>Reading\<close>

definition require ::
  "(unit + 'a) option \<Rightarrow> ('a \<Rightarrow> (unit + 'b) option) \<Rightarrow> (unit + 'b) option" where
  "require m k = do { r \<leftarrow> m; (case r of Inl _ \<Rightarrow> Some (Inl ()) | Inr x \<Rightarrow> k x) }"

text \<open>\<open>match cursor.read_..() { Ok(r) => r, _ => return false }\<close> at a position of the buffer.\<close>

definition read_u8_at :: "nat \<Rightarrow> u8 list \<Rightarrow> (unit + u8) option" where
  "read_u8_at p bs = Some (if p < length bs then Inr (bs ! p) else Inl ())"

definition read_u16_at :: "nat \<Rightarrow> u8 list \<Rightarrow> (unit + u16) option" where
  "read_u16_at p bs = Some (case read_be 2 (drop p bs) of Some r \<Rightarrow> Inr r | None \<Rightarrow> Inl ())"

definition ensure :: "bool \<Rightarrow> (unit + unit) option" where
  "ensure b = Some (if b then Inr () else Inl ())"

definition lift :: "'a option \<Rightarrow> (unit + 'a) option" where
  "lift m = map_option Inr m"

definition or_false :: "'a option \<Rightarrow> (unit + 'a) option" where
  "or_false m = Some (case m of Some x \<Rightarrow> Inr x | None \<Rightarrow> Inl ())"

definition VM_VERSION :: u8 where
  "VM_VERSION = 1"

section \<open>The imports section\<close>

definition split_imports :: "u8 list \<Rightarrow> (unit + u8 list \<times> u8 list) option" where
  "split_imports imports_section =
     require (read_u16_at 0 imports_section) (\<lambda>addresses_len.
     require (ensure (unat addresses_len mod 33 = 0)) (\<lambda>_.
     require (read_u16_at 2 imports_section) (\<lambda>imports_len.
     require (lift (drain 4 imports_section)) (\<lambda>(_, buf).
     require (ensure (unat addresses_len < length buf)) (\<lambda>_.
     require (lift (drain (unat imports_len) buf)) (\<lambda>(encoded_addresses, buf).
     require (ensure (length buf = unat imports_len)) (\<lambda>_.
     require (lift (drain (unat imports_len) buf)) (\<lambda>(encoded_imports, _).
       Some (Inr (encoded_addresses, encoded_imports))))))))))"

function decode_addresses :: "u8 list \<Rightarrow> u8 list list \<Rightarrow> (unit + u8 list list) option" where
  "decode_addresses encoded addresses =
     (if encoded = [] then Some (Inr addresses)
      else (case drain 33 encoded of
          None \<Rightarrow> None
        | Some (result, rest) \<Rightarrow>
            if result ! 0 \<noteq> 0x04 then Some (Inl ())
            else decode_addresses rest (addresses @ [result])))"
  by pat_completeness auto
termination
  by (relation "measure (\<lambda>(encoded, _). length encoded)") auto

text \<open>One entry: the import and what follows it.  \<open>addresses.len() - 1\<close> underflows on 0.\<close>

definition decode_import :: "nat \<Rightarrow> u8 list \<Rightarrow> (unit + Import \<times> u8 list) option" where
  "decode_import n_addresses encoded =
     require (read_u8_at 0 encoded) (\<lambda>function_name_len.
     require (read_u16_at 1 encoded) (\<lambda>address_idx.
     require (if n_addresses = 0 then None else ensure (unat address_idx \<le> n_addresses - 1)) (\<lambda>_.
     require (lift (drain 3 encoded)) (\<lambda>(_, buf).
     require (ensure (unat function_name_len \<le> length buf)) (\<lambda>_.
     require (lift (drain (unat function_name_len) buf)) (\<lambda>(result, rest).
     require (or_false (from_utf8 result)) (\<lambda>name.
       Some (Inr (\<lparr>addr_idx = address_idx, function_name = name\<rparr>, rest)))))))))"

lemma require_Inr:
  "require m k = Some (Inr y) \<longleftrightarrow> (\<exists>x. m = Some (Inr x) \<and> k x = Some (Inr y))"
  by (auto simp: require_def bind_eq_Some_conv split: sum.split_asm)

lemma check_Inr [simp]:
  "ensure b = Some (Inr u) \<longleftrightarrow> b"
  "lift m = Some (Inr x) \<longleftrightarrow> m = Some x"
  "or_false m = Some (Inr x) \<longleftrightarrow> m = Some x"
  "read_u8_at p bs = Some (Inr byte) \<longleftrightarrow> p < length bs \<and> bs ! p = byte"
  "read_u16_at p bs = Some (Inr w) \<longleftrightarrow> read_be 2 (drop p bs) = Some w"
  by (auto simp: ensure_def lift_def or_false_def read_u8_at_def read_u16_at_def split: option.split)

lemma decode_import_shorter:
  "decode_import n bs = Some (Inr (i, rest)) \<Longrightarrow> length rest < length bs"
  by (auto simp: decode_import_def require_Inr)

function decode_imports :: "nat \<Rightarrow> u8 list \<Rightarrow> Import list \<Rightarrow> (unit + Import list) option" where
  "decode_imports n_addresses encoded imps =
     (if encoded = [] then Some (Inr imps)
      else (case decode_import n_addresses encoded of
          None \<Rightarrow> None
        | Some (Inl _) \<Rightarrow> Some (Inl ())
        | Some (Inr (i, rest)) \<Rightarrow> decode_imports n_addresses rest (imps @ [i])))"
  by pat_completeness auto
termination
  by (relation "measure (\<lambda>(_, encoded, _). length encoded)") (auto dest: decode_import_shorter)

section \<open>The functions section\<close>

definition decode_function :: "bits_get \<Rightarrow> u8 list \<Rightarrow> (unit + Function \<times> u8 list) option" where
  "decode_function bits_get section_bytes =
     require (read_u8_at 0 section_bytes) (\<lambda>function_name_len.
     require (read_u8_at 1 section_bytes) (\<lambda>arity.
     require (read_u8_at 2 section_bytes) (\<lambda>return_byte.
     require (or_false (from_op return_byte)) (\<lambda>return_type.
     require (read_u16_at 3 section_bytes) (\<lambda>block_len.
     require (lift (drain 5 section_bytes)) (\<lambda>(_, buf).
     require (ensure (unat function_name_len < length buf)) (\<lambda>_.
     require (lift (drain (unat function_name_len) buf)) (\<lambda>(result, buf).
     require (or_false (from_utf8 result)) (\<lambda>name.
     require (ensure (unat arity < length buf)) (\<lambda>_.
     require (lift (drain (unat function_name_len) buf)) (\<lambda>(type_bytes, buf).
     require (or_false (those (map from_op type_bytes))) (\<lambda>arguments.
     require (ensure (unat block_len \<le> length buf)) (\<lambda>_.
     require (lift (drain (unat block_len) buf)) (\<lambda>(code, rest).
     require (lift (validate_block bits_get code return_type arguments)) (\<lambda>ok.
     require (ensure ok) (\<lambda>_.
       Some (Inr (\<lparr>fn_arity = arity, fn_block = code, fn_name = name, fn_arguments = arguments,
         fn_return_type = Some return_type\<rparr>, rest))))))))))))))))))"

lemma decode_function_shorter:
  "decode_function g bs = Some (Inr (f, rest)) \<Longrightarrow> length rest < length bs"
  by (auto simp: decode_function_def require_Inr)

function decode_functions :: "bits_get \<Rightarrow> u8 list \<Rightarrow> Function list \<Rightarrow> (unit + Function list) option" where
  "decode_functions bits_get section_bytes funs =
     (if section_bytes = [] then Some (Inr funs)
      else (case decode_function bits_get section_bytes of
          None \<Rightarrow> None
        | Some (Inl _) \<Rightarrow> Some (Inl ())
        | Some (Inr (f, rest)) \<Rightarrow> decode_functions bits_get rest (funs @ [f])))"
  by pat_completeness auto
termination
  by (relation "measure (\<lambda>(_, bs, _). length bs)") (auto dest: decode_function_shorter)

text \<open>\<open>iter.all(|x| uniq.insert(x))\<close>\<close>

fun unique_from :: "'a set \<Rightarrow> 'a list \<Rightarrow> bool" where
  "unique_from uniq [] = True"
| "unique_from uniq (x # xs) = (x \<notin> uniq \<and> unique_from (insert x uniq) xs)"

definition has_unique_elements :: "'a list \<Rightarrow> bool" where
  "has_unique_elements xs = unique_from {} xs"

section \<open>The contract\<close>

definition validate_sections :: "bits_get \<Rightarrow> u8 list \<Rightarrow> u8 list \<Rightarrow> (unit + unit) option" where
  "validate_sections bits_get imports_section functions_section =
     require (split_imports imports_section) (\<lambda>(encoded_addresses, encoded_imports).
     require (decode_addresses encoded_addresses []) (\<lambda>addresses.
     require (decode_imports (length addresses) encoded_imports []) (\<lambda>imps.
     require (decode_functions bits_get functions_section []) (\<lambda>funs.
       ensure (has_unique_elements (map function_name imps) \<and> has_unique_elements (map fn_name funs))))))"

definition to_bool :: "(unit + unit) option \<Rightarrow> bool option" where
  "to_bool r = map_option (\<lambda>x. case x of Inl _ \<Rightarrow> False | Inr _ \<Rightarrow> True) r"

definition validate :: "bits_get \<Rightarrow> u8 list \<Rightarrow> (bool \<times> u8 list) option" where
  "validate bits_get code =
     (if length code = 0 then Some (False, code)
      else if code ! 0 \<noteq> VM_VERSION then Some (False, code)
      else (case (read_be 2 (drop 1 code), read_be 2 (drop 3 code)) of
          (Some imports_len, Some functions_len) \<Rightarrow>
            if (imports_len :: u16) = 0 \<or> (functions_len :: u16) = 0 then Some (False, code)
            else do {
              (_, buf) \<leftarrow> drain 5 code;
              if \<not> unat imports_len < length buf then Some (False, buf)
              else do {
                (imports_section, buf) \<leftarrow> drain (unat imports_len) buf;
                if length buf \<noteq> unat functions_len then Some (False, buf)
                else do {
                  (functions_section, buf) \<leftarrow> drain (unat functions_len) buf;
                  ok \<leftarrow> to_bool (validate_sections bits_get imports_section functions_section);
                  Some (ok, buf)
                }
              }
            }
        | _ \<Rightarrow> Some (False, code)))"

section \<open>Properties\<close>

declare decode_addresses.simps [simp del] decode_imports.simps [simp del]
  decode_functions.simps [simp del]

lemma unique_from_iff: "unique_from uniq xs \<longleftrightarrow> distinct xs \<and> set xs \<inter> uniq = {}"
  by (induction xs arbitrary: uniq) auto

lemma has_unique_elements_iff: "has_unique_elements xs \<longleftrightarrow> distinct xs"
  by (simp add: has_unique_elements_def unique_from_iff)

lemma length_those: "those xs = Some ys \<Longrightarrow> length ys = length xs"
  by (induction xs arbitrary: ys) (auto split: option.splits)

text \<open>What every decoded function satisfies, its argument list included.\<close>

definition function_ok :: "bits_get \<Rightarrow> Function \<Rightarrow> bool" where
  "function_ok g f \<longleftrightarrow> (\<exists>t. fn_return_type f = Some t \<and>
     validate_block g (fn_block f) t (fn_arguments f) = Some True) \<and>
     length (fn_arguments f) = length (as_bytes (fn_name f))"

lemma decode_function_ok:
  assumes "decode_function g bs = Some (Inr (f, rest))"
  shows "function_ok g f"
  using assms
  by (auto simp: decode_function_def require_Inr function_ok_def
      dest!: length_those as_bytes_from_utf8)

lemma decode_functions_ok:
  assumes "decode_functions g bs funs = Some (Inr fs)" "list_all (function_ok g) funs"
  shows "list_all (function_ok g) fs"
  using assms
proof (induction g bs funs rule: decode_functions.induct)
  case (1 g bs funs)
  show ?case
  proof (cases "bs = []")
    case True
    with "1.prems" show ?thesis by (simp add: decode_functions.simps)
  next
    case False
    with "1.prems"(1) obtain f rest where f: "decode_function g bs = Some (Inr (f, rest))"
      and r: "decode_functions g rest (funs @ [f]) = Some (Inr fs)"
      by (subst (asm) decode_functions.simps) (auto split: option.split_asm sum.split_asm prod.split_asm)
    from "1.IH"[OF False f _ _ r] decode_function_ok[OF f] "1.prems"(2) show ?thesis by simp
  qed
qed

lemma read_u16_prefix:
  assumes "read_be 2 bs = Some (w :: u16)"
  shows "bs = encode_be_u16 w @ drop 2 bs" "2 \<le> length bs"
proof -
  from assms have d: "decode_be_u16 bs = Some w" by (simp add: decode_be_u16_def)
  from be_u16.enc_dec[OF d] show "bs = encode_be_u16 w @ drop 2 bs" by simp
  from assms show "2 \<le> length bs" by (simp add: read_be_def split: if_splits)
qed

lemma read_u16_encoded: "read_be 2 (encode_be_u16 w @ bs) = Some w"
  using be_u16.dec_enc[of w bs] by (simp add: decode_be_u16_def)

text \<open>The documented frame of a contract: version, two lengths, two sections, nothing else.\<close>

definition contract :: "u8 list \<Rightarrow> u8 list \<Rightarrow> u8 list" where
  "contract imps funs = VM_VERSION # encode_be_u16 (of_nat (length imps)) @
     encode_be_u16 (of_nat (length funs)) @ imps @ funs"

definition section_size :: "u8 list \<Rightarrow> bool" where
  "section_size bs \<longleftrightarrow> bs \<noteq> [] \<and> length bs < 2 ^ 16"

lemma validate_contract:
  assumes "section_size imps" "section_size funs"
  shows "validate g (contract imps funs) =
    map_option (\<lambda>ok. (ok, [])) (to_bool (validate_sections g imps funs))"
proof -
  let ?il = "of_nat (length imps) :: u16" and ?fl = "of_nat (length funs) :: u16"
  have il: "unat ?il = length imps" "?il \<noteq> 0" and fl: "unat ?fl = length funs" "?fl \<noteq> 0"
    using assms by (auto simp: section_size_def unat_of_nat of_nat_eq_0_iff simp flip: unat_eq_zero)
  have w: "length (encode_be_u16 w) = 2" for w by (rule be_u16.enc_width)
  have r1: "read_be 2 (drop 1 (contract imps funs)) = Some ?il"
    by (simp add: contract_def read_u16_encoded)
  have "drop 3 (contract imps funs) = drop 2 (encode_be_u16 ?il @ encode_be_u16 ?fl @ imps @ funs)"
    by (simp add: contract_def numeral_3_eq_3 numeral_2_eq_2)
  then have r2: "read_be 2 (drop 3 (contract imps funs)) = Some ?fl"
    by (simp add: w read_u16_encoded)
  have "drop 5 (contract imps funs) = drop 4 (encode_be_u16 ?il @ encode_be_u16 ?fl @ imps @ funs)"
    by (simp add: contract_def eval_nat_numeral)
  then have d5: "drop 5 (contract imps funs) = imps @ funs" by (simp add: w)
  then have df: "drop (length imps + 5) (contract imps funs) = funs"
    by (metis append_eq_conv_conj drop_drop)
  have lc: "length (contract imps funs) = 5 + length imps + length funs" by (simp add: contract_def w)
  have "contract imps funs \<noteq> []" "contract imps funs ! 0 = VM_VERSION" by (simp_all add: contract_def)
  then show ?thesis
    using assms(2) il fl r1 r2 d5 df lc
    by (cases "to_bool (validate_sections g imps funs)") (simp_all add: validate_def section_size_def)
qed

lemma validate_True:
  assumes "validate g code = Some (True, rest)"
  obtains imps funs where "code = contract imps funs" "section_size imps" "section_size funs"
    "validate_sections g imps funs = Some (Inr ())" "rest = []"
proof -
  from assms obtain il fl :: u16 where v: "code \<noteq> []" "code ! 0 = VM_VERSION"
    and r: "read_be 2 (drop 1 code) = Some il" "read_be 2 (drop 3 code) = Some fl"
    and nz: "il \<noteq> 0" "fl \<noteq> 0"
    by (auto simp: validate_def split: if_splits option.split_asm prod.split_asm)
  define buf where "buf = drop 5 code"
  from read_u16_prefix(2)[OF r(2)] have l5: "5 \<le> length code" by simp
  with assms v r nz have len: "unat il < length buf" "length buf = unat il + unat fl"
    and s: "to_bool (validate_sections g (take (unat il) buf) (drop (unat il) buf)) = Some True"
    and rest: "rest = []"
    by (auto simp: validate_def buf_def bind_eq_Some_conv split: if_splits)
  let ?i = "take (unat il) buf" and ?f = "drop (unat il) buf"
  have "code = VM_VERSION # drop 1 code" using v by (cases code) auto
  also have "drop 1 code = encode_be_u16 il @ drop 3 code"
    using read_u16_prefix(1)[OF r(1)] by simp
  also have "drop 3 code = encode_be_u16 fl @ buf"
    using read_u16_prefix(1)[OF r(2)] by (simp add: buf_def)
  finally have "code = contract ?i ?f"
    using len by (simp add: contract_def)
  moreover have "section_size ?i" "section_size ?f"
    using len nz unsigned_less[of il, where 'a = nat] unsigned_less[of fl, where 'a = nat]
    by (auto simp: section_size_def unat_eq_zero simp flip: length_0_conv)
  moreover from s have "validate_sections g ?i ?f = Some (Inr ())"
    by (cases "validate_sections g ?i ?f") (auto simp: to_bool_def split: sum.split_asm)
  ultimately show thesis using rest by (intro that)
qed

lemma validate_empty: "validate g [] = Some (False, [])"
  by (simp add: validate_def)

lemma validate_sections_True:
  assumes "validate_sections g imps funs = Some (Inr ())"
  obtains addrs entries ads ims fs where "split_imports imps = Some (Inr (addrs, entries))"
    "decode_addresses addrs [] = Some (Inr ads)" "decode_imports (length ads) entries [] = Some (Inr ims)"
    "decode_functions g funs [] = Some (Inr fs)"
    "distinct (map function_name ims)" "distinct (map fn_name fs)" "list_all (function_ok g) fs"
  using assms decode_functions_ok[of g funs "[]"]
  by (auto simp: validate_sections_def require_Inr has_unique_elements_iff)

text \<open>
  The address field is cut with the length of the other field: whatever the declared lengths,
  both fields have the same size.
\<close>

lemma split_imports_halves:
  assumes "split_imports imps = Some (Inr (addrs, entries))"
  shows "length addrs = length entries"
  using assms by (auto simp: split_imports_def require_Inr)

lemma documented_imports_rejected:
  assumes "length addrs = unat al" "length data = unat dl" "al \<noteq> dl"
  shows "split_imports (encode_be_u16 al @ encode_be_u16 dl @ addrs @ data) \<noteq> Some (Inr r)"
proof
  let ?b = "encode_be_u16 al @ encode_be_u16 dl @ addrs @ data"
  assume h: "split_imports ?b = Some (Inr r)"
  have w: "length (encode_be_u16 x) = 2" for x by (rule be_u16.enc_width)
  have r1: "read_be 2 ?b = Some al" by (rule read_u16_encoded)
  have r2: "read_be 2 (drop 2 ?b) = Some dl" by (simp add: w read_u16_encoded)
  from h r1 r2 have "length (drop (unat dl) (addrs @ data)) = unat dl"
    by (auto simp: split_imports_def require_Inr w)
  with assms(1,2) have "unat al = unat dl" by simp
  with assms(3) show False by (simp add: word_unat_eq_iff)
qed

end
