(* ===== verification/Contract_Theorems.thy ===== *)
theory Contract_Theorems
  imports Validator_Props Vm_Control Code
begin

text \<open>The properties of \<open>purple_vm\<close>: execution, the validator, contracts and modules.\<close>

section \<open>Sample inputs\<close>

text \<open>
  Concrete inputs for the witnesses.  \<open>sample_bits\<close> reads bits from the least significant one;
  \<open>sample_ext\<close> instantiates the code outside the repository.
\<close>

definition sample_bits :: bits_get where
  "sample_bits b i = (if i < 8 then Some (bit b (unat i)) else None)"

definition sample_ext :: "unit vm_ext" where
  "sample_ext = \<lparr>x_bits = sample_bits, x_overflow_checks = True, x_fadd32 = (\<lambda>a b. a), x_fadd64 = (\<lambda>a b. a),
     x_parse = (\<lambda>_. Some ())\<rparr>"

definition sample_fun :: "u8 list \<Rightarrow> Function" where
  "sample_fun code = \<lparr>fn_arity = 0, fn_block = code, fn_name = ''main'', fn_arguments = [],
     fn_return_type = None\<rparr>"

definition sample_module :: "u8 list \<Rightarrow> Module" where
  "sample_module code = \<lparr>module_hash = [0], m_functions = [sample_fun code], m_imports = []\<rparr>"

definition sample_vm :: "u8 list \<Rightarrow> Vm" where
  "sample_vm code = vm_new\<lparr>vm_modules := [sample_module code]\<rparr>"

definition sample_begun :: "u8 list \<Rightarrow> Vm" where
  "sample_begun code = at (address_new 2 0 0)
     ((sample_vm code)\<lparr>vm_call_stack := [frame_new (Some Begin) None (Some [])]\<rparr>)"

definition sample_frame :: "CfOperator option \<Rightarrow> VmValue list \<Rightarrow> VmValue Frame" where
  "sample_frame sc vs = frame_new sc (Some (address_new 7 0 0)) (Some vs)"

definition sample_contract :: "u8 list" where
  "sample_contract = [1, 0, 70, 0, 9] @ [0, 33, 0, 33] @ 4 # replicate 32 0 @ [30, 0, 0] @ replicate 30 97 @
     [0, 0, 96, 0, 4, 2, 0, 1, 6]"

definition sample_recursion :: "u8 list" where
  "sample_recursion = [2, 0, repr Call, 0, 0, 6]"

definition sample_called :: "u8 list \<Rightarrow> Vm" where
  "sample_called code = at (address_new 2 0 0) ((sample_vm code)\<lparr>vm_call_stack :=
     [frame_new (Some Begin) None (Some []), frame_new None (Some (address_new 5 0 0)) (Some [])]\<rparr>)"

lemma sample_vm_ok: "vm_ok (sample_vm code)"
  using vm_new_ok(1) by (simp add: vm_ok_def sample_vm_def)

lemma sample_vm_simps [simp]:
  "vm_modules (sample_vm code) = [sample_module code]" "vm_call_stack (sample_vm code) = []"
  "m_functions (sample_module code) = [sample_fun code]" "fn_block (sample_fun code) = code"
  by (simp_all add: sample_vm_def sample_module_def sample_fun_def)

lemma sample_begin:
  "vm_step ext [] (at (address_new 0 0 0) (sample_vm (2 # 0 # code))) = Some (Running (sample_begun (2 # 0 # code)))"
  using first_begin_step[of 0 "sample_vm (2 # 0 # code)" 0 code ext "[]"] by (simp add: sample_begun_def)

lemma sample_call:
  "vm_step ext [] (sample_begun sample_recursion) = Some (Running (sample_called sample_recursion))"
proof -
  have d: "decode_be_u16 [0, 0] = Some 0" by code_simp
  have f: "sample_fun sample_recursion = sample_fun [2, 0, repr Call, 0, 0, 6]" "fn_arity (sample_fun code) = 0" for code
    by (simp_all add: sample_recursion_def sample_fun_def)
  show ?thesis
    by (simp add: vm_step_def exec_call_def sample_begun_def sample_called_def f d fetch_eq address_new_def
        numeral_2_eq_2 Let_def increment_def stack_push_def at_def)
qed

lemma sample_halt:
  "vm_step ext argv (sample_begun [2, 0, 0]) = Some (Halted (sample_begun [2, 0, 0]))"
  by (simp add: vm_step_def sample_begun_def fetch_eq address_new_def)

lemma sample_execute:
  "execute sample_ext 2 (sample_vm [2, 0, 0]) 0 0 [] = Some (Ok (Gas ()) (reset (sample_begun [2, 0, 0])))"
  by (simp add: execute_def sample_begin sample_halt numeral_2_eq_2 gas_zero sample_ext_def)

section \<open>The virtual machine\<close>

text \<open>
  C1.  Control flow integrity.  Let \<open>execute\<close> start a function of a loaded module with an empty call
  stack.  In every state that its loop goes through, the machine executes a function of that module,
  and the frames on its call stack lead back to the function it was started with: the frame of a
  block points to the \<open>Begin\<close>, \<open>Loop\<close>, \<open>If\<close> or \<open>Else\<close> that opened it, in the function that is being
  executed at that depth; the frame of a function points behind a \<open>Call\<close> in its caller whose operand
  is the index of this function; and only a \<open>Begin\<close> at the bottom, of the function started, has no
  return address.  So \<open>Return\<close>, \<open>End\<close> and \<open>Break\<close> never go anywhere but back into a function that
  is being executed.
\<close>

theorem frames_record_control_flow:
  assumes "vm_reaches ext argv (at (address_new 0 fi mi) vm) w" "vm_call_stack vm = []"
    and "mi < length (vm_modules vm)" "fi < length (m_functions (vm_modules vm ! mi))"
  shows "in_control (m_functions (vm_modules vm ! mi)) mi fi w \<and> vm_modules w = vm_modules vm"
  using assms by (rule vm_reaches_control)

theorem frames_record_control_flow_witness:
  "vm_reaches sample_ext [] (at (address_new 0 0 0) (sample_vm sample_recursion)) (sample_called sample_recursion) \<and>
   links_of (vm_call_stack (sample_called sample_recursion)) =
     [(None, Some (address_new 5 0 0)), (Some Begin, None)] \<and>
   in_control [sample_fun sample_recursion] 0 0 (sample_called sample_recursion)"
proof -
  have r: "vm_reaches sample_ext [] (at (address_new 0 0 0) (sample_vm sample_recursion)) (sample_called sample_recursion)"
    by (rule vm_reaches.step[OF vm_reaches.step[OF vm_reaches.refl] sample_call])
      (simp add: sample_recursion_def sample_begin)
  with frames_record_control_flow[OF r] show ?thesis by (simp add: sample_called_def links_of_def link_of_def)
qed

text \<open>
  C2.  When \<open>execute\<close> returns \<open>Ok\<close>, the machine is ready for the next call: no instruction
  pointer, both stacks empty, the modules unchanged, and the state still well formed.
\<close>

theorem execute_ok_resets:
  assumes "execute ext fuel vm mi fi argv = Some (Ok g vm')"
    and "list_all wf_value argv" "vm_ok vm"
  shows "vm_ip vm' = None \<and> vm_call_stack vm' = [] \<and> vm_operand_stack vm' = [] \<and>
    vm_modules vm' = vm_modules vm \<and> vm_ok vm'"
  using assms by (rule execute_Ok)

theorem execute_ok_resets_witness:
  "execute sample_ext 2 (sample_vm [2, 0, 0]) 0 0 [] = Some (Ok (Gas ()) (reset (sample_begun [2, 0, 0]))) \<and>
   vm_call_stack (reset (sample_begun [2, 0, 0])) = []"
  using execute_ok_resets[OF sample_execute _ sample_vm_ok] sample_execute by simp

text \<open>
  C3.  The errors of \<open>execute\<close>, whatever the code does.  It returns \<open>NotLoaded\<close> exactly when the
  module index is out of range and \<open>NotDefined\<close> exactly when the function index is, both times
  without touching the machine.  Apart from these there is only \<open>Overflow\<close>: a run of some length
  ends with it exactly when the machine reaches a narrow load, a narrow store or a push that fails
  with it, and the machine is then left as that instruction left it.
\<close>

theorem execute_errors:
  "(execute ext fuel vm mi fi argv = Some (Err NotLoaded vm') \<longleftrightarrow> length (vm_modules vm) \<le> mi \<and> vm' = vm) \<and>
   (execute ext fuel vm mi fi argv = Some (Err NotDefined vm') \<longleftrightarrow>
      mi < length (vm_modules vm) \<and> length (m_functions (vm_modules vm ! mi)) \<le> fi \<and> vm' = vm) \<and>
   ((\<exists>n. execute ext n vm mi fi argv = Some (Err e vm')) \<and> e \<notin> {NotLoaded, NotDefined} \<longleftrightarrow>
      e = Overflow \<and> mi < length (vm_modules vm) \<and> fi < length (m_functions (vm_modules vm ! mi)) \<and>
      (\<exists>v i. vm_reaches ext argv (at (address_new 0 fi mi) vm) v \<and> current_instruction v = Some i \<and>
        may_overflow i \<and> vm_step ext argv v = Some (Failed Overflow vm')))"
proof (intro conjI)
  let ?v = "at (address_new 0 fi mi) vm"
  have not: "vm_run ext argv n ?v \<noteq> Some (Failed e w)" if "e \<noteq> Overflow" for n e w
    using that vm_run_Failed vm_step_Failed by blast
  show "execute ext fuel vm mi fi argv = Some (Err NotLoaded vm') \<longleftrightarrow> length (vm_modules vm) \<le> mi \<and> vm' = vm"
    "execute ext fuel vm mi fi argv = Some (Err NotDefined vm') \<longleftrightarrow>
      mi < length (vm_modules vm) \<and> length (m_functions (vm_modules vm ! mi)) \<le> fi \<and> vm' = vm"
    unfolding execute_Err_iff using not by auto
  have "(\<exists>n. execute ext n vm mi fi argv = Some (Err e vm')) \<and> e \<notin> {NotLoaded, NotDefined} \<longleftrightarrow>
      e = Overflow \<and> mi < length (vm_modules vm) \<and> fi < length (m_functions (vm_modules vm ! mi)) \<and>
      (\<exists>n. vm_run ext argv n ?v = Some (Failed e vm'))"
    unfolding execute_Err_iff using not by auto
  then show "(\<exists>n. execute ext n vm mi fi argv = Some (Err e vm')) \<and> e \<notin> {NotLoaded, NotDefined} \<longleftrightarrow>
      e = Overflow \<and> mi < length (vm_modules vm) \<and> fi < length (m_functions (vm_modules vm ! mi)) \<and>
      (\<exists>v i. vm_reaches ext argv ?v v \<and> current_instruction v = Some i \<and>
        may_overflow i \<and> vm_step ext argv v = Some (Failed Overflow vm'))"
    unfolding vm_run_Failed_iff using vm_step_Failed by blast
qed

text \<open>
  The fuel of the model is only a bound on the length of the run: a result other than
  running out of it is the same for every larger fuel.
\<close>

theorem execute_fuel_irrelevant:
  assumes "execute ext m vm mi fi argv = r" "\<forall>w. r \<noteq> Some (Timeout w)" "m \<le> n"
  shows "execute ext n vm mi fi argv = r"
proof (cases "mi < length (vm_modules vm) \<and> fi < length (m_functions (vm_modules vm ! mi))")
  case True
  let ?v = "at (address_new 0 fi mi) vm"
  have "vm_run ext argv m ?v \<noteq> Some (Running w)" for w
    using assms(1,2) True by (auto simp: execute_def)
  with vm_run_more_fuel[OF _ _ assms(3), of ext argv ?v] have "vm_run ext argv n ?v = vm_run ext argv m ?v"
    by blast
  then show ?thesis unfolding assms(1)[symmetric] by (simp add: execute_def)
next
  case False
  with assms(1) show ?thesis by (auto simp: execute_def)
qed

theorem execute_fuel_irrelevant_witness:
  "execute sample_ext 1000 (sample_vm [2, 0, 0]) 0 0 [] = Some (Ok (Gas ()) (reset (sample_begun [2, 0, 0])))"
  by (rule execute_fuel_irrelevant[OF sample_execute]) simp_all

text \<open>
  C4.  \<open>Return\<close>: the frames of the blocks inside the called function and the frame of the
  function itself are dropped, the number of top locals that the operand names is appended to the
  caller's locals in their order, the operand stack is cleared, and execution continues at the
  return address of the called function, however deeply the blocks were nested.
\<close>

theorem return_hands_values_to_caller:
  assumes "vm_call_stack vm = cs @ [caller, callee] @ us"
    and "scope_type callee = None" "return_address callee = Some r"
    and "\<forall>u \<in> set us. scope_type u \<noteq> None"
    and "fetch f (ip a + 1) = Some n" "locals (last (callee # us)) = ls @ vals" "length vals = unat n"
  shows "exec_return f a vm = Some (Running (at r (vm\<lparr>
    vm_call_stack := cs @ [caller\<lparr>locals := locals caller @ vals\<rparr>], vm_operand_stack := []\<rparr>)))"
  using assms by (rule exec_return_spec)

theorem return_hands_values_to_caller_witness:
  "exec_return (sample_fun [repr Return, 1]) (address_new 0 0 0)
     (vm_new\<lparr>vm_call_stack := [sample_frame None [], sample_frame None [], sample_frame (Some Loop) [VmValue.I32 4, VmValue.I32 5]]\<rparr>) =
   Some (Running (at (address_new 7 0 0) (vm_new\<lparr>vm_call_stack := [sample_frame None [VmValue.I32 5]]\<rparr>)))"
proof -
  let ?l = "sample_frame (Some Loop) [VmValue.I32 4, VmValue.I32 5]"
  let ?vm = "vm_new\<lparr>vm_call_stack := [sample_frame None [], sample_frame None [], ?l]\<rparr>"
  have "exec_return (sample_fun [repr Return, 1]) (address_new 0 0 0) ?vm = Some (Running (at (address_new 7 0 0)
     (?vm\<lparr>vm_call_stack := [] @ [(sample_frame None [])\<lparr>locals := locals (sample_frame None []) @ [VmValue.I32 5]\<rparr>],
        vm_operand_stack := []\<rparr>)))"
    by (rule return_hands_values_to_caller[where callee = "sample_frame None []" and us = "[?l]" and n = 1
          and ls = "[VmValue.I32 4]"])
      (simp_all add: sample_frame_def frame_new_def address_new_def fetch_eq stack_push_def stack_new_def)
  then show ?thesis by (simp add: sample_frame_def frame_new_def vm_new_def stack_push_def stack_new_def)
qed

text \<open>
  C5.  Reading back a stored value, for every store and every load instruction.  After a store of a
  value to a cell, a full-width load from the same cell restores the operand stack as it was before
  the store, empties the cell and leaves every other cell as it was.  A narrow load does so only if
  the value, a number of its type, is \<^emph>\<open>outside\<close> the range the load is named after; if the value is
  within the range the load fails with \<open>Overflow\<close>, and if it is not of its type the machine panics.
\<close>

theorem store_then_load:
  assumes "exec_store_op sop f a vm = Some (Running vm1)"
    and "fetch_coords f a = Some (x, y, a1)" "fetch_coords f b = Some (x, y, b1)"
  shows "\<exists>os elem h. vm_operand_stack vm = os @ [elem] \<and> heap_get h x y = Some None \<and>
    (\<forall>x' y'. (x', y') \<noteq> (x, y) \<longrightarrow> heap_get h x' y' = heap_get (vm_heap vm) x' y') \<and>
    (let restored = Running (at (increment b1) (vm1\<lparr>vm_heap := h, vm_operand_stack := vm_operand_stack vm\<rparr>)) in
     exec_load (load_check op) f b vm1 = (case load_range op of
         None \<Rightarrow> Some restored
       | Some (lo, hi) \<Rightarrow> (case load_int op elem of
           None \<Rightarrow> None
         | Some z \<Rightarrow> Some (if lo \<le> z \<and> z \<le> hi then Failed Overflow (at b1 vm1) else restored))))"
proof -
  obtain check where "exec_store_op sop = exec_store check" using exec_store_op_check by blast
  with assms(1) have "exec_store check f a vm = Some (Running vm1)" by simp
  from store_load[OF this assms(2,3), of "load_check op"] show ?thesis
    unfolding load_check_eq by (elim exE conjE) (intro exI conjI, assumption+, auto split: option.split)
qed

theorem store_then_load_witness:
  "\<exists>vm1 h. exec_load (load_check i32Load) (sample_fun [0, 1, 2, 0, 1, 2]) (address_new 3 0 0) vm1 =
      Some (Running (at (address_new 6 0 0) (vm1\<lparr>vm_heap := h, vm_operand_stack := [VmValue.I32 9]\<rparr>))) \<and>
    heap_get h 1 2 = Some None \<and>
    exec_load (load_check i32Load8Signed) (sample_fun [0, 1, 2, 0, 1, 2]) (address_new 3 0 0) vm1 =
      Some (Failed Overflow (at (address_new 5 0 0) vm1))"
proof -
  let ?f = "sample_fun [0, 1, 2, 0, 1, 2]" and ?vm = "vm_new\<lparr>vm_operand_stack := [VmValue.I32 9]\<rparr>"
  have h: "heap_ok (vm_heap ?vm)" using vm_new_ok(1) by (simp add: vm_ok_def)
  have a: "fetch_coords ?f (address_new 0 0 0) = Some (1, 2, address_new 2 0 0)"
    and b: "fetch_coords ?f (address_new 3 0 0) = Some (1, 2, address_new 5 0 0)"
    by code_simp+
  obtain h1 where "heap_set (vm_heap ?vm) 1 2 (Some (VmValue.I32 9)) = Some h1"
    using h by (auto simp: heap_set_iff heap_ok_def)
  then obtain vm1 where v: "exec_store_op i32Store ?f (address_new 0 0 0) ?vm = Some (Running vm1)"
    using a stack_pop_snoc[of "[]" "VmValue.I32 9"]
    by (simp add: exec_store_op_def exec_store_any_def exec_store_def stack_is_empty_def)
  from store_then_load[OF v a b, of i32Load] obtain h2 where h2:
    "exec_load (load_check i32Load) ?f (address_new 3 0 0) vm1 =
      Some (Running (at (address_new 6 0 0) (vm1\<lparr>vm_heap := h2, vm_operand_stack := [VmValue.I32 9]\<rparr>)))"
    "heap_get h2 1 2 = Some None"
    by (auto simp: increment_def address_new_def)
  from store_then_load[OF v a b, of i32Load8Signed]
  have "exec_load (load_check i32Load8Signed) ?f (address_new 3 0 0) vm1 = Some (Failed Overflow (at (address_new 5 0 0) vm1))"
    by (auto simp: load_int_def signed_range_def)
  with h2 show ?thesis by blast
qed

text \<open>
  C6.  The arguments of a push: when they are fetched, there are as many as the arity says, their
  types are those that the bytes after the bitmask name, in this order, and all of these are scalar
  types.  In particular no array is ever an argument, although a comment of the source allows arrays
  of up to eight elements: fetching one panics or fails, since the buffer it is copied from is empty.
\<close>

theorem fetched_arguments_are_typed:
  assumes "fetch_argv bits frame os a heap f arity = Some (Inr (types, s))"
  shows "map value_type (a_argv s) = types \<and> length types = arity \<and> list_all scalar types \<and>
    map Some types = map from_op (take arity (drop (ip a + 2) (fn_block f)))"
  using assms by (rule fetch_argv_Ok)

theorem fetched_arguments_are_typed_witness:
  "\<exists>s. fetch_argv sample_bits (sample_frame None [VmValue.I64 3]) [] (address_new 1 0 0) []
       (sample_fun [repr PushLocal, 2, 2, 96, 97, 0, 0, 0, 5, repr PopLocal]) 2 =
     Some (Inr ([VmType.I32, VmType.I64], s)) \<and>
   map value_type (a_argv s) = [VmType.I32, VmType.I64]"
proof -
  let ?r = "fetch_argv sample_bits (sample_frame None [VmValue.I64 3]) [] (address_new 1 0 0) []
       (sample_fun [repr PushLocal, 2, 2, 96, 97, 0, 0, 0, 5, repr PopLocal]) 2"
  have "(case ?r of Some (Inr (types, s)) \<Rightarrow> types = [VmType.I32, VmType.I64] | _ \<Rightarrow> False)" by code_simp
  then obtain s where r: "?r = Some (Inr ([VmType.I32, VmType.I64], s))"
    by (auto split: option.split_asm sum.split_asm prod.split_asm)
  from r conjunct1[OF fetched_arguments_are_typed[OF r]] show ?thesis by (intro exI conjI)
qed

text \<open>
  C7.  \<open>Add\<close> on 32-bit integers.  With fewer than two operands it panics.  Compiled without overflow
  checks (the release profile) it leaves one value, the sum of all operands modulo \<open>2^32\<close>, which is
  the exact sum just when that one fits 32 bits.  Compiled with overflow checks it leaves the same
  value if no partial sum of the operands, taken from the top of the stack, is out of range, and
  panics otherwise, even where the whole sum would fit.
\<close>

theorem addition_of_operands:
  "perform_addition ext (Common Add) (map VmValue.I32 xs) =
    (if length xs < 2 \<or> x_overflow_checks ext \<and>
       (\<exists>us vs. rev xs = us @ vs \<and> \<not> i32_fits (sum_list (map sint us))) then None
     else Some [VmValue.I32 (sum_list xs)]) \<and>
   (sint (sum_list xs) = sum_list (map sint xs) \<longleftrightarrow> i32_fits (sum_list (map sint xs)))"
  using perform_addition_I32 sint_sum_list_i32 by blast

text \<open>
  \<open>Eq\<close> on two or more operands of an integer type holds exactly when all of them are equal,
  and does not panic.
\<close>

theorem comparison_of_all_operands:
  assumes "2 \<le> length xs" "2 \<le> length ys"
  shows "perform_comparison (Comp Eq) (map VmValue.I32 xs) = Some (\<forall>x \<in> set xs. \<forall>y \<in> set xs. x = y) \<and>
    perform_comparison (Comp Eq) (map VmValue.I64 ys) = Some (\<forall>x \<in> set ys. \<forall>y \<in> set ys. x = y)"
  using perform_comparison_Eq[of VmValue.I32, OF _ assms(1)] perform_comparison_Eq[of VmValue.I64, OF _ assms(2)]
  by simp

theorem comparison_of_all_operands_witness:
  "perform_comparison (Comp Eq) [VmValue.I32 3, VmValue.I32 3, VmValue.I32 3] = Some True \<and>
   perform_comparison (Comp Eq) [VmValue.I64 3, VmValue.I64 4, VmValue.I64 4] = Some False"
  using comparison_of_all_operands[of "[3, 3, 3]" "[3, 4, 4]"] by simp

text \<open>
  C8.  The validator and the machine agree on how a function starts: the first step of a call of
  a function whose code \<open>validate_block\<close> accepts does not panic, opens the initial frame with the
  arguments of the call as its locals, and moves on past the arity.
\<close>

theorem validated_function_starts:
  assumes "validate_block bits (fn_block (m_functions (vm_modules vm ! mi) ! fi)) ret args = Some True"
    and "mi < length (vm_modules vm)" "fi < length (m_functions (vm_modules vm ! mi))"
    and "vm_call_stack vm = []"
  shows "vm_step ext argv (at (address_new 0 fi mi) vm) =
    Some (Running (at (address_new 2 fi mi)
      (vm\<lparr>vm_call_stack := [frame_new (Some Begin) None (Some argv)]\<rparr>)))"
proof -
  from accepted_shape[OF assms(1)] obtain code where
    "fn_block (m_functions (vm_modules vm ! mi) ! fi) = repr Instruction.Begin # 0 # code" by blast
  from first_begin_step[OF assms(2,3) this assms(4)] show ?thesis .
qed

theorem validated_function_starts_witness:
  "vm_step sample_ext [VmValue.I32 1] (at (address_new 0 0 0) (sample_vm [2, 0, 1, 6])) =
    Some (Running (at (address_new 2 0 0)
      ((sample_vm [2, 0, 1, 6])\<lparr>vm_call_stack := [frame_new (Some Begin) None (Some [VmValue.I32 1])]\<rparr>)))"
proof (rule validated_function_starts[where bits = sample_bits and ret = VmType.I32 and args = "[]"])
  have "validate_block sample_bits [2, 0, 1, 6] VmType.I32 [] = Some True" by code_simp
  then show "validate_block sample_bits (fn_block (m_functions (vm_modules (sample_vm [2, 0, 1, 6]) ! 0) ! 0))
    VmType.I32 [] = Some True" by simp
qed simp_all

text \<open>
  An \<open>If\<close> whose comparison does not hold and whose block is followed by an \<open>Else\<close> opens
  the \<open>Else\<close> block: execution continues right after the arity of the \<open>Else\<close>, in a new frame whose
  return address is the \<open>Else\<close> instruction.
\<close>

theorem failed_if_enters_else:
  assumes "cs \<noteq> []" "fetch f (ip a + 1) = Some ar" "fetch f (ip a + 2) = Some c"
    "from_repr c = Some (Comp Eq)" "perform_comparison (Comp Eq) (rev os) = Some False"
    "fetch_block_len (x_bits ext) f (ip a) = Some n" "fetch f (ip a + n) = Some op"
    "from_repr op = Some Instruction.Else" "fetch f (ip a + n + 1) = Some 0"
  shows "handle_begin_block ext If a cs os f argv =
    Some (a\<lparr>ip := ip a + n + 2\<rparr>, cs @ [frame_new (Some Else) (Some (a\<lparr>ip := ip a + n\<rparr>)) None])"
  using assms by (rule if_false_takes_else)

theorem failed_if_enters_else_witness:
  "handle_begin_block sample_ext If (address_new 0 0 0) [sample_frame (Some Begin) []] [VmValue.I32 1, VmValue.I32 2]
     (sample_fun [4, 0, repr (Comp Eq), 1, 6, 5, 0, 1, 6]) [] =
   Some (address_new 7 0 0, [sample_frame (Some Begin) [], frame_new (Some Else) (Some (address_new 5 0 0)) None])"
proof -
  let ?f = "sample_fun [4, 0, repr (Comp Eq), 1, 6, 5, 0, 1, 6]"
  have p: "perform_comparison (Comp Eq) (rev [VmValue.I32 1, VmValue.I32 2]) = Some False" by code_simp
  have l: "fetch_block_len (x_bits sample_ext) ?f 0 = Some 5" by code_simp
  have "handle_begin_block sample_ext If (address_new 0 0 0) [sample_frame (Some Begin) []]
      [VmValue.I32 1, VmValue.I32 2] ?f [] =
    Some ((address_new 0 0 0)\<lparr>ip := ip (address_new 0 0 0) + 5 + 2\<rparr>, [sample_frame (Some Begin) []] @
      [frame_new (Some Else) (Some ((address_new 0 0 0)\<lparr>ip := ip (address_new 0 0 0) + 5\<rparr>)) None])"
    by (rule failed_if_enters_else[where ar = 0 and c = "repr (Comp Eq)" and op = 5])
      (use p l in \<open>simp_all add: address_new_def fetch_eq from_repr_eq_Some_iff\<close>)
  then show ?thesis by (simp add: address_new_def)
qed

section \<open>The code validator\<close>

text \<open>
  C9.  After any bytes that did not panic, the validator is in one of its modes: it has rejected
  the code, is idle (no frame is open), has read the initial \<open>Begin\<close>, expects an instruction, or is
  reading the operands of one; and the operands read so far fit the instruction.
\<close>

theorem validator_reaches_only_its_modes:
  assumes "foldm (push_op bits) validator_new bytes = Some v"
  shows "validator_inv v"
  using assms by (rule reach_inv)

theorem validator_reaches_only_its_modes_witness:
  "\<exists>v. foldm (push_op sample_bits) validator_new [2, 0, 11, 1, 0, 96, 0] = Some v \<and> validator_inv v"
proof -
  have "foldm (push_op sample_bits) validator_new [2, 0, 11, 1, 0, 96, 0] \<noteq> None"
    by code_simp
  then obtain v where "foldm (push_op sample_bits) validator_new [2, 0, 11, 1, 0, 96, 0] = Some v"
    by auto
  with validator_reaches_only_its_modes[OF this] show ?thesis by blast
qed

text \<open>
  C10.  A block that \<open>validate_block\<close> accepts starts with \<open>Begin\<close> and the arity 0 and ends with
  \<open>End\<close>, except that one more \<open>Begin\<close> byte may follow the \<open>End\<close>.
\<close>

theorem accepted_blocks_are_delimited:
  assumes "validate_block bits block ret argv = Some True"
  shows "\<exists>p. block = repr Instruction.Begin # 0 # p @ [repr End] \<or>
    block = repr Instruction.Begin # 0 # p @ [repr End, repr Instruction.Begin]"
  using assms by (rule accepted_shape)

theorem accepted_blocks_are_delimited_witness:
  "\<exists>p. [2, 0, 1, 6] = repr Instruction.Begin # 0 # p @ [repr End] \<or>
    [2, 0, 1, 6] = repr Instruction.Begin # 0 # p @ [repr End, repr Instruction.Begin]"
  by (rule accepted_blocks_are_delimited[of sample_bits _ VmType.I32 "[]"]) code_simp

text \<open>
  The validator's frames follow the blocks of the code: one is opened by the first \<open>Begin\<close> and
  by the arity of a \<open>Loop\<close>, \<open>If\<close> or \<open>Else\<close>, one is closed by an \<open>End\<close>, and no other byte changes
  their number, unless it makes the code irrefutably invalid.
\<close>

theorem frames_follow_blocks:
  assumes "foldm (push_op bits) validator_new bytes = Some v"
    and "push_op bits v op = Some w" "\<not> validator_done w"
  shows "length (v_call_stack w) =
    (if op_mode v \<and> op = repr End then length (v_call_stack v) - 1
     else if idle_mode v \<or> opens_block v then length (v_call_stack v) + 1
     else length (v_call_stack v))"
  using push_op_depth[OF reach_inv[OF assms(1)] assms(2,3)] .

theorem frames_follow_blocks_witness:
  "\<exists>v w. foldm (push_op sample_bits) validator_new [2, 0, 3] = Some v \<and> push_op sample_bits v 0 = Some w \<and>
     length (v_call_stack w) = length (v_call_stack v) + 1"
proof -
  have e: "(case foldm (push_op sample_bits) validator_new [2, 0, 3] of None \<Rightarrow> False
     | Some v \<Rightarrow> opens_block v \<and> \<not> v_validation_stack v = [] \<and>
       (case push_op sample_bits v 0 of None \<Rightarrow> False | Some w \<Rightarrow> \<not> validator_done w))"
    by code_simp
  then obtain v w where v: "foldm (push_op sample_bits) validator_new [2, 0, 3] = Some v"
    "opens_block v" "v_validation_stack v \<noteq> []" "push_op sample_bits v 0 = Some w" "\<not> validator_done w"
    by (auto split: option.split_asm)
  from v(3) have "\<not> op_mode v" by (simp add: op_mode_def)
  with frames_follow_blocks[OF v(1,4,5)] v(1,2,4) show ?thesis by (intro exI conjI) auto
qed

text \<open>
  C11.  No byte makes the validator panic when it expects an instruction or the arity of a block
  and no \<open>If\<close> has just been closed: it is accepted or rejected.
\<close>

theorem validator_does_not_panic:
  assumes "foldm (push_op bits) validator_new bytes = Some v" "panic_free v"
  shows "\<exists>w. push_op bits v op = Some w"
  using push_op_total[OF reach_inv[OF assms(1)] assms(2)] .

theorem validator_does_not_panic_witness:
  "\<exists>v w. foldm (push_op sample_bits) validator_new [2, 0, 3, 0] = Some v \<and> push_op sample_bits v 255 = Some w"
proof -
  have "(case foldm (push_op sample_bits) validator_new [2, 0, 3, 0] of None \<Rightarrow> False
     | Some v \<Rightarrow> panic_free v)" by code_simp
  then obtain v where v: "foldm (push_op sample_bits) validator_new [2, 0, 3, 0] = Some v" "panic_free v"
    by (auto split: option.split_asm)
  from validator_does_not_panic[OF v] v(1) show ?thesis by blast
qed

section \<open>Blocks and contracts\<close>

text \<open>
  C12.  The length that \<open>fetch_block_len\<close> computes for the block at an index.  If more code follows
  the instruction that opens the block, the block stays inside the code and its last byte is an
  \<open>End\<close>.  If the instruction is the last byte of the code, as the trailing \<open>Begin\<close> that the validator
  lets through, the length is 2 (3 for \<open>If\<close>) and the computed end lies outside the code.
\<close>

theorem block_length_ends_at_end:
  assumes "fetch_block_len bits f idx = Some n"
  shows "if idx + 1 < length (fn_block f)
    then idx + n \<le> length (fn_block f) \<and> 1 < n \<and> fetch f (idx + n - 1) = Some (repr End)
    else idx + 1 = length (fn_block f) \<and> n = (if fetch f idx = Some (repr Instruction.If) then 3 else 2) \<and>
      fetch f (idx + n - 1) = None"
proof (cases "idx + 1 < length (fn_block f)")
  case True
  with fetch_block_len_End[OF assms] show ?thesis by simp
next
  case False
  with fetch_block_len_last[OF assms] show ?thesis by (auto simp: fetch_def)
qed

theorem block_length_ends_at_end_witness:
  "fetch_block_len sample_bits (sample_fun [2, 0, 3, 0, 1, 6, 6]) 2 = Some 4 \<and>
   fetch (sample_fun [2, 0, 3, 0, 1, 6, 6]) 5 = Some (repr End) \<and>
   fetch_block_len sample_bits (sample_fun [2, 0, 1, 6, 2]) 4 = Some 2 \<and>
   fetch (sample_fun [2, 0, 1, 6, 2]) 5 = None"
proof -
  have a: "fetch_block_len sample_bits (sample_fun [2, 0, 3, 0, 1, 6, 6]) 2 = Some 4"
    and b: "fetch_block_len sample_bits (sample_fun [2, 0, 1, 6, 2]) 4 = Some 2" by code_simp+
  with block_length_ends_at_end[OF a] block_length_ends_at_end[OF b] show ?thesis by simp
qed

text \<open>
  C13.  \<open>Code::validate\<close> accepts exactly the frames of the documented layout (version, two 16-bit
  lengths, two non-empty sections of these lengths, and nothing after them) whose sections are
  valid, and it always leaves the code it validated empty.
\<close>

theorem validate_accepts_contracts:
  "validate bits code = Some (True, rest) \<longleftrightarrow>
    (\<exists>imps funs. code = contract imps funs \<and> section_size imps \<and> section_size funs \<and>
       validate_sections bits imps funs = Some (Inr ()) \<and> rest = [])"
proof
  assume "validate bits code = Some (True, rest)"
  then show "\<exists>imps funs. code = contract imps funs \<and> section_size imps \<and> section_size funs \<and>
       validate_sections bits imps funs = Some (Inr ()) \<and> rest = []"
    by (cases rule: validate_True) blast
next
  assume "\<exists>imps funs. code = contract imps funs \<and> section_size imps \<and> section_size funs \<and>
       validate_sections bits imps funs = Some (Inr ()) \<and> rest = []"
  then show "validate bits code = Some (True, rest)"
    by (auto simp: validate_contract to_bool_def)
qed

text \<open>
  In an accepted contract the imports and the functions decode, every function has a block
  that the block validator accepts, and no two functions and no two imports have the same name.
\<close>

theorem accepted_contract_functions:
  assumes "validate bits code = Some (True, rest)"
  shows "\<exists>imps funs addrs entries ads ims fs. code = contract imps funs \<and>
    split_imports imps = Some (Inr (addrs, entries)) \<and> decode_addresses addrs [] = Some (Inr ads) \<and>
    decode_imports (length ads) entries [] = Some (Inr ims) \<and> distinct (map function_name ims) \<and>
    decode_functions bits funs [] = Some (Inr fs) \<and> distinct (map fn_name fs) \<and> list_all (function_ok bits) fs"
  using assms
proof (cases rule: validate_True)
  case (1 imps funs)
  from 1(4) show ?thesis by (cases rule: validate_sections_True) (use 1(1) in blast)
qed

theorem accepted_contract_functions_witness:
  "\<exists>imps funs addrs entries ads ims fs. sample_contract = contract imps funs \<and>
    split_imports imps = Some (Inr (addrs, entries)) \<and> decode_addresses addrs [] = Some (Inr ads) \<and>
    decode_imports (length ads) entries [] = Some (Inr ims) \<and> distinct (map function_name ims) \<and>
    decode_functions sample_bits funs [] = Some (Inr fs) \<and> distinct (map fn_name fs) \<and>
    list_all (function_ok sample_bits) fs"
proof -
  have "validate sample_bits sample_contract = Some (True, [])" by code_simp
  from accepted_contract_functions[OF this] show ?thesis .
qed

text \<open>
  An imports section laid out as documented (two lengths, then the addresses and the
  imports, of these lengths) is never accepted unless the two lengths are equal: the addresses are
  cut off with the length of the imports.
\<close>

theorem documented_imports_section_rejected:
  assumes "length addrs = unat al" "length data = unat dl" "al \<noteq> dl"
  shows "split_imports (encode_be_u16 al @ encode_be_u16 dl @ addrs @ data) \<noteq> Some (Inr r)"
  using assms by (rule documented_imports_rejected)

theorem documented_imports_section_rejected_witness:
  "split_imports (encode_be_u16 33 @ encode_be_u16 7 @ replicate 33 4 @ [4, 0, 0, 102, 117, 110, 99]) \<noteq>
     Some (Inr (replicate 33 4, [4, 0, 0, 102, 117, 110, 99]))"
  by (rule documented_imports_section_rejected) simp_all

text \<open>
  Code that was found valid is found invalid the next time: \<open>validate\<close> drains the code it
  is asked about.
\<close>

theorem validation_destroys_code:
  assumes "validate bits code = Some (True, rest)"
  shows "validate bits rest = Some (False, [])"
  using assms by (cases rule: validate_True) (simp add: validate_empty)

theorem validation_destroys_code_witness:
  "\<exists>rest. validate sample_bits sample_contract = Some (True, rest) \<and> validate sample_bits rest = Some (False, [])"
proof -
  have "validate sample_bits sample_contract = Some (True, [])" by code_simp
  with validation_destroys_code[OF this] show ?thesis by blast
qed

text \<open>
  A complete block with one more \<open>Begin\<close> byte after its last \<open>End\<close> is accepted, although the
  byte opens a block that is never closed.
\<close>

theorem trailing_begin_is_accepted:
  assumes "foldm (push_op bits) validator_new block = Some w" "v_state w = Valid" "idle_mode w"
  shows "validate_block bits (block @ [repr Instruction.Begin]) ret argv = Some True"
  using assms by (rule trailing_begin_accepted)

theorem trailing_begin_is_accepted_witness:
  "validate_block sample_bits ([2, 0, 1, 6] @ [repr Instruction.Begin]) VmType.I32 [] = Some True"
proof -
  have "(case foldm (push_op sample_bits) validator_new [2, 0, 1, 6] of None \<Rightarrow> False
     | Some w \<Rightarrow> v_state w = Valid \<and> v_call_stack w = [] \<and> v_validation_stack w = [] \<and> v_validation_buffer w = [])"
    by code_simp
  then obtain w where "foldm (push_op sample_bits) validator_new [2, 0, 1, 6] = Some w" "v_state w = Valid" "idle_mode w"
    by (auto simp: idle_mode_def split: option.split_asm)
  then show ?thesis by (rule trailing_begin_is_accepted)
qed

text \<open>
  A failed \<open>If\<close> without an \<open>Else\<close> skips nothing: execution goes on with the first instruction
  of its block, in the frame of the enclosing block.
\<close>

theorem failed_if_runs_its_block:
  assumes "cs \<noteq> []" "fetch f (ip a + 1) = Some ar" "fetch f (ip a + 2) = Some c"
    "from_repr c = Some (Comp Eq)" "perform_comparison (Comp Eq) (rev os) = Some False"
    "fetch_block_len (x_bits ext) f (ip a) = Some n" "fetch f (ip a + n) = Some op"
    "from_repr op \<noteq> Some Instruction.Else"
  shows "handle_begin_block ext If a cs os f argv = Some (a\<lparr>ip := ip a + 3\<rparr>, cs)"
  using assms by (rule if_false_falls_through)

theorem failed_if_runs_its_block_witness:
  "handle_begin_block sample_ext If (address_new 0 0 0) [sample_frame (Some Begin) []] [VmValue.I32 1, VmValue.I32 2]
     (sample_fun [4, 0, repr (Comp Eq), 1, 6, 6]) [] =
   Some (address_new 3 0 0, [sample_frame (Some Begin) []])"
proof -
  let ?f = "sample_fun [4, 0, repr (Comp Eq), 1, 6, 6]"
  have p: "perform_comparison (Comp Eq) (rev [VmValue.I32 1, VmValue.I32 2]) = Some False" by code_simp
  have l: "fetch_block_len (x_bits sample_ext) ?f 0 = Some 5" by code_simp
  have e: "from_repr 6 \<noteq> Some Instruction.Else" by code_simp
  have "handle_begin_block sample_ext If (address_new 0 0 0) [sample_frame (Some Begin) []]
      [VmValue.I32 1, VmValue.I32 2] ?f [] =
    Some ((address_new 0 0 0)\<lparr>ip := ip (address_new 0 0 0) + 3\<rparr>, [sample_frame (Some Begin) []])"
    by (rule failed_if_runs_its_block[where ar = 0 and c = "repr (Comp Eq)" and op = 6 and n = 5])
      (use p l e in \<open>simp_all add: address_new_def fetch_eq from_repr_eq_Some_iff\<close>)
  then show ?thesis by (simp add: address_new_def)
qed

text \<open>
  The narrow loads as instructions invert their check.  For a 32-bit value and any range:
  the instruction fails exactly when the value is within the range, while a narrow load that is the
  argument of a push delivers it exactly then.
\<close>

theorem narrow_loads_inverted:
  assumes "fetch_coords f a = Some (x, y, b)" "heap_get (vm_heap vm) x y = Some (Some (VmValue.I32 v))"
  shows "(exec_load (i32_outside lo hi) f a vm = Some (Failed Overflow (at b vm)) \<longleftrightarrow>
      lo \<le> sint v \<and> sint v \<le> hi) \<and>
    (narrow_i32 lo hi (VmValue.I32 v, s) = Some (Inr (push_arg (VmValue.I32 v) s)) \<longleftrightarrow>
      lo \<le> sint v \<and> sint v \<le> hi)"
  using narrow_load_i32[OF assms] by blast

theorem narrow_loads_inverted_witness:
  "exec_load (load_check i32Load8Signed) (sample_fun [0, 0, 1]) (address_new 0 0 0)
     (vm_new\<lparr>vm_heap := [[None, Some (VmValue.I32 5)]]\<rparr>) =
   Some (Failed Overflow (at (address_new 2 0 0) (vm_new\<lparr>vm_heap := [[None, Some (VmValue.I32 5)]]\<rparr>)))"
proof -
  have c: "fetch_coords (sample_fun [0, 0, 1]) (address_new 0 0 0) = Some (0, 1, address_new 2 0 0)" by code_simp
  show ?thesis
    using narrow_loads_inverted[OF c, of "vm_new\<lparr>vm_heap := [[None, Some (VmValue.I32 5)]]\<rparr>" 5 "-128" 127]
    by (simp add: heap_get_iff)
qed

section \<open>Modules, opcodes and the utilities\<close>

text \<open>
  Loading a module fails exactly when one with its hash is loaded, otherwise it is appended;
  no two loaded modules ever have the same hash; and unloading what was just loaded gives back the
  machine as it was.
\<close>

theorem modules_stay_distinct:
  assumes "modules_ok vm"
  shows "(fst (load vm m) = Inl AlreadyLoaded \<longleftrightarrow> module_hash m \<in> set (map module_hash (vm_modules vm))) \<and>
    modules_ok (snd (load vm m)) \<and> modules_ok (unload vm idx) \<and>
    (\<forall>vm'. load vm m = (Inr (), vm') \<longrightarrow>
       vm_modules vm' = vm_modules vm @ [m] \<and> unload vm' (length (vm_modules vm)) = vm)"
  using load_modules_ok[OF assms] unload_modules_ok[OF assms] unload_load by (auto simp: load_iff)

theorem modules_stay_distinct_witness:
  "modules_ok (snd (load (sample_vm []) (sample_module [1]))) \<and>
   fst (load (sample_vm []) (sample_module [1])) = Inl AlreadyLoaded"
proof -
  have "modules_ok (sample_vm [])" by (simp add: modules_ok_def)
  from modules_stay_distinct[OF this, of "sample_module [1]"] show ?thesis
    by (simp add: sample_module_def)
qed

text \<open>
  The opcode table is a bijection between the instructions and the bytes it assigns: \<open>from_repr\<close>
  decodes a byte to an instruction exactly when it is the byte \<open>repr\<close> gives it.
\<close>

theorem opcodes_bijective:
  "(from_repr b = Some i \<longleftrightarrow> repr i = b) \<and> inj repr"
  using from_repr_eq_Some_iff inj_repr by blast

end
