(* ===== verification/Util.thy ===== *)
theory Util
  imports Prelude "HOL-Library.Multiset"
begin

text \<open>
  The helper crates \<open>util/quicksort\<close> (\<open>qs\<close>, an in-place quicksort whose pivot travels to the
  right) and \<open>util/recursive\<close> (\<open>tail_recurse\<close>, a trampoline).  The array of \<open>qs\<close> is a list;
  every index and swap is checked, so a result \<open>Some ys\<close> also says that no index is out of
  range and that \<open>hi -= 1\<close> never underflows.
\<close>

section \<open>Quicksort\<close>

text \<open>The \<open>for\<close> loop of \<open>qs\<close>: \<open>n\<close> iterations from the state \<open>(arr, pivot, hi)\<close>.\<close>

fun qs_loop :: "nat \<Rightarrow> 'a::linorder list \<Rightarrow> nat \<Rightarrow> nat \<Rightarrow> ('a list \<times> nat \<times> nat) option" where
  "qs_loop 0 arr pivot hi = Some (arr, pivot, hi)"
| "qs_loop (Suc n) arr pivot hi = do {
     p \<leftarrow> index arr pivot;
     q \<leftarrow> index arr (pivot + 1);
     if p < q then do {
       arr' \<leftarrow> swap arr (pivot + 1) hi;
       if hi = 0 then None else qs_loop n arr' pivot (hi - 1)
     } else do {
       arr' \<leftarrow> swap arr pivot (pivot + 1);
       qs_loop n arr' (pivot + 1) hi
     }
   }"

lemma swap_length: "swap xs i j = Some ys \<Longrightarrow> length ys = length xs"
  by (auto simp: swap_eq_Some_iff)

lemma qs_loop_length:
  "qs_loop n arr pivot hi = Some (arr', pivot', hi') \<Longrightarrow>
     length arr' = length arr \<and> pivot' \<le> pivot + n"
proof (induction n arr pivot hi rule: qs_loop.induct)
  case (1 arr pivot hi)
  then show ?case by simp
next
  case (2 n arr pivot hi)
  from "2.prems" consider (right) a where "swap arr (pivot + 1) hi = Some a"
      "qs_loop n a pivot (hi - 1) = Some (arr', pivot', hi')" "hi \<noteq> 0"
      "arr ! pivot < arr ! (pivot + 1)" "pivot + 1 < length arr"
    | (left) a where "swap arr pivot (pivot + 1) = Some a"
      "qs_loop n a (pivot + 1) hi = Some (arr', pivot', hi')"
      "\<not> arr ! pivot < arr ! (pivot + 1)" "pivot + 1 < length arr"
    by (auto simp: bind_eq_Some_conv split: if_splits)
  then show ?case
  proof cases
    case right
    with "2.IH"(1)[of "arr ! pivot" "arr ! (pivot + 1)" a] show ?thesis
      by (simp add: swap_length)
  next
    case left
    with "2.IH"(2)[of "arr ! pivot" "arr ! (pivot + 1)" a] show ?thesis
      by (simp add: swap_length)
  qed
qed

function qs :: "'a::linorder list \<Rightarrow> 'a list option" where
  "qs arr =
     (if 1 < length arr then do {
        (arr', pivot, hi) \<leftarrow> qs_loop (length arr - 1) arr 0 (length arr - 1);
        l \<leftarrow> qs (take pivot arr');
        p \<leftarrow> index arr' pivot;
        r \<leftarrow> qs (drop (pivot + 1) arr');
        Some (l @ p # r)
      } else Some arr)"
  by pat_completeness auto
termination
  by (relation "measure length") (auto dest!: qs_loop_length)

declare qs.simps [simp del]

text \<open>
  The loop invariant: everything left of the pivot is at most the pivot, everything right of
  \<open>hi\<close> is greater, and \<open>hi - pivot\<close> iterations remain.
\<close>

definition qs_inv :: "'a::linorder list \<Rightarrow> nat \<Rightarrow> nat \<Rightarrow> nat \<Rightarrow> bool" where
  "qs_inv arr n pivot hi \<longleftrightarrow>
     pivot + n = hi \<and> hi < length arr \<and>
     (\<forall>i < pivot. arr ! i \<le> arr ! pivot) \<and>
     (\<forall>i. hi < i \<longrightarrow> i < length arr \<longrightarrow> arr ! pivot < arr ! i)"

lemma swap_mset: "swap xs i j = Some ys \<Longrightarrow> mset ys = mset xs"
  by (auto simp: swap_eq_Some_iff mset_swap)

lemma qs_inv_right:
  assumes "qs_inv arr (Suc n) pivot hi" and "arr ! pivot < arr ! (pivot + 1)"
  shows "qs_inv (arr[pivot + 1 := arr ! hi, hi := arr ! (pivot + 1)]) n pivot (hi - 1)"
  using assms unfolding qs_inv_def by (auto simp: nth_list_update)

lemma qs_inv_left:
  assumes "qs_inv arr (Suc n) pivot hi" and "\<not> arr ! pivot < arr ! (pivot + 1)"
  shows "qs_inv (arr[pivot := arr ! (pivot + 1), pivot + 1 := arr ! pivot]) n (pivot + 1) hi"
  using assms unfolding qs_inv_def by (auto simp: nth_list_update less_Suc_eq)

lemma qs_loop_correct:
  "qs_inv arr n pivot hi \<Longrightarrow>
     \<exists>arr' pivot' hi'. qs_loop n arr pivot hi = Some (arr', pivot', hi') \<and>
       mset arr' = mset arr \<and> qs_inv arr' 0 pivot' hi'"
proof (induction n arr pivot hi rule: qs_loop.induct)
  case (1 arr pivot hi)
  then show ?case by simp
next
  case (2 n arr pivot hi)
  have b: "pivot < length arr" "pivot + 1 < length arr" "hi < length arr" "hi \<noteq> 0"
    using "2.prems" by (auto simp: qs_inv_def)
  show ?case
  proof (cases "arr ! pivot < arr ! (pivot + 1)")
    case True
    let ?a = "arr[pivot + 1 := arr ! hi, hi := arr ! (pivot + 1)]"
    have sw: "swap arr (pivot + 1) hi = Some ?a"
      using b by (simp add: swap_def)
    have i: "index arr pivot = Some (arr ! pivot)"
      "index arr (pivot + 1) = Some (arr ! (pivot + 1))" using b by simp_all
    have run: "qs_loop (Suc n) arr pivot hi = qs_loop n ?a pivot (hi - 1)"
      using b True sw i by simp
    show ?thesis
      unfolding run
      using "2.IH"(1)[OF i True sw b(4) qs_inv_right[OF "2.prems" True]] swap_mset[OF sw]
      by simp
  next
    case False
    let ?a = "arr[pivot := arr ! (pivot + 1), pivot + 1 := arr ! pivot]"
    have sw: "swap arr pivot (pivot + 1) = Some ?a"
      using b by (simp add: swap_def)
    have i: "index arr pivot = Some (arr ! pivot)"
      "index arr (pivot + 1) = Some (arr ! (pivot + 1))" using b by simp_all
    have run: "qs_loop (Suc n) arr pivot hi = qs_loop n ?a (pivot + 1) hi"
      using b False sw i by simp
    show ?thesis
      unfolding run
      using "2.IH"(2)[OF i False sw qs_inv_left[OF "2.prems" False]] swap_mset[OF sw]
      by simp
  qed
qed

lemma qs_inv_start: "1 < length arr \<Longrightarrow> qs_inv arr (length arr - 1) 0 (length arr - 1)"
  by (auto simp: qs_inv_def)

lemma sorted_around_pivot:
  fixes p :: "'a::linorder"
  assumes "sorted l" "sorted r" "\<forall>x \<in> set l. x \<le> p" "\<forall>x \<in> set r. p < x"
  shows "sorted (l @ p # r)"
  using assms by (force simp: sorted_append)

lemma qs_inv_split:
  assumes "qs_inv arr 0 pivot hi"
  shows "pivot < length arr" "\<forall>x \<in> set (take pivot arr). x \<le> arr ! pivot"
    "\<forall>x \<in> set (drop (pivot + 1) arr). arr ! pivot < x"
  using assms by (auto simp: qs_inv_def in_set_conv_nth)

lemma qs_sorts: "\<exists>ys. qs arr = Some ys \<and> sorted ys \<and> mset ys = mset arr"
proof (induction arr rule: qs.induct)
  case (1 arr)
  show ?case
  proof (cases "1 < length arr")
    case False
    then have "sorted arr" by (cases arr; cases "tl arr") auto
    with False show ?thesis by (simp add: qs.simps[of arr])
  next
    case True
    obtain arr' pivot hi where run: "qs_loop (length arr - 1) arr 0 (length arr - 1) = Some (arr', pivot, hi)"
      and ms: "mset arr' = mset arr" and inv: "qs_inv arr' 0 pivot hi"
      using qs_loop_correct[OF qs_inv_start[OF True]] by blast
    obtain l where l: "qs (take pivot arr') = Some l" "sorted l" "mset l = mset (take pivot arr')"
      using "1.IH"(1)[OF True run refl refl] by blast
    have p: "index arr' pivot = Some (arr' ! pivot)"
      using qs_inv_split(1)[OF inv] by simp
    obtain r where r: "qs (drop (pivot + 1) arr') = Some r" "sorted r"
        "mset r = mset (drop (pivot + 1) arr')"
      using "1.IH"(2)[OF True run refl refl l(1) p] by blast
    have sets: "set l = set (take pivot arr')" "set r = set (drop (pivot + 1) arr')"
      using l(3) r(3) by (metis set_mset_mset)+
    have "sorted (l @ arr' ! pivot # r)"
      using l(2) r(2) qs_inv_split(2,3)[OF inv] sets by (intro sorted_around_pivot) auto
    moreover have "mset (l @ arr' ! pivot # r) = mset arr'"
      using id_take_nth_drop[OF qs_inv_split(1)[OF inv]] l(3) r(3)
      by (metis Suc_eq_plus1 mset.simps(2) mset_append)
    ultimately show ?thesis
      using True run l(1) p r(1) ms by (simp add: qs.simps[of arr])
  qed
qed

section \<open>Tail recursion\<close>

datatype ('c, 'r) RecResult = Continue 'c | Return 'r

text \<open>\<open>None\<close> is a trampoline that never returns.\<close>

partial_function (option) tail_recurse :: "('c \<Rightarrow> ('c, 'r) RecResult) \<Rightarrow> 'c \<Rightarrow> 'r option" where
  "tail_recurse f init =
     (case f init of Continue c \<Rightarrow> tail_recurse f c | Return r \<Rightarrow> Some r)"

lemma tail_recurse_Continue: "f c = Continue d \<Longrightarrow> tail_recurse f c = tail_recurse f d"
  by (simp add: tail_recurse.simps)

lemma tail_recurse_Return: "f c = Return r \<Longrightarrow> tail_recurse f c = Some r"
  by (simp add: tail_recurse.simps)

lemma tail_recurse_total:
  assumes "wf R" and "I c"
    and "\<And>c d. I c \<Longrightarrow> f c = Continue d \<Longrightarrow> I d \<and> (d, c) \<in> R"
    and "\<And>c r. I c \<Longrightarrow> f c = Return r \<Longrightarrow> Q r"
  shows "\<exists>r. tail_recurse f c = Some r \<and> Q r"
  using assms(1,2)
proof (induction c rule: wf_induct_rule)
  case (less c)
  show ?case
  proof (cases "f c")
    case (Continue d)
    with assms(3) less.prems have "I d" "(d, c) \<in> R" by blast+
    with less.IH show ?thesis by (simp add: tail_recurse_Continue[of f c d] Continue)
  next
    case (Return r)
    with assms(4) less.prems show ?thesis by (simp add: tail_recurse_Return)
  qed
qed

text \<open>The closure of the crate's own test: the state is \<open>(a, b)\<close> and the result is \<open>a! * b\<close>.\<close>

definition fact_step :: "nat \<times> nat \<Rightarrow> (nat \<times> nat, nat) RecResult" where
  "fact_step = (\<lambda>(a, b). if a = 0 then Return b else Continue (a - 1, a * b))"

lemma tail_recurse_fact: "tail_recurse fact_step (a, b) = Some (fact a * b)"
proof (induction a arbitrary: b)
  case 0
  then show ?case by (simp add: fact_step_def tail_recurse_Return)
next
  case (Suc a)
  have "fact_step (Suc a, b) = Continue (a, Suc a * b)" by (simp add: fact_step_def)
  then have "tail_recurse fact_step (Suc a, b) = tail_recurse fact_step (a, Suc a * b)"
    by (rule tail_recurse_Continue)
  also have "\<dots> = Some (fact a * (Suc a * b))" by (rule Suc.IH)
  finally show ?case by (simp add: algebra_simps)
qed

end
