(* ===== verification/Addresses.thy ===== *)
theory Addresses
  imports Bin_Tools Text_Format
begin

text \<open>
  \<open>account/src/addresses\<close> and \<open>crypto/src/signature.rs\<close>.  A public key and a hash are byte arrays
  of length 32, a primitive signature one of length 64; arrays are lists and \<open>wf\<close> predicates give
  their length.  The four address types share one wire format, a tag byte and 32 bytes, which
  the locale \<open>tagged_codec\<close> states.

  Parameters: base 58 (\<open>to_base58\<close>, \<open>from_base58\<close> of \<open>rust-base58\<close>), the encoding of a list of
  byte strings by the crate \<open>rlp\<close> (\<open>rlp_list\<close>) and the hash function (\<open>hash_slice\<close>, which calls
  \<open>blake2-rfc\<close>).
\<close>

section \<open>Signatures\<close>

datatype PrimitiveSig = PrimitiveSig (sig_inner: "u8 list")

definition sig_new :: "u8 list \<Rightarrow> PrimitiveSig option" where
  "sig_new bin = map_option PrimitiveSig (copy_from_slice 64 bin)"

definition sig_to_bytes :: "PrimitiveSig \<Rightarrow> u8 list" where
  "sig_to_bytes sig = 1 # sig_inner sig"

datatype CodecError = Bad_type | Bad_length | Bad_signature_length | Invalid_base58
  | Bad_address_type | Invalid_signature | Invalid_signature_length | Invalid_signature_type
  | Bad_shares | Bad_address | Bad_shares_length

text \<open>The tag byte is not checked.\<close>

definition sig_from_bytes :: "u8 list \<Rightarrow> (CodecError + PrimitiveSig) option" where
  "sig_from_bytes bin =
     (if length bin = 65 then do {
        sig \<leftarrow> copy_from_slice 64 (drop 1 bin);
        Some (Inr (PrimitiveSig sig))
      } else Some (Inl Bad_signature_length))"

definition wf_sig :: "PrimitiveSig \<Rightarrow> bool" where
  "wf_sig sig \<longleftrightarrow> length (sig_inner sig) = 64"

section \<open>The address types\<close>

datatype NormalAddress = NormalAddress (pkey: "u8 list")
datatype MultiSigAddress = MultiSigAddress (msig_inner: "u8 list")
datatype ShareholdersAddress = ShareholdersAddress (sh_inner: "u8 list")
datatype ContractAddress = ContractAddress (contract_inner: "u8 list")

definition normal_to_bytes :: "NormalAddress \<Rightarrow> u8 list" where
  "normal_to_bytes a = 1 # pkey a"

definition normal_from_bytes :: "u8 list \<Rightarrow> (CodecError + NormalAddress) option" where
  "normal_from_bytes bin = do {
     addr_type \<leftarrow> index bin 0;
     if length bin = 33 \<and> addr_type = 1 then do {
       key \<leftarrow> copy_from_slice 32 (drop 1 bin);
       Some (Inr (NormalAddress key))
     } else if addr_type \<noteq> 1 then Some (Inl Bad_type) else Some (Inl Bad_length)
   }"

definition multi_sig_to_bytes :: "MultiSigAddress \<Rightarrow> u8 list" where
  "multi_sig_to_bytes a = 2 # msig_inner a"

definition multi_sig_from_bytes :: "u8 list \<Rightarrow> (CodecError + MultiSigAddress) option" where
  "multi_sig_from_bytes bin = do {
     addr_type \<leftarrow> index bin 0;
     if length bin = 33 \<and> addr_type = 2 then do {
       addr \<leftarrow> copy_from_slice 32 (drop 1 bin);
       Some (Inr (MultiSigAddress addr))
     } else if addr_type \<noteq> 2 then Some (Inl Bad_type) else Some (Inl Bad_length)
   }"

definition shareholders_to_bytes :: "ShareholdersAddress \<Rightarrow> u8 list" where
  "shareholders_to_bytes a = 3 # sh_inner a"

definition shareholders_from_bytes :: "u8 list \<Rightarrow> (CodecError + ShareholdersAddress) option" where
  "shareholders_from_bytes bin = do {
     addr_type \<leftarrow> index bin 0;
     if length bin = 33 \<and> addr_type = 3 then do {
       addr \<leftarrow> copy_from_slice 32 (drop 1 bin);
       Some (Inr (ShareholdersAddress addr))
     } else if addr_type \<noteq> 3 then Some (Inl Bad_type) else Some (Inl Bad_length)
   }"

definition contract_to_bytes :: "ContractAddress \<Rightarrow> u8 list" where
  "contract_to_bytes a = 4 # contract_inner a"

definition contract_from_bytes :: "u8 list \<Rightarrow> (CodecError + ContractAddress) option" where
  "contract_from_bytes bin = do {
     addr_type \<leftarrow> index bin 0;
     if length bin = 33 \<and> addr_type = 4 then do {
       key \<leftarrow> copy_from_slice 32 (drop 1 bin);
       Some (Inr (ContractAddress key))
     } else if addr_type \<noteq> 4 then Some (Inl Bad_type) else Some (Inl Bad_length)
   }"

text \<open>\<open>to_base58\<close> and \<open>from_base58\<close> are the same code in the four modules.\<close>

definition address_to_base58 :: "(u8 list \<Rightarrow> string) \<Rightarrow> ('a \<Rightarrow> u8 list) \<Rightarrow> 'a \<Rightarrow> string" where
  "address_to_base58 to_base58 to_bytes a = to_base58 (to_bytes a)"

definition address_from_base58 ::
  "(string \<Rightarrow> u8 list option) \<Rightarrow> (u8 list \<Rightarrow> (CodecError + 'a) option) \<Rightarrow> string \<Rightarrow> (CodecError + 'a) option" where
  "address_from_base58 from_base58 from_bytes input = (case from_base58 input of
       Some bin \<Rightarrow> from_bytes bin
     | None \<Rightarrow> Some (Inl Invalid_base58))"

text \<open>The buffer that \<open>MultiSigAddress::compute\<close> and \<open>ShareholdersAddress::compute\<close> hash.\<close>

definition compute_buffer ::
  "(u8 list list \<Rightarrow> u8 list) \<Rightarrow> NormalAddress list \<Rightarrow> NormalAddress \<Rightarrow> u64 \<Rightarrow> u8 list" where
  "compute_buffer rlp_list keys creator nonce =
     encode_be_u64 nonce @ normal_to_bytes creator @ rlp_list (map normal_to_bytes keys)"

definition multi_sig_compute ::
  "(u8 list list \<Rightarrow> u8 list) \<Rightarrow> (u8 list \<Rightarrow> u8 list) \<Rightarrow> NormalAddress list \<Rightarrow> NormalAddress \<Rightarrow> u64 \<Rightarrow>
     MultiSigAddress" where
  "multi_sig_compute rlp_list hash_slice keys creator nonce =
     MultiSigAddress (hash_slice (compute_buffer rlp_list keys creator nonce))"

definition shareholders_compute ::
  "(u8 list list \<Rightarrow> u8 list) \<Rightarrow> (u8 list \<Rightarrow> u8 list) \<Rightarrow> NormalAddress list \<Rightarrow> NormalAddress \<Rightarrow> u64 \<Rightarrow>
     ShareholdersAddress" where
  "shareholders_compute rlp_list hash_slice keys creator nonce =
     ShareholdersAddress (hash_slice (compute_buffer rlp_list keys creator nonce))"

section \<open>Addresses\<close>

datatype Account_Address =
    Normal NormalAddress | MultiSig MultiSigAddress
  | Shareholders ShareholdersAddress | Contract ContractAddress

definition unwrap_normal :: "Account_Address \<Rightarrow> NormalAddress option" where
  "unwrap_normal a = (case a of Normal addr \<Rightarrow> Some addr | _ \<Rightarrow> None)"

primrec address_to_bytes :: "Account_Address \<Rightarrow> u8 list" where
  "address_to_bytes (Normal addr) = normal_to_bytes addr"
| "address_to_bytes (MultiSig addr) = multi_sig_to_bytes addr"
| "address_to_bytes (Shareholders addr) = shareholders_to_bytes addr"
| "address_to_bytes (Contract addr) = contract_to_bytes addr"

definition address_from_bytes :: "u8 list \<Rightarrow> (CodecError + Account_Address) option" where
  "address_from_bytes bin = do {
     addr_type \<leftarrow> index bin 0;
     if addr_type = 1 then map_option (map_sum id Normal) (normal_from_bytes bin)
     else if addr_type = 2 then map_option (map_sum id MultiSig) (multi_sig_from_bytes bin)
     else if addr_type = 3 then map_option (map_sum id Shareholders) (shareholders_from_bytes bin)
     else if addr_type = 4 then map_option (map_sum id Contract) (contract_from_bytes bin)
     else Some (Inl Bad_address_type)
   }"

definition multi_sig_from_pkeys ::
  "(u8 list list \<Rightarrow> u8 list) \<Rightarrow> (u8 list \<Rightarrow> u8 list) \<Rightarrow> u8 list list \<Rightarrow> u8 list \<Rightarrow> u64 \<Rightarrow> Account_Address" where
  "multi_sig_from_pkeys rlp_list hash_slice pkeys creator nonce =
     MultiSig (multi_sig_compute rlp_list hash_slice (map NormalAddress pkeys) (NormalAddress creator) nonce)"

definition shareholders_from_pkeys ::
  "(u8 list list \<Rightarrow> u8 list) \<Rightarrow> (u8 list \<Rightarrow> u8 list) \<Rightarrow> u8 list list \<Rightarrow> u8 list \<Rightarrow> u64 \<Rightarrow> Account_Address" where
  "shareholders_from_pkeys rlp_list hash_slice pkeys creator nonce =
     Shareholders (shareholders_compute rlp_list hash_slice (map NormalAddress pkeys) (NormalAddress creator) nonce)"

definition normal_from_pkey :: "u8 list \<Rightarrow> Account_Address" where
  "normal_from_pkey key = Normal (NormalAddress key)"

definition wf_normal :: "NormalAddress \<Rightarrow> bool" where
  "wf_normal a \<longleftrightarrow> length (pkey a) = 32"

primrec wf_address :: "Account_Address \<Rightarrow> bool" where
  "wf_address (Normal a) = wf_normal a"
| "wf_address (MultiSig a) = (length (msig_inner a) = 32)"
| "wf_address (Shareholders a) = (length (sh_inner a) = 32)"
| "wf_address (Contract a) = (length (contract_inner a) = 32)"

section \<open>The wire format\<close>

text \<open>
  What clients of an address type rely on: 33 bytes that start with the tag of the type, exactly
  the encodings are decoded, and decoding panics on the empty slice only.
\<close>

locale tagged_codec =
  fixes enc :: "'a \<Rightarrow> u8 list" and dec :: "u8 list \<Rightarrow> (CodecError + 'a) option"
    and tag :: u8 and wf :: "'a \<Rightarrow> bool"
  assumes enc_width: "wf a \<Longrightarrow> length (enc a) = 33"
    and enc_tag: "wf a \<Longrightarrow> enc a ! 0 = tag"
    and dec_enc: "wf a \<Longrightarrow> dec (enc a) = Some (Inr a)"
    and enc_dec: "dec bs = Some (Inr a) \<Longrightarrow> wf a \<and> enc a = bs"
    and dec_panics: "dec bs = None \<longleftrightarrow> bs = []"
begin

lemma dec_iff: "dec bs = Some (Inr a) \<longleftrightarrow> wf a \<and> enc a = bs"
  using dec_enc enc_dec by blast

lemma enc_inj: "wf a \<Longrightarrow> wf b \<Longrightarrow> enc a = enc b \<Longrightarrow> a = b"
  using dec_enc by (metis option.inject sum.inject(2))

lemma dec_tag: "dec bs = Some (Inr a) \<Longrightarrow> bs ! 0 = tag \<and> length bs = 33"
  using enc_dec enc_tag enc_width by blast

lemma base58_roundtrip:
  assumes "\<And>bs. from_base58 (to_base58 bs) = Some bs" "wf a"
  shows "address_from_base58 from_base58 dec (address_to_base58 to_base58 enc a) = Some (Inr a)"
  using assms by (simp add: address_from_base58_def address_to_base58_def dec_enc)

end

lemma tagged_dec_Inr:
  "(do { t \<leftarrow> index bin 0;
      if length bin = 33 \<and> t = tag then do { key \<leftarrow> copy_from_slice 32 (drop 1 bin); Some (Inr (mk key)) }
      else if t \<noteq> tag then Some (Inl e1) else Some (Inl e2) }) = Some (Inr a) \<longleftrightarrow>
    (\<exists>key. length key = 32 \<and> bin = tag # key \<and> a = mk key)"
  by (cases bin) (auto simp: bind_eq_Some_conv)

lemma tagged_dec_None:
  "(do { t \<leftarrow> index bin 0;
      if length bin = 33 \<and> t = tag then do { key \<leftarrow> copy_from_slice 32 (drop 1 bin); Some (Inr (mk key)) }
      else if t \<noteq> tag then Some (Inl e1) else Some (Inl e2) }) = None \<longleftrightarrow> bin = []"
  by (cases bin) (auto simp: copy_from_slice_def)

interpretation normal: tagged_codec normal_to_bytes normal_from_bytes 1 wf_normal
  by unfold_locales
    (auto simp: normal_to_bytes_def normal_from_bytes_def wf_normal_def tagged_dec_Inr tagged_dec_None)

interpretation multi_sig: tagged_codec multi_sig_to_bytes multi_sig_from_bytes 2 "\<lambda>a. length (msig_inner a) = 32"
  by unfold_locales
    (auto simp: multi_sig_to_bytes_def multi_sig_from_bytes_def tagged_dec_Inr tagged_dec_None)

interpretation shareholders: tagged_codec shareholders_to_bytes shareholders_from_bytes 3 "\<lambda>a. length (sh_inner a) = 32"
  by unfold_locales
    (auto simp: shareholders_to_bytes_def shareholders_from_bytes_def tagged_dec_Inr tagged_dec_None)

interpretation contract: tagged_codec contract_to_bytes contract_from_bytes 4 "\<lambda>a. length (contract_inner a) = 32"
  by unfold_locales
    (auto simp: contract_to_bytes_def contract_from_bytes_def tagged_dec_Inr tagged_dec_None)

lemma address_from_bytes_iff:
  "address_from_bytes bin = Some (Inr a) \<longleftrightarrow> wf_address a \<and> address_to_bytes a = bin"
proof (cases bin)
  case Nil
  then show ?thesis
    by (cases a) (simp_all add: address_from_bytes_def normal_to_bytes_def multi_sig_to_bytes_def
        shareholders_to_bytes_def contract_to_bytes_def)
next
  case (Cons t rest)
  show ?thesis
    using Cons
    by (cases a) (auto simp: address_from_bytes_def map_sum_Inr_iff normal.dec_iff multi_sig.dec_iff
        shareholders.dec_iff contract.dec_iff normal_to_bytes_def multi_sig_to_bytes_def
        shareholders_to_bytes_def contract_to_bytes_def simp del: map_option_eq_Some)
qed

lemma sig_from_bytes_eq:
  "sig_from_bytes bin = Some (if length bin = 65 then Inr (PrimitiveSig (drop 1 bin)) else Inl Bad_signature_length)"
  by (simp add: sig_from_bytes_def copy_from_slice_def)

lemma sig_roundtrip: "wf_sig s \<Longrightarrow> sig_from_bytes (sig_to_bytes s) = Some (Inr s)"
  by (simp add: sig_from_bytes_eq sig_to_bytes_def wf_sig_def)

end
