(* ===== verification/Balance.thy ===== *)
theory Balance
  imports Text_Format
begin

text \<open>
  \<open>account/src/balance.rs\<close>, and the interface of the third-party crate \<open>rust_decimal\<close> that the
  account code uses: \<open>decimal\<close> collects its operations on the abstract type \<open>'d\<close> of decimals.
  \<open>d_parse\<close> is \<open>from_str\<close> (\<open>None\<close> is \<open>Err\<close>), \<open>d_print\<close> is \<open>to_string\<close>; the arithmetic
  may panic.  \<open>d_ge\<close> and \<open>d_eq\<close> are its comparisons, which compare numbers: 1.0 and 1.00 are
  equal without being the same value.
\<close>

record 'd decimal =
  d_parse :: "string \<Rightarrow> 'd option"
  d_print :: "'d \<Rightarrow> string"
  d_add :: "'d \<Rightarrow> 'd \<Rightarrow> 'd option"
  d_sub :: "'d \<Rightarrow> 'd \<Rightarrow> 'd option"
  d_mul :: "'d \<Rightarrow> 'd \<Rightarrow> 'd option"
  d_div :: "'d \<Rightarrow> 'd \<Rightarrow> 'd option"
  d_ge :: "'d \<Rightarrow> 'd \<Rightarrow> bool"
  d_eq :: "'d \<Rightarrow> 'd \<Rightarrow> bool"

datatype 'd Balance = Balance (balance_inner: 'd)

datatype BalanceError = Invalid_balance | Balance_invalid_utf8

text \<open>There is no \<open>PREC1\<close>: 1 and everything above 18 panic.\<close>

definition validate_smaller_precision :: "'d decimal \<Rightarrow> 'd Balance \<Rightarrow> u8 \<Rightarrow> bool option" where
  "validate_smaller_precision D b precision =
     (if precision = 0 then Some (prec0_match (d_print D (balance_inner b)))
      else if 2 \<le> precision \<and> precision \<le> 18
      then Some (prec_match (unat precision) (d_print D (balance_inner b)))
      else None)"

definition balance_to_bytes :: "'d decimal \<Rightarrow> 'd Balance \<Rightarrow> u8 list" where
  "balance_to_bytes D b = as_bytes (d_print D (balance_inner b))"

definition balance_from_bytes :: "'d decimal \<Rightarrow> u8 list \<Rightarrow> (BalanceError + 'd Balance) option" where
  "balance_from_bytes D bin = (case from_utf8 bin of
       Some result \<Rightarrow>
         if prec0_match result \<or> prec_match 18 result
         then do { d \<leftarrow> d_parse D result; Some (Inr (Balance d)) }
         else Some (Inl Invalid_balance)
     | None \<Rightarrow> Some (Inl Balance_invalid_utf8))"

definition balance_add :: "'d decimal \<Rightarrow> 'd Balance \<Rightarrow> 'd Balance \<Rightarrow> 'd Balance option" where
  "balance_add D a b = map_option Balance (d_add D (balance_inner a) (balance_inner b))"

definition balance_sub :: "'d decimal \<Rightarrow> 'd Balance \<Rightarrow> 'd Balance \<Rightarrow> 'd Balance option" where
  "balance_sub D a b = map_option Balance (d_sub D (balance_inner a) (balance_inner b))"

lemma balance_roundtrip:
  assumes "d_parse D (d_print D d) = Some d"
    and "prec0_match (d_print D d) \<or> prec_match 18 (d_print D d)"
  shows "balance_from_bytes D (balance_to_bytes D (Balance d)) = Some (Inr (Balance d))"
proof -
  from assms(2) have "utf8_valid (as_bytes (d_print D d))" by (auto intro: prec0_utf8 prec_utf8)
  with assms show ?thesis
    by (simp add: balance_from_bytes_def balance_to_bytes_def from_utf8_as_bytes)
qed

text \<open>A negative number never gets through.\<close>

lemma balance_rejects_sign:
  assumes "balance_from_bytes D (as_bytes (CHR ''-'' # s)) = Some r"
  shows "\<exists>e. r = Inl e"
proof -
  have "\<not> is_digit (CHR ''-'')" by (simp add: is_digit_def)
  then have m: "\<not> prec0_match (CHR ''-'' # s)" "\<not> prec_match 18 (CHR ''-'' # s)"
    by (simp_all add: prec0_match_def prec_match_def digits_def)
  have "from_utf8 (as_bytes u) = Some t \<Longrightarrow> t = u" for t u
    by (auto simp: from_utf8_def as_bytes_def comp_def char_of_as_byte split: if_splits)
  with assms m show ?thesis
    by (auto simp: balance_from_bytes_def split: option.split_asm if_splits)
qed

text \<open>The empty string matches \<open>^[0-9]*$\<close>, so it reaches \<open>from_str("").unwrap()\<close>.\<close>

lemma balance_from_bytes_empty:
  "balance_from_bytes D [] = do { d \<leftarrow> d_parse D []; Some (Inr (Balance d)) }"
  by (simp add: balance_from_bytes_def from_utf8_def prec0_match_def)

lemma validate_smaller_precision_panics:
  "validate_smaller_precision D b p = None \<longleftrightarrow> p = 1 \<or> 18 < p"
proof -
  have "p = 0 \<or> p = 1 \<or> 2 \<le> p" by (simp add: word_le_nat_alt word_unat_eq_iff) arith
  moreover have "\<not> (2 \<le> (1 :: u8))" "\<not> (18 < (0 :: u8))" "\<not> (18 < (1 :: u8))"
    by (simp_all add: word_less_nat_alt word_le_nat_alt)
  ultimately show ?thesis
    by (auto simp: validate_smaller_precision_def not_less)
qed

lemma validate_smaller_precision_mono:
  assumes "validate_smaller_precision D b p = Some True" "p \<noteq> 0" "p \<le> q" "q \<le> 18"
  shows "validate_smaller_precision D b q = Some True"
proof -
  from assms have "2 \<le> p" "prec_match (unat p) (d_print D (balance_inner b))"
    by (auto simp: validate_smaller_precision_def split: if_splits)
  moreover from this assms(3) have "2 \<le> q" "q \<noteq> 0" "unat p \<le> unat q"
    by (auto simp: word_le_nat_alt)
  ultimately show ?thesis
    using assms(4) prec_match_mono by (auto simp: validate_smaller_precision_def)
qed

end
