(* ===== verification/Share_Map.thy ===== *)
theory Share_Map
  imports Addresses Balance "HOL-Library.AList" "HOL-Library.Multiset"
begin

text \<open>
  \<open>account/src/share_map.rs\<close>.  The \<open>HashMap\<close> is an association list with distinct keys.  Its
  iteration order is unspecified: \<open>iter\<close>, which lists the entries in the order a \<open>for\<close> loop
  sees them, is a parameter, and what the properties need of it is that it permutes them.
  Other parameters: \<open>verify\<close> (\<open>crypto::verify\<close>, a call into \<open>rust_sodium\<close>), the decimals
  \<open>D\<close>, and \<open>rlp_encode\<close>/\<open>rlp_decode\<close> for lists of byte strings.
\<close>

type_synonym entries = "(NormalAddress \<times> u32) list"

record ShareMap =
  sm_entries :: entries
  sm_issued :: u32

definition sm_new :: ShareMap where
  "sm_new = \<lparr>sm_entries = [], sm_issued = 0\<rparr>"

definition sm_keys :: "(entries \<Rightarrow> entries) \<Rightarrow> ShareMap \<Rightarrow> NormalAddress list" where
  "sm_keys iter sm = map fst (iter (sm_entries sm))"

definition sm_get :: "ShareMap \<Rightarrow> NormalAddress \<Rightarrow> u32 option" where
  "sm_get sm key = map_of (sm_entries sm) key"

definition add_shareholder :: "ShareMap \<Rightarrow> NormalAddress \<Rightarrow> u32 \<Rightarrow> ShareMap option" where
  "add_shareholder sm addr shares = do {
     issued \<leftarrow> checked_add (sm_issued sm) shares;
     Some (sm\<lparr>sm_entries := AList.update addr shares (sm_entries sm), sm_issued := issued\<rparr>)
   }"

definition issue_shares :: "ShareMap \<Rightarrow> NormalAddress \<Rightarrow> u32 \<Rightarrow> ShareMap option" where
  "issue_shares sm addr shares = do {
     shares \<leftarrow> (case map_of (sm_entries sm) addr of
         Some current_shares \<Rightarrow> checked_add current_shares shares
       | None \<Rightarrow> Some shares);
     issued \<leftarrow> checked_add (sm_issued sm) shares;
     Some (sm\<lparr>sm_entries := AList.update addr shares (sm_entries sm), sm_issued := issued\<rparr>)
   }"

definition transfer_shares :: "ShareMap \<Rightarrow> NormalAddress \<Rightarrow> NormalAddress \<Rightarrow> u32 \<Rightarrow> ShareMap option" where
  "transfer_shares sm from to amount = do {
     current_shares \<leftarrow> map_of (sm_entries sm) from;
     if current_shares < amount then None
     else do {
       let from_shares = current_shares - amount;
       to_shares \<leftarrow> (case map_of (sm_entries sm) to of
           Some current \<Rightarrow> checked_add current amount
         | None \<Rightarrow> Some amount);
       let m = (if from_shares = 0 then AList.delete from (sm_entries sm)
                else AList.update from from_shares (sm_entries sm));
       Some (sm\<lparr>sm_entries := AList.update to to_shares m\<rparr>)
     }
   }"

text \<open>\<open>format!("{}", n)\<close> of an unsigned integer.\<close>

fun show_nat :: "nat \<Rightarrow> string" where
  "show_nat n = (if n < 10 then [char_of (48 + n)] else show_nat (n div 10) @ [char_of (48 + n mod 10)])"

declare show_nat.simps [simp del]

definition signer_ratio :: "'d decimal \<Rightarrow> u32 \<Rightarrow> u32 \<Rightarrow> 'd option" where
  "signer_ratio D shares issued = do {
     a \<leftarrow> d_parse D (show_nat (unat shares) @ ''.0'');
     b \<leftarrow> d_parse D (show_nat (unat issued) @ ''.0'');
     q \<leftarrow> d_div D a b;
     c \<leftarrow> d_parse D ''100.0'';
     d_mul D q c
   }"

text \<open>\<open>None\<close> is a panic, \<open>Some None\<close> that no key verifies the signature.\<close>

definition find_signer ::
  "'d decimal \<Rightarrow> (entries \<Rightarrow> entries) \<Rightarrow> (u8 list \<Rightarrow> PrimitiveSig \<Rightarrow> u8 list \<Rightarrow> bool) \<Rightarrow>
     ShareMap \<Rightarrow> u8 list \<Rightarrow> PrimitiveSig \<Rightarrow> 'd option option" where
  "find_signer D iter verify sm message signature =
     (case find (\<lambda>(addr, shares). verify message signature (pkey addr)) (iter (sm_entries sm)) of
        Some (addr, shares) \<Rightarrow> map_option Some (signer_ratio D shares (sm_issued sm))
      | None \<Rightarrow> Some None)"

definition sm_entry_bytes :: "NormalAddress \<times> u32 \<Rightarrow> u8 list" where
  "sm_entry_bytes kv = encode_be_u32 (snd kv) @ normal_to_bytes (fst kv)"

definition sm_to_bytes :: "(u8 list list \<Rightarrow> u8 list) \<Rightarrow> (entries \<Rightarrow> entries) \<Rightarrow> ShareMap \<Rightarrow> u8 list" where
  "sm_to_bytes rlp_encode iter sm = rlp_encode (map sm_entry_bytes (iter (sm_entries sm)))"

fun sm_from_entries :: "u8 list list \<Rightarrow> ShareMap \<Rightarrow> (CodecError + ShareMap) option" where
  "sm_from_entries [] sm = Some (Inr sm)"
| "sm_from_entries (bytes # rest) sm =
     (if length bytes = 37 then
        (case decode_be_u32 bytes of
           None \<Rightarrow> Some (Inl Bad_shares)
         | Some shares \<Rightarrow> do {
             (_, b) \<leftarrow> drain 4 bytes;
             (address_vec, _) \<leftarrow> drain 33 b;
             r \<leftarrow> normal_from_bytes address_vec;
             (case r of
                Inr address \<Rightarrow> do {
                  issued \<leftarrow> checked_add (sm_issued sm) shares;
                  sm_from_entries rest
                    \<lparr>sm_entries = AList.update address shares (sm_entries sm), sm_issued = issued\<rparr>
                }
              | Inl err \<Rightarrow> Some (Inl err))
           })
      else Some (Inl Bad_address))"

definition sm_from_bytes ::
  "(u8 list \<Rightarrow> u8 list list) \<Rightarrow> u8 list \<Rightarrow> (CodecError + ShareMap) option" where
  "sm_from_bytes rlp_decode bin = sm_from_entries (rlp_decode bin) sm_new"

section \<open>Counting shares\<close>

definition total_shares :: "entries \<Rightarrow> nat" where
  "total_shares es = (\<Sum>(_, n) \<leftarrow> es. unat n)"

text \<open>The invariant the type means to have: the issued shares are the owned ones.\<close>

definition sm_ok :: "ShareMap \<Rightarrow> bool" where
  "sm_ok sm \<longleftrightarrow> distinct (map fst (sm_entries sm)) \<and>
     unat (sm_issued sm) = total_shares (sm_entries sm)"

definition owned :: "entries \<Rightarrow> NormalAddress \<Rightarrow> nat" where
  "owned es a = (case map_of es a of Some n \<Rightarrow> unat n | None \<Rightarrow> 0)"

lemma total_update:
  "distinct (map fst es) \<Longrightarrow>
     total_shares (AList.update a n es) + owned es a = total_shares es + unat n"
  by (induction es) (auto simp: total_shares_def owned_def split: option.split)

lemma owned_Nil_Cons [simp]:
  "owned [] a = 0" "owned ((k, n) # es) a = (if k = a then unat n else owned es a)"
  by (simp_all add: owned_def)

lemma total_Nil_Cons [simp]:
  "total_shares [] = 0" "total_shares ((k, n) # es) = unat n + total_shares es"
  by (simp_all add: total_shares_def)

lemma total_delete:
  "distinct (map fst es) \<Longrightarrow> total_shares (AList.delete a es) + owned es a = total_shares es"
proof (induction es)
  case (Cons e es)
  obtain k n where e: "e = (k, n)" by force
  have "a \<notin> fst ` set es \<Longrightarrow> AList.delete a es = es"
    by (force simp: AList.delete_eq filter_id_conv)
  with Cons e show ?case by (auto simp: AList.delete_eq)
qed simp

lemma owned_simps [simp]:
  "owned (AList.update a n es) b = (if b = a then unat n else owned es b)"
  "owned (AList.delete a es) b = (if b = a then 0 else owned es b)"
  by (auto simp: owned_def update_conv' delete_conv')

lemma distinct_entries [simp]:
  "distinct (map fst es) \<Longrightarrow> distinct (map fst (AList.update a n es))"
  "distinct (map fst es) \<Longrightarrow> distinct (map fst (AList.delete a es))"
  by (simp_all add: distinct_update distinct_delete)

text \<open>
  Both ways of issuing count the shares the address already owned a second time, so they keep
  the invariant for a new shareholder only.
\<close>

lemma add_shareholder_count:
  assumes "sm_ok sm" "add_shareholder sm addr n = Some sm'"
  shows "owned (sm_entries sm') addr = unat n"
    "unat (sm_issued sm') = total_shares (sm_entries sm') + owned (sm_entries sm) addr"
    "distinct (map fst (sm_entries sm'))"
  using assms total_update[of "sm_entries sm" addr n]
  by (auto simp: add_shareholder_def bind_eq_Some_conv sm_ok_def dest!: checked_add_Some_unat)

lemma issue_shares_count:
  assumes "sm_ok sm" "issue_shares sm addr n = Some sm'"
  shows "owned (sm_entries sm') addr = owned (sm_entries sm) addr + unat n"
    "unat (sm_issued sm') = total_shares (sm_entries sm') + owned (sm_entries sm) addr"
    "distinct (map fst (sm_entries sm'))"
proof -
  from assms(2) obtain k where k: "unat k = owned (sm_entries sm) addr + unat n"
    and r: "unat (sm_issued sm') = unat (sm_issued sm) + unat k"
      "sm_entries sm' = AList.update addr k (sm_entries sm)"
    by (cases "map_of (sm_entries sm) addr")
      (auto simp: issue_shares_def bind_eq_Some_conv owned_def dest!: checked_add_Some_unat)
  with assms(1) total_update[of "sm_entries sm" addr k]
  show "owned (sm_entries sm') addr = owned (sm_entries sm) addr + unat n"
    "unat (sm_issued sm') = total_shares (sm_entries sm') + owned (sm_entries sm) addr"
    "distinct (map fst (sm_entries sm'))"
    by (auto simp: sm_ok_def)
qed

lemma sm_ok_new: "sm_ok sm_new"
  by (simp add: sm_ok_def sm_new_def)

text \<open>A transfer between two addresses moves the amount; one to oneself creates it.\<close>

lemma transfer_shares_cases:
  assumes "transfer_shares sm from to n = Some sm'"
  obtains c t m where "map_of (sm_entries sm) from = Some c" "n \<le> c"
    "unat t = owned (sm_entries sm) to + unat n" "sm' = sm\<lparr>sm_entries := AList.update to t m\<rparr>"
    "m = (if c = n then AList.delete from (sm_entries sm) else AList.update from (c - n) (sm_entries sm))"
  using assms
  by (cases "map_of (sm_entries sm) to")
    (auto simp: transfer_shares_def Let_def bind_eq_Some_conv owned_def not_less
      dest!: checked_add_Some_unat split: if_splits)

lemma transfer_moves:
  assumes "distinct (map fst (sm_entries sm))" "transfer_shares sm from to n = Some sm'" "from \<noteq> to"
  shows "owned (sm_entries sm') from + unat n = owned (sm_entries sm) from \<and>
    owned (sm_entries sm') to = owned (sm_entries sm) to + unat n \<and>
    (\<forall>a. a \<noteq> from \<longrightarrow> a \<noteq> to \<longrightarrow> owned (sm_entries sm') a = owned (sm_entries sm) a) \<and>
    total_shares (sm_entries sm') = total_shares (sm_entries sm) \<and>
    sm_issued sm' = sm_issued sm \<and> distinct (map fst (sm_entries sm'))"
  using assms(2)
proof (cases rule: transfer_shares_cases)
  case (1 c t m)
  have c: "owned (sm_entries sm) from = unat c" using 1(1) by (simp add: owned_def)
  have d: "distinct (map fst m)" using assms(1) 1(5) by auto
  have n: "unat (c - n) + unat n = unat c" using 1(2) by (simp add: unat_sub word_le_nat_alt)
  have m: "owned m from + unat n = unat c" using 1(5) n by auto
  have o: "owned m a = owned (sm_entries sm) a" if "a \<noteq> from" for a using 1(5) that by auto
  have "total_shares m + unat n = total_shares (sm_entries sm)"
    using 1(5) total_delete[OF assms(1), of "from"] total_update[OF assms(1), of "from" "c - n"] c n by auto
  with total_update[OF d, of to t] m o assms(3) 1(3,4) c d show ?thesis by auto
qed

lemma transfer_to_self:
  assumes "distinct (map fst (sm_entries sm))" "transfer_shares sm a a n = Some sm'"
  shows "owned (sm_entries sm') a = owned (sm_entries sm) a + unat n \<and>
    total_shares (sm_entries sm') = total_shares (sm_entries sm) + unat n"
  using assms(2)
proof (cases rule: transfer_shares_cases)
  case (1 c t m)
  have c: "owned (sm_entries sm) a = unat c" using 1(1) by (simp add: owned_def)
  have d: "distinct (map fst m)" using assms(1) 1(5) by auto
  have n: "unat (c - n) + unat n = unat c" using 1(2) by (simp add: unat_sub word_le_nat_alt)
  have om: "owned m a + unat n = unat c" using 1(5) n by auto
  have "total_shares m + unat n = total_shares (sm_entries sm)"
    using 1(5) total_delete[OF assms(1), of a] total_update[OF assms(1), of a "c - n"] c n by auto
  with total_update[OF d, of a t] om 1(3,4) c show ?thesis by auto
qed

text \<open>A found signer is a shareholder whose key verifies the signature.\<close>

lemma find_signer_None:
  assumes "mset (iter (sm_entries sm)) = mset (sm_entries sm)"
  shows "find_signer D iter verify sm msg sig = Some None \<longleftrightarrow>
    (\<forall>(a, n) \<in> set (sm_entries sm). \<not> verify msg sig (pkey a))"
proof -
  let ?P = "\<lambda>(addr, shares :: u32). verify msg sig (pkey addr)"
  from assms have "set (iter (sm_entries sm)) = set (sm_entries sm)" by (metis set_mset_mset)
  moreover have "find_signer D iter verify sm msg sig = Some None \<longleftrightarrow>
      find ?P (iter (sm_entries sm)) = None"
    by (auto simp: find_signer_def split: option.split)
  ultimately show ?thesis by (auto simp: find_None_iff)
qed

lemma find_signer_Some:
  assumes "mset (iter (sm_entries sm)) = mset (sm_entries sm)"
    "find_signer D iter verify sm msg sig = Some (Some r)"
  shows "\<exists>a n. (a, n) \<in> set (sm_entries sm) \<and> verify msg sig (pkey a) \<and>
    signer_ratio D n (sm_issued sm) = Some r"
proof -
  from assms(2) obtain a n where f: "find (\<lambda>(addr, shares). verify msg sig (pkey addr))
      (iter (sm_entries sm)) = Some (a, n)" and r: "signer_ratio D n (sm_issued sm) = Some r"
    by (auto simp: find_signer_def split: option.split_asm)
  from f have "(a, n) \<in> set (iter (sm_entries sm))" "verify msg sig (pkey a)"
    by (auto simp: find_Some_iff) (metis nth_mem)
  moreover have "set (iter (sm_entries sm)) = set (sm_entries sm)" using assms(1) by (metis set_mset_mset)
  ultimately show ?thesis using r by auto
qed

section \<open>Serialisation\<close>

lemma update_fresh: "a \<notin> fst ` set es \<Longrightarrow> AList.update a n es = es @ [(a, n)]"
  by (induction es) auto

lemma sm_from_entries_append:
  assumes "distinct (map fst (es0 @ es))" "\<forall>(a, n) \<in> set es. wf_normal a"
    "unat iss + total_shares es < 2 ^ 32"
  shows "sm_from_entries (map sm_entry_bytes es) \<lparr>sm_entries = es0, sm_issued = iss\<rparr> =
    Some (Inr \<lparr>sm_entries = es0 @ es, sm_issued = of_nat (unat iss + total_shares es)\<rparr>)"
  using assms
proof (induction es arbitrary: es0 iss)
  case (Cons e es)
  obtain a n where e: "e = (a, n)" by force
  have w: "length (encode_be_u32 n) = 4" "length (normal_to_bytes a) = 33"
    using Cons.prems(2) e by (auto simp: be_u32.enc_width normal.enc_width)
  let ?b = "sm_entry_bytes e"
  have b: "length ?b = 37" "decode_be_u32 ?b = Some n" "drop 4 ?b = normal_to_bytes a"
    using e w by (simp_all add: sm_entry_bytes_def be_u32.dec_enc)
  have add: "checked_add iss n = Some (iss + n)" "unat (iss + n) = unat iss + unat n"
    using Cons.prems(3) e by (auto simp: checked_add_def unat_word_ariths)
  have upd: "AList.update a n es0 = es0 @ [(a, n)]"
    by (rule update_fresh) (use Cons.prems(1) e in auto)
  have "normal_from_bytes (normal_to_bytes a) = Some (Inr a)"
    using Cons.prems(2) e by (simp add: normal.dec_enc)
  with b add upd w Cons.IH[of "es0 @ [e]" "iss + n"] Cons.prems e show ?case
    by (simp add: add.assoc)
qed simp

lemma total_mset: "mset es = mset fs \<Longrightarrow> total_shares es = total_shares fs"
  unfolding total_shares_def by (metis mset_map sum_mset_sum_list)

lemma sm_roundtrip:
  assumes "\<And>xs. rlp_decode (rlp_encode xs) = xs"
    and "mset (iter (sm_entries sm)) = mset (sm_entries sm)"
    and "sm_ok sm" "\<forall>(a, n) \<in> set (sm_entries sm). wf_normal a"
  shows "\<exists>sm'. sm_from_bytes rlp_decode (sm_to_bytes rlp_encode iter sm) = Some (Inr sm') \<and>
    sm_issued sm' = sm_issued sm \<and> sm_get sm' = sm_get sm \<and> sm_ok sm'"
proof -
  let ?es = "iter (sm_entries sm)"
  have s: "set ?es = set (sm_entries sm)" using assms(2) by (metis set_mset_mset)
  have d: "distinct (map fst ?es)"
    using assms(2,3) by (metis mset_eq_imp_distinct_iff mset_map sm_ok_def)
  have t: "total_shares ?es = unat (sm_issued sm)"
    using total_mset[OF assms(2)] assms(3) by (simp add: sm_ok_def)
  have "unat (sm_issued sm) < 2 ^ 32" using unsigned_less[of "sm_issued sm"] by simp
  with t d s assms(4) have "sm_from_entries (map sm_entry_bytes ?es) sm_new =
      Some (Inr \<lparr>sm_entries = ?es, sm_issued = sm_issued sm\<rparr>)"
    using sm_from_entries_append[of "[]" ?es 0] by (simp add: sm_new_def)
  moreover have "map_of ?es = map_of (sm_entries sm)"
    using assms(2,3) d s by (intro map_of_eqI) (auto simp: sm_ok_def)
  ultimately show ?thesis
    using assms(1) d t by (simp add: sm_from_bytes_def sm_to_bytes_def sm_get_def fun_eq_iff sm_ok_def)
qed

end
