(* ===== verification/Multi_Sig.thy ===== *)
theory Multi_Sig
  imports Share_Map
begin

text \<open>
  \<open>account/src/multi_sig.rs\<close> and \<open>account/src/signature.rs\<close>.  \<open>verify\<close> stands for
  \<open>crypto::verify\<close>; the loops over signatures and keys return as soon as the outcome is known.
\<close>

datatype MultiSig = MultiSig (msigs: "PrimitiveSig list")

definition from_sig :: "PrimitiveSig \<Rightarrow> MultiSig" where
  "from_sig signature = MultiSig [signature]"

definition append_sig :: "MultiSig \<Rightarrow> PrimitiveSig \<Rightarrow> MultiSig" where
  "append_sig m signature = MultiSig (msigs m @ [signature])"

type_synonym verifier = "u8 list \<Rightarrow> PrimitiveSig \<Rightarrow> u8 list \<Rightarrow> bool"

fun verify_loop ::
  "verifier \<Rightarrow> u8 list \<Rightarrow> u8 \<Rightarrow> u8 list list \<Rightarrow> u8 \<Rightarrow> PrimitiveSig list \<Rightarrow> bool option" where
  "verify_loop verify message required_keys pkeys validated_keys [] = Some False"
| "verify_loop verify message required_keys pkeys validated_keys (sig # rest) =
     (if \<not> list_ex (\<lambda>pk. verify message sig pk) pkeys then Some False
      else do {
        validated_keys \<leftarrow> checked_add validated_keys 1;
        if validated_keys = required_keys then Some True
        else verify_loop verify message required_keys pkeys validated_keys rest
      })"

definition msig_verify ::
  "verifier \<Rightarrow> MultiSig \<Rightarrow> u8 list \<Rightarrow> u8 \<Rightarrow> u8 list list \<Rightarrow> bool option" where
  "msig_verify verify m message required_keys pkeys =
     (if required_keys < 2 then None
      else if length pkeys < unat required_keys then None
      else verify_loop verify message required_keys pkeys 0 (msigs m))"

fun verify_shares_loop ::
  "'d decimal \<Rightarrow> (entries \<Rightarrow> entries) \<Rightarrow> verifier \<Rightarrow> u8 list \<Rightarrow> 'd \<Rightarrow> ShareMap \<Rightarrow> 'd \<Rightarrow>
     PrimitiveSig list \<Rightarrow> bool option" where
  "verify_shares_loop D iter verify message required sm signed_ratio [] = Some False"
| "verify_shares_loop D iter verify message required sm signed_ratio (sig # rest) = do {
     r \<leftarrow> find_signer D iter verify sm message sig;
     (case r of
        None \<Rightarrow> Some False
      | Some sh_ratio \<Rightarrow> do {
          signed_ratio \<leftarrow> d_add D signed_ratio sh_ratio;
          if d_ge D signed_ratio required then Some True
          else verify_shares_loop D iter verify message required sm signed_ratio rest
        })
   }"

definition verify_shares ::
  "'d decimal \<Rightarrow> (entries \<Rightarrow> entries) \<Rightarrow> verifier \<Rightarrow> MultiSig \<Rightarrow> u8 list \<Rightarrow> u8 \<Rightarrow> ShareMap \<Rightarrow> bool option" where
  "verify_shares D iter verify m message required_percentile sm =
     (if 100 < required_percentile \<or> required_percentile = 0 then None
      else do {
        signed_ratio \<leftarrow> d_parse D ''0'';
        required \<leftarrow> d_parse D (show_nat (unat required_percentile));
        verify_shares_loop D iter verify message required sm signed_ratio (msigs m)
      })"

definition msig_to_bytes :: "(u8 list list \<Rightarrow> u8 list) \<Rightarrow> MultiSig \<Rightarrow> u8 list" where
  "msig_to_bytes rlp_encode m = 2 # rlp_encode (map sig_to_bytes (msigs m))"

fun msig_from_entries :: "u8 list list \<Rightarrow> PrimitiveSig list \<Rightarrow> (CodecError + MultiSig) option" where
  "msig_from_entries [] result = Some (Inr (MultiSig result))"
| "msig_from_entries (bytes # rest) result =
     (if length bytes = 65 then do {
        b \<leftarrow> copy_from_slice 65 bytes;
        r \<leftarrow> sig_from_bytes b;
        (case r of
           Inr sig \<Rightarrow> msig_from_entries rest (result @ [sig])
         | Inl _ \<Rightarrow> Some (Inl Invalid_signature))
      } else Some (Inl Invalid_signature_length))"

text \<open>\<open>split_at(1)\<close> panics on the empty slice.\<close>

definition msig_from_bytes ::
  "(u8 list \<Rightarrow> u8 list list) \<Rightarrow> u8 list \<Rightarrow> (CodecError + MultiSig) option" where
  "msig_from_bytes rlp_decode bin = (case bin of
       [] \<Rightarrow> None
     | head # tail \<Rightarrow>
         if head = 2 then msig_from_entries (rlp_decode tail) []
         else Some (Inl Invalid_signature_type))"

datatype Account_Signature = NormalSig PrimitiveSig | MultiSigSig MultiSig

primrec signature_to_bytes :: "(u8 list list \<Rightarrow> u8 list) \<Rightarrow> Account_Signature \<Rightarrow> u8 list" where
  "signature_to_bytes rlp_encode (NormalSig sig) = sig_to_bytes sig"
| "signature_to_bytes rlp_encode (MultiSigSig sig) = msig_to_bytes rlp_encode sig"

definition signature_from_bytes ::
  "(u8 list \<Rightarrow> u8 list list) \<Rightarrow> u8 list \<Rightarrow> (CodecError + Account_Signature) option" where
  "signature_from_bytes rlp_decode bin = (case bin of
       [] \<Rightarrow> None
     | head # _ \<Rightarrow>
         if head = 1 then
           (if length bin = 65 then do {
              r \<leftarrow> sig_from_bytes bin;
              Some (case r of Inr sig \<Rightarrow> Inr (NormalSig sig) | Inl _ \<Rightarrow> Inl Invalid_signature)
            } else Some (Inl Invalid_signature))
         else if head = 2 then map_option (map_sum id MultiSigSig) (msig_from_bytes rlp_decode bin)
         else Some (Inl Invalid_signature_type))"

section \<open>What the verification of a multi-signature checks\<close>

definition verified_by :: "verifier \<Rightarrow> u8 list \<Rightarrow> u8 list list \<Rightarrow> PrimitiveSig \<Rightarrow> bool" where
  "verified_by verify message pkeys sig \<longleftrightarrow> (\<exists>pk \<in> set pkeys. verify message sig pk)"

lemma verify_loop_eq:
  assumes "v < required"
  shows "verify_loop verify msg required pkeys v sigs =
    Some (unat (required - v) \<le> length sigs \<and>
      (\<forall>sig \<in> set (take (unat (required - v)) sigs). verified_by verify msg pkeys sig))"
  using assms
proof (induction sigs arbitrary: v)
  case Nil
  then have "unat (required - v) \<noteq> 0" by (simp add: unat_eq_zero)
  then show ?case by simp
next
  case (Cons sig sigs)
  have v: "unat v < unat required" using Cons.prems by (simp add: word_less_nat_alt)
  have "unat v + 1 < 2 ^ 8" using v unsigned_less[of required, where 'a = nat] by simp
  then have c: "checked_add v 1 = Some (v + 1)" "unat (v + 1) = unat v + 1"
    by (auto simp: checked_add_def unat_word_ariths)
  have d: "unat (required - v) = Suc (unat required - unat v - 1)"
    using v by (simp add: unat_sub word_le_nat_alt)
  show ?case
  proof (cases "v + 1 = required")
    case True
    then have "unat required - unat v - 1 = 0" using c(2) by auto
    with c True d show ?thesis by (auto simp: verified_by_def list_ex_iff)
  next
    case False
    then have "v + 1 < required" using v c(2) by (simp add: word_less_nat_alt word_unat_eq_iff)
    moreover from this have "unat (required - (v + 1)) = unat required - unat v - 1"
      using c(2) by (simp add: unat_sub word_le_nat_alt word_less_nat_alt)
    ultimately show ?thesis
      using Cons.IH[of "v + 1"] c False d by (auto simp: verified_by_def list_ex_iff)
  qed
qed

lemma msig_verify_iff:
  assumes "2 \<le> required" "unat required \<le> length pkeys"
  shows "msig_verify verify m msg required pkeys = Some (unat required \<le> length (msigs m) \<and>
      (\<forall>sig \<in> set (take (unat required) (msigs m)). verified_by verify msg pkeys sig))"
proof -
  have "0 < required" using assms(1) by (simp add: word_less_nat_alt word_le_nat_alt)
  then show ?thesis
    using assms verify_loop_eq[of 0 required verify msg pkeys "msigs m"]
    by (simp add: msig_verify_def not_less)
qed

text \<open>One signature, repeated, satisfies any threshold.\<close>

lemma repeated_signature:
  assumes "2 \<le> required" "unat required \<le> length pkeys" "pk \<in> set pkeys" "verify msg sig pk"
  shows "msig_verify verify (MultiSig (replicate (unat required) sig)) msg required pkeys = Some True"
  using assms by (auto simp: msig_verify_iff verified_by_def)

section \<open>Serialisation\<close>

lemma msig_from_entries_eq:
  assumes "\<forall>sig \<in> set sigs. wf_sig sig"
  shows "msig_from_entries (map sig_to_bytes sigs) result = Some (Inr (MultiSig (result @ sigs)))"
  using assms
  by (induction sigs arbitrary: result) (auto simp: sig_from_bytes_eq sig_to_bytes_def wf_sig_def)

lemma signature_roundtrip:
  assumes "\<And>xs. rlp_decode (rlp_encode xs) = xs"
    and "case s of NormalSig sig \<Rightarrow> wf_sig sig | MultiSigSig m \<Rightarrow> \<forall>sig \<in> set (msigs m). wf_sig sig"
  shows "signature_from_bytes rlp_decode (signature_to_bytes rlp_encode s) = Some (Inr s)"
proof (cases s)
  case (NormalSig sig)
  with assms(2) show ?thesis
    by (simp add: signature_from_bytes_def sig_to_bytes_def sig_from_bytes_eq wf_sig_def)
next
  case (MultiSigSig m)
  with assms show ?thesis
    by (simp add: signature_from_bytes_def msig_to_bytes_def msig_from_bytes_def msig_from_entries_eq)
qed

end
