(* ===== verification/Shares.thy ===== *)
theory Shares
  imports Addresses
begin

text \<open>\<open>account/src/shares.rs\<close>: the share capital of an account.\<close>

record Shares =
  s_issued :: u32
  s_authorized :: u32
  s_percentile :: u8

definition shares_new :: "u32 \<Rightarrow> u32 \<Rightarrow> u8 \<Rightarrow> Shares" where
  "shares_new issued authorized percentile =
     \<lparr>s_issued = issued, s_authorized = authorized, s_percentile = percentile\<rparr>"

definition shares_issue :: "Shares \<Rightarrow> u32 \<Rightarrow> Shares option" where
  "shares_issue s amount = do {
     total \<leftarrow> checked_add (s_issued s) amount;
     if s_authorized s < total then None
     else do {
       issued \<leftarrow> checked_add (s_issued s) amount;
       Some (s\<lparr>s_issued := issued\<rparr>)
     }
   }"

definition shares_to_bytes :: "Shares \<Rightarrow> u8 list" where
  "shares_to_bytes s =
     encode_u8 (s_percentile s) @ encode_be_u32 (s_issued s) @ encode_be_u32 (s_authorized s)"

definition shares_from_bytes :: "u8 list \<Rightarrow> CodecError + Shares" where
  "shares_from_bytes bytes =
     (if length bytes = 9 then
        (case decode_u8 bytes of
           None \<Rightarrow> Inl Bad_shares
         | Some percentile \<Rightarrow> (case decode_be_u32 (drop 1 bytes) of
             None \<Rightarrow> Inl Bad_shares
           | Some issued \<Rightarrow> (case decode_be_u32 (drop 5 bytes) of
               None \<Rightarrow> Inl Bad_shares
             | Some authorized \<Rightarrow>
                 Inr \<lparr>s_issued = issued, s_authorized = authorized, s_percentile = percentile\<rparr>)))
      else Inl Bad_shares_length)"

definition shares_ok :: "Shares \<Rightarrow> bool" where
  "shares_ok s \<longleftrightarrow> s_issued s \<le> s_authorized s"

text \<open>Issuing adds exactly, never passes the authorized amount, and panics only when it would.\<close>

lemma shares_issue_spec:
  assumes "shares_ok s"
  shows "(shares_issue s amount = None \<longleftrightarrow> unat (s_authorized s) < unat (s_issued s) + unat amount) \<and>
    (\<forall>s'. shares_issue s amount = Some s' \<longrightarrow> shares_ok s' \<and>
       unat (s_issued s') = unat (s_issued s) + unat amount \<and> s_authorized s' = s_authorized s)"
proof (cases "checked_add (s_issued s) amount")
  case None
  then have "2 ^ 32 \<le> unat (s_issued s) + unat amount" by (simp add: checked_add_def split: if_splits)
  moreover have "unat (s_authorized s) < 2 ^ 32" using unsigned_less[of "s_authorized s"] by simp
  ultimately show ?thesis using None by (simp add: shares_issue_def)
next
  case (Some t)
  from checked_add_Some_unat[OF Some] Some show ?thesis
    by (auto simp: shares_issue_def shares_ok_def word_less_nat_alt word_le_nat_alt)
qed

lemma shares_codec:
  "shares_from_bytes bytes = Inr s \<longleftrightarrow> bytes = shares_to_bytes s"
proof
  assume "bytes = shares_to_bytes s"
  moreover have "length (encode_u8 p) = 1" "length (encode_be_u32 i) = 4" for p i
    by (simp_all add: u8.enc_width be_u32.enc_width)
  moreover have "drop 5 (encode_u8 p @ encode_be_u32 i @ bs) = bs" for p i bs
    by (simp add: u8.enc_width be_u32.enc_width)
  ultimately show "shares_from_bytes bytes = Inr s"
    by (simp add: shares_from_bytes_def shares_to_bytes_def u8.dec_enc be_u32.dec_enc be_u32.roundtrip)
next
  assume "shares_from_bytes bytes = Inr s"
  then have l: "length bytes = 9" and d: "decode_u8 bytes = Some (s_percentile s)"
      "decode_be_u32 (drop 1 bytes) = Some (s_issued s)" "decode_be_u32 (drop 5 bytes) = Some (s_authorized s)"
    by (auto simp: shares_from_bytes_def split: if_splits option.split_asm)
  have "bytes = take 1 bytes @ take 4 (drop 1 bytes) @ take 4 (drop 5 bytes)"
    using l take_add[of 1 4 bytes] take_add[of 5 4 bytes] by simp
  with u8.enc_dec[OF d(1)] be_u32.enc_dec[OF d(2)] be_u32.enc_dec[OF d(3)]
  show "bytes = shares_to_bytes s" by (simp add: shares_to_bytes_def)
qed

end
