(* ===== verification/Account_Theorems.thy ===== *)
theory Account_Theorems
  imports Util Bin_Tools Multi_Sig Shares
begin

text \<open>The properties of the utilities, of addresses and of the shares of an account.\<close>

definition sample_share_map :: ShareMap where
  "sample_share_map = \<lparr>sm_entries = [(NormalAddress [1], 100), (NormalAddress [2], 50)], sm_issued = 150\<rparr>"

text \<open>
  C14.  \<open>quick_sort\<close> terminates without a panic on every slice, and leaves a sorted permutation of it.
\<close>

theorem quick_sort_sorts:
  "\<exists>ys. qs (arr :: 'a::linorder list) = Some ys \<and> sorted ys \<and> mset ys = mset arr"
  by (rule qs_sorts)

text \<open>
  \<open>tail_recurse\<close> returns, with what the step function guarantees, whenever the arguments
  descend in a well-founded order while an invariant holds.
\<close>

theorem tail_recurse_returns:
  assumes "wf R" "I c"
    and "\<And>c d. I c \<Longrightarrow> f c = Continue d \<Longrightarrow> I d \<and> (d, c) \<in> R"
    and "\<And>c r. I c \<Longrightarrow> f c = RecResult.Return r \<Longrightarrow> Q r"
  shows "\<exists>r. tail_recurse f c = Some r \<and> Q r"
  using assms by (rule tail_recurse_total)

theorem tail_recurse_returns_witness:
  "\<exists>r. tail_recurse fact_step (5, 1) = Some r \<and> r = (120 :: nat)"
proof (rule tail_recurse_returns[where R = "measure fst" and I = "\<lambda>(a, b). fact a * b = (120 :: nat)"])
  show "case (5, 1) of (a, b) \<Rightarrow> fact a * b = (120 :: nat)" by (simp add: fact_numeral)
qed (auto simp: fact_step_def fact_reduce mult.assoc mult.left_commute split: if_splits)

text \<open>
  The integer codecs of \<open>bin-tools\<close>: a decode macro returns a value exactly when the bytes
  start with the encoding of that value, in either byte order and for every width.
\<close>

theorem integer_codecs:
  "(decode_u8 bs = Some a \<longleftrightarrow> take 1 bs = encode_u8 a) \<and>
   (decode_be_u16 bs = Some b \<longleftrightarrow> take 2 bs = encode_be_u16 b) \<and>
   (decode_be_u32 bs = Some c \<longleftrightarrow> take 4 bs = encode_be_u32 c) \<and>
   (decode_be_u64 bs = Some d \<longleftrightarrow> take 8 bs = encode_be_u64 d) \<and>
   (decode_le_u16 bs = Some b \<longleftrightarrow> take 2 bs = encode_le_u16 b) \<and>
   (decode_le_u32 bs = Some c \<longleftrightarrow> take 4 bs = encode_le_u32 c) \<and>
   (decode_le_u64 bs = Some d \<longleftrightarrow> take 8 bs = encode_le_u64 d)"
  using u8.dec_iff be_u16.dec_iff be_u32.dec_iff be_u64.dec_iff le_u16.dec_iff le_u32.dec_iff le_u64.dec_iff
  by blast

section \<open>Accounts\<close>

text \<open>
  C15.  The wire format of addresses is unambiguous: \<open>Address::from_bytes\<close> accepts exactly the
  encodings of addresses of the right size, and returns the address that was encoded.
\<close>

theorem address_codec:
  "address_from_bytes bin = Some (Inr a) \<longleftrightarrow> wf_address a \<and> address_to_bytes a = bin"
  by (rule address_from_bytes_iff)



text \<open>
  Issuing shares, to a new shareholder with \<open>add_shareholder\<close> or to any with \<open>issue_shares\<close>,
  gives the address what it should own; but the count of issued shares exceeds the shares that are
  owned by what the address already had, so the two agree for new shareholders only.
\<close>

theorem issuing_counts_twice:
  assumes "sm_ok sm" "add_shareholder sm addr n = Some sm1" "issue_shares sm addr n = Some sm2"
  shows "owned (sm_entries sm1) addr = unat n \<and>
    unat (sm_issued sm1) = total_shares (sm_entries sm1) + owned (sm_entries sm) addr \<and>
    owned (sm_entries sm2) addr = owned (sm_entries sm) addr + unat n \<and>
    unat (sm_issued sm2) = total_shares (sm_entries sm2) + owned (sm_entries sm) addr \<and>
    (sm_ok sm1 \<longleftrightarrow> owned (sm_entries sm) addr = 0) \<and> (sm_ok sm2 \<longleftrightarrow> owned (sm_entries sm) addr = 0)"
  using add_shareholder_count[OF assms(1,2)] issue_shares_count[OF assms(1,3)]
  by (auto simp: sm_ok_def)

theorem issuing_counts_twice_witness:
  "\<exists>sm2. issue_shares sample_share_map (NormalAddress [1]) 5 = Some sm2 \<and>
     owned (sm_entries sm2) (NormalAddress [1]) = 105 \<and>
     unat (sm_issued sm2) = total_shares (sm_entries sm2) + 100"
proof -
  obtain sm1 sm2 where s: "add_shareholder sample_share_map (NormalAddress [1]) 5 = Some sm1"
      "issue_shares sample_share_map (NormalAddress [1]) 5 = Some sm2"
    by (simp add: add_shareholder_def issue_shares_def sample_share_map_def checked_add_def)
  have ok: "sm_ok sample_share_map" by (simp add: sample_share_map_def sm_ok_def)
  from issuing_counts_twice[OF ok s] s(2) show ?thesis by (auto simp: sample_share_map_def)
qed

text \<open>
  A transfer to oneself creates shares: the owner has the amount more than before, and so does
  the total, while the count of issued shares stays.
\<close>

theorem transfer_to_self_creates_shares:
  assumes "distinct (map fst (sm_entries sm))" "transfer_shares sm a a n = Some sm'"
  shows "owned (sm_entries sm') a = owned (sm_entries sm) a + unat n \<and>
    total_shares (sm_entries sm') = total_shares (sm_entries sm) + unat n"
  using assms by (rule transfer_to_self)

theorem transfer_to_self_creates_shares_witness:
  "\<exists>sm'. transfer_shares sample_share_map (NormalAddress [1]) (NormalAddress [1]) 30 = Some sm' \<and>
     owned (sm_entries sm') (NormalAddress [1]) = 130"
proof -
  obtain sm' where s: "transfer_shares sample_share_map (NormalAddress [1]) (NormalAddress [1]) 30 = Some sm'"
    by (simp add: transfer_shares_def sample_share_map_def checked_add_def word_less_nat_alt)
  have "distinct (map fst (sm_entries sample_share_map))" by (simp add: sample_share_map_def)
  from transfer_to_self_creates_shares[OF this s] s show ?thesis
    by (auto simp: sample_share_map_def)
qed

end
