(* ===== verification/Ledger.thy ===== *)
theory Ledger
  imports Multi_Sig Shares
begin

text \<open>
  What the transactions share: the state trie they read and write, the keys of its entries and
  the values stored there.  Everything outside the repository is collected in the record \<open>env\<close>,
  an argument of every definition:

  \<^item> \<open>e_get\<close> and \<open>e_insert\<close> are \<open>get\<close> and \<open>insert\<close> of \<open>patricia_trie::TrieDBMut\<close>; the outer
    \<open>None\<close> is its \<open>Err\<close>, which every caller turns into a panic;
  \<^item> \<open>e_hex\<close> is \<open>hex::encode\<close>, \<open>e_dec\<close> the crate \<open>rust_decimal\<close>, \<open>e_rlp_encode\<close> and
    \<open>e_rlp_decode\<close> are \<open>rlp::encode_list\<close> and \<open>rlp::decode_list\<close> on lists of byte strings;
  \<^item> \<open>e_iter\<close> is the iteration order of a \<open>HashMap\<close>;
  \<^item> \<open>e_hash\<close>, \<open>e_verify\<close> and \<open>e_sign\<close> are \<open>hash_slice\<close>, \<open>verify\<close> and \<open>sign\<close> of the crate
    \<open>crypto\<close>, which call \<open>blake2-rfc\<close> and \<open>rust_sodium\<close>.

  A \<open>Hash\<close> is the list of its 32 bytes.
\<close>

type_synonym hash = "u8 list"
type_synonym key = "u8 list"

record ('h, 'd) env =
  e_get :: "'h \<Rightarrow> key \<Rightarrow> u8 list option option"
  e_insert :: "'h \<Rightarrow> key \<Rightarrow> u8 list \<Rightarrow> 'h option"
  e_hex :: "u8 list \<Rightarrow> string"
  e_dec :: "'d decimal"
  e_rlp_encode :: "u8 list list \<Rightarrow> u8 list"
  e_rlp_decode :: "u8 list \<Rightarrow> u8 list list"
  e_iter :: "entries \<Rightarrow> entries"
  e_hash :: "u8 list \<Rightarrow> hash"
  e_verify :: verifier
  e_sign :: "u8 list \<Rightarrow> u8 list \<Rightarrow> PrimitiveSig"

section \<open>Keys\<close>

text \<open>\<open>format!("{}.{}", a, b).as_bytes()\<close>\<close>

definition dot_key :: "string \<Rightarrow> string \<Rightarrow> key" where
  "dot_key a b = as_bytes (a @ ''.'' @ b)"

definition nonce_key :: "('h, 'd) env \<Rightarrow> u8 list \<Rightarrow> key" where
  "nonce_key E addr = dot_key (e_hex E addr) ''n''"

definition cur_key :: "('h, 'd) env \<Rightarrow> u8 list \<Rightarrow> hash \<Rightarrow> key" where
  "cur_key E addr asset = dot_key (e_hex E addr) (e_hex E asset)"

section \<open>Values\<close>

text \<open>\<open>trie.get(key).unwrap().unwrap()\<close>\<close>

definition get_must :: "('h, 'd) env \<Rightarrow> 'h \<Rightarrow> key \<Rightarrow> u8 list option" where
  "get_must E t k = do { r \<leftarrow> e_get E t k; r }"

definition must :: "('e + 'a) option \<Rightarrow> 'a option" where
  "must m = do { r \<leftarrow> m; (case r of Inr x \<Rightarrow> Some x | Inl _ \<Rightarrow> None) }"

definition balance_must :: "('h, 'd) env \<Rightarrow> u8 list \<Rightarrow> 'd Balance option" where
  "balance_must E bs = must (balance_from_bytes (e_dec E) bs)"

definition get_balance :: "('h, 'd) env \<Rightarrow> 'h \<Rightarrow> key \<Rightarrow> 'd Balance option" where
  "get_balance E t k = do { bs \<leftarrow> get_must E t k; balance_must E bs }"

definition put_balance :: "('h, 'd) env \<Rightarrow> key \<Rightarrow> 'd Balance \<Rightarrow> 'h \<Rightarrow> 'h option" where
  "put_balance E k b t = e_insert E t k (balance_to_bytes (e_dec E) b)"

text \<open>\<open>Balance::from_bytes(b"0.0").unwrap()\<close>\<close>

definition zero_balance :: "('h, 'd) env \<Rightarrow> 'd Balance option" where
  "zero_balance E = balance_must E (as_bytes ''0.0'')"

text \<open>The balance an amount is added to, or the amount where there is no entry.\<close>

definition credited :: "('h, 'd) env \<Rightarrow> 'h \<Rightarrow> key \<Rightarrow> 'd Balance \<Rightarrow> 'd Balance option" where
  "credited E t k amount = do {
     r \<leftarrow> e_get E t k;
     (case r of
        Some bs \<Rightarrow> do { b \<leftarrow> balance_must E bs; balance_add (e_dec E) b amount }
      | None \<Rightarrow> Some amount)
   }"

text \<open>Reading a nonce, incrementing and encoding it.\<close>

definition next_nonce :: "u8 list \<Rightarrow> u8 list option" where
  "next_nonce bin = do {
     nonce \<leftarrow> decode_be_u64 bin;
     nonce \<leftarrow> checked_add nonce 1;
     Some (encode_be_u64 nonce)
   }"

definition zero_nonce :: "u8 list" where
  "zero_nonce = [0, 0, 0, 0, 0, 0, 0, 0]"

definition get_share_map :: "('h, 'd) env \<Rightarrow> 'h \<Rightarrow> key \<Rightarrow> ShareMap option" where
  "get_share_map E t k = do { bs \<leftarrow> get_must E t k; must (sm_from_bytes (e_rlp_decode E) bs) }"

definition put_share_map :: "('h, 'd) env \<Rightarrow> key \<Rightarrow> ShareMap \<Rightarrow> 'h \<Rightarrow> 'h option" where
  "put_share_map E k sm t = e_insert E t k (sm_to_bytes (e_rlp_encode E) (e_iter E) sm)"

section \<open>What the third-party code promises\<close>

text \<open>
  A successful \<open>insert\<close> of a non-empty value is seen by later reads of its key and by no other
  (an empty value removes the entry).
\<close>

definition trie_law :: "('h, 'd) env \<Rightarrow> bool" where
  "trie_law E \<longleftrightarrow> (\<forall>t k v t'. v \<noteq> [] \<longrightarrow> e_insert E t k v = Some t' \<longrightarrow>
     e_get E t' = (e_get E t)(k := Some (Some v)))"

definition trie_total :: "('h, 'd) env \<Rightarrow> bool" where
  "trie_total E \<longleftrightarrow> (\<forall>t k v. e_insert E t k v \<noteq> None)"

text \<open>Two lower case hexadecimal digits for every byte.\<close>

definition hex_law :: "('h, 'd) env \<Rightarrow> bool" where
  "hex_law E \<longleftrightarrow> inj (e_hex E) \<and> (\<forall>bs. length (e_hex E bs) = 2 * length bs) \<and>
     (\<forall>bs. set (e_hex E bs) \<subseteq> set ''0123456789abcdef'')"

text \<open>
  Addition and subtraction are those of the numbers \<open>val\<close> that decimals stand for, and a printed
  decimal parses to the same number.
\<close>

definition decimal_law :: "('h, 'd) env \<Rightarrow> ('d \<Rightarrow> 'v::linordered_ab_group_add) \<Rightarrow> bool" where
  "decimal_law E val \<longleftrightarrow>
     (\<forall>a b c. d_add (e_dec E) a b = Some c \<longrightarrow> val c = val a + val b) \<and>
     (\<forall>a b c. d_sub (e_dec E) a b = Some c \<longrightarrow> val c = val a - val b) \<and>
     (\<forall>a. d_print (e_dec E) a \<noteq> [] \<and>
        (\<exists>b. d_parse (e_dec E) (d_print (e_dec E) a) = Some b \<and> val b = val a)) \<and>
     (\<forall>a b. d_ge (e_dec E) a b \<longleftrightarrow> val b \<le> val a) \<and> (\<forall>a b. d_eq (e_dec E) a b \<longleftrightarrow> val a = val b)"

section \<open>Reasoning about keys and entries\<close>

lemma as_bytes_inj [simp]: "as_bytes a = as_bytes b \<longleftrightarrow> a = b"
proof
  assume "as_bytes a = as_bytes b"
  then have "map (\<lambda>b. char_of (unat b) :: char) (as_bytes a) = map (\<lambda>b. char_of (unat b)) (as_bytes b)"
    by (rule arg_cong)
  then show "a = b" by (simp add: as_bytes_def comp_def char_of_as_byte)
qed simp

lemma split_at_dot:
  assumes "CHR ''.'' \<notin> set a" "CHR ''.'' \<notin> set c" "a @ CHR ''.'' # b = c @ CHR ''.'' # d"
  shows "a = c \<and> b = d"
proof -
  have "takeWhile (\<lambda>x. x \<noteq> CHR ''.'') (a @ CHR ''.'' # b) = a"
    "takeWhile (\<lambda>x. x \<noteq> CHR ''.'') (c @ CHR ''.'' # d) = c"
    using assms(1,2) by (auto simp: takeWhile_append)
  with assms(3) show ?thesis by auto
qed

lemma hex_no_dot: "hex_law E \<Longrightarrow> CHR ''.'' \<notin> set (e_hex E bs)"
  unfolding hex_law_def by fastforce

lemma dot_key_hex:
  assumes "hex_law E"
  shows "dot_key (e_hex E a) s = dot_key (e_hex E b) u \<longleftrightarrow> a = b \<and> s = u"
proof -
  have "e_hex E a = e_hex E b \<longleftrightarrow> a = b" using assms by (auto simp: hex_law_def inj_def)
  with split_at_dot[OF hex_no_dot[OF assms] hex_no_dot[OF assms]] show ?thesis
    by (auto simp: dot_key_def)
qed

text \<open>The suffixes of the keys are not hexadecimal strings.\<close>

lemma suffix_not_hex:
  "hex_law E \<Longrightarrow> \<not> set s \<subseteq> set ''0123456789abcdef'' \<Longrightarrow> e_hex E bs \<noteq> s"
  unfolding hex_law_def by blast

lemma hex_not_suffix:
  assumes "hex_law E"
  shows "e_hex E bs \<noteq> ''n''" "e_hex E bs \<noteq> ''s''" "e_hex E bs \<noteq> ''sm''" "e_hex E bs \<noteq> ''p''"
    "e_hex E bs \<noteq> ''m''" "e_hex E bs \<noteq> ''x''" "e_hex E bs \<noteq> ''adr''" "e_hex E bs \<noteq> ''sh''"
    "e_hex E bs \<noteq> ''k''" "e_hex E bs \<noteq> ''r''"
  by (rule suffix_not_hex[OF assms], simp)+

lemma keys_distinct:
  assumes "hex_law E"
  shows "nonce_key E a = nonce_key E b \<longleftrightarrow> a = b"
    "cur_key E a x = cur_key E b y \<longleftrightarrow> a = b \<and> x = y"
    "nonce_key E a \<noteq> cur_key E b x" "cur_key E b x \<noteq> nonce_key E a"
  using dot_key_hex[OF assms] hex_not_suffix[OF assms, of x] assms
  by (auto simp: nonce_key_def cur_key_def hex_law_def inj_def)

lemma trie_law_insert:
  "trie_law E \<Longrightarrow> e_insert E t k v = Some t' \<Longrightarrow> v \<noteq> [] \<Longrightarrow> e_get E t' = (e_get E t)(k := Some (Some v))"
  by (auto simp: trie_law_def)

section \<open>The balance that is stored\<close>

text \<open>The number a stored balance stands for; 0 where there is no entry.\<close>

definition stored :: "('h, 'd) env \<Rightarrow> ('d \<Rightarrow> 'v::zero) \<Rightarrow> 'h \<Rightarrow> key \<Rightarrow> 'v" where
  "stored E val t k = (case e_get E t k of
       Some (Some bs) \<Rightarrow> (case d_parse (e_dec E) (map (\<lambda>b. char_of (unat b)) bs) of
          Some d \<Rightarrow> val d | None \<Rightarrow> 0)
     | _ \<Rightarrow> 0)"

lemma stored_eq: "e_get E t k = e_get E u k \<Longrightarrow> stored E val t k = stored E val u k"
  by (simp add: stored_def)

lemma balance_must_parse:
  assumes "balance_must E bs = Some b"
  shows "d_parse (e_dec E) (map (\<lambda>b. char_of (unat b)) bs) = Some (balance_inner b)"
  using assms
  by (auto simp: balance_must_def must_def balance_from_bytes_def from_utf8_def bind_eq_Some_conv
      split: option.split_asm if_splits)

lemma get_balance_stored:
  "get_balance E t k = Some b \<Longrightarrow> stored E val t k = val (balance_inner b)"
  by (auto simp: get_balance_def get_must_def bind_eq_Some_conv stored_def dest!: balance_must_parse)

lemma credited_stored:
  assumes "decimal_law E val" "credited E t k amount = Some b"
  shows "val (balance_inner b) = stored E val t k + val (balance_inner amount)"
proof -
  from assms(2) obtain r where r: "e_get E t k = Some r" by (auto simp: credited_def bind_eq_Some_conv)
  show ?thesis
  proof (cases r)
    case None
    with r assms(2) show ?thesis by (simp add: credited_def stored_def)
  next
    case (Some bs)
    with r assms show ?thesis
      by (auto simp: credited_def bind_eq_Some_conv stored_def balance_add_def decimal_law_def
          dest!: balance_must_parse)
  qed
qed

lemma print_bytes: "map (\<lambda>b. char_of (unat b)) (as_bytes s) = s"
  by (simp add: as_bytes_def comp_def char_of_as_byte)

lemma put_balance_get:
  assumes "trie_law E" "decimal_law E val" "put_balance E k b t = Some t'"
  shows "e_get E t' = (e_get E t)(k := Some (Some (balance_to_bytes (e_dec E) b)))"
proof -
  have "balance_to_bytes (e_dec E) b \<noteq> []"
    using assms(2) by (simp add: balance_to_bytes_def as_bytes_def decimal_law_def)
  with trie_law_insert[OF assms(1)] assms(3) show ?thesis by (simp add: put_balance_def)
qed

lemma put_balance_stored:
  assumes "trie_law E" "decimal_law E val" "put_balance E k b t = Some t'"
  shows "stored E val t' k' = (if k' = k then val (balance_inner b) else stored E val t k')"
proof (cases "k' = k")
  case True
  obtain d where "d_parse (e_dec E) (d_print (e_dec E) (balance_inner b)) = Some d" "val d = val (balance_inner b)"
    using assms(2) unfolding decimal_law_def by blast
  with True put_balance_get[OF assms] show ?thesis
    by (simp add: stored_def balance_to_bytes_def print_bytes)
next
  case False
  with put_balance_get[OF assms] show ?thesis by (simp add: stored_def)
qed

lemma insert_stored:
  assumes "trie_law E" "e_insert E t k v = Some t'" "v \<noteq> []" "k' \<noteq> k"
  shows "stored E val t' k' = stored E val t k'"
  using trie_law_insert[OF assms(1-3)] assms(4) by (simp add: stored_def)

lemma balance_sub_val:
  "decimal_law E val \<Longrightarrow> balance_sub (e_dec E) a b = Some c \<Longrightarrow>
     val (balance_inner c) = val (balance_inner a) - val (balance_inner b)"
  by (auto simp: decimal_law_def balance_sub_def)

lemma balance_add_val:
  "decimal_law E val \<Longrightarrow> balance_add (e_dec E) a b = Some c \<Longrightarrow>
     val (balance_inner c) = val (balance_inner a) + val (balance_inner b)"
  by (auto simp: decimal_law_def balance_add_def)

lemma next_nonce_eq:
  assumes "next_nonce bin = Some n"
  obtains i where "decode_be_u64 bin = Some i" "n = encode_be_u64 (i + 1)" "unat (i + 1) = unat i + 1"
  using assms that
  by (auto simp: next_nonce_def bind_eq_Some_conv checked_add_def unat_word_ariths split: if_splits)

lemma next_nonce_not_empty: "next_nonce bin = Some n \<Longrightarrow> n \<noteq> []"
  using be_u64.enc_width by (auto simp: next_nonce_def bind_eq_Some_conv) (metis length_0_conv zero_neq_numeral)

lemma zero_nonce_not_empty [simp]: "zero_nonce \<noteq> []"
  by (simp add: zero_nonce_def)

end
