(* ===== verification/Tx_Common.thy ===== *)
theory Tx_Common
  imports Ledger
begin

text \<open>
  What the files of \<open>transactions/src\<close> have in common.  They do not share code: every transaction
  has its own copy of the signing and verifying functions and of the decoding of its fields, so the
  definitions here are the bodies that are repeated, and the theory of a transaction instantiates
  them with its fields.  \<open>transactions/src/macros.rs\<close> is also here.
\<close>

section \<open>Signatures\<close>

text \<open>\<open>sign\<close> of the transactions whose sender is any \<open>Address\<close>.\<close>

definition is_normal :: "Account_Address \<Rightarrow> bool" where
  "is_normal a = (case a of Normal _ \<Rightarrow> True | _ \<Rightarrow> False)"

definition attach_signature ::
  "Account_Address \<Rightarrow> Account_Signature option \<Rightarrow> PrimitiveSig \<Rightarrow> Account_Signature option option" where
  "attach_signature addr old signature = (case old of
       Some (NormalSig _) \<Rightarrow> if is_normal addr then Some (Some (NormalSig signature)) else None
     | Some (MultiSigSig sig) \<Rightarrow> if is_normal addr then None else Some (Some (MultiSigSig (append_sig sig signature)))
     | None \<Rightarrow> Some (Some (if is_normal addr then NormalSig signature else MultiSigSig (from_sig signature))))"

text \<open>\<open>sign\<close> of the transactions that hold a \<open>MultiSig\<close>.\<close>

definition attach_multi :: "MultiSig option \<Rightarrow> PrimitiveSig \<Rightarrow> MultiSig option" where
  "attach_multi old signature = (case old of
       Some sig \<Rightarrow> Some (append_sig sig signature)
     | None \<Rightarrow> Some (from_sig signature))"

definition check_sig ::
  "('h, 'd) env \<Rightarrow> Account_Address \<Rightarrow> Account_Signature option \<Rightarrow> u8 list \<Rightarrow> bool option" where
  "check_sig E addr signature message = (case signature of
       Some (NormalSig sig) \<Rightarrow> (case addr of Normal a \<Rightarrow> Some (e_verify E message sig (pkey a)) | _ \<Rightarrow> None)
     | Some (MultiSigSig _) \<Rightarrow> None
     | None \<Rightarrow> Some False)"

definition check_multi_sig ::
  "('h, 'd) env \<Rightarrow> Account_Signature option \<Rightarrow> u8 list \<Rightarrow> u8 \<Rightarrow> u8 list list \<Rightarrow> bool option" where
  "check_multi_sig E signature message required_keys pkeys =
     (if length pkeys < unat required_keys then Some False
      else (case signature of
          Some (NormalSig _) \<Rightarrow> None
        | Some (MultiSigSig sig) \<Rightarrow> msig_verify (e_verify E) sig message required_keys pkeys
        | None \<Rightarrow> Some False))"

definition check_shares ::
  "('h, 'd) env \<Rightarrow> Account_Signature option \<Rightarrow> u8 list \<Rightarrow> u8 \<Rightarrow> ShareMap \<Rightarrow> bool option" where
  "check_shares E signature message percentile sm = (case signature of
       Some (NormalSig _) \<Rightarrow> None
     | Some (MultiSigSig sig) \<Rightarrow> verify_shares (e_dec E) (e_iter E) (e_verify E) sig message percentile sm
     | None \<Rightarrow> Some False)"

definition check_multi_shares ::
  "('h, 'd) env \<Rightarrow> MultiSig option \<Rightarrow> u8 list \<Rightarrow> u8 \<Rightarrow> ShareMap \<Rightarrow> bool option" where
  "check_multi_shares E signature message percentile sm = (case signature of
       Some sig \<Rightarrow> verify_shares (e_dec E) (e_iter E) (e_verify E) sig message percentile sm
     | None \<Rightarrow> Some False)"

text \<open>\<open>match trie.get(key) { Ok(Some(x)) => .., Ok(None) => return false, Err(err) => panic!(err) }\<close>\<close>

definition get_or_false :: "('h, 'd) env \<Rightarrow> 'h \<Rightarrow> key \<Rightarrow> (u8 list \<Rightarrow> bool option) \<Rightarrow> bool option" where
  "get_or_false E t k f = do {
     r \<leftarrow> e_get E t k;
     (case r of Some bs \<Rightarrow> f bs | None \<Rightarrow> Some False)
   }"

text \<open>The public keys stored for a multi-signature account; \<open>None\<close> when one does not decode.\<close>

fun decode_keys :: "u8 list list \<Rightarrow> u8 list list option option" where
  "decode_keys [] = Some (Some [])"
| "decode_keys (k # ks) = do {
     r \<leftarrow> normal_from_bytes k;
     (case r of
        Inr a \<Rightarrow> do { rest \<leftarrow> decode_keys ks; Some (map_option (\<lambda>keys. pkey a # keys) rest) }
      | Inl _ \<Rightarrow> Some None)
   }"

text \<open>The macro \<open>impl_validate_signature\<close>.\<close>

definition validate_signature ::
  "('h, 'd) env \<Rightarrow> 'h \<Rightarrow> Account_Address \<Rightarrow> Account_Signature option \<Rightarrow> u8 list \<Rightarrow> bool option" where
  "validate_signature E t creator signature message = (case (creator, signature) of
       (Normal _, Some (NormalSig _)) \<Rightarrow> check_sig E creator signature message
     | (Account_Address.MultiSig _, Some (MultiSigSig _)) \<Rightarrow>
         (let c = e_hex E (address_to_bytes creator) in
          get_or_false E t (dot_key c ''r'') (\<lambda>r. do {
            required_keys \<leftarrow> decode_u8 r;
            get_or_false E t (dot_key c ''k'') (\<lambda>k. do {
              keys \<leftarrow> decode_keys (e_rlp_decode E k);
              (case keys of
                 Some keys \<Rightarrow> check_multi_sig E signature message required_keys keys
               | None \<Rightarrow> Some False)
            })
          }))
     | (Shareholders _, Some (MultiSigSig _)) \<Rightarrow>
         (let c = e_hex E (address_to_bytes creator) in
          get_or_false E t (dot_key c ''s'') (\<lambda>s. do {
            shares \<leftarrow> (case shares_from_bytes s of Inr x \<Rightarrow> Some x | Inl _ \<Rightarrow> None);
            get_or_false E t (dot_key c ''sm'') (\<lambda>m. do {
              share_map \<leftarrow> must (sm_from_bytes (e_rlp_decode E) m);
              check_shares E signature message (s_percentile shares) share_map
            })
          }))
     | _ \<Rightarrow> Some False)"

text \<open>The macro \<open>impl_hash\<close>: \<open>verify_hash\<close>, over the message a transaction assembles.\<close>

definition check_hash :: "('h, 'd) env \<Rightarrow> hash option \<Rightarrow> u8 list option \<Rightarrow> bool option" where
  "check_hash E hash message = do {
     hash \<leftarrow> hash;
     message \<leftarrow> message;
     Some (hash = e_hash E message)
   }"

section \<open>Wire formats\<close>

datatype TxError = Msg string | Codec CodecError

type_synonym 'a parsed = "(TxError + 'a) option"

definition attempt :: "'a parsed \<Rightarrow> ('a \<Rightarrow> 'b parsed) \<Rightarrow> 'b parsed" where
  "attempt m k = do { r \<leftarrow> m; (case r of Inl e \<Rightarrow> Some (Inl e) | Inr x \<Rightarrow> k x) }"

definition fail :: "string \<Rightarrow> 'a parsed" where
  "fail msg = Some (Inl (Msg msg))"

text \<open>Reads of the cursor at a position of the buffer.\<close>

definition tx_u8 :: "nat \<Rightarrow> string \<Rightarrow> u8 list \<Rightarrow> u8 parsed" where
  "tx_u8 p msg bs = (if p < length bs then Some (Inr (bs ! p)) else fail msg)"

definition tx_u16 :: "nat \<Rightarrow> string \<Rightarrow> u8 list \<Rightarrow> u16 parsed" where
  "tx_u16 p msg bs = (case read_be 2 (drop p bs) of Some r \<Rightarrow> Some (Inr r) | None \<Rightarrow> fail msg)"

definition tx_u32 :: "nat \<Rightarrow> string \<Rightarrow> u8 list \<Rightarrow> u32 parsed" where
  "tx_u32 p msg bs = (case read_be 4 (drop p bs) of Some r \<Rightarrow> Some (Inr r) | None \<Rightarrow> fail msg)"

definition tx_u64 :: "nat \<Rightarrow> string \<Rightarrow> u8 list \<Rightarrow> u64 parsed" where
  "tx_u64 p msg bs = (case read_be 8 (drop p bs) of Some r \<Rightarrow> Some (Inr r) | None \<Rightarrow> fail msg)"

definition tx_type :: "u8 \<Rightarrow> u8 list \<Rightarrow> unit parsed" where
  "tx_type expected bs = attempt (tx_u8 0 ''Bad transaction type'' bs) (\<lambda>t.
     if t \<noteq> expected then fail ''Bad transation type'' else Some (Inr ()))"

definition tx_drain :: "nat \<Rightarrow> u8 list \<Rightarrow> (u8 list \<times> u8 list) parsed" where
  "tx_drain n bs = map_option Inr (drain n bs)"

text \<open>A field that is followed by others (\<open>buf.len() > n\<close>), and the last one (\<open>buf.len() == n\<close>).\<close>

definition field :: "nat \<Rightarrow> u8 list \<Rightarrow> (u8 list \<times> u8 list) parsed" where
  "field n buf = (if n < length buf then Some (Inr (take n buf, drop n buf)) else fail ''Incorrect packet structure'')"

definition last_field :: "nat \<Rightarrow> u8 list \<Rightarrow> u8 list parsed" where
  "last_field n buf = (if length buf = n then Some (Inr buf) else fail ''Incorrect packet structure'')"

text \<open>\<open>Err(err) => return Err(err)\<close>, and \<open>Err(_) => return Err(msg)\<close>.\<close>

definition or_err :: "(CodecError + 'a) option \<Rightarrow> 'a parsed" where
  "or_err m = map_option (map_sum Codec id) m"

definition or_msg :: "string \<Rightarrow> ('e + 'a) option \<Rightarrow> 'a parsed" where
  "or_msg msg m = map_option (map_sum (\<lambda>_. Msg msg) id) m"

text \<open>\<open>hash.copy_from_slice(&hash_vec); Hash(hash)\<close>\<close>

definition to_hash :: "u8 list \<Rightarrow> hash parsed" where
  "to_hash bs = map_option Inr (copy_from_slice 32 bs)"

section \<open>Reasoning about the formats\<close>

named_theorems wire_simps \<open>decoding of an encoded field\<close>

lemma attempt_Inr [simp]: "attempt (Some (Inr x)) k = k x"
  by (simp add: attempt_def)

lemma attempt_eq_Inr:
  "attempt m k = Some (Inr y) \<longleftrightarrow> (\<exists>x. m = Some (Inr x) \<and> k x = Some (Inr y))"
  by (auto simp: attempt_def bind_eq_Some_conv split: sum.split_asm)

lemma fail_simp [simp]: "fail msg \<noteq> Some (Inr x)"
  by (simp add: fail_def)

lemma field_append [wire_simps]: "length xs = n \<Longrightarrow> ys \<noteq> [] \<Longrightarrow> field n (xs @ ys) = Some (Inr (xs, ys))"
  by (auto simp: field_def)

lemma last_field_eq [wire_simps]: "length xs = n \<Longrightarrow> last_field n xs = Some (Inr xs)"
  by (simp add: last_field_def)

lemma tx_drain_append [wire_simps]: "length xs = n \<Longrightarrow> tx_drain n (xs @ ys) = Some (Inr (xs, ys))"
  by (auto simp: tx_drain_def drain_def)

lemma to_hash_eq [wire_simps]: "length h = 32 \<Longrightarrow> to_hash h = Some (Inr h)"
  by (simp add: to_hash_def copy_from_slice_def)

lemma or_err_simps [wire_simps]: "or_err (Some (Inr x)) = Some (Inr x)"
  by (simp add: or_err_def)

lemma or_msg_simps [wire_simps]: "or_msg msg (Some (Inr x)) = Some (Inr x)"
  by (simp add: or_msg_def)

text \<open>What has to hold of the parts of a transaction for its encoding to be decoded.\<close>

definition wf_balance :: "('h, 'd) env \<Rightarrow> 'd Balance \<Rightarrow> bool" where
  "wf_balance E b \<longleftrightarrow> balance_from_bytes (e_dec E) (balance_to_bytes (e_dec E) b) = Some (Inr b) \<and>
     balance_to_bytes (e_dec E) b \<noteq> [] \<and> length (balance_to_bytes (e_dec E) b) < 256"

primrec wf_signature :: "Account_Signature \<Rightarrow> bool" where
  "wf_signature (NormalSig sig) = wf_sig sig"
| "wf_signature (MultiSigSig m) = (\<forall>sig \<in> set (msigs m). wf_sig sig)"

definition rlp_law :: "('h, 'd) env \<Rightarrow> bool" where
  "rlp_law E \<longleftrightarrow> (\<forall>xs. e_rlp_decode E (e_rlp_encode E xs) = xs)"

lemma signature_wire [wire_simps]:
  "rlp_law E \<Longrightarrow> wf_signature s \<Longrightarrow>
     signature_from_bytes (e_rlp_decode E) (signature_to_bytes (e_rlp_encode E) s) = Some (Inr s)"
  by (rule signature_roundtrip) (auto simp: rlp_law_def split: Account_Signature.split)

lemma signature_not_empty [wire_simps]: "signature_to_bytes (e_rlp_encode E) s \<noteq> []"
  by (cases s) (simp_all add: sig_to_bytes_def msig_to_bytes_def)

lemma multi_sig_wire [wire_simps]:
  "rlp_law E \<Longrightarrow> \<forall>sig \<in> set (msigs m). wf_sig sig \<Longrightarrow>
     msig_from_bytes (e_rlp_decode E) (msig_to_bytes (e_rlp_encode E) m) = Some (Inr m)"
  by (simp add: rlp_law_def msig_to_bytes_def msig_from_bytes_def msig_from_entries_eq)

lemma address_wire [wire_simps]:
  "wf_address a \<Longrightarrow> address_from_bytes (address_to_bytes a) = Some (Inr a)"
  by (simp add: address_from_bytes_iff)

lemma address_width [wire_simps]: "wf_address a \<Longrightarrow> length (address_to_bytes a) = 33"
  by (cases a) (simp_all add: normal.enc_width multi_sig.enc_width shareholders.enc_width contract.enc_width)

lemma balance_wire [wire_simps]:
  "wf_balance E b \<Longrightarrow> balance_from_bytes (e_dec E) (balance_to_bytes (e_dec E) b) = Some (Inr b)"
  "wf_balance E b \<Longrightarrow> balance_to_bytes (e_dec E) b \<noteq> []"
  "wf_balance E b \<Longrightarrow> unat (word_of_nat (length (balance_to_bytes (e_dec E) b)) :: u8) =
     length (balance_to_bytes (e_dec E) b)"
  by (simp_all add: wf_balance_def unat_of_nat)

lemma u16_length [wire_simps]: "length bs < 2 ^ 16 \<Longrightarrow> unat (word_of_nat (length bs) :: u16) = length bs"
  by (simp add: unat_of_nat)

lemma fixed_address_wire [wire_simps]:
  "wf_normal a \<Longrightarrow> normal_from_bytes (normal_to_bytes a) = Some (Inr a)"
  "wf_normal a \<Longrightarrow> length (normal_to_bytes a) = 33"
  "length (sh_inner b) = 32 \<Longrightarrow> shareholders_from_bytes (shareholders_to_bytes b) = Some (Inr b)"
  "length (sh_inner b) = 32 \<Longrightarrow> length (shareholders_to_bytes b) = 33"
  by (simp_all add: normal.dec_enc normal.enc_width shareholders.dec_enc shareholders.enc_width)

lemma primitive_sig_wire [wire_simps]:
  "wf_sig s \<Longrightarrow> sig_from_bytes (sig_to_bytes s) = Some (Inr s)" "wf_sig s \<Longrightarrow> length (sig_to_bytes s) = 65"
  "sig_to_bytes s \<noteq> []" "msig_to_bytes enc m \<noteq> []"
  by (simp_all add: sig_roundtrip) (simp_all add: sig_to_bytes_def wf_sig_def msig_to_bytes_def)

text \<open>A header of three bytes and a 16-bit length.\<close>

lemma header_5:
  assumes "bytes = [a, b, c] @ encode_be_u16 w @ body"
  shows "tx_type a bytes = Some (Inr ())" "tx_u8 1 m bytes = Some (Inr b)" "tx_u8 2 m bytes = Some (Inr c)"
    "tx_u16 3 m bytes = Some (Inr w)" "tx_drain 5 bytes = Some (Inr ([a, b, c] @ encode_be_u16 w, body))"
proof -
  have "read_be 2 (encode_be_u16 w @ body) = Some w"
    using be_u16.dec_enc[of w body] by (simp add: decode_be_u16_def)
  then show "tx_u16 3 m bytes = Some (Inr w)" by (simp add: assms tx_u16_def numeral_3_eq_3)
  show "tx_drain 5 bytes = Some (Inr ([a, b, c] @ encode_be_u16 w, body))"
    using tx_drain_append[of "[a, b, c] @ encode_be_u16 w" 5 body] be_u16.enc_width[of w] by (simp add: assms)
qed (simp_all add: assms tx_type_def tx_u8_def)

text \<open>The other layouts of the fixed part.\<close>

lemma read_be_encoded:
  "read_be 2 (encode_be_u16 w @ r) = Some w" "read_be 4 (encode_be_u32 x @ r) = Some x"
  "read_be 8 (encode_be_u64 y @ r) = Some y"
  using be_u16.dec_enc[of w r] be_u32.dec_enc[of x r] be_u64.dec_enc[of y r]
  by (simp_all add: decode_be_u16_def decode_be_u32_def decode_be_u64_def)

lemma header_8:
  assumes "bytes = [a, b] @ encode_be_u16 w @ encode_be_u32 x @ body"
  shows "tx_type a bytes = Some (Inr ())" "tx_u8 1 m bytes = Some (Inr b)" "tx_u16 2 m bytes = Some (Inr w)"
    "tx_u32 4 m bytes = Some (Inr x)"
    "tx_drain 8 bytes = Some (Inr ([a, b] @ encode_be_u16 w @ encode_be_u32 x, body))"
proof -
  have "drop 4 bytes = encode_be_u32 x @ body" by (simp add: assms be_u16.enc_width)
  then show "tx_u32 4 m bytes = Some (Inr x)" by (simp add: tx_u32_def read_be_encoded)
  show "tx_drain 8 bytes = Some (Inr ([a, b] @ encode_be_u16 w @ encode_be_u32 x, body))"
    using tx_drain_append[of "[a, b] @ encode_be_u16 w @ encode_be_u32 x" 8 body]
    by (simp add: assms be_u16.enc_width be_u32.enc_width)
qed (simp_all add: assms tx_type_def tx_u8_def tx_u16_def numeral_2_eq_2 read_be_encoded[unfolded numeral_2_eq_2])

lemma header_11:
  assumes "bytes = [a, b, c] @ encode_be_u64 x @ body"
  shows "tx_type a bytes = Some (Inr ())" "tx_u8 1 m bytes = Some (Inr b)" "tx_u8 2 m bytes = Some (Inr c)"
    "tx_u64 3 m bytes = Some (Inr x)" "tx_drain 11 bytes = Some (Inr ([a, b, c] @ encode_be_u64 x, body))"
proof -
  have "drop 3 bytes = encode_be_u64 x @ body" by (simp add: assms)
  then show "tx_u64 3 m bytes = Some (Inr x)" by (simp add: tx_u64_def read_be_encoded)
  show "tx_drain 11 bytes = Some (Inr ([a, b, c] @ encode_be_u64 x, body))"
    using tx_drain_append[of "[a, b, c] @ encode_be_u64 x" 11 body] by (simp add: assms be_u64.enc_width)
qed (simp_all add: assms tx_type_def tx_u8_def)

lemma header_19:
  assumes "bytes = [a, b, c] @ encode_be_u64 x @ encode_be_u64 y @ body"
  shows "tx_type a bytes = Some (Inr ())" "tx_u8 1 m bytes = Some (Inr b)" "tx_u8 2 m bytes = Some (Inr c)"
    "tx_u64 3 m bytes = Some (Inr x)" "tx_u64 11 m bytes = Some (Inr y)"
    "tx_drain 19 bytes = Some (Inr ([a, b, c] @ encode_be_u64 x @ encode_be_u64 y, body))"
proof -
  have "drop 11 bytes = encode_be_u64 y @ body" by (simp add: assms be_u64.enc_width)
  then show "tx_u64 11 m bytes = Some (Inr y)" by (simp add: tx_u64_def read_be_encoded)
  show "tx_drain 19 bytes = Some (Inr ([a, b, c] @ encode_be_u64 x @ encode_be_u64 y, body))"
    using tx_drain_append[of "[a, b, c] @ encode_be_u64 x @ encode_be_u64 y" 19 body]
    by (simp add: assms be_u64.enc_width)
qed (use header_11[OF assms] in simp_all)

text \<open>
  The contract of the wire format of a transaction type: what is encoded is decoded again, and both
  sides agree on the type byte.
\<close>

locale tx_codec =
  fixes enc :: "'a \<Rightarrow> TxError + u8 list" and dec :: "u8 list \<Rightarrow> 'a parsed"
    and wf :: "'a \<Rightarrow> bool" and tag :: u8
  assumes enc_dec: "wf tx \<Longrightarrow> \<exists>bytes. enc tx = Inr bytes \<and> dec bytes = Some (Inr tx)"
    and enc_tag: "enc tx = Inr bytes \<Longrightarrow> \<exists>rest. bytes = tag # rest"
    and dec_tag: "dec bytes = Some (Inr tx) \<Longrightarrow> \<exists>rest. bytes = tag # rest"
begin

lemma enc_inj: "wf a \<Longrightarrow> wf b \<Longrightarrow> enc a = enc b \<Longrightarrow> a = b"
  using enc_dec by (metis Inr_inject option.inject)

lemma dec_enc: "wf tx \<Longrightarrow> enc tx = Inr bytes \<Longrightarrow> dec bytes = Some (Inr tx)"
  using enc_dec by fastforce

lemma other_type: "bytes \<noteq> [] \<Longrightarrow> hd bytes \<noteq> tag \<Longrightarrow> dec bytes \<noteq> Some (Inr tx)"
  using dec_tag by fastforce

end

lemma tx_type_Inr: "tx_type tag bytes = Some (Inr u) \<longleftrightarrow> (\<exists>rest. bytes = tag # rest)"
  by (cases bytes) (auto simp: tx_type_def tx_u8_def attempt_eq_Inr)

lemma attempt_type:
  "attempt (tx_type tag bytes) k = Some (Inr x) \<Longrightarrow> \<exists>rest. bytes = tag # rest"
  by (auto simp: attempt_eq_Inr tx_type_Inr)

section \<open>Accounts and their entries\<close>

text \<open>A new account owns nothing.\<close>

definition no_balance :: "('h, 'd) env \<Rightarrow> 'h \<Rightarrow> u8 list \<Rightarrow> hash \<Rightarrow> bool" where
  "no_balance E t addr asset \<longleftrightarrow>
     (e_get E t (nonce_key E addr) = Some None \<longrightarrow> e_get E t (cur_key E addr asset) = Some None)"

lemma received_val:
  assumes "decimal_law E val"
    "(if ex then credited E t k amount else Some amount) = Some b"
    "\<not> ex \<longrightarrow> e_get E t k = Some None"
  shows "val (balance_inner b) = stored E val t k + val (balance_inner amount)"
  using assms credited_stored[OF assms(1), of t k amount b]
  by (auto simp: stored_def split: if_splits)

lemma new_account_stored:
  assumes "trie_law E" "hex_law E" "(if ex then Some t else e_insert E t (nonce_key E a) zero_nonce) = Some u"
  shows "stored E val u (cur_key E b x) = stored E val t (cur_key E b x)"
  using assms insert_stored[OF assms(1), of t "nonce_key E a" zero_nonce u "cur_key E b x" val]
    keys_distinct[OF assms(2)]
  by (auto split: if_splits)

lemma nonce_stored:
  assumes "trie_law E" "hex_law E" "next_nonce bin = Some n" "e_insert E t (nonce_key E a) n = Some u"
  shows "stored E val u (cur_key E b x) = stored E val t (cur_key E b x)"
    "e_get E u (nonce_key E a) = Some (Some n)"
  using insert_stored[OF assms(1,4) next_nonce_not_empty[OF assms(3)], of "cur_key E b x" val]
    trie_law_insert[OF assms(1,4) next_nonce_not_empty[OF assms(3)]] keys_distinct[OF assms(2)] by auto

lemma address_to_bytes_inj:
  "wf_address a \<Longrightarrow> wf_address b \<Longrightarrow> address_to_bytes a = address_to_bytes b \<longleftrightarrow> a = b"
  using address_wire by (metis option.inject sum.inject(2))

lemma encode_not_empty [simp]: "encode_be_u32 x \<noteq> []" "encode_be_u64 y \<noteq> []"
  using be_u32.enc_width[of x] be_u64.enc_width[of y] by auto

lemma sm_to_bytes_law:
  "(\<And>xs. e_rlp_encode E xs \<noteq> []) \<Longrightarrow> sm_to_bytes (e_rlp_encode E) it sm \<noteq> []"
  by (simp add: sm_to_bytes_def)

section \<open>Frames\<close>

lemma put_balance_frame:
  "trie_law E \<Longrightarrow> decimal_law E val \<Longrightarrow> put_balance E k b t = Some t' \<Longrightarrow>
     \<forall>k'. k' \<noteq> k \<longrightarrow> e_get E t' k' = e_get E t k'"
  by (simp add: put_balance_get)

lemma insert_frame:
  "trie_law E \<Longrightarrow> e_insert E t k v = Some t' \<Longrightarrow> v \<noteq> [] \<Longrightarrow>
     \<forall>k'. k' \<noteq> k \<longrightarrow> e_get E t' k' = e_get E t k'"
  by (simp add: trie_law_insert)

text \<open>The entries of an asset are neither balances nor nonces.\<close>

lemma asset_key:
  assumes "hex_law E" "s \<in> {''s'', ''x'', ''m'', ''p'', ''sm'', ''adr'', ''sh''}"
  shows "dot_key (e_hex E a) s \<noteq> nonce_key E b" "dot_key (e_hex E a) s \<noteq> cur_key E b y"
  using assms dot_key_hex[OF assms(1)] hex_not_suffix[OF assms(1), of y]
  by (auto simp: nonce_key_def cur_key_def)

lemma put_balance_total: "trie_total E \<Longrightarrow> \<exists>u. put_balance E k b t = Some u"
  by (auto simp: trie_total_def put_balance_def)

lemma get_or_false_True:
  "get_or_false E t k f = Some True \<longleftrightarrow> (\<exists>bs. e_get E t k = Some (Some bs) \<and> f bs = Some True)"
  by (auto simp: get_or_false_def bind_eq_Some_conv split: option.split_asm)

section \<open>What a valid signature means\<close>

text \<open>Only the signature types that fit the address pass, and the check that is made is that of the type.\<close>

lemma validate_signature_kind:
  assumes "validate_signature E t creator signature message = Some True"
  shows "(\<exists>a sig. creator = Normal a \<and> signature = Some (NormalSig sig) \<and> e_verify E message sig (pkey a)) \<or>
    (\<exists>a sig. creator = Account_Address.MultiSig a \<and> signature = Some (MultiSigSig sig)) \<or>
    (\<exists>a sig. creator = Shareholders a \<and> signature = Some (MultiSigSig sig))"
  using assms
  by (auto simp: validate_signature_def check_sig_def split: Account_Address.split_asm option.split_asm
      Account_Signature.split_asm)

end
