(* ===== verification/Sample_Env.thy ===== *)
theory Sample_Env
  imports Tx_Common
begin

text \<open>
  A concrete environment on which transactions run: the trie is an association list, decimals are
  integers, \<open>sample_hex\<close> prints two hexadecimal digits for a byte and \<open>sample_rlp\<close> is a
  self-delimiting encoding of lists of byte strings.  \<open>sample_laws\<close> shows that the laws assumed of
  the third-party code hold of it together.
\<close>

section \<open>Hexadecimal digits\<close>

definition nibble :: "nat \<Rightarrow> char" where
  "nibble k = ''0123456789abcdef'' ! k"

fun sample_hex :: "u8 list \<Rightarrow> string" where
  "sample_hex [] = []"
| "sample_hex (b # bs) = nibble (unat b div 16) # nibble (unat b mod 16) # sample_hex bs"

lemma nibble_inj: "j < 16 \<Longrightarrow> k < 16 \<Longrightarrow> nibble j = nibble k \<longleftrightarrow> j = k"
  unfolding nibble_def by (rule nth_eq_iff_index_eq) simp_all

lemma nibble_hex: "k < 16 \<Longrightarrow> nibble k \<in> set ''0123456789abcdef''"
  unfolding nibble_def by (rule nth_mem) simp

lemma byte_div: "unat (b :: u8) div 16 < 16"
  using unsigned_less[of b, where ?'a = nat] by simp

lemma sample_hex_inj: "sample_hex bs = sample_hex cs \<longleftrightarrow> bs = cs"
proof (induction bs arbitrary: cs)
  case Nil
  show ?case by (cases cs) simp_all
next
  case (Cons b bs)
  show ?case
  proof (cases cs)
    case (Cons c cs')
    have "b = c" if "unat b div 16 = unat c div 16" "unat b mod 16 = unat c mod 16"
      using that by (metis div_mult_mod_eq word_unat_eq_iff)
    with Cons Cons.IH[of cs'] show ?thesis by (auto simp: nibble_inj byte_div)
  qed simp
qed

lemma sample_hex_length: "length (sample_hex bs) = 2 * length bs"
  by (induction bs) simp_all

lemma sample_hex_set: "set (sample_hex bs) \<subseteq> set ''0123456789abcdef''"
proof (induction bs)
  case (Cons b bs)
  have "unat b mod 16 < 16" by simp
  with nibble_hex[OF byte_div[of b]] nibble_hex[of "unat b mod 16"] Cons show ?case
    by (simp only: sample_hex.simps set_simps insert_subset simp_thms)
qed simp

section \<open>Decimals\<close>

definition sample_parse_nat :: "string \<Rightarrow> nat" where
  "sample_parse_nat s = foldl (\<lambda>acc c. 10 * acc + (of_char c - 48)) 0 (takeWhile (\<lambda>c. c \<noteq> CHR ''.'') s)"

definition sample_parse :: "string \<Rightarrow> int option" where
  "sample_parse s = (case s of
       [] \<Rightarrow> None
     | c # cs \<Rightarrow> Some (if c = CHR ''-'' then - int (sample_parse_nat cs) else int (sample_parse_nat s)))"

definition sample_print :: "int \<Rightarrow> string" where
  "sample_print n = (if n < 0 then CHR ''-'' # show_nat (nat (- n)) else show_nat (nat n))"

lemma show_nat_digits: "c \<in> set (show_nat n) \<Longrightarrow> 48 \<le> (of_char c :: nat) \<and> (of_char c :: nat) < 58"
proof (induction n rule: show_nat.induct)
  case (1 n)
  then show ?case by (subst (asm) (2) show_nat.simps) (auto split: if_splits)
qed

lemma show_nat_no_sign: "CHR ''.'' \<notin> set (show_nat n)" "CHR ''-'' \<notin> set (show_nat n)"
  using show_nat_digits[of "CHR ''.''" n] show_nat_digits[of "CHR ''-''" n] by auto

lemma show_nat_not_empty: "show_nat n \<noteq> []"
  by (subst show_nat.simps) simp

lemma parse_show_nat: "foldl (\<lambda>acc c. 10 * acc + (of_char c - 48)) (0 :: nat) (show_nat n) = n"
proof (induction n rule: show_nat.induct)
  case (1 n)
  then show ?case by (subst show_nat.simps) simp
qed

lemma sample_parse_show: "sample_parse_nat (show_nat n) = n"
proof -
  have "takeWhile (\<lambda>c. c \<noteq> CHR ''.'') (show_nat n) = show_nat n"
    using show_nat_no_sign(1)[of n] by (auto simp: takeWhile_eq_all_conv)
  then show ?thesis by (simp only: sample_parse_nat_def parse_show_nat)
qed

lemma sample_parse_print: "sample_parse (sample_print n) = Some n"
proof (cases "n < 0")
  case False
  obtain c cs where "show_nat (nat n) = c # cs" using show_nat_not_empty by (meson list.exhaust)
  with False show_nat_no_sign(2)[of "nat n"] sample_parse_show[of "nat n"] show ?thesis
    by (auto simp: sample_print_def sample_parse_def)
qed (simp add: sample_print_def sample_parse_def sample_parse_show)

lemma sample_print_not_empty: "sample_print n \<noteq> []"
  by (simp add: sample_print_def show_nat_not_empty)

definition sample_decimal :: "int decimal" where
  "sample_decimal = \<lparr>d_parse = sample_parse, d_print = sample_print,
     d_add = (\<lambda>a b. Some (a + b)), d_sub = (\<lambda>a b. Some (a - b)), d_mul = (\<lambda>a b. Some (a * b)),
     d_div = (\<lambda>a b. if b = 0 then None else Some (a div b)), d_ge = (\<lambda>a b. b \<le> a), d_eq = (=)\<rparr>"

section \<open>Lists of byte strings\<close>

definition sample_rlp :: "u8 list list \<Rightarrow> u8 list" where
  "sample_rlp xs = 192 # concat (map (\<lambda>x. concat (map (\<lambda>b. [1, b]) x) @ [0]) xs)"

fun sample_unrlp_from :: "u8 list \<Rightarrow> u8 list \<Rightarrow> u8 list list" where
  "sample_unrlp_from cur [] = []"
| "sample_unrlp_from cur [b] = [cur]"
| "sample_unrlp_from cur (a # b # bs) =
     (if a = 0 then cur # sample_unrlp_from [] (b # bs) else sample_unrlp_from (cur @ [b]) bs)"

definition sample_unrlp :: "u8 list \<Rightarrow> u8 list list" where
  "sample_unrlp bs = sample_unrlp_from [] (drop 1 bs)"

lemma unrlp_end: "sample_unrlp_from cur (0 # bs) = cur # sample_unrlp_from [] bs"
  by (cases bs) simp_all

lemma unrlp_string:
  "sample_unrlp_from cur (concat (map (\<lambda>b. [1, b]) x) @ 0 # bs) = (cur @ x) # sample_unrlp_from [] bs"
  by (induction x arbitrary: cur) (simp_all add: unrlp_end)

lemma sample_unrlp_rlp: "sample_unrlp (sample_rlp xs) = xs"
  by (simp add: sample_unrlp_def sample_rlp_def) (induction xs, simp_all add: unrlp_string)

lemma sample_rlp_not_empty: "sample_rlp xs \<noteq> []"
  by (simp add: sample_rlp_def)

section \<open>The environment\<close>

type_synonym sample_trie = "(key \<times> u8 list) list"

definition sample_env :: "(sample_trie, int) env" where
  "sample_env = \<lparr>e_get = (\<lambda>t k. Some (map_of t k)),
     e_insert = (\<lambda>t k v. Some (if v = [] then AList.delete k t else (k, v) # t)),
     e_hex = sample_hex, e_dec = sample_decimal, e_rlp_encode = sample_rlp, e_rlp_decode = sample_unrlp,
     e_iter = (\<lambda>es. es), e_hash = (\<lambda>bs. take 32 (bs @ replicate 32 0)),
     e_verify = (\<lambda>m sig k. take 32 (sig_inner sig) = k), e_sign = (\<lambda>m k. PrimitiveSig (k @ k))\<rparr>"

lemma sample_laws:
  "trie_law sample_env" "trie_total sample_env" "hex_law sample_env" "decimal_law sample_env (\<lambda>d. d)"
  "rlp_law sample_env" "e_rlp_encode sample_env xs \<noteq> []" "mset (e_iter sample_env es) = mset es"
proof -
  show "decimal_law sample_env (\<lambda>d. d)"
    by (simp add: decimal_law_def sample_env_def sample_decimal_def sample_parse_print sample_print_not_empty)
  show "hex_law sample_env"
    using sample_hex_set by (simp add: hex_law_def sample_env_def sample_hex_inj sample_hex_length inj_def)
qed (simp_all add: trie_law_def trie_total_def rlp_law_def sample_env_def sample_unrlp_rlp sample_rlp_not_empty fun_eq_iff)

text \<open>Balances that are not negative are stored and read back.\<close>

lemma show_nat_is_digits: "list_all is_digit (show_nat n)"
proof (induction n rule: show_nat.induct)
  case (1 n)
  have digit: "is_digit (char_of (48 + k))" if "k < 10" for k :: nat
  proof -
    have "list_all (\<lambda>k. is_digit (char_of (48 + k))) [0..<10]" by code_simp
    with that show ?thesis by (auto simp: list_all_iff)
  qed
  with 1 show ?case by (subst show_nat.simps) simp
qed

lemma sample_printed:
  assumes "0 \<le> a"
  shows "balance_to_bytes (e_dec sample_env) (Balance a) \<noteq> []"
    "balance_from_bytes (e_dec sample_env) (balance_to_bytes (e_dec sample_env) (Balance a)) = Some (Inr (Balance a))"
    "balance_must sample_env (balance_to_bytes (e_dec sample_env) (Balance a)) = Some (Balance a)"
proof -
  show "balance_to_bytes (e_dec sample_env) (Balance a) \<noteq> []"
    using sample_print_not_empty[of a] by (simp add: balance_to_bytes_def sample_env_def sample_decimal_def as_bytes_def)
  show r: "balance_from_bytes (e_dec sample_env) (balance_to_bytes (e_dec sample_env) (Balance a)) = Some (Inr (Balance a))"
    using assms show_nat_is_digits
    by (intro balance_roundtrip)
      (simp_all add: sample_env_def sample_decimal_def sample_parse_print prec0_match_def, simp add: sample_print_def)
  show "balance_must sample_env (balance_to_bytes (e_dec sample_env) (Balance a)) = Some (Balance a)"
    by (simp add: balance_must_def must_def r)
qed

end
