(* ===== verification/Tx_Send.thy ===== *)
theory Tx_Send
  imports Tx_Common
begin

text \<open>\<open>transactions/src/send.rs\<close>: a transfer of currency or of stock between two accounts.\<close>

record 'd Send =
  snd_from :: Account_Address
  snd_to :: Account_Address
  snd_amount :: "'d Balance"
  snd_fee :: "'d Balance"
  snd_asset_hash :: hash
  snd_fee_hash :: hash
  snd_hash :: "hash option"
  snd_signature :: "Account_Signature option"

definition SEND_TYPE :: u8 where
  "SEND_TYPE = 3"

section \<open>Applying\<close>

text \<open>\<open>amount.parse::<u32>()\<close>: an optional plus sign and at least one digit, within the range.\<close>

definition parse_u32 :: "string \<Rightarrow> u32 option" where
  "parse_u32 s =
     (let ds = (case s of c # cs \<Rightarrow> if c = CHR ''+'' then cs else s | [] \<Rightarrow> s);
          n = foldl (\<lambda>acc c. 10 * acc + (of_char c - 48)) (0 :: nat) ds in
      if ds \<noteq> [] \<and> list_all is_digit ds \<and> n < 2 ^ 32 then Some (word_of_nat n) else None)"

text \<open>
  The transferred asset is a stock; \<open>addr\<close> is the address of the account that issued it.  The two
  arms of the source differ in the entry of a new receiver only.
\<close>

definition send_stock :: "('h, 'd) env \<Rightarrow> 'd Send \<Rightarrow> u8 list \<Rightarrow> bool \<Rightarrow> u8 list \<Rightarrow> 'h \<Rightarrow> 'h option" where
  "send_stock E tx addr receiver_exists from_nonce t = do {
     let from = address_to_bytes (snd_from tx);
     let to = address_to_bytes (snd_to tx);
     let from_cur_key = cur_key E from (snd_asset_hash tx);
     let to_cur_key = cur_key E to (snd_asset_hash tx);
     let share_map_key = dot_key (e_hex E addr) ''sm'';
     bin \<leftarrow> get_must E t from_cur_key;
     sender_balance \<leftarrow> decode_be_u32 bin;
     sender_fee_balance \<leftarrow> get_balance E t (cur_key E from (snd_fee_hash tx));
     share_map \<leftarrow> get_share_map E t share_map_key;
     amount \<leftarrow> parse_u32 (d_print (e_dec E) (balance_inner (snd_amount tx)));
     sender_balance \<leftarrow> checked_sub sender_balance amount;
     sender_fee_balance \<leftarrow> balance_sub (e_dec E) sender_fee_balance (snd_fee tx);
     f \<leftarrow> unwrap_normal (snd_from tx);
     g \<leftarrow> unwrap_normal (snd_to tx);
     share_map \<leftarrow> transfer_shares share_map f g amount;
     r \<leftarrow> e_get E t to_cur_key;
     receiver_balance \<leftarrow> (case r of
         Some b \<Rightarrow> do { x \<leftarrow> decode_be_u32 b; checked_add x amount }
       | None \<Rightarrow> Some amount);
     t \<leftarrow> (if receiver_exists then Some t else e_insert E t (nonce_key E to) zero_nonce);
     t \<leftarrow> e_insert E t to_cur_key (encode_be_u32 receiver_balance);
     t \<leftarrow> e_insert E t from_cur_key (encode_be_u32 sender_balance);
     t \<leftarrow> put_share_map E share_map_key share_map t;
     e_insert E t (nonce_key E from) from_nonce
   }"

text \<open>The fee is paid in the currency that is sent, and in another one.\<close>

definition send_same :: "('h, 'd) env \<Rightarrow> 'd Send \<Rightarrow> bool \<Rightarrow> u8 list \<Rightarrow> 'h \<Rightarrow> 'h option" where
  "send_same E tx receiver_exists from_nonce t = do {
     let from = address_to_bytes (snd_from tx);
     let to = address_to_bytes (snd_to tx);
     let from_cur_key = cur_key E from (snd_asset_hash tx);
     let to_cur_key = cur_key E to (snd_asset_hash tx);
     sender_balance \<leftarrow> get_balance E t from_cur_key;
     sender_balance \<leftarrow> balance_sub (e_dec E) sender_balance (snd_fee tx);
     sender_balance \<leftarrow> balance_sub (e_dec E) sender_balance (snd_amount tx);
     receiver_balance \<leftarrow> (if receiver_exists then credited E t to_cur_key (snd_amount tx)
       else Some (snd_amount tx));
     t \<leftarrow> (if receiver_exists then Some t else e_insert E t (nonce_key E to) zero_nonce);
     t \<leftarrow> put_balance E from_cur_key sender_balance t;
     t \<leftarrow> put_balance E to_cur_key receiver_balance t;
     e_insert E t (nonce_key E from) from_nonce
   }"

definition send_other :: "('h, 'd) env \<Rightarrow> 'd Send \<Rightarrow> bool \<Rightarrow> u8 list \<Rightarrow> 'h \<Rightarrow> 'h option" where
  "send_other E tx receiver_exists from_nonce t = do {
     let from = address_to_bytes (snd_from tx);
     let to = address_to_bytes (snd_to tx);
     let from_cur_key = cur_key E from (snd_asset_hash tx);
     let from_fee_key = cur_key E from (snd_fee_hash tx);
     let to_cur_key = cur_key E to (snd_asset_hash tx);
     sender_cur_balance \<leftarrow> get_balance E t from_cur_key;
     sender_fee_balance \<leftarrow> get_balance E t from_fee_key;
     sender_fee_balance \<leftarrow> balance_sub (e_dec E) sender_fee_balance (snd_fee tx);
     sender_cur_balance \<leftarrow> balance_sub (e_dec E) sender_cur_balance (snd_amount tx);
     receiver_balance \<leftarrow> (if receiver_exists then credited E t to_cur_key (snd_amount tx)
       else Some (snd_amount tx));
     t \<leftarrow> (if receiver_exists then Some t else e_insert E t (nonce_key E to) zero_nonce);
     t \<leftarrow> put_balance E from_cur_key sender_cur_balance t;
     t \<leftarrow> put_balance E from_fee_key sender_fee_balance t;
     t \<leftarrow> put_balance E to_cur_key receiver_balance t;
     e_insert E t (nonce_key E from) from_nonce
   }"

definition send_apply :: "('h, 'd) env \<Rightarrow> 'd Send \<Rightarrow> 'h \<Rightarrow> 'h option" where
  "send_apply E tx t = do {
     let from = address_to_bytes (snd_from tx);
     let to = address_to_bytes (snd_to tx);
     bin_from_nonce \<leftarrow> get_must E t (nonce_key E from);
     bin_to_nonce \<leftarrow> e_get E t (nonce_key E to);
     from_nonce \<leftarrow> next_nonce bin_from_nonce;
     stock \<leftarrow> e_get E t (dot_key (e_hex E (snd_asset_hash tx)) ''adr'');
     (case stock of
        Some addr \<Rightarrow> send_stock E tx addr (bin_to_nonce \<noteq> None) from_nonce t
      | None \<Rightarrow>
          if bin_to_nonce = None \<and> \<not> is_normal (snd_to tx) then None
          else if e_hex E (snd_fee_hash tx) = e_hex E (snd_asset_hash tx)
          then send_same E tx (bin_to_nonce \<noteq> None) from_nonce t
          else send_other E tx (bin_to_nonce \<noteq> None) from_nonce t)
   }"

section \<open>Signing and hashing\<close>

definition send_sign_message :: "('h, 'd) env \<Rightarrow> 'd Send \<Rightarrow> u8 list" where
  "send_sign_message E tx = address_to_bytes (snd_from tx) @ address_to_bytes (snd_to tx) @
     snd_asset_hash tx @ snd_fee_hash tx @ balance_to_bytes (e_dec E) (snd_amount tx) @
     balance_to_bytes (e_dec E) (snd_fee tx)"

definition send_hash_message :: "('h, 'd) env \<Rightarrow> 'd Send \<Rightarrow> u8 list option" where
  "send_hash_message E tx = do {
     signature \<leftarrow> snd_signature tx;
     Some (address_to_bytes (snd_from tx) @ address_to_bytes (snd_to tx) @ snd_asset_hash tx @
       snd_fee_hash tx @ balance_to_bytes (e_dec E) (snd_amount tx) @
       balance_to_bytes (e_dec E) (snd_fee tx) @ signature_to_bytes (e_rlp_encode E) signature)
   }"

definition send_set_hash :: "('h, 'd) env \<Rightarrow> 'd Send \<Rightarrow> 'd Send option" where
  "send_set_hash E tx = do {
     message \<leftarrow> send_hash_message E tx;
     Some (tx\<lparr>snd_hash := Some (e_hash E message)\<rparr>)
   }"

definition send_verify_hash :: "('h, 'd) env \<Rightarrow> 'd Send \<Rightarrow> bool option" where
  "send_verify_hash E tx = check_hash E (snd_hash tx) (send_hash_message E tx)"

lemma send_hash_verifies: "send_set_hash E tx = Some tx' \<Longrightarrow> send_verify_hash E tx' = Some True"
  by (auto simp: send_set_hash_def send_verify_hash_def send_hash_message_def check_hash_def bind_eq_Some_conv)

definition send_sign :: "('h, 'd) env \<Rightarrow> u8 list \<Rightarrow> 'd Send \<Rightarrow> 'd Send option" where
  "send_sign E skey tx = do {
     signature \<leftarrow> attach_signature (snd_from tx) (snd_signature tx) (e_sign E (send_sign_message E tx) skey);
     Some (tx\<lparr>snd_signature := signature\<rparr>)
   }"

definition send_verify_sig :: "('h, 'd) env \<Rightarrow> 'd Send \<Rightarrow> bool option" where
  "send_verify_sig E tx = check_sig E (snd_from tx) (snd_signature tx) (send_sign_message E tx)"

definition send_verify_multi_sig :: "('h, 'd) env \<Rightarrow> 'd Send \<Rightarrow> u8 \<Rightarrow> u8 list list \<Rightarrow> bool option" where
  "send_verify_multi_sig E tx required_keys pkeys =
     check_multi_sig E (snd_signature tx) (send_sign_message E tx) required_keys pkeys"

definition send_verify_multi_sig_shares :: "('h, 'd) env \<Rightarrow> 'd Send \<Rightarrow> u8 \<Rightarrow> ShareMap \<Rightarrow> bool option" where
  "send_verify_multi_sig_shares E tx percentile sm =
     check_shares E (snd_signature tx) (send_sign_message E tx) percentile sm"

section \<open>The wire format\<close>

definition send_to_bytes :: "('h, 'd) env \<Rightarrow> 'd Send \<Rightarrow> TxError + u8 list" where
  "send_to_bytes E tx = (case snd_hash tx of
       None \<Rightarrow> Inl (Msg ''Hash field is missing'')
     | Some hash \<Rightarrow> (case snd_signature tx of
         None \<Rightarrow> Inl (Msg ''Signature field is missing'')
       | Some sig \<Rightarrow>
           (let signature = signature_to_bytes (e_rlp_encode E) sig;
                amount = balance_to_bytes (e_dec E) (snd_amount tx);
                fee = balance_to_bytes (e_dec E) (snd_fee tx) in
            Inr ([SEND_TYPE, word_of_nat (length amount), word_of_nat (length fee)] @
              encode_be_u16 (word_of_nat (length signature)) @
              address_to_bytes (snd_from tx) @ address_to_bytes (snd_to tx) @ snd_asset_hash tx @
              snd_fee_hash tx @ hash @ signature @ amount @ fee))))"

definition send_from_bytes :: "('h, 'd) env \<Rightarrow> u8 list \<Rightarrow> 'd Send parsed" where
  "send_from_bytes E bytes =
     attempt (tx_type SEND_TYPE bytes) (\<lambda>_.
     attempt (tx_u8 1 ''Bad amount len'' bytes) (\<lambda>amount_len.
     attempt (tx_u8 2 ''Bad fee len'' bytes) (\<lambda>fee_len.
     attempt (tx_u16 3 ''Bad signature len'' bytes) (\<lambda>signature_len.
     attempt (tx_drain 5 bytes) (\<lambda>(_, buf).
     attempt (field 33 buf) (\<lambda>(from_vec, buf).
     attempt (or_err (address_from_bytes from_vec)) (\<lambda>from.
     attempt (field 33 buf) (\<lambda>(to_vec, buf).
     attempt (or_err (address_from_bytes to_vec)) (\<lambda>to.
     attempt (field 32 buf) (\<lambda>(hash_vec, buf).
     attempt (to_hash hash_vec) (\<lambda>asset_hash.
     attempt (field 32 buf) (\<lambda>(hash_vec, buf).
     attempt (to_hash hash_vec) (\<lambda>fee_hash.
     attempt (field 32 buf) (\<lambda>(hash_vec, buf).
     attempt (to_hash hash_vec) (\<lambda>hash.
     attempt (field (unat signature_len) buf) (\<lambda>(sig_vec, buf).
     attempt (or_msg ''Bad signature'' (signature_from_bytes (e_rlp_decode E) sig_vec)) (\<lambda>signature.
     attempt (field (unat amount_len) buf) (\<lambda>(amount_vec, buf).
     attempt (or_msg ''Bad amount'' (balance_from_bytes (e_dec E) amount_vec)) (\<lambda>amount.
     attempt (last_field (unat fee_len) buf) (\<lambda>fee_vec.
     attempt (or_msg ''Bad gas price'' (balance_from_bytes (e_dec E) fee_vec)) (\<lambda>fee.
     Some (Inr \<lparr>snd_from = from, snd_to = to, snd_amount = amount, snd_fee = fee,
       snd_asset_hash = asset_hash, snd_fee_hash = fee_hash, snd_hash = Some hash,
       snd_signature = Some signature\<rparr>))))))))))))))))))))))"

text \<open>A transaction that fits its wire format.\<close>

definition wf_send :: "('h, 'd) env \<Rightarrow> 'd Send \<Rightarrow> bool" where
  "wf_send E tx \<longleftrightarrow> wf_address (snd_from tx) \<and> wf_address (snd_to tx) \<and>
     wf_balance E (snd_amount tx) \<and> wf_balance E (snd_fee tx) \<and>
     length (snd_asset_hash tx) = 32 \<and> length (snd_fee_hash tx) = 32 \<and>
     (\<exists>h. snd_hash tx = Some h \<and> length h = 32) \<and>
     (\<exists>s. snd_signature tx = Some s \<and> wf_signature s \<and>
        length (signature_to_bytes (e_rlp_encode E) s) < 2 ^ 16)"

lemma send_roundtrip:
  assumes "rlp_law E" "wf_send E tx"
  shows "\<exists>bytes. send_to_bytes E tx = Inr bytes \<and> send_from_bytes E bytes = Some (Inr tx)"
proof -
  from assms(2) obtain h s where h: "snd_hash tx = Some h" "length h = 32"
    and s: "snd_signature tx = Some s" "wf_signature s" "length (signature_to_bytes (e_rlp_encode E) s) < 2 ^ 16"
    by (auto simp: wf_send_def)
  define bytes where "bytes = [SEND_TYPE, word_of_nat (length (balance_to_bytes (e_dec E) (snd_amount tx))),
      word_of_nat (length (balance_to_bytes (e_dec E) (snd_fee tx)))] @
      encode_be_u16 (word_of_nat (length (signature_to_bytes (e_rlp_encode E) s))) @
      address_to_bytes (snd_from tx) @ address_to_bytes (snd_to tx) @ snd_asset_hash tx @
      snd_fee_hash tx @ h @ signature_to_bytes (e_rlp_encode E) s @
      balance_to_bytes (e_dec E) (snd_amount tx) @ balance_to_bytes (e_dec E) (snd_fee tx)"
  have "send_to_bytes E tx = Inr bytes"
    using h s by (simp add: send_to_bytes_def bytes_def Let_def)
  moreover have "snd_asset_hash tx \<noteq> []" "snd_fee_hash tx \<noteq> []" "h \<noteq> []"
    using assms(2) h(2) by (auto simp: wf_send_def)
  then have "send_from_bytes E bytes = Some (Inr tx)"
    using assms h s
    by (simp add: send_from_bytes_def header_5[OF bytes_def] wf_send_def wire_simps del: One_nat_def)
  ultimately show ?thesis by blast
qed

lemma send_bytes_tag: "send_to_bytes E tx = Inr bytes \<Longrightarrow> \<exists>rest. bytes = SEND_TYPE # rest"
  by (auto simp: send_to_bytes_def Let_def split: option.split_asm)

lemma send_parsed_tag: "send_from_bytes E bytes = Some (Inr tx) \<Longrightarrow> \<exists>rest. bytes = SEND_TYPE # rest"
  unfolding send_from_bytes_def by (rule attempt_type)

interpretation send: tx_codec "send_to_bytes E" "send_from_bytes E" "\<lambda>tx. rlp_law E \<and> wf_send E tx" SEND_TYPE
  for E :: "('h, 'd) env"
  by unfold_locales (auto simp: send_roundtrip dest: send_bytes_tag send_parsed_tag)

section \<open>What applying does\<close>

text \<open>
  The change of the balance of an account in a currency that a transfer is meant to make: the
  sender pays the amount and the fee, the receiver gets the amount.
\<close>

definition send_delta :: "('d \<Rightarrow> 'v::linordered_ab_group_add) \<Rightarrow> 'd Send \<Rightarrow> u8 list \<Rightarrow> hash \<Rightarrow> 'v" where
  "send_delta val tx addr asset =
     (if addr = address_to_bytes (snd_to tx) \<and> asset = snd_asset_hash tx then val (balance_inner (snd_amount tx)) else 0) -
     (if addr = address_to_bytes (snd_from tx) \<and> asset = snd_asset_hash tx then val (balance_inner (snd_amount tx)) else 0) -
     (if addr = address_to_bytes (snd_from tx) \<and> asset = snd_fee_hash tx then val (balance_inner (snd_fee tx)) else 0)"

lemma send_same_stored:
  assumes laws: "trie_law E" "hex_law E" "decimal_law E val"
    and run: "send_same E tx ex n t = Some t'" "next_nonce bin = Some n"
    and "snd_fee_hash tx = snd_asset_hash tx" "snd_from tx \<noteq> snd_to tx"
      "wf_address (snd_from tx)" "wf_address (snd_to tx)"
    and new: "\<not> ex \<longrightarrow> e_get E t (cur_key E (address_to_bytes (snd_to tx)) (snd_asset_hash tx)) = Some None"
  shows "stored E val t' (cur_key E addr asset) = stored E val t (cur_key E addr asset) + send_delta val tx addr asset"
proof -
  have ne: "address_to_bytes (snd_from tx) \<noteq> address_to_bytes (snd_to tx)"
    using address_to_bytes_inj assms(7-9) by blast
  from run(1) obtain s0 s1 s2 r u1 u2 u3 where
    g: "get_balance E t (cur_key E (address_to_bytes (snd_from tx)) (snd_asset_hash tx)) = Some s0"
    and s: "balance_sub (e_dec E) s0 (snd_fee tx) = Some s1" "balance_sub (e_dec E) s1 (snd_amount tx) = Some s2"
    and r: "(if ex then credited E t (cur_key E (address_to_bytes (snd_to tx)) (snd_asset_hash tx)) (snd_amount tx)
       else Some (snd_amount tx)) = Some r"
    and u1: "(if ex then Some t else e_insert E t (nonce_key E (address_to_bytes (snd_to tx))) zero_nonce) = Some u1"
    and u2: "put_balance E (cur_key E (address_to_bytes (snd_from tx)) (snd_asset_hash tx)) s2 u1 = Some u2"
    and u3: "put_balance E (cur_key E (address_to_bytes (snd_to tx)) (snd_asset_hash tx)) r u2 = Some u3"
    and u4: "e_insert E u3 (nonce_key E (address_to_bytes (snd_from tx))) n = Some t'"
    by (auto simp: send_same_def Let_def bind_eq_Some_conv)
  have v: "val (balance_inner s2) = stored E val t (cur_key E (address_to_bytes (snd_from tx)) (snd_asset_hash tx)) -
      val (balance_inner (snd_fee tx)) - val (balance_inner (snd_amount tx))"
    using balance_sub_val[OF laws(3) s(1)] balance_sub_val[OF laws(3) s(2)] get_balance_stored[OF g, of val] by simp
  note st = nonce_stored(1)[OF laws(1,2) run(2) u4, of val] put_balance_stored[OF laws(1,3) u3]
    put_balance_stored[OF laws(1,3) u2] new_account_stored[OF laws(1,2) u1, of val]
  show ?thesis
    using ne assms(6) v received_val[OF laws(3) r new]
    by (auto simp: st keys_distinct[OF laws(2)] send_delta_def)
qed

lemma send_other_stored:
  assumes laws: "trie_law E" "hex_law E" "decimal_law E val"
    and run: "send_other E tx ex n t = Some t'" "next_nonce bin = Some n"
    and "snd_fee_hash tx \<noteq> snd_asset_hash tx" "snd_from tx \<noteq> snd_to tx"
      "wf_address (snd_from tx)" "wf_address (snd_to tx)"
    and new: "\<not> ex \<longrightarrow> e_get E t (cur_key E (address_to_bytes (snd_to tx)) (snd_asset_hash tx)) = Some None"
  shows "stored E val t' (cur_key E addr asset) = stored E val t (cur_key E addr asset) + send_delta val tx addr asset"
proof -
  have ne: "address_to_bytes (snd_from tx) \<noteq> address_to_bytes (snd_to tx)"
    using address_to_bytes_inj assms(7-9) by blast
  from run(1) obtain c0 f0 c1 f1 r u1 u2 u3 u4 where
    g: "get_balance E t (cur_key E (address_to_bytes (snd_from tx)) (snd_asset_hash tx)) = Some c0"
      "get_balance E t (cur_key E (address_to_bytes (snd_from tx)) (snd_fee_hash tx)) = Some f0"
    and s: "balance_sub (e_dec E) f0 (snd_fee tx) = Some f1" "balance_sub (e_dec E) c0 (snd_amount tx) = Some c1"
    and r: "(if ex then credited E t (cur_key E (address_to_bytes (snd_to tx)) (snd_asset_hash tx)) (snd_amount tx)
       else Some (snd_amount tx)) = Some r"
    and u1: "(if ex then Some t else e_insert E t (nonce_key E (address_to_bytes (snd_to tx))) zero_nonce) = Some u1"
    and u2: "put_balance E (cur_key E (address_to_bytes (snd_from tx)) (snd_asset_hash tx)) c1 u1 = Some u2"
    and u3: "put_balance E (cur_key E (address_to_bytes (snd_from tx)) (snd_fee_hash tx)) f1 u2 = Some u3"
    and u4: "put_balance E (cur_key E (address_to_bytes (snd_to tx)) (snd_asset_hash tx)) r u3 = Some u4"
    and u5: "e_insert E u4 (nonce_key E (address_to_bytes (snd_from tx))) n = Some t'"
    by (auto simp: send_other_def Let_def bind_eq_Some_conv)
  note v = balance_sub_val[OF laws(3) s(1)] balance_sub_val[OF laws(3) s(2)] get_balance_stored[OF g(1), of val]
    get_balance_stored[OF g(2), of val]
  note st = nonce_stored(1)[OF laws(1,2) run(2) u5, of val] put_balance_stored[OF laws(1,3) u4]
    put_balance_stored[OF laws(1,3) u3] put_balance_stored[OF laws(1,3) u2] new_account_stored[OF laws(1,2) u1, of val]
  show ?thesis
    using ne assms(6) v received_val[OF laws(3) r new]
    by (auto simp: st keys_distinct[OF laws(2)] send_delta_def)
qed

lemma send_apply_cases:
  assumes "send_apply E tx t = Some t'"
  obtains (stock) bin n addr r where "get_must E t (nonce_key E (address_to_bytes (snd_from tx))) = Some bin"
      "next_nonce bin = Some n" "e_get E t (dot_key (e_hex E (snd_asset_hash tx)) ''adr'') = Some (Some addr)"
      "e_get E t (nonce_key E (address_to_bytes (snd_to tx))) = Some r"
      "send_stock E tx addr (r \<noteq> None) n t = Some t'"
  | (currency) bin n r where "get_must E t (nonce_key E (address_to_bytes (snd_from tx))) = Some bin"
      "next_nonce bin = Some n" "e_get E t (dot_key (e_hex E (snd_asset_hash tx)) ''adr'') = Some None"
      "e_get E t (nonce_key E (address_to_bytes (snd_to tx))) = Some r"
      "(if e_hex E (snd_fee_hash tx) = e_hex E (snd_asset_hash tx)
        then send_same E tx (r \<noteq> None) n t else send_other E tx (r \<noteq> None) n t) = Some t'"
proof -
  from assms obtain bin r n st where
    a: "get_must E t (nonce_key E (address_to_bytes (snd_from tx))) = Some bin"
      "e_get E t (nonce_key E (address_to_bytes (snd_to tx))) = Some r" "next_nonce bin = Some n"
      "e_get E t (dot_key (e_hex E (snd_asset_hash tx)) ''adr'') = Some st"
    by (auto simp: send_apply_def Let_def bind_eq_Some_conv)
  show thesis
  proof (cases st)
    case (Some addr)
    with a assms show thesis by (intro stock[of bin n addr r]) (simp_all add: send_apply_def)
  next
    case None
    with a assms show thesis
      by (intro currency[of bin n r]) (simp_all add: send_apply_def split: if_splits)
  qed
qed

text \<open>A transfer of currency changes exactly the balances it is meant to change.\<close>

lemma send_apply_stored:
  assumes laws: "trie_law E" "hex_law E" "decimal_law E val"
    and run: "send_apply E tx t = Some t'"
    and cur: "e_get E t (dot_key (e_hex E (snd_asset_hash tx)) ''adr'') = Some None"
    and wf: "snd_from tx \<noteq> snd_to tx" "wf_address (snd_from tx)" "wf_address (snd_to tx)"
      "no_balance E t (address_to_bytes (snd_to tx)) (snd_asset_hash tx)"
  shows "stored E val t' (cur_key E addr asset) = stored E val t (cur_key E addr asset) + send_delta val tx addr asset"
  using run
proof (cases rule: send_apply_cases)
  case (currency bin n r)
  have new: "\<not> r \<noteq> None \<longrightarrow> e_get E t (cur_key E (address_to_bytes (snd_to tx)) (snd_asset_hash tx)) = Some None"
    using currency(4) wf(4) by (auto simp: no_balance_def)
  have "e_hex E (snd_fee_hash tx) = e_hex E (snd_asset_hash tx) \<longleftrightarrow> snd_fee_hash tx = snd_asset_hash tx"
    using laws(2) by (auto simp: hex_law_def inj_def)
  with currency(5) show ?thesis
    using send_same_stored[OF laws _ currency(2) _ wf(1-3) new, of t']
      send_other_stored[OF laws _ currency(2) _ wf(1-3) new, of t']
    by (auto split: if_splits)
qed (use cur in simp)

text \<open>A transfer to oneself credits the amount without debiting it.\<close>

lemma send_to_self_stored:
  assumes laws: "trie_law E" "hex_law E" "decimal_law E val"
    and run: "send_apply E tx t = Some t'"
    and cur: "e_get E t (dot_key (e_hex E (snd_asset_hash tx)) ''adr'') = Some None"
    and self: "snd_from tx = snd_to tx" "snd_fee_hash tx = snd_asset_hash tx"
  shows "stored E val t' (cur_key E (address_to_bytes (snd_from tx)) (snd_asset_hash tx)) =
    stored E val t (cur_key E (address_to_bytes (snd_from tx)) (snd_asset_hash tx)) + val (balance_inner (snd_amount tx))"
  using run
proof (cases rule: send_apply_cases)
  case (currency bin n r)
  from currency(1,4) self have ex: "r \<noteq> None" by (auto simp: get_must_def bind_eq_Some_conv)
  from currency(5) self ex obtain q s u2 u3 where
    q: "credited E t (cur_key E (address_to_bytes (snd_to tx)) (snd_asset_hash tx)) (snd_amount tx) = Some q"
    and u3: "put_balance E (cur_key E (address_to_bytes (snd_to tx)) (snd_asset_hash tx)) q u2 = Some u3"
    and u4: "e_insert E u3 (nonce_key E (address_to_bytes (snd_from tx))) n = Some t'"
    by (auto simp: send_same_def Let_def bind_eq_Some_conv)
  show ?thesis
    using credited_stored[OF laws(3) q] self
    by (simp add: nonce_stored(1)[OF laws(1,2) currency(2) u4] put_balance_stored[OF laws(1,3) u3])
qed (use cur in simp)

text \<open>A transfer of stock computes the fee but never takes it.\<close>

lemma send_stock_fee:
  assumes laws: "trie_law E" "hex_law E" "\<And>xs. e_rlp_encode E xs \<noteq> []"
    and run: "send_apply E tx t = Some t'"
    and stock: "e_get E t (dot_key (e_hex E (snd_asset_hash tx)) ''adr'') \<noteq> Some None"
    and fee: "asset \<noteq> snd_asset_hash tx"
  shows "e_get E t' (cur_key E addr asset) = e_get E t (cur_key E addr asset)"
  using run
proof (cases rule: send_apply_cases)
  case (stock bin n ad r)
  from stock(5) obtain a b m u1 u2 u3 u4 where
    u: "(if r \<noteq> None then Some t else e_insert E t (nonce_key E (address_to_bytes (snd_to tx))) zero_nonce) = Some u1"
      "e_insert E u1 (cur_key E (address_to_bytes (snd_to tx)) (snd_asset_hash tx)) (encode_be_u32 a) = Some u2"
      "e_insert E u2 (cur_key E (address_to_bytes (snd_from tx)) (snd_asset_hash tx)) (encode_be_u32 b) = Some u3"
      "put_share_map E (dot_key (e_hex E ad) ''sm'') m u3 = Some u4"
      "e_insert E u4 (nonce_key E (address_to_bytes (snd_from tx))) n = Some t'"
    by (auto simp: send_stock_def Let_def bind_eq_Some_conv)
  have k: "cur_key E addr asset \<noteq> dot_key (e_hex E ad) ''sm''"
    using hex_not_suffix(3)[OF laws(2)] by (auto simp: cur_key_def dot_key_hex[OF laws(2)])
  have u1: "e_get E u1 (cur_key E addr asset) = e_get E t (cur_key E addr asset)"
    using u(1) trie_law_insert[OF laws(1), of t _ zero_nonce u1] keys_distinct[OF laws(2)] by (auto split: if_splits)
  show ?thesis
    using trie_law_insert[OF laws(1) u(2)] trie_law_insert[OF laws(1) u(3)] k u1 fee
      trie_law_insert[OF laws(1) u(4)[unfolded put_share_map_def] sm_to_bytes_law[OF laws(3)]]
      trie_law_insert[OF laws(1) u(5) next_nonce_not_empty[OF stock(2)]]
    by (simp add: keys_distinct[OF laws(2)])
qed (use stock in simp)

text \<open>The message that is signed does not separate the amount from the fee.\<close>

lemma send_message_ambiguous:
  assumes "balance_to_bytes (e_dec E) a @ balance_to_bytes (e_dec E) f =
    balance_to_bytes (e_dec E) b @ balance_to_bytes (e_dec E) g"
  shows "send_sign_message E (tx\<lparr>snd_amount := a, snd_fee := f\<rparr>) =
    send_sign_message E (tx\<lparr>snd_amount := b, snd_fee := g\<rparr>)"
  using assms by (simp add: send_sign_message_def)

end
