(* ===== verification/Tx_Burn.thy ===== *)
theory Tx_Burn
  imports Tx_Common
begin

text \<open>\<open>transactions/src/burn.rs\<close>: the owner of an amount destroys it.\<close>

record 'd Burn =
  brn_burner :: Account_Address
  brn_amount :: "'d Balance"
  brn_fee :: "'d Balance"
  brn_asset_hash :: hash
  brn_fee_hash :: hash
  brn_hash :: "hash option"
  brn_signature :: "Account_Signature option"

definition BURN_TYPE :: u8 where
  "BURN_TYPE = 11"

section \<open>Signing and hashing\<close>

definition burn_sign_message :: "('h, 'd) env \<Rightarrow> 'd Burn \<Rightarrow> u8 list" where
  "burn_sign_message E tx = address_to_bytes (brn_burner tx) @ brn_asset_hash tx @ brn_fee_hash tx @
     balance_to_bytes (e_dec E) (brn_amount tx) @ balance_to_bytes (e_dec E) (brn_fee tx)"

definition burn_hash_message :: "('h, 'd) env \<Rightarrow> 'd Burn \<Rightarrow> u8 list option" where
  "burn_hash_message E tx = do {
     signature \<leftarrow> brn_signature tx;
     Some (address_to_bytes (brn_burner tx) @ brn_asset_hash tx @ brn_fee_hash tx @
       balance_to_bytes (e_dec E) (brn_amount tx) @ balance_to_bytes (e_dec E) (brn_fee tx) @
       signature_to_bytes (e_rlp_encode E) signature)
   }"

definition burn_set_hash :: "('h, 'd) env \<Rightarrow> 'd Burn \<Rightarrow> 'd Burn option" where
  "burn_set_hash E tx = do {
     message \<leftarrow> burn_hash_message E tx;
     Some (tx\<lparr>brn_hash := Some (e_hash E message)\<rparr>)
   }"

definition burn_verify_hash :: "('h, 'd) env \<Rightarrow> 'd Burn \<Rightarrow> bool option" where
  "burn_verify_hash E tx = check_hash E (brn_hash tx) (burn_hash_message E tx)"

lemma burn_hash_verifies: "burn_set_hash E tx = Some tx' \<Longrightarrow> burn_verify_hash E tx' = Some True"
  by (auto simp: burn_set_hash_def burn_verify_hash_def burn_hash_message_def check_hash_def bind_eq_Some_conv)

definition burn_sign :: "('h, 'd) env \<Rightarrow> u8 list \<Rightarrow> 'd Burn \<Rightarrow> 'd Burn option" where
  "burn_sign E skey tx = do {
     signature \<leftarrow> attach_signature (brn_burner tx) (brn_signature tx) (e_sign E (burn_sign_message E tx) skey);
     Some (tx\<lparr>brn_signature := signature\<rparr>)
   }"

definition burn_verify_sig :: "('h, 'd) env \<Rightarrow> 'd Burn \<Rightarrow> bool option" where
  "burn_verify_sig E tx = check_sig E (brn_burner tx) (brn_signature tx) (burn_sign_message E tx)"

definition burn_verify_multi_sig :: "('h, 'd) env \<Rightarrow> 'd Burn \<Rightarrow> u8 \<Rightarrow> u8 list list \<Rightarrow> bool option" where
  "burn_verify_multi_sig E tx required_keys pkeys =
     check_multi_sig E (brn_signature tx) (burn_sign_message E tx) required_keys pkeys"

definition burn_verify_multi_sig_shares :: "('h, 'd) env \<Rightarrow> 'd Burn \<Rightarrow> u8 \<Rightarrow> ShareMap \<Rightarrow> bool option" where
  "burn_verify_multi_sig_shares E tx percentile sm =
     check_shares E (brn_signature tx) (burn_sign_message E tx) percentile sm"

section \<open>Validating and applying\<close>

definition burn_validate :: "('h, 'd) env \<Rightarrow> 'd Burn \<Rightarrow> 'h \<Rightarrow> bool option" where
  "burn_validate E tx t = do {
     zero \<leftarrow> zero_balance E;
     if d_eq (e_dec E) (balance_inner (brn_amount tx)) (balance_inner zero) then Some False
     else do {
       ok \<leftarrow> validate_signature E t (brn_burner tx) (brn_signature tx) (burn_sign_message E tx);
       if \<not> ok then Some False
       else do {
         let burner = address_to_bytes (brn_burner tx);
         get_or_false E t (nonce_key E burner) (\<lambda>_.
           if e_hex E (brn_fee_hash tx) = e_hex E (brn_asset_hash tx) then
             get_or_false E t (cur_key E burner (brn_asset_hash tx)) (\<lambda>b. do {
               balance \<leftarrow> balance_must E b;
               balance \<leftarrow> balance_sub (e_dec E) balance (brn_fee tx);
               balance \<leftarrow> balance_sub (e_dec E) balance (brn_amount tx);
               Some (d_ge (e_dec E) (balance_inner balance) (balance_inner zero))
             })
           else
             get_or_false E t (cur_key E burner (brn_asset_hash tx)) (\<lambda>b. do {
               cur_balance \<leftarrow> balance_must E b;
               get_or_false E t (cur_key E burner (brn_fee_hash tx)) (\<lambda>b. do {
                 fee_balance \<leftarrow> balance_must E b;
                 fee_balance \<leftarrow> balance_sub (e_dec E) fee_balance (brn_fee tx);
                 cur_balance \<leftarrow> balance_sub (e_dec E) cur_balance (brn_amount tx);
                 Some (d_ge (e_dec E) (balance_inner cur_balance) (balance_inner zero) \<and>
                   d_ge (e_dec E) (balance_inner fee_balance) (balance_inner zero))
               })
             }))
       }
     }
   }"

definition burn_apply :: "('h, 'd) env \<Rightarrow> 'd Burn \<Rightarrow> 'h \<Rightarrow> 'h option" where
  "burn_apply E tx t = do {
     let burner = address_to_bytes (brn_burner tx);
     bin_nonce \<leftarrow> get_must E t (nonce_key E burner);
     nonce \<leftarrow> next_nonce bin_nonce;
     if e_hex E (brn_fee_hash tx) = e_hex E (brn_asset_hash tx) then do {
       balance \<leftarrow> get_balance E t (cur_key E burner (brn_asset_hash tx));
       balance \<leftarrow> balance_sub (e_dec E) balance (brn_fee tx);
       balance \<leftarrow> balance_sub (e_dec E) balance (brn_amount tx);
       t \<leftarrow> put_balance E (cur_key E burner (brn_asset_hash tx)) balance t;
       e_insert E t (nonce_key E burner) nonce
     } else do {
       cur_balance \<leftarrow> get_balance E t (cur_key E burner (brn_asset_hash tx));
       fee_balance \<leftarrow> get_balance E t (cur_key E burner (brn_fee_hash tx));
       fee_balance \<leftarrow> balance_sub (e_dec E) fee_balance (brn_fee tx);
       cur_balance \<leftarrow> balance_sub (e_dec E) cur_balance (brn_amount tx);
       t \<leftarrow> put_balance E (cur_key E burner (brn_asset_hash tx)) cur_balance t;
       t \<leftarrow> put_balance E (cur_key E burner (brn_fee_hash tx)) fee_balance t;
       e_insert E t (nonce_key E burner) nonce
     }
   }"

section \<open>The wire format\<close>

definition burn_to_bytes :: "('h, 'd) env \<Rightarrow> 'd Burn \<Rightarrow> TxError + u8 list" where
  "burn_to_bytes E tx = (case brn_hash tx of
       None \<Rightarrow> Inl (Msg ''Hash field is missing'')
     | Some hash \<Rightarrow> (case brn_signature tx of
         None \<Rightarrow> Inl (Msg ''Signature field is missing'')
       | Some sig \<Rightarrow>
           (let signature = signature_to_bytes (e_rlp_encode E) sig;
                amount = balance_to_bytes (e_dec E) (brn_amount tx);
                fee = balance_to_bytes (e_dec E) (brn_fee tx) in
            Inr ([BURN_TYPE, word_of_nat (length fee), word_of_nat (length amount)] @
              encode_be_u16 (word_of_nat (length signature)) @
              address_to_bytes (brn_burner tx) @ brn_asset_hash tx @ brn_fee_hash tx @ hash @
              amount @ fee @ signature))))"

definition burn_from_bytes :: "('h, 'd) env \<Rightarrow> u8 list \<Rightarrow> 'd Burn parsed" where
  "burn_from_bytes E bytes =
     attempt (tx_type BURN_TYPE bytes) (\<lambda>_.
     attempt (tx_u8 1 ''Bad fee len'' bytes) (\<lambda>fee_len.
     attempt (tx_u8 2 ''Bad amount len'' bytes) (\<lambda>amount_len.
     attempt (tx_u16 3 ''Bad signature len'' bytes) (\<lambda>signature_len.
     attempt (tx_drain 5 bytes) (\<lambda>(_, buf).
     attempt (field 33 buf) (\<lambda>(burner_vec, buf).
     attempt (or_err (address_from_bytes burner_vec)) (\<lambda>burner.
     attempt (field 32 buf) (\<lambda>(hash_vec, buf).
     attempt (to_hash hash_vec) (\<lambda>asset_hash.
     attempt (field 32 buf) (\<lambda>(hash_vec, buf).
     attempt (to_hash hash_vec) (\<lambda>fee_hash.
     attempt (field 32 buf) (\<lambda>(hash_vec, buf).
     attempt (to_hash hash_vec) (\<lambda>hash.
     attempt (field (unat amount_len) buf) (\<lambda>(amount_vec, buf).
     attempt (or_msg ''Bad amount'' (balance_from_bytes (e_dec E) amount_vec)) (\<lambda>amount.
     attempt (field (unat fee_len) buf) (\<lambda>(fee_vec, buf).
     attempt (or_msg ''Bad gas price'' (balance_from_bytes (e_dec E) fee_vec)) (\<lambda>fee.
     attempt (last_field (unat signature_len) buf) (\<lambda>sig_vec.
     attempt (or_msg ''Bad signature'' (signature_from_bytes (e_rlp_decode E) sig_vec)) (\<lambda>signature.
     Some (Inr \<lparr>brn_burner = burner, brn_amount = amount, brn_fee = fee, brn_asset_hash = asset_hash,
       brn_fee_hash = fee_hash, brn_hash = Some hash, brn_signature = Some signature\<rparr>))))))))))))))))))))"

definition wf_burn :: "('h, 'd) env \<Rightarrow> 'd Burn \<Rightarrow> bool" where
  "wf_burn E tx \<longleftrightarrow> wf_address (brn_burner tx) \<and> wf_balance E (brn_amount tx) \<and> wf_balance E (brn_fee tx) \<and>
     length (brn_asset_hash tx) = 32 \<and> length (brn_fee_hash tx) = 32 \<and>
     (\<exists>h. brn_hash tx = Some h \<and> length h = 32) \<and>
     (\<exists>s. brn_signature tx = Some s \<and> wf_signature s \<and>
        length (signature_to_bytes (e_rlp_encode E) s) < 2 ^ 16)"

lemma burn_roundtrip:
  assumes "rlp_law E" "wf_burn E tx"
  shows "\<exists>bytes. burn_to_bytes E tx = Inr bytes \<and> burn_from_bytes E bytes = Some (Inr tx)"
proof -
  from assms(2) obtain h s where h: "brn_hash tx = Some h" "length h = 32"
    and s: "brn_signature tx = Some s" "wf_signature s" "length (signature_to_bytes (e_rlp_encode E) s) < 2 ^ 16"
    by (auto simp: wf_burn_def)
  define bytes where "bytes = [BURN_TYPE, word_of_nat (length (balance_to_bytes (e_dec E) (brn_fee tx))),
      word_of_nat (length (balance_to_bytes (e_dec E) (brn_amount tx)))] @
      encode_be_u16 (word_of_nat (length (signature_to_bytes (e_rlp_encode E) s))) @
      address_to_bytes (brn_burner tx) @ brn_asset_hash tx @ brn_fee_hash tx @ h @
      balance_to_bytes (e_dec E) (brn_amount tx) @ balance_to_bytes (e_dec E) (brn_fee tx) @
      signature_to_bytes (e_rlp_encode E) s"
  have "burn_to_bytes E tx = Inr bytes"
    using h s by (simp add: burn_to_bytes_def bytes_def Let_def)
  moreover have "brn_asset_hash tx \<noteq> []" "brn_fee_hash tx \<noteq> []" "h \<noteq> []"
    using assms(2) h(2) by (auto simp: wf_burn_def)
  then have "burn_from_bytes E bytes = Some (Inr tx)"
    using assms h s
    by (simp add: burn_from_bytes_def header_5[OF bytes_def] wf_burn_def wire_simps del: One_nat_def)
  ultimately show ?thesis by blast
qed

lemma burn_bytes_tag: "burn_to_bytes E tx = Inr bytes \<Longrightarrow> \<exists>rest. bytes = BURN_TYPE # rest"
  by (auto simp: burn_to_bytes_def Let_def split: option.split_asm)

lemma burn_parsed_tag: "burn_from_bytes E bytes = Some (Inr tx) \<Longrightarrow> \<exists>rest. bytes = BURN_TYPE # rest"
  unfolding burn_from_bytes_def by (rule attempt_type)

interpretation burn: tx_codec "burn_to_bytes E" "burn_from_bytes E" "\<lambda>tx. rlp_law E \<and> wf_burn E tx" BURN_TYPE
  for E :: "('h, 'd) env"
  by unfold_locales (auto simp: burn_roundtrip dest: burn_bytes_tag burn_parsed_tag)

section \<open>A valid transaction applies\<close>

text \<open>What burning leaves of the balances of the burner.\<close>

lemma burn_apply_cases:
  assumes "burn_apply E tx t = Some t'" "hex_law E"
  obtains
    (one) bin n b b1 b2 u where "brn_fee_hash tx = brn_asset_hash tx" "next_nonce bin = Some n"
      "get_balance E t (cur_key E (address_to_bytes (brn_burner tx)) (brn_asset_hash tx)) = Some b"
      "balance_sub (e_dec E) b (brn_fee tx) = Some b1" "balance_sub (e_dec E) b1 (brn_amount tx) = Some b2"
      "put_balance E (cur_key E (address_to_bytes (brn_burner tx)) (brn_asset_hash tx)) b2 t = Some u"
      "e_insert E u (nonce_key E (address_to_bytes (brn_burner tx))) n = Some t'"
  | (two) bin n c f c1 f1 u1 u2 where "brn_fee_hash tx \<noteq> brn_asset_hash tx" "next_nonce bin = Some n"
      "get_balance E t (cur_key E (address_to_bytes (brn_burner tx)) (brn_asset_hash tx)) = Some c"
      "get_balance E t (cur_key E (address_to_bytes (brn_burner tx)) (brn_fee_hash tx)) = Some f"
      "balance_sub (e_dec E) f (brn_fee tx) = Some f1" "balance_sub (e_dec E) c (brn_amount tx) = Some c1"
      "put_balance E (cur_key E (address_to_bytes (brn_burner tx)) (brn_asset_hash tx)) c1 t = Some u1"
      "put_balance E (cur_key E (address_to_bytes (brn_burner tx)) (brn_fee_hash tx)) f1 u1 = Some u2"
      "e_insert E u2 (nonce_key E (address_to_bytes (brn_burner tx))) n = Some t'"
proof -
  have hex: "e_hex E (brn_fee_hash tx) = e_hex E (brn_asset_hash tx) \<longleftrightarrow> brn_fee_hash tx = brn_asset_hash tx"
    using assms(2) by (auto simp: hex_law_def inj_def)
  show thesis
  proof (cases "brn_fee_hash tx = brn_asset_hash tx")
    case True
    with assms(1) show thesis by (auto simp: burn_apply_def Let_def bind_eq_Some_conv intro: one)
  next
    case False
    with hex assms(1) show thesis by (auto simp: burn_apply_def Let_def bind_eq_Some_conv intro: two)
  qed
qed

lemma burn_apply_stored:
  assumes laws: "trie_law E" "hex_law E" "decimal_law E val"
    and run: "burn_apply E tx t = Some t'"
  shows "stored E val t' (cur_key E addr asset) = stored E val t (cur_key E addr asset) -
    (if addr = address_to_bytes (brn_burner tx) \<and> asset = brn_asset_hash tx then val (balance_inner (brn_amount tx)) else 0) -
    (if addr = address_to_bytes (brn_burner tx) \<and> asset = brn_fee_hash tx then val (balance_inner (brn_fee tx)) else 0)"
  using run laws(2)
proof (cases rule: burn_apply_cases)
  case (one bin n b b1 b2 u)
  show ?thesis
    using balance_sub_val[OF laws(3) one(4)] balance_sub_val[OF laws(3) one(5)] get_balance_stored[OF one(3), of val] one(1)
    by (auto simp: nonce_stored(1)[OF laws(1,2) one(2,7)] put_balance_stored[OF laws(1,3) one(6)] keys_distinct[OF laws(2)])
next
  case (two bin n c f c1 f1 u1 u2)
  show ?thesis
    using balance_sub_val[OF laws(3) two(5)] balance_sub_val[OF laws(3) two(6)] two(1)
      get_balance_stored[OF two(3), of val] get_balance_stored[OF two(4), of val]
    by (auto simp: nonce_stored(1)[OF laws(1,2) two(2,9)] put_balance_stored[OF laws(1,3) two(7)]
        put_balance_stored[OF laws(1,3) two(8)] keys_distinct[OF laws(2)])
qed

text \<open>
  A transaction that \<open>validate\<close> accepts can be applied, as long as the nonce of the burner is not
  the last one, and leaves no negative balance.
\<close>

lemma burn_validate_cases:
  assumes "burn_validate E tx t = Some True" "hex_law E" "zero_balance E = Some z"
  obtains
    (one) bin b b1 b2 where "brn_fee_hash tx = brn_asset_hash tx"
      "e_get E t (nonce_key E (address_to_bytes (brn_burner tx))) = Some (Some bin)"
      "get_balance E t (cur_key E (address_to_bytes (brn_burner tx)) (brn_asset_hash tx)) = Some b"
      "balance_sub (e_dec E) b (brn_fee tx) = Some b1" "balance_sub (e_dec E) b1 (brn_amount tx) = Some b2"
      "d_ge (e_dec E) (balance_inner b2) (balance_inner z)"
  | (two) bin c f c1 f1 where "brn_fee_hash tx \<noteq> brn_asset_hash tx"
      "e_get E t (nonce_key E (address_to_bytes (brn_burner tx))) = Some (Some bin)"
      "get_balance E t (cur_key E (address_to_bytes (brn_burner tx)) (brn_asset_hash tx)) = Some c"
      "get_balance E t (cur_key E (address_to_bytes (brn_burner tx)) (brn_fee_hash tx)) = Some f"
      "balance_sub (e_dec E) f (brn_fee tx) = Some f1" "balance_sub (e_dec E) c (brn_amount tx) = Some c1"
      "d_ge (e_dec E) (balance_inner c1) (balance_inner z)" "d_ge (e_dec E) (balance_inner f1) (balance_inner z)"
proof -
  have hex: "e_hex E (brn_fee_hash tx) = e_hex E (brn_asset_hash tx) \<longleftrightarrow> brn_fee_hash tx = brn_asset_hash tx"
    using assms(2) by (auto simp: hex_law_def inj_def)
  note unf = burn_validate_def Let_def bind_eq_Some_conv get_or_false_True get_balance_def get_must_def
  show thesis
  proof (cases "brn_fee_hash tx = brn_asset_hash tx")
    case True
    with assms(1,3) show thesis by (auto simp: unf intro: one split: if_split_asm)
  next
    case False
    with hex assms(1,3) show thesis by (auto simp: unf intro: two split: if_split_asm)
  qed
qed

lemma burn_valid_applies:
  assumes laws: "trie_law E" "trie_total E" "hex_law E" "decimal_law E val"
    and zero: "zero_balance E = Some z" "val (balance_inner z) = 0"
    and valid: "burn_validate E tx t = Some True"
    and nonce: "\<And>bin. e_get E t (nonce_key E (address_to_bytes (brn_burner tx))) = Some (Some bin) \<Longrightarrow> next_nonce bin \<noteq> None"
  shows "\<exists>t'. burn_apply E tx t = Some t' \<and>
    0 \<le> stored E val t' (cur_key E (address_to_bytes (brn_burner tx)) (brn_asset_hash tx)) \<and>
    0 \<le> stored E val t' (cur_key E (address_to_bytes (brn_burner tx)) (brn_fee_hash tx))"
proof -
  have hex: "e_hex E (brn_fee_hash tx) = e_hex E (brn_asset_hash tx) \<longleftrightarrow> brn_fee_hash tx = brn_asset_hash tx"
    using laws(3) by (auto simp: hex_law_def inj_def)
  have ge: "d_ge (e_dec E) a (balance_inner z) \<longleftrightarrow> 0 \<le> val a" for a
    using laws(4) zero(2) by (simp add: decimal_law_def)
  from valid laws(3) zero(1) show ?thesis
  proof (cases rule: burn_validate_cases)
    case (one bin b b1 b2)
    from nonce[OF one(2)] obtain n where n: "next_nonce bin = Some n" by blast
    obtain u where u: "put_balance E (cur_key E (address_to_bytes (brn_burner tx)) (brn_asset_hash tx)) b2 t = Some u"
      using put_balance_total[OF laws(2)] by blast
    obtain t' where t': "e_insert E u (nonce_key E (address_to_bytes (brn_burner tx))) n = Some t'"
      using laws(2) unfolding trie_total_def by blast
    have "burn_apply E tx t = Some t'"
      using one n u t' by (simp add: burn_apply_def get_must_def)
    then show ?thesis
      using one(1,6) ge
      by (simp add: nonce_stored(1)[OF laws(1,3) n t'] put_balance_stored[OF laws(1,4) u])
  next
    case (two bin c f c1 f1)
    from nonce[OF two(2)] obtain n where n: "next_nonce bin = Some n" by blast
    obtain u where u: "put_balance E (cur_key E (address_to_bytes (brn_burner tx)) (brn_asset_hash tx)) c1 t = Some u"
      using put_balance_total[OF laws(2)] by blast
    obtain v where v: "put_balance E (cur_key E (address_to_bytes (brn_burner tx)) (brn_fee_hash tx)) f1 u = Some v"
      using put_balance_total[OF laws(2)] by blast
    obtain t' where t': "e_insert E v (nonce_key E (address_to_bytes (brn_burner tx))) n = Some t'"
      using laws(2) unfolding trie_total_def by blast
    have "burn_apply E tx t = Some t'"
      using two n u v t' hex by (simp add: burn_apply_def get_must_def)
    then show ?thesis
      using two(1,7,8) ge
      by (simp add: nonce_stored(1)[OF laws(1,3) n t'] put_balance_stored[OF laws(1,4) u]
          put_balance_stored[OF laws(1,4) v] keys_distinct[OF laws(3)])
  qed
qed

end
