(* ===== verification/Tx_Mint.thy ===== *)
theory Tx_Mint
  imports Tx_Common
begin

text \<open>\<open>transactions/src/mint.rs\<close>: the minter of a mintable currency creates an amount of it.\<close>

record 'd Mint =
  mnt_minter :: Account_Address
  mnt_receiver :: Account_Address
  mnt_amount :: "'d Balance"
  mnt_asset_hash :: hash
  mnt_fee_hash :: hash
  mnt_fee :: "'d Balance"
  mnt_hash :: "hash option"
  mnt_signature :: "Account_Signature option"

definition MINT_TYPE :: u8 where
  "MINT_TYPE = 10"

section \<open>Signing and hashing\<close>

definition mint_sign_message :: "('h, 'd) env \<Rightarrow> 'd Mint \<Rightarrow> u8 list" where
  "mint_sign_message E tx = address_to_bytes (mnt_minter tx) @ address_to_bytes (mnt_receiver tx) @
     mnt_asset_hash tx @ mnt_fee_hash tx @ balance_to_bytes (e_dec E) (mnt_amount tx) @
     balance_to_bytes (e_dec E) (mnt_fee tx)"

definition mint_hash_message :: "('h, 'd) env \<Rightarrow> 'd Mint \<Rightarrow> u8 list option" where
  "mint_hash_message E tx = do {
     signature \<leftarrow> mnt_signature tx;
     Some (address_to_bytes (mnt_minter tx) @ address_to_bytes (mnt_receiver tx) @
       mnt_asset_hash tx @ mnt_fee_hash tx @ balance_to_bytes (e_dec E) (mnt_amount tx) @
       balance_to_bytes (e_dec E) (mnt_fee tx) @ signature_to_bytes (e_rlp_encode E) signature)
   }"

definition mint_set_hash :: "('h, 'd) env \<Rightarrow> 'd Mint \<Rightarrow> 'd Mint option" where
  "mint_set_hash E tx = do {
     message \<leftarrow> mint_hash_message E tx;
     Some (tx\<lparr>mnt_hash := Some (e_hash E message)\<rparr>)
   }"

definition mint_verify_hash :: "('h, 'd) env \<Rightarrow> 'd Mint \<Rightarrow> bool option" where
  "mint_verify_hash E tx = check_hash E (mnt_hash tx) (mint_hash_message E tx)"

lemma mint_hash_verifies: "mint_set_hash E tx = Some tx' \<Longrightarrow> mint_verify_hash E tx' = Some True"
  by (auto simp: mint_set_hash_def mint_verify_hash_def mint_hash_message_def check_hash_def bind_eq_Some_conv)

definition mint_sign :: "('h, 'd) env \<Rightarrow> u8 list \<Rightarrow> 'd Mint \<Rightarrow> 'd Mint option" where
  "mint_sign E skey tx = do {
     signature \<leftarrow> attach_signature (mnt_minter tx) (mnt_signature tx) (e_sign E (mint_sign_message E tx) skey);
     Some (tx\<lparr>mnt_signature := signature\<rparr>)
   }"

definition mint_verify_sig :: "('h, 'd) env \<Rightarrow> 'd Mint \<Rightarrow> bool option" where
  "mint_verify_sig E tx = check_sig E (mnt_minter tx) (mnt_signature tx) (mint_sign_message E tx)"

definition mint_verify_multi_sig :: "('h, 'd) env \<Rightarrow> 'd Mint \<Rightarrow> u8 \<Rightarrow> u8 list list \<Rightarrow> bool option" where
  "mint_verify_multi_sig E tx required_keys pkeys =
     check_multi_sig E (mnt_signature tx) (mint_sign_message E tx) required_keys pkeys"

definition mint_verify_multi_sig_shares :: "('h, 'd) env \<Rightarrow> 'd Mint \<Rightarrow> u8 \<Rightarrow> ShareMap \<Rightarrow> bool option" where
  "mint_verify_multi_sig_shares E tx percentile sm =
     check_shares E (mnt_signature tx) (mint_sign_message E tx) percentile sm"

section \<open>Validating and applying\<close>

text \<open>A stored 64-bit supply, formatted and parsed as a balance.\<close>

definition supply_balance :: "('h, 'd) env \<Rightarrow> u8 list \<Rightarrow> 'd Balance option" where
  "supply_balance E bin = do {
     supply \<leftarrow> decode_be_u64 bin;
     balance_must E (as_bytes (show_nat (unat supply) @ ''.0''))
   }"

definition mint_validate :: "('h, 'd) env \<Rightarrow> 'd Mint \<Rightarrow> 'h \<Rightarrow> bool option" where
  "mint_validate E tx t = do {
     zero \<leftarrow> zero_balance E;
     if d_eq (e_dec E) (balance_inner (mnt_amount tx)) (balance_inner zero) then Some False
     else do {
       ok \<leftarrow> validate_signature E t (mnt_minter tx) (mnt_signature tx) (mint_sign_message E tx);
       if \<not> ok then Some False
       else do {
         let minter = address_to_bytes (mnt_minter tx);
         let asset_hash = e_hex E (mnt_asset_hash tx);
         get_or_false E t (dot_key asset_hash ''m'') (\<lambda>stored_minter.
           if stored_minter \<noteq> minter then Some False
           else do {
             coin_supply \<leftarrow> get_must E t (dot_key asset_hash ''s'');
             coin_supply \<leftarrow> supply_balance E coin_supply;
             max_supply \<leftarrow> get_must E t (dot_key asset_hash ''x'');
             max_supply \<leftarrow> supply_balance E max_supply;
             coin_supply \<leftarrow> balance_add (e_dec E) coin_supply (mnt_amount tx);
             if \<not> d_ge (e_dec E) (balance_inner max_supply) (balance_inner coin_supply) then Some False
             else
               get_or_false E t (dot_key asset_hash ''p'') (\<lambda>_.
                 get_or_false E t (cur_key E minter (mnt_fee_hash tx)) (\<lambda>b. do {
                   balance \<leftarrow> balance_must E b;
                   balance \<leftarrow> balance_sub (e_dec E) balance (mnt_fee tx);
                   Some (d_ge (e_dec E) (balance_inner balance) (balance_inner zero))
                 }))
           })
       }
     }
   }"

text \<open>The arms of \<open>apply\<close>: the minter mints for itself, for another account, for a new one.\<close>

definition mint_self :: "('h, 'd) env \<Rightarrow> 'd Mint \<Rightarrow> u8 list \<Rightarrow> 'h \<Rightarrow> 'h option" where
  "mint_self E tx nonce t = do {
     let minter = address_to_bytes (mnt_minter tx);
     let minter_cur_key = cur_key E minter (mnt_asset_hash tx);
     let minter_fee_key = cur_key E minter (mnt_fee_hash tx);
     if e_hex E (mnt_asset_hash tx) = e_hex E (mnt_fee_hash tx) then do {
       minter_balance \<leftarrow> get_balance E t minter_cur_key;
       minter_balance \<leftarrow> balance_sub (e_dec E) minter_balance (mnt_fee tx);
       minter_balance \<leftarrow> balance_add (e_dec E) minter_balance (mnt_amount tx);
       t \<leftarrow> e_insert E t (nonce_key E minter) nonce;
       put_balance E minter_cur_key minter_balance t
     } else do {
       minter_fee_balance \<leftarrow> get_balance E t minter_fee_key;
       minter_fee_balance \<leftarrow> balance_sub (e_dec E) minter_fee_balance (mnt_fee tx);
       minter_balance \<leftarrow> credited E t minter_cur_key (mnt_amount tx);
       t \<leftarrow> e_insert E t (nonce_key E minter) nonce;
       t \<leftarrow> put_balance E minter_cur_key minter_balance t;
       put_balance E minter_fee_key minter_fee_balance t
     }
   }"

definition mint_other :: "('h, 'd) env \<Rightarrow> 'd Mint \<Rightarrow> u8 list \<Rightarrow> 'h \<Rightarrow> 'h option" where
  "mint_other E tx nonce t = do {
     let minter = address_to_bytes (mnt_minter tx);
     let minter_fee_key = cur_key E minter (mnt_fee_hash tx);
     let receiver_cur_key = cur_key E (address_to_bytes (mnt_receiver tx)) (mnt_asset_hash tx);
     minter_balance \<leftarrow> get_balance E t minter_fee_key;
     minter_balance \<leftarrow> balance_sub (e_dec E) minter_balance (mnt_fee tx);
     receiver_balance \<leftarrow> credited E t receiver_cur_key (mnt_amount tx);
     t \<leftarrow> e_insert E t (nonce_key E minter) nonce;
     t \<leftarrow> put_balance E minter_fee_key minter_balance t;
     put_balance E receiver_cur_key receiver_balance t
   }"

definition mint_new :: "('h, 'd) env \<Rightarrow> 'd Mint \<Rightarrow> u8 list \<Rightarrow> 'h \<Rightarrow> 'h option" where
  "mint_new E tx nonce t = do {
     let minter = address_to_bytes (mnt_minter tx);
     let receiver = address_to_bytes (mnt_receiver tx);
     let minter_cur_key = cur_key E minter (mnt_asset_hash tx);
     minter_balance \<leftarrow> get_balance E t minter_cur_key;
     minter_balance \<leftarrow> balance_sub (e_dec E) minter_balance (mnt_fee tx);
     t \<leftarrow> e_insert E t (nonce_key E minter) nonce;
     t \<leftarrow> e_insert E t (nonce_key E receiver) zero_nonce;
     t \<leftarrow> put_balance E minter_cur_key minter_balance t;
     put_balance E (cur_key E receiver (mnt_asset_hash tx)) (mnt_amount tx) t
   }"

definition mint_apply :: "('h, 'd) env \<Rightarrow> 'd Mint \<Rightarrow> 'h \<Rightarrow> 'h option" where
  "mint_apply E tx t = do {
     let minter = address_to_bytes (mnt_minter tx);
     let receiver = address_to_bytes (mnt_receiver tx);
     bin_minter_nonce \<leftarrow> e_get E t (nonce_key E minter);
     nonce \<leftarrow> (case bin_minter_nonce of Some bin \<Rightarrow> next_nonce bin | None \<Rightarrow> Some zero_nonce);
     bin_receiver_nonce \<leftarrow> e_get E t (nonce_key E receiver);
     (case bin_receiver_nonce of
        Some _ \<Rightarrow> if e_hex E minter = e_hex E receiver then mint_self E tx nonce t else mint_other E tx nonce t
      | None \<Rightarrow> mint_new E tx nonce t)
   }"

section \<open>The wire format\<close>

definition mint_to_bytes :: "('h, 'd) env \<Rightarrow> 'd Mint \<Rightarrow> TxError + u8 list" where
  "mint_to_bytes E tx = (case mnt_hash tx of
       None \<Rightarrow> Inl (Msg ''Hash field is missing'')
     | Some hash \<Rightarrow> (case mnt_signature tx of
         None \<Rightarrow> Inl (Msg ''Signature field is missing'')
       | Some sig \<Rightarrow>
           (let signature = signature_to_bytes (e_rlp_encode E) sig;
                amount = balance_to_bytes (e_dec E) (mnt_amount tx);
                fee = balance_to_bytes (e_dec E) (mnt_fee tx) in
            Inr ([MINT_TYPE, word_of_nat (length fee), word_of_nat (length amount)] @
              encode_be_u16 (word_of_nat (length signature)) @
              address_to_bytes (mnt_minter tx) @ address_to_bytes (mnt_receiver tx) @
              mnt_asset_hash tx @ mnt_fee_hash tx @ hash @ amount @ fee @ signature))))"

definition mint_from_bytes :: "('h, 'd) env \<Rightarrow> u8 list \<Rightarrow> 'd Mint parsed" where
  "mint_from_bytes E bytes =
     attempt (tx_type MINT_TYPE bytes) (\<lambda>_.
     attempt (tx_u8 1 ''Bad fee len'' bytes) (\<lambda>fee_len.
     attempt (tx_u8 2 ''Bad amount len'' bytes) (\<lambda>amount_len.
     attempt (tx_u16 3 ''Bad signature len'' bytes) (\<lambda>signature_len.
     attempt (tx_drain 5 bytes) (\<lambda>(_, buf).
     attempt (field 33 buf) (\<lambda>(minter_vec, buf).
     attempt (or_err (address_from_bytes minter_vec)) (\<lambda>minter.
     attempt (field 33 buf) (\<lambda>(receiver_vec, buf).
     attempt (or_err (address_from_bytes receiver_vec)) (\<lambda>receiver.
     attempt (field 32 buf) (\<lambda>(hash_vec, buf).
     attempt (to_hash hash_vec) (\<lambda>asset_hash.
     attempt (field 32 buf) (\<lambda>(hash_vec, buf).
     attempt (to_hash hash_vec) (\<lambda>fee_hash.
     attempt (field 32 buf) (\<lambda>(hash_vec, buf).
     attempt (to_hash hash_vec) (\<lambda>hash.
     attempt (field (unat amount_len) buf) (\<lambda>(amount_vec, buf).
     attempt (or_msg ''Bad amount'' (balance_from_bytes (e_dec E) amount_vec)) (\<lambda>amount.
     attempt (field (unat fee_len) buf) (\<lambda>(fee_vec, buf).
     attempt (or_msg ''Bad fee'' (balance_from_bytes (e_dec E) fee_vec)) (\<lambda>fee.
     attempt (last_field (unat signature_len) buf) (\<lambda>sig_vec.
     attempt (or_err (signature_from_bytes (e_rlp_decode E) sig_vec)) (\<lambda>signature.
     Some (Inr \<lparr>mnt_minter = minter, mnt_receiver = receiver, mnt_amount = amount,
       mnt_asset_hash = asset_hash, mnt_fee_hash = fee_hash, mnt_fee = fee, mnt_hash = Some hash,
       mnt_signature = Some signature\<rparr>))))))))))))))))))))))"

definition wf_mint :: "('h, 'd) env \<Rightarrow> 'd Mint \<Rightarrow> bool" where
  "wf_mint E tx \<longleftrightarrow> wf_address (mnt_minter tx) \<and> wf_address (mnt_receiver tx) \<and>
     wf_balance E (mnt_amount tx) \<and> wf_balance E (mnt_fee tx) \<and>
     length (mnt_asset_hash tx) = 32 \<and> length (mnt_fee_hash tx) = 32 \<and>
     (\<exists>h. mnt_hash tx = Some h \<and> length h = 32) \<and>
     (\<exists>s. mnt_signature tx = Some s \<and> wf_signature s \<and>
        length (signature_to_bytes (e_rlp_encode E) s) < 2 ^ 16)"

lemma mint_roundtrip:
  assumes "rlp_law E" "wf_mint E tx"
  shows "\<exists>bytes. mint_to_bytes E tx = Inr bytes \<and> mint_from_bytes E bytes = Some (Inr tx)"
proof -
  from assms(2) obtain h s where h: "mnt_hash tx = Some h" "length h = 32"
    and s: "mnt_signature tx = Some s" "wf_signature s" "length (signature_to_bytes (e_rlp_encode E) s) < 2 ^ 16"
    by (auto simp: wf_mint_def)
  define bytes where "bytes = [MINT_TYPE, word_of_nat (length (balance_to_bytes (e_dec E) (mnt_fee tx))),
      word_of_nat (length (balance_to_bytes (e_dec E) (mnt_amount tx)))] @
      encode_be_u16 (word_of_nat (length (signature_to_bytes (e_rlp_encode E) s))) @
      address_to_bytes (mnt_minter tx) @ address_to_bytes (mnt_receiver tx) @
      mnt_asset_hash tx @ mnt_fee_hash tx @ h @
      balance_to_bytes (e_dec E) (mnt_amount tx) @ balance_to_bytes (e_dec E) (mnt_fee tx) @
      signature_to_bytes (e_rlp_encode E) s"
  have "mint_to_bytes E tx = Inr bytes"
    using h s by (simp add: mint_to_bytes_def bytes_def Let_def)
  moreover have "mnt_asset_hash tx \<noteq> []" "mnt_fee_hash tx \<noteq> []" "h \<noteq> []"
    using assms(2) h(2) by (auto simp: wf_mint_def)
  then have "mint_from_bytes E bytes = Some (Inr tx)"
    using assms h s
    by (simp add: mint_from_bytes_def header_5[OF bytes_def] wf_mint_def wire_simps del: One_nat_def)
  ultimately show ?thesis by blast
qed

lemma mint_bytes_tag: "mint_to_bytes E tx = Inr bytes \<Longrightarrow> \<exists>rest. bytes = MINT_TYPE # rest"
  by (auto simp: mint_to_bytes_def Let_def split: option.split_asm)

lemma mint_parsed_tag: "mint_from_bytes E bytes = Some (Inr tx) \<Longrightarrow> \<exists>rest. bytes = MINT_TYPE # rest"
  unfolding mint_from_bytes_def by (rule attempt_type)

interpretation mint: tx_codec "mint_to_bytes E" "mint_from_bytes E" "\<lambda>tx. rlp_law E \<and> wf_mint E tx" MINT_TYPE
  for E :: "('h, 'd) env"
  by unfold_locales (auto simp: mint_roundtrip dest: mint_bytes_tag mint_parsed_tag)

section \<open>What minting does\<close>

lemma mint_apply_cases:
  assumes "mint_apply E tx t = Some t'" "hex_law E"
  obtains
    (self) n r where "n \<noteq> []" "e_get E t (nonce_key E (address_to_bytes (mnt_receiver tx))) = Some (Some r)"
      "address_to_bytes (mnt_minter tx) = address_to_bytes (mnt_receiver tx)" "mint_self E tx n t = Some t'"
  | (other) n r where "n \<noteq> []" "e_get E t (nonce_key E (address_to_bytes (mnt_receiver tx))) = Some (Some r)"
      "address_to_bytes (mnt_minter tx) \<noteq> address_to_bytes (mnt_receiver tx)" "mint_other E tx n t = Some t'"
  | (new) n where "n \<noteq> []" "e_get E t (nonce_key E (address_to_bytes (mnt_receiver tx))) = Some None"
      "mint_new E tx n t = Some t'"
proof -
  have hex: "e_hex E a = e_hex E b \<longleftrightarrow> a = b" for a b using assms(2) by (auto simp: hex_law_def inj_def)
  from assms(1) obtain m n r where
    n: "(case m of Some bin \<Rightarrow> next_nonce bin | None \<Rightarrow> Some zero_nonce) = Some n"
    and r: "e_get E t (nonce_key E (address_to_bytes (mnt_receiver tx))) = Some r"
    and arm: "(case r of
        Some _ \<Rightarrow> if address_to_bytes (mnt_minter tx) = address_to_bytes (mnt_receiver tx)
          then mint_self E tx n t else mint_other E tx n t
      | None \<Rightarrow> mint_new E tx n t) = Some t'"
    unfolding mint_apply_def Let_def bind_eq_Some_conv hex by blast
  have "n \<noteq> []" using n by (cases m) (auto dest: next_nonce_not_empty)
  with r arm self other new show thesis by (cases r) (auto split: if_split_asm)
qed

lemmas mint_arms = mint_self_def mint_other_def mint_new_def

text \<open>No entry of an asset changes, in particular not its coin supply.\<close>

lemma mint_asset_frame:
  assumes laws: "trie_law E" "hex_law E" "decimal_law E val"
    and run: "mint_apply E tx t = Some t'" and s: "s \<in> {''s'', ''x'', ''m'', ''p''}"
  shows "e_get E t' (dot_key (e_hex E a) s) = e_get E t (dot_key (e_hex E a) s)"
proof -
  note key = asset_key[OF laws(2), of s a]
  note frames = insert_frame[OF laws(1)] put_balance_frame[OF laws(1,3)]
  from run laws(2) show ?thesis
    by (cases rule: mint_apply_cases)
      (use s key in \<open>auto simp: mint_arms Let_def bind_eq_Some_conv dest!: frames split: if_split_asm\<close>)
qed

text \<open>An existing receiver gets the amount, and the minter pays the fee in the currency of the fee.\<close>

definition mint_delta :: "('d \<Rightarrow> 'v::linordered_ab_group_add) \<Rightarrow> 'd Mint \<Rightarrow> u8 list \<Rightarrow> hash \<Rightarrow> 'v" where
  "mint_delta val tx addr asset =
    (if addr = address_to_bytes (mnt_receiver tx) \<and> asset = mnt_asset_hash tx then val (balance_inner (mnt_amount tx)) else 0) -
    (if addr = address_to_bytes (mnt_minter tx) \<and> asset = mnt_fee_hash tx then val (balance_inner (mnt_fee tx)) else 0)"

lemma mint_self_stored:
  assumes laws: "trie_law E" "hex_law E" "decimal_law E val" and n: "n \<noteq> []"
    and self: "address_to_bytes (mnt_minter tx) = address_to_bytes (mnt_receiver tx)"
    and run: "mint_self E tx n t = Some t'"
  shows "stored E val t' (cur_key E addr asset) = stored E val t (cur_key E addr asset) + mint_delta val tx addr asset"
proof (cases "mnt_asset_hash tx = mnt_fee_hash tx")
  case True
  with run obtain b b1 b2 u where
    b: "get_balance E t (cur_key E (address_to_bytes (mnt_minter tx)) (mnt_asset_hash tx)) = Some b"
      "balance_sub (e_dec E) b (mnt_fee tx) = Some b1" "balance_add (e_dec E) b1 (mnt_amount tx) = Some b2"
    and u: "e_insert E t (nonce_key E (address_to_bytes (mnt_minter tx))) n = Some u"
      "put_balance E (cur_key E (address_to_bytes (mnt_minter tx)) (mnt_asset_hash tx)) b2 u = Some t'"
    by (auto simp: mint_self_def Let_def bind_eq_Some_conv)
  show ?thesis
    using True self get_balance_stored[OF b(1), of val] balance_sub_val[OF laws(3) b(2)] balance_add_val[OF laws(3) b(3)]
    by (auto simp: mint_delta_def put_balance_stored[OF laws(1,3) u(2)] insert_stored[OF laws(1) u(1) n]
        keys_distinct[OF laws(2)])
next
  case False
  have hex: "e_hex E a = e_hex E b \<longleftrightarrow> a = b" for a b using laws(2) by (auto simp: hex_law_def inj_def)
  from False run obtain b b1 c u v where
    b: "get_balance E t (cur_key E (address_to_bytes (mnt_minter tx)) (mnt_fee_hash tx)) = Some b"
      "balance_sub (e_dec E) b (mnt_fee tx) = Some b1"
      "credited E t (cur_key E (address_to_bytes (mnt_minter tx)) (mnt_asset_hash tx)) (mnt_amount tx) = Some c"
    and u: "e_insert E t (nonce_key E (address_to_bytes (mnt_minter tx))) n = Some u"
      "put_balance E (cur_key E (address_to_bytes (mnt_minter tx)) (mnt_asset_hash tx)) c u = Some v"
      "put_balance E (cur_key E (address_to_bytes (mnt_minter tx)) (mnt_fee_hash tx)) b1 v = Some t'"
    by (auto simp: mint_self_def Let_def bind_eq_Some_conv hex)
  show ?thesis
    using False self get_balance_stored[OF b(1), of val] balance_sub_val[OF laws(3) b(2)] credited_stored[OF laws(3) b(3)]
    by (auto simp: mint_delta_def put_balance_stored[OF laws(1,3) u(2)] put_balance_stored[OF laws(1,3) u(3)]
        insert_stored[OF laws(1) u(1) n] keys_distinct[OF laws(2)])
qed

lemma mint_other_stored:
  assumes laws: "trie_law E" "hex_law E" "decimal_law E val" and n: "n \<noteq> []"
    and other: "address_to_bytes (mnt_minter tx) \<noteq> address_to_bytes (mnt_receiver tx)"
    and run: "mint_other E tx n t = Some t'"
  shows "stored E val t' (cur_key E addr asset) = stored E val t (cur_key E addr asset) + mint_delta val tx addr asset"
proof -
  from run obtain b b1 c u v where
    b: "get_balance E t (cur_key E (address_to_bytes (mnt_minter tx)) (mnt_fee_hash tx)) = Some b"
      "balance_sub (e_dec E) b (mnt_fee tx) = Some b1"
      "credited E t (cur_key E (address_to_bytes (mnt_receiver tx)) (mnt_asset_hash tx)) (mnt_amount tx) = Some c"
    and u: "e_insert E t (nonce_key E (address_to_bytes (mnt_minter tx))) n = Some u"
      "put_balance E (cur_key E (address_to_bytes (mnt_minter tx)) (mnt_fee_hash tx)) b1 u = Some v"
      "put_balance E (cur_key E (address_to_bytes (mnt_receiver tx)) (mnt_asset_hash tx)) c v = Some t'"
    by (auto simp: mint_other_def Let_def bind_eq_Some_conv)
  show ?thesis
    using other get_balance_stored[OF b(1), of val] balance_sub_val[OF laws(3) b(2)] credited_stored[OF laws(3) b(3)]
    by (auto simp: mint_delta_def put_balance_stored[OF laws(1,3) u(2)] put_balance_stored[OF laws(1,3) u(3)]
        insert_stored[OF laws(1) u(1) n] keys_distinct[OF laws(2)])
qed

lemma mint_apply_stored:
  assumes laws: "trie_law E" "hex_law E" "decimal_law E val"
    and run: "mint_apply E tx t = Some t'"
    and receiver: "e_get E t (nonce_key E (address_to_bytes (mnt_receiver tx))) \<noteq> Some None"
  shows "stored E val t' (cur_key E addr asset) = stored E val t (cur_key E addr asset) + mint_delta val tx addr asset"
  using run laws(2)
  by (cases rule: mint_apply_cases)
    (use receiver in \<open>simp_all add: mint_self_stored[OF laws] mint_other_stored[OF laws]\<close>)

text \<open>With a new receiver the fee is taken in the minted currency instead.\<close>

lemma mint_new_stored:
  assumes laws: "trie_law E" "hex_law E" "decimal_law E val"
    and run: "mint_apply E tx t = Some t'"
    and receiver: "e_get E t (nonce_key E (address_to_bytes (mnt_receiver tx))) = Some None"
    and other: "address_to_bytes (mnt_minter tx) \<noteq> address_to_bytes (mnt_receiver tx)"
  shows "stored E val t' (cur_key E (address_to_bytes (mnt_minter tx)) asset) =
    stored E val t (cur_key E (address_to_bytes (mnt_minter tx)) asset) -
    (if asset = mnt_asset_hash tx then val (balance_inner (mnt_fee tx)) else 0)"
  using run laws(2)
proof (cases rule: mint_apply_cases)
  case (new n)
  from new(3) obtain b b1 u1 u2 u3 where
    b: "get_balance E t (cur_key E (address_to_bytes (mnt_minter tx)) (mnt_asset_hash tx)) = Some b"
      "balance_sub (e_dec E) b (mnt_fee tx) = Some b1"
    and u: "e_insert E t (nonce_key E (address_to_bytes (mnt_minter tx))) n = Some u1"
      "e_insert E u1 (nonce_key E (address_to_bytes (mnt_receiver tx))) zero_nonce = Some u2"
      "put_balance E (cur_key E (address_to_bytes (mnt_minter tx)) (mnt_asset_hash tx)) b1 u2 = Some u3"
      "put_balance E (cur_key E (address_to_bytes (mnt_receiver tx)) (mnt_asset_hash tx)) (mnt_amount tx) u3 = Some t'"
    by (auto simp: mint_new_def Let_def bind_eq_Some_conv)
  show ?thesis
    using other get_balance_stored[OF b(1), of val] balance_sub_val[OF laws(3) b(2)]
    by (simp add: put_balance_stored[OF laws(1,3) u(4)] put_balance_stored[OF laws(1,3) u(3)]
        insert_stored[OF laws(1) u(2)] insert_stored[OF laws(1) u(1) new(1)] keys_distinct[OF laws(2)])
qed (use receiver other in simp_all)

text \<open>
  The maximal supply never stops the minter: the amount can be minted any number of times, and the
  supply that \<open>validate\<close> compares with the maximum stays what it was.
\<close>

lemma mint_keeps_receiver:
  assumes laws: "trie_law E" "hex_law E" "decimal_law E val"
    and run: "mint_apply E tx t = Some t'"
    and receiver: "e_get E t (nonce_key E (address_to_bytes (mnt_receiver tx))) \<noteq> Some None"
  shows "e_get E t' (nonce_key E (address_to_bytes (mnt_receiver tx))) \<noteq> Some None"
proof -
  note upd = trie_law_insert[OF laws(1)] put_balance_get[OF laws(1,3)]
  from run laws(2) show ?thesis
    by (cases rule: mint_apply_cases)
      (use receiver in \<open>auto simp: mint_arms Let_def bind_eq_Some_conv keys_distinct[OF laws(2)]
        dest!: upd split: if_split_asm\<close>)
qed

lemma mint_repeated:
  fixes val :: "'d \<Rightarrow> 'v::linordered_idom"
  assumes laws: "trie_law E" "hex_law E" "decimal_law E val"
    and run: "repeatm n (mint_apply E tx) t = Some t'"
    and receiver: "e_get E t (nonce_key E (address_to_bytes (mnt_receiver tx))) \<noteq> Some None"
    and fee: "address_to_bytes (mnt_minter tx) \<noteq> address_to_bytes (mnt_receiver tx) \<or> mnt_fee_hash tx \<noteq> mnt_asset_hash tx"
  shows "stored E val t' (cur_key E (address_to_bytes (mnt_receiver tx)) (mnt_asset_hash tx)) =
      stored E val t (cur_key E (address_to_bytes (mnt_receiver tx)) (mnt_asset_hash tx)) +
        of_nat n * val (balance_inner (mnt_amount tx)) \<and>
    e_get E t' (dot_key (e_hex E (mnt_asset_hash tx)) ''s'') = e_get E t (dot_key (e_hex E (mnt_asset_hash tx)) ''s'') \<and>
    e_get E t' (dot_key (e_hex E (mnt_asset_hash tx)) ''x'') = e_get E t (dot_key (e_hex E (mnt_asset_hash tx)) ''x'')"
  using run receiver
proof (induction n arbitrary: t)
  case (Suc n)
  from Suc.prems(1) obtain u where u: "mint_apply E tx t = Some u" and rest: "repeatm n (mint_apply E tx) u = Some t'"
    by (auto simp: bind_eq_Some_conv)
  from Suc.IH[OF rest mint_keeps_receiver[OF laws u Suc.prems(2)]] fee
    mint_apply_stored[OF laws u Suc.prems(2)] mint_asset_frame[OF laws u, of "''s''"] mint_asset_frame[OF laws u, of "''x''"]
  show ?case by (auto simp: mint_delta_def algebra_simps)
qed simp

end
