(* ===== verification/Tx_Pay.thy ===== *)
theory Tx_Pay
  imports Tx_Common
begin

text \<open>\<open>transactions/src/pay.rs\<close>: a company pays a dividend to its shareholders.\<close>

record 'd Pay =
  pay_payer :: ShareholdersAddress
  pay_asset_hash :: hash
  pay_fee_hash :: hash
  pay_amount :: "'d Balance"
  pay_fee :: "'d Balance"
  pay_hash :: "hash option"
  pay_signature :: "MultiSig option"

definition PAY_TYPE :: u8 where
  "PAY_TYPE = 4"

section \<open>Signing and hashing\<close>

definition pay_sign_message :: "('h, 'd) env \<Rightarrow> 'd Pay \<Rightarrow> u8 list" where
  "pay_sign_message E tx = shareholders_to_bytes (pay_payer tx) @ pay_asset_hash tx @ pay_fee_hash tx @
     balance_to_bytes (e_dec E) (pay_amount tx) @ balance_to_bytes (e_dec E) (pay_fee tx)"

definition pay_hash_message :: "('h, 'd) env \<Rightarrow> 'd Pay \<Rightarrow> u8 list option" where
  "pay_hash_message E tx = do {
     signature \<leftarrow> pay_signature tx;
     Some (shareholders_to_bytes (pay_payer tx) @ pay_asset_hash tx @ pay_fee_hash tx @
       balance_to_bytes (e_dec E) (pay_amount tx) @ balance_to_bytes (e_dec E) (pay_fee tx) @
       msig_to_bytes (e_rlp_encode E) signature)
   }"

definition pay_set_hash :: "('h, 'd) env \<Rightarrow> 'd Pay \<Rightarrow> 'd Pay option" where
  "pay_set_hash E tx = do {
     message \<leftarrow> pay_hash_message E tx;
     Some (tx\<lparr>pay_hash := Some (e_hash E message)\<rparr>)
   }"

definition pay_verify_hash :: "('h, 'd) env \<Rightarrow> 'd Pay \<Rightarrow> bool option" where
  "pay_verify_hash E tx = check_hash E (pay_hash tx) (pay_hash_message E tx)"

lemma pay_hash_verifies: "pay_set_hash E tx = Some tx' \<Longrightarrow> pay_verify_hash E tx' = Some True"
  by (auto simp: pay_set_hash_def pay_verify_hash_def pay_hash_message_def check_hash_def bind_eq_Some_conv)

definition pay_sign :: "('h, 'd) env \<Rightarrow> u8 list \<Rightarrow> 'd Pay \<Rightarrow> 'd Pay" where
  "pay_sign E skey tx =
     tx\<lparr>pay_signature := attach_multi (pay_signature tx) (e_sign E (pay_sign_message E tx) skey)\<rparr>"

definition pay_verify_multi_sig_shares :: "('h, 'd) env \<Rightarrow> 'd Pay \<Rightarrow> u8 \<Rightarrow> ShareMap \<Rightarrow> bool option" where
  "pay_verify_multi_sig_shares E tx percentile sm =
     check_multi_shares E (pay_signature tx) (pay_sign_message E tx) percentile sm"

section \<open>Applying\<close>

text \<open>The dividend of an owner of \<open>address_shares\<close> out of \<open>issued_shares\<close>.\<close>

definition dividend :: "('h, 'd) env \<Rightarrow> 'd Balance \<Rightarrow> u32 \<Rightarrow> u32 \<Rightarrow> 'd Balance option" where
  "dividend E amount address_shares issued_shares = do {
     address_shares \<leftarrow> d_parse (e_dec E) (show_nat (unat address_shares) @ ''.0'');
     issued_shares \<leftarrow> d_parse (e_dec E) (show_nat (unat issued_shares) @ ''.0'');
     one_hundred \<leftarrow> d_parse (e_dec E) ''100.0'';
     ratio \<leftarrow> d_div (e_dec E) address_shares issued_shares;
     percentage \<leftarrow> d_mul (e_dec E) ratio one_hundred;
     ratio \<leftarrow> d_div (e_dec E) percentage one_hundred;
     amount \<leftarrow> d_mul (e_dec E) ratio (balance_inner amount);
     balance_must E (as_bytes (d_print (e_dec E) amount))
   }"

definition pay_dividend ::
  "('h, 'd) env \<Rightarrow> 'd Balance \<Rightarrow> hash \<Rightarrow> u32 \<Rightarrow> 'h \<Rightarrow> NormalAddress \<times> u32 \<Rightarrow> 'h option" where
  "pay_dividend E amount asset_hash issued_shares t = (\<lambda>(address, address_shares). do {
     amount \<leftarrow> dividend E amount address_shares issued_shares;
     put_balance E (cur_key E (normal_to_bytes address) asset_hash) amount t
   })"

definition pay_apply :: "('h, 'd) env \<Rightarrow> 'd Pay \<Rightarrow> 'h \<Rightarrow> 'h option" where
  "pay_apply E tx t = do {
     let payer = shareholders_to_bytes (pay_payer tx);
     let payer_cur_key = cur_key E payer (pay_asset_hash tx);
     let payer_fee_key = cur_key E payer (pay_fee_hash tx);
     let share_map_key = dot_key (e_hex E payer) ''sm'';
     bin_payer_nonce \<leftarrow> get_must E t (nonce_key E payer);
     nonce \<leftarrow> next_nonce bin_payer_nonce;
     if e_hex E (pay_asset_hash tx) = e_hex E (pay_fee_hash tx) then do {
       payer_balance \<leftarrow> get_balance E t payer_cur_key;
       share_map \<leftarrow> get_share_map E t share_map_key;
       payer_balance \<leftarrow> balance_sub (e_dec E) payer_balance (pay_fee tx);
       payer_balance \<leftarrow> balance_sub (e_dec E) payer_balance (pay_amount tx);
       t \<leftarrow> foldm (pay_dividend E (pay_amount tx) (pay_asset_hash tx) (sm_issued share_map)) t
         (e_iter E (sm_entries share_map));
       t \<leftarrow> e_insert E t (nonce_key E payer) nonce;
       put_balance E payer_cur_key payer_balance t
     } else do {
       payer_cur_balance \<leftarrow> get_balance E t payer_cur_key;
       payer_fee_balance \<leftarrow> get_balance E t payer_fee_key;
       share_map \<leftarrow> get_share_map E t share_map_key;
       payer_fee_balance \<leftarrow> balance_sub (e_dec E) payer_fee_balance (pay_fee tx);
       payer_cur_balance \<leftarrow> balance_sub (e_dec E) payer_cur_balance (pay_amount tx);
       t \<leftarrow> foldm (pay_dividend E (pay_amount tx) (pay_asset_hash tx) (sm_issued share_map)) t
         (e_iter E (sm_entries share_map));
       t \<leftarrow> e_insert E t (nonce_key E payer) nonce;
       t \<leftarrow> put_balance E payer_cur_key payer_cur_balance t;
       put_balance E payer_fee_key payer_fee_balance t
     }
   }"

section \<open>The wire format\<close>

definition pay_to_bytes :: "('h, 'd) env \<Rightarrow> 'd Pay \<Rightarrow> TxError + u8 list" where
  "pay_to_bytes E tx = (case pay_hash tx of
       None \<Rightarrow> Inl (Msg ''Hash field is missing'')
     | Some hash \<Rightarrow> (case pay_signature tx of
         None \<Rightarrow> Inl (Msg ''Signature field is missing'')
       | Some sig \<Rightarrow>
           (let signature = msig_to_bytes (e_rlp_encode E) sig;
                amount = balance_to_bytes (e_dec E) (pay_amount tx);
                fee = balance_to_bytes (e_dec E) (pay_fee tx) in
            Inr (
              [PAY_TYPE, word_of_nat (length amount), word_of_nat (length fee)] @
              encode_be_u16 (word_of_nat (length signature)) @ shareholders_to_bytes (pay_payer tx) @
              pay_asset_hash tx @ pay_fee_hash tx @ hash @ amount @ fee @ signature))))"

definition pay_from_bytes :: "('h, 'd) env \<Rightarrow> u8 list \<Rightarrow> 'd Pay parsed" where
  "pay_from_bytes E bytes =
     attempt (tx_type PAY_TYPE bytes) (\<lambda>_.
     attempt (tx_u8 1 ''Bad amount len'' bytes) (\<lambda>amount_len.
     attempt (tx_u8 2 ''Bad fee len'' bytes) (\<lambda>fee_len.
     attempt (tx_u16 3 ''Bad signature len'' bytes) (\<lambda>signature_len.
     attempt (tx_drain 5 bytes) (\<lambda>(_, buf).
     attempt (field 33 buf) (\<lambda>(payer_vec, buf).
     attempt (or_err (shareholders_from_bytes payer_vec)) (\<lambda>payer.
     attempt (field 32 buf) (\<lambda>(hash_vec, buf).
     attempt (to_hash hash_vec) (\<lambda>asset_hash.
     attempt (field 32 buf) (\<lambda>(hash_vec, buf).
     attempt (to_hash hash_vec) (\<lambda>fee_hash.
     attempt (field 32 buf) (\<lambda>(hash_vec, buf).
     attempt (to_hash hash_vec) (\<lambda>hash.
     attempt (field (unat amount_len) buf) (\<lambda>(amount_vec, buf).
     attempt (or_msg ''Bad amount'' (balance_from_bytes (e_dec E) amount_vec)) (\<lambda>amount.
     attempt (field (unat fee_len) buf) (\<lambda>(fee_vec, buf).
     attempt (or_msg ''Bad fee'' (balance_from_bytes (e_dec E) fee_vec)) (\<lambda>fee.
     attempt (last_field (unat signature_len) buf) (\<lambda>sig_vec.
     attempt (or_err (msig_from_bytes (e_rlp_decode E) sig_vec)) (\<lambda>signature.
     Some (Inr \<lparr>pay_payer = payer, pay_asset_hash = asset_hash, pay_fee_hash = fee_hash,
       pay_amount = amount, pay_fee = fee, pay_hash = Some hash, pay_signature = Some signature\<rparr>))))))))))))))))))))"

definition wf_pay :: "('h, 'd) env \<Rightarrow> 'd Pay \<Rightarrow> bool" where
  "wf_pay E tx \<longleftrightarrow> length (sh_inner (pay_payer tx)) = 32 \<and> length (pay_asset_hash tx) = 32 \<and>
     length (pay_fee_hash tx) = 32 \<and> wf_balance E (pay_amount tx) \<and>
     wf_balance E (pay_fee tx) \<and>
     (\<exists>h. pay_hash tx = Some h \<and> length h = 32) \<and>
     (\<exists>s. pay_signature tx = Some s \<and> (\<forall>p \<in> set (msigs s). wf_sig p) \<and>
        length (msig_to_bytes (e_rlp_encode E) s) < 2 ^ 16)"

lemma pay_roundtrip:
  assumes "rlp_law E" "wf_pay E tx"
  shows "\<exists>bytes. pay_to_bytes E tx = Inr bytes \<and> pay_from_bytes E bytes = Some (Inr tx)"
proof -
  from assms(2) obtain h s where h: "pay_hash tx = Some h" "length h = 32"
    and s: "pay_signature tx = Some s" "(\<forall>p \<in> set (msigs s). wf_sig p)" "length (msig_to_bytes (e_rlp_encode E) s) < 2 ^ 16"
    by (auto simp: wf_pay_def)
  define bytes where "bytes =
      [PAY_TYPE, word_of_nat (length (balance_to_bytes (e_dec E) (pay_amount tx))), word_of_nat (length (balance_to_bytes (e_dec E) (pay_fee tx)))] @
      encode_be_u16 (word_of_nat (length (msig_to_bytes (e_rlp_encode E) s))) @
      shareholders_to_bytes (pay_payer tx) @ pay_asset_hash tx @ pay_fee_hash tx @ h @
      balance_to_bytes (e_dec E) (pay_amount tx) @ balance_to_bytes (e_dec E) (pay_fee tx) @
      msig_to_bytes (e_rlp_encode E) s"
  have "pay_to_bytes E tx = Inr bytes"
    using h s by (simp add: pay_to_bytes_def bytes_def Let_def)
  moreover have "pay_asset_hash tx \<noteq> []" "pay_fee_hash tx \<noteq> []" "h \<noteq> []"
    using assms(2) h(2) by (auto simp: wf_pay_def)
  then have "pay_from_bytes E bytes = Some (Inr tx)"
    using assms h s
    by (simp add: pay_from_bytes_def header_5[OF bytes_def] wf_pay_def wire_simps del: One_nat_def)
  ultimately show ?thesis by blast
qed

lemma pay_bytes_tag: "pay_to_bytes E tx = Inr bytes \<Longrightarrow> \<exists>rest. bytes = PAY_TYPE # rest"
  by (auto simp: pay_to_bytes_def Let_def split: option.split_asm)

lemma pay_parsed_tag: "pay_from_bytes E bytes = Some (Inr tx) \<Longrightarrow> \<exists>rest. bytes = PAY_TYPE # rest"
  unfolding pay_from_bytes_def by (rule attempt_type)

interpretation pay: tx_codec "pay_to_bytes E" "pay_from_bytes E" "\<lambda>tx. rlp_law E \<and> wf_pay E tx" PAY_TYPE
  for E :: "('h, 'd) env"
  by unfold_locales (auto simp: pay_roundtrip dest: pay_bytes_tag pay_parsed_tag)

section \<open>What a shareholder gets\<close>

lemma normal_to_bytes_inj [simp]: "normal_to_bytes a = normal_to_bytes b \<longleftrightarrow> a = b"
  by (cases a; cases b) (simp add: normal_to_bytes_def)

lemma pay_dividend_step:
  assumes "pay_dividend E amount asset issued t e = Some u"
  obtains b where "dividend E amount (snd e) issued = Some b"
    "put_balance E (cur_key E (normal_to_bytes (fst e)) asset) b t = Some u"
  using assms by (auto simp: pay_dividend_def bind_eq_Some_conv split: prod.split_asm)

text \<open>The loop leaves the dividend at the key of every shareholder and changes no other entry.\<close>

lemma dividends_frame:
  assumes laws: "trie_law E" "decimal_law E val"
    and run: "foldm (pay_dividend E amount asset issued) t es = Some t'"
    and k: "\<And>e. e \<in> set es \<Longrightarrow> k \<noteq> cur_key E (normal_to_bytes (fst e)) asset"
  shows "e_get E t' k = e_get E t k"
  using run k
proof (induction es arbitrary: t)
  case (Cons e es)
  from Cons.prems(1) obtain u where u: "pay_dividend E amount asset issued t e = Some u"
    and rest: "foldm (pay_dividend E amount asset issued) u es = Some t'"
    by (auto simp: bind_eq_Some_conv)
  from u obtain b where "put_balance E (cur_key E (normal_to_bytes (fst e)) asset) b t = Some u"
    by (rule pay_dividend_step)
  from put_balance_get[OF laws this] Cons.prems(2) Cons.IH[OF rest] show ?case by simp
qed simp

lemma dividends_stored:
  assumes laws: "trie_law E" "hex_law E" "decimal_law E val"
    and run: "foldm (pay_dividend E amount asset issued) t es = Some t'"
    and d: "distinct (map fst es)" and mem: "(a, v) \<in> set es"
  shows "\<exists>b. dividend E amount v issued = Some b \<and>
    stored E val t' (cur_key E (normal_to_bytes a) asset) = val (balance_inner b)"
  using run d mem
proof (induction es arbitrary: t)
  case (Cons e es)
  from Cons.prems(1) obtain u where u: "pay_dividend E amount asset issued t e = Some u"
    and rest: "foldm (pay_dividend E amount asset issued) u es = Some t'"
    by (auto simp: bind_eq_Some_conv)
  from u obtain b where b: "dividend E amount (snd e) issued = Some b"
    and put: "put_balance E (cur_key E (normal_to_bytes (fst e)) asset) b t = Some u"
    by (rule pay_dividend_step)
  show ?case
  proof (cases "e = (a, v)")
    case True
    have g: "e_get E t' (cur_key E (normal_to_bytes a) asset) = e_get E u (cur_key E (normal_to_bytes a) asset)"
      using Cons.prems(2) True
      by (intro dividends_frame[OF laws(1,3) rest]) (auto simp: keys_distinct[OF laws(2)])
    from b put_balance_stored[OF laws(1,3) put] True show ?thesis by (simp add: stored_eq[OF g])
  next
    case False
    with Cons.prems(2,3) show ?thesis by (intro Cons.IH[OF rest]) auto
  qed
qed simp

lemma pay_apply_loop:
  assumes "pay_apply E tx t = Some t'" "trie_law E" "hex_law E" "decimal_law E val"
  obtains sm u where "get_share_map E t (dot_key (e_hex E (shareholders_to_bytes (pay_payer tx))) ''sm'') = Some sm"
    "foldm (pay_dividend E (pay_amount tx) (pay_asset_hash tx) (sm_issued sm)) t (e_iter E (sm_entries sm)) = Some u"
    "\<And>a. e_get E t' (cur_key E (normal_to_bytes a) (pay_asset_hash tx)) =
      e_get E u (cur_key E (normal_to_bytes a) (pay_asset_hash tx))"
proof -
  have tag: "normal_to_bytes a \<noteq> shareholders_to_bytes b" for a b
    by (simp add: normal_to_bytes_def shareholders_to_bytes_def)
  note frames = insert_frame[OF assms(2)] put_balance_frame[OF assms(2,4)]
  from assms(1) show thesis
    by (auto simp: pay_apply_def Let_def bind_eq_Some_conv keys_distinct[OF assms(3)] tag
        dest!: frames dest: next_nonce_not_empty intro!: that split: if_split_asm)
qed

text \<open>
  A shareholder ends up with the dividend: what the account owned before is overwritten.
\<close>

lemma pay_overwrites:
  assumes laws: "trie_law E" "hex_law E" "decimal_law E val" "\<And>es. mset (e_iter E es) = mset es"
    and run: "pay_apply E tx t = Some t'"
    and sm: "get_share_map E t (dot_key (e_hex E (shareholders_to_bytes (pay_payer tx))) ''sm'') = Some sm"
    and mem: "(a, v) \<in> set (sm_entries sm)" "distinct (map fst (sm_entries sm))"
  shows "\<exists>b. dividend E (pay_amount tx) v (sm_issued sm) = Some b \<and>
    stored E val t' (cur_key E (normal_to_bytes a) (pay_asset_hash tx)) = val (balance_inner b)"
proof -
  from pay_apply_loop[OF run laws(1,2,3)] sm obtain u where
    u: "foldm (pay_dividend E (pay_amount tx) (pay_asset_hash tx) (sm_issued sm)) t (e_iter E (sm_entries sm)) = Some u"
      "\<And>a. e_get E t' (cur_key E (normal_to_bytes a) (pay_asset_hash tx)) =
        e_get E u (cur_key E (normal_to_bytes a) (pay_asset_hash tx))"
    by (metis option.inject)
  have "distinct (map fst (e_iter E (sm_entries sm)))" "(a, v) \<in> set (e_iter E (sm_entries sm))"
    using mem laws(4)[of "sm_entries sm"] by (metis mset_map mset_eq_imp_distinct_iff, metis mset_eq_setD)
  from dividends_stored[OF laws(1,2,3) u(1) this] show ?thesis by (simp add: stored_eq[OF u(2)])
qed

end
