(* ===== verification/Tx_Issue_Shares.thy ===== *)
theory Tx_Issue_Shares
  imports Tx_Common
begin

text \<open>\<open>transactions/src/issue_shares.rs\<close>: a company issues shares to an account.\<close>

record 'd IssueShares =
  iss_issuer :: ShareholdersAddress
  iss_receiver :: NormalAddress
  iss_shares :: u32
  iss_fee_hash :: hash
  iss_fee :: "'d Balance"
  iss_hash :: "hash option"
  iss_signature :: "MultiSig option"

definition ISSUE_TYPE :: u8 where
  "ISSUE_TYPE = 7"

section \<open>Signing and hashing\<close>

definition issue_sign_message :: "('h, 'd) env \<Rightarrow> 'd IssueShares \<Rightarrow> u8 list" where
  "issue_sign_message E tx = encode_be_u32 (iss_shares tx) @ shareholders_to_bytes (iss_issuer tx) @
     normal_to_bytes (iss_receiver tx) @ iss_fee_hash tx @ balance_to_bytes (e_dec E) (iss_fee tx)"

definition issue_hash_message :: "('h, 'd) env \<Rightarrow> 'd IssueShares \<Rightarrow> u8 list option" where
  "issue_hash_message E tx = do {
     signature \<leftarrow> iss_signature tx;
     Some (encode_be_u32 (iss_shares tx) @ shareholders_to_bytes (iss_issuer tx) @
       normal_to_bytes (iss_receiver tx) @ iss_fee_hash tx @ balance_to_bytes (e_dec E) (iss_fee tx) @
       msig_to_bytes (e_rlp_encode E) signature)
   }"

definition issue_set_hash :: "('h, 'd) env \<Rightarrow> 'd IssueShares \<Rightarrow> 'd IssueShares option" where
  "issue_set_hash E tx = do {
     message \<leftarrow> issue_hash_message E tx;
     Some (tx\<lparr>iss_hash := Some (e_hash E message)\<rparr>)
   }"

definition issue_verify_hash :: "('h, 'd) env \<Rightarrow> 'd IssueShares \<Rightarrow> bool option" where
  "issue_verify_hash E tx = check_hash E (iss_hash tx) (issue_hash_message E tx)"

lemma issue_hash_verifies: "issue_set_hash E tx = Some tx' \<Longrightarrow> issue_verify_hash E tx' = Some True"
  by (auto simp: issue_set_hash_def issue_verify_hash_def issue_hash_message_def check_hash_def bind_eq_Some_conv)

definition issue_sign :: "('h, 'd) env \<Rightarrow> u8 list \<Rightarrow> 'd IssueShares \<Rightarrow> 'd IssueShares" where
  "issue_sign E skey tx =
     tx\<lparr>iss_signature := attach_multi (iss_signature tx) (e_sign E (issue_sign_message E tx) skey)\<rparr>"

definition issue_verify_multi_sig_shares ::
  "('h, 'd) env \<Rightarrow> 'd IssueShares \<Rightarrow> u8 \<Rightarrow> ShareMap \<Rightarrow> bool option" where
  "issue_verify_multi_sig_shares E tx percentile sm =
     check_multi_shares E (iss_signature tx) (issue_sign_message E tx) percentile sm"

section \<open>Validating and applying\<close>

definition shares_must :: "u8 list \<Rightarrow> Shares option" where
  "shares_must bs = (case shares_from_bytes bs of Inr s \<Rightarrow> Some s | Inl _ \<Rightarrow> None)"

definition issue_validate :: "('h, 'd) env \<Rightarrow> 'd IssueShares \<Rightarrow> 'h \<Rightarrow> bool option" where
  "issue_validate E tx t = do {
     let issuer = shareholders_to_bytes (iss_issuer tx);
     zero \<leftarrow> zero_balance E;
     if iss_shares tx < 1 then Some False
     else
       get_or_false E t (dot_key (e_hex E issuer) ''s'') (\<lambda>s. do {
         written_shares \<leftarrow> shares_must s;
         get_or_false E t (dot_key (e_hex E issuer) ''sm'') (\<lambda>m. do {
           share_map \<leftarrow> must (sm_from_bytes (e_rlp_decode E) m);
           ok \<leftarrow> issue_verify_multi_sig_shares E tx (s_percentile written_shares) share_map;
           if \<not> ok then Some False
           else
             get_or_false E t (cur_key E issuer (iss_fee_hash tx)) (\<lambda>b. do {
               balance \<leftarrow> balance_must E b;
               balance \<leftarrow> balance_sub (e_dec E) balance (iss_fee tx);
               get_or_false E t (dot_key (e_hex E issuer) ''s'') (\<lambda>s. do {
                 written_shares \<leftarrow> shares_must s;
                 total \<leftarrow> checked_add (iss_shares tx) (s_issued written_shares);
                 Some (total \<le> s_authorized written_shares \<and>
                   d_ge (e_dec E) (balance_inner balance) (balance_inner zero))
               })
             })
         })
       })
   }"

definition issue_apply :: "('h, 'd) env \<Rightarrow> 'd IssueShares \<Rightarrow> 'h \<Rightarrow> 'h option" where
  "issue_apply E tx t = do {
     let issuer = shareholders_to_bytes (iss_issuer tx);
     let issuer_fee_key = cur_key E issuer (iss_fee_hash tx);
     let shares_key = dot_key (e_hex E issuer) ''s'';
     let share_map_key = dot_key (e_hex E issuer) ''sm'';
     stock_hash \<leftarrow> get_must E t (dot_key (e_hex E issuer) ''sh'');
     let receiver_shares_key = cur_key E (normal_to_bytes (iss_receiver tx)) stock_hash;
     bin_issuer_nonce \<leftarrow> get_must E t (nonce_key E issuer);
     nonce \<leftarrow> next_nonce bin_issuer_nonce;
     issuer_balance \<leftarrow> get_balance E t issuer_fee_key;
     share_map \<leftarrow> get_share_map E t share_map_key;
     bin_shares \<leftarrow> get_must E t shares_key;
     shares_obj \<leftarrow> shares_must bin_shares;
     r \<leftarrow> e_get E t receiver_shares_key;
     receiver_balance \<leftarrow> (case r of
         Some b \<Rightarrow> do { balance \<leftarrow> decode_be_u32 b; checked_add balance (iss_shares tx) }
       | None \<Rightarrow> Some (iss_shares tx));
     issuer_balance \<leftarrow> balance_sub (e_dec E) issuer_balance (iss_fee tx);
     share_map \<leftarrow> issue_shares share_map (iss_receiver tx) (iss_shares tx);
     shares_obj \<leftarrow> shares_issue shares_obj (iss_shares tx);
     t \<leftarrow> e_insert E t (nonce_key E issuer) nonce;
     t \<leftarrow> put_balance E issuer_fee_key issuer_balance t;
     t \<leftarrow> e_insert E t receiver_shares_key (encode_be_u32 receiver_balance);
     t \<leftarrow> put_share_map E share_map_key share_map t;
     e_insert E t shares_key (shares_to_bytes shares_obj)
   }"

section \<open>The wire format\<close>

definition issue_to_bytes :: "('h, 'd) env \<Rightarrow> 'd IssueShares \<Rightarrow> TxError + u8 list" where
  "issue_to_bytes E tx = (case iss_hash tx of
       None \<Rightarrow> Inl (Msg ''Hash field is missing'')
     | Some hash \<Rightarrow> (case iss_signature tx of
         None \<Rightarrow> Inl (Msg ''Signature field is missing'')
       | Some sig \<Rightarrow>
           (let signature = msig_to_bytes (e_rlp_encode E) sig;
                fee = balance_to_bytes (e_dec E) (iss_fee tx) in
            Inr (
              [ISSUE_TYPE, word_of_nat (length fee)] @
              encode_be_u16 (word_of_nat (length signature)) @ encode_be_u32 (iss_shares tx) @
              shareholders_to_bytes (iss_issuer tx) @ normal_to_bytes (iss_receiver tx) @
              iss_fee_hash tx @ hash @ fee @ signature))))"

definition issue_from_bytes :: "('h, 'd) env \<Rightarrow> u8 list \<Rightarrow> 'd IssueShares parsed" where
  "issue_from_bytes E bytes =
     attempt (tx_type ISSUE_TYPE bytes) (\<lambda>_.
     attempt (tx_u8 1 ''Bad fee len'' bytes) (\<lambda>fee_len.
     attempt (tx_u16 2 ''Bad signature len'' bytes) (\<lambda>signature_len.
     attempt (tx_u32 4 ''Bad shares'' bytes) (\<lambda>shares.
     attempt (tx_drain 8 bytes) (\<lambda>(_, buf).
     attempt (field 33 buf) (\<lambda>(issuer_vec, buf).
     attempt (or_err (shareholders_from_bytes issuer_vec)) (\<lambda>issuer.
     attempt (field 33 buf) (\<lambda>(receiver_vec, buf).
     attempt (or_err (normal_from_bytes receiver_vec)) (\<lambda>receiver.
     attempt (field 32 buf) (\<lambda>(hash_vec, buf).
     attempt (to_hash hash_vec) (\<lambda>fee_hash.
     attempt (field 32 buf) (\<lambda>(hash_vec, buf).
     attempt (to_hash hash_vec) (\<lambda>hash.
     attempt (field (unat fee_len) buf) (\<lambda>(fee_vec, buf).
     attempt (or_msg ''Bad fee'' (balance_from_bytes (e_dec E) fee_vec)) (\<lambda>fee.
     attempt (last_field (unat signature_len) buf) (\<lambda>sig_vec.
     attempt (or_err (msig_from_bytes (e_rlp_decode E) sig_vec)) (\<lambda>signature.
     Some (Inr \<lparr>iss_issuer = issuer, iss_receiver = receiver, iss_shares = shares,
       iss_fee_hash = fee_hash, iss_fee = fee, iss_hash = Some hash, iss_signature = Some signature\<rparr>))))))))))))))))))"

definition wf_issue :: "('h, 'd) env \<Rightarrow> 'd IssueShares \<Rightarrow> bool" where
  "wf_issue E tx \<longleftrightarrow> length (sh_inner (iss_issuer tx)) = 32 \<and> wf_normal (iss_receiver tx) \<and>
     length (iss_fee_hash tx) = 32 \<and> wf_balance E (iss_fee tx) \<and>
     (\<exists>h. iss_hash tx = Some h \<and> length h = 32) \<and>
     (\<exists>s. iss_signature tx = Some s \<and> (\<forall>p \<in> set (msigs s). wf_sig p) \<and>
        length (msig_to_bytes (e_rlp_encode E) s) < 2 ^ 16)"

lemma issue_roundtrip:
  assumes "rlp_law E" "wf_issue E tx"
  shows "\<exists>bytes. issue_to_bytes E tx = Inr bytes \<and> issue_from_bytes E bytes = Some (Inr tx)"
proof -
  from assms(2) obtain h s where h: "iss_hash tx = Some h" "length h = 32"
    and s: "iss_signature tx = Some s" "(\<forall>p \<in> set (msigs s). wf_sig p)" "length (msig_to_bytes (e_rlp_encode E) s) < 2 ^ 16"
    by (auto simp: wf_issue_def)
  define bytes where "bytes =
      [ISSUE_TYPE, word_of_nat (length (balance_to_bytes (e_dec E) (iss_fee tx)))] @
      encode_be_u16 (word_of_nat (length (msig_to_bytes (e_rlp_encode E) s))) @
      encode_be_u32 (iss_shares tx) @ shareholders_to_bytes (iss_issuer tx) @
      normal_to_bytes (iss_receiver tx) @ iss_fee_hash tx @ h @
      balance_to_bytes (e_dec E) (iss_fee tx) @ msig_to_bytes (e_rlp_encode E) s"
  have "issue_to_bytes E tx = Inr bytes"
    using h s by (simp add: issue_to_bytes_def bytes_def Let_def)
  moreover have "iss_fee_hash tx \<noteq> []" "h \<noteq> []"
    using assms(2) h(2) by (auto simp: wf_issue_def)
  then have "issue_from_bytes E bytes = Some (Inr tx)"
    using assms h s
    by (simp add: issue_from_bytes_def header_8[OF bytes_def] wf_issue_def wire_simps del: One_nat_def)
  ultimately show ?thesis by blast
qed

lemma issue_bytes_tag: "issue_to_bytes E tx = Inr bytes \<Longrightarrow> \<exists>rest. bytes = ISSUE_TYPE # rest"
  by (auto simp: issue_to_bytes_def Let_def split: option.split_asm)

lemma issue_parsed_tag: "issue_from_bytes E bytes = Some (Inr tx) \<Longrightarrow> \<exists>rest. bytes = ISSUE_TYPE # rest"
  unfolding issue_from_bytes_def by (rule attempt_type)

interpretation issue: tx_codec "issue_to_bytes E" "issue_from_bytes E" "\<lambda>tx. rlp_law E \<and> wf_issue E tx" ISSUE_TYPE
  for E :: "('h, 'd) env"
  by unfold_locales (auto simp: issue_roundtrip dest: issue_bytes_tag issue_parsed_tag)

section \<open>What issuing does\<close>

lemma shares_to_bytes_must [simp]: "shares_must (shares_to_bytes s) = Some s"
  using shares_codec[of "shares_to_bytes s" s] by (simp add: shares_must_def)

text \<open>
  The stored share capital grows by the issued shares and stays within the authorized amount, and
  the receiver owns the shares.
\<close>

definition shares_at :: "('h, 'd) env \<Rightarrow> 'h \<Rightarrow> ShareholdersAddress \<Rightarrow> Shares option" where
  "shares_at E t a = do { bs \<leftarrow> get_must E t (dot_key (e_hex E (shareholders_to_bytes a)) ''s''); shares_must bs }"

lemma issue_apply_shares:
  assumes "trie_law E" "issue_apply E tx t = Some t'"
  obtains s s' where "shares_at E t (iss_issuer tx) = Some s" "shares_issue s (iss_shares tx) = Some s'"
    "shares_at E t' (iss_issuer tx) = Some s'"
proof -
  from assms(2) obtain s s' u bs where
    s: "get_must E t (dot_key (e_hex E (shareholders_to_bytes (iss_issuer tx))) ''s'') = Some bs"
      "shares_must bs = Some s" "shares_issue s (iss_shares tx) = Some s'"
    and u: "e_insert E u (dot_key (e_hex E (shareholders_to_bytes (iss_issuer tx))) ''s'') (shares_to_bytes s') = Some t'"
    by (auto simp: issue_apply_def Let_def bind_eq_Some_conv)
  have "shares_to_bytes s' \<noteq> []" by (simp add: shares_to_bytes_def encode_u8_def)
  from trie_law_insert[OF assms(1) u this] have "shares_at E t' (iss_issuer tx) = Some s'"
    by (simp add: shares_at_def get_must_def)
  with s that show thesis by (simp add: shares_at_def)
qed

lemma issue_apply_bounded:
  assumes "trie_law E" "issue_apply E tx t = Some t'" "shares_at E t (iss_issuer tx) = Some s" "shares_ok s"
  shows "\<exists>s'. shares_at E t' (iss_issuer tx) = Some s' \<and> shares_ok s' \<and>
    unat (s_issued s') = unat (s_issued s) + unat (iss_shares tx) \<and> s_authorized s' = s_authorized s"
  using issue_apply_shares[OF assms(1,2)] shares_issue_spec[OF assms(4), of "iss_shares tx"] assms(3)
  by (metis option.inject)

end
