(* ===== verification/Tx_Create.thy ===== *)
theory Tx_Create
  imports Tx_Common
begin

text \<open>
  What \<open>create_currency.rs\<close> and \<open>create_mintable.rs\<close> have in common: the checks that do not
  depend on the kind of currency, and the list of all currencies.  The list is kept in groups of
  \<open>CUR_GROUP_CAPACITY\<close> hashes under the keys \<open>c.0\<close>, \<open>c.1\<close>, ..., and the entry \<open>ci\<close> holds
  the index of the last group.  The block that adds a hash to it occurs three times in each of the
  two files.
\<close>

definition CUR_GROUP_CAPACITY :: nat where
  "CUR_GROUP_CAPACITY = 50"

definition MIN_CREATOR_NONCE :: u64 where
  "MIN_CREATOR_NONCE = 50"

definition group_key :: "u64 \<Rightarrow> key" where
  "group_key i = dot_key ''c'' (show_nat (unat i))"

text \<open>\<open>cur_idx + 1\<close> is computed for the key of the next group whether or not it is used.\<close>

definition current_group :: "('h, 'd) env \<Rightarrow> 'h \<Rightarrow> (u64 \<times> u64 \<times> hash list) option" where
  "current_group E t = do {
     bin_cur_idx \<leftarrow> get_must E t (as_bytes ''ci'');
     cur_idx \<leftarrow> decode_be_u64 bin_cur_idx;
     next \<leftarrow> checked_add cur_idx 1;
     currencies \<leftarrow> get_must E t (group_key cur_idx);
     Some (cur_idx, next, e_rlp_decode E currencies)
   }"

definition register_currency ::
  "('h, 'd) env \<Rightarrow> u64 \<times> u64 \<times> hash list \<Rightarrow> hash \<Rightarrow> 'h \<Rightarrow> 'h option" where
  "register_currency E = (\<lambda>(cur_idx, next, currencies) asset t.
     if length currencies = CUR_GROUP_CAPACITY then do {
       t \<leftarrow> e_insert E t (as_bytes ''ci'') (encode_be_u64 next);
       e_insert E t (group_key next) (e_rlp_encode E [asset])
     } else e_insert E t (group_key cur_idx) (e_rlp_encode E (currencies @ [asset])))"

text \<open>The stateful half of \<open>validate\<close>.\<close>

definition creator_can_pay ::
  "('h, 'd) env \<Rightarrow> 'h \<Rightarrow> NormalAddress \<Rightarrow> hash \<Rightarrow> 'd Balance \<Rightarrow> hash \<Rightarrow> bool option" where
  "creator_can_pay E t creator fee_hash fee asset_hash = do {
     let creator = normal_to_bytes creator;
     get_or_false E t (nonce_key E creator) (\<lambda>bin_nonce.
       get_or_false E t (cur_key E creator fee_hash) (\<lambda>bin_balance. do {
         nonce \<leftarrow> decode_be_u64 bin_nonce;
         balance \<leftarrow> balance_must E bin_balance;
         balance \<leftarrow> balance_sub (e_dec E) balance fee;
         if nonce < MIN_CREATOR_NONCE then Some False
         else (case e_get E t (dot_key (e_hex E asset_hash) ''p'') of
             Some (Some _) \<Rightarrow> Some False
           | _ \<Rightarrow> do {
               zero \<leftarrow> zero_balance E;
               Some (d_ge (e_dec E) (balance_inner balance) (balance_inner zero))
             })
       }))
   }"

text \<open>\<open>Balance::from_bytes(format!("{}.0", self.coin_supply).as_bytes()).unwrap()\<close>\<close>

definition whole_balance :: "('h, 'd) env \<Rightarrow> u64 \<Rightarrow> 'd Balance option" where
  "whole_balance E n = balance_must E (as_bytes (show_nat (unat n) @ ''.0''))"

text \<open>The check of \<open>precision\<close>: the precisions \<open>validate_smaller_precision\<close> does not panic on.\<close>

definition bad_precision :: "u8 \<Rightarrow> bool" where
  "bad_precision p \<longleftrightarrow> 18 < p \<or> p = 1"

lemma precision_accepted:
  assumes "\<not> bad_precision p"
  shows "validate_smaller_precision D b p \<noteq> None"
proof -
  have "p = 0 \<or> 2 \<le> p"
  proof (rule ccontr)
    assume "\<not> (p = 0 \<or> 2 \<le> p)"
    then have "unat p \<noteq> 0" "unat p < 2" by (simp_all add: unat_eq_zero word_le_nat_alt)
    then have "unat p = unat (1 :: u8)" by simp
    with assms show False by (simp add: bad_precision_def word_unat_eq_iff)
  qed
  with assms show ?thesis by (auto simp: bad_precision_def validate_smaller_precision_def)
qed

section \<open>The list of currencies\<close>

definition registered :: "('h, 'd) env \<Rightarrow> 'h \<Rightarrow> hash \<Rightarrow> bool" where
  "registered E t asset \<longleftrightarrow>
     (\<exists>i bs. e_get E t (group_key i) = Some (Some bs) \<and> asset \<in> set (e_rlp_decode E bs))"

text \<open>Hexadecimal strings have an even length, so no key of an account or an asset is in the list.\<close>

lemma dot_not_in_ci: "CHR ''.'' \<notin> set ''ci''"
  by simp

lemma list_keys:
  assumes "hex_law E"
  shows "dot_key (e_hex E a) s \<noteq> as_bytes ''ci''" "dot_key (e_hex E a) s \<noteq> group_key i"
    "group_key i \<noteq> dot_key (e_hex E a) s"
proof -
  have "e_hex E a \<noteq> ''c''"
  proof
    assume "e_hex E a = ''c''"
    then have "length (e_hex E a) = 1" by simp
    with assms have "2 * length a = 1" by (simp add: hex_law_def)
    then show False by presburger
  qed
  with split_at_dot[OF hex_no_dot[OF assms, of a], of "''c''" s "show_nat (unat i)"]
  show "dot_key (e_hex E a) s \<noteq> group_key i" "group_key i \<noteq> dot_key (e_hex E a) s"
    by (auto simp: group_key_def dot_key_def)
  have "CHR ''.'' \<in> set (e_hex E a @ ''.'' @ s)" by simp
  then have "e_hex E a @ ''.'' @ s \<noteq> ''ci''" by (metis dot_not_in_ci)
  then show "dot_key (e_hex E a) s \<noteq> as_bytes ''ci''" by (simp add: dot_key_def)
qed

lemma register_frame:
  assumes "trie_law E" "\<And>xs. e_rlp_encode E xs \<noteq> []" "register_currency E g asset t = Some t'"
    "k \<noteq> as_bytes ''ci''" "\<And>i. k \<noteq> group_key i"
  shows "e_get E t' k = e_get E t k"
proof -
  obtain c n cs where g: "g = (c, n, cs)" by (cases g)
  from assms(3,4,5) show ?thesis
    by (auto simp: register_currency_def g bind_eq_Some_conv assms(2)
        dest!: insert_frame[OF assms(1)] split: if_split_asm)
qed

lemma register_registered:
  assumes "trie_law E" "\<And>xs. e_rlp_encode E xs \<noteq> []" "rlp_law E" "register_currency E g asset t = Some t'"
  shows "registered E t' asset"
proof -
  obtain c n cs where g: "g = (c, n, cs)" by (cases g)
  have dec: "e_rlp_decode E (e_rlp_encode E xs) = xs" for xs using assms(3) by (simp add: rlp_law_def)
  show ?thesis
  proof (cases "length cs = CUR_GROUP_CAPACITY")
    case True
    with assms(4) obtain u where "e_insert E u (group_key n) (e_rlp_encode E [asset]) = Some t'"
      by (auto simp: register_currency_def g bind_eq_Some_conv)
    from trie_law_insert[OF assms(1) this assms(2)] show ?thesis
      by (auto simp: registered_def dec intro!: exI[of _ n])
  next
    case False
    with assms(4) have "e_insert E t (group_key c) (e_rlp_encode E (cs @ [asset])) = Some t'"
      by (simp add: register_currency_def g)
    from trie_law_insert[OF assms(1) this assms(2)] show ?thesis
      by (auto simp: registered_def dec intro!: exI[of _ c])
  qed
qed

lemma registered_frame:
  "registered E t asset \<Longrightarrow> (\<And>i. e_get E t' (group_key i) = e_get E t (group_key i)) \<Longrightarrow> registered E t' asset"
  by (simp add: registered_def)

lemma stored_printed:
  assumes "decimal_law E val" "e_get E t k = Some (Some (balance_to_bytes (e_dec E) b))"
  shows "stored E val t k = val (balance_inner b)"
proof -
  obtain d where "d_parse (e_dec E) (d_print (e_dec E) (balance_inner b)) = Some d" "val d = val (balance_inner b)"
    using assms(1) unfolding decimal_law_def by blast
  with assms(2) show ?thesis by (simp add: stored_def balance_to_bytes_def print_bytes)
qed

text \<open>
  What both transactions do after the entries of the currency: the two balances and the nonces.
\<close>

lemma finish_self:
  assumes laws: "trie_law E" "hex_law E" "decimal_law E val" and ne: "fee \<noteq> asset" "n \<noteq> []"
    and run: "put_balance E (cur_key E c asset) b v = Some v1" "put_balance E (cur_key E c fee) f v1 = Some v2"
      "e_insert E v2 (nonce_key E c) n = Some t'"
  shows "e_get E t' (cur_key E c asset) = Some (Some (balance_to_bytes (e_dec E) b))"
    "k \<noteq> nonce_key E c \<Longrightarrow> (\<And>x. k \<noteq> cur_key E c x) \<Longrightarrow> e_get E t' k = e_get E v k"
  using put_balance_get[OF laws(1,3) run(1)] put_balance_get[OF laws(1,3) run(2)]
    trie_law_insert[OF laws(1) run(3) ne(2)] ne(1)
  by (simp_all add: keys_distinct[OF laws(2)])

lemma finish_other:
  assumes laws: "trie_law E" "hex_law E" "decimal_law E val" and ne: "c \<noteq> r" "n \<noteq> []"
    and run: "put_balance E (cur_key E c fee) f v = Some v1" "put_balance E (cur_key E r asset) b v1 = Some v2"
      "e_insert E v2 (nonce_key E c) n = Some v3"
      "(if new then e_insert E v3 (nonce_key E r) zero_nonce else Some v3) = Some t'"
  shows "e_get E t' (cur_key E r asset) = Some (Some (balance_to_bytes (e_dec E) b))"
    "(\<And>a. k \<noteq> nonce_key E a) \<Longrightarrow> (\<And>a x. k \<noteq> cur_key E a x) \<Longrightarrow> e_get E t' k = e_get E v k"
proof -
  have t': "e_get E t' k = e_get E v3 k" if "k \<noteq> nonce_key E r" for k
    using run(4) that trie_law_insert[OF laws(1), of v3 "nonce_key E r" zero_nonce t'] by (auto split: if_split_asm)
  show "e_get E t' (cur_key E r asset) = Some (Some (balance_to_bytes (e_dec E) b))"
    using put_balance_get[OF laws(1,3) run(1)] put_balance_get[OF laws(1,3) run(2)]
      trie_law_insert[OF laws(1) run(3) ne(2)] by (simp add: t' keys_distinct[OF laws(2)])
  show "(\<And>a. k \<noteq> nonce_key E a) \<Longrightarrow> (\<And>a x. k \<noteq> cur_key E a x) \<Longrightarrow> e_get E t' k = e_get E v k"
    using put_balance_get[OF laws(1,3) run(1)] put_balance_get[OF laws(1,3) run(2)]
      trie_law_insert[OF laws(1) run(3) ne(2)] by (simp add: t')
qed

text \<open>A currency that has a precision is not created again.\<close>

lemma created_once:
  assumes "e_get E t (dot_key (e_hex E asset) ''p'') = Some (Some bs)"
  shows "creator_can_pay E t creator fee_hash fee asset \<noteq> Some True"
  using assms by (auto simp: creator_can_pay_def Let_def get_or_false_True bind_eq_Some_conv split: if_split_asm)

end
