(* ===== verification/Tx_Create_Currency.thy ===== *)
theory Tx_Create_Currency
  imports Tx_Create
begin

text \<open>\<open>transactions/src/create_currency.rs\<close>: a new currency with a fixed supply.\<close>

record 'd CreateCurrency =
  cc_creator :: NormalAddress
  cc_receiver :: Account_Address
  cc_asset_hash :: hash
  cc_coin_supply :: u64
  cc_precision :: u8
  cc_fee_hash :: hash
  cc_fee :: "'d Balance"
  cc_hash :: "hash option"
  cc_signature :: "PrimitiveSig option"

definition CREATE_CURRENCY_TYPE :: u8 where
  "CREATE_CURRENCY_TYPE = 8"

section \<open>Signing and hashing\<close>

definition create_currency_sign_message :: "('h, 'd) env \<Rightarrow> 'd CreateCurrency \<Rightarrow> u8 list" where
  "create_currency_sign_message E tx = [cc_precision tx] @ encode_be_u64 (cc_coin_supply tx) @
     normal_to_bytes (cc_creator tx) @ address_to_bytes (cc_receiver tx) @ cc_asset_hash tx @
     cc_fee_hash tx @ balance_to_bytes (e_dec E) (cc_fee tx)"

definition create_currency_hash_message :: "('h, 'd) env \<Rightarrow> 'd CreateCurrency \<Rightarrow> u8 list option" where
  "create_currency_hash_message E tx = do {
     signature \<leftarrow> cc_signature tx;
     Some ([cc_precision tx] @ encode_be_u64 (cc_coin_supply tx) @
     normal_to_bytes (cc_creator tx) @ address_to_bytes (cc_receiver tx) @ cc_asset_hash tx @
     cc_fee_hash tx @ balance_to_bytes (e_dec E) (cc_fee tx) @ sig_to_bytes signature)
   }"

definition create_currency_set_hash :: "('h, 'd) env \<Rightarrow> 'd CreateCurrency \<Rightarrow> 'd CreateCurrency option" where
  "create_currency_set_hash E tx = do {
     message \<leftarrow> create_currency_hash_message E tx;
     Some (tx\<lparr>cc_hash := Some (e_hash E message)\<rparr>)
   }"

definition create_currency_verify_hash :: "('h, 'd) env \<Rightarrow> 'd CreateCurrency \<Rightarrow> bool option" where
  "create_currency_verify_hash E tx = check_hash E (cc_hash tx) (create_currency_hash_message E tx)"

lemma create_currency_hash_verifies: "create_currency_set_hash E tx = Some tx' \<Longrightarrow> create_currency_verify_hash E tx' = Some True"
  by (auto simp: create_currency_set_hash_def create_currency_verify_hash_def create_currency_hash_message_def check_hash_def bind_eq_Some_conv)

definition create_currency_sign :: "('h, 'd) env \<Rightarrow> u8 list \<Rightarrow> 'd CreateCurrency \<Rightarrow> 'd CreateCurrency" where
  "create_currency_sign E skey tx = tx\<lparr>cc_signature := Some (e_sign E (create_currency_sign_message E tx) skey)\<rparr>"

definition create_currency_verify_sig :: "('h, 'd) env \<Rightarrow> 'd CreateCurrency \<Rightarrow> bool" where
  "create_currency_verify_sig E tx = (case cc_signature tx of
       Some sig \<Rightarrow> e_verify E (create_currency_sign_message E tx) sig (pkey (cc_creator tx))
     | None \<Rightarrow> False)"

section \<open>Validating and applying\<close>

definition create_currency_validate :: "('h, 'd) env \<Rightarrow> 'd CreateCurrency \<Rightarrow> 'h \<Rightarrow> bool option" where
  "create_currency_validate E tx t =
    (if cc_asset_hash tx = cc_fee_hash tx then Some False
     else if bad_precision (cc_precision tx) then Some False
     else if cc_coin_supply tx < 1 then Some False
     else if \<not> create_currency_verify_sig E tx then Some False
     else creator_can_pay E t (cc_creator tx) (cc_fee_hash tx) (cc_fee tx) (cc_asset_hash tx))"

text \<open>The entries that describe the currency.\<close>

definition create_currency_entries :: "('h, 'd) env \<Rightarrow> 'd CreateCurrency \<Rightarrow> 'h \<Rightarrow> 'h option" where
  "create_currency_entries E tx t = do {
     let asset_hash = e_hex E (cc_asset_hash tx);
     t \<leftarrow> e_insert E t (dot_key asset_hash ''s'') (encode_be_u64 (cc_coin_supply tx));
     e_insert E t (dot_key asset_hash ''p'') [cc_precision tx]
   }"

definition create_currency_apply :: "('h, 'd) env \<Rightarrow> 'd CreateCurrency \<Rightarrow> 'h \<Rightarrow> 'h option" where
  "create_currency_apply E tx t = (if e_hex E (cc_asset_hash tx) = e_hex E (cc_fee_hash tx) then None else do {
     let creator = normal_to_bytes (cc_creator tx);
     let receiver = address_to_bytes (cc_receiver tx);
     let creator_fee_key = cur_key E creator (cc_fee_hash tx);
     bin_creator_nonce \<leftarrow> get_must E t (nonce_key E creator);
     nonce \<leftarrow> next_nonce bin_creator_nonce;
     group \<leftarrow> current_group E t;
     if creator = receiver then do {
       creator_fee_balance \<leftarrow> get_balance E t creator_fee_key;
       creator_fee_balance \<leftarrow> balance_sub (e_dec E) creator_fee_balance (cc_fee tx);
       creator_cur_balance \<leftarrow> whole_balance E (cc_coin_supply tx);
       t \<leftarrow> register_currency E group (cc_asset_hash tx) t;
       t \<leftarrow> create_currency_entries E tx t;
       t \<leftarrow> put_balance E (cur_key E creator (cc_asset_hash tx)) creator_cur_balance t;
       t \<leftarrow> put_balance E creator_fee_key creator_fee_balance t;
       e_insert E t (nonce_key E creator) nonce
     } else do {
       bin_receiver_nonce \<leftarrow> e_get E t (nonce_key E receiver);
       creator_balance \<leftarrow> get_balance E t creator_fee_key;
       creator_balance \<leftarrow> balance_sub (e_dec E) creator_balance (cc_fee tx);
       receiver_balance \<leftarrow> whole_balance E (cc_coin_supply tx);
       t \<leftarrow> register_currency E group (cc_asset_hash tx) t;
       t \<leftarrow> create_currency_entries E tx t;
       t \<leftarrow> put_balance E creator_fee_key creator_balance t;
       t \<leftarrow> put_balance E (cur_key E receiver (cc_asset_hash tx)) receiver_balance t;
       t \<leftarrow> e_insert E t (nonce_key E creator) nonce;
       (if bin_receiver_nonce = None then e_insert E t (nonce_key E receiver) zero_nonce else Some t)
     }
   })"

section \<open>The wire format\<close>

definition create_currency_to_bytes :: "('h, 'd) env \<Rightarrow> 'd CreateCurrency \<Rightarrow> TxError + u8 list" where
  "create_currency_to_bytes E tx = (case cc_hash tx of
       None \<Rightarrow> Inl (Msg ''Hash field is missing'')
     | Some hash \<Rightarrow> (case cc_signature tx of
         None \<Rightarrow> Inl (Msg ''Signature field is missing'')
       | Some sig \<Rightarrow>
           (let signature = sig_to_bytes sig;
                fee = balance_to_bytes (e_dec E) (cc_fee tx) in
            Inr (
              [CREATE_CURRENCY_TYPE, word_of_nat (length fee), cc_precision tx] @
              encode_be_u64 (cc_coin_supply tx) @ normal_to_bytes (cc_creator tx) @
              address_to_bytes (cc_receiver tx) @ cc_asset_hash tx @ cc_fee_hash tx @ hash @
              signature @ fee))))"

definition create_currency_from_bytes :: "('h, 'd) env \<Rightarrow> u8 list \<Rightarrow> 'd CreateCurrency parsed" where
  "create_currency_from_bytes E bytes =
     attempt (tx_type CREATE_CURRENCY_TYPE bytes) (\<lambda>_.
     attempt (tx_u8 1 ''Bad fee len'' bytes) (\<lambda>fee_len.
     attempt (tx_u8 2 ''Bad precision'' bytes) (\<lambda>precision.
     attempt (tx_u64 3 ''Bad coin supply'' bytes) (\<lambda>coin_supply.
     attempt (tx_drain 11 bytes) (\<lambda>(_, buf).
     attempt (field 33 buf) (\<lambda>(creator_vec, buf).
     attempt (or_err (normal_from_bytes creator_vec)) (\<lambda>creator.
     attempt (field 33 buf) (\<lambda>(receiver_vec, buf).
     attempt (or_err (address_from_bytes receiver_vec)) (\<lambda>receiver.
     attempt (field 32 buf) (\<lambda>(hash_vec, buf).
     attempt (to_hash hash_vec) (\<lambda>asset_hash.
     attempt (field 32 buf) (\<lambda>(hash_vec, buf).
     attempt (to_hash hash_vec) (\<lambda>fee_hash.
     attempt (field 32 buf) (\<lambda>(hash_vec, buf).
     attempt (to_hash hash_vec) (\<lambda>hash.
     attempt (field 65 buf) (\<lambda>(sig_vec, buf).
     attempt (or_msg ''Bad signature'' (sig_from_bytes sig_vec)) (\<lambda>signature.
     attempt (last_field (unat fee_len) buf) (\<lambda>fee_vec.
     attempt (or_msg ''Bad gas price'' (balance_from_bytes (e_dec E) fee_vec)) (\<lambda>fee.
     Some (Inr \<lparr>cc_creator = creator, cc_receiver = receiver, cc_asset_hash = asset_hash,
       cc_coin_supply = coin_supply, cc_precision = precision, cc_fee_hash = fee_hash, cc_fee = fee,
       cc_hash = Some hash, cc_signature = Some signature\<rparr>))))))))))))))))))))"

definition wf_create_currency :: "('h, 'd) env \<Rightarrow> 'd CreateCurrency \<Rightarrow> bool" where
  "wf_create_currency E tx \<longleftrightarrow> wf_normal (cc_creator tx) \<and> wf_address (cc_receiver tx) \<and>
     length (cc_asset_hash tx) = 32 \<and> length (cc_fee_hash tx) = 32 \<and>
     wf_balance E (cc_fee tx) \<and>
     (\<exists>h. cc_hash tx = Some h \<and> length h = 32) \<and>
     (\<exists>s. cc_signature tx = Some s \<and> wf_sig s)"

lemma create_currency_roundtrip:
  assumes "rlp_law E" "wf_create_currency E tx"
  shows "\<exists>bytes. create_currency_to_bytes E tx = Inr bytes \<and> create_currency_from_bytes E bytes = Some (Inr tx)"
proof -
  from assms(2) obtain h s where h: "cc_hash tx = Some h" "length h = 32"
    and s: "cc_signature tx = Some s" "wf_sig s"
    by (auto simp: wf_create_currency_def)
  define bytes where "bytes =
      [CREATE_CURRENCY_TYPE, word_of_nat (length (balance_to_bytes (e_dec E) (cc_fee tx))), cc_precision tx] @
      encode_be_u64 (cc_coin_supply tx) @ normal_to_bytes (cc_creator tx) @
      address_to_bytes (cc_receiver tx) @ cc_asset_hash tx @ cc_fee_hash tx @ h @ sig_to_bytes s @
      balance_to_bytes (e_dec E) (cc_fee tx)"
  have "create_currency_to_bytes E tx = Inr bytes"
    using h s by (simp add: create_currency_to_bytes_def bytes_def Let_def)
  moreover have "cc_asset_hash tx \<noteq> []" "cc_fee_hash tx \<noteq> []" "h \<noteq> []"
    using assms(2) h(2) by (auto simp: wf_create_currency_def)
  then have "create_currency_from_bytes E bytes = Some (Inr tx)"
    using assms h s
    by (simp add: create_currency_from_bytes_def header_11[OF bytes_def] wf_create_currency_def wire_simps del: One_nat_def)
  ultimately show ?thesis by blast
qed

lemma create_currency_bytes_tag: "create_currency_to_bytes E tx = Inr bytes \<Longrightarrow> \<exists>rest. bytes = CREATE_CURRENCY_TYPE # rest"
  by (auto simp: create_currency_to_bytes_def Let_def split: option.split_asm)

lemma create_currency_parsed_tag: "create_currency_from_bytes E bytes = Some (Inr tx) \<Longrightarrow> \<exists>rest. bytes = CREATE_CURRENCY_TYPE # rest"
  unfolding create_currency_from_bytes_def by (rule attempt_type)

interpretation create_currency: tx_codec "create_currency_to_bytes E" "create_currency_from_bytes E" "\<lambda>tx. rlp_law E \<and> wf_create_currency E tx" CREATE_CURRENCY_TYPE
  for E :: "('h, 'd) env"
  by unfold_locales (auto simp: create_currency_roundtrip dest: create_currency_bytes_tag create_currency_parsed_tag)

section \<open>What creating does\<close>

lemma create_currency_entries_get:
  assumes laws: "trie_law E" "hex_law E" and run: "create_currency_entries E tx t = Some t'"
  shows "e_get E t' (dot_key (e_hex E (cc_asset_hash tx)) ''p'') = Some (Some [cc_precision tx])"
    "e_get E t' (dot_key (e_hex E (cc_asset_hash tx)) ''s'') = Some (Some (encode_be_u64 (cc_coin_supply tx)))"
    "e_get E t' (group_key i) = e_get E t (group_key i)"
proof -
  have ne: "address_to_bytes a \<noteq> []" for a
    by (cases a) (simp_all add: normal_to_bytes_def multi_sig_to_bytes_def shareholders_to_bytes_def contract_to_bytes_def)
  have k: "dot_key (e_hex E a) s = dot_key (e_hex E b) u \<longleftrightarrow> a = b \<and> s = u" for a b s u
    by (rule dot_key_hex[OF laws(2)])
  note get = run[unfolded create_currency_entries_def Let_def bind_eq_Some_conv] k list_keys[OF laws(2)]
  show "e_get E t' (dot_key (e_hex E (cc_asset_hash tx)) ''p'') = Some (Some [cc_precision tx])"
    using get by (auto dest!: trie_law_insert[OF laws(1)] simp: ne)
  show "e_get E t' (dot_key (e_hex E (cc_asset_hash tx)) ''s'') = Some (Some (encode_be_u64 (cc_coin_supply tx)))"
    using get by (auto dest!: trie_law_insert[OF laws(1)] simp: ne)
  show "e_get E t' (group_key i) = e_get E t (group_key i)"
    using get by (auto dest!: trie_law_insert[OF laws(1)] simp: ne)
qed

lemma create_currency_apply_steps:
  assumes laws: "trie_law E" "hex_law E" "decimal_law E val" and run: "create_currency_apply E tx t = Some t'"
  obtains g u v b where "register_currency E g (cc_asset_hash tx) t = Some u"
    "create_currency_entries E tx u = Some v" "whole_balance E (cc_coin_supply tx) = Some b"
    "\<forall>k. (\<forall>a x. k \<noteq> nonce_key E a \<and> k \<noteq> cur_key E a x) \<longrightarrow> e_get E t' k = e_get E v k"
    "stored E val t' (cur_key E (address_to_bytes (cc_receiver tx)) (cc_asset_hash tx)) = val (balance_inner b)"
proof (cases "normal_to_bytes (cc_creator tx) = address_to_bytes (cc_receiver tx)")
  case True
  have fee: "cc_fee_hash tx \<noteq> cc_asset_hash tx" using run by (auto simp: create_currency_apply_def split: if_split_asm)
  from True run obtain g u v b m n f v1 v2 where ne: "next_nonce m = Some n"
    and u: "register_currency E g (cc_asset_hash tx) t = Some u" "create_currency_entries E tx u = Some v"
      "whole_balance E (cc_coin_supply tx) = Some b"
    and fin: "put_balance E (cur_key E (address_to_bytes (cc_receiver tx)) (cc_asset_hash tx)) b v = Some v1"
      "put_balance E (cur_key E (address_to_bytes (cc_receiver tx)) (cc_fee_hash tx)) f v1 = Some v2"
      "e_insert E v2 (nonce_key E (address_to_bytes (cc_receiver tx))) n = Some t'"
    by (auto simp: create_currency_apply_def Let_def bind_eq_Some_conv split: if_split_asm)
  note fin = finish_self[OF laws fee next_nonce_not_empty[OF ne] fin]
  show thesis by (rule that[OF u _ stored_printed[OF laws(3) fin(1)]]) (auto intro: fin(2))
next
  case False
  have hex: "e_hex E (cc_asset_hash tx) \<noteq> e_hex E (cc_fee_hash tx)" using run by (auto simp: create_currency_apply_def)
  from False run obtain g u v b m n f v1 v2 v3 new where ne: "next_nonce m = Some n"
    and u: "register_currency E g (cc_asset_hash tx) t = Some u" "create_currency_entries E tx u = Some v"
      "whole_balance E (cc_coin_supply tx) = Some b"
    and fin: "put_balance E (cur_key E (normal_to_bytes (cc_creator tx)) (cc_fee_hash tx)) f v = Some v1"
      "put_balance E (cur_key E (address_to_bytes (cc_receiver tx)) (cc_asset_hash tx)) b v1 = Some v2"
      "e_insert E v2 (nonce_key E (normal_to_bytes (cc_creator tx))) n = Some v3"
      "(if new then e_insert E v3 (nonce_key E (address_to_bytes (cc_receiver tx))) zero_nonce else Some v3) = Some t'"
    using hex by (simp add: create_currency_apply_def Let_def bind_eq_Some_conv split del: if_split) (elim exE conjE, rule that, assumption+)
  note fin = finish_other[OF laws False next_nonce_not_empty[OF ne] fin]
  show thesis by (rule that[OF u _ stored_printed[OF laws(3) fin(1)]]) (auto intro: fin(2))
qed

text \<open>
  The receiver owns the whole supply, the currency is described and listed, and no transaction can
  create it again.
\<close>

lemma create_currency_creates:
  assumes laws: "trie_law E" "hex_law E" "decimal_law E val" "rlp_law E" "\<And>xs. e_rlp_encode E xs \<noteq> []"
    and run: "create_currency_apply E tx t = Some t'"
  shows "e_get E t' (dot_key (e_hex E (cc_asset_hash tx)) ''p'') = Some (Some [cc_precision tx])"
    "e_get E t' (dot_key (e_hex E (cc_asset_hash tx)) ''s'') = Some (Some (encode_be_u64 (cc_coin_supply tx)))"
    "registered E t' (cc_asset_hash tx)"
    "\<exists>b. whole_balance E (cc_coin_supply tx) = Some b \<and>
      stored E val t' (cur_key E (address_to_bytes (cc_receiver tx)) (cc_asset_hash tx)) = val (balance_inner b)"
proof -
  obtain g u v b where
    u: "register_currency E g (cc_asset_hash tx) t = Some u" and v: "create_currency_entries E tx u = Some v"
    and b: "whole_balance E (cc_coin_supply tx) = Some b"
    and k: "\<forall>k. (\<forall>a x. k \<noteq> nonce_key E a \<and> k \<noteq> cur_key E a x) \<longrightarrow> e_get E t' k = e_get E v k"
    and b': "stored E val t' (cur_key E (address_to_bytes (cc_receiver tx)) (cc_asset_hash tx)) = val (balance_inner b)"
    using create_currency_apply_steps[OF laws(1,2,3) run] by blast
  note entries = create_currency_entries_get[OF laws(1,2) v]
  have same: "e_get E t' (dot_key (e_hex E a) s) = e_get E v (dot_key (e_hex E a) s)"
    if "s \<in> {''s'', ''x'', ''m'', ''p'', ''sm'', ''adr'', ''sh''}" for a s
    using asset_key[OF laws(2) that] k by auto
  show "e_get E t' (dot_key (e_hex E (cc_asset_hash tx)) ''p'') = Some (Some [cc_precision tx])"
    "e_get E t' (dot_key (e_hex E (cc_asset_hash tx)) ''s'') = Some (Some (encode_be_u64 (cc_coin_supply tx)))"
    by (simp_all add: same entries(1,2))
  have "e_get E t' (group_key i) = e_get E u (group_key i)" for i
    using k list_keys[OF laws(2)] entries by (simp add: nonce_key_def cur_key_def)
  with register_registered[OF laws(1,5,4) u] show "registered E t' (cc_asset_hash tx)" by (rule registered_frame)
  show "\<exists>b. whole_balance E (cc_coin_supply tx) = Some b \<and>
      stored E val t' (cur_key E (address_to_bytes (cc_receiver tx)) (cc_asset_hash tx)) = val (balance_inner b)"
    using b b' by blast
qed

lemma create_currency_valid_new:
  assumes "create_currency_validate E tx t = Some True"
  shows "e_get E t (dot_key (e_hex E (cc_asset_hash tx)) ''p'') \<noteq> Some (Some bs)"
  using assms created_once[of E t "cc_asset_hash tx" bs] by (auto simp: create_currency_validate_def split: if_split_asm)

end
