(* ===== verification/Tx_Create_Mintable.thy ===== *)
theory Tx_Create_Mintable
  imports Tx_Create
begin

text \<open>\<open>transactions/src/create_mintable.rs\<close>: a new currency that its minter can increase up to a maximum.\<close>

record 'd CreateMintable =
  cm_creator :: NormalAddress
  cm_receiver :: Account_Address
  cm_minter_address :: Account_Address
  cm_asset_hash :: hash
  cm_coin_supply :: u64
  cm_max_supply :: u64
  cm_precision :: u8
  cm_fee_hash :: hash
  cm_fee :: "'d Balance"
  cm_hash :: "hash option"
  cm_signature :: "PrimitiveSig option"

definition CREATE_MINTABLE_TYPE :: u8 where
  "CREATE_MINTABLE_TYPE = 9"

section \<open>Signing and hashing\<close>

definition create_mintable_sign_message :: "('h, 'd) env \<Rightarrow> 'd CreateMintable \<Rightarrow> u8 list" where
  "create_mintable_sign_message E tx = [cm_precision tx] @ encode_be_u64 (cm_coin_supply tx) @ encode_be_u64 (cm_max_supply tx) @
     normal_to_bytes (cm_creator tx) @ address_to_bytes (cm_receiver tx) @ address_to_bytes (cm_minter_address tx) @
     cm_asset_hash tx @
     cm_fee_hash tx @ balance_to_bytes (e_dec E) (cm_fee tx)"

definition create_mintable_hash_message :: "('h, 'd) env \<Rightarrow> 'd CreateMintable \<Rightarrow> u8 list option" where
  "create_mintable_hash_message E tx = do {
     signature \<leftarrow> cm_signature tx;
     Some ([cm_precision tx] @ encode_be_u64 (cm_coin_supply tx) @ encode_be_u64 (cm_max_supply tx) @
     normal_to_bytes (cm_creator tx) @ address_to_bytes (cm_receiver tx) @ address_to_bytes (cm_minter_address tx) @
     cm_asset_hash tx @
     cm_fee_hash tx @ balance_to_bytes (e_dec E) (cm_fee tx) @ sig_to_bytes signature)
   }"

definition create_mintable_set_hash :: "('h, 'd) env \<Rightarrow> 'd CreateMintable \<Rightarrow> 'd CreateMintable option" where
  "create_mintable_set_hash E tx = do {
     message \<leftarrow> create_mintable_hash_message E tx;
     Some (tx\<lparr>cm_hash := Some (e_hash E message)\<rparr>)
   }"

definition create_mintable_verify_hash :: "('h, 'd) env \<Rightarrow> 'd CreateMintable \<Rightarrow> bool option" where
  "create_mintable_verify_hash E tx = check_hash E (cm_hash tx) (create_mintable_hash_message E tx)"

lemma create_mintable_hash_verifies: "create_mintable_set_hash E tx = Some tx' \<Longrightarrow> create_mintable_verify_hash E tx' = Some True"
  by (auto simp: create_mintable_set_hash_def create_mintable_verify_hash_def create_mintable_hash_message_def check_hash_def bind_eq_Some_conv)

definition create_mintable_sign :: "('h, 'd) env \<Rightarrow> u8 list \<Rightarrow> 'd CreateMintable \<Rightarrow> 'd CreateMintable" where
  "create_mintable_sign E skey tx = tx\<lparr>cm_signature := Some (e_sign E (create_mintable_sign_message E tx) skey)\<rparr>"

definition create_mintable_verify_sig :: "('h, 'd) env \<Rightarrow> 'd CreateMintable \<Rightarrow> bool" where
  "create_mintable_verify_sig E tx = (case cm_signature tx of
       Some sig \<Rightarrow> e_verify E (create_mintable_sign_message E tx) sig (pkey (cm_creator tx))
     | None \<Rightarrow> False)"

section \<open>Validating and applying\<close>

definition create_mintable_validate :: "('h, 'd) env \<Rightarrow> 'd CreateMintable \<Rightarrow> 'h \<Rightarrow> bool option" where
  "create_mintable_validate E tx t =
    (if cm_asset_hash tx = cm_fee_hash tx then Some False
     else if bad_precision (cm_precision tx) then Some False
     else if cm_coin_supply tx < 1 then Some False
     else if cm_max_supply tx \<le> cm_coin_supply tx then Some False
     else if \<not> create_mintable_verify_sig E tx then Some False
     else creator_can_pay E t (cm_creator tx) (cm_fee_hash tx) (cm_fee tx) (cm_asset_hash tx))"

text \<open>The entries that describe the currency.\<close>

definition create_mintable_entries :: "('h, 'd) env \<Rightarrow> 'd CreateMintable \<Rightarrow> 'h \<Rightarrow> 'h option" where
  "create_mintable_entries E tx t = do {
     let asset_hash = e_hex E (cm_asset_hash tx);
     t \<leftarrow> e_insert E t (dot_key asset_hash ''s'') (encode_be_u64 (cm_coin_supply tx));
     t \<leftarrow> e_insert E t (dot_key asset_hash ''m'') (address_to_bytes (cm_minter_address tx));
     t \<leftarrow> e_insert E t (dot_key asset_hash ''x'') (encode_be_u64 (cm_max_supply tx));
     e_insert E t (dot_key asset_hash ''p'') [cm_precision tx]
   }"

definition create_mintable_apply :: "('h, 'd) env \<Rightarrow> 'd CreateMintable \<Rightarrow> 'h \<Rightarrow> 'h option" where
  "create_mintable_apply E tx t = (if e_hex E (cm_asset_hash tx) = e_hex E (cm_fee_hash tx) then None else do {
     let creator = normal_to_bytes (cm_creator tx);
     let receiver = address_to_bytes (cm_receiver tx);
     let creator_fee_key = cur_key E creator (cm_fee_hash tx);
     bin_creator_nonce \<leftarrow> get_must E t (nonce_key E creator);
     nonce \<leftarrow> next_nonce bin_creator_nonce;
     group \<leftarrow> current_group E t;
     if creator = receiver then do {
       creator_fee_balance \<leftarrow> get_balance E t creator_fee_key;
       creator_fee_balance \<leftarrow> balance_sub (e_dec E) creator_fee_balance (cm_fee tx);
       creator_cur_balance \<leftarrow> whole_balance E (cm_coin_supply tx);
       t \<leftarrow> register_currency E group (cm_asset_hash tx) t;
       t \<leftarrow> create_mintable_entries E tx t;
       t \<leftarrow> put_balance E (cur_key E creator (cm_asset_hash tx)) creator_cur_balance t;
       t \<leftarrow> put_balance E creator_fee_key creator_fee_balance t;
       e_insert E t (nonce_key E creator) nonce
     } else do {
       bin_receiver_nonce \<leftarrow> e_get E t (nonce_key E receiver);
       creator_balance \<leftarrow> get_balance E t creator_fee_key;
       creator_balance \<leftarrow> balance_sub (e_dec E) creator_balance (cm_fee tx);
       receiver_balance \<leftarrow> whole_balance E (cm_coin_supply tx);
       t \<leftarrow> register_currency E group (cm_asset_hash tx) t;
       t \<leftarrow> create_mintable_entries E tx t;
       t \<leftarrow> put_balance E creator_fee_key creator_balance t;
       t \<leftarrow> put_balance E (cur_key E receiver (cm_asset_hash tx)) receiver_balance t;
       t \<leftarrow> e_insert E t (nonce_key E creator) nonce;
       (if bin_receiver_nonce = None then e_insert E t (nonce_key E receiver) zero_nonce else Some t)
     }
   })"

section \<open>The wire format\<close>

definition create_mintable_to_bytes :: "('h, 'd) env \<Rightarrow> 'd CreateMintable \<Rightarrow> TxError + u8 list" where
  "create_mintable_to_bytes E tx = (case cm_hash tx of
       None \<Rightarrow> Inl (Msg ''Hash field is missing'')
     | Some hash \<Rightarrow> (case cm_signature tx of
         None \<Rightarrow> Inl (Msg ''Signature field is missing'')
       | Some sig \<Rightarrow>
           (let signature = sig_to_bytes sig;
                fee = balance_to_bytes (e_dec E) (cm_fee tx) in
            Inr (
              [CREATE_MINTABLE_TYPE, word_of_nat (length fee), cm_precision tx] @
              encode_be_u64 (cm_coin_supply tx) @ encode_be_u64 (cm_max_supply tx) @
              normal_to_bytes (cm_creator tx) @ address_to_bytes (cm_receiver tx) @
              address_to_bytes (cm_minter_address tx) @ cm_asset_hash tx @ cm_fee_hash tx @ hash @
              signature @ fee))))"

definition create_mintable_from_bytes :: "('h, 'd) env \<Rightarrow> u8 list \<Rightarrow> 'd CreateMintable parsed" where
  "create_mintable_from_bytes E bytes =
     attempt (tx_type CREATE_MINTABLE_TYPE bytes) (\<lambda>_.
     attempt (tx_u8 1 ''Bad fee len'' bytes) (\<lambda>fee_len.
     attempt (tx_u8 2 ''Bad precision'' bytes) (\<lambda>precision.
     attempt (tx_u64 3 ''Bad coin supply'' bytes) (\<lambda>coin_supply.
     attempt (tx_u64 11 ''Bad max supply'' bytes) (\<lambda>max_supply.
     attempt (tx_drain 19 bytes) (\<lambda>(_, buf).
     attempt (field 33 buf) (\<lambda>(creator_vec, buf).
     attempt (or_err (normal_from_bytes creator_vec)) (\<lambda>creator.
     attempt (field 33 buf) (\<lambda>(receiver_vec, buf).
     attempt (or_err (address_from_bytes receiver_vec)) (\<lambda>receiver.
     attempt (field 33 buf) (\<lambda>(minter_address_vec, buf).
     attempt (or_err (address_from_bytes minter_address_vec)) (\<lambda>minter_address.
     attempt (field 32 buf) (\<lambda>(hash_vec, buf).
     attempt (to_hash hash_vec) (\<lambda>asset_hash.
     attempt (field 32 buf) (\<lambda>(hash_vec, buf).
     attempt (to_hash hash_vec) (\<lambda>fee_hash.
     attempt (field 32 buf) (\<lambda>(hash_vec, buf).
     attempt (to_hash hash_vec) (\<lambda>hash.
     attempt (field 65 buf) (\<lambda>(sig_vec, buf).
     attempt (or_msg ''Bad signature'' (sig_from_bytes sig_vec)) (\<lambda>signature.
     attempt (last_field (unat fee_len) buf) (\<lambda>fee_vec.
     attempt (or_msg ''Bad gas price'' (balance_from_bytes (e_dec E) fee_vec)) (\<lambda>fee.
     Some (Inr \<lparr>cm_creator = creator, cm_receiver = receiver,
       cm_minter_address = minter_address, cm_asset_hash = asset_hash, cm_coin_supply = coin_supply,
       cm_max_supply = max_supply, cm_precision = precision, cm_fee_hash = fee_hash, cm_fee = fee,
       cm_hash = Some hash, cm_signature = Some signature\<rparr>)))))))))))))))))))))))"

definition wf_create_mintable :: "('h, 'd) env \<Rightarrow> 'd CreateMintable \<Rightarrow> bool" where
  "wf_create_mintable E tx \<longleftrightarrow> wf_normal (cm_creator tx) \<and> wf_address (cm_receiver tx) \<and>
     wf_address (cm_minter_address tx) \<and> length (cm_asset_hash tx) = 32 \<and>
     length (cm_fee_hash tx) = 32 \<and> wf_balance E (cm_fee tx) \<and>
     (\<exists>h. cm_hash tx = Some h \<and> length h = 32) \<and>
     (\<exists>s. cm_signature tx = Some s \<and> wf_sig s)"

lemma create_mintable_roundtrip:
  assumes "rlp_law E" "wf_create_mintable E tx"
  shows "\<exists>bytes. create_mintable_to_bytes E tx = Inr bytes \<and> create_mintable_from_bytes E bytes = Some (Inr tx)"
proof -
  from assms(2) obtain h s where h: "cm_hash tx = Some h" "length h = 32"
    and s: "cm_signature tx = Some s" "wf_sig s"
    by (auto simp: wf_create_mintable_def)
  define bytes where "bytes =
      [CREATE_MINTABLE_TYPE, word_of_nat (length (balance_to_bytes (e_dec E) (cm_fee tx))), cm_precision tx] @
      encode_be_u64 (cm_coin_supply tx) @ encode_be_u64 (cm_max_supply tx) @
      normal_to_bytes (cm_creator tx) @ address_to_bytes (cm_receiver tx) @
      address_to_bytes (cm_minter_address tx) @ cm_asset_hash tx @ cm_fee_hash tx @ h @
      sig_to_bytes s @ balance_to_bytes (e_dec E) (cm_fee tx)"
  have "create_mintable_to_bytes E tx = Inr bytes"
    using h s by (simp add: create_mintable_to_bytes_def bytes_def Let_def)
  moreover have "cm_asset_hash tx \<noteq> []" "cm_fee_hash tx \<noteq> []" "h \<noteq> []"
    using assms(2) h(2) by (auto simp: wf_create_mintable_def)
  then have "create_mintable_from_bytes E bytes = Some (Inr tx)"
    using assms h s
    by (simp add: create_mintable_from_bytes_def header_19[OF bytes_def] wf_create_mintable_def wire_simps del: One_nat_def)
  ultimately show ?thesis by blast
qed

lemma create_mintable_bytes_tag: "create_mintable_to_bytes E tx = Inr bytes \<Longrightarrow> \<exists>rest. bytes = CREATE_MINTABLE_TYPE # rest"
  by (auto simp: create_mintable_to_bytes_def Let_def split: option.split_asm)

lemma create_mintable_parsed_tag: "create_mintable_from_bytes E bytes = Some (Inr tx) \<Longrightarrow> \<exists>rest. bytes = CREATE_MINTABLE_TYPE # rest"
  unfolding create_mintable_from_bytes_def by (rule attempt_type)

interpretation create_mintable: tx_codec "create_mintable_to_bytes E" "create_mintable_from_bytes E" "\<lambda>tx. rlp_law E \<and> wf_create_mintable E tx" CREATE_MINTABLE_TYPE
  for E :: "('h, 'd) env"
  by unfold_locales (auto simp: create_mintable_roundtrip dest: create_mintable_bytes_tag create_mintable_parsed_tag)

section \<open>What creating does\<close>

lemma create_mintable_entries_get:
  assumes laws: "trie_law E" "hex_law E" and run: "create_mintable_entries E tx t = Some t'"
  shows "e_get E t' (dot_key (e_hex E (cm_asset_hash tx)) ''p'') = Some (Some [cm_precision tx])"
    "e_get E t' (dot_key (e_hex E (cm_asset_hash tx)) ''s'') = Some (Some (encode_be_u64 (cm_coin_supply tx)))"
    "e_get E t' (dot_key (e_hex E (cm_asset_hash tx)) ''m'') = Some (Some (address_to_bytes (cm_minter_address tx)))"
    "e_get E t' (dot_key (e_hex E (cm_asset_hash tx)) ''x'') = Some (Some (encode_be_u64 (cm_max_supply tx)))"
    "e_get E t' (group_key i) = e_get E t (group_key i)"
proof -
  have ne: "address_to_bytes a \<noteq> []" for a
    by (cases a) (simp_all add: normal_to_bytes_def multi_sig_to_bytes_def shareholders_to_bytes_def contract_to_bytes_def)
  have k: "dot_key (e_hex E a) s = dot_key (e_hex E b) u \<longleftrightarrow> a = b \<and> s = u" for a b s u
    by (rule dot_key_hex[OF laws(2)])
  note get = run[unfolded create_mintable_entries_def Let_def bind_eq_Some_conv] k list_keys[OF laws(2)]
  show "e_get E t' (dot_key (e_hex E (cm_asset_hash tx)) ''p'') = Some (Some [cm_precision tx])"
    using get by (auto dest!: trie_law_insert[OF laws(1)] simp: ne)
  show "e_get E t' (dot_key (e_hex E (cm_asset_hash tx)) ''s'') = Some (Some (encode_be_u64 (cm_coin_supply tx)))"
    using get by (auto dest!: trie_law_insert[OF laws(1)] simp: ne)
  show "e_get E t' (dot_key (e_hex E (cm_asset_hash tx)) ''m'') = Some (Some (address_to_bytes (cm_minter_address tx)))"
    using get by (auto dest!: trie_law_insert[OF laws(1)] simp: ne)
  show "e_get E t' (dot_key (e_hex E (cm_asset_hash tx)) ''x'') = Some (Some (encode_be_u64 (cm_max_supply tx)))"
    using get by (auto dest!: trie_law_insert[OF laws(1)] simp: ne)
  show "e_get E t' (group_key i) = e_get E t (group_key i)"
    using get by (auto dest!: trie_law_insert[OF laws(1)] simp: ne)
qed

lemma create_mintable_apply_steps:
  assumes laws: "trie_law E" "hex_law E" "decimal_law E val" and run: "create_mintable_apply E tx t = Some t'"
  obtains g u v b where "register_currency E g (cm_asset_hash tx) t = Some u"
    "create_mintable_entries E tx u = Some v" "whole_balance E (cm_coin_supply tx) = Some b"
    "\<forall>k. (\<forall>a x. k \<noteq> nonce_key E a \<and> k \<noteq> cur_key E a x) \<longrightarrow> e_get E t' k = e_get E v k"
    "stored E val t' (cur_key E (address_to_bytes (cm_receiver tx)) (cm_asset_hash tx)) = val (balance_inner b)"
proof (cases "normal_to_bytes (cm_creator tx) = address_to_bytes (cm_receiver tx)")
  case True
  have fee: "cm_fee_hash tx \<noteq> cm_asset_hash tx" using run by (auto simp: create_mintable_apply_def split: if_split_asm)
  from True run obtain g u v b m n f v1 v2 where ne: "next_nonce m = Some n"
    and u: "register_currency E g (cm_asset_hash tx) t = Some u" "create_mintable_entries E tx u = Some v"
      "whole_balance E (cm_coin_supply tx) = Some b"
    and fin: "put_balance E (cur_key E (address_to_bytes (cm_receiver tx)) (cm_asset_hash tx)) b v = Some v1"
      "put_balance E (cur_key E (address_to_bytes (cm_receiver tx)) (cm_fee_hash tx)) f v1 = Some v2"
      "e_insert E v2 (nonce_key E (address_to_bytes (cm_receiver tx))) n = Some t'"
    by (auto simp: create_mintable_apply_def Let_def bind_eq_Some_conv split: if_split_asm)
  note fin = finish_self[OF laws fee next_nonce_not_empty[OF ne] fin]
  show thesis by (rule that[OF u _ stored_printed[OF laws(3) fin(1)]]) (auto intro: fin(2))
next
  case False
  have hex: "e_hex E (cm_asset_hash tx) \<noteq> e_hex E (cm_fee_hash tx)" using run by (auto simp: create_mintable_apply_def)
  from False run obtain g u v b m n f v1 v2 v3 new where ne: "next_nonce m = Some n"
    and u: "register_currency E g (cm_asset_hash tx) t = Some u" "create_mintable_entries E tx u = Some v"
      "whole_balance E (cm_coin_supply tx) = Some b"
    and fin: "put_balance E (cur_key E (normal_to_bytes (cm_creator tx)) (cm_fee_hash tx)) f v = Some v1"
      "put_balance E (cur_key E (address_to_bytes (cm_receiver tx)) (cm_asset_hash tx)) b v1 = Some v2"
      "e_insert E v2 (nonce_key E (normal_to_bytes (cm_creator tx))) n = Some v3"
      "(if new then e_insert E v3 (nonce_key E (address_to_bytes (cm_receiver tx))) zero_nonce else Some v3) = Some t'"
    using hex by (simp add: create_mintable_apply_def Let_def bind_eq_Some_conv split del: if_split) (elim exE conjE, rule that, assumption+)
  note fin = finish_other[OF laws False next_nonce_not_empty[OF ne] fin]
  show thesis by (rule that[OF u _ stored_printed[OF laws(3) fin(1)]]) (auto intro: fin(2))
qed

text \<open>
  The receiver owns the whole supply, the currency is described and listed, and no transaction can
  create it again.
\<close>

lemma create_mintable_creates:
  assumes laws: "trie_law E" "hex_law E" "decimal_law E val" "rlp_law E" "\<And>xs. e_rlp_encode E xs \<noteq> []"
    and run: "create_mintable_apply E tx t = Some t'"
  shows "e_get E t' (dot_key (e_hex E (cm_asset_hash tx)) ''p'') = Some (Some [cm_precision tx])"
    "e_get E t' (dot_key (e_hex E (cm_asset_hash tx)) ''s'') = Some (Some (encode_be_u64 (cm_coin_supply tx)))"
    "registered E t' (cm_asset_hash tx)"
    "\<exists>b. whole_balance E (cm_coin_supply tx) = Some b \<and>
      stored E val t' (cur_key E (address_to_bytes (cm_receiver tx)) (cm_asset_hash tx)) = val (balance_inner b)"
proof -
  obtain g u v b where
    u: "register_currency E g (cm_asset_hash tx) t = Some u" and v: "create_mintable_entries E tx u = Some v"
    and b: "whole_balance E (cm_coin_supply tx) = Some b"
    and k: "\<forall>k. (\<forall>a x. k \<noteq> nonce_key E a \<and> k \<noteq> cur_key E a x) \<longrightarrow> e_get E t' k = e_get E v k"
    and b': "stored E val t' (cur_key E (address_to_bytes (cm_receiver tx)) (cm_asset_hash tx)) = val (balance_inner b)"
    using create_mintable_apply_steps[OF laws(1,2,3) run] by blast
  note entries = create_mintable_entries_get[OF laws(1,2) v]
  have same: "e_get E t' (dot_key (e_hex E a) s) = e_get E v (dot_key (e_hex E a) s)"
    if "s \<in> {''s'', ''x'', ''m'', ''p'', ''sm'', ''adr'', ''sh''}" for a s
    using asset_key[OF laws(2) that] k by auto
  show "e_get E t' (dot_key (e_hex E (cm_asset_hash tx)) ''p'') = Some (Some [cm_precision tx])"
    "e_get E t' (dot_key (e_hex E (cm_asset_hash tx)) ''s'') = Some (Some (encode_be_u64 (cm_coin_supply tx)))"
    by (simp_all add: same entries(1,2))
  have "e_get E t' (group_key i) = e_get E u (group_key i)" for i
    using k list_keys[OF laws(2)] entries by (simp add: nonce_key_def cur_key_def)
  with register_registered[OF laws(1,5,4) u] show "registered E t' (cm_asset_hash tx)" by (rule registered_frame)
  show "\<exists>b. whole_balance E (cm_coin_supply tx) = Some b \<and>
      stored E val t' (cur_key E (address_to_bytes (cm_receiver tx)) (cm_asset_hash tx)) = val (balance_inner b)"
    using b b' by blast
qed

lemma create_mintable_valid_new:
  assumes "create_mintable_validate E tx t = Some True"
  shows "e_get E t (dot_key (e_hex E (cm_asset_hash tx)) ''p'') \<noteq> Some (Some bs)"
  using assms created_once[of E t "cm_asset_hash tx" bs] by (auto simp: create_mintable_validate_def split: if_split_asm)

end
