(* ===== verification/Tx_Open.thy ===== *)
theory Tx_Open
  imports Tx_Common
begin

text \<open>
  What \<open>open_multi_sig.rs\<close>, \<open>open_shares.rs\<close> and \<open>open_contract.rs\<close> have in common: a new account
  is created at an address that must be free, and its creator pays the fee and the first balance.
  The three \<open>apply\<close> functions differ in the entries they write before the balances (\<open>pre\<close>) and after
  the nonces (\<open>post\<close>).
\<close>

definition open_account ::
  "('h, 'd) env \<Rightarrow> u8 list \<Rightarrow> u8 list \<Rightarrow> hash \<Rightarrow> 'd Balance \<Rightarrow> hash \<Rightarrow> 'd Balance \<Rightarrow>
     ('h \<Rightarrow> 'h option) \<Rightarrow> ('h \<Rightarrow> 'h option) \<Rightarrow> 'h \<Rightarrow> 'h option" where
  "open_account E creator address asset_hash amount fee_hash fee pre post t = do {
     let creator_cur_key = cur_key E creator asset_hash;
     let creator_fee_key = cur_key E creator fee_hash;
     let address_cur_key = cur_key E address asset_hash;
     if (case e_get E t (nonce_key E address) of Some (Some _) \<Rightarrow> True | _ \<Rightarrow> False) then None
     else do {
       bin_creator_nonce \<leftarrow> get_must E t (nonce_key E creator);
       nonce \<leftarrow> next_nonce bin_creator_nonce;
       if e_hex E fee_hash = e_hex E asset_hash then do {
         creator_balance \<leftarrow> get_balance E t creator_cur_key;
         creator_balance \<leftarrow> balance_sub (e_dec E) creator_balance fee;
         creator_balance \<leftarrow> balance_sub (e_dec E) creator_balance amount;
         t \<leftarrow> pre t;
         t \<leftarrow> put_balance E creator_cur_key creator_balance t;
         t \<leftarrow> put_balance E address_cur_key amount t;
         t \<leftarrow> e_insert E t (nonce_key E creator) nonce;
         t \<leftarrow> e_insert E t (nonce_key E address) zero_nonce;
         post t
       } else do {
         creator_cur_balance \<leftarrow> get_balance E t creator_cur_key;
         creator_fee_balance \<leftarrow> get_balance E t creator_fee_key;
         creator_fee_balance \<leftarrow> balance_sub (e_dec E) creator_fee_balance fee;
         creator_cur_balance \<leftarrow> balance_sub (e_dec E) creator_cur_balance amount;
         t \<leftarrow> pre t;
         t \<leftarrow> put_balance E creator_cur_key creator_cur_balance t;
         t \<leftarrow> put_balance E creator_fee_key creator_fee_balance t;
         t \<leftarrow> put_balance E address_cur_key amount t;
         t \<leftarrow> e_insert E t (nonce_key E creator) nonce;
         t \<leftarrow> e_insert E t (nonce_key E address) zero_nonce;
         post t
       }
     }
   }"

text \<open>\<open>verify_sig\<close> of the transactions that only a normal account can sign.\<close>

definition check_normal_sig ::
  "('h, 'd) env \<Rightarrow> NormalAddress \<Rightarrow> PrimitiveSig option \<Rightarrow> u8 list option \<Rightarrow> bool option" where
  "check_normal_sig E addr signature message = do {
     message \<leftarrow> message;
     (case signature of Some sig \<Rightarrow> Some (e_verify E message sig (pkey addr)) | None \<Rightarrow> Some False)
   }"

section \<open>The effect on the balances\<close>

definition open_delta :: "u8 list \<Rightarrow> u8 list \<Rightarrow> hash \<Rightarrow> 'v::linordered_ab_group_add \<Rightarrow> hash \<Rightarrow> 'v \<Rightarrow> u8 list \<Rightarrow> hash \<Rightarrow> 'v" where
  "open_delta creator address asset_hash amount fee_hash fee addr asset =
     (if addr = address \<and> asset = asset_hash then amount else 0) -
     (if addr = creator \<and> asset = asset_hash then amount else 0) -
     (if addr = creator \<and> asset = fee_hash then fee else 0)"

lemma open_account_cases:
  assumes "open_account E creator address asset amount fee_hash fee pre post t = Some t'" "hex_law E"
  obtains
    (one) bin n b b1 b2 p u1 u2 u3 u4 where "fee_hash = asset" "next_nonce bin = Some n"
      "get_balance E t (cur_key E creator asset) = Some b"
      "balance_sub (e_dec E) b fee = Some b1" "balance_sub (e_dec E) b1 amount = Some b2" "pre t = Some p"
      "put_balance E (cur_key E creator asset) b2 p = Some u1" "put_balance E (cur_key E address asset) amount u1 = Some u2"
      "e_insert E u2 (nonce_key E creator) n = Some u3" "e_insert E u3 (nonce_key E address) zero_nonce = Some u4"
      "post u4 = Some t'" "e_get E t (nonce_key E address) = None \<or> e_get E t (nonce_key E address) = Some None"
  | (two) bin n c f f1 c1 p u0 u1 u2 u3 u4 where "fee_hash \<noteq> asset" "next_nonce bin = Some n"
      "get_balance E t (cur_key E creator asset) = Some c" "get_balance E t (cur_key E creator fee_hash) = Some f"
      "balance_sub (e_dec E) f fee = Some f1" "balance_sub (e_dec E) c amount = Some c1" "pre t = Some p"
      "put_balance E (cur_key E creator asset) c1 p = Some u0" "put_balance E (cur_key E creator fee_hash) f1 u0 = Some u1"
      "put_balance E (cur_key E address asset) amount u1 = Some u2"
      "e_insert E u2 (nonce_key E creator) n = Some u3" "e_insert E u3 (nonce_key E address) zero_nonce = Some u4"
      "post u4 = Some t'" "e_get E t (nonce_key E address) = None \<or> e_get E t (nonce_key E address) = Some None"
proof -
  have hex: "e_hex E fee_hash = e_hex E asset \<longleftrightarrow> fee_hash = asset"
    using assms(2) by (auto simp: hex_law_def inj_def)
  have free: "e_get E t (nonce_key E address) = None \<or> e_get E t (nonce_key E address) = Some None"
    using assms(1) by (auto simp: open_account_def split: option.split_asm)
  then have "\<not> (case e_get E t (nonce_key E address) of Some (Some _) \<Rightarrow> True | _ \<Rightarrow> False)" by auto
  note run = assms(1)[unfolded open_account_def Let_def if_not_P[OF this] hex bind_eq_Some_conv]
  show thesis
  proof (cases "fee_hash = asset")
    case True
    from run[unfolded if_P[OF True] bind_eq_Some_conv] show thesis by (elim exE conjE) (rule one[OF True _ _ _ _ _ _ _ _ _ _ free])
  next
    case False
    from run[unfolded if_not_P[OF False] bind_eq_Some_conv] show thesis by (elim exE conjE) (rule two[OF False _ _ _ _ _ _ _ _ _ _ _ _ free])
  qed
qed

lemma open_account_stored:
  assumes laws: "trie_law E" "hex_law E" "decimal_law E val"
    and run: "open_account E creator address asset_hash amount fee_hash fee pre post t = Some t'"
    and new: "creator \<noteq> address" "e_get E t (cur_key E address asset_hash) = Some None"
    and pre: "\<And>p. pre t = Some p \<Longrightarrow> stored E val p (cur_key E addr asset) = stored E val t (cur_key E addr asset)"
    and post: "\<And>u. post u = Some t' \<Longrightarrow> stored E val t' (cur_key E addr asset) = stored E val u (cur_key E addr asset)"
  shows "stored E val t' (cur_key E addr asset) = stored E val t (cur_key E addr asset) +
    open_delta creator address asset_hash (val (balance_inner amount)) fee_hash (val (balance_inner fee)) addr asset"
proof -
  have none: "stored E val t (cur_key E address asset_hash) = 0" using new(2) by (simp add: stored_def)
  from run laws(2) show ?thesis
  proof (cases rule: open_account_cases)
    case (one bin n b b1 b2 p u1 u2 u3 u4)
    show ?thesis
      using none new(1) get_balance_stored[OF one(3), of val] balance_sub_val[OF laws(3) one(4)]
        balance_sub_val[OF laws(3) one(5)] one(1) pre[OF one(6)] post[OF one(11)]
      by (auto simp: open_delta_def insert_stored[OF laws(1) one(10)] nonce_stored(1)[OF laws(1,2) one(2,9)]
          put_balance_stored[OF laws(1,3) one(8)] put_balance_stored[OF laws(1,3) one(7)] keys_distinct[OF laws(2)])
  next
    case (two bin n c f f1 c1 p u0 u1 u2 u3 u4)
    show ?thesis
      using none new(1) get_balance_stored[OF two(3), of val] get_balance_stored[OF two(4), of val]
        balance_sub_val[OF laws(3) two(5)] balance_sub_val[OF laws(3) two(6)] two(1) pre[OF two(7)] post[OF two(13)]
      by (auto simp: open_delta_def insert_stored[OF laws(1) two(12)] nonce_stored(1)[OF laws(1,2) two(2,11)]
          put_balance_stored[OF laws(1,3) two(10)] put_balance_stored[OF laws(1,3) two(9)]
          put_balance_stored[OF laws(1,3) two(8)] keys_distinct[OF laws(2)])
  qed
qed

text \<open>An address is opened once.\<close>

lemma open_account_taken:
  "e_get E t (nonce_key E address) = Some (Some bs) \<Longrightarrow>
     open_account E creator address asset_hash amount fee_hash fee pre post t = None"
  by (simp add: open_account_def)

section \<open>Wire formats\<close>

text \<open>A field of which the message on a short buffer names the field, and one that may be the last.\<close>

definition field_msg :: "string \<Rightarrow> nat \<Rightarrow> u8 list \<Rightarrow> (u8 list \<times> u8 list) parsed" where
  "field_msg msg n buf = (if n < length buf then Some (Inr (take n buf, drop n buf)) else fail msg)"

definition field_upto :: "string \<Rightarrow> nat \<Rightarrow> u8 list \<Rightarrow> (u8 list \<times> u8 list) parsed" where
  "field_upto msg n buf = (if n \<le> length buf then Some (Inr (take n buf, drop n buf)) else fail msg)"

definition last_field_msg :: "string \<Rightarrow> nat \<Rightarrow> u8 list \<Rightarrow> u8 list parsed" where
  "last_field_msg msg n buf = (if length buf = n then Some (Inr buf) else fail msg)"

lemma field_msg_append [wire_simps]:
  "length xs = n \<Longrightarrow> ys \<noteq> [] \<Longrightarrow> field_msg msg n (xs @ ys) = Some (Inr (xs, ys))"
  "length xs = n \<Longrightarrow> field_upto msg n (xs @ ys) = Some (Inr (xs, ys))"
  "length xs = n \<Longrightarrow> last_field_msg msg n xs = Some (Inr xs)"
  by (auto simp: field_msg_def field_upto_def last_field_msg_def)

lemma read_at:
  "drop p bytes = encode_be_u16 w @ r \<Longrightarrow> tx_u16 p m bytes = Some (Inr w)"
  "drop p bytes = encode_be_u64 x @ r \<Longrightarrow> tx_u64 p m bytes = Some (Inr x)"
  "drop p bytes = b # r \<Longrightarrow> tx_u8 p m bytes = Some (Inr b)"
proof -
  show "tx_u8 p m bytes = Some (Inr b)" if "drop p bytes = b # r"
  proof -
    have "p < length bytes" using that by (metis drop_all leI list.distinct(1))
    moreover have "bytes ! p = b" using that calculation by (metis Cons_nth_drop_Suc list.inject)
    ultimately show ?thesis by (simp add: tx_u8_def)
  qed
qed (simp_all add: tx_u16_def tx_u64_def read_be_encoded)

lemmas field_widths = be_u16.enc_width be_u64.enc_width

end
