(* ===== verification/Tx_Open_Multi_Sig.thy ===== *)
theory Tx_Open_Multi_Sig
  imports Tx_Open
begin

text \<open>\<open>transactions/src/open_multi_sig.rs\<close>: a new account that several keys sign for.\<close>

record 'd OpenMultiSig =
  oms_creator :: NormalAddress
  oms_keys :: "NormalAddress list"
  oms_required_keys :: u8
  oms_amount :: "'d Balance"
  oms_asset_hash :: hash
  oms_fee :: "'d Balance"
  oms_fee_hash :: hash
  oms_nonce :: u64
  oms_address :: "MultiSigAddress option"
  oms_hash :: "hash option"
  oms_signature :: "PrimitiveSig option"

definition OPEN_MULTI_SIG_TYPE :: u8 where
  "OPEN_MULTI_SIG_TYPE = 5"

section \<open>Signing and hashing\<close>

definition open_multi_sig_sign_message :: "('h, 'd) env \<Rightarrow> 'd OpenMultiSig \<Rightarrow> u8 list option" where
  "open_multi_sig_sign_message E tx = do {
     address \<leftarrow> oms_address tx;
     Some ([oms_required_keys tx] @ encode_be_u64 (oms_nonce tx) @ oms_fee_hash tx @ oms_asset_hash tx @
       normal_to_bytes (oms_creator tx) @ multi_sig_to_bytes address @
       balance_to_bytes (e_dec E) (oms_amount tx) @ balance_to_bytes (e_dec E) (oms_fee tx) @
       e_rlp_encode E (map normal_to_bytes (oms_keys tx)))
   }"

definition open_multi_sig_hash_message :: "('h, 'd) env \<Rightarrow> 'd OpenMultiSig \<Rightarrow> u8 list option" where
  "open_multi_sig_hash_message E tx = do {
     signature \<leftarrow> oms_signature tx;
     address \<leftarrow> oms_address tx;
     Some ([oms_required_keys tx] @ encode_be_u64 (oms_nonce tx) @ oms_fee_hash tx @ oms_asset_hash tx @
       normal_to_bytes (oms_creator tx) @ multi_sig_to_bytes address @
       balance_to_bytes (e_dec E) (oms_amount tx) @ balance_to_bytes (e_dec E) (oms_fee tx) @
       e_rlp_encode E (map normal_to_bytes (oms_keys tx)) @ sig_to_bytes signature)
   }"

definition open_multi_sig_set_hash :: "('h, 'd) env \<Rightarrow> 'd OpenMultiSig \<Rightarrow> 'd OpenMultiSig option" where
  "open_multi_sig_set_hash E tx = do {
     message \<leftarrow> open_multi_sig_hash_message E tx;
     Some (tx\<lparr>oms_hash := Some (e_hash E message)\<rparr>)
   }"

definition open_multi_sig_verify_hash :: "('h, 'd) env \<Rightarrow> 'd OpenMultiSig \<Rightarrow> bool option" where
  "open_multi_sig_verify_hash E tx = check_hash E (oms_hash tx) (open_multi_sig_hash_message E tx)"

lemma open_multi_sig_hash_verifies:
  "open_multi_sig_set_hash E tx = Some tx' \<Longrightarrow> open_multi_sig_verify_hash E tx' = Some True"
  by (auto simp: open_multi_sig_set_hash_def open_multi_sig_verify_hash_def open_multi_sig_hash_message_def
      check_hash_def bind_eq_Some_conv)

definition open_multi_sig_sign :: "('h, 'd) env \<Rightarrow> u8 list \<Rightarrow> 'd OpenMultiSig \<Rightarrow> 'd OpenMultiSig option" where
  "open_multi_sig_sign E skey tx = do {
     message \<leftarrow> open_multi_sig_sign_message E tx;
     Some (tx\<lparr>oms_signature := Some (e_sign E message skey)\<rparr>)
   }"

definition open_multi_sig_verify_sig :: "('h, 'd) env \<Rightarrow> 'd OpenMultiSig \<Rightarrow> bool option" where
  "open_multi_sig_verify_sig E tx =
     check_normal_sig E (oms_creator tx) (oms_signature tx) (open_multi_sig_sign_message E tx)"

definition open_multi_sig_compute_address :: "('h, 'd) env \<Rightarrow> 'd OpenMultiSig \<Rightarrow> 'd OpenMultiSig" where
  "open_multi_sig_compute_address E tx = tx\<lparr>oms_address :=
     Some (multi_sig_compute (e_rlp_encode E) (e_hash E) (oms_keys tx) (oms_creator tx) (oms_nonce tx))\<rparr>"

section \<open>Applying\<close>

definition open_multi_sig_entries :: "('h, 'd) env \<Rightarrow> 'd OpenMultiSig \<Rightarrow> u8 list \<Rightarrow> 'h \<Rightarrow> 'h option" where
  "open_multi_sig_entries E tx address t = do {
     t \<leftarrow> e_insert E t (dot_key (e_hex E address) ''k'') (e_rlp_encode E (map normal_to_bytes (oms_keys tx)));
     e_insert E t (dot_key (e_hex E address) ''r'') [oms_required_keys tx]
   }"

definition open_multi_sig_apply :: "('h, 'd) env \<Rightarrow> 'd OpenMultiSig \<Rightarrow> 'h \<Rightarrow> 'h option" where
  "open_multi_sig_apply E tx t = do {
     address \<leftarrow> oms_address tx;
     let address = multi_sig_to_bytes address;
     open_account E (normal_to_bytes (oms_creator tx)) address (oms_asset_hash tx) (oms_amount tx)
       (oms_fee_hash tx) (oms_fee tx) (open_multi_sig_entries E tx address) Some t
   }"

section \<open>The wire format\<close>

definition open_multi_sig_to_bytes :: "('h, 'd) env \<Rightarrow> 'd OpenMultiSig \<Rightarrow> TxError + u8 list" where
  "open_multi_sig_to_bytes E tx = (case oms_address tx of
       None \<Rightarrow> Inl (Msg ''Address field is missing'')
     | Some address \<Rightarrow> (case oms_hash tx of
       None \<Rightarrow> Inl (Msg ''Hash field is missing'')
     | Some hash \<Rightarrow> (case oms_signature tx of
         None \<Rightarrow> Inl (Msg ''Signature field is missing'')
       | Some sig \<Rightarrow>
           (let keys = e_rlp_encode E (map normal_to_bytes (oms_keys tx));
                amount = balance_to_bytes (e_dec E) (oms_amount tx);
                fee = balance_to_bytes (e_dec E) (oms_fee tx) in
            Inr ([OPEN_MULTI_SIG_TYPE, oms_required_keys tx, word_of_nat (length amount), word_of_nat (length fee)] @
              encode_be_u16 (word_of_nat (length keys)) @ encode_be_u64 (oms_nonce tx) @
              oms_fee_hash tx @ oms_asset_hash tx @ normal_to_bytes (oms_creator tx) @
              multi_sig_to_bytes address @ hash @ sig_to_bytes sig @ amount @ fee @ keys)))))"

fun keys_from_bytes :: "u8 list list \<Rightarrow> NormalAddress list parsed" where
  "keys_from_bytes [] = Some (Inr [])"
| "keys_from_bytes (k # ks) =
     attempt (or_err (normal_from_bytes k)) (\<lambda>addr.
     attempt (keys_from_bytes ks) (\<lambda>keys. Some (Inr (addr # keys))))"

definition open_multi_sig_from_bytes :: "('h, 'd) env \<Rightarrow> u8 list \<Rightarrow> 'd OpenMultiSig parsed" where
  "open_multi_sig_from_bytes E bytes =
     attempt (tx_type OPEN_MULTI_SIG_TYPE bytes) (\<lambda>_.
     attempt (tx_u8 1 ''Bad required keys'' bytes) (\<lambda>required_keys.
     attempt (tx_u8 2 ''Bad amount len'' bytes) (\<lambda>amount_len.
     attempt (tx_u8 3 ''Bad fee len'' bytes) (\<lambda>fee_len.
     attempt (tx_u16 4 ''Bad keys len'' bytes) (\<lambda>keys_len.
     attempt (tx_u64 6 ''Bad nonce'' bytes) (\<lambda>nonce.
     attempt (tx_drain 14 bytes) (\<lambda>(_, buf).
     attempt (field 32 buf) (\<lambda>(hash_vec, buf).
     attempt (to_hash hash_vec) (\<lambda>fee_hash.
     attempt (field 32 buf) (\<lambda>(hash_vec, buf).
     attempt (to_hash hash_vec) (\<lambda>asset_hash.
     attempt (field 33 buf) (\<lambda>(creator_vec, buf).
     attempt (or_err (normal_from_bytes creator_vec)) (\<lambda>creator.
     attempt (field 33 buf) (\<lambda>(address_vec, buf).
     attempt (or_err (multi_sig_from_bytes address_vec)) (\<lambda>address.
     attempt (field 32 buf) (\<lambda>(hash_vec, buf).
     attempt (to_hash hash_vec) (\<lambda>hash.
     attempt (field 65 buf) (\<lambda>(sig_vec, buf).
     attempt (or_err (sig_from_bytes sig_vec)) (\<lambda>signature.
     attempt (field (unat amount_len) buf) (\<lambda>(amount_vec, buf).
     attempt (or_msg ''Bad amount'' (balance_from_bytes (e_dec E) amount_vec)) (\<lambda>amount.
     attempt (field (unat fee_len) buf) (\<lambda>(fee_vec, buf).
     attempt (or_msg ''Bad fee'' (balance_from_bytes (e_dec E) fee_vec)) (\<lambda>fee.
     attempt (last_field (unat keys_len) buf) (\<lambda>keys_vec.
     attempt (keys_from_bytes (e_rlp_decode E keys_vec)) (\<lambda>keys.
     Some (Inr \<lparr>oms_creator = creator, oms_keys = keys, oms_required_keys = required_keys,
       oms_amount = amount, oms_asset_hash = asset_hash, oms_fee = fee, oms_fee_hash = fee_hash,
       oms_nonce = nonce, oms_address = Some address, oms_hash = Some hash,
       oms_signature = Some signature\<rparr>))))))))))))))))))))))))))"

definition wf_open_multi_sig :: "('h, 'd) env \<Rightarrow> 'd OpenMultiSig \<Rightarrow> bool" where
  "wf_open_multi_sig E tx \<longleftrightarrow> wf_normal (oms_creator tx) \<and> list_all wf_normal (oms_keys tx) \<and>
     wf_balance E (oms_amount tx) \<and> wf_balance E (oms_fee tx) \<and>
     length (oms_asset_hash tx) = 32 \<and> length (oms_fee_hash tx) = 32 \<and>
     (\<exists>a. oms_address tx = Some a \<and> length (msig_inner a) = 32) \<and>
     (\<exists>h. oms_hash tx = Some h \<and> length h = 32) \<and> (\<exists>s. oms_signature tx = Some s \<and> wf_sig s) \<and>
     e_rlp_encode E (map normal_to_bytes (oms_keys tx)) \<noteq> [] \<and>
     length (e_rlp_encode E (map normal_to_bytes (oms_keys tx))) < 2 ^ 16"

lemma keys_round_trip: "list_all wf_normal ks \<Longrightarrow> keys_from_bytes (map normal_to_bytes ks) = Some (Inr ks)"
  by (induction ks) (simp_all add: normal.dec_enc or_err_simps)

lemma header_14:
  assumes "bytes = [a, b, c, d] @ encode_be_u16 w @ encode_be_u64 x @ body"
  shows "tx_type a bytes = Some (Inr ())" "tx_u8 1 m bytes = Some (Inr b)" "tx_u8 2 m bytes = Some (Inr c)"
    "tx_u8 3 m bytes = Some (Inr d)" "tx_u16 4 m bytes = Some (Inr w)" "tx_u64 6 m bytes = Some (Inr x)"
    "tx_drain 14 bytes = Some (Inr ([a, b, c, d] @ encode_be_u16 w @ encode_be_u64 x, body))"
proof -
  show "tx_u16 4 m bytes = Some (Inr w)"
    by (rule read_at(1)[of _ _ _ "encode_be_u64 x @ body"]) (simp add: assms)
  show "tx_u64 6 m bytes = Some (Inr x)"
    by (rule read_at(2)[of _ _ _ body]) (simp add: assms field_widths)
  show "tx_drain 14 bytes = Some (Inr ([a, b, c, d] @ encode_be_u16 w @ encode_be_u64 x, body))"
    using tx_drain_append[of "[a, b, c, d] @ encode_be_u16 w @ encode_be_u64 x" 14 body]
    by (simp add: assms field_widths)
qed (simp_all add: assms tx_type_def tx_u8_def numeral_3_eq_3)

lemma open_multi_sig_roundtrip:
  assumes "rlp_law E" "wf_open_multi_sig E tx"
  shows "\<exists>bytes. open_multi_sig_to_bytes E tx = Inr bytes \<and> open_multi_sig_from_bytes E bytes = Some (Inr tx)"
proof -
  from assms(2) obtain a h s where a: "oms_address tx = Some a" "length (msig_inner a) = 32"
    and h: "oms_hash tx = Some h" "length h = 32" and s: "oms_signature tx = Some s" "wf_sig s"
    by (auto simp: wf_open_multi_sig_def)
  let ?keys = "e_rlp_encode E (map normal_to_bytes (oms_keys tx))"
  define bytes where "bytes =
      [OPEN_MULTI_SIG_TYPE, oms_required_keys tx, word_of_nat (length (balance_to_bytes (e_dec E) (oms_amount tx))),
        word_of_nat (length (balance_to_bytes (e_dec E) (oms_fee tx)))] @
      encode_be_u16 (word_of_nat (length ?keys)) @ encode_be_u64 (oms_nonce tx) @
      oms_fee_hash tx @ oms_asset_hash tx @ normal_to_bytes (oms_creator tx) @
      multi_sig_to_bytes a @ h @ sig_to_bytes s @ balance_to_bytes (e_dec E) (oms_amount tx) @
      balance_to_bytes (e_dec E) (oms_fee tx) @ ?keys"
  have "open_multi_sig_to_bytes E tx = Inr bytes"
    using a h s by (simp add: open_multi_sig_to_bytes_def bytes_def Let_def)
  moreover have "multi_sig_to_bytes a \<noteq> []" "normal_to_bytes (oms_creator tx) \<noteq> []" "oms_asset_hash tx \<noteq> []" "h \<noteq> []"
    using assms(2) h(2) by (auto simp: wf_open_multi_sig_def multi_sig_to_bytes_def normal_to_bytes_def)
  moreover have "e_rlp_decode E ?keys = map normal_to_bytes (oms_keys tx)" using assms(1) by (simp add: rlp_law_def)
  ultimately have "open_multi_sig_from_bytes E bytes = Some (Inr tx)"
    using assms a h s keys_round_trip[of "oms_keys tx"]
    by (simp add: open_multi_sig_from_bytes_def header_14[OF bytes_def] wf_open_multi_sig_def wire_simps
        multi_sig.dec_enc multi_sig.enc_width del: One_nat_def)
  with \<open>open_multi_sig_to_bytes E tx = Inr bytes\<close> show ?thesis by blast
qed

lemma open_multi_sig_bytes_tag:
  "open_multi_sig_to_bytes E tx = Inr bytes \<Longrightarrow> \<exists>rest. bytes = OPEN_MULTI_SIG_TYPE # rest"
  by (auto simp: open_multi_sig_to_bytes_def Let_def split: option.split_asm)

lemma open_multi_sig_parsed_tag:
  "open_multi_sig_from_bytes E bytes = Some (Inr tx) \<Longrightarrow> \<exists>rest. bytes = OPEN_MULTI_SIG_TYPE # rest"
  unfolding open_multi_sig_from_bytes_def by (rule attempt_type)

interpretation open_multi_sig: tx_codec "open_multi_sig_to_bytes E" "open_multi_sig_from_bytes E"
  "\<lambda>tx. rlp_law E \<and> wf_open_multi_sig E tx" OPEN_MULTI_SIG_TYPE
  for E :: "('h, 'd) env"
  by unfold_locales (auto simp: open_multi_sig_roundtrip dest: open_multi_sig_bytes_tag open_multi_sig_parsed_tag)

section \<open>What opening does\<close>

lemma keys_entry:
  assumes "hex_law E"
  shows "dot_key (e_hex E a) ''k'' \<noteq> nonce_key E b" "dot_key (e_hex E a) ''k'' \<noteq> cur_key E b y"
    "dot_key (e_hex E a) ''r'' \<noteq> nonce_key E b" "dot_key (e_hex E a) ''r'' \<noteq> cur_key E b y"
    "dot_key (e_hex E a) ''k'' \<noteq> dot_key (e_hex E b) ''r''"
  using dot_key_hex[OF assms] hex_not_suffix[OF assms, of y] by (auto simp: nonce_key_def cur_key_def)

lemma entries_get:
  assumes laws: "trie_law E" "hex_law E" "\<And>xs. e_rlp_encode E xs \<noteq> []"
    and run: "open_multi_sig_entries E tx a t = Some p"
  shows "e_get E p = (e_get E t)
    (dot_key (e_hex E a) ''k'' := Some (Some (e_rlp_encode E (map normal_to_bytes (oms_keys tx)))),
     dot_key (e_hex E a) ''r'' := Some (Some [oms_required_keys tx]))"
  using run laws(3)
  by (auto simp: open_multi_sig_entries_def bind_eq_Some_conv dest!: trie_law_insert[OF laws(1)])

lemma open_multi_sig_stored:
  assumes laws: "trie_law E" "hex_law E" "decimal_law E val" "\<And>xs. e_rlp_encode E xs \<noteq> []"
    and run: "open_multi_sig_apply E tx t = Some t'" and a: "oms_address tx = Some a"
    and new: "e_get E t (cur_key E (multi_sig_to_bytes a) (oms_asset_hash tx)) = Some None"
  shows "stored E val t' (cur_key E addr asset) = stored E val t (cur_key E addr asset) +
    open_delta (normal_to_bytes (oms_creator tx)) (multi_sig_to_bytes a) (oms_asset_hash tx)
      (val (balance_inner (oms_amount tx))) (oms_fee_hash tx) (val (balance_inner (oms_fee tx))) addr asset"
proof (rule open_account_stored[OF laws(1-3)])
  show "open_account E (normal_to_bytes (oms_creator tx)) (multi_sig_to_bytes a) (oms_asset_hash tx) (oms_amount tx)
      (oms_fee_hash tx) (oms_fee tx) (open_multi_sig_entries E tx (multi_sig_to_bytes a)) Some t = Some t'"
    using run a by (simp add: open_multi_sig_apply_def Let_def)
  show "normal_to_bytes (oms_creator tx) \<noteq> multi_sig_to_bytes a"
    by (simp add: normal_to_bytes_def multi_sig_to_bytes_def)
  show "stored E val p (cur_key E addr asset) = stored E val t (cur_key E addr asset)"
    if "open_multi_sig_entries E tx (multi_sig_to_bytes a) t = Some p" for p
    using entries_get[OF laws(1,2,4) that] keys_entry[OF laws(2), THEN not_sym] by (intro stored_eq) simp
qed (use new in simp_all)

text \<open>
  The account is governed by its keys: the signature of a later transaction of the new account is
  checked with the keys and the number of required keys of the transaction that opened it.
\<close>

lemma decode_keys_map:
  "list_all wf_normal ks \<Longrightarrow> decode_keys (map normal_to_bytes ks) = Some (Some (map pkey ks))"
  by (induction ks) (simp_all add: normal.dec_enc)

lemma open_multi_sig_governs:
  assumes laws: "trie_law E" "hex_law E" "decimal_law E val" "rlp_law E" "\<And>xs. e_rlp_encode E xs \<noteq> []"
    and run: "open_multi_sig_apply E tx t = Some t'" and a: "oms_address tx = Some a"
    and keys: "list_all wf_normal (oms_keys tx)"
  shows "validate_signature E t' (Account_Address.MultiSig a) (Some (MultiSigSig sig)) message =
    check_multi_sig E (Some (MultiSigSig sig)) message (oms_required_keys tx) (map pkey (oms_keys tx))"
proof -
  let ?a = "multi_sig_to_bytes a"
  have open': "open_account E (normal_to_bytes (oms_creator tx)) ?a (oms_asset_hash tx) (oms_amount tx)
      (oms_fee_hash tx) (oms_fee tx) (open_multi_sig_entries E tx ?a) Some t = Some t'"
    using run a by (simp add: open_multi_sig_apply_def Let_def)
  note frames = insert_frame[OF laws(1)] put_balance_frame[OF laws(1,3)]
  note k = keys_entry[OF laws(2)]
  from open' laws(2) obtain p where p: "open_multi_sig_entries E tx ?a t = Some p"
    and k': "e_get E t' (dot_key (e_hex E ?a) ''k'') = e_get E p (dot_key (e_hex E ?a) ''k'')"
    and r': "e_get E t' (dot_key (e_hex E ?a) ''r'') = e_get E p (dot_key (e_hex E ?a) ''r'')"
  proof (cases rule: open_account_cases)
    case (one bin n b b1 b2 p u1 u2 u3 u4)
    with that k show thesis by (auto dest!: frames dest: next_nonce_not_empty)
  next
    case (two bin n c f f1 c1 p u0 u1 u2 u3 u4)
    with that k show thesis by (auto dest!: frames dest: next_nonce_not_empty)
  qed
  have "decode_u8 [oms_required_keys tx] = Some (oms_required_keys tx)"
    using u8.dec_enc[of "oms_required_keys tx" "[]"] by (simp add: encode_u8_def)
  with entries_get[OF laws(1,2,5) p] k' r' k(5) laws(4) decode_keys_map[OF keys] show ?thesis
    by (simp add: validate_signature_def get_or_false_def Let_def rlp_law_def)
qed

end
