(* ===== verification/Tx_Open_Shares.thy ===== *)
theory Tx_Open_Shares
  imports Tx_Open
begin

text \<open>\<open>transactions/src/open_shares.rs\<close>: a new company and its first shareholders.\<close>

record 'd OpenShares =
  os_creator :: NormalAddress
  os_shares :: Shares
  os_share_map :: ShareMap
  os_amount :: "'d Balance"
  os_asset_hash :: hash
  os_fee :: "'d Balance"
  os_fee_hash :: hash
  os_nonce :: u64
  os_address :: "ShareholdersAddress option"
  os_hash :: "hash option"
  os_stock_hash :: "hash option"
  os_signature :: "PrimitiveSig option"

definition OPEN_SHARES_TYPE :: u8 where
  "OPEN_SHARES_TYPE = 6"

section \<open>Signing and hashing\<close>

definition open_shares_sign_message :: "('h, 'd) env \<Rightarrow> 'd OpenShares \<Rightarrow> u8 list option" where
  "open_shares_sign_message E tx = do {
     address \<leftarrow> os_address tx;
     stock_hash \<leftarrow> os_stock_hash tx;
     Some (encode_be_u64 (os_nonce tx) @ stock_hash @ os_fee_hash tx @ os_asset_hash tx @
       normal_to_bytes (os_creator tx) @ shareholders_to_bytes address @
       balance_to_bytes (e_dec E) (os_amount tx) @ balance_to_bytes (e_dec E) (os_fee tx) @
       shares_to_bytes (os_shares tx) @ sm_to_bytes (e_rlp_encode E) (e_iter E) (os_share_map tx))
   }"

definition open_shares_hash_message :: "('h, 'd) env \<Rightarrow> 'd OpenShares \<Rightarrow> u8 list option" where
  "open_shares_hash_message E tx = do {
     signature \<leftarrow> os_signature tx;
     address \<leftarrow> os_address tx;
     stock_hash \<leftarrow> os_stock_hash tx;
     Some (encode_be_u64 (os_nonce tx) @ stock_hash @ os_fee_hash tx @ os_asset_hash tx @
       normal_to_bytes (os_creator tx) @ shareholders_to_bytes address @
       balance_to_bytes (e_dec E) (os_amount tx) @ balance_to_bytes (e_dec E) (os_fee tx) @
       sig_to_bytes signature @ shares_to_bytes (os_shares tx) @
       sm_to_bytes (e_rlp_encode E) (e_iter E) (os_share_map tx))
   }"

definition open_shares_set_hash :: "('h, 'd) env \<Rightarrow> 'd OpenShares \<Rightarrow> 'd OpenShares option" where
  "open_shares_set_hash E tx = do {
     message \<leftarrow> open_shares_hash_message E tx;
     Some (tx\<lparr>os_hash := Some (e_hash E message)\<rparr>)
   }"

definition open_shares_verify_hash :: "('h, 'd) env \<Rightarrow> 'd OpenShares \<Rightarrow> bool option" where
  "open_shares_verify_hash E tx = check_hash E (os_hash tx) (open_shares_hash_message E tx)"

lemma open_shares_hash_verifies:
  "open_shares_set_hash E tx = Some tx' \<Longrightarrow> open_shares_verify_hash E tx' = Some True"
  by (auto simp: open_shares_set_hash_def open_shares_verify_hash_def open_shares_hash_message_def
      check_hash_def bind_eq_Some_conv)

definition open_shares_sign :: "('h, 'd) env \<Rightarrow> u8 list \<Rightarrow> 'd OpenShares \<Rightarrow> 'd OpenShares option" where
  "open_shares_sign E skey tx = do {
     message \<leftarrow> open_shares_sign_message E tx;
     Some (tx\<lparr>os_signature := Some (e_sign E message skey)\<rparr>)
   }"

definition open_shares_verify_sig :: "('h, 'd) env \<Rightarrow> 'd OpenShares \<Rightarrow> bool option" where
  "open_shares_verify_sig E tx =
     check_normal_sig E (os_creator tx) (os_signature tx) (open_shares_sign_message E tx)"

definition open_shares_compute_address :: "('h, 'd) env \<Rightarrow> 'd OpenShares \<Rightarrow> 'd OpenShares" where
  "open_shares_compute_address E tx = tx\<lparr>os_address :=
     Some (shareholders_compute (e_rlp_encode E) (e_hash E) (sm_keys (e_iter E) (os_share_map tx))
       (os_creator tx) (os_nonce tx))\<rparr>"

definition open_shares_compute_stock_hash :: "('h, 'd) env \<Rightarrow> 'd OpenShares \<Rightarrow> 'd OpenShares" where
  "open_shares_compute_stock_hash E tx = tx\<lparr>os_stock_hash :=
     Some (e_hash E (encode_be_u64 (os_nonce tx) @
       e_rlp_encode E (map normal_to_bytes (sm_keys (e_iter E) (os_share_map tx)))))\<rparr>"

section \<open>Applying\<close>

definition allocate_shareholder ::
  "('h, 'd) env \<Rightarrow> hash \<Rightarrow> ShareMap \<Rightarrow> 'h \<Rightarrow> NormalAddress \<Rightarrow> 'h option" where
  "allocate_shareholder E stock_hash share_map t shareholder = do {
     shares \<leftarrow> sm_get share_map shareholder;
     let addr = normal_to_bytes shareholder;
     shareholder_nonce \<leftarrow> e_get E t (nonce_key E addr);
     t \<leftarrow> (if shareholder_nonce = None then e_insert E t (nonce_key E addr) zero_nonce else Some t);
     e_insert E t (cur_key E addr stock_hash) (encode_be_u32 shares)
   }"

definition allocate_shares :: "('h, 'd) env \<Rightarrow> hash \<Rightarrow> ShareMap \<Rightarrow> 'h \<Rightarrow> 'h option" where
  "allocate_shares E stock_hash share_map t =
     foldm (allocate_shareholder E stock_hash share_map) t (sm_keys (e_iter E) share_map)"

definition open_shares_before :: "('h, 'd) env \<Rightarrow> 'd OpenShares \<Rightarrow> u8 list \<Rightarrow> hash \<Rightarrow> 'h \<Rightarrow> 'h option" where
  "open_shares_before E tx address stock_hash t = do {
     t \<leftarrow> allocate_shares E stock_hash (os_share_map tx) t;
     e_insert E t (dot_key (e_hex E stock_hash) ''adr'') address
   }"

definition open_shares_after :: "('h, 'd) env \<Rightarrow> 'd OpenShares \<Rightarrow> u8 list \<Rightarrow> hash \<Rightarrow> 'h \<Rightarrow> 'h option" where
  "open_shares_after E tx address stock_hash t = do {
     t \<leftarrow> e_insert E t (dot_key (e_hex E address) ''s'') (shares_to_bytes (os_shares tx));
     t \<leftarrow> put_share_map E (dot_key (e_hex E address) ''sm'') (os_share_map tx) t;
     e_insert E t (dot_key (e_hex E address) ''sh'') stock_hash
   }"

definition open_shares_apply :: "('h, 'd) env \<Rightarrow> 'd OpenShares \<Rightarrow> 'h \<Rightarrow> 'h option" where
  "open_shares_apply E tx t = do {
     address \<leftarrow> os_address tx;
     stock_hash \<leftarrow> os_stock_hash tx;
     let address = shareholders_to_bytes address;
     open_account E (normal_to_bytes (os_creator tx)) address (os_asset_hash tx) (os_amount tx)
       (os_fee_hash tx) (os_fee tx) (open_shares_before E tx address stock_hash)
       (open_shares_after E tx address stock_hash) t
   }"

section \<open>The wire format\<close>

definition open_shares_to_bytes :: "('h, 'd) env \<Rightarrow> 'd OpenShares \<Rightarrow> TxError + u8 list" where
  "open_shares_to_bytes E tx = (case os_address tx of
       None \<Rightarrow> Inl (Msg ''Address field is missing'')
     | Some address \<Rightarrow> (case os_hash tx of
       None \<Rightarrow> Inl (Msg ''Hash field is missing'')
     | Some hash \<Rightarrow> (case os_stock_hash tx of
       None \<Rightarrow> Inl (Msg ''Stock hash field is missing'')
     | Some stock_hash \<Rightarrow> (case os_signature tx of
         None \<Rightarrow> Inl (Msg ''Signature field is missing'')
       | Some sig \<Rightarrow>
           (let amount = balance_to_bytes (e_dec E) (os_amount tx);
                fee = balance_to_bytes (e_dec E) (os_fee tx);
                shares = shares_to_bytes (os_shares tx);
                share_map = sm_to_bytes (e_rlp_encode E) (e_iter E) (os_share_map tx) in
            Inr ([OPEN_SHARES_TYPE, word_of_nat (length amount), word_of_nat (length fee)] @
              encode_be_u16 (word_of_nat (length shares)) @ encode_be_u16 (word_of_nat (length share_map)) @
              encode_be_u64 (os_nonce tx) @ stock_hash @ os_fee_hash tx @ os_asset_hash tx @
              normal_to_bytes (os_creator tx) @ shareholders_to_bytes address @ hash @
              sig_to_bytes sig @ amount @ fee @ shares @ share_map))))))"

definition open_shares_from_bytes :: "('h, 'd) env \<Rightarrow> u8 list \<Rightarrow> 'd OpenShares parsed" where
  "open_shares_from_bytes E bytes =
     attempt (tx_type OPEN_SHARES_TYPE bytes) (\<lambda>_.
     attempt (tx_u8 1 ''Bad amount len'' bytes) (\<lambda>amount_len.
     attempt (tx_u8 2 ''Bad fee len'' bytes) (\<lambda>fee_len.
     attempt (tx_u16 3 ''Bad shares len'' bytes) (\<lambda>shares_len.
     attempt (tx_u16 5 ''Bad share map len'' bytes) (\<lambda>share_map_len.
     attempt (tx_u64 7 ''Bad nonce'' bytes) (\<lambda>nonce.
     attempt (tx_drain 15 bytes) (\<lambda>(_, buf).
     attempt (field 32 buf) (\<lambda>(hash_vec, buf).
     attempt (to_hash hash_vec) (\<lambda>stock_hash.
     attempt (field 32 buf) (\<lambda>(hash_vec, buf).
     attempt (to_hash hash_vec) (\<lambda>fee_hash.
     attempt (field 32 buf) (\<lambda>(hash_vec, buf).
     attempt (to_hash hash_vec) (\<lambda>asset_hash.
     attempt (field 33 buf) (\<lambda>(creator_vec, buf).
     attempt (or_err (normal_from_bytes creator_vec)) (\<lambda>creator.
     attempt (field 33 buf) (\<lambda>(address_vec, buf).
     attempt (or_err (shareholders_from_bytes address_vec)) (\<lambda>address.
     attempt (field 32 buf) (\<lambda>(hash_vec, buf).
     attempt (to_hash hash_vec) (\<lambda>hash.
     attempt (field 65 buf) (\<lambda>(sig_vec, buf).
     attempt (or_err (sig_from_bytes sig_vec)) (\<lambda>signature.
     attempt (field (unat amount_len) buf) (\<lambda>(amount_vec, buf).
     attempt (or_msg ''Bad amount'' (balance_from_bytes (e_dec E) amount_vec)) (\<lambda>amount.
     attempt (field (unat fee_len) buf) (\<lambda>(fee_vec, buf).
     attempt (or_msg ''Bad fee'' (balance_from_bytes (e_dec E) fee_vec)) (\<lambda>fee.
     attempt (field (unat shares_len) buf) (\<lambda>(shares_vec, buf).
     attempt (or_msg ''Bad shares'' (Some (shares_from_bytes shares_vec))) (\<lambda>shares.
     attempt (last_field (unat share_map_len) buf) (\<lambda>share_map_vec.
     attempt (or_msg ''Bad share map'' (sm_from_bytes (e_rlp_decode E) share_map_vec)) (\<lambda>share_map.
     Some (Inr \<lparr>os_creator = creator, os_shares = shares, os_share_map = share_map, os_amount = amount,
       os_asset_hash = asset_hash, os_fee = fee, os_fee_hash = fee_hash, os_nonce = nonce,
       os_address = Some address, os_hash = Some hash, os_stock_hash = Some stock_hash,
       os_signature = Some signature\<rparr>))))))))))))))))))))))))))))))"

text \<open>The entries of the share map are taken in the order in which they are iterated over.\<close>

definition wf_open_shares :: "('h, 'd) env \<Rightarrow> 'd OpenShares \<Rightarrow> bool" where
  "wf_open_shares E tx \<longleftrightarrow> wf_normal (os_creator tx) \<and>
     wf_balance E (os_amount tx) \<and> wf_balance E (os_fee tx) \<and>
     length (os_asset_hash tx) = 32 \<and> length (os_fee_hash tx) = 32 \<and>
     (\<exists>a. os_address tx = Some a \<and> length (sh_inner a) = 32) \<and>
     (\<exists>h. os_hash tx = Some h \<and> length h = 32) \<and> (\<exists>h. os_stock_hash tx = Some h \<and> length h = 32) \<and>
     (\<exists>s. os_signature tx = Some s \<and> wf_sig s) \<and>
     sm_ok (os_share_map tx) \<and> (\<forall>(a, n) \<in> set (sm_entries (os_share_map tx)). wf_normal a) \<and>
     e_iter E (sm_entries (os_share_map tx)) = sm_entries (os_share_map tx) \<and>
     sm_to_bytes (e_rlp_encode E) (e_iter E) (os_share_map tx) \<noteq> [] \<and>
     length (sm_to_bytes (e_rlp_encode E) (e_iter E) (os_share_map tx)) < 2 ^ 16"

lemma share_map_wire:
  assumes "rlp_law E" "sm_ok sm" "\<forall>(a, n) \<in> set (sm_entries sm). wf_normal a" "e_iter E (sm_entries sm) = sm_entries sm"
  shows "sm_from_bytes (e_rlp_decode E) (sm_to_bytes (e_rlp_encode E) (e_iter E) sm) = Some (Inr sm)"
proof -
  have "total_shares (sm_entries sm) = unat (sm_issued sm)" using assms(2) by (simp add: sm_ok_def)
  moreover have "unat (sm_issued sm) < 2 ^ 32" using unsigned_less[of "sm_issued sm", where ?'a = nat] by simp
  ultimately show ?thesis
    using assms sm_from_entries_append[of "[]" "sm_entries sm" 0]
    by (simp add: sm_from_bytes_def sm_to_bytes_def rlp_law_def sm_new_def sm_ok_def)
qed

lemma header_15:
  assumes "bytes = [a, b, c] @ encode_be_u16 w @ encode_be_u16 v @ encode_be_u64 x @ body"
  shows "tx_type a bytes = Some (Inr ())" "tx_u8 1 m bytes = Some (Inr b)" "tx_u8 2 m bytes = Some (Inr c)"
    "tx_u16 3 m bytes = Some (Inr w)" "tx_u16 5 m bytes = Some (Inr v)" "tx_u64 7 m bytes = Some (Inr x)"
    "tx_drain 15 bytes = Some (Inr ([a, b, c] @ encode_be_u16 w @ encode_be_u16 v @ encode_be_u64 x, body))"
proof -
  show "tx_u16 5 m bytes = Some (Inr v)"
    by (rule read_at(1)[of _ _ _ "encode_be_u64 x @ body"]) (simp add: assms field_widths)
  show "tx_u64 7 m bytes = Some (Inr x)"
    by (rule read_at(2)[of _ _ _ body]) (simp add: assms field_widths)
  show "tx_drain 15 bytes = Some (Inr ([a, b, c] @ encode_be_u16 w @ encode_be_u16 v @ encode_be_u64 x, body))"
    using tx_drain_append[of "[a, b, c] @ encode_be_u16 w @ encode_be_u16 v @ encode_be_u64 x" 15 body]
    by (simp add: assms field_widths)
qed (use header_5[OF assms] in simp_all)

lemma open_shares_roundtrip:
  assumes "rlp_law E" "wf_open_shares E tx"
  shows "\<exists>bytes. open_shares_to_bytes E tx = Inr bytes \<and> open_shares_from_bytes E bytes = Some (Inr tx)"
proof -
  from assms(2) obtain a h g s where a: "os_address tx = Some a" "length (sh_inner a) = 32"
    and h: "os_hash tx = Some h" "length h = 32" "os_stock_hash tx = Some g" "length g = 32"
    and s: "os_signature tx = Some s" "wf_sig s"
    by (auto simp: wf_open_shares_def)
  let ?map = "sm_to_bytes (e_rlp_encode E) (e_iter E) (os_share_map tx)"
  let ?shares = "shares_to_bytes (os_shares tx)"
  define bytes where "bytes =
      [OPEN_SHARES_TYPE, word_of_nat (length (balance_to_bytes (e_dec E) (os_amount tx))),
        word_of_nat (length (balance_to_bytes (e_dec E) (os_fee tx)))] @
      encode_be_u16 (word_of_nat (length ?shares)) @ encode_be_u16 (word_of_nat (length ?map)) @
      encode_be_u64 (os_nonce tx) @ g @ os_fee_hash tx @ os_asset_hash tx @
      normal_to_bytes (os_creator tx) @ shareholders_to_bytes a @ h @ sig_to_bytes s @
      balance_to_bytes (e_dec E) (os_amount tx) @ balance_to_bytes (e_dec E) (os_fee tx) @ ?shares @ ?map"
  have to: "open_shares_to_bytes E tx = Inr bytes"
    using a h s by (simp add: open_shares_to_bytes_def bytes_def Let_def)
  have ne: "shareholders_to_bytes a \<noteq> []" "normal_to_bytes (os_creator tx) \<noteq> []" "os_asset_hash tx \<noteq> []"
      "os_fee_hash tx \<noteq> []" "h \<noteq> []" "g \<noteq> []" "?shares \<noteq> []"
    using assms(2) h by (auto simp: wf_open_shares_def shareholders_to_bytes_def normal_to_bytes_def
        shares_to_bytes_def encode_u8_def)
  have "length ?shares = 9" by (simp add: shares_to_bytes_def u8.enc_width be_u32.enc_width)
  moreover have "shares_from_bytes ?shares = Inr (os_shares tx)" using shares_codec by blast
  moreover have "sm_from_bytes (e_rlp_decode E) ?map = Some (Inr (os_share_map tx))"
    using assms by (intro share_map_wire) (simp_all add: wf_open_shares_def)
  ultimately have "open_shares_from_bytes E bytes = Some (Inr tx)"
    using assms a h s ne
    by (simp add: open_shares_from_bytes_def header_15[OF bytes_def] wf_open_shares_def wire_simps del: One_nat_def)
  with to show ?thesis by blast
qed

lemma open_shares_bytes_tag:
  "open_shares_to_bytes E tx = Inr bytes \<Longrightarrow> \<exists>rest. bytes = OPEN_SHARES_TYPE # rest"
  by (auto simp: open_shares_to_bytes_def Let_def split: option.split_asm)

lemma open_shares_parsed_tag:
  "open_shares_from_bytes E bytes = Some (Inr tx) \<Longrightarrow> \<exists>rest. bytes = OPEN_SHARES_TYPE # rest"
  unfolding open_shares_from_bytes_def by (rule attempt_type)

interpretation open_shares: tx_codec "open_shares_to_bytes E" "open_shares_from_bytes E"
  "\<lambda>tx. rlp_law E \<and> wf_open_shares E tx" OPEN_SHARES_TYPE
  for E :: "('h, 'd) env"
  by unfold_locales (auto simp: open_shares_roundtrip dest: open_shares_bytes_tag open_shares_parsed_tag)

section \<open>What opening does\<close>

lemma allocate_step:
  assumes laws: "trie_law E" "hex_law E" and run: "allocate_shareholder E stock sm t a = Some u"
  obtains v where "sm_get sm a = Some v"
    "e_get E u (cur_key E (normal_to_bytes a) stock) = Some (Some (encode_be_u32 v))"
    "\<forall>k. k \<noteq> cur_key E (normal_to_bytes a) stock \<and> k \<noteq> nonce_key E (normal_to_bytes a) \<longrightarrow> e_get E u k = e_get E t k"
proof -
  from run obtain v r t1 where v: "sm_get sm a = Some v"
    and t1: "(if r then e_insert E t (nonce_key E (normal_to_bytes a)) zero_nonce else Some t) = Some t1"
    and u: "e_insert E t1 (cur_key E (normal_to_bytes a) stock) (encode_be_u32 v) = Some u"
    by (simp add: allocate_shareholder_def Let_def bind_eq_Some_conv split del: if_split)
      (elim exE conjE, rule that, assumption+)
  have t1': "e_get E t1 k = e_get E t k" if "k \<noteq> nonce_key E (normal_to_bytes a)" for k
    using t1 that trie_law_insert[OF laws(1), of t "nonce_key E (normal_to_bytes a)" zero_nonce t1] by (auto split: if_split_asm)
  show thesis
    using trie_law_insert[OF laws(1) u] t1' by (intro that[OF v]) simp_all
qed

lemma allocate_frame:
  assumes laws: "trie_law E" "hex_law E"
    and run: "foldm (allocate_shareholder E stock sm) t as = Some t'"
    and k: "\<And>a. a \<in> set as \<Longrightarrow> k \<noteq> cur_key E (normal_to_bytes a) stock \<and> k \<noteq> nonce_key E (normal_to_bytes a)"
  shows "e_get E t' k = e_get E t k"
  using run k
proof (induction "as" arbitrary: t)
  case (Cons a "as")
  from Cons.prems(1) obtain u where u: "allocate_shareholder E stock sm t a = Some u"
    and rest: "foldm (allocate_shareholder E stock sm) u as = Some t'"
    by (auto simp: bind_eq_Some_conv)
  from laws u obtain v where "\<forall>k. k \<noteq> cur_key E (normal_to_bytes a) stock \<and>
      k \<noteq> nonce_key E (normal_to_bytes a) \<longrightarrow> e_get E u k = e_get E t k"
    by (rule allocate_step)
  with Cons.IH[OF rest] Cons.prems(2) show ?case by simp
qed simp

lemma allocated:
  assumes laws: "trie_law E" "hex_law E"
    and run: "foldm (allocate_shareholder E stock sm) t as = Some t'" and d: "distinct as" "a \<in> set as"
  shows "\<exists>v. sm_get sm a = Some v \<and> e_get E t' (cur_key E (normal_to_bytes a) stock) = Some (Some (encode_be_u32 v))"
  using run d
proof (induction "as" arbitrary: t)
  case (Cons b "as")
  from Cons.prems(1) obtain u where u: "allocate_shareholder E stock sm t b = Some u"
    and rest: "foldm (allocate_shareholder E stock sm) u as = Some t'"
    by (auto simp: bind_eq_Some_conv)
  show ?case
  proof (cases "a = b")
    case True
    from laws u obtain v where v: "sm_get sm a = Some v"
      "e_get E u (cur_key E (normal_to_bytes a) stock) = Some (Some (encode_be_u32 v))"
      unfolding True by (rule allocate_step)
    have "normal_to_bytes a \<noteq> normal_to_bytes c" if "c \<in> set as" for c
      using that Cons.prems(2) True by (cases a; cases c) (auto simp: normal_to_bytes_def)
    then have "e_get E t' (cur_key E (normal_to_bytes a) stock) = e_get E u (cur_key E (normal_to_bytes a) stock)"
      by (intro allocate_frame[OF laws rest]) (simp add: keys_distinct[OF laws(2)])
    with v show ?thesis by simp
  next
    case False
    with Cons.prems(2,3) show ?thesis by (intro Cons.IH[OF rest]) auto
  qed
qed simp

text \<open>
  After a company is opened its stock is known as such, every shareholder owns the shares of the
  share map, and the shares and the share map are stored.
\<close>

lemma open_shares_opens:
  assumes laws: "trie_law E" "hex_law E" "decimal_law E val" "\<And>xs. e_rlp_encode E xs \<noteq> []"
      "\<And>es. mset (e_iter E es) = mset es"
    and run: "open_shares_apply E tx t = Some t'" and a: "os_address tx = Some a" "os_stock_hash tx = Some g" "g \<noteq> []"
    and stock: "g \<noteq> os_asset_hash tx" "g \<noteq> os_fee_hash tx"
    and sm: "distinct (map fst (sm_entries (os_share_map tx)))"
  shows "e_get E t' (dot_key (e_hex E g) ''adr'') = Some (Some (shareholders_to_bytes a))"
    "(b, v) \<in> set (sm_entries (os_share_map tx)) \<Longrightarrow>
      e_get E t' (cur_key E (normal_to_bytes b) g) = Some (Some (encode_be_u32 v))"
    "e_get E t' (dot_key (e_hex E (shareholders_to_bytes a)) ''s'') = Some (Some (shares_to_bytes (os_shares tx)))"
    "e_get E t' (dot_key (e_hex E (shareholders_to_bytes a)) ''sm'') =
      Some (Some (sm_to_bytes (e_rlp_encode E) (e_iter E) (os_share_map tx)))"
proof -
  let ?a = "shareholders_to_bytes a"
  note k = asset_key[OF laws(2)] asset_key[OF laws(2), THEN not_sym] dot_key_hex[OF laws(2)] keys_distinct[OF laws(2)]
  note upd = trie_law_insert[OF laws(1)] put_balance_get[OF laws(1,3)]
  have bytes: "shares_to_bytes x \<noteq> []" "sm_to_bytes (e_rlp_encode E) (e_iter E) m \<noteq> []" "?a \<noteq> []" for x m
    using laws(4) by (simp_all add: shares_to_bytes_def encode_u8_def sm_to_bytes_def shareholders_to_bytes_def)
  have open': "open_account E (normal_to_bytes (os_creator tx)) ?a (os_asset_hash tx) (os_amount tx)
      (os_fee_hash tx) (os_fee tx) (open_shares_before E tx ?a g) (open_shares_after E tx ?a g) t = Some t'"
    using run a by (simp add: open_shares_apply_def Let_def)
  from open' laws(2) obtain p u where p: "open_shares_before E tx ?a g t = Some p"
    and u: "open_shares_after E tx ?a g u = Some t'"
    and pu: "\<And>s. s \<in> {''s'', ''x'', ''m'', ''p'', ''sm'', ''adr'', ''sh''} \<Longrightarrow> e_get E u (dot_key (e_hex E g) s) = e_get E p (dot_key (e_hex E g) s)"
      "\<And>c. e_get E u (cur_key E c g) = e_get E p (cur_key E c g)"
  proof (cases rule: open_account_cases)
    case (one bin n b b1 b2 p u1 u2 u3 u4)
    note get = put_balance_get[OF laws(1,3) one(7)] put_balance_get[OF laws(1,3) one(8)]
      trie_law_insert[OF laws(1) one(9) next_nonce_not_empty[OF one(2)]] trie_law_insert[OF laws(1) one(10)]
    show thesis by (rule that[OF one(6,11)]) (use stock in \<open>simp_all add: get k\<close>)
  next
    case (two bin n c f f1 c1 p u0 u1 u2 u3 u4)
    note get = put_balance_get[OF laws(1,3) two(8)] put_balance_get[OF laws(1,3) two(9)] put_balance_get[OF laws(1,3) two(10)]
      trie_law_insert[OF laws(1) two(11) next_nonce_not_empty[OF two(2)]] trie_law_insert[OF laws(1) two(12)]
    show thesis by (rule that[OF two(7,13)]) (use stock in \<open>simp_all add: get k\<close>)
  qed
  from p obtain w where w: "foldm (allocate_shareholder E g (os_share_map tx)) t (sm_keys (e_iter E) (os_share_map tx)) = Some w"
    and adr: "e_insert E w (dot_key (e_hex E g) ''adr'') ?a = Some p"
    by (auto simp: open_shares_before_def allocate_shares_def bind_eq_Some_conv)
  from u obtain x y where x: "e_insert E u (dot_key (e_hex E ?a) ''s'') (shares_to_bytes (os_shares tx)) = Some x"
    and y: "e_insert E x (dot_key (e_hex E ?a) ''sm'') (sm_to_bytes (e_rlp_encode E) (e_iter E) (os_share_map tx)) = Some y"
    and z: "e_insert E y (dot_key (e_hex E ?a) ''sh'') g = Some t'"
    by (auto simp: open_shares_after_def put_share_map_def bind_eq_Some_conv)
  note after = trie_law_insert[OF laws(1) x bytes(1)] trie_law_insert[OF laws(1) y bytes(2)] trie_law_insert[OF laws(1) z a(3)]
  show "e_get E t' (dot_key (e_hex E ?a) ''s'') = Some (Some (shares_to_bytes (os_shares tx)))"
    "e_get E t' (dot_key (e_hex E ?a) ''sm'') = Some (Some (sm_to_bytes (e_rlp_encode E) (e_iter E) (os_share_map tx)))"
    by (simp_all add: after k)
  show "e_get E t' (dot_key (e_hex E g) ''adr'') = Some (Some ?a)"
    by (simp add: after k pu(1) trie_law_insert[OF laws(1) adr bytes(3)])
  show "e_get E t' (cur_key E (normal_to_bytes b) g) = Some (Some (encode_be_u32 v))"
    if mem: "(b, v) \<in> set (sm_entries (os_share_map tx))"
  proof -
    have iter: "mset (e_iter E (sm_entries (os_share_map tx))) = mset (sm_entries (os_share_map tx))" by (rule laws(5))
    then have "distinct (sm_keys (e_iter E) (os_share_map tx))" "b \<in> set (sm_keys (e_iter E) (os_share_map tx))"
      using sm mem unfolding sm_keys_def by (metis mset_map mset_eq_imp_distinct_iff, metis fst_conv image_eqI list.set_map mset_eq_setD)
    from allocated[OF laws(1,2) w this] mem sm show ?thesis
      by (simp add: after k pu(2) trie_law_insert[OF laws(1) adr bytes(3)] sm_get_def)
  qed
qed

end
