(* ===== verification/Tx_Open_Contract.thy ===== *)
theory Tx_Open_Contract
  imports Tx_Open
begin

text \<open>\<open>transactions/src/open_contract.rs\<close>: a new contract account with its code and state.\<close>

record 'd OpenContract =
  oc_owner :: Account_Address
  oc_code :: "u8 list"
  oc_default_state :: "u8 list"
  oc_amount :: "'d Balance"
  oc_asset_hash :: hash
  oc_fee :: "'d Balance"
  oc_fee_hash :: hash
  oc_self_payable :: bool
  oc_nonce :: u64
  oc_address :: "ContractAddress option"
  oc_hash :: "hash option"
  oc_signature :: "Account_Signature option"

definition OPEN_CONTRACT_TYPE :: u8 where
  "OPEN_CONTRACT_TYPE = 2"

section \<open>Signing and hashing\<close>

definition payable_byte :: "bool \<Rightarrow> u8" where
  "payable_byte b = (if b then 1 else 0)"

definition open_contract_sign_message :: "('h, 'd) env \<Rightarrow> 'd OpenContract \<Rightarrow> u8 list" where
  "open_contract_sign_message E tx = [payable_byte (oc_self_payable tx)] @ address_to_bytes (oc_owner tx) @
     oc_fee_hash tx @ oc_code tx @ oc_default_state tx @ balance_to_bytes (e_dec E) (oc_fee tx)"

definition open_contract_hash_message :: "('h, 'd) env \<Rightarrow> 'd OpenContract \<Rightarrow> u8 list option" where
  "open_contract_hash_message E tx = do {
     signature \<leftarrow> oc_signature tx;
     Some ([payable_byte (oc_self_payable tx)] @ address_to_bytes (oc_owner tx) @ oc_fee_hash tx @
       oc_code tx @ oc_default_state tx @ balance_to_bytes (e_dec E) (oc_fee tx) @
       signature_to_bytes (e_rlp_encode E) signature)
   }"

definition open_contract_set_hash :: "('h, 'd) env \<Rightarrow> 'd OpenContract \<Rightarrow> 'd OpenContract option" where
  "open_contract_set_hash E tx = do {
     message \<leftarrow> open_contract_hash_message E tx;
     Some (tx\<lparr>oc_hash := Some (e_hash E message)\<rparr>)
   }"

definition open_contract_verify_hash :: "('h, 'd) env \<Rightarrow> 'd OpenContract \<Rightarrow> bool option" where
  "open_contract_verify_hash E tx = check_hash E (oc_hash tx) (open_contract_hash_message E tx)"

lemma open_contract_hash_verifies:
  "open_contract_set_hash E tx = Some tx' \<Longrightarrow> open_contract_verify_hash E tx' = Some True"
  by (auto simp: open_contract_set_hash_def open_contract_verify_hash_def open_contract_hash_message_def
      check_hash_def bind_eq_Some_conv)

definition open_contract_sign :: "('h, 'd) env \<Rightarrow> u8 list \<Rightarrow> 'd OpenContract \<Rightarrow> 'd OpenContract option" where
  "open_contract_sign E skey tx = do {
     signature \<leftarrow> attach_signature (oc_owner tx) (oc_signature tx) (e_sign E (open_contract_sign_message E tx) skey);
     Some (tx\<lparr>oc_signature := signature\<rparr>)
   }"

definition open_contract_verify_sig :: "('h, 'd) env \<Rightarrow> 'd OpenContract \<Rightarrow> bool option" where
  "open_contract_verify_sig E tx = check_sig E (oc_owner tx) (oc_signature tx) (open_contract_sign_message E tx)"

definition open_contract_verify_multi_sig ::
  "('h, 'd) env \<Rightarrow> 'd OpenContract \<Rightarrow> u8 \<Rightarrow> u8 list list \<Rightarrow> bool option" where
  "open_contract_verify_multi_sig E tx required_keys pkeys =
     check_multi_sig E (oc_signature tx) (open_contract_sign_message E tx) required_keys pkeys"

definition open_contract_verify_multi_sig_shares ::
  "('h, 'd) env \<Rightarrow> 'd OpenContract \<Rightarrow> u8 \<Rightarrow> ShareMap \<Rightarrow> bool option" where
  "open_contract_verify_multi_sig_shares E tx percentile sm =
     check_shares E (oc_signature tx) (open_contract_sign_message E tx) percentile sm"

definition open_contract_compute_address :: "('h, 'd) env \<Rightarrow> 'd OpenContract \<Rightarrow> 'd OpenContract" where
  "open_contract_compute_address E tx = tx\<lparr>oc_address := Some (ContractAddress (e_hash E
     (encode_be_u64 (oc_nonce tx) @ address_to_bytes (oc_owner tx) @ oc_code tx @ oc_default_state tx)))\<rparr>"

section \<open>Applying\<close>

definition open_contract_entries :: "('h, 'd) env \<Rightarrow> 'd OpenContract \<Rightarrow> u8 list \<Rightarrow> 'h \<Rightarrow> 'h option" where
  "open_contract_entries E tx address t = do {
     t \<leftarrow> e_insert E t (dot_key (e_hex E address) ''y'') [payable_byte (oc_self_payable tx)];
     t \<leftarrow> e_insert E t (dot_key (e_hex E address) ''q'') (oc_default_state tx);
     e_insert E t (dot_key (e_hex E address) ''c'') (oc_code tx)
   }"

definition open_contract_apply :: "('h, 'd) env \<Rightarrow> 'd OpenContract \<Rightarrow> 'h \<Rightarrow> 'h option" where
  "open_contract_apply E tx t = do {
     address \<leftarrow> oc_address tx;
     let address = contract_to_bytes address;
     open_account E (address_to_bytes (oc_owner tx)) address (oc_asset_hash tx) (oc_amount tx)
       (oc_fee_hash tx) (oc_fee tx) (open_contract_entries E tx address) Some t
   }"

section \<open>The wire format\<close>

definition open_contract_to_bytes :: "('h, 'd) env \<Rightarrow> 'd OpenContract \<Rightarrow> TxError + u8 list" where
  "open_contract_to_bytes E tx = (case oc_address tx of
       None \<Rightarrow> Inl (Msg ''Address field is missing'')
     | Some address \<Rightarrow> (case oc_hash tx of
       None \<Rightarrow> Inl (Msg ''Hash field is missing'')
     | Some hash \<Rightarrow> (case oc_signature tx of
         None \<Rightarrow> Inl (Msg ''Signature field is missing'')
       | Some sig \<Rightarrow>
           (let signature = signature_to_bytes (e_rlp_encode E) sig;
                amount = balance_to_bytes (e_dec E) (oc_amount tx);
                fee = balance_to_bytes (e_dec E) (oc_fee tx) in
            Inr ([OPEN_CONTRACT_TYPE, payable_byte (oc_self_payable tx), word_of_nat (length amount), word_of_nat (length fee)] @
              encode_be_u16 (word_of_nat (length signature)) @ encode_be_u16 (word_of_nat (length (oc_default_state tx))) @
              encode_be_u16 (word_of_nat (length (oc_code tx))) @ encode_be_u64 (oc_nonce tx) @
              address_to_bytes (oc_owner tx) @ contract_to_bytes address @ oc_asset_hash tx @ oc_fee_hash tx @
              hash @ signature @ amount @ fee @ oc_default_state tx @ oc_code tx)))))"

definition tx_bool :: "nat \<Rightarrow> string \<Rightarrow> string \<Rightarrow> u8 list \<Rightarrow> bool parsed" where
  "tx_bool p bad missing bytes = attempt (tx_u8 p missing bytes) (\<lambda>b.
     if b = 0 then Some (Inr False) else if b = 1 then Some (Inr True) else fail bad)"

definition open_contract_from_bytes :: "('h, 'd) env \<Rightarrow> u8 list \<Rightarrow> 'd OpenContract parsed" where
  "open_contract_from_bytes E bytes =
     attempt (tx_type OPEN_CONTRACT_TYPE bytes) (\<lambda>_.
     attempt (tx_bool 1 ''Invalid self payable field'' ''Bad self payable field'' bytes) (\<lambda>self_payable.
     attempt (tx_u8 2 ''Bad amount len'' bytes) (\<lambda>amount_len.
     attempt (tx_u8 3 ''Bad fee len'' bytes) (\<lambda>fee_len.
     attempt (tx_u16 4 ''Bad signature len'' bytes) (\<lambda>signature_len.
     attempt (tx_u16 6 ''Bad state len'' bytes) (\<lambda>state_len.
     attempt (tx_u16 8 ''Bad code len'' bytes) (\<lambda>code_len.
     attempt (tx_u64 10 ''Bad nonce'' bytes) (\<lambda>nonce.
     attempt (tx_drain 18 bytes) (\<lambda>(_, buf).
     attempt (field_msg ''Incorrect packet structure! Buffer size is smaller than the size for the owner field'' 33 buf) (\<lambda>(owner_vec, buf).
     attempt (or_err (address_from_bytes owner_vec)) (\<lambda>owner.
     attempt (field_msg ''Incorrect packet structure! Buffer size is smaller than the size for the owner field'' 33 buf) (\<lambda>(address_vec, buf).
     attempt (or_err (contract_from_bytes address_vec)) (\<lambda>address.
     attempt (field_msg ''Incorrect packet structure! Buffer size is smaller than the size for the fee hash field'' 32 buf) (\<lambda>(hash_vec, buf).
     attempt (to_hash hash_vec) (\<lambda>asset_hash.
     attempt (field_msg ''Incorrect packet structure! Buffer size is smaller than the size for the fee hash field'' 32 buf) (\<lambda>(hash_vec, buf).
     attempt (to_hash hash_vec) (\<lambda>fee_hash.
     attempt (field_msg ''Incorrect packet structure! Buffer size is smaller than the size for the hash field'' 32 buf) (\<lambda>(hash_vec, buf).
     attempt (to_hash hash_vec) (\<lambda>hash.
     attempt (field_msg ''Incorrect packet structure! Buffer size is smaller than the size of the signature field'' (unat signature_len) buf) (\<lambda>(sig_vec, buf).
     attempt (or_err (signature_from_bytes (e_rlp_decode E) sig_vec)) (\<lambda>signature.
     attempt (field_upto ''Incorrect packet structure! Buffer size is smaller than the size for the fee field'' (unat amount_len) buf) (\<lambda>(amount_vec, buf).
     attempt (or_msg ''Bad amount'' (balance_from_bytes (e_dec E) amount_vec)) (\<lambda>amount.
     attempt (field_upto ''Incorrect packet structure! Buffer size is smaller than the size for the fee field'' (unat fee_len) buf) (\<lambda>(fee_vec, buf).
     attempt (or_msg ''Bad fee'' (balance_from_bytes (e_dec E) fee_vec)) (\<lambda>fee.
     attempt (field_upto ''Incorrect packet structure! Buffer size is smaller than the size for the default state field'' (unat state_len) buf) (\<lambda>(default_state, buf).
     attempt (last_field_msg ''Incorrect packet structure! Buffer size is not equal with the size for the code field'' (unat code_len) buf) (\<lambda>code.
     Some (Inr \<lparr>oc_owner = owner, oc_code = code, oc_default_state = default_state, oc_amount = amount,
       oc_asset_hash = asset_hash, oc_fee = fee, oc_fee_hash = fee_hash, oc_self_payable = self_payable,
       oc_nonce = nonce, oc_address = Some address, oc_hash = Some hash,
       oc_signature = Some signature\<rparr>))))))))))))))))))))))))))))"

definition wf_open_contract :: "('h, 'd) env \<Rightarrow> 'd OpenContract \<Rightarrow> bool" where
  "wf_open_contract E tx \<longleftrightarrow> wf_address (oc_owner tx) \<and>
     wf_balance E (oc_amount tx) \<and> wf_balance E (oc_fee tx) \<and>
     length (oc_asset_hash tx) = 32 \<and> length (oc_fee_hash tx) = 32 \<and>
     length (oc_default_state tx) < 2 ^ 16 \<and> length (oc_code tx) < 2 ^ 16 \<and>
     (\<exists>a. oc_address tx = Some a \<and> length (contract_inner a) = 32) \<and>
     (\<exists>h. oc_hash tx = Some h \<and> length h = 32) \<and>
     (\<exists>s. oc_signature tx = Some s \<and> wf_signature s \<and>
        length (signature_to_bytes (e_rlp_encode E) s) < 2 ^ 16)"

lemma header_18:
  assumes "bytes = [a, payable_byte b, c, d] @ encode_be_u16 w @ encode_be_u16 v @ encode_be_u16 u @ encode_be_u64 x @ body"
  shows "tx_type a bytes = Some (Inr ())" "tx_bool 1 m m' bytes = Some (Inr b)" "tx_u8 2 m bytes = Some (Inr c)"
    "tx_u8 3 m bytes = Some (Inr d)" "tx_u16 4 m bytes = Some (Inr w)" "tx_u16 6 m bytes = Some (Inr v)"
    "tx_u16 8 m bytes = Some (Inr u)" "tx_u64 10 m bytes = Some (Inr x)"
    "tx_drain 18 bytes = Some (Inr ([a, payable_byte b, c, d] @ encode_be_u16 w @ encode_be_u16 v @ encode_be_u16 u @ encode_be_u64 x, body))"
proof -
  show "tx_u16 4 m bytes = Some (Inr w)"
    by (rule read_at(1)[of _ _ _ "encode_be_u16 v @ encode_be_u16 u @ encode_be_u64 x @ body"]) (simp add: assms)
  show "tx_u16 6 m bytes = Some (Inr v)"
    by (rule read_at(1)[of _ _ _ "encode_be_u16 u @ encode_be_u64 x @ body"]) (simp add: assms field_widths)
  show "tx_u16 8 m bytes = Some (Inr u)"
    by (rule read_at(1)[of _ _ _ "encode_be_u64 x @ body"]) (simp add: assms field_widths)
  show "tx_u64 10 m bytes = Some (Inr x)"
    by (rule read_at(2)[of _ _ _ body]) (simp add: assms field_widths)
  show "tx_drain 18 bytes = Some (Inr ([a, payable_byte b, c, d] @ encode_be_u16 w @ encode_be_u16 v @ encode_be_u16 u @ encode_be_u64 x, body))"
    using tx_drain_append[of "[a, payable_byte b, c, d] @ encode_be_u16 w @ encode_be_u16 v @ encode_be_u16 u @ encode_be_u64 x" 18 body]
    by (simp add: assms field_widths)
qed (simp_all add: assms tx_type_def tx_u8_def tx_bool_def payable_byte_def numeral_3_eq_3)

lemma open_contract_roundtrip:
  assumes "rlp_law E" "wf_open_contract E tx"
  shows "\<exists>bytes. open_contract_to_bytes E tx = Inr bytes \<and> open_contract_from_bytes E bytes = Some (Inr tx)"
proof -
  from assms(2) obtain a h s where a: "oc_address tx = Some a" "length (contract_inner a) = 32"
    and h: "oc_hash tx = Some h" "length h = 32"
    and s: "oc_signature tx = Some s" "wf_signature s" "length (signature_to_bytes (e_rlp_encode E) s) < 2 ^ 16"
    by (auto simp: wf_open_contract_def)
  define bytes where "bytes =
      [OPEN_CONTRACT_TYPE, payable_byte (oc_self_payable tx), word_of_nat (length (balance_to_bytes (e_dec E) (oc_amount tx))),
        word_of_nat (length (balance_to_bytes (e_dec E) (oc_fee tx)))] @
      encode_be_u16 (word_of_nat (length (signature_to_bytes (e_rlp_encode E) s))) @
      encode_be_u16 (word_of_nat (length (oc_default_state tx))) @
      encode_be_u16 (word_of_nat (length (oc_code tx))) @ encode_be_u64 (oc_nonce tx) @
      address_to_bytes (oc_owner tx) @ contract_to_bytes a @ oc_asset_hash tx @ oc_fee_hash tx @
      h @ signature_to_bytes (e_rlp_encode E) s @ balance_to_bytes (e_dec E) (oc_amount tx) @
      balance_to_bytes (e_dec E) (oc_fee tx) @ oc_default_state tx @ oc_code tx"
  have to: "open_contract_to_bytes E tx = Inr bytes"
    using a h s by (simp add: open_contract_to_bytes_def bytes_def Let_def)
  have "contract_to_bytes a \<noteq> []" "oc_asset_hash tx \<noteq> []" "oc_fee_hash tx \<noteq> []" "h \<noteq> []"
    using assms(2) h by (auto simp: wf_open_contract_def contract_to_bytes_def)
  then have "open_contract_from_bytes E bytes = Some (Inr tx)"
    using assms a h s
    by (simp add: open_contract_from_bytes_def header_18[OF bytes_def] wf_open_contract_def wire_simps
        contract.dec_enc contract.enc_width del: One_nat_def)
  with to show ?thesis by blast
qed

lemma open_contract_bytes_tag:
  "open_contract_to_bytes E tx = Inr bytes \<Longrightarrow> \<exists>rest. bytes = OPEN_CONTRACT_TYPE # rest"
  by (auto simp: open_contract_to_bytes_def Let_def split: option.split_asm)

lemma open_contract_parsed_tag:
  "open_contract_from_bytes E bytes = Some (Inr tx) \<Longrightarrow> \<exists>rest. bytes = OPEN_CONTRACT_TYPE # rest"
  unfolding open_contract_from_bytes_def by (rule attempt_type)

interpretation open_contract: tx_codec "open_contract_to_bytes E" "open_contract_from_bytes E"
  "\<lambda>tx. rlp_law E \<and> wf_open_contract E tx" OPEN_CONTRACT_TYPE
  for E :: "('h, 'd) env"
  by unfold_locales (auto simp: open_contract_roundtrip dest: open_contract_bytes_tag open_contract_parsed_tag)

section \<open>What opening does\<close>

lemma contract_entry:
  assumes "hex_law E" "s \<in> {''y'', ''q'', ''c''}"
  shows "cur_key E b x \<noteq> dot_key (e_hex E a) s"
proof
  assume "cur_key E b x = dot_key (e_hex E a) s"
  with assms(1) have "e_hex E x = s" by (simp add: cur_key_def dot_key_hex)
  moreover have "length (e_hex E x) = 2 * length x" using assms(1) by (simp add: hex_law_def)
  ultimately have "even (length s)" by simp
  with assms(2) show False by auto
qed

lemma open_contract_stored:
  assumes laws: "trie_law E" "hex_law E" "decimal_law E val"
    and run: "open_contract_apply E tx t = Some t'" and a: "oc_address tx = Some a"
    and new: "e_get E t (cur_key E (contract_to_bytes a) (oc_asset_hash tx)) = Some None"
      "address_to_bytes (oc_owner tx) \<noteq> contract_to_bytes a"
    and code: "oc_default_state tx \<noteq> []" "oc_code tx \<noteq> []"
  shows "stored E val t' (cur_key E addr asset) = stored E val t (cur_key E addr asset) +
    open_delta (address_to_bytes (oc_owner tx)) (contract_to_bytes a) (oc_asset_hash tx)
      (val (balance_inner (oc_amount tx))) (oc_fee_hash tx) (val (balance_inner (oc_fee tx))) addr asset"
proof (rule open_account_stored[OF laws])
  show "open_account E (address_to_bytes (oc_owner tx)) (contract_to_bytes a) (oc_asset_hash tx) (oc_amount tx)
      (oc_fee_hash tx) (oc_fee tx) (open_contract_entries E tx (contract_to_bytes a)) Some t = Some t'"
    using run a by (simp add: open_contract_apply_def Let_def)
  show "stored E val p (cur_key E addr asset) = stored E val t (cur_key E addr asset)"
    if "open_contract_entries E tx (contract_to_bytes a) t = Some p" for p
    using that code contract_entry[OF laws(2)]
    by (intro stored_eq) (auto simp: open_contract_entries_def bind_eq_Some_conv dest!: insert_frame[OF laws(1)])
qed (use new in simp_all)

section \<open>What the signature covers\<close>

text \<open>
  Neither the first balance of the contract, nor its currency, nor the address are part of the
  signed message, so they can be replaced without invalidating the signature or the hash.
\<close>

lemma open_contract_unsigned:
  "open_contract_verify_sig E (tx\<lparr>oc_amount := x, oc_asset_hash := y, oc_address := z, oc_nonce := n\<rparr>) =
     open_contract_verify_sig E tx"
  "open_contract_verify_hash E (tx\<lparr>oc_amount := x, oc_asset_hash := y, oc_address := z, oc_nonce := n\<rparr>) =
     open_contract_verify_hash E tx"
  by (simp_all add: open_contract_verify_sig_def open_contract_sign_message_def open_contract_verify_hash_def
      open_contract_hash_message_def)

end
