(* ===== verification/Tx_Call.thy ===== *)
theory Tx_Call
  imports Tx_Open Gas
begin

text \<open>\<open>transactions/src/call.rs\<close>: a call of a contract; the source has no \<open>apply\<close> yet.\<close>

record 'd Call =
  cl_from :: Account_Address
  cl_to :: ContractAddress
  cl_inputs :: string
  cl_amount :: "'d Balance"
  cl_fee :: "'d Balance"
  cl_gas_price :: "'d Balance"
  cl_gas_limit :: "'d Gas"
  cl_asset_hash :: hash
  cl_fee_hash :: hash
  cl_hash :: "hash option"
  cl_signature :: "Account_Signature option"

definition CALL_TYPE :: u8 where
  "CALL_TYPE = 1"

section \<open>Signing and hashing\<close>

definition call_sign_message :: "('h, 'd) env \<Rightarrow> 'd Call \<Rightarrow> u8 list" where
  "call_sign_message E tx = address_to_bytes (cl_from tx) @ contract_to_bytes (cl_to tx) @ cl_asset_hash tx @ cl_fee_hash tx @
     balance_to_bytes (e_dec E) (cl_amount tx) @ balance_to_bytes (e_dec E) (cl_fee tx) @
     gas_to_bytes (d_print (e_dec E)) (cl_gas_limit tx) @ balance_to_bytes (e_dec E) (cl_gas_price tx) @
     as_bytes (cl_inputs tx)"

definition call_hash_message :: "('h, 'd) env \<Rightarrow> 'd Call \<Rightarrow> u8 list option" where
  "call_hash_message E tx = do {
     signature \<leftarrow> cl_signature tx;
     Some (address_to_bytes (cl_from tx) @ contract_to_bytes (cl_to tx) @ cl_asset_hash tx @ cl_fee_hash tx @
     balance_to_bytes (e_dec E) (cl_amount tx) @ balance_to_bytes (e_dec E) (cl_fee tx) @
     gas_to_bytes (d_print (e_dec E)) (cl_gas_limit tx) @ balance_to_bytes (e_dec E) (cl_gas_price tx) @
     as_bytes (cl_inputs tx) @
       signature_to_bytes (e_rlp_encode E) signature)
   }"

definition call_set_hash :: "('h, 'd) env \<Rightarrow> 'd Call \<Rightarrow> 'd Call option" where
  "call_set_hash E tx = do {
     message \<leftarrow> call_hash_message E tx;
     Some (tx\<lparr>cl_hash := Some (e_hash E message)\<rparr>)
   }"

definition call_verify_hash :: "('h, 'd) env \<Rightarrow> 'd Call \<Rightarrow> bool option" where
  "call_verify_hash E tx = check_hash E (cl_hash tx) (call_hash_message E tx)"

lemma call_hash_verifies: "call_set_hash E tx = Some tx' \<Longrightarrow> call_verify_hash E tx' = Some True"
  by (auto simp: call_set_hash_def call_verify_hash_def call_hash_message_def check_hash_def bind_eq_Some_conv)

definition call_sign :: "('h, 'd) env \<Rightarrow> u8 list \<Rightarrow> 'd Call \<Rightarrow> 'd Call option" where
  "call_sign E skey tx = do {
     signature \<leftarrow> attach_signature (cl_from tx) (cl_signature tx) (e_sign E (call_sign_message E tx) skey);
     Some (tx\<lparr>cl_signature := signature\<rparr>)
   }"

definition call_verify_sig :: "('h, 'd) env \<Rightarrow> 'd Call \<Rightarrow> bool option" where
  "call_verify_sig E tx = check_sig E (cl_from tx) (cl_signature tx) (call_sign_message E tx)"

definition call_verify_multi_sig :: "('h, 'd) env \<Rightarrow> 'd Call \<Rightarrow> u8 \<Rightarrow> u8 list list \<Rightarrow> bool option" where
  "call_verify_multi_sig E tx required_keys pkeys =
     check_multi_sig E (cl_signature tx) (call_sign_message E tx) required_keys pkeys"

definition call_verify_multi_sig_shares :: "('h, 'd) env \<Rightarrow> 'd Call \<Rightarrow> u8 \<Rightarrow> ShareMap \<Rightarrow> bool option" where
  "call_verify_multi_sig_shares E tx percentile sm =
     check_shares E (cl_signature tx) (call_sign_message E tx) percentile sm"

section \<open>The wire format\<close>

definition call_to_bytes :: "('h, 'd) env \<Rightarrow> 'd Call \<Rightarrow> TxError + u8 list" where
  "call_to_bytes E tx = (case cl_hash tx of
       None \<Rightarrow> Inl (Msg ''Hash field is missing'')
     | Some hash \<Rightarrow> (case cl_signature tx of
         None \<Rightarrow> Inl (Msg ''Signature field is missing'')
       | Some sig \<Rightarrow>
           (let signature = signature_to_bytes (e_rlp_encode E) sig;
                amount = balance_to_bytes (e_dec E) (cl_amount tx);
                gas_price = balance_to_bytes (e_dec E) (cl_gas_price tx);
                gas_limit = gas_to_bytes (d_print (e_dec E)) (cl_gas_limit tx);
                fee = balance_to_bytes (e_dec E) (cl_fee tx);
                inputs = as_bytes (cl_inputs tx) in
            Inr ([CALL_TYPE, word_of_nat (length gas_limit), word_of_nat (length gas_price),
                word_of_nat (length amount), word_of_nat (length fee)] @
              encode_be_u16 (word_of_nat (length signature)) @ encode_be_u16 (word_of_nat (length inputs)) @
              address_to_bytes (cl_from tx) @ contract_to_bytes (cl_to tx) @ cl_asset_hash tx @
              cl_fee_hash tx @ hash @ signature @ gas_limit @ gas_price @ amount @ fee @ inputs))))"

definition call_from_bytes :: "('h, 'd) env \<Rightarrow> u8 list \<Rightarrow> 'd Call parsed" where
  "call_from_bytes E bytes =
     attempt (tx_type CALL_TYPE bytes) (\<lambda>_.
     attempt (tx_u8 1 ''Bad gas limit len'' bytes) (\<lambda>gas_limit_len.
     attempt (tx_u8 2 ''Bad gas price len'' bytes) (\<lambda>gas_price_len.
     attempt (tx_u8 3 ''Bad amount len'' bytes) (\<lambda>amount_len.
     attempt (tx_u8 4 ''Bad fee len'' bytes) (\<lambda>fee_len.
     attempt (tx_u16 5 ''Bad signature len'' bytes) (\<lambda>signature_len.
     attempt (tx_u16 7 ''Bad inputs len'' bytes) (\<lambda>inputs_len.
     attempt (tx_drain 9 bytes) (\<lambda>(_, buf).
     attempt (field 33 buf) (\<lambda>(from_vec, buf).
     attempt (or_err (address_from_bytes from_vec)) (\<lambda>from.
     attempt (field 33 buf) (\<lambda>(to_vec, buf).
     attempt (or_err (contract_from_bytes to_vec)) (\<lambda>to.
     attempt (field 32 buf) (\<lambda>(hash_vec, buf).
     attempt (to_hash hash_vec) (\<lambda>asset_hash.
     attempt (field 32 buf) (\<lambda>(hash_vec, buf).
     attempt (to_hash hash_vec) (\<lambda>fee_hash.
     attempt (field 32 buf) (\<lambda>(hash_vec, buf).
     attempt (to_hash hash_vec) (\<lambda>hash.
     attempt (field (unat signature_len) buf) (\<lambda>(sig_vec, buf).
     attempt (or_msg ''Bad signature'' (signature_from_bytes (e_rlp_decode E) sig_vec)) (\<lambda>signature.
     attempt (field (unat gas_limit_len) buf) (\<lambda>(gas_limit_vec, buf).
     attempt (or_msg ''Bad gas limit'' (gas_from_bytes (d_parse (e_dec E)) gas_limit_vec)) (\<lambda>gas_limit.
     attempt (field (unat gas_price_len) buf) (\<lambda>(gas_price_vec, buf).
     attempt (or_msg ''Bad gas price'' (balance_from_bytes (e_dec E) gas_price_vec)) (\<lambda>gas_price.
     attempt (field (unat amount_len) buf) (\<lambda>(amount_vec, buf).
     attempt (or_msg ''Bad amount'' (balance_from_bytes (e_dec E) amount_vec)) (\<lambda>amount.
     attempt (field_upto ''Incorrect packet structure'' (unat fee_len) buf) (\<lambda>(fee_vec, buf).
     attempt (or_msg ''Bad gas price'' (balance_from_bytes (e_dec E) fee_vec)) (\<lambda>fee.
     attempt (last_field (unat inputs_len) buf) (\<lambda>inputs_vec.
     attempt (case from_utf8 inputs_vec of Some s \<Rightarrow> Some (Inr s) | None \<Rightarrow> fail ''Bad inputs'') (\<lambda>inputs.
     Some (Inr \<lparr>cl_from = from, cl_to = to, cl_inputs = inputs, cl_amount = amount, cl_fee = fee,
       cl_gas_price = gas_price, cl_gas_limit = gas_limit, cl_asset_hash = asset_hash,
       cl_fee_hash = fee_hash, cl_hash = Some hash, cl_signature = Some signature\<rparr>)))))))))))))))))))))))))))))))"

definition wf_call :: "('h, 'd) env \<Rightarrow> 'd Call \<Rightarrow> bool" where
  "wf_call E tx \<longleftrightarrow> wf_address (cl_from tx) \<and> length (contract_inner (cl_to tx)) = 32 \<and>
     wf_balance E (cl_amount tx) \<and> wf_balance E (cl_fee tx) \<and> wf_balance E (cl_gas_price tx) \<and>
     gas_from_bytes (d_parse (e_dec E)) (gas_to_bytes (d_print (e_dec E)) (cl_gas_limit tx)) = Some (Inr (cl_gas_limit tx)) \<and>
     length (gas_to_bytes (d_print (e_dec E)) (cl_gas_limit tx)) < 256 \<and>
     utf8_valid (as_bytes (cl_inputs tx)) \<and> length (cl_inputs tx) < 2 ^ 16 \<and>
     length (cl_asset_hash tx) = 32 \<and> length (cl_fee_hash tx) = 32 \<and>
     (\<exists>h. cl_hash tx = Some h \<and> length h = 32) \<and>
     (\<exists>s. cl_signature tx = Some s \<and> wf_signature s \<and>
        length (signature_to_bytes (e_rlp_encode E) s) < 2 ^ 16)"

lemma header_9:
  assumes "bytes = [a, b, c, d, e] @ encode_be_u16 w @ encode_be_u16 v @ body"
  shows "tx_type a bytes = Some (Inr ())" "tx_u8 1 m bytes = Some (Inr b)" "tx_u8 2 m bytes = Some (Inr c)"
    "tx_u8 3 m bytes = Some (Inr d)" "tx_u8 4 m bytes = Some (Inr e)"
    "tx_u16 5 m bytes = Some (Inr w)" "tx_u16 7 m bytes = Some (Inr v)"
    "tx_drain 9 bytes = Some (Inr ([a, b, c, d, e] @ encode_be_u16 w @ encode_be_u16 v, body))"
proof -
  show "tx_u16 5 m bytes = Some (Inr w)"
    by (rule read_at(1)[of _ _ _ "encode_be_u16 v @ body"]) (simp add: assms)
  show "tx_u16 7 m bytes = Some (Inr v)"
    by (rule read_at(1)[of _ _ _ body]) (simp add: assms field_widths)
  show "tx_u8 3 m bytes = Some (Inr d)" "tx_u8 4 m bytes = Some (Inr e)"
    by (rule read_at(3), simp add: assms)+
  show "tx_drain 9 bytes = Some (Inr ([a, b, c, d, e] @ encode_be_u16 w @ encode_be_u16 v, body))"
    using tx_drain_append[of "[a, b, c, d, e] @ encode_be_u16 w @ encode_be_u16 v" 9 body]
    by (simp add: assms field_widths)
qed (simp_all add: assms tx_type_def tx_u8_def)

lemma call_roundtrip:
  assumes "rlp_law E" "wf_call E tx"
  shows "\<exists>bytes. call_to_bytes E tx = Inr bytes \<and> call_from_bytes E bytes = Some (Inr tx)"
proof -
  from assms(2) obtain h s where h: "cl_hash tx = Some h" "length h = 32"
    and s: "cl_signature tx = Some s" "wf_signature s" "length (signature_to_bytes (e_rlp_encode E) s) < 2 ^ 16"
    by (auto simp: wf_call_def)
  let ?gas = "gas_to_bytes (d_print (e_dec E)) (cl_gas_limit tx)"
  define bytes where "bytes =
      [CALL_TYPE, word_of_nat (length ?gas), word_of_nat (length (balance_to_bytes (e_dec E) (cl_gas_price tx))),
        word_of_nat (length (balance_to_bytes (e_dec E) (cl_amount tx))),
        word_of_nat (length (balance_to_bytes (e_dec E) (cl_fee tx)))] @
      encode_be_u16 (word_of_nat (length (signature_to_bytes (e_rlp_encode E) s))) @
      encode_be_u16 (word_of_nat (length (as_bytes (cl_inputs tx)))) @
      address_to_bytes (cl_from tx) @ contract_to_bytes (cl_to tx) @ cl_asset_hash tx @
      cl_fee_hash tx @ h @ signature_to_bytes (e_rlp_encode E) s @ ?gas @
      balance_to_bytes (e_dec E) (cl_gas_price tx) @ balance_to_bytes (e_dec E) (cl_amount tx) @
      balance_to_bytes (e_dec E) (cl_fee tx) @ as_bytes (cl_inputs tx)"
  have to: "call_to_bytes E tx = Inr bytes"
    using h s by (simp add: call_to_bytes_def bytes_def Let_def)
  have gas: "unat (word_of_nat (length ?gas) :: u8) = length ?gas" using assms(2) by (simp add: wf_call_def unat_of_nat)
  have inputs: "length (as_bytes (cl_inputs tx)) < 2 ^ 16" using assms(2) by (simp add: wf_call_def as_bytes_def)
  have "contract_to_bytes (cl_to tx) \<noteq> []" "cl_asset_hash tx \<noteq> []" "cl_fee_hash tx \<noteq> []" "h \<noteq> []"
    using assms(2) h by (auto simp: wf_call_def contract_to_bytes_def)
  then have "call_from_bytes E bytes = Some (Inr tx)"
    using assms h s gas inputs
    by (simp add: call_from_bytes_def header_9[OF bytes_def] wf_call_def wire_simps from_utf8_as_bytes
        contract.dec_enc contract.enc_width del: One_nat_def)
  with to show ?thesis by blast
qed

lemma call_bytes_tag: "call_to_bytes E tx = Inr bytes \<Longrightarrow> \<exists>rest. bytes = CALL_TYPE # rest"
  by (auto simp: call_to_bytes_def Let_def split: option.split_asm)

lemma call_parsed_tag: "call_from_bytes E bytes = Some (Inr tx) \<Longrightarrow> \<exists>rest. bytes = CALL_TYPE # rest"
  unfolding call_from_bytes_def by (rule attempt_type)

interpretation call: tx_codec "call_to_bytes E" "call_from_bytes E" "\<lambda>tx. rlp_law E \<and> wf_call E tx" CALL_TYPE
  for E :: "('h, 'd) env"
  by unfold_locales (auto simp: call_roundtrip dest: call_bytes_tag call_parsed_tag)

end
