(* ===== verification/Tx_Unique.thy ===== *)
theory Tx_Unique
  imports Tx_Common
begin

text \<open>
  \<open>transactions/src/create_unique.rs\<close> and \<open>transactions/src/change_minter.rs\<close>: a unique asset, and
  a new minter of a currency.  The sources have only signing and hashing of the two so far.
\<close>

section \<open>CreateUnique\<close>

definition ASSET_NAME_SIZE :: nat where
  "ASSET_NAME_SIZE = 32"

definition META_FIELD_SIZE :: nat where
  "META_FIELD_SIZE = 32"

record 'd CreateUnique =
  cu_creator :: Account_Address
  cu_receiver :: Account_Address
  cu_asset_hash :: hash
  cu_fee_hash :: hash
  cu_name :: "u8 list"
  cu_meta1 :: "u8 list option"
  cu_meta2 :: "u8 list option"
  cu_meta3 :: "u8 list option"
  cu_meta4 :: "u8 list option"
  cu_meta5 :: "u8 list option"
  cu_fee :: "'d Balance"
  cu_hash :: "hash option"
  cu_signature :: "Account_Signature option"

definition CREATE_UNIQUE_TYPE :: u8 where
  "CREATE_UNIQUE_TYPE = 12"

definition some_bytes :: "u8 list option \<Rightarrow> u8 list" where
  "some_bytes m = (case m of Some meta \<Rightarrow> meta | None \<Rightarrow> [])"

definition meta_bytes :: "'d CreateUnique \<Rightarrow> u8 list" where
  "meta_bytes tx = some_bytes (cu_meta1 tx) @ some_bytes (cu_meta2 tx) @ some_bytes (cu_meta3 tx) @
     some_bytes (cu_meta4 tx) @ some_bytes (cu_meta5 tx)"

definition create_unique_sign_message :: "('h, 'd) env \<Rightarrow> 'd CreateUnique \<Rightarrow> u8 list" where
  "create_unique_sign_message E tx = address_to_bytes (cu_creator tx) @ address_to_bytes (cu_receiver tx) @ cu_name tx @
     meta_bytes tx @ cu_asset_hash tx @ cu_fee_hash tx @ balance_to_bytes (e_dec E) (cu_fee tx)"

definition create_unique_hash_message :: "('h, 'd) env \<Rightarrow> 'd CreateUnique \<Rightarrow> u8 list option" where
  "create_unique_hash_message E tx = do {
     signature \<leftarrow> cu_signature tx;
     Some (address_to_bytes (cu_creator tx) @ address_to_bytes (cu_receiver tx) @ cu_name tx @
     meta_bytes tx @ cu_asset_hash tx @ cu_fee_hash tx @ balance_to_bytes (e_dec E) (cu_fee tx) @
       signature_to_bytes (e_rlp_encode E) signature)
   }"

definition create_unique_set_hash :: "('h, 'd) env \<Rightarrow> 'd CreateUnique \<Rightarrow> 'd CreateUnique option" where
  "create_unique_set_hash E tx = do {
     message \<leftarrow> create_unique_hash_message E tx;
     Some (tx\<lparr>cu_hash := Some (e_hash E message)\<rparr>)
   }"

definition create_unique_verify_hash :: "('h, 'd) env \<Rightarrow> 'd CreateUnique \<Rightarrow> bool option" where
  "create_unique_verify_hash E tx = check_hash E (cu_hash tx) (create_unique_hash_message E tx)"

lemma create_unique_hash_verifies: "create_unique_set_hash E tx = Some tx' \<Longrightarrow> create_unique_verify_hash E tx' = Some True"
  by (auto simp: create_unique_set_hash_def create_unique_verify_hash_def create_unique_hash_message_def meta_bytes_def
      check_hash_def bind_eq_Some_conv)

definition create_unique_sign :: "('h, 'd) env \<Rightarrow> u8 list \<Rightarrow> 'd CreateUnique \<Rightarrow> 'd CreateUnique option" where
  "create_unique_sign E skey tx = do {
     signature \<leftarrow> attach_signature (cu_creator tx) (cu_signature tx) (e_sign E (create_unique_sign_message E tx) skey);
     Some (tx\<lparr>cu_signature := signature\<rparr>)
   }"

definition create_unique_verify_sig :: "('h, 'd) env \<Rightarrow> 'd CreateUnique \<Rightarrow> bool option" where
  "create_unique_verify_sig E tx = check_sig E (cu_creator tx) (cu_signature tx) (create_unique_sign_message E tx)"

definition create_unique_verify_multi_sig :: "('h, 'd) env \<Rightarrow> 'd CreateUnique \<Rightarrow> u8 \<Rightarrow> u8 list list \<Rightarrow> bool option" where
  "create_unique_verify_multi_sig E tx required_keys pkeys =
     check_multi_sig E (cu_signature tx) (create_unique_sign_message E tx) required_keys pkeys"

definition create_unique_verify_multi_sig_shares :: "('h, 'd) env \<Rightarrow> 'd CreateUnique \<Rightarrow> u8 \<Rightarrow> ShareMap \<Rightarrow> bool option" where
  "create_unique_verify_multi_sig_shares E tx percentile sm =
     check_shares E (cu_signature tx) (create_unique_sign_message E tx) percentile sm"

text \<open>
  A signature does not say which of the metadata fields are set: a transaction with the first field
  and one with the second field set to the same bytes have the same message.
\<close>

lemma unique_meta_ambiguous:
  "create_unique_verify_sig E (tx\<lparr>cu_meta1 := Some m, cu_meta2 := None\<rparr>) =
     create_unique_verify_sig E (tx\<lparr>cu_meta1 := None, cu_meta2 := Some m\<rparr>)"
  by (simp add: create_unique_verify_sig_def create_unique_sign_message_def meta_bytes_def some_bytes_def)

section \<open>ChangeMinter\<close>

record 'd ChangeMinter =
  chm_minter :: Account_Address
  chm_new_minter :: Account_Address
  chm_asset_hash :: hash
  chm_fee_hash :: hash
  chm_fee :: "'d Balance"
  chm_hash :: "hash option"
  chm_signature :: "Account_Signature option"

definition CHANGE_MINTER_TYPE :: u8 where
  "CHANGE_MINTER_TYPE = 13"

definition change_minter_sign_message :: "('h, 'd) env \<Rightarrow> 'd ChangeMinter \<Rightarrow> u8 list" where
  "change_minter_sign_message E tx = address_to_bytes (chm_minter tx) @ address_to_bytes (chm_new_minter tx) @
     chm_asset_hash tx @ chm_fee_hash tx @ balance_to_bytes (e_dec E) (chm_fee tx)"

definition change_minter_hash_message :: "('h, 'd) env \<Rightarrow> 'd ChangeMinter \<Rightarrow> u8 list option" where
  "change_minter_hash_message E tx = do {
     signature \<leftarrow> chm_signature tx;
     Some (address_to_bytes (chm_minter tx) @ address_to_bytes (chm_new_minter tx) @
     chm_asset_hash tx @ chm_fee_hash tx @ balance_to_bytes (e_dec E) (chm_fee tx) @
       signature_to_bytes (e_rlp_encode E) signature)
   }"

definition change_minter_set_hash :: "('h, 'd) env \<Rightarrow> 'd ChangeMinter \<Rightarrow> 'd ChangeMinter option" where
  "change_minter_set_hash E tx = do {
     message \<leftarrow> change_minter_hash_message E tx;
     Some (tx\<lparr>chm_hash := Some (e_hash E message)\<rparr>)
   }"

definition change_minter_verify_hash :: "('h, 'd) env \<Rightarrow> 'd ChangeMinter \<Rightarrow> bool option" where
  "change_minter_verify_hash E tx = check_hash E (chm_hash tx) (change_minter_hash_message E tx)"

lemma change_minter_hash_verifies: "change_minter_set_hash E tx = Some tx' \<Longrightarrow> change_minter_verify_hash E tx' = Some True"
  by (auto simp: change_minter_set_hash_def change_minter_verify_hash_def change_minter_hash_message_def check_hash_def bind_eq_Some_conv)

definition change_minter_sign :: "('h, 'd) env \<Rightarrow> u8 list \<Rightarrow> 'd ChangeMinter \<Rightarrow> 'd ChangeMinter option" where
  "change_minter_sign E skey tx = do {
     signature \<leftarrow> attach_signature (chm_minter tx) (chm_signature tx) (e_sign E (change_minter_sign_message E tx) skey);
     Some (tx\<lparr>chm_signature := signature\<rparr>)
   }"

definition change_minter_verify_sig :: "('h, 'd) env \<Rightarrow> 'd ChangeMinter \<Rightarrow> bool option" where
  "change_minter_verify_sig E tx = check_sig E (chm_minter tx) (chm_signature tx) (change_minter_sign_message E tx)"

definition change_minter_verify_multi_sig :: "('h, 'd) env \<Rightarrow> 'd ChangeMinter \<Rightarrow> u8 \<Rightarrow> u8 list list \<Rightarrow> bool option" where
  "change_minter_verify_multi_sig E tx required_keys pkeys =
     check_multi_sig E (chm_signature tx) (change_minter_sign_message E tx) required_keys pkeys"

definition change_minter_verify_multi_sig_shares :: "('h, 'd) env \<Rightarrow> 'd ChangeMinter \<Rightarrow> u8 \<Rightarrow> ShareMap \<Rightarrow> bool option" where
  "change_minter_verify_multi_sig_shares E tx percentile sm =
     check_shares E (chm_signature tx) (change_minter_sign_message E tx) percentile sm"

text \<open>The message of \<open>ChangeMinter\<close> determines everything but the two options.\<close>

lemma change_minter_message_inj:
  assumes "change_minter_sign_message E a = change_minter_sign_message E b"
    "wf_address (chm_minter a)" "wf_address (chm_minter b)" "wf_address (chm_new_minter a)" "wf_address (chm_new_minter b)"
    "length (chm_asset_hash a) = 32" "length (chm_asset_hash b) = 32"
    "length (chm_fee_hash a) = 32" "length (chm_fee_hash b) = 32"
  shows "chm_minter a = chm_minter b" "chm_new_minter a = chm_new_minter b"
    "chm_asset_hash a = chm_asset_hash b" "chm_fee_hash a = chm_fee_hash b"
    "balance_to_bytes (e_dec E) (chm_fee a) = balance_to_bytes (e_dec E) (chm_fee b)"
  using assms address_width
  by (simp_all add: change_minter_sign_message_def address_to_bytes_inj)

end
