(* ===== verification/Tx_Genesis.thy ===== *)
theory Tx_Genesis
  imports Tx_Create
begin

text \<open>
  \<open>transactions/src/genesis.rs\<close>: the first entries of the ledger.  Decoding base 58 is the job of the
  crate \<open>base58\<close>, the parameter \<open>from_base58\<close>.
\<close>

definition TREASURY_SHAREHOLDER :: string where
  "TREASURY_SHAREHOLDER = ''Zmr68nPzntEBr3Tq2NNiaNUdgjpECDqrKscwwef2aBMk''"

definition MAIN_CUR_NAME :: "u8 list" where
  "MAIN_CUR_NAME = as_bytes ''purple''"

definition COIN_SUPPLY :: u64 where
  "COIN_SUPPLY = 500000000"

definition TREASURY_ADDRESS_PRIMITIVE :: "u8 list" where
  "TREASURY_ADDRESS_PRIMITIVE = as_bytes ''treasury''"

definition TREASURY_STOCK_PRIMITIVE :: "u8 list" where
  "TREASURY_STOCK_PRIMITIVE = as_bytes ''treasury_stock''"

definition TREASURY_INITIAL_BALANCE :: "u8 list" where
  "TREASURY_INITIAL_BALANCE = as_bytes ''125000000.0''"

definition TREASURY_ISSUED_SHARES :: u32 where
  "TREASURY_ISSUED_SHARES = 1000000"

definition TREASURY_AUTHORIZED_SHARES :: u32 where
  "TREASURY_AUTHORIZED_SHARES = 1000000"

record 'd Genesis =
  gen_treasury_balance :: "'d Balance"
  gen_treasury_address :: ShareholdersAddress
  gen_treasury_shares :: Shares
  gen_treasury_share_map :: ShareMap
  gen_treasury_stock_hash :: hash
  gen_asset_hash :: hash
  gen_coin_supply :: u64

definition genesis_default :: "('h, 'd) env \<Rightarrow> (string \<Rightarrow> u8 list option) \<Rightarrow> 'd Genesis option" where
  "genesis_default E from_base58 = do {
     shareholder_address \<leftarrow> must (address_from_base58 from_base58 normal_from_bytes TREASURY_SHAREHOLDER);
     treasury_share_map \<leftarrow> add_shareholder sm_new shareholder_address TREASURY_ISSUED_SHARES;
     treasury_balance \<leftarrow> balance_must E TREASURY_INITIAL_BALANCE;
     Some \<lparr>gen_treasury_balance = treasury_balance,
       gen_treasury_address = ShareholdersAddress (e_hash E TREASURY_ADDRESS_PRIMITIVE),
       gen_treasury_shares = shares_new TREASURY_ISSUED_SHARES TREASURY_AUTHORIZED_SHARES 80,
       gen_treasury_share_map = treasury_share_map,
       gen_treasury_stock_hash = e_hash E TREASURY_STOCK_PRIMITIVE,
       gen_asset_hash = e_hash E MAIN_CUR_NAME, gen_coin_supply = COIN_SUPPLY\<rparr>
   }"

definition genesis_apply :: "('h, 'd) env \<Rightarrow> 'd Genesis \<Rightarrow> 'h \<Rightarrow> 'h option" where
  "genesis_apply E g t = do {
     r \<leftarrow> e_get E t (as_bytes ''treasury'');
     (case r of
        Some _ \<Rightarrow> None
      | None \<Rightarrow> do {
          let addr = shareholders_to_bytes (gen_treasury_address g);
          let coin_supply = as_bytes (show_nat (unat (gen_coin_supply g)) @ ''.0'');
          t \<leftarrow> e_insert E t (as_bytes ''treasury'') addr;
          t \<leftarrow> e_insert E t (nonce_key E addr) zero_nonce;
          t \<leftarrow> e_insert E t (dot_key (e_hex E addr) ''s'') (shares_to_bytes (gen_treasury_shares g));
          t \<leftarrow> put_share_map E (dot_key (e_hex E addr) ''sm'') (gen_treasury_share_map g) t;
          t \<leftarrow> e_insert E t (dot_key (e_hex E addr) ''sh'') (gen_treasury_stock_hash g);
          t \<leftarrow> e_insert E t (cur_key E addr (gen_asset_hash g)) coin_supply;
          t \<leftarrow> e_insert E t (as_bytes ''ci'') zero_nonce;
          e_insert E t (as_bytes ''c.0'') (e_rlp_encode E [gen_asset_hash g])
        })
   }"

section \<open>The state after genesis\<close>

lemma group_key_0: "group_key 0 = as_bytes ''c.0''"
proof -
  have "show_nat 0 = ''0''" by (subst show_nat.simps) code_simp
  then show ?thesis by (simp add: group_key_def dot_key_def)
qed

lemma plain_key: "hex_law E \<Longrightarrow> dot_key (e_hex E a) s \<noteq> as_bytes ''treasury''"
proof
  assume "dot_key (e_hex E a) s = as_bytes ''treasury''"
  then have "e_hex E a @ ''.'' @ s = ''treasury''" by (simp add: dot_key_def)
  then have "CHR ''.'' \<in> set ''treasury''" by (metis Un_iff list.set_intros(1) set_append)
  then show False by simp
qed

lemma genesis_entries:
  assumes laws: "trie_law E" "hex_law E" "\<And>xs. e_rlp_encode E xs \<noteq> []"
    and run: "genesis_apply E g t = Some t'" and stock: "gen_treasury_stock_hash g \<noteq> []"
  shows "e_get E t (as_bytes ''treasury'') = Some None"
    "e_get E t' (as_bytes ''treasury'') = Some (Some (shareholders_to_bytes (gen_treasury_address g)))"
    "e_get E t' (cur_key E (shareholders_to_bytes (gen_treasury_address g)) (gen_asset_hash g)) =
      Some (Some (as_bytes (show_nat (unat (gen_coin_supply g)) @ ''.0'')))"
    "e_get E t' (as_bytes ''ci'') = Some (Some zero_nonce)"
    "e_get E t' (group_key 0) = Some (Some (e_rlp_encode E [gen_asset_hash g]))"
    "e_get E t' (dot_key (e_hex E a) ''p'') = e_get E t (dot_key (e_hex E a) ''p'')"
    "e_get E t' (dot_key (e_hex E a) ''adr'') = e_get E t (dot_key (e_hex E a) ''adr'')"
proof -
  let ?a = "shareholders_to_bytes (gen_treasury_address g)"
  from run show "e_get E t (as_bytes ''treasury'') = Some None"
    by (auto simp: genesis_apply_def bind_eq_Some_conv split: option.split_asm)
  with run obtain t1 t2 t3 t4 t5 t6 t7 where
    t: "e_insert E t (as_bytes ''treasury'') ?a = Some t1" "e_insert E t1 (nonce_key E ?a) zero_nonce = Some t2"
      "e_insert E t2 (dot_key (e_hex E ?a) ''s'') (shares_to_bytes (gen_treasury_shares g)) = Some t3"
      "put_share_map E (dot_key (e_hex E ?a) ''sm'') (gen_treasury_share_map g) t3 = Some t4"
      "e_insert E t4 (dot_key (e_hex E ?a) ''sh'') (gen_treasury_stock_hash g) = Some t5"
      "e_insert E t5 (cur_key E ?a (gen_asset_hash g)) (as_bytes (show_nat (unat (gen_coin_supply g)) @ ''.0'')) = Some t6"
      "e_insert E t6 (as_bytes ''ci'') zero_nonce = Some t7"
      "e_insert E t7 (group_key 0) (e_rlp_encode E [gen_asset_hash g]) = Some t'"
    by (auto simp: genesis_apply_def Let_def bind_eq_Some_conv group_key_0)
  have ne: "?a \<noteq> []" "shares_to_bytes (gen_treasury_shares g) \<noteq> []"
      "as_bytes (show_nat (unat (gen_coin_supply g)) @ ''.0'') \<noteq> []"
    by (simp_all add: shareholders_to_bytes_def shares_to_bytes_def encode_u8_def as_bytes_def)
  note get = trie_law_insert[OF laws(1) t(1) ne(1)] trie_law_insert[OF laws(1) t(2)]
    trie_law_insert[OF laws(1) t(3) ne(2)] trie_law_insert[OF laws(1) t(4)[unfolded put_share_map_def] sm_to_bytes_law[OF laws(3)]]
    trie_law_insert[OF laws(1) t(5) stock] trie_law_insert[OF laws(1) t(6) ne(3)]
    trie_law_insert[OF laws(1) t(7)] trie_law_insert[OF laws(1) t(8) laws(3)]
  note k = list_keys[OF laws(2)] list_keys[OF laws(2), THEN not_sym] plain_key[OF laws(2)] plain_key[OF laws(2), THEN not_sym]
    dot_key_hex[OF laws(2)] hex_not_suffix[OF laws(2)] hex_not_suffix[OF laws(2), THEN not_sym] nonce_key_def cur_key_def
  have plain: "as_bytes ''treasury'' \<noteq> group_key 0" "as_bytes ''ci'' \<noteq> group_key 0" by (simp_all add: group_key_0)
  show "e_get E t' (as_bytes ''treasury'') = Some (Some ?a)" using plain by (simp add: get k)
  show "e_get E t' (cur_key E ?a (gen_asset_hash g)) = Some (Some (as_bytes (show_nat (unat (gen_coin_supply g)) @ ''.0'')))"
    by (simp add: get k)
  show "e_get E t' (as_bytes ''ci'') = Some (Some zero_nonce)"
    "e_get E t' (group_key 0) = Some (Some (e_rlp_encode E [gen_asset_hash g]))"
    using plain by (simp_all add: get)
  show "e_get E t' (dot_key (e_hex E a) ''p'') = e_get E t (dot_key (e_hex E a) ''p'')"
    "e_get E t' (dot_key (e_hex E a) ''adr'') = e_get E t (dot_key (e_hex E a) ''adr'')"
    by (simp_all add: get k)
qed

end
