(* ===== verification/Transactions.thy ===== *)
theory Transactions
  imports Tx_Send Tx_Burn Tx_Mint Tx_Pay Tx_Issue_Shares Tx_Create_Currency Tx_Create_Mintable
    Tx_Open_Multi_Sig Tx_Open_Shares Tx_Open_Contract Tx_Call Tx_Unique Tx_Genesis
begin

text \<open>
  \<open>transactions/src/lib.rs\<close>: the type \<open>Tx\<close> over the transaction types.  The source has no
  \<open>from_bytes\<close> for it; \<open>tx_decode\<close> is the specification of a decoder that goes by the type byte, and
  shows that the encodings of the eleven types never overlap.
\<close>

datatype 'd Tx =
    Tx_Call "'d Call"
  | Tx_OpenContract "'d OpenContract"
  | Tx_Send "'d Send"
  | Tx_Burn "'d Burn"
  | Tx_CreateCurrency "'d CreateCurrency"
  | Tx_CreateMintable "'d CreateMintable"
  | Tx_Mint "'d Mint"
  | Tx_IssueShares "'d IssueShares"
  | Tx_OpenMultiSig "'d OpenMultiSig"
  | Tx_OpenShares "'d OpenShares"
  | Tx_Pay "'d Pay"

fun tx_to_bytes :: "('h, 'd) env \<Rightarrow> 'd Tx \<Rightarrow> TxError + u8 list" where
  "tx_to_bytes E (Tx_Call tx) = call_to_bytes E tx"
| "tx_to_bytes E (Tx_OpenContract tx) = open_contract_to_bytes E tx"
| "tx_to_bytes E (Tx_Send tx) = send_to_bytes E tx"
| "tx_to_bytes E (Tx_Burn tx) = burn_to_bytes E tx"
| "tx_to_bytes E (Tx_CreateCurrency tx) = create_currency_to_bytes E tx"
| "tx_to_bytes E (Tx_CreateMintable tx) = create_mintable_to_bytes E tx"
| "tx_to_bytes E (Tx_Mint tx) = mint_to_bytes E tx"
| "tx_to_bytes E (Tx_IssueShares tx) = issue_to_bytes E tx"
| "tx_to_bytes E (Tx_OpenMultiSig tx) = open_multi_sig_to_bytes E tx"
| "tx_to_bytes E (Tx_OpenShares tx) = open_shares_to_bytes E tx"
| "tx_to_bytes E (Tx_Pay tx) = pay_to_bytes E tx"

fun tx_compute_hash_message :: "('h, 'd) env \<Rightarrow> 'd Tx \<Rightarrow> u8 list option" where
  "tx_compute_hash_message E (Tx_Call tx) = call_hash_message E tx"
| "tx_compute_hash_message E (Tx_OpenContract tx) = open_contract_hash_message E tx"
| "tx_compute_hash_message E (Tx_Send tx) = send_hash_message E tx"
| "tx_compute_hash_message E (Tx_Burn tx) = burn_hash_message E tx"
| "tx_compute_hash_message E (Tx_CreateCurrency tx) = create_currency_hash_message E tx"
| "tx_compute_hash_message E (Tx_CreateMintable tx) = create_mintable_hash_message E tx"
| "tx_compute_hash_message E (Tx_Mint tx) = mint_hash_message E tx"
| "tx_compute_hash_message E (Tx_IssueShares tx) = issue_hash_message E tx"
| "tx_compute_hash_message E (Tx_OpenMultiSig tx) = open_multi_sig_hash_message E tx"
| "tx_compute_hash_message E (Tx_OpenShares tx) = open_shares_hash_message E tx"
| "tx_compute_hash_message E (Tx_Pay tx) = pay_hash_message E tx"

section \<open>The types of transactions do not overlap\<close>

fun tx_tag :: "'d Tx \<Rightarrow> u8" where
  "tx_tag (Tx_Call tx) = CALL_TYPE"
| "tx_tag (Tx_OpenContract tx) = OPEN_CONTRACT_TYPE"
| "tx_tag (Tx_Send tx) = SEND_TYPE"
| "tx_tag (Tx_Burn tx) = BURN_TYPE"
| "tx_tag (Tx_CreateCurrency tx) = CREATE_CURRENCY_TYPE"
| "tx_tag (Tx_CreateMintable tx) = CREATE_MINTABLE_TYPE"
| "tx_tag (Tx_Mint tx) = MINT_TYPE"
| "tx_tag (Tx_IssueShares tx) = ISSUE_TYPE"
| "tx_tag (Tx_OpenMultiSig tx) = OPEN_MULTI_SIG_TYPE"
| "tx_tag (Tx_OpenShares tx) = OPEN_SHARES_TYPE"
| "tx_tag (Tx_Pay tx) = PAY_TYPE"

fun wf_tx :: "('h, 'd) env \<Rightarrow> 'd Tx \<Rightarrow> bool" where
  "wf_tx E (Tx_Call tx) = wf_call E tx"
| "wf_tx E (Tx_OpenContract tx) = wf_open_contract E tx"
| "wf_tx E (Tx_Send tx) = wf_send E tx"
| "wf_tx E (Tx_Burn tx) = wf_burn E tx"
| "wf_tx E (Tx_CreateCurrency tx) = wf_create_currency E tx"
| "wf_tx E (Tx_CreateMintable tx) = wf_create_mintable E tx"
| "wf_tx E (Tx_Mint tx) = wf_mint E tx"
| "wf_tx E (Tx_IssueShares tx) = wf_issue E tx"
| "wf_tx E (Tx_OpenMultiSig tx) = wf_open_multi_sig E tx"
| "wf_tx E (Tx_OpenShares tx) = wf_open_shares E tx"
| "wf_tx E (Tx_Pay tx) = wf_pay E tx"

definition parsed_as :: "('a \<Rightarrow> 'b) \<Rightarrow> 'a parsed \<Rightarrow> 'b parsed" where
  "parsed_as c m = map_option (map_sum id c) m"

definition tx_decode :: "('h, 'd) env \<Rightarrow> u8 list \<Rightarrow> 'd Tx parsed" where
  "tx_decode E bytes = (case bytes of
       [] \<Rightarrow> fail ''Bad transaction type''
     | b # _ \<Rightarrow>
         if b = CALL_TYPE then parsed_as Tx_Call (call_from_bytes E bytes)
         else if b = OPEN_CONTRACT_TYPE then parsed_as Tx_OpenContract (open_contract_from_bytes E bytes)
         else if b = SEND_TYPE then parsed_as Tx_Send (send_from_bytes E bytes)
         else if b = BURN_TYPE then parsed_as Tx_Burn (burn_from_bytes E bytes)
         else if b = CREATE_CURRENCY_TYPE then parsed_as Tx_CreateCurrency (create_currency_from_bytes E bytes)
         else if b = CREATE_MINTABLE_TYPE then parsed_as Tx_CreateMintable (create_mintable_from_bytes E bytes)
         else if b = MINT_TYPE then parsed_as Tx_Mint (mint_from_bytes E bytes)
         else if b = ISSUE_TYPE then parsed_as Tx_IssueShares (issue_from_bytes E bytes)
         else if b = OPEN_MULTI_SIG_TYPE then parsed_as Tx_OpenMultiSig (open_multi_sig_from_bytes E bytes)
         else if b = OPEN_SHARES_TYPE then parsed_as Tx_OpenShares (open_shares_from_bytes E bytes)
         else if b = PAY_TYPE then parsed_as Tx_Pay (pay_from_bytes E bytes)
         else fail ''Bad transation type'')"

lemmas type_bytes = CALL_TYPE_def OPEN_CONTRACT_TYPE_def SEND_TYPE_def BURN_TYPE_def CREATE_CURRENCY_TYPE_def CREATE_MINTABLE_TYPE_def MINT_TYPE_def ISSUE_TYPE_def OPEN_MULTI_SIG_TYPE_def OPEN_SHARES_TYPE_def PAY_TYPE_def

lemma parsed_as_Inr [simp]: "parsed_as c (Some (Inr x)) = Some (Inr (c x))"
  by (simp add: parsed_as_def)

lemma tx_bytes_tag: "tx_to_bytes E tx = Inr bytes \<Longrightarrow> \<exists>rest. bytes = tx_tag tx # rest"
  by (cases tx) (auto dest: call_bytes_tag open_contract_bytes_tag send_bytes_tag burn_bytes_tag create_currency_bytes_tag create_mintable_bytes_tag mint_bytes_tag issue_bytes_tag open_multi_sig_bytes_tag open_shares_bytes_tag pay_bytes_tag)

lemma tx_decode_tag:
  "tx_decode E (CALL_TYPE # r) = parsed_as Tx_Call (call_from_bytes E (CALL_TYPE # r))"
  "tx_decode E (OPEN_CONTRACT_TYPE # r) = parsed_as Tx_OpenContract (open_contract_from_bytes E (OPEN_CONTRACT_TYPE # r))"
  "tx_decode E (SEND_TYPE # r) = parsed_as Tx_Send (send_from_bytes E (SEND_TYPE # r))"
  "tx_decode E (BURN_TYPE # r) = parsed_as Tx_Burn (burn_from_bytes E (BURN_TYPE # r))"
  "tx_decode E (CREATE_CURRENCY_TYPE # r) = parsed_as Tx_CreateCurrency (create_currency_from_bytes E (CREATE_CURRENCY_TYPE # r))"
  "tx_decode E (CREATE_MINTABLE_TYPE # r) = parsed_as Tx_CreateMintable (create_mintable_from_bytes E (CREATE_MINTABLE_TYPE # r))"
  "tx_decode E (MINT_TYPE # r) = parsed_as Tx_Mint (mint_from_bytes E (MINT_TYPE # r))"
  "tx_decode E (ISSUE_TYPE # r) = parsed_as Tx_IssueShares (issue_from_bytes E (ISSUE_TYPE # r))"
  "tx_decode E (OPEN_MULTI_SIG_TYPE # r) = parsed_as Tx_OpenMultiSig (open_multi_sig_from_bytes E (OPEN_MULTI_SIG_TYPE # r))"
  "tx_decode E (OPEN_SHARES_TYPE # r) = parsed_as Tx_OpenShares (open_shares_from_bytes E (OPEN_SHARES_TYPE # r))"
  "tx_decode E (PAY_TYPE # r) = parsed_as Tx_Pay (pay_from_bytes E (PAY_TYPE # r))"
  by (simp_all add: tx_decode_def type_bytes)

lemma decoded_as:
  assumes "\<exists>bytes. enc = Inr bytes \<and> dec bytes = Some (Inr x)"
    and "\<And>bytes. enc = Inr bytes \<Longrightarrow> \<exists>r. bytes = t # r"
    and "\<And>r. tx_decode E (t # r) = parsed_as c (dec (t # r))"
  shows "\<exists>bytes. enc = Inr bytes \<and> tx_decode E bytes = Some (Inr (c x))"
  using assms by fastforce

lemmas tx_decoded =
  decoded_as[OF call.enc_dec call_bytes_tag tx_decode_tag(1)]
  decoded_as[OF open_contract.enc_dec open_contract_bytes_tag tx_decode_tag(2)]
  decoded_as[OF send.enc_dec send_bytes_tag tx_decode_tag(3)]
  decoded_as[OF burn.enc_dec burn_bytes_tag tx_decode_tag(4)]
  decoded_as[OF create_currency.enc_dec create_currency_bytes_tag tx_decode_tag(5)]
  decoded_as[OF create_mintable.enc_dec create_mintable_bytes_tag tx_decode_tag(6)]
  decoded_as[OF mint.enc_dec mint_bytes_tag tx_decode_tag(7)]
  decoded_as[OF issue.enc_dec issue_bytes_tag tx_decode_tag(8)]
  decoded_as[OF open_multi_sig.enc_dec open_multi_sig_bytes_tag tx_decode_tag(9)]
  decoded_as[OF open_shares.enc_dec open_shares_bytes_tag tx_decode_tag(10)]
  decoded_as[OF pay.enc_dec pay_bytes_tag tx_decode_tag(11)]

lemma tx_round_trip:
  assumes "rlp_law E" "wf_tx E tx"
  shows "\<exists>bytes. tx_to_bytes E tx = Inr bytes \<and> tx_decode E bytes = Some (Inr tx)"
  using assms by (cases tx) (simp_all add: tx_decoded)

lemma tx_bytes_unique:
  assumes "rlp_law E" "wf_tx E a" "wf_tx E b" "tx_to_bytes E a = tx_to_bytes E b"
  shows "a = b"
  using tx_round_trip[OF assms(1,2)] tx_round_trip[OF assms(1,3)] assms(4) by (metis option.inject sum.inject(2))

end
