(* ===== verification/Ledger_Theorems.thy ===== *)
theory Ledger_Theorems
  imports Sample_Env Transactions
begin

text \<open>The properties of single transactions on the ledger.\<close>

section \<open>Transactions\<close>

text \<open>
  Two accounts that own 100 of the currencies 7 and 8, and transactions between them; \<open>sample_env\<close>
  stands for the code outside the repository.
\<close>

definition sample_address :: "u8 \<Rightarrow> Account_Address" where
  "sample_address n = Normal (NormalAddress (replicate 32 n))"

definition sample_account :: "u8 \<Rightarrow> sample_trie" where
  "sample_account n =
     [(nonce_key sample_env (address_to_bytes (sample_address n)), zero_nonce),
      (cur_key sample_env (address_to_bytes (sample_address n)) (replicate 32 7), as_bytes ''100''),
      (cur_key sample_env (address_to_bytes (sample_address n)) (replicate 32 8), as_bytes ''100'')]"

definition sample_ledger :: sample_trie where
  "sample_ledger = sample_account 1 @ sample_account 2"

definition sample_signature :: Account_Signature where
  "sample_signature = NormalSig (PrimitiveSig (replicate 64 1))"

definition sample_send :: "u8 \<Rightarrow> u8 \<Rightarrow> int Send" where
  "sample_send to fee_hash = \<lparr>snd_from = sample_address 1, snd_to = sample_address to, snd_amount = Balance 30,
     snd_fee = Balance 1, snd_asset_hash = replicate 32 7, snd_fee_hash = replicate 32 fee_hash,
     snd_hash = Some (replicate 32 0), snd_signature = Some sample_signature\<rparr>"

text \<open>
  C17.  A transfer of currency between two accounts moves exactly the amount from the sender to the
  receiver, takes exactly the fee from the sender in the currency of the fee, and changes no other
  balance; a receiver without an account is created with the amount.
\<close>

theorem send_moves_amount_and_fee:
  assumes laws: "trie_law E" "hex_law E" "decimal_law E val"
    and run: "send_apply E tx t = Some t'"
    and currency: "e_get E t (dot_key (e_hex E (snd_asset_hash tx)) ''adr'') = Some None"
    and accounts: "snd_from tx \<noteq> snd_to tx" "wf_address (snd_from tx)" "wf_address (snd_to tx)"
      "no_balance E t (address_to_bytes (snd_to tx)) (snd_asset_hash tx)"
  shows "stored E val t' (cur_key E addr asset) = stored E val t (cur_key E addr asset) + send_delta val tx addr asset"
  using assms by (rule send_apply_stored)

lemma sample_address_eq [simp]:
  "address_to_bytes (sample_address m) = address_to_bytes (sample_address n) \<longleftrightarrow> m = n"
  by (simp add: sample_address_def normal_to_bytes_def numeral_eq_Suc)

lemma sample_trie_ops [simp]:
  "e_get sample_env t k = Some (map_of t k)"
  "\<exists>u. e_insert sample_env t k v = Some u"
  "e_insert sample_env t k v = Some (if v = [] then AList.delete k t else (k, v) # t)"
  by (simp_all add: sample_env_def)

lemma sample_hash_eq [simp]: "replicate 32 (m :: u8) = replicate 32 n \<longleftrightarrow> m = n"
  by (simp add: numeral_eq_Suc)

lemmas sample_keys [simp] = keys_distinct[OF sample_laws(3)]

lemma sample_zero_nonce: "zero_nonce = encode_be_u64 0"
  by code_simp

lemma sample_nonce: "next_nonce zero_nonce = Some (encode_be_u64 1)"
  using be_u64.dec_enc[of 0 "[]"] by (simp add: next_nonce_def sample_zero_nonce checked_add_def)

lemma sample_hundred: "balance_must sample_env (as_bytes ''100'') = Some (Balance 100)"
  by code_simp

lemma sample_zero: "zero_balance sample_env = Some (Balance 0)"
  by code_simp

lemma sample_balance_ops [simp]:
  "balance_sub (e_dec sample_env) (Balance a) (Balance b) = Some (Balance (a - b))"
  "balance_add (e_dec sample_env) (Balance a) (Balance b) = Some (Balance (a + b))"
  by (simp_all add: sample_env_def sample_decimal_def balance_sub_def balance_add_def)

lemma sample_ledger_get [simp]:
  "map_of sample_ledger (nonce_key sample_env (address_to_bytes (sample_address n))) =
     (if n = 1 \<or> n = 2 then Some zero_nonce else None)"
  "map_of sample_ledger (cur_key sample_env (address_to_bytes (sample_address n)) (replicate 32 c)) =
     (if (n = 1 \<or> n = 2) \<and> (c = 7 \<or> c = 8) then Some (as_bytes ''100'') else None)"
  "map_of sample_ledger (dot_key (e_hex sample_env a) ''adr'') = None"
  by (auto simp: sample_ledger_def sample_account_def asset_key[OF sample_laws(3)])

lemmas sample_run = get_must_def get_balance_def credited_def put_balance_def Let_def
  sample_hundred sample_zero sample_nonce

lemma sample_hex_eq [simp]: "e_hex sample_env a = e_hex sample_env b \<longleftrightarrow> a = b"
  by (simp add: sample_env_def sample_hex_inj)

theorem send_moves_amount_and_fee_witness:
  "\<exists>t'. send_apply sample_env (sample_send 2 8) sample_ledger = Some t' \<and>
     stored sample_env (\<lambda>d. d) t' (cur_key sample_env (address_to_bytes (sample_address 2)) (replicate 32 7)) = 130"
proof -
  have "send_apply sample_env (sample_send 2 8) sample_ledger \<noteq> None"
    by (simp add: send_apply_def send_other_def sample_send_def sample_run)
  then obtain t' where run: "send_apply sample_env (sample_send 2 8) sample_ledger = Some t'" by blast
  have acc: "snd_from (sample_send 2 8) \<noteq> snd_to (sample_send 2 8)" "wf_address (snd_from (sample_send 2 8))"
      "wf_address (snd_to (sample_send 2 8))"
    by (simp_all add: sample_send_def sample_address_def wf_normal_def)
  have "stored sample_env (\<lambda>d. d) sample_ledger
      (cur_key sample_env (address_to_bytes (sample_address 2)) (replicate 32 7)) = 100"
    by (simp add: stored_def) code_simp
  with send_moves_amount_and_fee[OF sample_laws(1,3,4) run _ acc,
      of "address_to_bytes (sample_address 2)" "replicate 32 7"] run
  show ?thesis by (auto simp: no_balance_def sample_send_def send_delta_def)
qed

text \<open>
  C18.  A transfer of currency to oneself creates money: when the fee is paid in the same currency
  the account ends up with the amount more than before, and the fee is not taken.
\<close>

theorem send_to_self_creates_money:
  assumes laws: "trie_law E" "hex_law E" "decimal_law E val"
    and run: "send_apply E tx t = Some t'"
    and currency: "e_get E t (dot_key (e_hex E (snd_asset_hash tx)) ''adr'') = Some None"
    and self: "snd_from tx = snd_to tx" "snd_fee_hash tx = snd_asset_hash tx"
  shows "stored E val t' (cur_key E (address_to_bytes (snd_from tx)) (snd_asset_hash tx)) =
    stored E val t (cur_key E (address_to_bytes (snd_from tx)) (snd_asset_hash tx)) + val (balance_inner (snd_amount tx))"
  using assms by (rule send_to_self_stored)

lemma sample_stored:
  assumes "n = 1 \<or> n = 2" "c = 7 \<or> c = 8"
  shows "stored sample_env (\<lambda>d. d) sample_ledger
    (cur_key sample_env (address_to_bytes (sample_address n)) (replicate 32 c)) = 100"
proof -
  have "d_parse (e_dec sample_env) (map (\<lambda>b. char_of (unat b)) (as_bytes ''100'')) = Some 100" by code_simp
  with assms show ?thesis by (simp add: stored_def)
qed

theorem send_to_self_creates_money_witness:
  "\<exists>t'. send_apply sample_env (sample_send 1 7) sample_ledger = Some t' \<and>
     stored sample_env (\<lambda>d. d) t' (cur_key sample_env (address_to_bytes (sample_address 1)) (replicate 32 7)) = 130"
proof -
  have "send_apply sample_env (sample_send 1 7) sample_ledger \<noteq> None"
    by (simp add: send_apply_def send_same_def sample_send_def sample_run)
  then obtain t' where run: "send_apply sample_env (sample_send 1 7) sample_ledger = Some t'" by blast
  from send_to_self_creates_money[OF sample_laws(1,3,4) run] run sample_stored[of 1 7]
  show ?thesis by (auto simp: sample_send_def)
qed

text \<open>
  A transfer of stock is free of charge: the fee is computed, but the balance that pays it is
  never written, so that no balance of any account but those of the stock changes.
\<close>

theorem stock_transfer_never_pays_the_fee:
  assumes laws: "trie_law E" "hex_law E" "\<And>xs. e_rlp_encode E xs \<noteq> []"
    and run: "send_apply E tx t = Some t'"
    and stock: "e_get E t (dot_key (e_hex E (snd_asset_hash tx)) ''adr'') \<noteq> Some None"
    and fee: "asset \<noteq> snd_asset_hash tx"
  shows "e_get E t' (cur_key E addr asset) = e_get E t (cur_key E addr asset)"
  using assms by (rule send_stock_fee)

definition sample_stock_ledger :: sample_trie where
  "sample_stock_ledger =
     [(dot_key (e_hex sample_env (replicate 32 9)) ''adr'', [3]),
      (dot_key (e_hex sample_env [3]) ''sm'', sm_to_bytes sample_rlp (\<lambda>es. es)
        \<lparr>sm_entries = [(NormalAddress (replicate 32 1), 100)], sm_issued = 100\<rparr>),
      (cur_key sample_env (address_to_bytes (sample_address 1)) (replicate 32 9), encode_be_u32 100)] @ sample_ledger"

definition sample_stock_send :: "int Send" where
  "sample_stock_send = (sample_send 2 8)\<lparr>snd_asset_hash := replicate 32 9\<rparr>"

lemma sample_stock_map:
  "must (sm_from_bytes (e_rlp_decode sample_env) (sm_to_bytes sample_rlp (\<lambda>es. es)
      \<lparr>sm_entries = [(NormalAddress (replicate 32 1), 100)], sm_issued = 100\<rparr>)) =
    Some \<lparr>sm_entries = [(NormalAddress (replicate 32 1), 100)], sm_issued = 100\<rparr>"
  using sm_from_entries_append[of "[]" "[(NormalAddress (replicate 32 1), 100)]" 0]
  by (simp add: must_def sm_from_bytes_def sm_to_bytes_def sample_env_def sample_unrlp_rlp sm_new_def
      wf_normal_def total_shares_def)

theorem stock_transfer_never_pays_the_fee_witness:
  "\<exists>t'. send_apply sample_env sample_stock_send sample_stock_ledger = Some t' \<and>
     e_get sample_env t' (cur_key sample_env (address_to_bytes (sample_address 1)) (replicate 32 8)) =
       Some (Some (as_bytes ''100''))"
proof -
  have dec: "decode_be_u32 (encode_be_u32 100) = Some 100" using be_u32.dec_enc[of 100 "[]"] by simp
  have "d_print (e_dec sample_env) 30 = ''30''" by code_simp
  then have amount: "parse_u32 (d_print (e_dec sample_env) 30) = Some 30"
    by (simp add: parse_u32_def is_digit_def)
  have owner: "unwrap_normal (sample_address n) = Some (NormalAddress (replicate 32 n))" for n
    by (simp add: unwrap_normal_def sample_address_def)
  note keys = asset_key[OF sample_laws(3)] asset_key[OF sample_laws(3), THEN not_sym] dot_key_hex[OF sample_laws(3)]
  have get: "map_of sample_stock_ledger (nonce_key sample_env (address_to_bytes (sample_address n))) =
      (if n = 1 \<or> n = 2 then Some zero_nonce else None)"
    "map_of sample_stock_ledger (dot_key (e_hex sample_env (replicate 32 9)) ''adr'') = Some [3]"
    "map_of sample_stock_ledger (dot_key (e_hex sample_env [3]) ''sm'') = Some (sm_to_bytes sample_rlp (\<lambda>es. es)
        \<lparr>sm_entries = [(NormalAddress (replicate 32 1), 100)], sm_issued = 100\<rparr>)"
    "map_of sample_stock_ledger (cur_key sample_env (address_to_bytes (sample_address n)) (replicate 32 c)) =
      (if n = 1 \<and> c = 9 then Some (encode_be_u32 100)
       else map_of sample_ledger (cur_key sample_env (address_to_bytes (sample_address n)) (replicate 32 c)))" for n c
    by (auto simp: sample_stock_ledger_def keys)
  have "send_apply sample_env sample_stock_send sample_stock_ledger \<noteq> None"
    by (simp add: send_apply_def send_stock_def sample_stock_send_def sample_send_def sample_run get dec amount
        get_share_map_def sample_stock_map put_share_map_def checked_sub_def transfer_shares_def
        owner)
  then obtain t' where run: "send_apply sample_env sample_stock_send sample_stock_ledger = Some t'" by blast
  from stock_transfer_never_pays_the_fee[OF sample_laws(1,3,6) run,
      of "replicate 32 8" "address_to_bytes (sample_address 1)"] run
  show ?thesis by (auto simp: sample_stock_send_def sample_send_def get)
qed

text \<open>
  C19.  A burn that \<open>validate\<close> accepts can be applied, unless the nonce of the burner is the last
  64-bit number, and leaves neither the burnt balance nor the one that pays the fee negative.
\<close>

theorem valid_burn_applies:
  assumes laws: "trie_law E" "trie_total E" "hex_law E" "decimal_law E val"
    and zero: "zero_balance E = Some z" "val (balance_inner z) = 0"
    and valid: "burn_validate E tx t = Some True"
    and nonce: "\<And>bin. e_get E t (nonce_key E (address_to_bytes (brn_burner tx))) = Some (Some bin) \<Longrightarrow> next_nonce bin \<noteq> None"
  shows "\<exists>t'. burn_apply E tx t = Some t' \<and>
    0 \<le> stored E val t' (cur_key E (address_to_bytes (brn_burner tx)) (brn_asset_hash tx)) \<and>
    0 \<le> stored E val t' (cur_key E (address_to_bytes (brn_burner tx)) (brn_fee_hash tx))"
  using assms by (rule burn_valid_applies)

definition sample_burn :: "int Burn" where
  "sample_burn = \<lparr>brn_burner = sample_address 1, brn_amount = Balance 30, brn_fee = Balance 70,
     brn_asset_hash = replicate 32 7, brn_fee_hash = replicate 32 7, brn_hash = Some (replicate 32 0),
     brn_signature = Some sample_signature\<rparr>"

lemma sample_signed:
  "validate_signature sample_env t (sample_address 1) (Some sample_signature) m = Some True"
  by (simp add: validate_signature_def check_sig_def sample_address_def sample_signature_def sample_env_def)

theorem valid_burn_applies_witness:
  "burn_validate sample_env sample_burn sample_ledger = Some True \<and>
     (\<exists>t'. burn_apply sample_env sample_burn sample_ledger = Some t' \<and>
       0 \<le> stored sample_env (\<lambda>d. d) t' (cur_key sample_env (address_to_bytes (sample_address 1)) (replicate 32 7)))"
proof -
  have "d_eq (e_dec sample_env) 30 0 = False" "d_ge (e_dec sample_env) 0 0" by (simp_all add: sample_env_def sample_decimal_def)
  then have valid: "burn_validate sample_env sample_burn sample_ledger = Some True"
    by (simp add: burn_validate_def sample_burn_def sample_run sample_signed get_or_false_def)
  from valid_burn_applies[OF sample_laws(1-4) sample_zero _ valid] valid show ?thesis
    by (simp add: sample_burn_def sample_run)
qed

text \<open>
  The maximal supply does not bound what is minted: a mint transaction can be applied any
  number of times, every time the receiver gets the amount, and the coin supply and the maximum that
  \<open>validate\<close> compares stay what they were.
\<close>

theorem minting_leaves_the_supply:
  fixes val :: "'d \<Rightarrow> 'v::linordered_idom"
  assumes laws: "trie_law E" "hex_law E" "decimal_law E val"
    and run: "repeatm n (mint_apply E tx) t = Some t'"
    and receiver: "e_get E t (nonce_key E (address_to_bytes (mnt_receiver tx))) \<noteq> Some None"
    and fee: "address_to_bytes (mnt_minter tx) \<noteq> address_to_bytes (mnt_receiver tx) \<or> mnt_fee_hash tx \<noteq> mnt_asset_hash tx"
  shows "stored E val t' (cur_key E (address_to_bytes (mnt_receiver tx)) (mnt_asset_hash tx)) =
      stored E val t (cur_key E (address_to_bytes (mnt_receiver tx)) (mnt_asset_hash tx)) +
        of_nat n * val (balance_inner (mnt_amount tx)) \<and>
    e_get E t' (dot_key (e_hex E (mnt_asset_hash tx)) ''s'') = e_get E t (dot_key (e_hex E (mnt_asset_hash tx)) ''s'') \<and>
    e_get E t' (dot_key (e_hex E (mnt_asset_hash tx)) ''x'') = e_get E t (dot_key (e_hex E (mnt_asset_hash tx)) ''x'')"
  using assms by (rule mint_repeated)

definition sample_mint :: "int Mint" where
  "sample_mint = \<lparr>mnt_minter = sample_address 1, mnt_receiver = sample_address 2, mnt_amount = Balance 30,
     mnt_asset_hash = replicate 32 7, mnt_fee_hash = replicate 32 8, mnt_fee = Balance 1,
     mnt_hash = Some (replicate 32 0), mnt_signature = Some sample_signature\<rparr>"

theorem minting_leaves_the_supply_witness:
  "\<exists>t'. repeatm 2 (mint_apply sample_env sample_mint) sample_ledger = Some t' \<and>
     stored sample_env (\<lambda>d. d) t' (cur_key sample_env (address_to_bytes (sample_address 2)) (replicate 32 7)) = 160"
proof -
  have nonce: "next_nonce (encode_be_u64 1) = Some (encode_be_u64 2)"
    using be_u64.dec_enc[of 1 "[]"] by (simp add: next_nonce_def checked_add_def)
  have "repeatm 2 (mint_apply sample_env sample_mint) sample_ledger \<noteq> None"
    by (simp add: numeral_2_eq_2 mint_apply_def mint_other_def sample_mint_def sample_run nonce sample_printed)
  then obtain t' where run: "repeatm 2 (mint_apply sample_env sample_mint) sample_ledger = Some t'" by blast
  from minting_leaves_the_supply[OF sample_laws(1,3,4) run] run sample_stored[of 2 7]
  show ?thesis by (auto simp: sample_mint_def)
qed

text \<open>
  C20.  A dividend replaces what the shareholder owned: after \<open>Pay\<close> the balance of every
  shareholder in the paid currency is the dividend alone.
\<close>

theorem dividend_overwrites_the_balance:
  assumes laws: "trie_law E" "hex_law E" "decimal_law E val" "\<And>es. mset (e_iter E es) = mset es"
    and run: "pay_apply E tx t = Some t'"
    and sm: "get_share_map E t (dot_key (e_hex E (shareholders_to_bytes (pay_payer tx))) ''sm'') = Some sm"
    and holder: "(a, v) \<in> set (sm_entries sm)" "distinct (map fst (sm_entries sm))"
  shows "\<exists>b. dividend E (pay_amount tx) v (sm_issued sm) = Some b \<and>
    stored E val t' (cur_key E (normal_to_bytes a) (pay_asset_hash tx)) = val (balance_inner b)"
  using assms by (rule pay_overwrites)

definition sample_company :: ShareholdersAddress where
  "sample_company = ShareholdersAddress (replicate 32 5)"

definition sample_pay :: "int Pay" where
  "sample_pay = \<lparr>pay_payer = sample_company, pay_asset_hash = replicate 32 7, pay_fee_hash = replicate 32 7,
     pay_amount = Balance 30, pay_fee = Balance 1, pay_hash = None, pay_signature = None\<rparr>"

definition sample_company_ledger :: sample_trie where
  "sample_company_ledger =
     [(nonce_key sample_env (shareholders_to_bytes sample_company), zero_nonce),
      (cur_key sample_env (shareholders_to_bytes sample_company) (replicate 32 7), as_bytes ''100''),
      (dot_key (e_hex sample_env (shareholders_to_bytes sample_company)) ''sm'', sm_to_bytes sample_rlp (\<lambda>es. es)
        \<lparr>sm_entries = [(NormalAddress (replicate 32 1), 100)], sm_issued = 100\<rparr>)] @ sample_ledger"

theorem dividend_overwrites_the_balance_witness:
  "\<exists>t'. pay_apply sample_env sample_pay sample_company_ledger = Some t' \<and>
     stored sample_env (\<lambda>d. d) sample_company_ledger
       (cur_key sample_env (address_to_bytes (sample_address 1)) (replicate 32 7)) = 100 \<and>
     stored sample_env (\<lambda>d. d) t' (cur_key sample_env (address_to_bytes (sample_address 1)) (replicate 32 7)) = 30"
proof -
  note keys = asset_key[OF sample_laws(3)] asset_key[OF sample_laws(3), THEN not_sym] dot_key_hex[OF sample_laws(3)]
  have company: "shareholders_to_bytes sample_company \<noteq> address_to_bytes (sample_address n)"
    "address_to_bytes (sample_address n) \<noteq> shareholders_to_bytes sample_company" for n
    by (simp_all add: sample_company_def sample_address_def shareholders_to_bytes_def normal_to_bytes_def)
  have get: "map_of sample_company_ledger (nonce_key sample_env (shareholders_to_bytes sample_company)) = Some zero_nonce"
    "map_of sample_company_ledger (cur_key sample_env (shareholders_to_bytes sample_company) (replicate 32 7)) =
      Some (as_bytes ''100'')"
    "map_of sample_company_ledger (cur_key sample_env (address_to_bytes (sample_address 1)) (replicate 32 7)) =
      Some (as_bytes ''100'')"
    "map_of sample_company_ledger (dot_key (e_hex sample_env (shareholders_to_bytes sample_company)) ''sm'') =
      Some (sm_to_bytes sample_rlp (\<lambda>es. es) \<lparr>sm_entries = [(NormalAddress (replicate 32 1), 100)], sm_issued = 100\<rparr>)"
    by (auto simp: sample_company_ledger_def keys company)
  have div: "dividend sample_env (Balance 30) 100 100 = Some (Balance 30)" by code_simp
  have sm: "get_share_map sample_env sample_company_ledger
      (dot_key (e_hex sample_env (shareholders_to_bytes (pay_payer sample_pay))) ''sm'') =
    Some \<lparr>sm_entries = [(NormalAddress (replicate 32 1), 100)], sm_issued = 100\<rparr>"
    by (simp add: get_share_map_def get_must_def sample_pay_def get sample_stock_map)
  have iter: "e_iter sample_env es = es" for es by (simp add: sample_env_def)
  have "pay_apply sample_env sample_pay sample_company_ledger \<noteq> None"
    using sm by (simp add: pay_apply_def sample_pay_def sample_run get iter pay_dividend_def div)
  then obtain t' where run: "pay_apply sample_env sample_pay sample_company_ledger = Some t'" by blast
  have "d_parse (e_dec sample_env) (map (\<lambda>b. char_of (unat b)) (as_bytes ''100'')) = Some 100" by code_simp
  then have "stored sample_env (\<lambda>d. d) sample_company_ledger
      (cur_key sample_env (address_to_bytes (sample_address 1)) (replicate 32 7)) = 100"
    by (simp add: stored_def get)
  with dividend_overwrites_the_balance[OF sample_laws(1,3,4,7) run sm, of "NormalAddress (replicate 32 1)" 100] run div
  show ?thesis by (auto simp: sample_pay_def sample_address_def)
qed

text \<open>
  C21.  After \<open>CreateCurrency\<close> the currency is complete and cannot be created again: the receiver
  owns the whole supply, precision and supply are stored, the hash is in the list of currencies, and
  no \<open>CreateCurrency\<close> or \<open>CreateMintable\<close> of the same hash is valid in the new state.
\<close>

theorem currency_is_created_once:
  assumes laws: "trie_law E" "hex_law E" "decimal_law E val" "rlp_law E" "\<And>xs. e_rlp_encode E xs \<noteq> []"
    and run: "create_currency_apply E tx t = Some t'"
  shows "e_get E t' (dot_key (e_hex E (cc_asset_hash tx)) ''p'') = Some (Some [cc_precision tx]) \<and>
    e_get E t' (dot_key (e_hex E (cc_asset_hash tx)) ''s'') = Some (Some (encode_be_u64 (cc_coin_supply tx))) \<and>
    registered E t' (cc_asset_hash tx) \<and>
    (\<exists>b. whole_balance E (cc_coin_supply tx) = Some b \<and>
      stored E val t' (cur_key E (address_to_bytes (cc_receiver tx)) (cc_asset_hash tx)) = val (balance_inner b)) \<and>
    create_currency_validate E (tx2\<lparr>cc_asset_hash := cc_asset_hash tx\<rparr>) t' \<noteq> Some True \<and>
    create_mintable_validate E (tx3\<lparr>cm_asset_hash := cc_asset_hash tx\<rparr>) t' \<noteq> Some True"
  using create_currency_creates[OF assms] create_currency_valid_new[of E "tx2\<lparr>cc_asset_hash := cc_asset_hash tx\<rparr>" t']
    create_mintable_valid_new[of E "tx3\<lparr>cm_asset_hash := cc_asset_hash tx\<rparr>" t']
  by auto

definition sample_create :: "int CreateCurrency" where
  "sample_create = \<lparr>cc_creator = NormalAddress (replicate 32 1), cc_receiver = sample_address 2,
     cc_asset_hash = replicate 32 9, cc_coin_supply = 100, cc_precision = 18, cc_fee_hash = replicate 32 8,
     cc_fee = Balance 1, cc_hash = None, cc_signature = None\<rparr>"

definition sample_listed_ledger :: sample_trie where
  "sample_listed_ledger = [(as_bytes ''ci'', zero_nonce), (group_key 0, sample_rlp [replicate 32 7])] @ sample_ledger"

theorem currency_is_created_once_witness:
  "\<exists>t'. create_currency_apply sample_env sample_create sample_listed_ledger = Some t' \<and>
     registered sample_env t' (replicate 32 9) \<and> create_currency_validate sample_env sample_create t' \<noteq> Some True"
proof -
  note keys = list_keys[OF sample_laws(3)]
  have ci: "group_key i \<noteq> as_bytes ''ci''" for i by (simp add: group_key_def dot_key_def)
  have creator: "normal_to_bytes (NormalAddress (replicate 32 1)) = address_to_bytes (sample_address 1)"
    by (simp add: sample_address_def)
  have get: "map_of sample_listed_ledger (nonce_key sample_env a) = map_of sample_ledger (nonce_key sample_env a)"
    "map_of sample_listed_ledger (cur_key sample_env a c) = map_of sample_ledger (cur_key sample_env a c)"
    "map_of sample_listed_ledger (as_bytes ''ci'') = Some zero_nonce"
    "map_of sample_listed_ledger (group_key 0) = Some (sample_rlp [replicate 32 7])" for a c
    using ci by (simp_all add: sample_listed_ledger_def nonce_key_def cur_key_def keys keys[THEN not_sym])
  have group: "current_group sample_env sample_listed_ledger = Some (0, 1, [replicate 32 7])"
    using be_u64.dec_enc[of 0 "[]"] sample_unrlp_rlp
    by (simp add: current_group_def get_must_def get sample_zero_nonce checked_add_def) (simp add: sample_env_def)
  have whole: "whole_balance sample_env 100 = Some (Balance 100)" by code_simp
  have "create_currency_apply sample_env sample_create sample_listed_ledger \<noteq> None"
    by (simp add: create_currency_apply_def sample_create_def creator group sample_run get whole
        register_currency_def create_currency_entries_def CUR_GROUP_CAPACITY_def)
  then obtain t' where run: "create_currency_apply sample_env sample_create sample_listed_ledger = Some t'" by blast
  from currency_is_created_once[OF sample_laws(1,3,4,5,6) run, of sample_create] run
  show ?thesis by (auto simp: sample_create_def)
qed

text \<open>
  C22.  The wire formats round trip and do not overlap: a well-formed transaction of any of the eleven
  types is encoded, the decoder of its type byte gives it back, and no other well-formed transaction
  of any type has the same bytes.
\<close>

theorem transactions_round_trip:
  assumes "rlp_law E" "wf_tx E tx"
  shows "\<exists>bytes. tx_to_bytes E tx = Inr bytes \<and> tx_decode E bytes = Some (Inr tx) \<and>
    (\<forall>other. wf_tx E other \<and> tx_to_bytes E other = Inr bytes \<longrightarrow> other = tx)"
  using tx_round_trip[OF assms] tx_bytes_unique[OF assms(1) _ assms(2)] by auto

lemma sample_wf:
  "wf_balance sample_env (Balance 30)" "wf_balance sample_env (Balance 1)" "wf_signature sample_signature"
  "length (signature_to_bytes (e_rlp_encode sample_env) sample_signature) = 65" "wf_address (sample_address n)"
proof -
  have "length (balance_to_bytes (e_dec sample_env) (Balance 30)) = 2" "length (balance_to_bytes (e_dec sample_env) (Balance 1)) = 1"
    by code_simp+
  then show "wf_balance sample_env (Balance 30)" "wf_balance sample_env (Balance 1)"
    by (simp_all add: wf_balance_def sample_printed)
qed (simp_all add: sample_signature_def sample_address_def wf_sig_def sig_to_bytes_def wf_normal_def)

theorem transactions_round_trip_witness:
  "\<exists>bytes. tx_to_bytes sample_env (Tx_Send (sample_send 2 8)) = Inr bytes \<and>
     tx_decode sample_env bytes = Some (Inr (Tx_Send (sample_send 2 8)))"
proof -
  have "wf_tx sample_env (Tx_Send (sample_send 2 8))" by (simp add: wf_send_def sample_send_def sample_wf)
  from transactions_round_trip[OF sample_laws(5) this] show ?thesis by blast
qed

text \<open>
  C23.  The signature of \<open>OpenContract\<close> does not bind what it spends: amount, currency, nonce and address
  can be replaced without invalidating signature or hash, and the owner then pays the replaced amount
  in the replaced currency.
\<close>

theorem contract_signature_leaves_amount_open:
  assumes laws: "trie_law E" "hex_law E" "decimal_law E val"
    and forged: "forged = tx\<lparr>oc_amount := amount, oc_asset_hash := asset, oc_address := Some a, oc_nonce := n\<rparr>"
    and run: "open_contract_apply E forged t = Some t'"
    and new: "e_get E t (cur_key E (contract_to_bytes a) asset) = Some None" "asset \<noteq> oc_fee_hash tx"
      "address_to_bytes (oc_owner tx) \<noteq> contract_to_bytes a" "oc_default_state tx \<noteq> []" "oc_code tx \<noteq> []"
  shows "open_contract_verify_sig E forged = open_contract_verify_sig E tx \<and>
    open_contract_verify_hash E forged = open_contract_verify_hash E tx \<and>
    stored E val t' (cur_key E (address_to_bytes (oc_owner tx)) asset) =
      stored E val t (cur_key E (address_to_bytes (oc_owner tx)) asset) - val (balance_inner amount)"
  using new
    open_contract_stored[OF laws run, of a "address_to_bytes (oc_owner tx)" asset]
  by (simp add: forged open_delta_def open_contract_unsigned)

definition sample_open_contract :: "int OpenContract" where
  "sample_open_contract = \<lparr>oc_owner = sample_address 1, oc_code = [1], oc_default_state = [0], oc_amount = Balance 1,
     oc_asset_hash = replicate 32 7, oc_fee = Balance 1, oc_fee_hash = replicate 32 8, oc_self_payable = False,
     oc_nonce = 0, oc_address = None, oc_hash = None, oc_signature = Some sample_signature\<rparr>"

theorem contract_signature_leaves_amount_open_witness:
  "\<exists>forged t'. oc_amount forged = Balance 90 \<and> open_contract_verify_sig sample_env forged = Some True \<and>
     open_contract_apply sample_env forged sample_ledger = Some t' \<and>
     stored sample_env (\<lambda>d. d) t' (cur_key sample_env (address_to_bytes (sample_address 1)) (replicate 32 7)) = 10"
proof -
  let ?a = "ContractAddress (replicate 32 4)"
  let ?f = "sample_open_contract\<lparr>oc_amount := Balance 90, oc_asset_hash := replicate 32 7, oc_address := Some ?a, oc_nonce := 0\<rparr>"
  have a: "contract_to_bytes ?a \<noteq> address_to_bytes (sample_address n)" for n
    by (simp add: sample_address_def normal_to_bytes_def contract_to_bytes_def)
  have get: "map_of sample_ledger (nonce_key sample_env (contract_to_bytes ?a)) = None"
    "map_of sample_ledger (cur_key sample_env (contract_to_bytes ?a) c) = None" for c
    using a by (simp_all add: sample_ledger_def sample_account_def)
  have "open_contract_apply sample_env ?f sample_ledger \<noteq> None"
    by (simp add: open_contract_apply_def open_account_def open_contract_entries_def sample_open_contract_def
        sample_run get)
  then obtain t' where run: "open_contract_apply sample_env ?f sample_ledger = Some t'" by blast
  have sig: "open_contract_verify_sig sample_env sample_open_contract = Some True"
    by (simp add: open_contract_verify_sig_def sample_open_contract_def sample_address_def sample_signature_def
        check_sig_def sample_env_def)
  from contract_signature_leaves_amount_open[OF sample_laws(1,3,4) refl run] a[of 1] get sig sample_stored[of 1 7] run
  show ?thesis by (intro exI[of _ ?f] exI[of _ t']) (auto simp: sample_open_contract_def)
qed

end
