(* ===== verification/Persistent_Db.thy ===== *)
theory Persistent_Db
  imports Prelude
begin

text \<open>
  \<open>persistence/src/persistent_db.rs\<close>, the key-value store under the chain.  The store is the map of the
  in-memory variant; the variant on RocksDB hands the same keys and values to that library, whose
  errors panic.  The constant \<open>rlp::NULL_RLP\<close> and the hash function are parameters.
\<close>

type_synonym db = "u8 list \<rightharpoonup> u8 list"

definition NULL_HASH :: "u8 list" where
  "NULL_HASH = [14, 87, 81, 192, 38, 229, 67, 178, 232, 171, 46, 176, 96, 153, 218, 161, 209, 229, 223, 71,
     119, 143, 119, 135, 250, 171, 69, 205, 241, 47, 227, 168]"

definition NULL_RLP_HASH :: "u8 list" where
  "NULL_RLP_HASH = [218, 34, 59, 9, 150, 124, 91, 210, 17, 7, 67, 48, 126, 10, 246, 211, 159, 97, 114, 10, 167,
     33, 138, 100, 10, 8, 238, 209, 45, 213, 117, 199]"

definition new_in_memory :: db where
  "new_in_memory = Map.empty"

definition db_get :: "u8 list \<Rightarrow> db \<Rightarrow> u8 list \<Rightarrow> u8 list option" where
  "db_get null_rlp m k = (if k = NULL_RLP_HASH then Some null_rlp else m k)"

definition db_contains :: "db \<Rightarrow> u8 list \<Rightarrow> bool" where
  "db_contains m k \<longleftrightarrow> k = NULL_RLP_HASH \<or> m k \<noteq> None"

definition db_emplace :: "db \<Rightarrow> u8 list \<Rightarrow> u8 list \<Rightarrow> db" where
  "db_emplace m k v = (if v = NULL_RLP_HASH then m else m(k \<mapsto> v))"

definition db_insert :: "u8 list \<Rightarrow> (u8 list \<Rightarrow> u8 list) \<Rightarrow> db \<Rightarrow> u8 list \<Rightarrow> u8 list \<times> db" where
  "db_insert null_rlp hash_slice m v =
     (if v = null_rlp then (NULL_RLP_HASH, m) else (hash_slice v, m(hash_slice v \<mapsto> v)))"

definition db_remove :: "db \<Rightarrow> u8 list \<Rightarrow> db" where
  "db_remove m k = (if k = NULL_RLP_HASH then m else m(k := None))"

section \<open>The store keeps what is put into it\<close>

lemma db_get_emplace:
  "v \<noteq> NULL_RLP_HASH \<Longrightarrow> k \<noteq> NULL_RLP_HASH \<Longrightarrow>
     db_get n (db_emplace m k v) = (db_get n m)(k := Some v)"
  by (auto simp: db_get_def db_emplace_def fun_eq_iff)

lemma db_get_remove:
  "k \<noteq> NULL_RLP_HASH \<Longrightarrow> db_get n (db_remove m k) = (db_get n m)(k := None)"
  by (auto simp: db_get_def db_remove_def fun_eq_iff)

lemma db_contains_iff: "db_contains m k \<longleftrightarrow> db_get n m k \<noteq> None"
  by (auto simp: db_contains_def db_get_def)

lemma db_insert_get:
  assumes "db_insert n h m v = (k, m')" "v = n \<or> h v \<noteq> NULL_RLP_HASH"
  shows "db_get n m' k = Some v"
  using assms by (auto simp: db_insert_def db_get_def split: if_splits)

end
