(* ===== verification/Blocks.thy ===== *)
theory Blocks
  imports Tx_Open Persistent_Db
begin

text \<open>
  \<open>chain/src/block.rs\<close>, \<open>easy_chain/block.rs\<close> and \<open>hard_chain/block.rs\<close>: the interface of a block and
  the two types of blocks.  Timestamps are values of the crate \<open>chrono\<close>: the parameter \<open>clock\<close> has their
  printing (\<open>to_rfc3339\<close>), their parsing (\<open>DateTime::from_str\<close>) and the date of the genesis blocks.
\<close>

record 'ts clock =
  to_rfc3339 :: "'ts \<Rightarrow> string"
  ts_from_str :: "string \<Rightarrow> 'ts option"
  genesis_time :: 'ts

text \<open>The trait \<open>Block\<close>, as far as the chain uses it; \<open>to_bytes\<close> panics on missing fields.\<close>

record 'b block_ops =
  b_genesis :: 'b
  block_hash :: "'b \<Rightarrow> hash option"
  parent_hash :: "'b \<Rightarrow> hash option"
  b_height :: "'b \<Rightarrow> u64"
  b_to_bytes :: "'b \<Rightarrow> u8 list option"
  b_from_bytes :: "u8 list \<Rightarrow> 'b parsed"

section \<open>Easy blocks\<close>

record 'ts EasyBlock =
  eb_height :: u64
  eb_parent_hash :: "hash option"
  eb_merkle_root :: "hash option"
  eb_hash :: "hash option"
  eb_timestamp :: 'ts

definition easy_new :: "hash option \<Rightarrow> u64 \<Rightarrow> 'ts \<Rightarrow> 'ts EasyBlock" where
  "easy_new parent height now = \<lparr>eb_height = height, eb_parent_hash = parent, eb_merkle_root = None,
     eb_hash = None, eb_timestamp = now\<rparr>"

definition easy_hash_message :: "'ts clock \<Rightarrow> 'ts EasyBlock \<Rightarrow> u8 list option" where
  "easy_hash_message T b = do {
     merkle_root \<leftarrow> eb_merkle_root b;
     Some (encode_be_u64 (eb_height b) @ (case eb_parent_hash b of Some h \<Rightarrow> h | None \<Rightarrow> []) @
       merkle_root @ as_bytes (to_rfc3339 T (eb_timestamp b)))
   }"

definition easy_compute_hash :: "(u8 list \<Rightarrow> hash) \<Rightarrow> 'ts clock \<Rightarrow> 'ts EasyBlock \<Rightarrow> 'ts EasyBlock option" where
  "easy_compute_hash hash_slice T b = do {
     message \<leftarrow> easy_hash_message T b;
     Some (b\<lparr>eb_hash := Some (hash_slice message)\<rparr>)
   }"

definition easy_verify_hash :: "(u8 list \<Rightarrow> hash) \<Rightarrow> 'ts clock \<Rightarrow> 'ts EasyBlock \<Rightarrow> bool option" where
  "easy_verify_hash hash_slice T b = do {
     message \<leftarrow> easy_hash_message T b;
     hash \<leftarrow> eb_hash b;
     Some (hash = hash_slice message)
   }"

text \<open>The random hash of the source is overwritten at once.\<close>

definition easy_genesis :: "(u8 list \<Rightarrow> hash) \<Rightarrow> 'ts clock \<Rightarrow> 'ts EasyBlock option" where
  "easy_genesis hash_slice T = easy_compute_hash hash_slice T \<lparr>eb_height = 0, eb_parent_hash = None,
     eb_merkle_root = Some NULL_HASH, eb_hash = None, eb_timestamp = genesis_time T\<rparr>"

definition easy_eq :: "'ts EasyBlock \<Rightarrow> 'ts EasyBlock \<Rightarrow> bool option" where
  "easy_eq a b = do { x \<leftarrow> eb_hash a; y \<leftarrow> eb_hash b; Some (x = y) }"

section \<open>Hard blocks\<close>

record 'ts HardBlock =
  hb_easy_block_hash :: hash
  hb_height :: u64
  hb_parent_hash :: "hash option"
  hb_merkle_root :: "hash option"
  hb_hash :: "hash option"
  hb_timestamp :: 'ts

definition HARD_PROOF_SIZE :: nat where
  "HARD_PROOF_SIZE = 42"

definition HARD_BLOCK_TYPE :: u8 where
  "HARD_BLOCK_TYPE = 0"

definition hard_new :: "hash option \<Rightarrow> u64 \<Rightarrow> hash \<Rightarrow> 'ts \<Rightarrow> 'ts HardBlock" where
  "hard_new parent height easy_block_hash now = \<lparr>hb_easy_block_hash = easy_block_hash, hb_height = height,
     hb_parent_hash = parent, hb_merkle_root = None, hb_hash = None, hb_timestamp = now\<rparr>"

definition calculate_merkle_root :: "'ts HardBlock \<Rightarrow> 'ts HardBlock" where
  "calculate_merkle_root b = b\<lparr>hb_merkle_root := Some NULL_HASH\<rparr>"

definition hard_hash_message :: "'ts clock \<Rightarrow> 'ts HardBlock \<Rightarrow> u8 list option" where
  "hard_hash_message T b = do {
     merkle_root \<leftarrow> hb_merkle_root b;
     Some (encode_be_u64 (hb_height b) @ (case hb_parent_hash b of Some h \<Rightarrow> h | None \<Rightarrow> []) @
       merkle_root @ as_bytes (to_rfc3339 T (hb_timestamp b)))
   }"

definition hard_compute_hash :: "(u8 list \<Rightarrow> hash) \<Rightarrow> 'ts clock \<Rightarrow> 'ts HardBlock \<Rightarrow> 'ts HardBlock option" where
  "hard_compute_hash hash_slice T b = do {
     message \<leftarrow> hard_hash_message T b;
     Some (b\<lparr>hb_hash := Some (hash_slice message)\<rparr>)
   }"

definition hard_verify_hash :: "(u8 list \<Rightarrow> hash) \<Rightarrow> 'ts clock \<Rightarrow> 'ts HardBlock \<Rightarrow> bool option" where
  "hard_verify_hash hash_slice T b = do {
     message \<leftarrow> hard_hash_message T b;
     hash \<leftarrow> hb_hash b;
     Some (hash = hash_slice message)
   }"

definition hard_genesis :: "(u8 list \<Rightarrow> hash) \<Rightarrow> 'ts clock \<Rightarrow> 'ts HardBlock option" where
  "hard_genesis hash_slice T = do {
     easy \<leftarrow> easy_genesis hash_slice T;
     easy_block_hash \<leftarrow> eb_hash easy;
     hard_compute_hash hash_slice T \<lparr>hb_easy_block_hash = easy_block_hash, hb_height = 0, hb_parent_hash = None,
       hb_merkle_root = Some NULL_HASH, hb_hash = None, hb_timestamp = genesis_time T\<rparr>
   }"

definition hard_eq :: "'ts HardBlock \<Rightarrow> 'ts HardBlock \<Rightarrow> bool option" where
  "hard_eq a b = do { x \<leftarrow> hb_hash a; y \<leftarrow> hb_hash b; Some (x = y) }"

definition hard_to_bytes :: "'ts clock \<Rightarrow> 'ts HardBlock \<Rightarrow> u8 list option" where
  "hard_to_bytes T b = do {
     hash \<leftarrow> hb_hash b;
     parent \<leftarrow> hb_parent_hash b;
     merkle_root \<leftarrow> hb_merkle_root b;
     Some ([HARD_BLOCK_TYPE] @ encode_be_u64 (hb_height b) @ hash @ hb_easy_block_hash b @ parent @ merkle_root @
       as_bytes (to_rfc3339 T (hb_timestamp b)))
   }"

definition parse_timestamp :: "'ts clock \<Rightarrow> u8 list \<Rightarrow> 'ts parsed" where
  "parse_timestamp T buf = (case from_utf8 buf of
       Some utf8 \<Rightarrow> (case ts_from_str T utf8 of
          Some timestamp \<Rightarrow> Some (Inr timestamp)
        | None \<Rightarrow> fail ''Invalid block timestamp'')
     | None \<Rightarrow> fail ''Invalid block timestamp'')"

definition hard_from_bytes :: "'ts clock \<Rightarrow> u8 list \<Rightarrow> 'ts HardBlock parsed" where
  "hard_from_bytes T bytes =
     attempt (tx_u8 0 ''Bad transaction type'' bytes) (\<lambda>block_type.
     if block_type \<noteq> HARD_BLOCK_TYPE then fail ''Bad block type'' else
     attempt (tx_u64 1 ''Bad height'' bytes) (\<lambda>height.
     attempt (tx_drain 9 bytes) (\<lambda>(_, buf).
     attempt (field_msg ''Incorrect packet structure 1'' 32 buf) (\<lambda>(hash_vec, buf).
     attempt (to_hash hash_vec) (\<lambda>hash.
     attempt (field_msg ''Incorrect packet structure 2'' 32 buf) (\<lambda>(hash_vec, buf).
     attempt (to_hash hash_vec) (\<lambda>easy_block_hash.
     attempt (field_msg ''Incorrect packet structure 3'' 32 buf) (\<lambda>(hash_vec, buf).
     attempt (to_hash hash_vec) (\<lambda>parent.
     attempt (field_msg ''Incorrect packet structure 4'' 32 buf) (\<lambda>(hash_vec, buf).
     attempt (to_hash hash_vec) (\<lambda>merkle_root.
     attempt (parse_timestamp T buf) (\<lambda>timestamp.
     Some (Inr \<lparr>hb_easy_block_hash = easy_block_hash, hb_height = height, hb_parent_hash = Some parent,
       hb_merkle_root = Some merkle_root, hb_hash = Some hash, hb_timestamp = timestamp\<rparr>)))))))))))))"

text \<open>\<open>hard_genesis\<close> does not panic (\<open>hard_genesis_eq\<close>).\<close>

definition hard_ops :: "(u8 list \<Rightarrow> hash) \<Rightarrow> 'ts clock \<Rightarrow> 'ts HardBlock block_ops" where
  "hard_ops hash_slice T = \<lparr>b_genesis = the (hard_genesis hash_slice T), block_hash = hb_hash,
     parent_hash = hb_parent_hash, b_height = hb_height, b_to_bytes = hard_to_bytes T,
     b_from_bytes = hard_from_bytes T\<rparr>"

lemma hard_genesis_eq: "\<exists>g h. hard_genesis H T = Some g \<and> hb_hash g = Some h \<and> hb_height g = 0 \<and> hb_parent_hash g = None"
  by (simp add: hard_genesis_def easy_genesis_def easy_compute_hash_def easy_hash_message_def
      hard_compute_hash_def hard_hash_message_def)

section \<open>What the chain relies on\<close>

text \<open>
  The contract of the trait: an accepted block is stored and read back unchanged, and the numbers that
  the chain stores beside the blocks, and the empty node of the trie, are not mistaken for blocks.
\<close>

locale block_laws =
  fixes B :: "'b block_ops" and wf :: "'b \<Rightarrow> bool" and null_rlp :: "u8 list"
  assumes genesis_hash: "\<exists>g. block_hash B (b_genesis B) = Some g"
    and stored_block: "wf b \<Longrightarrow> \<exists>bytes. b_to_bytes B b = Some bytes \<and> b_from_bytes B bytes = Some (Inr b) \<and>
      bytes \<noteq> NULL_RLP_HASH"
    and has_hash: "wf b \<Longrightarrow> \<exists>h. block_hash B b = Some h"
    and has_parent: "wf b \<Longrightarrow> \<exists>p. parent_hash B b = Some p"
    and number_no_block: "b_from_bytes B (encode_be_u64 n) \<noteq> Some (Inr b)"
    and null_no_block: "b_from_bytes B null_rlp \<noteq> Some (Inr b)"

definition wf_hard :: "'ts clock \<Rightarrow> 'ts HardBlock \<Rightarrow> bool" where
  "wf_hard T b \<longleftrightarrow> length (hb_easy_block_hash b) = 32 \<and>
     (\<exists>h. hb_hash b = Some h \<and> length h = 32) \<and> (\<exists>p. hb_parent_hash b = Some p \<and> length p = 32) \<and>
     (\<exists>m. hb_merkle_root b = Some m \<and> length m = 32) \<and> to_rfc3339 T (hb_timestamp b) \<noteq> [] \<and>
     parse_timestamp T (as_bytes (to_rfc3339 T (hb_timestamp b))) = Some (Inr (hb_timestamp b))"

lemma block_header:
  assumes "bytes = [a] @ encode_be_u64 n @ body"
  shows "tx_u8 0 m bytes = Some (Inr a)" "tx_u64 1 m bytes = Some (Inr n)"
    "tx_drain 9 bytes = Some (Inr ([a] @ encode_be_u64 n, body))"
proof -
  show "tx_u64 1 m bytes = Some (Inr n)" by (rule read_at(2)[of _ _ _ body]) (simp add: assms)
  show "tx_drain 9 bytes = Some (Inr ([a] @ encode_be_u64 n, body))"
    using tx_drain_append[of "[a] @ encode_be_u64 n" 9 body] by (simp add: assms field_widths)
qed (simp add: assms tx_u8_def)

lemma hard_roundtrip:
  assumes "wf_hard T b"
  shows "\<exists>bytes. hard_to_bytes T b = Some bytes \<and> hard_from_bytes T bytes = Some (Inr b) \<and> 32 < length bytes"
proof -
  from assms obtain h p m where f: "hb_hash b = Some h" "hb_parent_hash b = Some p" "hb_merkle_root b = Some m"
    and len: "length h = 32" "length p = 32" "length m = 32" "length (hb_easy_block_hash b) = 32"
    by (auto simp: wf_hard_def)
  define bytes where "bytes = [HARD_BLOCK_TYPE] @ encode_be_u64 (hb_height b) @ h @ hb_easy_block_hash b @ p @ m @
    as_bytes (to_rfc3339 T (hb_timestamp b))"
  have "hard_to_bytes T b = Some bytes" by (simp add: hard_to_bytes_def f bytes_def)
  moreover have "hard_from_bytes T bytes = Some (Inr b)"
    using assms len f
    by (simp add: hard_from_bytes_def block_header[OF bytes_def] wire_simps wf_hard_def as_bytes_def
        del: One_nat_def)
  moreover have "32 < length bytes" by (simp add: bytes_def len)
  ultimately show ?thesis by blast
qed

lemma hard_short:
  assumes "length bytes < 9"
  shows "hard_from_bytes T bytes \<noteq> Some (Inr b)"
  using assms
  by (auto simp: hard_from_bytes_def attempt_def tx_u8_def tx_u64_def read_be_def fail_def bind_eq_Some_conv
      split: if_splits option.splits)

interpretation hard: block_laws "hard_ops H T" "wf_hard T" "[128]"
  for H and T :: "'ts clock"
proof
  show "\<exists>g. block_hash (hard_ops H T) (b_genesis (hard_ops H T)) = Some g"
    using hard_genesis_eq[of H T] by (auto simp: hard_ops_def)
  fix b :: "'ts HardBlock" assume "wf_hard T b"
  moreover have "length NULL_RLP_HASH = 32" by (simp add: NULL_RLP_HASH_def)
  ultimately show "\<exists>bytes. b_to_bytes (hard_ops H T) b = Some bytes \<and>
      b_from_bytes (hard_ops H T) bytes = Some (Inr b) \<and> bytes \<noteq> NULL_RLP_HASH"
    using hard_roundtrip[of T b] by (fastforce simp: hard_ops_def)
qed (auto simp: hard_ops_def wf_hard_def hard_short be_u64.enc_width)

section \<open>Hashes\<close>

lemma easy_hash_verifies: "easy_compute_hash H T b = Some b' \<Longrightarrow> easy_verify_hash H T b' = Some True"
  by (auto simp: easy_compute_hash_def easy_verify_hash_def easy_hash_message_def bind_eq_Some_conv)

lemma hard_hash_verifies: "hard_compute_hash H T b = Some b' \<Longrightarrow> hard_verify_hash H T b' = Some True"
  by (auto simp: hard_compute_hash_def hard_verify_hash_def hard_hash_message_def bind_eq_Some_conv)

text \<open>The hash of a hard block does not depend on the easy block it refers to.\<close>

lemma hard_hash_ignores_easy_block:
  "hard_verify_hash H T (b\<lparr>hb_easy_block_hash := e\<rparr>) = hard_verify_hash H T b"
  by (simp add: hard_verify_hash_def hard_hash_message_def)

end
