(* ===== verification/Chain.thy ===== *)
theory Chain
  imports Blocks "HOL-Library.AList"
begin

text \<open>
  \<open>chain/src/chain.rs\<close>: the canonical chain in the store and the pool of orphans around it.  A hash
  map is an association list and a hash set a list without repetitions; \<open>ce_iter\<close> is the order in which
  the keys of a hash map or the elements of a hash set are visited, and \<open>ce_sort\<close> the unstable sort.  The
  loops that follow parent hashes need not end, when parents form a cycle: they are partial
  functions, for which \<open>None\<close> is a panic or no result.  The callback \<open>after_write\<close> is \<open>None\<close> for both types
  of blocks and left out.
\<close>

datatype ChainErr = AlreadyInChain | InvalidParent | NoParentHash | BadHeight | NoSuchBlock | TooManyOrphans

datatype OrphanType = BelongsToDisconnected | BelongsToValidChain | ValidChainTip | DisconnectedTip

definition BLOCK_CACHE_SIZE :: nat where
  "BLOCK_CACHE_SIZE = 20"

definition MAX_ORPHANS :: nat where
  "MAX_ORPHANS = 100"

definition MIN_HEIGHT :: u64 where
  "MIN_HEIGHT = 10"

definition MAX_HEIGHT :: u64 where
  "MAX_HEIGHT = 10"

record cenv =
  ce_hash :: "u8 list \<Rightarrow> hash"
  ce_hex :: "u8 list \<Rightarrow> string"
  ce_null_rlp :: "u8 list"
  ce_iter :: "hash list \<Rightarrow> hash list"
  ce_sort :: "(hash \<times> u64) list \<Rightarrow> (hash \<times> u64) list"

definition TIP_KEY :: "cenv \<Rightarrow> hash" where
  "TIP_KEY E = ce_hash E (as_bytes ''canonical_tip'')"

definition CANONICAL_HEIGHT_KEY :: "cenv \<Rightarrow> hash" where
  "CANONICAL_HEIGHT_KEY E = ce_hash E (as_bytes ''canonical_height'')"

definition block_height_key :: "cenv \<Rightarrow> hash \<Rightarrow> hash" where
  "block_height_key E h = ce_hash E (as_bytes (ce_hex E h @ ''.height''))"

record 'b Chain =
  ch_db :: db
  ch_height :: u64
  canonical_tip :: 'b
  orphan_pool :: "(hash \<times> 'b) list"
  max_orphan_height :: "u64 option"
  heights_mapping :: "(u64 \<times> (hash \<times> u64) list) list"
  validations_mapping :: "(hash \<times> OrphanType) list"
  disconnected_heads_mapping :: "(hash \<times> hash list) list"
  disconnected_heads_heights :: "(hash \<times> u64 \<times> hash) list"
  disconnected_tips_mapping :: "(hash \<times> hash) list"
  valid_tips :: "hash list"

text \<open>\<open>db.get\<close>, and decoding of what it found with \<open>unwrap\<close>.\<close>

definition chain_get :: "cenv \<Rightarrow> 'b Chain \<Rightarrow> hash \<Rightarrow> u8 list option" where
  "chain_get E c k = db_get (ce_null_rlp E) (ch_db c) k"

definition decode_block :: "'b block_ops \<Rightarrow> u8 list \<Rightarrow> 'b option" where
  "decode_block B bytes = do {
     r \<leftarrow> b_from_bytes B bytes;
     (case r of Inr b \<Rightarrow> Some b | Inl _ \<Rightarrow> None)
   }"

definition chain_new :: "cenv \<Rightarrow> 'b block_ops \<Rightarrow> db \<Rightarrow> 'b Chain option" where
  "chain_new E B db = do {
     let tip_db_res = db_get (ce_null_rlp E) db (TIP_KEY E);
     tip \<leftarrow> (case tip_db_res of
        Some tip \<Rightarrow> do {
          buf \<leftarrow> copy_from_slice 32 tip;
          block_bytes \<leftarrow> db_get (ce_null_rlp E) db buf;
          decode_block B block_bytes
        }
      | None \<Rightarrow> Some (b_genesis B));
     (height, db) \<leftarrow> (case db_get (ce_null_rlp E) db (CANONICAL_HEIGHT_KEY E) of
        Some height \<Rightarrow> do { h \<leftarrow> decode_be_u64 height; Some (h, db) }
      | None \<Rightarrow> Some (0, if tip_db_res = None then db_emplace db (CANONICAL_HEIGHT_KEY E) [0, 0, 0, 0, 0, 0, 0, 0] else db));
     Some \<lparr>ch_db = db, ch_height = height, canonical_tip = tip, orphan_pool = [], max_orphan_height = None,
       heights_mapping = [], validations_mapping = [], disconnected_heads_mapping = [],
       disconnected_heads_heights = [], disconnected_tips_mapping = [], valid_tips = []\<rparr>
   }"

definition query :: "cenv \<Rightarrow> 'b block_ops \<Rightarrow> 'b Chain \<Rightarrow> hash \<Rightarrow> 'b option option" where
  "query E B c hash = (case chain_get E c hash of
       Some bytes \<Rightarrow> do { b \<leftarrow> decode_block B bytes; Some (Some b) }
     | None \<Rightarrow> Some None)"

section \<open>Bookkeeping of orphans\<close>

definition update_max_orphan_height :: "u64 \<Rightarrow> 'b Chain \<Rightarrow> 'b Chain" where
  "update_max_orphan_height new_height c = (case max_orphan_height c of
       None \<Rightarrow> c\<lparr>max_orphan_height := Some new_height\<rparr>
     | Some cur_height \<Rightarrow> if cur_height < new_height then c\<lparr>max_orphan_height := Some new_height\<rparr> else c)"

text \<open>\<open>heights_mapping.get_mut(h)\<close> or a fresh map, and an insertion into it.\<close>

definition put_height :: "u64 \<Rightarrow> hash \<Rightarrow> u64 \<Rightarrow> 'b Chain \<Rightarrow> 'b Chain" where
  "put_height h k inverse_height c = c\<lparr>heights_mapping := AList.update h
     (case map_of (heights_mapping c) h of
        Some entries \<Rightarrow> AList.update k inverse_height entries
      | None \<Rightarrow> [(k, inverse_height)]) (heights_mapping c)\<rparr>"

text \<open>\<open>*validations_mapping.get_mut(k).unwrap() = status\<close>, and the insertion of a status.\<close>

definition put_status :: "hash \<Rightarrow> OrphanType \<Rightarrow> 'b Chain \<Rightarrow> 'b Chain" where
  "put_status k status c = c\<lparr>validations_mapping := AList.update k status (validations_mapping c)\<rparr>"

definition set_status :: "hash \<Rightarrow> OrphanType \<Rightarrow> 'b Chain \<Rightarrow> 'b Chain option" where
  "set_status k status c = do { _ \<leftarrow> map_of (validations_mapping c) k; Some (put_status k status c) }"

definition put_valid_tip :: "hash \<Rightarrow> 'b Chain \<Rightarrow> 'b Chain" where
  "put_valid_tip k c = c\<lparr>valid_tips := List.insert k (valid_tips c)\<rparr>"

definition write_orphan :: "'b block_ops \<Rightarrow> 'b \<Rightarrow> OrphanType \<Rightarrow> u64 \<Rightarrow> 'b Chain \<Rightarrow> 'b Chain option" where
  "write_orphan B orphan orphan_type inverse_height c = do {
     orphan_hash \<leftarrow> block_hash B orphan;
     let height = b_height B orphan;
     let c = (if orphan_type = ValidChainTip then put_valid_tip orphan_hash c else c);
     let c = (case map_of (heights_mapping c) height of
        Some height_entry \<Rightarrow> if map_of height_entry orphan_hash = None then put_height height orphan_hash inverse_height c else c
      | None \<Rightarrow> put_height height orphan_hash inverse_height c);
     let c = c\<lparr>orphan_pool := AList.update orphan_hash orphan (orphan_pool c)\<rparr>;
     let c = update_max_orphan_height height c;
     Some (put_status orphan_hash orphan_type c)
   }"

text \<open>The loop of \<open>recurse_inverse\<close>.\<close>

partial_function (option) recurse_parents :: "'b block_ops \<Rightarrow> bool \<Rightarrow> 'b \<Rightarrow> u64 \<Rightarrow> 'b Chain \<Rightarrow> 'b Chain option" where
  "recurse_parents B make_valid current cur_inverse c = do {
     p \<leftarrow> parent_hash B current;
     (case map_of (orphan_pool c) p of
        None \<Rightarrow> Some c
      | Some parent \<Rightarrow> do {
          let par_height = b_height B parent;
          orphans \<leftarrow> map_of (heights_mapping c) par_height;
          h \<leftarrow> block_hash B parent;
          entry \<leftarrow> map_of orphans h;
          next \<leftarrow> checked_add cur_inverse 1;
          let c = (if entry < next then put_height par_height h next c else c);
          let c = (if make_valid then put_status h BelongsToValidChain c else c);
          recurse_parents B make_valid parent next c
        })
   }"

declare recurse_parents.simps [code]

definition recurse_inverse :: "'b block_ops \<Rightarrow> 'b \<Rightarrow> u64 \<Rightarrow> bool \<Rightarrow> 'b Chain \<Rightarrow> 'b Chain option" where
  "recurse_inverse B orphan start_height make_valid c = do {
     c \<leftarrow> (if make_valid then
        (if start_height \<noteq> 0 then None
         else do { key \<leftarrow> block_hash B orphan; Some (put_status key ValidChainTip c) })
      else Some c);
     recurse_parents B make_valid orphan start_height c
   }"

text \<open>The inner loop of \<open>make_valid_tips\<close>, which stops at a parent that is marked already.\<close>

partial_function (option) mark_parents :: "'b block_ops \<Rightarrow> hash \<Rightarrow> 'b Chain \<Rightarrow> 'b Chain option" where
  "mark_parents B current c = (case map_of (orphan_pool c) current of
       None \<Rightarrow> Some c
     | Some parent \<Rightarrow> do {
         h \<leftarrow> block_hash B parent;
         status \<leftarrow> map_of (validations_mapping c) h;
         if status = BelongsToValidChain then Some c
         else do {
           p \<leftarrow> parent_hash B parent;
           mark_parents B p (put_status h BelongsToValidChain c)
         }
       })"

declare mark_parents.simps [code]

definition make_valid_tip :: "'b block_ops \<Rightarrow> 'b Chain \<Rightarrow> hash \<Rightarrow> 'b Chain option" where
  "make_valid_tip B c tip_hash = do {
     tip \<leftarrow> map_of (orphan_pool c) tip_hash;
     c \<leftarrow> set_status tip_hash ValidChainTip c;
     let c = c\<lparr>disconnected_tips_mapping := AList.delete tip_hash (disconnected_tips_mapping c)\<rparr>;
     let c = put_valid_tip tip_hash c;
     current \<leftarrow> parent_hash B tip;
     mark_parents B current c
   }"

definition make_valid_tips :: "cenv \<Rightarrow> 'b block_ops \<Rightarrow> hash \<Rightarrow> 'b Chain \<Rightarrow> 'b Chain option" where
  "make_valid_tips E B head c = do {
     tips \<leftarrow> map_of (disconnected_heads_mapping c) head;
     let c = c\<lparr>disconnected_heads_mapping := AList.delete head (disconnected_heads_mapping c),
       disconnected_heads_heights := AList.delete head (disconnected_heads_heights c)\<rparr>;
     foldm (make_valid_tip B) c (ce_iter E tips)
   }"

section \<open>Attaching disconnected chains\<close>

text \<open>The heads of other disconnected chains that follow the tip, and the status of the tip.\<close>

definition follows_tip :: "'b block_ops \<Rightarrow> hash \<Rightarrow> hash \<Rightarrow> 'b Chain \<Rightarrow> hash list \<times> OrphanType \<Rightarrow> hash \<Rightarrow>
     (hash list \<times> OrphanType) option" where
  "follows_tip B our_head_hash tip_hash c acc head_hash =
     (if head_hash = our_head_hash \<or> head_hash = tip_hash then Some acc
      else do {
        head \<leftarrow> map_of (orphan_pool c) head_hash;
        p \<leftarrow> parent_hash B head;
        Some (if p = tip_hash then (fst acc @ [head_hash], BelongsToDisconnected) else acc)
      })"

definition merge_tip :: "'b block_ops \<Rightarrow> hash \<Rightarrow> hash list \<times> 'b list \<times> 'b Chain \<Rightarrow> hash \<Rightarrow>
     (hash list \<times> 'b list \<times> 'b Chain) option" where
  "merge_tip B cur_head s tip_hash = (case s of (cur_tips, to_recurse, c) \<Rightarrow> do {
     tip \<leftarrow> map_of (orphan_pool c) tip_hash;
     (largest_height, _) \<leftarrow> map_of (disconnected_heads_heights c) cur_head;
     let c = c\<lparr>disconnected_tips_mapping := AList.update tip_hash cur_head (disconnected_tips_mapping c)\<rparr>;
     c \<leftarrow> (if largest_height < b_height B tip then do {
         h \<leftarrow> block_hash B tip;
         Some (c\<lparr>disconnected_heads_heights := AList.update cur_head (b_height B tip, h) (disconnected_heads_heights c)\<rparr>)
       } else Some c);
     Some (List.insert tip_hash cur_tips, to_recurse @ [tip], c)
   })"

definition attach_head :: "cenv \<Rightarrow> 'b block_ops \<Rightarrow> hash \<Rightarrow> 'b Chain \<Rightarrow> hash \<Rightarrow> 'b Chain option" where
  "attach_head E B cur_head c head = do {
     tips \<leftarrow> map_of (disconnected_heads_mapping c) head;
     _ \<leftarrow> map_of (disconnected_heads_heights c) head;
     let c = c\<lparr>disconnected_heads_mapping := AList.delete head (disconnected_heads_mapping c),
       disconnected_heads_heights := AList.delete head (disconnected_heads_heights c)\<rparr>;
     let cur_tips = (case map_of (disconnected_heads_mapping c) cur_head of Some ts \<Rightarrow> ts | None \<Rightarrow> []);
     let cur_tips = removeAll cur_head cur_tips;
     let c = c\<lparr>disconnected_tips_mapping := AList.delete cur_head (disconnected_tips_mapping c)\<rparr>;
     (cur_tips, to_recurse, c) \<leftarrow> foldm (merge_tip B cur_head) (cur_tips, [], c) (ce_iter E tips);
     let c = c\<lparr>disconnected_heads_mapping := AList.update cur_head cur_tips (disconnected_heads_mapping c)\<rparr>;
     foldm (\<lambda>c tip. recurse_inverse B tip 0 False c) c to_recurse
   }"

definition attempt_attach :: "cenv \<Rightarrow> 'b block_ops \<Rightarrow> hash \<Rightarrow> OrphanType \<Rightarrow> 'b Chain \<Rightarrow> (OrphanType \<times> 'b Chain) option" where
  "attempt_attach E B tip_hash initial_status c = do {
     our_head_hash \<leftarrow> map_of (disconnected_tips_mapping c) tip_hash;
     (to_attach, status) \<leftarrow> foldm (follows_tip B our_head_hash tip_hash c) ([], initial_status)
       (ce_iter E (map fst (disconnected_heads_mapping c)));
     c \<leftarrow> foldm (attach_head E B our_head_hash) c to_attach;
     Some (status, c)
   }"

text \<open>One step of the search for the head with the largest height: the filter, then the comparison.\<close>

definition best_head :: "'b block_ops \<Rightarrow> hash \<Rightarrow> 'b Chain \<Rightarrow> (hash \<times> u64 \<times> hash) option \<Rightarrow> hash \<Rightarrow>
     (hash \<times> u64 \<times> hash) option option" where
  "best_head B tip_hash c current head_hash = do {
     (largest_height, largest_tip) \<leftarrow> map_of (disconnected_heads_heights c) head_hash;
     tips \<leftarrow> map_of (disconnected_heads_mapping c) head_hash;
     if largest_tip \<notin> set tips then None
     else do {
       head \<leftarrow> map_of (orphan_pool c) head_hash;
       p \<leftarrow> parent_hash B head;
       Some (if p \<noteq> tip_hash then current
         else (case current of
             None \<Rightarrow> Some (head_hash, largest_height, largest_tip)
           | Some (_, cur_height, _) \<Rightarrow>
               if cur_height < largest_height then Some (head_hash, largest_height, largest_tip) else current))
     }
   }"

text \<open>The arguments \<open>tip\<close>, \<open>inverse_height\<close> and \<open>status\<close> are returned with their new values.\<close>

definition attempt_attach_valid ::
  "cenv \<Rightarrow> 'b block_ops \<Rightarrow> 'b \<Rightarrow> u64 \<Rightarrow> OrphanType \<Rightarrow> 'b Chain \<Rightarrow> ('b \<times> u64 \<times> OrphanType \<times> 'b Chain) option" where
  "attempt_attach_valid E B tip inverse_height status c = do {
     tip_hash \<leftarrow> block_hash B tip;
     if tip_hash \<notin> set (valid_tips c) then None
     else do {
       current \<leftarrow> foldm (best_head B tip_hash c) None (ce_iter E (map fst (disconnected_heads_heights c)));
       (tip, inverse_height, status, c) \<leftarrow> (case current of
          None \<Rightarrow> Some (tip, inverse_height, status, c)
        | Some (head_hash, largest_height, largest_tip) \<Rightarrow> do {
            new_tip \<leftarrow> map_of (orphan_pool c) largest_tip;
            inverse_height \<leftarrow> checked_sub largest_height (b_height B tip);
            c \<leftarrow> make_valid_tips E B head_hash c;
            Some (new_tip, inverse_height, BelongsToValidChain, c)
          });
       c \<leftarrow> recurse_inverse B tip 0 True c;
       Some (tip, inverse_height, status, c)
     }
   }"

section \<open>Writing and rewinding the canonical chain\<close>

definition write_canonical_height :: "cenv \<Rightarrow> u64 \<Rightarrow> 'b Chain \<Rightarrow> 'b Chain" where
  "write_canonical_height E height c =
     c\<lparr>ch_db := db_emplace (ch_db c) (CANONICAL_HEIGHT_KEY E) (encode_be_u64 height)\<rparr>"

text \<open>The greatest height below \<open>n + 1\<close> that has an entry.\<close>

fun lower_height :: "(u64 \<times> (hash \<times> u64) list) list \<Rightarrow> nat \<Rightarrow> u64 option" where
  "lower_height hm 0 = None"
| "lower_height hm (Suc n) =
     (if map_of hm (word_of_nat (Suc n)) \<noteq> None then Some (word_of_nat (Suc n)) else lower_height hm n)"

definition lower_max_orphan_height :: "u64 \<Rightarrow> 'b Chain \<Rightarrow> 'b Chain option" where
  "lower_max_orphan_height height c = (case max_orphan_height c of
       Some max_height \<Rightarrow>
         if height = max_height then do {
           current \<leftarrow> checked_sub max_height 1;
           Some (c\<lparr>max_orphan_height := lower_height (heights_mapping c) (unat current)\<rparr>)
         } else Some c
     | None \<Rightarrow> Some c)"

partial_function (option) mark_all_parents :: "'b block_ops \<Rightarrow> hash \<Rightarrow> 'b Chain \<Rightarrow> 'b Chain option" where
  "mark_all_parents B current c = (case map_of (orphan_pool c) current of
       None \<Rightarrow> Some c
     | Some parent \<Rightarrow> do {
         h \<leftarrow> block_hash B parent;
         c \<leftarrow> set_status h BelongsToValidChain c;
         p \<leftarrow> parent_hash B parent;
         mark_all_parents B p c
       })"

declare mark_all_parents.simps [code]

definition validate_tip :: "'b block_ops \<Rightarrow> hash \<Rightarrow> 'b Chain \<Rightarrow> hash \<Rightarrow> 'b Chain option" where
  "validate_tip B written c tip_hash = (if tip_hash = written then Some c
     else do {
       tip \<leftarrow> map_of (orphan_pool c) tip_hash;
       current \<leftarrow> parent_hash B tip;
       let c = put_valid_tip tip_hash c;
       c \<leftarrow> set_status tip_hash ValidChainTip c;
       c \<leftarrow> mark_all_parents B current c;
       Some (c\<lparr>disconnected_tips_mapping := AList.delete tip_hash (disconnected_tips_mapping c)\<rparr>)
     })"

text \<open>The part of \<open>write_block\<close> that follows the removal of the block from the pool.\<close>

definition forget_orphan :: "cenv \<Rightarrow> 'b block_ops \<Rightarrow> 'b \<Rightarrow> hash \<Rightarrow> 'b Chain \<Rightarrow> 'b Chain option" where
  "forget_orphan E B block h c = do {
     let c = (case map_of (heights_mapping c) (b_height B block) of
        Some orphans \<Rightarrow> c\<lparr>heights_mapping := AList.update (b_height B block) (AList.delete h orphans) (heights_mapping c)\<rparr>
      | None \<Rightarrow> c);
     let c = c\<lparr>valid_tips := removeAll h (valid_tips c)\<rparr>;
     c \<leftarrow> lower_max_orphan_height (b_height B block) c;
     let tips = map_of (disconnected_heads_mapping c) h;
     let c = c\<lparr>disconnected_heads_mapping := AList.delete h (disconnected_heads_mapping c),
       disconnected_heads_heights := AList.delete h (disconnected_heads_heights c),
       disconnected_tips_mapping := AList.delete h (disconnected_tips_mapping c)\<rparr>;
     (case tips of
        Some tips \<Rightarrow> foldm (validate_tip B h) c (ce_iter E tips)
      | None \<Rightarrow> Some c)
   }"

definition write_block :: "cenv \<Rightarrow> 'b block_ops \<Rightarrow> 'b \<Rightarrow> 'b Chain \<Rightarrow> 'b Chain option" where
  "write_block E B block c = do {
     h \<leftarrow> block_hash B block;
     p \<leftarrow> parent_hash B block;
     tip \<leftarrow> block_hash B (canonical_tip c);
     if p \<noteq> tip then None
     else do {
       bytes \<leftarrow> b_to_bytes B block;
       let c = c\<lparr>ch_db := db_emplace (ch_db c) h bytes, canonical_tip := block\<rparr>;
       bin_height \<leftarrow> chain_get E c (CANONICAL_HEIGHT_KEY E);
       height \<leftarrow> decode_be_u64 bin_height;
       height \<leftarrow> checked_add height 1;
       let c = write_canonical_height E height (c\<lparr>ch_height := height\<rparr>);
       let c = c\<lparr>ch_db := db_emplace (ch_db c) (block_height_key E h) (encode_be_u64 height)\<rparr>;
       forget_orphan E B block h (c\<lparr>orphan_pool := AList.delete h (orphan_pool c)\<rparr>)
     }
   }"

text \<open>A block of the canonical chain becomes an orphan.\<close>

definition make_orphan :: "'b \<Rightarrow> hash \<Rightarrow> u64 \<Rightarrow> OrphanType \<Rightarrow> u64 \<Rightarrow> 'b Chain \<Rightarrow> 'b Chain" where
  "make_orphan b h height status inverse_height c =
     (let c = c\<lparr>orphan_pool := AList.update h b (orphan_pool c)\<rparr>;
          c = put_status h status c;
          c = (if status = ValidChainTip then put_valid_tip h c else c);
          c = put_height height h inverse_height c in
      update_max_orphan_height height c)"

partial_function (option) rewind_loop ::
  "cenv \<Rightarrow> 'b block_ops \<Rightarrow> hash \<Rightarrow> 'b \<Rightarrow> u64 \<Rightarrow> 'b Chain \<Rightarrow> 'b Chain option" where
  "rewind_loop E B hash current inverse_height c = do {
     p \<leftarrow> parent_hash B current;
     if p = hash then Some c
     else do {
       bytes \<leftarrow> chain_get E c p;
       parent \<leftarrow> decode_block B bytes;
       let c = c\<lparr>ch_db := db_remove (ch_db c) p\<rparr>;
       h \<leftarrow> block_hash B parent;
       let c = make_orphan parent h (b_height B parent) BelongsToValidChain inverse_height c;
       inverse_height \<leftarrow> checked_add inverse_height 1;
       rewind_loop E B hash parent inverse_height c
     }
   }"

declare rewind_loop.simps [code]

definition rewind :: "cenv \<Rightarrow> 'b block_ops \<Rightarrow> hash \<Rightarrow> 'b Chain \<Rightarrow> (ChainErr + 'b Chain) option" where
  "rewind E B hash c = do {
     g \<leftarrow> block_hash B (b_genesis B);
     if hash = g then None
     else (case chain_get E c hash of
        Some bytes \<Rightarrow> do {
          new_tip \<leftarrow> decode_block B bytes;
          let current = canonical_tip c;
          h \<leftarrow> block_hash B current;
          let c = c\<lparr>ch_db := db_remove (ch_db c) h\<rparr>;
          let c = make_orphan current h (b_height B current) ValidChainTip 0 c;
          c \<leftarrow> rewind_loop E B hash current 1 c;
          let c = c\<lparr>ch_height := b_height B new_tip\<rparr>;
          let c = write_canonical_height E (b_height B new_tip) c;
          Some (Inr (c\<lparr>canonical_tip := new_tip\<rparr>))
        }
      | None \<Rightarrow> Some (Inl NoSuchBlock))
   }"

end
