(* ===== verification/Chain_Append.thy ===== *)
theory Chain_Append
  imports Chain
begin

text \<open>
  The second half of \<open>chain/src/chain.rs\<close>: connecting orphans to the canonical chain, switching to a
  longer chain, appending a block, and the cached reference to a chain.
\<close>

section \<open>Orphans that follow the canonical chain\<close>

definition next_height :: "u64 \<Rightarrow> u64 option" where
  "next_height h = checked_add h 1"

lemma next_height_less [termination_simp]:
  "next_height h = Some h' \<Longrightarrow> h \<le> m \<Longrightarrow> unat m + 1 - unat h' < unat m + 1 - unat h"
proof -
  assume "next_height h = Some h'" "h \<le> m"
  then have "unat h' = unat h + 1" "unat h \<le> unat m"
    by (auto simp: next_height_def checked_add_def word_le_nat_alt unat_word_ariths split: if_splits)
  then show ?thesis by simp
qed

text \<open>
  The body of the loop over several orphans of one height: the followers of the canonical tip are
  collected, and a follower of a tip that became valid before takes its place.
\<close>

definition sift_orphan :: "'b block_ops \<Rightarrow> (hash \<times> u64) list \<Rightarrow> (hash \<times> u64) list \<times> hash list \<times> 'b Chain \<Rightarrow> hash \<Rightarrow>
     ((hash \<times> u64) list \<times> hash list \<times> 'b Chain) option" where
  "sift_orphan B orphans s k = (case s of (buf, prev_valid_tips, c) \<Rightarrow> do {
     i_h \<leftarrow> map_of orphans k;
     orphan \<leftarrow> map_of (orphan_pool c) k;
     orphan_parent \<leftarrow> parent_hash B orphan;
     tip \<leftarrow> block_hash B (canonical_tip c);
     if orphan_parent = tip then Some (buf @ [(k, i_h)], prev_valid_tips, c)
     else if orphan_parent \<in> set prev_valid_tips then do {
       c \<leftarrow> set_status orphan_parent BelongsToValidChain c;
       c \<leftarrow> set_status k ValidChainTip c;
       let c = put_valid_tip k (c\<lparr>valid_tips := removeAll orphan_parent (valid_tips c)\<rparr>);
       Some (buf, List.insert k (removeAll orphan_parent prev_valid_tips), c)
     }
     else Some (buf, prev_valid_tips, c)
   })"

definition keep_tip :: "hash list \<times> 'b Chain \<Rightarrow> hash \<times> u64 \<Rightarrow> (hash list \<times> 'b Chain) option" where
  "keep_tip s o_h = (case s of (prev_valid_tips, c) \<Rightarrow> do {
     c \<leftarrow> set_status (fst o_h) ValidChainTip c;
     Some (List.insert (fst o_h) prev_valid_tips, put_valid_tip (fst o_h) c)
   })"

definition write_best :: "cenv \<Rightarrow> 'b block_ops \<Rightarrow> bool \<Rightarrow> (hash \<times> u64) list \<Rightarrow> 'b Chain \<Rightarrow>
     ((hash \<times> u64) list \<times> 'b Chain) option" where
  "write_best E B finished buf c = (if finished then Some (buf, c)
     else (case vec_pop buf of
        Some ((to_write, _), rest) \<Rightarrow> do {
          b \<leftarrow> map_of (orphan_pool c) to_write;
          c \<leftarrow> write_block E B b c;
          Some (rest, c)
        }
      | None \<Rightarrow> Some (buf, c)))"

function process_loop :: "cenv \<Rightarrow> 'b block_ops \<Rightarrow> u64 \<Rightarrow> u64 \<Rightarrow> bool \<Rightarrow> hash list \<Rightarrow> 'b Chain \<Rightarrow> 'b Chain option" where
  "process_loop E B max_height h finished prev_valid_tips c = (if max_height < h then Some c
     else (case map_of (heights_mapping c) h of
        None \<Rightarrow> do { h' \<leftarrow> next_height h; process_loop E B max_height h' finished prev_valid_tips c }
      | Some orphans \<Rightarrow>
          if length orphans = 1 then do {
            orphan \<leftarrow> map_of (orphan_pool c) (fst (hd orphans));
            p \<leftarrow> parent_hash B orphan;
            tip \<leftarrow> block_hash B (canonical_tip c);
            if p = tip \<and> \<not> finished then do {
              c \<leftarrow> write_block E B orphan c;
              h' \<leftarrow> next_height h;
              process_loop E B max_height h' finished prev_valid_tips c
            }
            else Some c
          }
          else if orphans = [] then
            (if prev_valid_tips = [] \<or> finished then Some c
             else do { h' \<leftarrow> next_height h; process_loop E B max_height h' True prev_valid_tips c })
          else do {
            (buf, prev_valid_tips, c) \<leftarrow> foldm (sift_orphan B orphans) ([], prev_valid_tips, c) (ce_iter E (map fst orphans));
            if buf = [] then
              (if prev_valid_tips = [] \<or> finished then Some c
               else process_loop E B max_height h True prev_valid_tips c)
            else do {
              (buf, c) \<leftarrow> write_best E B finished (ce_sort E buf) c;
              (prev_valid_tips, c) \<leftarrow> foldm keep_tip (prev_valid_tips, c) buf;
              h' \<leftarrow> next_height h;
              process_loop E B max_height h' finished prev_valid_tips c
            }
          }))"
  by pat_completeness auto

termination
  by (relation "measure (\<lambda>(E, B, max_height, h, finished, prev, c). 2 * (unat max_height + 1 - unat h) + (if finished then 0 else 1))")
    (auto dest!: next_height_less simp: not_less)

definition process_orphans :: "cenv \<Rightarrow> 'b block_ops \<Rightarrow> u64 \<Rightarrow> 'b Chain \<Rightarrow> 'b Chain option" where
  "process_orphans E B start_height c = (case max_orphan_height c of
       Some max_height \<Rightarrow> process_loop E B max_height start_height False [] c
     | None \<Rightarrow> Some c)"

section \<open>Switching chains\<close>

partial_function (option) find_horizon ::
  "cenv \<Rightarrow> 'b block_ops \<Rightarrow> hash \<Rightarrow> 'b list \<Rightarrow> 'b Chain \<Rightarrow> (hash \<times> 'b list) option" where
  "find_horizon E B current to_write c =
     (if chain_get E c current \<noteq> None then Some (current, to_write)
      else do {
        cur \<leftarrow> map_of (orphan_pool c) current;
        p \<leftarrow> parent_hash B cur;
        find_horizon E B p (cur # to_write) c
      })"

declare find_horizon.simps [code]

definition write_candidate :: "cenv \<Rightarrow> 'b block_ops \<Rightarrow> hash \<Rightarrow> 'b Chain \<Rightarrow> 'b \<Rightarrow> 'b Chain option" where
  "write_candidate E B horizon c b = do {
     h \<leftarrow> block_hash B b;
     if h = horizon then Some c else write_block E B b c
   }"

definition attempt_switch :: "cenv \<Rightarrow> 'b block_ops \<Rightarrow> 'b \<Rightarrow> 'b Chain \<Rightarrow> 'b Chain option" where
  "attempt_switch E B candidate_tip c = do {
     h \<leftarrow> block_hash B candidate_tip;
     if h \<notin> set (valid_tips c) then None
     else if ch_height c < b_height B candidate_tip then do {
       p \<leftarrow> parent_hash B candidate_tip;
       (horizon, to_write) \<leftarrow> find_horizon E B p [candidate_tip] c;
       r \<leftarrow> rewind E B horizon c;
       (case r of
          Inr c \<Rightarrow> foldm (write_candidate E B horizon) c to_write
        | Inl _ \<Rightarrow> None)
     }
     else Some c
   }"

section \<open>Appending a block\<close>

text \<open>The parent is a block of the canonical chain below the tip.\<close>

definition append_fork :: "cenv \<Rightarrow> 'b block_ops \<Rightarrow> 'b \<Rightarrow> 'b Chain \<Rightarrow> 'b Chain option" where
  "append_fork E B block c = do {
     c \<leftarrow> write_orphan B block ValidChainTip 0 c;
     (tip, _, status, c) \<leftarrow> attempt_attach_valid E B block 0 ValidChainTip c;
     if status = ValidChainTip then Some c else attempt_switch E B tip c
   }"

text \<open>What follows \<open>attempt_attach\<close> for a block whose parent is in a disconnected chain.\<close>

definition settle_disconnected :: "'b block_ops \<Rightarrow> 'b \<Rightarrow> hash \<Rightarrow> hash \<Rightarrow> OrphanType \<Rightarrow> 'b Chain \<Rightarrow> 'b Chain option" where
  "settle_disconnected B block h head status c =
     (if status = DisconnectedTip then recurse_inverse B block 0 False c
      else do {
        let c = put_status h status c;
        tips \<leftarrow> map_of (disconnected_heads_mapping c) head;
        Some (c\<lparr>disconnected_heads_mapping := AList.update head (removeAll h tips) (disconnected_heads_mapping c),
          disconnected_tips_mapping := AList.delete h (disconnected_tips_mapping c)\<rparr>)
      })"

definition append_to_disconnected_tip ::
  "cenv \<Rightarrow> 'b block_ops \<Rightarrow> 'b \<Rightarrow> hash \<Rightarrow> hash \<Rightarrow> 'b Chain \<Rightarrow> 'b Chain option" where
  "append_to_disconnected_tip E B block h p c = do {
     head \<leftarrow> map_of (disconnected_tips_mapping c) p;
     tips \<leftarrow> map_of (disconnected_heads_mapping c) head;
     (largest_height, _) \<leftarrow> map_of (disconnected_heads_heights c) head;
     let c = put_status p BelongsToDisconnected c;
     let c = c\<lparr>disconnected_heads_mapping :=
         AList.update head (List.insert h (removeAll p tips)) (disconnected_heads_mapping c),
       disconnected_tips_mapping := AList.delete p (disconnected_tips_mapping c)\<rparr>;
     let c = (if largest_height < b_height B block
        then c\<lparr>disconnected_heads_heights := AList.update head (b_height B block, h) (disconnected_heads_heights c)\<rparr>
        else c);
     c \<leftarrow> write_orphan B block DisconnectedTip 0 c;
     let c = c\<lparr>disconnected_tips_mapping := AList.update h head (disconnected_tips_mapping c)\<rparr>;
     (status, c) \<leftarrow> attempt_attach E B h DisconnectedTip c;
     settle_disconnected B block h head status c
   }"

definition append_to_valid_tip ::
  "cenv \<Rightarrow> 'b block_ops \<Rightarrow> 'b \<Rightarrow> hash \<Rightarrow> 'b Chain \<Rightarrow> 'b Chain option" where
  "append_to_valid_tip E B block p c = do {
     let c = put_status p BelongsToValidChain c;
     c \<leftarrow> write_orphan B block ValidChainTip 0 c;
     (tip, inverse_height, status, c) \<leftarrow> attempt_attach_valid E B block 0 ValidChainTip c;
     c \<leftarrow> recurse_inverse B block inverse_height (inverse_height = 0) c;
     tip_hash \<leftarrow> block_hash B tip;
     let c = put_valid_tip tip_hash (c\<lparr>valid_tips := removeAll p (valid_tips c)\<rparr>);
     attempt_switch E B tip c
   }"

partial_function (option) find_head :: "'b block_ops \<Rightarrow> hash \<Rightarrow> 'b Chain \<Rightarrow> hash option" where
  "find_head B current c =
     (if map_of (disconnected_heads_mapping c) current \<noteq> None then Some current
      else do {
        orphan \<leftarrow> map_of (orphan_pool c) current;
        p \<leftarrow> parent_hash B orphan;
        find_head B p c
      })"

declare find_head.simps [code]

definition append_to_disconnected ::
  "cenv \<Rightarrow> 'b block_ops \<Rightarrow> 'b \<Rightarrow> hash \<Rightarrow> hash \<Rightarrow> 'b Chain \<Rightarrow> 'b Chain option" where
  "append_to_disconnected E B block h p c = do {
     c \<leftarrow> write_orphan B block DisconnectedTip 0 c;
     head \<leftarrow> find_head B p c;
     tips \<leftarrow> map_of (disconnected_heads_mapping c) head;
     let c = c\<lparr>disconnected_heads_mapping := AList.update head (List.insert h tips) (disconnected_heads_mapping c),
       disconnected_tips_mapping := AList.update h head (disconnected_tips_mapping c)\<rparr>;
     (status, c) \<leftarrow> attempt_attach E B h DisconnectedTip c;
     let c = (if status = DisconnectedTip
        then c\<lparr>disconnected_tips_mapping := AList.update h head (disconnected_tips_mapping c)\<rparr> else c);
     settle_disconnected B block h head status c
   }"

definition append_to_valid :: "cenv \<Rightarrow> 'b block_ops \<Rightarrow> 'b \<Rightarrow> hash \<Rightarrow> 'b Chain \<Rightarrow> 'b Chain option" where
  "append_to_valid E B block h c = do {
     let c = put_valid_tip h c;
     (tip, inverse_height, status, c) \<leftarrow> attempt_attach_valid E B block 0 ValidChainTip c;
     c \<leftarrow> write_orphan B block status inverse_height c;
     c \<leftarrow> recurse_inverse B tip inverse_height (inverse_height = 0) c;
     attempt_switch E B tip c
   }"

text \<open>The parent is unknown: the block starts a disconnected chain.\<close>

definition matching_tip :: "'b block_ops \<Rightarrow> hash \<Rightarrow> 'b Chain \<Rightarrow> 'b option \<Rightarrow> hash \<Rightarrow> 'b option option" where
  "matching_tip B p c found tip_hash = (case found of
       Some _ \<Rightarrow> Some found
     | None \<Rightarrow> do {
         tip \<leftarrow> map_of (orphan_pool c) tip_hash;
         h \<leftarrow> block_hash B tip;
         Some (if p = h then Some tip else None)
       })"

definition append_unconnected ::
  "cenv \<Rightarrow> 'b block_ops \<Rightarrow> 'b \<Rightarrow> hash \<Rightarrow> hash \<Rightarrow> 'b Chain \<Rightarrow> 'b Chain option" where
  "append_unconnected E B block h p c = do {
     let c = c\<lparr>disconnected_heads_mapping := AList.update h [h] (disconnected_heads_mapping c),
       disconnected_tips_mapping := AList.update h h (disconnected_tips_mapping c),
       disconnected_heads_heights := AList.update h (b_height B block, h) (disconnected_heads_heights c)\<rparr>;
     let c = put_height (b_height B block) h 0 c;
     let c = c\<lparr>orphan_pool := AList.update h block (orphan_pool c)\<rparr>;
     (status, c) \<leftarrow> attempt_attach E B h DisconnectedTip c;
     found_match \<leftarrow> foldm (matching_tip B p c) None (ce_iter E (valid_tips c));
     c \<leftarrow> write_orphan B block status 0 c;
     (case found_match of
        Some tip \<Rightarrow> do {
          (_, _, _, c) \<leftarrow> attempt_attach_valid E B tip 0 ValidChainTip c;
          Some c
        }
      | None \<Rightarrow> Some c)
   }"

definition append_to_orphan ::
  "cenv \<Rightarrow> 'b block_ops \<Rightarrow> 'b \<Rightarrow> hash \<Rightarrow> hash \<Rightarrow> 'b Chain \<Rightarrow> 'b Chain option" where
  "append_to_orphan E B block h p c = do {
     parent_status \<leftarrow> map_of (validations_mapping c) p;
     (case parent_status of
        DisconnectedTip \<Rightarrow> append_to_disconnected_tip E B block h p c
      | ValidChainTip \<Rightarrow> append_to_valid_tip E B block p c
      | BelongsToDisconnected \<Rightarrow> append_to_disconnected E B block h p c
      | BelongsToValidChain \<Rightarrow> append_to_valid E B block h c)
   }"

definition append_block :: "cenv \<Rightarrow> 'b block_ops \<Rightarrow> 'b \<Rightarrow> 'b Chain \<Rightarrow> (ChainErr + 'b Chain) option" where
  "append_block E B block c = do {
     let min_height = (if MIN_HEIGHT < ch_height c then ch_height c - MIN_HEIGHT else 1);
     max_height \<leftarrow> checked_add (ch_height c) MAX_HEIGHT;
     if max_height < b_height B block \<or> b_height B block < min_height then Some (Inl BadHeight)
     else do {
       h \<leftarrow> block_hash B block;
       if map_of (orphan_pool c) h \<noteq> None \<or> chain_get E c h \<noteq> None then Some (Inl AlreadyInChain)
       else (case parent_hash B block of
          None \<Rightarrow> Some (Inl NoParentHash)
        | Some p \<Rightarrow> do {
            tip \<leftarrow> block_hash B (canonical_tip c);
            if p = tip then do {
              next \<leftarrow> checked_add (ch_height c) 1;
              if b_height B block \<noteq> next then Some (Inl BadHeight)
              else do {
                c \<leftarrow> write_block E B block c;
                start \<leftarrow> next_height (b_height B block);
                c \<leftarrow> process_orphans E B start c;
                Some (Inr c)
              }
            }
            else if MAX_ORPHANS \<le> length (orphan_pool c) then Some (Inl TooManyOrphans)
            else (case chain_get E c p of
               Some bytes \<Rightarrow> do {
                 parent \<leftarrow> decode_block B bytes;
                 next \<leftarrow> checked_add (b_height B parent) 1;
                 if b_height B block \<noteq> next then Some (Inl BadHeight)
                 else do { c \<leftarrow> append_fork E B block c; Some (Inr c) }
               }
             | None \<Rightarrow> (case map_of (orphan_pool c) p of
                 Some parent \<Rightarrow> do {
                   next \<leftarrow> checked_add (b_height B parent) 1;
                   if b_height B block \<noteq> next then Some (Inl BadHeight)
                   else do { c \<leftarrow> append_to_orphan E B block h p c; Some (Inr c) }
                 }
               | None \<Rightarrow> do { c \<leftarrow> append_unconnected E B block h p c; Some (Inr c) }))
          })
     }
   }"

section \<open>The cached reference\<close>

text \<open>\<open>ChainRef::query\<close>.  The cache is an \<open>LruCache\<close> of the crate \<open>lru\<close>, whose operations are parameters.\<close>

record ('k, 'b) lru =
  lru_get :: "'k \<Rightarrow> hash \<Rightarrow> 'b option \<times> 'k"
  lru_put :: "'k \<Rightarrow> hash \<Rightarrow> 'b \<Rightarrow> 'k"

definition ref_query :: "cenv \<Rightarrow> 'b block_ops \<Rightarrow> ('k, 'b) lru \<Rightarrow> 'b Chain \<Rightarrow> hash \<Rightarrow> 'k \<Rightarrow> ('b option \<times> 'k) option" where
  "ref_query E B L c hash cache = (case lru_get L cache hash of
       (Some result, cache) \<Rightarrow> Some (Some result, cache)
     | (None, cache) \<Rightarrow> do {
         chain_result \<leftarrow> query E B c hash;
         (case chain_result of
            Some result \<Rightarrow> (case lru_get L cache hash of
               (None, cache) \<Rightarrow> Some (Some result, lru_put L cache hash result)
             | (Some _, cache) \<Rightarrow> Some (Some result, cache))
          | None \<Rightarrow> Some (None, cache))
       })"

end
