(* ===== verification/Chain_Props.thy ===== *)
theory Chain_Props
  imports Chain_Append
begin

text \<open>
  The canonical chain as a list.  \<open>canonical\<close> relates a state of the chain to the list of its blocks, the
  tip first, that the store holds; writing a block adds it to the front, rewinding drops blocks from the
  front, and everything else leaves the list alone.
\<close>

section \<open>What the bookkeeping leaves alone\<close>

definition same_store :: "'b Chain \<Rightarrow> 'b Chain \<Rightarrow> bool" where
  "same_store c c' \<longleftrightarrow> ch_db c' = ch_db c \<and> ch_height c' = ch_height c \<and> canonical_tip c' = canonical_tip c \<and>
     orphan_pool c' = orphan_pool c"

named_theorems bookkeeping \<open>operations that keep store, tip and pool\<close>

lemma same_store_refl [simp]: "same_store c c"
  by (simp add: same_store_def)

lemma same_store_trans [trans]: "same_store a b \<Longrightarrow> same_store b c \<Longrightarrow> same_store a c"
  by (simp add: same_store_def)

lemma same_store_simps [simp]:
  "same_store c (c'\<lparr>max_orphan_height := x1\<rparr>) = same_store c c'"
  "same_store c (c'\<lparr>heights_mapping := x2\<rparr>) = same_store c c'"
  "same_store c (c'\<lparr>validations_mapping := x3\<rparr>) = same_store c c'"
  "same_store c (c'\<lparr>disconnected_heads_mapping := x4\<rparr>) = same_store c c'"
  "same_store c (c'\<lparr>disconnected_heads_heights := x5\<rparr>) = same_store c c'"
  "same_store c (c'\<lparr>disconnected_tips_mapping := x6\<rparr>) = same_store c c'"
  "same_store c (c'\<lparr>valid_tips := x7\<rparr>) = same_store c c'"
  "same_store c (put_height h k i c') = same_store c c'"
  "same_store c (put_status k s c') = same_store c c'"
  "same_store c (put_valid_tip k c') = same_store c c'"
  "same_store c (update_max_orphan_height h c') = same_store c c'"
  "same_store (c\<lparr>disconnected_heads_mapping := x4\<rparr>) c' = same_store c c'"
  "same_store (c\<lparr>disconnected_heads_heights := x5\<rparr>) c' = same_store c c'"
  "same_store (c\<lparr>disconnected_tips_mapping := x6\<rparr>) c' = same_store c c'"
  "same_store (c\<lparr>valid_tips := x7\<rparr>) c' = same_store c c'"
  "same_store (put_height h k i c) c' = same_store c c'"
  "same_store (put_status k s c) c' = same_store c c'"
  "same_store (put_valid_tip k c) c' = same_store c c'"
  by (auto simp: same_store_def put_height_def put_status_def put_valid_tip_def update_max_orphan_height_def
      split: option.split)

lemma set_status_same [bookkeeping]: "set_status k s c = Some c' \<Longrightarrow> same_store c c'"
  by (auto simp: set_status_def bind_eq_Some_conv)

lemma foldm_same:
  assumes "foldm f c xs = Some c'" "\<And>c x c'. f c x = Some c' \<Longrightarrow> same_store c c'"
  shows "same_store c c'"
  using assms(1)
proof (induction xs arbitrary: c)
  case (Cons x xs)
  then show ?case using assms(2) same_store_trans by (fastforce simp: bind_eq_Some_conv)
qed simp

lemma recurse_parents_same [bookkeeping]:
  assumes "recurse_parents B v b i c = Some c'"
  shows "same_store c c'"
proof (induction rule: recurse_parents.raw_induct[OF _ assms])
  case (1 f B v b i c c')
  from 1(2) show ?case
    by (auto simp: bind_eq_Some_conv Let_def split: option.split_asm if_split_asm dest!: 1(1))
qed

lemma recurse_inverse_same [bookkeeping]: "recurse_inverse B b i v c = Some c' \<Longrightarrow> same_store c c'"
  by (auto simp: recurse_inverse_def bind_eq_Some_conv split: if_split_asm dest!: recurse_parents_same)

lemma mark_parents_same [bookkeeping]:
  assumes "mark_parents B h c = Some c'"
  shows "same_store c c'"
proof (induction rule: mark_parents.raw_induct[OF _ assms])
  case (1 f B h c c')
  from 1(2) show ?case
    by (auto simp: bind_eq_Some_conv split: option.split_asm if_split_asm dest!: 1(1))
qed

lemma mark_all_parents_same [bookkeeping]:
  assumes "mark_all_parents B h c = Some c'"
  shows "same_store c c'"
proof (induction rule: mark_all_parents.raw_induct[OF _ assms])
  case (1 f B h c c')
  from 1(2) show ?case
    by (auto simp: bind_eq_Some_conv split: option.split_asm dest!: 1(1) set_status_same; simp add: same_store_def)
qed

lemma make_valid_tip_same [bookkeeping]: "make_valid_tip B c h = Some c' \<Longrightarrow> same_store c c'"
  by (auto simp: make_valid_tip_def bind_eq_Some_conv Let_def dest!: set_status_same mark_parents_same; simp add: same_store_def)

lemma make_valid_tips_same [bookkeeping]: "make_valid_tips E B h c = Some c' \<Longrightarrow> same_store c c'"
  by (auto simp: make_valid_tips_def bind_eq_Some_conv Let_def dest!: foldm_same[OF _ make_valid_tip_same])

lemma merge_tip_same: "merge_tip B k (ts, rs, c) h = Some (ts', rs', c') \<Longrightarrow> same_store c c'"
  by (auto simp: merge_tip_def bind_eq_Some_conv Let_def split: if_split_asm)

lemma merge_tips_same: "foldm (merge_tip B k) (ts, rs, c) hs = Some (ts', rs', c') \<Longrightarrow> same_store c c'"
proof (induction hs arbitrary: ts rs c)
  case (Cons h hs)
  then show ?case by (auto simp: bind_eq_Some_conv dest!: merge_tip_same; simp add: same_store_def)
qed simp

lemma attach_head_same [bookkeeping]: "attach_head E B k c h = Some c' \<Longrightarrow> same_store c c'"
  by (auto simp: attach_head_def bind_eq_Some_conv Let_def dest!: merge_tips_same
      foldm_same[OF _ recurse_inverse_same]; simp add: same_store_def)

lemma attempt_attach_same [bookkeeping]: "attempt_attach E B h s c = Some (s', c') \<Longrightarrow> same_store c c'"
  by (auto simp: attempt_attach_def bind_eq_Some_conv dest!: foldm_same[OF _ attach_head_same])

lemma attempt_attach_valid_same [bookkeeping]:
  "attempt_attach_valid E B b i s c = Some (b', i', s', c') \<Longrightarrow> same_store c c'"
  by (auto simp: attempt_attach_valid_def bind_eq_Some_conv split: if_split_asm option.split_asm prod.split_asm
      dest!: make_valid_tips_same recurse_inverse_same; simp add: same_store_def)

lemma lower_max_same [bookkeeping]: "lower_max_orphan_height h c = Some c' \<Longrightarrow> same_store c c'"
  by (auto simp: lower_max_orphan_height_def bind_eq_Some_conv split: option.split_asm if_split_asm)

lemma validate_tip_same [bookkeeping]: "validate_tip B w c h = Some c' \<Longrightarrow> same_store c c'"
  by (auto simp: validate_tip_def bind_eq_Some_conv Let_def split: if_split_asm
      dest!: set_status_same mark_all_parents_same; simp add: same_store_def)

lemma forget_orphan_same [bookkeeping]: "forget_orphan E B b h c = Some c' \<Longrightarrow> same_store c c'"
  by (auto simp: forget_orphan_def bind_eq_Some_conv Let_def split: option.split_asm
      dest!: lower_max_same foldm_same[OF _ validate_tip_same]; simp add: same_store_def)

section \<open>The canonical chain as a list\<close>

text \<open>The blocks between two hashes, along the parent hashes.\<close>

primrec block_path :: "'b block_ops \<Rightarrow> hash \<Rightarrow> 'b list \<Rightarrow> hash \<Rightarrow> bool" where
  "block_path B t [] s \<longleftrightarrow> t = s"
| "block_path B t (b # bs) s \<longleftrightarrow> block_hash B b = Some t \<and> (\<exists>p. parent_hash B b = Some p \<and> block_path B p bs s)"

lemma block_path_append:
  "block_path B t (xs @ ys) s \<longleftrightarrow> (\<exists>u. block_path B t xs u \<and> block_path B u ys s)"
  by (induction xs arbitrary: t) auto

text \<open>The keys that the chain uses for its own entries, and the hashes that blocks can have.\<close>

definition meta_keys :: "cenv \<Rightarrow> hash set" where
  "meta_keys E = {CANONICAL_HEIGHT_KEY E, NULL_RLP_HASH} \<union> range (block_height_key E)"

definition block_key :: "cenv \<Rightarrow> 'b block_ops \<Rightarrow> hash \<Rightarrow> bool" where
  "block_key E B k \<longleftrightarrow> k \<notin> meta_keys E \<and> block_hash B (b_genesis B) \<noteq> Some k"

definition hashes :: "'b block_ops \<Rightarrow> 'b list \<Rightarrow> hash set" where
  "hashes B bs = {h. \<exists>b \<in> set bs. block_hash B b = Some h}"

definition stored_blocks :: "cenv \<Rightarrow> 'b block_ops \<Rightarrow> ('b \<Rightarrow> bool) \<Rightarrow> 'b Chain \<Rightarrow> 'b list \<Rightarrow> bool" where
  "stored_blocks E B ok c bs \<longleftrightarrow>
     (\<forall>b \<in> set bs. ok b \<and> (\<forall>h. block_hash B b = Some h \<longrightarrow> block_key E B h \<and>
        (\<exists>bytes. chain_get E c h = Some bytes \<and> decode_block B bytes = Some b))) \<and>
     (\<forall>k. k \<notin> meta_keys E \<and> k \<notin> hashes B bs \<longrightarrow> chain_get E c k = None) \<and>
     (\<forall>k \<in> meta_keys E. \<forall>bytes. chain_get E c k = Some bytes \<longrightarrow> decode_block B bytes = None)"

definition canonical :: "cenv \<Rightarrow> 'b block_ops \<Rightarrow> ('b \<Rightarrow> bool) \<Rightarrow> 'b Chain \<Rightarrow> 'b list \<Rightarrow> bool" where
  "canonical E B ok c bs \<longleftrightarrow>
     (\<exists>g t. block_hash B (b_genesis B) = Some g \<and> block_hash B (canonical_tip c) = Some t \<and> block_path B t bs g) \<and>
     canonical_tip c = (case bs of [] \<Rightarrow> b_genesis B | b # _ \<Rightarrow> b) \<and>
     distinct (map (block_hash B) bs) \<and> stored_blocks E B ok c bs"

definition pool_ok :: "cenv \<Rightarrow> 'b block_ops \<Rightarrow> ('b \<Rightarrow> bool) \<Rightarrow> 'b Chain \<Rightarrow> 'b list \<Rightarrow> bool" where
  "pool_ok E B ok c bs \<longleftrightarrow> (\<forall>k b. map_of (orphan_pool c) k = Some b \<longrightarrow>
     block_hash B b = Some k \<and> ok b \<and> block_key E B k \<and> k \<notin> hashes B bs)"

definition chain_inv :: "cenv \<Rightarrow> 'b block_ops \<Rightarrow> ('b \<Rightarrow> bool) \<Rightarrow> 'b Chain \<Rightarrow> 'b list \<Rightarrow> bool" where
  "chain_inv E B ok c bs \<longleftrightarrow> canonical E B ok c bs \<and> pool_ok E B ok c bs"

text \<open>All blocks that the state knows.\<close>

definition known :: "'b Chain \<Rightarrow> 'b list \<Rightarrow> 'b set" where
  "known c bs = set bs \<union> ran (map_of (orphan_pool c))"

lemma hashes_simps [simp]:
  "hashes B [] = {}" "block_hash B b = Some h \<Longrightarrow> hashes B (b # bs) = insert h (hashes B bs)"
  "hashes B (xs @ ys) = hashes B xs \<union> hashes B ys"
  by (auto simp: hashes_def)

lemma same_store_get: "same_store c c' \<Longrightarrow> chain_get E c' k = chain_get E c k"
  by (simp add: same_store_def chain_get_def)

lemma chain_inv_same:
  assumes "same_store c c'"
  shows "chain_inv E B ok c' bs = chain_inv E B ok c bs" "known c' bs = known c bs"
proof -
  have "orphan_pool c' = orphan_pool c" "canonical_tip c' = canonical_tip c" using assms by (simp_all add: same_store_def)
  then show "chain_inv E B ok c' bs = chain_inv E B ok c bs" "known c' bs = known c bs"
    unfolding chain_inv_def canonical_def stored_blocks_def pool_ok_def known_def same_store_get[OF assms] by simp_all
qed

lemma meta_get:
  assumes "stored_blocks E B ok c bs" "chain_get E c k = Some bytes" "decode_block B bytes = Some b"
  shows "k \<in> hashes B bs"
  using assms unfolding stored_blocks_def by (metis option.distinct(1))

text \<open>What \<open>write_block\<close> does to the store.\<close>

definition written :: "cenv \<Rightarrow> 'b \<Rightarrow> hash \<Rightarrow> u8 list \<Rightarrow> u64 \<Rightarrow> 'b Chain \<Rightarrow> 'b Chain" where
  "written E b h bytes n c = c\<lparr>canonical_tip := b, ch_height := n,
     ch_db := db_emplace (db_emplace (db_emplace (ch_db c) h bytes) (CANONICAL_HEIGHT_KEY E) (encode_be_u64 n))
       (block_height_key E h) (encode_be_u64 n),
     orphan_pool := AList.delete h (orphan_pool c)\<rparr>"

lemma stored_blocks_db: "ch_db c = ch_db d \<Longrightarrow> stored_blocks E B ok c bs = stored_blocks E B ok d bs"
  by (simp add: stored_blocks_def chain_get_def)

text \<open>The pool with the blocks \<open>zs\<close> put into it.\<close>

definition pooled :: "'b block_ops \<Rightarrow> 'b list \<Rightarrow> (hash \<rightharpoonup> 'b) \<Rightarrow> hash \<rightharpoonup> 'b" where
  "pooled B zs m = m ++ (\<lambda>k. find (\<lambda>z. block_hash B z = Some k) zs)"

lemma pooled_simps:
  "pooled B [] m = m"
  "block_hash B z = Some t \<Longrightarrow> t \<notin> hashes B zs \<Longrightarrow> pooled B zs (m(t \<mapsto> z)) = pooled B (z # zs) m"
proof -
  show "pooled B [] m = m" by (auto simp: pooled_def map_add_def fun_eq_iff)
  assume z: "block_hash B z = Some t" "t \<notin> hashes B zs"
  then have "find (\<lambda>z. block_hash B z = Some t) zs = None" by (auto simp: find_None_iff hashes_def)
  with z(1) show "pooled B zs (m(t \<mapsto> z)) = pooled B (z # zs) m"
    by (auto simp: pooled_def map_add_def fun_eq_iff split: option.split)
qed

lemma pooled_Some:
  assumes "pooled B zs m k = Some b"
  shows "b \<in> set zs \<and> block_hash B b = Some k \<or> m k = Some b"
  using assms by (auto simp: pooled_def map_add_def find_Some_iff split: option.split_asm)

lemma pooled_ran:
  assumes "distinct (map (block_hash B) zs)" "\<forall>z \<in> set zs. \<exists>h. block_hash B z = Some h" "\<forall>h \<in> hashes B zs. m h = None"
  shows "ran (pooled B zs m) = set zs \<union> ran m"
  using assms
proof (induction zs arbitrary: m)
  case (Cons z zs)
  then obtain t where t: "block_hash B z = Some t" by auto
  with Cons.prems(1) have "t \<notin> hashes B zs" by (auto simp: hashes_def rev_image_eqI)
  moreover from this have "ran (pooled B zs (m(t \<mapsto> z))) = set zs \<union> ran (m(t \<mapsto> z))"
    using Cons t by (intro Cons.IH) auto
  moreover have "m t = None" using Cons.prems(3) t by simp
  ultimately show ?case using t by (simp flip: pooled_simps(2))
qed (simp add: pooled_simps)

locale chain_laws = block_laws B ok "ce_null_rlp E" for E :: cenv and B :: "'b block_ops" and ok
begin

lemma number_decode: "decode_block B (encode_be_u64 n) = None"
  using number_no_block[of n] by (cases "b_from_bytes B (encode_be_u64 n)") (auto simp: decode_block_def split: sum.split)

lemma null_decode: "decode_block B (ce_null_rlp E) = None"
  using null_no_block by (cases "b_from_bytes B (ce_null_rlp E)") (auto simp: decode_block_def split: sum.split)

lemma width_8: "encode_be_u64 n \<noteq> NULL_RLP_HASH"
proof
  assume "encode_be_u64 n = NULL_RLP_HASH"
  then have "length (encode_be_u64 n) = length NULL_RLP_HASH" by simp
  then show False by (simp add: be_u64.enc_width NULL_RLP_HASH_def)
qed

lemma get_emplace_number:
  assumes "k \<in> meta_keys E"
  shows "chain_get E (c\<lparr>ch_db := db_emplace (ch_db c) k (encode_be_u64 n)\<rparr>) j =
    (if j = k \<and> j \<noteq> NULL_RLP_HASH then Some (encode_be_u64 n) else chain_get E c j)"
  by (simp add: chain_get_def db_get_def db_emplace_def width_8)

lemma stored_number:
  assumes "stored_blocks E B ok c bs" "k \<in> meta_keys E"
  shows "stored_blocks E B ok (c\<lparr>ch_db := db_emplace (ch_db c) k (encode_be_u64 n)\<rparr>) bs"
proof -
  have "block_key E B j \<Longrightarrow> j \<noteq> k" "j \<notin> meta_keys E \<Longrightarrow> j \<noteq> k" for j using assms(2) by (auto simp: block_key_def)
  with assms(1) show ?thesis
    unfolding stored_blocks_def get_emplace_number[OF assms(2)]
    by (fastforce simp: number_decode split: if_splits)
qed

lemma stored_block_added:
  assumes "stored_blocks E B ok c bs" "ok b" "block_hash B b = Some h" "block_key E B h" "b_to_bytes B b = Some bytes"
    "h \<notin> hashes B bs"
  shows "stored_blocks E B ok (c\<lparr>ch_db := db_emplace (ch_db c) h bytes\<rparr>) (b # bs)"
proof -
  have h: "h \<notin> meta_keys E" "h \<noteq> NULL_RLP_HASH" using assms(4) by (auto simp: block_key_def meta_keys_def)
  from stored_block[OF assms(2)] assms(5) have bytes: "decode_block B bytes = Some b" "bytes \<noteq> NULL_RLP_HASH"
    by (auto simp: decode_block_def)
  have get: "chain_get E (c\<lparr>ch_db := db_emplace (ch_db c) h bytes\<rparr>) j = (if j = h then Some bytes else chain_get E c j)" for j
    using h bytes by (simp add: chain_get_def db_get_def db_emplace_def)
  have "block_hash B b' \<noteq> Some h" if "b' \<in> set bs" for b' using that assms(6) by (auto simp: hashes_def)
  with assms(1-4) h bytes show ?thesis
    unfolding stored_blocks_def get by (auto simp: assms(3))
qed

text \<open>Writing a block puts it in front of the canonical chain and takes it out of the pool.\<close>

lemma write_block_split:
  assumes "write_block E B b c = Some c'"
  obtains h bytes n where "block_hash B b = Some h" "parent_hash B b = block_hash B (canonical_tip c)"
    "b_to_bytes B b = Some bytes" "same_store (written E b h bytes n c) c'"
proof -
  from assms obtain h bytes n d where run: "block_hash B b = Some h" "parent_hash B b = block_hash B (canonical_tip c)"
      "b_to_bytes B b = Some bytes" "forget_orphan E B b h d = Some c'" "d = written E b h bytes n c"
    by (auto simp: write_block_def written_def write_canonical_height_def bind_eq_Some_conv Let_def split: if_split_asm)
  show thesis using run(4) unfolding run(5) by (rule that[OF run(1-3) forget_orphan_same])
qed

lemma write_block_inv:
  assumes "write_block E B b c = Some c'" "chain_inv E B ok c bs" "ok b"
    and h: "block_hash B b = Some h" "block_key E B h" "h \<notin> hashes B bs"
    and new: "map_of (orphan_pool c) h = None \<or> map_of (orphan_pool c) h = Some b"
  shows "chain_inv E B ok c' (b # bs)" "known c' (b # bs) = insert b (known c bs)"
    "orphan_pool c' = AList.delete h (orphan_pool c)"
proof -
  from assms(1) h(1) obtain bytes n where run: "parent_hash B b = block_hash B (canonical_tip c)"
      "b_to_bytes B b = Some bytes" "same_store (written E b h bytes n c) c'"
    by (auto elim!: write_block_split)
  let ?d = "written E b h bytes n c"
  have meta: "CANONICAL_HEIGHT_KEY E \<in> meta_keys E" "block_height_key E h \<in> meta_keys E" by (simp_all add: meta_keys_def)
  from assms(2) have can: "canonical E B ok c bs" and pool: "pool_ok E B ok c bs" by (simp_all add: chain_inv_def)
  have "stored_blocks E B ok ?d (b # bs)"
    using stored_number[OF stored_number[OF stored_block_added[OF _ assms(3) h(1,2) run(2) h(3)] meta(1)] meta(2), of c n n] can
    by (subst stored_blocks_db) (auto simp: canonical_def written_def)
  with can h run(1) have "canonical E B ok ?d (b # bs)"
    by (auto simp: canonical_def written_def hashes_def)
  moreover have "pool_ok E B ok ?d (b # bs)" using pool h(1)
    by (auto simp: pool_ok_def written_def delete_conv' split: if_splits)
  ultimately have "chain_inv E B ok ?d (b # bs)" by (simp add: chain_inv_def)
  with run(3) show "chain_inv E B ok c' (b # bs)" by (simp add: chain_inv_same)
  have "ran (map_of (orphan_pool c)) \<subseteq> insert b (ran (map_of (AList.delete h (orphan_pool c))))"
  proof
    fix x assume "x \<in> ran (map_of (orphan_pool c))"
    then obtain k where k: "map_of (orphan_pool c) k = Some x" by (auto simp: ran_def)
    show "x \<in> insert b (ran (map_of (AList.delete h (orphan_pool c))))"
    proof (cases "k = h")
      case True
      with k new show ?thesis by auto
    next
      case False
      with k show ?thesis by (auto simp: delete_conv' intro!: ranI[of _ k])
    qed
  qed
  then have "known ?d (b # bs) = insert b (known c bs)"
    by (auto simp: known_def written_def ran_def delete_conv' split: if_splits)
  with run(3) show "known c' (b # bs) = insert b (known c bs)" by (simp add: chain_inv_same)
  show "orphan_pool c' = AList.delete h (orphan_pool c)" using run(3) by (simp add: same_store_def written_def)
qed

text \<open>Rewinding moves the blocks above the new tip from the store to the pool.\<close>

lemma stored_block_removed:
  assumes "stored_blocks E B ok c (b # bs)" "block_hash B b = Some h" "h \<notin> hashes B bs"
  shows "stored_blocks E B ok (c\<lparr>ch_db := db_remove (ch_db c) h\<rparr>) bs"
proof -
  have h: "block_key E B h" using assms by (simp add: stored_blocks_def)
  then have "h \<noteq> NULL_RLP_HASH" by (auto simp: block_key_def meta_keys_def)
  then have get: "chain_get E (c\<lparr>ch_db := db_remove (ch_db c) h\<rparr>) j = (if j = h then None else chain_get E c j)" for j
    by (simp add: chain_get_def db_get_def db_remove_def)
  have "block_hash B b' \<noteq> Some h" if "b' \<in> set bs" for b' using that assms(3) by (auto simp: hashes_def)
  with assms h show ?thesis unfolding stored_blocks_def get by auto
qed

lemma make_orphan_simps [simp]:
  "ch_db (make_orphan b h n s i c) = ch_db c" "canonical_tip (make_orphan b h n s i c) = canonical_tip c"
  "orphan_pool (make_orphan b h n s i c) = AList.update h b (orphan_pool c)"
  by (simp_all add: make_orphan_def Let_def update_max_orphan_height_def put_height_def put_status_def put_valid_tip_def
      split: option.split)

lemma rewind_loop_step:
  fixes i :: u64
  assumes st: "stored_blocks E B ok c (z # zs)" and z: "block_hash B z = Some t" "parent_hash B cur = Some t"
    and ne: "t \<noteq> h" "t \<notin> hashes B zs"
  defines "d \<equiv> make_orphan z t (b_height B z) BelongsToValidChain i (c\<lparr>ch_db := db_remove (ch_db c) t\<rparr>)"
  shows "rewind_loop E B h cur i c = do { j \<leftarrow> checked_add i 1; rewind_loop E B h z j d }"
    "stored_blocks E B ok d zs"
proof -
  from st z(1) obtain bytes where "chain_get E c t = Some bytes" "decode_block B bytes = Some z"
    by (auto simp: stored_blocks_def)
  then show "rewind_loop E B h cur i c = do { j \<leftarrow> checked_add i 1; rewind_loop E B h z j d }"
    by (subst rewind_loop.simps) (simp add: ne z d_def)
  show "stored_blocks E B ok d zs"
    using stored_block_removed[OF st z(1) ne(2)] by (subst stored_blocks_db) (auto simp: d_def)
qed

lemma distinct_path:
  assumes "distinct (map (block_hash B) (z # zs))" "block_hash B z = Some t"
  shows "t \<notin> hashes B zs" "distinct (map (block_hash B) zs)"
  using assms by (auto simp: hashes_def rev_image_eqI)

lemma rewind_loop_partial:
  assumes "stored_blocks E B ok c (zs @ b # ys)" "parent_hash B cur = Some t" "block_path B t (zs @ b # ys) g"
    "distinct (map (block_hash B) (zs @ b # ys))" "block_hash B b = Some h" "rewind_loop E B h cur i c = Some c'"
  shows "stored_blocks E B ok c' (b # ys) \<and> canonical_tip c' = canonical_tip c \<and>
    map_of (orphan_pool c') = pooled B zs (map_of (orphan_pool c))"
  using assms
proof (induction zs arbitrary: cur t i c)
  case Nil
  then show ?case by (subst (asm) rewind_loop.simps) (auto simp: pooled_simps)
next
  case (Cons z zs)
  then obtain p where z: "block_hash B z = Some t" "parent_hash B z = Some p" "block_path B p (zs @ b # ys) g" by auto
  note d = distinct_path[OF Cons.prems(4)[unfolded append_Cons] z(1)]
  with Cons.prems(5) have "t \<noteq> h" by (auto simp: hashes_def)
  note step = rewind_loop_step[OF Cons.prems(1)[unfolded append_Cons] z(1) Cons.prems(2) this d(1), of i]
  from Cons.prems(6) step(1) obtain j where
    "rewind_loop E B h z j (make_orphan z t (b_height B z) BelongsToValidChain i (c\<lparr>ch_db := db_remove (ch_db c) t\<rparr>)) = Some c'"
    by (auto simp: bind_eq_Some_conv)
  from Cons.IH[OF step(2) z(2,3) d(2) Cons.prems(5) this] show ?case
    using d(1) z(1) by (simp add: pooled_simps(2)[symmetric] update_conv' fun_upd_def)
qed

lemma rewind_loop_total:
  assumes "stored_blocks E B ok c (zs @ b # ys)" "parent_hash B cur = Some t" "block_path B t (zs @ b # ys) g"
    "distinct (map (block_hash B) (zs @ b # ys))" "block_hash B b = Some h" "unat i + length zs < 2 ^ 64"
  shows "\<exists>c'. rewind_loop E B h cur i c = Some c'"
  using assms
proof (induction zs arbitrary: cur t i c)
  case Nil
  then show ?case by (subst rewind_loop.simps) auto
next
  case (Cons z zs)
  then obtain p where z: "block_hash B z = Some t" "parent_hash B z = Some p" "block_path B p (zs @ b # ys) g" by auto
  note d = distinct_path[OF Cons.prems(4)[unfolded append_Cons] z(1)]
  with Cons.prems(5) have "t \<noteq> h" by (auto simp: hashes_def)
  note step = rewind_loop_step[OF Cons.prems(1)[unfolded append_Cons] z(1) Cons.prems(2) this d(1), of i]
  from Cons.prems(6) have i: "checked_add i 1 = Some (i + 1)" "unat (i + 1) = unat i + 1"
    by (simp_all add: checked_add_def unat_word_ariths)
  from Cons.IH[OF step(2) z(2,3) d(2) Cons.prems(5), of "i + 1"] Cons.prems(6) i step(1) show ?case by simp
qed

text \<open>The loop that looks for a block that is not among the parents ends in a panic at the genesis block.\<close>

lemma rewind_loop_dead:
  assumes "stored_blocks E B ok c zs" "parent_hash B cur = Some t" "block_path B t zs g"
    "distinct (map (block_hash B) zs)" "h \<notin> hashes B zs" "h \<noteq> g" "g \<notin> hashes B zs"
  shows "rewind_loop E B h cur i c = None"
  using assms
proof (induction zs arbitrary: cur t i c)
  case Nil
  then have "do { bytes \<leftarrow> chain_get E c g; decode_block B bytes } = None"
    using meta_get[OF Nil(1), of g] by (cases "chain_get E c g"; cases "decode_block B (the (chain_get E c g))") auto
  with Nil show ?case by (subst rewind_loop.simps) (auto simp: bind_eq_None_conv)
next
  case (Cons z zs)
  then obtain p where z: "block_hash B z = Some t" "parent_hash B z = Some p" "block_path B p zs g" by auto
  note d = distinct_path[OF Cons.prems(4) z(1)]
  from Cons.prems(5) z(1) have "t \<noteq> h" by auto
  note step = rewind_loop_step[OF Cons.prems(1) z(1) Cons.prems(2) this d(1), of i]
  from Cons.IH[OF step(2) z(2,3) d(2)] Cons.prems(5-7) z(1) step(1) show ?case by (cases "checked_add i 1") simp_all
qed

lemma stored_distinct_path:
  assumes "stored_blocks E B ok c bs" "block_path B t bs g" "block_hash B (b_genesis B) = Some g"
  shows "g \<notin> hashes B bs"
  using assms by (auto simp: stored_blocks_def block_key_def hashes_def)

lemma rewind_inv:
  assumes inv: "chain_inv E B ok c bs" and run: "rewind E B h c = Some (Inr c')"
  obtains xs b ys where "bs = xs @ b # ys" "block_hash B b = Some h" "xs \<noteq> []" "chain_inv E B ok c' (b # ys)"
    "known c' (b # ys) = known c bs" "map_of (orphan_pool c') = pooled B xs (map_of (orphan_pool c))"
    "ch_height c' = b_height B b"
proof -
  from run obtain g bytes b t d where g: "block_hash B (b_genesis B) = Some g" "h \<noteq> g"
    and b: "chain_get E c h = Some bytes" "decode_block B bytes = Some b" and t: "block_hash B (canonical_tip c) = Some t"
    and loop: "rewind_loop E B h (canonical_tip c) 1
      (make_orphan (canonical_tip c) t (b_height B (canonical_tip c)) ValidChainTip 0 (c\<lparr>ch_db := db_remove (ch_db c) t\<rparr>)) = Some d"
    and c': "c' = (write_canonical_height E (b_height B b) (d\<lparr>ch_height := b_height B b\<rparr>))\<lparr>canonical_tip := b\<rparr>"
    by (auto simp: rewind_def bind_eq_Some_conv Let_def split: if_split_asm option.split_asm)
  let ?c = "make_orphan (canonical_tip c) t (b_height B (canonical_tip c)) ValidChainTip 0 (c\<lparr>ch_db := db_remove (ch_db c) t\<rparr>)"
  from inv t g have path: "block_path B t bs g" and tip: "canonical_tip c = (case bs of [] \<Rightarrow> b_genesis B | b # _ \<Rightarrow> b)"
    and dist: "distinct (map (block_hash B) bs)" and st: "stored_blocks E B ok c bs" and pool: "pool_ok E B ok c bs"
    by (auto simp: chain_inv_def canonical_def)
  from meta_get[OF st b] obtain b' where "b' \<in> set bs" "block_hash B b' = Some h" by (auto simp: hashes_def)
  with st b have h: "b \<in> set bs" "block_hash B b = Some h" by (auto simp: stored_blocks_def)
  from h(1) obtain xs ys where bs: "bs = xs @ b # ys" by (meson split_list)
  have st1: "stored_blocks E B ok ?c zs" if "bs = x # zs" for x zs
  proof -
    from that tip t have x: "block_hash B x = Some t" by simp
    note d = distinct_path[OF dist[unfolded that] x]
    show ?thesis using stored_block_removed[OF st[unfolded that] x d(1)] by (subst stored_blocks_db) auto
  qed
  have "xs \<noteq> []"
  proof
    assume "xs = []"
    with bs have bs': "bs = b # ys" by simp
    from path h(2) bs' obtain p where p: "parent_hash B b = Some p" "block_path B p ys g" by auto
    note d = distinct_path[OF dist[unfolded bs'] h(2)]
    have "rewind_loop E B h b 1 ?c = None"
      by (rule rewind_loop_dead[OF st1[OF bs'] p d(2,1) g(2)])
        (use stored_distinct_path[OF st path g(1)] h(2) bs' in simp)
    with loop tip bs' show False by simp
  qed
  then obtain x xs' where xs: "xs = x # xs'" by (cases xs) auto
  with tip bs t have x: "block_hash B x = Some t" "canonical_tip c = x" by simp_all
  from path bs xs obtain p where p: "parent_hash B x = Some p" "block_path B p (xs' @ b # ys) g" by auto
  have bs': "bs = x # xs' @ b # ys" using bs xs by simp
  note d = distinct_path[OF dist[unfolded bs'] x(1)]
  from rewind_loop_partial[OF st1[OF bs'] p(1)[folded x(2)] p(2) d(2) h(2) loop] x(2) d(1) x(1)
  have d': "stored_blocks E B ok d (b # ys)" "map_of (orphan_pool d) = pooled B xs (map_of (orphan_pool c))"
    by (simp_all add: xs pooled_simps(2)[symmetric] update_conv' fun_upd_def)
  have sub: "\<forall>k \<in> hashes B xs. k \<notin> hashes B (b # ys)" using dist by (auto simp: bs hashes_def rev_image_eqI)
  have "stored_blocks E B ok c' (b # ys)"
    using stored_number[OF d'(1), of "CANONICAL_HEIGHT_KEY E" "b_height B b"]
    by (subst stored_blocks_db) (auto simp: c' write_canonical_height_def meta_keys_def)
  moreover from path bs h(2) have "block_path B h (b # ys) g" by (auto simp: block_path_append)
  ultimately have "canonical E B ok c' (b # ys)" using dist g(1) h(2) by (simp add: canonical_def c' bs)
  moreover have "pool_ok E B ok c' (b # ys)"
    using pool st sub unfolding pool_ok_def c' write_canonical_height_def stored_blocks_def
    by (auto simp: d'(2) bs hashes_def dest!: pooled_Some)
  ultimately have "chain_inv E B ok c' (b # ys)" by (simp add: chain_inv_def)
  moreover have "known c' (b # ys) = known c bs"
  proof -
    have "ran (pooled B xs (map_of (orphan_pool c))) = set xs \<union> ran (map_of (orphan_pool c))"
    proof (rule pooled_ran)
      show "distinct (map (block_hash B) xs)" using dist by (simp add: bs)
      show "\<forall>z \<in> set xs. \<exists>h. block_hash B z = Some h" using st has_hash by (auto simp: stored_blocks_def bs)
      show "\<forall>h \<in> hashes B xs. map_of (orphan_pool c) h = None"
        using pool by (auto simp: pool_ok_def bs) (metis not_None_eq)
    qed
    then show ?thesis by (auto simp: known_def c' write_canonical_height_def d'(2) bs)
  qed
  ultimately show thesis
    using that[OF bs h(2) \<open>xs \<noteq> []\<close>] d'(2) by (simp add: c' write_canonical_height_def)
qed

lemma rewind_returns:
  assumes inv: "chain_inv E B ok c (x # xs @ b # ys)" and h: "block_hash B b = Some h" and "length xs < 2 ^ 64 - 1"
  shows "\<exists>c'. rewind E B h c = Some (Inr c')"
proof -
  from inv obtain g t where g: "block_hash B (b_genesis B) = Some g" and x: "block_hash B x = Some t"
    and path: "block_path B t (x # xs @ b # ys) g" and tip: "canonical_tip c = x"
    and dist: "distinct (map (block_hash B) (x # xs @ b # ys))" and st: "stored_blocks E B ok c (x # xs @ b # ys)"
    by (auto simp: chain_inv_def canonical_def)
  from st h obtain bytes where b: "chain_get E c h = Some bytes" "decode_block B bytes = Some b"
    by (auto simp: stored_blocks_def)
  have "h \<noteq> g" using st h g by (auto simp: stored_blocks_def block_key_def)
  from path obtain p where p: "parent_hash B x = Some p" "block_path B p (xs @ b # ys) g" by auto
  note d = distinct_path[OF dist x]
  let ?c = "make_orphan x t (b_height B x) ValidChainTip 0 (c\<lparr>ch_db := db_remove (ch_db c) t\<rparr>)"
  have "stored_blocks E B ok ?c (xs @ b # ys)"
    using stored_block_removed[OF st x d(1)] by (subst stored_blocks_db) auto
  from rewind_loop_total[OF this p d(2) h, of 1] assms(3) obtain c' where "rewind_loop E B h x 1 ?c = Some c'"
    by auto
  with g x b \<open>h \<noteq> g\<close> show ?thesis by (auto simp: rewind_def tip Let_def)
qed

end

end
