(* ===== verification/Chain_Refine.thy ===== *)
theory Chain_Refine
  imports Chain_Props
begin

text \<open>
  Appending a block, as the list of canonical blocks sees it: the chain stays connected to the genesis
  block, no block is stored twice, and no block that was accepted is ever lost.
\<close>

declare process_loop.simps [simp del]

text \<open>A state that extends the canonical chain by blocks of the pool.\<close>

definition extends :: "cenv \<Rightarrow> 'b block_ops \<Rightarrow> ('b \<Rightarrow> bool) \<Rightarrow> 'b Chain \<Rightarrow> 'b list \<Rightarrow> 'b Chain \<Rightarrow> bool" where
  "extends E B ok c bs c' \<longleftrightarrow> (\<exists>xs. chain_inv E B ok c' (xs @ bs) \<and> known c' (xs @ bs) = known c bs)"

lemma sift_same:
  "foldm (sift_orphan B os) (buf, prev, c) ks = Some (buf', prev', c') \<Longrightarrow> same_store c c'"
proof (induction ks arbitrary: buf prev c)
  case (Cons k ks)
  from Cons.prems obtain buf1 prev1 d where d: "sift_orphan B os (buf, prev, c) k = Some (buf1, prev1, d)"
    "foldm (sift_orphan B os) (buf1, prev1, d) ks = Some (buf', prev', c')" by (auto simp: bind_eq_Some_conv)
  from d(1) have "same_store c d"
    by (auto simp: sift_orphan_def bind_eq_Some_conv Let_def split: if_split_asm dest!: set_status_same;
        simp add: same_store_def)
  with Cons.IH[OF d(2)] show ?case using same_store_trans by blast
qed simp

lemma keep_tips_same: "foldm keep_tip (prev, c) ks = Some (prev', c') \<Longrightarrow> same_store c c'"
proof (induction ks arbitrary: prev c)
  case (Cons k ks)
  from Cons.prems obtain prev1 d where d: "keep_tip (prev, c) k = Some (prev1, d)"
    "foldm keep_tip (prev1, d) ks = Some (prev', c')" by (auto simp: bind_eq_Some_conv)
  from d(1) have "same_store c d" by (auto simp: keep_tip_def bind_eq_Some_conv dest!: set_status_same)
  with Cons.IH[OF d(2)] show ?case using same_store_trans by blast
qed simp

text \<open>
  The blocks between the candidate and the horizon are found in the pool.  As the search returns, none
  of them is met twice.
\<close>

lemma find_horizon_path:
  assumes "find_horizon E B k acc c = Some r" "\<forall>k b. map_of (orphan_pool c) k = Some b \<longrightarrow> block_hash B b = Some k"
  shows "\<exists>zs. snd r = rev zs @ acc \<and> block_path B k zs (fst r) \<and> chain_get E c (fst r) \<noteq> None \<and>
    (\<forall>z \<in> set zs. \<exists>h. block_hash B z = Some h \<and> map_of (orphan_pool c) h = Some z \<and> chain_get E c h = None)"
  using assms(2)
proof (induction rule: find_horizon.raw_induct[OF _ assms(1)])
  case (1 f E B k acc c r)
  show ?case
  proof (cases "chain_get E c k")
    case (Some x)
    with 1(2) show ?thesis by (intro exI[of _ "[]"]) auto
  next
    case None
    with 1(2) obtain z p where z: "map_of (orphan_pool c) k = Some z" "parent_hash B z = Some p"
      "f E B p (z # acc) c = Some r" by (auto simp: bind_eq_Some_conv)
    from 1(1)[OF z(3) 1(3)] obtain zs where zs: "snd r = rev zs @ z # acc" "block_path B p zs (fst r)" "chain_get E c (fst r) \<noteq> None"
      "\<forall>z \<in> set zs. \<exists>h. block_hash B z = Some h \<and> map_of (orphan_pool c) h = Some z \<and> chain_get E c h = None" by blast
    from 1(3) z(1) have "block_hash B z = Some k" by blast
    with zs z None show ?thesis by (intro exI[of _ "z # zs"]) auto
  qed
qed

lemma pool_path_unique:
  assumes "block_path B k xs hz" "block_path B k ys hz"
    "\<forall>z \<in> set xs \<union> set ys. \<exists>h. block_hash B z = Some h \<and> m h = Some z \<and> h \<noteq> hz"
  shows "xs = ys"
  using assms
proof (induction xs arbitrary: k ys)
  case Nil
  then show ?case by (cases ys) auto
next
  case (Cons x xs)
  then obtain y ys' where ys: "ys = y # ys'" by (cases ys) auto
  from Cons.prems ys have "m k = Some x" "m k = Some y" by auto
  with Cons ys show ?case by auto
qed

lemma pool_path_distinct:
  assumes "block_path B k zs hz" "\<forall>z \<in> set zs. \<exists>h. block_hash B z = Some h \<and> m h = Some z \<and> h \<noteq> hz"
  shows "distinct (map (block_hash B) zs)"
  using assms
proof (induction zs arbitrary: k)
  case (Cons z zs)
  have "block_hash B z \<notin> block_hash B ` set zs"
  proof
    assume "block_hash B z \<in> block_hash B ` set zs"
    with Cons.prems obtain y where "y \<in> set zs" "block_hash B y = Some k" by auto
    then obtain as bs where zs: "zs = as @ y # bs" by (meson split_list)
    with Cons.prems \<open>block_hash B y = Some k\<close> have "block_path B k (y # bs) hz" by (auto simp: block_path_append)
    with Cons.prems zs have "z # zs = y # bs" by (intro pool_path_unique[of B k _ hz _ m]) auto
    then have "length (z # zs) = length (y # bs)" by simp
    with zs show False by simp
  qed
  with Cons show ?case by auto
qed simp

lemma same_store_pool:
  "same_store c d \<Longrightarrow> same_store (c\<lparr>orphan_pool := p\<rparr>) (d\<lparr>orphan_pool := p\<rparr>)"
  by (simp add: same_store_def)

lemma write_orphan_store:
  assumes "write_orphan B b s i c = Some c'" "block_hash B b = Some h"
  shows "same_store (c\<lparr>orphan_pool := AList.update h b (orphan_pool c)\<rparr>) c'"
proof -
  define d1 where "d1 = (if s = ValidChainTip then put_valid_tip h c else c)"
  define d where "d = (case map_of (heights_mapping d1) (b_height B b) of
      Some entry \<Rightarrow> if map_of entry h = None then put_height (b_height B b) h i d1 else d1
    | None \<Rightarrow> put_height (b_height B b) h i d1)"
  have "same_store c d1" by (simp add: d1_def)
  then have d: "same_store c d" by (simp add: d_def split: option.split)
  have "c' = put_status h s (update_max_orphan_height (b_height B b) (d\<lparr>orphan_pool := AList.update h b (orphan_pool d)\<rparr>))"
    using assms(1) unfolding write_orphan_def assms(2) Let_def d_def d1_def by simp
  moreover have "orphan_pool d = orphan_pool c" using d by (simp add: same_store_def)
  ultimately show ?thesis using same_store_pool[OF d] by simp
qed

lemma attach_valid_tip:
  assumes "attempt_attach_valid E B b i s c = Some (b', i', s', c')"
  shows "b' = b \<or> (\<exists>k. map_of (orphan_pool c) k = Some b')"
proof -
  from assms obtain current c1 where "(case current of
          None \<Rightarrow> Some (b, i, s, c)
        | Some (head_hash, largest_height, largest_tip) \<Rightarrow> do {
            new_tip \<leftarrow> map_of (orphan_pool c) largest_tip;
            inverse_height \<leftarrow> checked_sub largest_height (b_height B b);
            c \<leftarrow> make_valid_tips E B head_hash c;
            Some (new_tip, inverse_height, BelongsToValidChain, c)
          }) = Some (b', i', s', c1)"
    by (auto simp: attempt_attach_valid_def bind_eq_Some_conv split: if_split_asm)
  then show ?thesis by (cases current) (auto simp: bind_eq_Some_conv)
qed

lemma settle_same: "settle_disconnected B b h k s c = Some c' \<Longrightarrow> same_store c c'"
  by (auto simp: settle_disconnected_def bind_eq_Some_conv Let_def split: if_split_asm dest: recurse_inverse_same)

text \<open>A block that joins a disconnected chain only changes the pool.\<close>

lemma append_to_disconnected_tip_store:
  assumes "append_to_disconnected_tip E B b h p c = Some c'" "block_hash B b = Some h"
  shows "same_store (c\<lparr>orphan_pool := AList.update h b (orphan_pool c)\<rparr>) c'"
  using assms(1)
  by (auto simp: append_to_disconnected_tip_def bind_eq_Some_conv Let_def split: if_split_asm
      dest!: settle_same attempt_attach_same write_orphan_store[OF _ assms(2)];
      simp add: same_store_def put_status_def)

lemma append_to_disconnected_store:
  assumes "append_to_disconnected E B b h p c = Some c'" "block_hash B b = Some h"
  shows "same_store (c\<lparr>orphan_pool := AList.update h b (orphan_pool c)\<rparr>) c'"
  using assms(1)
  by (auto simp: append_to_disconnected_def bind_eq_Some_conv Let_def split: if_split_asm
      dest!: settle_same attempt_attach_same write_orphan_store[OF _ assms(2)];
      simp add: same_store_def put_status_def)

lemma append_unconnected_store:
  assumes "append_unconnected E B b h p c = Some c'" "block_hash B b = Some h"
  shows "same_store (c\<lparr>orphan_pool := AList.update h b (AList.update h b (orphan_pool c))\<rparr>) c'"
  using assms(1)
  by (auto simp: append_unconnected_def bind_eq_Some_conv Let_def split: option.split_asm
      dest!: attempt_attach_same write_orphan_store[OF _ assms(2)] attempt_attach_valid_same;
      simp add: same_store_def put_height_def)

lemma append_block_cases:
  assumes "append_block E B b c = Some (Inr c')" "block_hash B b = Some h"
  obtains
    (tip) d n where "parent_hash B b = block_hash B (canonical_tip c)" "write_block E B b c = Some d"
      "next_height (b_height B b) = Some n" "process_orphans E B n d = Some c'" "checked_add (ch_height c) 1 = Some (b_height B b)"
  | (fork) "parent_hash B b \<noteq> block_hash B (canonical_tip c)" "append_fork E B b c = Some c'"
  | (orphan) p where "parent_hash B b = Some p" "parent_hash B b \<noteq> block_hash B (canonical_tip c)" "chain_get E c p = None"
      "append_to_orphan E B b h p c = Some c'"
  | (unconnected) p where "parent_hash B b = Some p" "parent_hash B b \<noteq> block_hash B (canonical_tip c)" "chain_get E c p = None"
      "map_of (orphan_pool c) p = None" "append_unconnected E B b h p c = Some c'"
  using assms
  by (auto simp: append_block_def bind_eq_Some_conv Let_def split: if_split_asm option.split_asm)

text \<open>The states of a chain that starts empty and is changed by accepted blocks and by rewinding.\<close>

inductive reachable_chain :: "cenv \<Rightarrow> 'b block_ops \<Rightarrow> ('b \<Rightarrow> bool) \<Rightarrow> 'b Chain \<Rightarrow> bool" for E B ok where
  start: "chain_new E B new_in_memory = Some c \<Longrightarrow> reachable_chain E B ok c"
| append: "reachable_chain E B ok c \<Longrightarrow> append_block E B b c = Some (Inr c') \<Longrightarrow> ok b \<Longrightarrow> block_hash B b = Some h \<Longrightarrow>
    block_key E B h \<Longrightarrow> reachable_chain E B ok c'"
| rewind: "reachable_chain E B ok c \<Longrightarrow> rewind E B h c = Some (Inr c') \<Longrightarrow> reachable_chain E B ok c'"

context chain_laws
begin

section \<open>Orphans that follow the tip\<close>

lemma pool_block:
  assumes "chain_inv E B ok c bs" "map_of (orphan_pool c) k = Some b"
  shows "ok b" "block_hash B b = Some k" "block_key E B k" "k \<notin> hashes B bs"
  using assms by (auto simp: chain_inv_def pool_ok_def)

lemma write_pool_block:
  assumes "chain_inv E B ok c bs" "map_of (orphan_pool c) k = Some b" "write_block E B b c = Some c'"
  shows "chain_inv E B ok c' (b # bs)" "known c' (b # bs) = known c bs"
    "orphan_pool c' = AList.delete k (orphan_pool c)"
proof -
  note b = pool_block[OF assms(1,2)]
  have "b \<in> known c bs" using assms(2) by (auto simp: known_def ran_def)
  with write_block_inv[OF assms(3,1) b] assms(2) show "chain_inv E B ok c' (b # bs)" "known c' (b # bs) = known c bs"
    "orphan_pool c' = AList.delete k (orphan_pool c)" by (auto simp: insert_absorb)
qed

lemma extends_refl: "chain_inv E B ok c bs \<Longrightarrow> extends E B ok c bs c"
  unfolding extends_def by (rule exI[of _ "[]"]) simp

lemma extends_same:
  assumes "same_store c d" "extends E B ok d bs c'"
  shows "extends E B ok c bs c'"
  using assms by (simp add: extends_def chain_inv_same)

lemma extends_write:
  assumes "chain_inv E B ok c bs" "map_of (orphan_pool c) k = Some b" "write_block E B b c = Some d"
    and "chain_inv E B ok d (b # bs) \<Longrightarrow> extends E B ok d (b # bs) c'"
  shows "extends E B ok c bs c'"
proof -
  note w = write_pool_block[OF assms(1-3)]
  from assms(4)[OF w(1)] obtain xs where "chain_inv E B ok c' (xs @ b # bs)" "known c' (xs @ b # bs) = known c bs"
    by (auto simp: extends_def w(2))
  then show ?thesis unfolding extends_def by (intro exI[of _ "xs @ [b]"]) simp
qed

lemma write_best_cases:
  "write_best E B fin buf c = Some (buf', c') \<Longrightarrow>
     c' = c \<or> (\<exists>k b. map_of (orphan_pool c) k = Some b \<and> write_block E B b c = Some c')"
  by (auto simp: write_best_def bind_eq_Some_conv split: if_split_asm option.split_asm)

lemma process_loop_extends:
  assumes "process_loop E B m h fin prev c = Some c'" "chain_inv E B ok c bs"
  shows "extends E B ok c bs c'"
  using assms
proof (induction "2 * (unat m + 1 - unat h) + (if fin then 0 else 1)" arbitrary: h fin prev c bs rule: less_induct)
  case less
  have next_h: "extends E B ok d as c'" if "next_height h = Some h'" "process_loop E B m h' fin' prev' d = Some c'"
    "h \<le> m" "chain_inv E B ok d as" for h' fin' prev' d as
    using next_height_less[OF that(1,3)] that(2,4) by (intro less.hyps) (auto simp: not_less)
  show ?case
  proof (cases "m < h")
    case True
    with less.prems show ?thesis by (simp add: process_loop.simps[of E B m h] extends_refl)
  next
    case False
    then have hm: "h \<le> m" by simp
    show ?thesis
    proof (cases "map_of (heights_mapping c) h")
      case None
      with less.prems(1) False obtain h' where "next_height h = Some h'" "process_loop E B m h' fin prev c = Some c'"
        by (subst (asm) process_loop.simps) (auto simp: bind_eq_Some_conv)
      with hm less.prems(2) show ?thesis by (blast intro: next_h)
    next
      case (Some orphans)
      consider "length orphans = 1" | "orphans = []" | "length orphans \<noteq> 1" "orphans \<noteq> []" by blast
      then show ?thesis
      proof cases
        case 1
        with less.prems(1) False Some consider "c' = c" | b d h' where
          "map_of (orphan_pool c) (fst (hd orphans)) = Some b" "write_block E B b c = Some d"
          "next_height h = Some h'" "process_loop E B m h' fin prev d = Some c'"
          by (subst (asm) process_loop.simps) (auto simp: bind_eq_Some_conv split: if_split_asm)
        then show ?thesis
          using less.prems(2) hm by cases (blast intro: extends_refl extends_write next_h)+
      next
        case 2
        with less.prems(1) False Some consider "c' = c" | h' where "next_height h = Some h'" "process_loop E B m h' True prev c = Some c'"
          by (subst (asm) process_loop.simps) (auto simp: bind_eq_Some_conv split: if_split_asm)
        then show ?thesis
          using less.prems(2) hm by cases (blast intro: extends_refl next_h)+
      next
        case 3
        with less.prems(1) False Some obtain buf prev1 d where
          d: "foldm (sift_orphan B orphans) ([], prev, c) (ce_iter E (map fst orphans)) = Some (buf, prev1, d)"
          and cases: "(buf = [] \<and> (c' = d \<or> \<not> fin \<and> process_loop E B m h True prev1 d = Some c')) \<or>
            (\<exists>buf1 d1 prev2 d2 h'. write_best E B fin (ce_sort E buf) d = Some (buf1, d1) \<and>
              foldm keep_tip (prev1, d1) buf1 = Some (prev2, d2) \<and> next_height h = Some h' \<and>
              process_loop E B m h' fin prev2 d2 = Some c')"
          by (subst (asm) process_loop.simps) (auto simp: bind_eq_Some_conv split: if_split_asm)
        note same = sift_same[OF d]
        with less.prems(2) have inv: "chain_inv E B ok d bs" by (simp add: chain_inv_same)
        from cases have "extends E B ok d bs c'"
        proof (elim disjE conjE exE)
          assume "c' = d"
          with inv show ?thesis by (simp add: extends_refl)
        next
          assume "\<not> fin" "process_loop E B m h True prev1 d = Some c'"
          with inv show ?thesis by (intro less.hyps) simp_all
        next
          fix buf1 d1 prev2 d2 h'
          assume best: "write_best E B fin (ce_sort E buf) d = Some (buf1, d1)"
            and keep: "foldm keep_tip (prev1, d1) buf1 = Some (prev2, d2)"
            and rest: "next_height h = Some h'" "process_loop E B m h' fin prev2 d2 = Some c'"
          have rest': "extends E B ok d1 as c'" if "chain_inv E B ok d1 as" for as
            using that keep_tips_same[OF keep]
            by (intro extends_same[OF keep_tips_same[OF keep]] next_h[OF rest hm]) (simp add: chain_inv_same)
          from write_best_cases[OF best] show ?thesis
            using inv rest'[of bs] extends_write[OF inv _ _ rest'] by auto
        qed
        with same show ?thesis by (rule extends_same)
      qed
    qed
  qed
qed

lemma process_orphans_extends:
  "process_orphans E B h c = Some c' \<Longrightarrow> chain_inv E B ok c bs \<Longrightarrow> extends E B ok c bs c'"
  by (auto simp: process_orphans_def extends_refl split: option.split_asm intro: process_loop_extends)

section \<open>Switching to another chain\<close>

lemma write_candidate_eq:
  "block_hash B w = Some h \<Longrightarrow> write_candidate E B hz d w = (if h = hz then Some d else write_block E B w d)"
  by (simp add: write_candidate_def)

lemma write_candidates:
  assumes "foldm (write_candidate E B hz) d ws = Some c'" "chain_inv E B ok d as"
    "\<forall>w \<in> set ws. \<exists>h. block_hash B w = Some h \<and> map_of (orphan_pool d) h = Some w \<and> h \<noteq> hz" "distinct (map (block_hash B) ws)"
  shows "chain_inv E B ok c' (rev ws @ as)" "known c' (rev ws @ as) = known d as"
proof -
  have "chain_inv E B ok c' (rev ws @ as) \<and> known c' (rev ws @ as) = known d as"
    using assms
  proof (induction ws arbitrary: d as)
    case (Cons w ws)
    from Cons.prems(3) obtain h where h: "block_hash B w = Some h" "map_of (orphan_pool d) h = Some w" "h \<noteq> hz" by auto
    with Cons.prems(1) obtain d' where d': "write_block E B w d = Some d'" "foldm (write_candidate E B hz) d' ws = Some c'"
      by (auto simp: write_candidate_eq bind_eq_Some_conv)
    note w = write_pool_block[OF Cons.prems(2) h(2) d'(1)]
    have "\<forall>v \<in> set ws. \<exists>k. block_hash B v = Some k \<and> map_of (orphan_pool d') k = Some v \<and> k \<noteq> hz"
    proof
      fix v assume v: "v \<in> set ws"
      with Cons.prems(3) obtain k where k: "block_hash B v = Some k" "map_of (orphan_pool d) k = Some v" "k \<noteq> hz" by auto
      from Cons.prems(4) v h(1) k(1) have "k \<noteq> h" by (auto simp: rev_image_eqI)
      with k show "\<exists>k. block_hash B v = Some k \<and> map_of (orphan_pool d') k = Some v \<and> k \<noteq> hz" by (auto simp: w(3) delete_conv')
    qed
    from Cons.IH[OF d'(2) w(1) this] Cons.prems(4) w(2) show ?case by simp
  qed auto
  then show "chain_inv E B ok c' (rev ws @ as)" "known c' (rev ws @ as) = known d as" by simp_all
qed

lemma pooled_other: "k \<notin> hashes B xs \<Longrightarrow> pooled B xs m k = m k"
  by (auto simp: pooled_def map_add_def hashes_def find_Some_iff split: option.split)

text \<open>
  A longer chain becomes canonical from the block on that it has in common with the old one; otherwise
  nothing happens.
\<close>

lemma attempt_switch_longer:
  assumes run: "attempt_switch E B b c = Some c'" and inv: "chain_inv E B ok c bs"
    and h: "block_hash B b = Some h" "map_of (orphan_pool c) h = Some b" and longer: "ch_height c < b_height B b"
  obtains xs y ys zs where "bs = xs @ y # ys" "xs \<noteq> []" "chain_inv E B ok c' (b # zs @ y # ys)"
    "known c' (b # zs @ y # ys) = known c bs"
proof -
  from run h longer obtain p hz ws r where p: "parent_hash B b = Some p" and find: "find_horizon E B p [b] c = Some (hz, ws)"
    and r: "rewind E B hz c = Some r" "(case r of Inr d \<Rightarrow> foldm (write_candidate E B hz) d ws | Inl _ \<Rightarrow> None) = Some c'"
    by (auto simp: attempt_switch_def bind_eq_Some_conv split: if_split_asm)
  from r obtain d where d: "rewind E B hz c = Some (Inr d)" "foldm (write_candidate E B hz) d ws = Some c'"
    by (cases r) auto
  have pool: "\<forall>k b. map_of (orphan_pool c) k = Some b \<longrightarrow> block_hash B b = Some k" using pool_block[OF inv] by blast
  have none: "chain_get E c k = None" if "map_of (orphan_pool c) k = Some x" for k x
    using inv pool_block[OF inv that] by (auto simp: chain_inv_def canonical_def stored_blocks_def block_key_def)
  from find_horizon_path[OF find pool] obtain zs where zs: "ws = rev (b # zs)" "block_path B p zs hz" "chain_get E c hz \<noteq> None"
    "\<forall>z \<in> set zs. \<exists>k. block_hash B z = Some k \<and> map_of (orphan_pool c) k = Some z \<and> chain_get E c k = None" by auto
  from zs(4) h have all: "\<forall>z \<in> set (b # zs). \<exists>k. block_hash B z = Some k \<and> map_of (orphan_pool c) k = Some z" by fastforce
  from zs(3) none all have ne: "\<forall>z \<in> set (b # zs). \<exists>k. block_hash B z = Some k \<and> map_of (orphan_pool c) k = Some z \<and> k \<noteq> hz"
    by fastforce
  from zs(2) h(1) p have "block_path B h (b # zs) hz" by simp
  from pool_path_distinct[OF this ne] have dist: "distinct (map (block_hash B) (b # zs))" .
  from inv d(1) obtain xs y ys where y: "bs = xs @ y # ys" "block_hash B y = Some hz" "xs \<noteq> []" "chain_inv E B ok d (y # ys)"
    "known d (y # ys) = known c bs" "map_of (orphan_pool d) = pooled B xs (map_of (orphan_pool c))"
    "ch_height d = b_height B y" by (rule rewind_inv)
  have "\<forall>w \<in> set ws. \<exists>k. block_hash B w = Some k \<and> map_of (orphan_pool d) k = Some w \<and> k \<noteq> hz"
  proof
    fix w assume "w \<in> set ws"
    with ne zs(1) obtain k where k: "block_hash B w = Some k" "map_of (orphan_pool c) k = Some w" "k \<noteq> hz" by auto
    with pool_block(4)[OF inv k(2)] y(1) have "k \<notin> hashes B xs" by simp
    with k show "\<exists>k. block_hash B w = Some k \<and> map_of (orphan_pool d) k = Some w \<and> k \<noteq> hz" by (simp add: y(6) pooled_other)
  qed
  from write_candidates[OF d(2) y(4) this] dist y(5) that[OF y(1,3)] show thesis by (simp add: zs(1) rev_map[symmetric])
qed

lemma attempt_switch_inv:
  assumes run: "attempt_switch E B b c = Some c'" and inv: "chain_inv E B ok c bs"
    and h: "block_hash B b = Some h" "map_of (orphan_pool c) h = Some b"
  shows "\<exists>bs'. chain_inv E B ok c' bs' \<and> known c' bs' = known c bs"
proof (cases "ch_height c < b_height B b")
  case False
  with run inv show ?thesis by (auto simp: attempt_switch_def bind_eq_Some_conv split: if_split_asm)
next
  case True
  from run inv h True show ?thesis by (rule attempt_switch_longer) blast
qed

section \<open>Appending a block\<close>

text \<open>A new block in the pool.\<close>

lemma add_orphan_inv:
  assumes "chain_inv E B ok c bs" "ok b" "block_hash B b = Some h" "block_key E B h" "h \<notin> hashes B bs"
    "map_of (orphan_pool c) h = None \<or> map_of (orphan_pool c) h = Some b"
  shows "chain_inv E B ok (c\<lparr>orphan_pool := AList.update h b (orphan_pool c)\<rparr>) bs"
    "known (c\<lparr>orphan_pool := AList.update h b (orphan_pool c)\<rparr>) bs = insert b (known c bs)"
proof -
  let ?c = "c\<lparr>orphan_pool := AList.update h b (orphan_pool c)\<rparr>"
  have "stored_blocks E B ok ?c bs = stored_blocks E B ok c bs" by (rule stored_blocks_db) simp
  with assms show "chain_inv E B ok ?c bs"
    by (auto simp: chain_inv_def canonical_def pool_ok_def update_conv')
  show "known ?c bs = insert b (known c bs)"
  proof -
    let ?m = "map_of (orphan_pool c)"
    have "x \<in> ran (?m (h \<mapsto> b))" if "?m k = Some x" for k x
      using that assms(6) by (cases "k = h") (auto intro: ranI[of _ h] ranI[of _ k])
    moreover have "b \<in> ran (?m (h \<mapsto> b))" by (rule ranI[of _ h]) simp
    moreover have "ran (?m (h \<mapsto> b)) \<subseteq> insert b (ran ?m)" by (auto simp: ran_def split: if_splits)
    ultimately have "ran (?m (h \<mapsto> b)) = insert b (ran ?m)" unfolding ran_def[of ?m] by blast
    then show ?thesis by (auto simp: known_def update_conv')
  qed
qed

lemma switch_inv:
  assumes same: "same_store (c\<lparr>orphan_pool := AList.update h b (orphan_pool c)\<rparr>) e" and inv: "chain_inv E B ok c bs"
    and b: "ok b" "block_hash B b = Some h" "block_key E B h" "h \<notin> hashes B bs" "map_of (orphan_pool c) h = None"
    and run: "attempt_switch E B tip e = Some c'" "tip = b \<or> (\<exists>k. map_of (orphan_pool e) k = Some tip)"
  shows "\<exists>bs'. chain_inv E B ok c' bs' \<and> known c' bs' = insert b (known c bs)"
proof -
  note new = add_orphan_inv[OF inv b(1-4) disjI1[OF b(5)]]
  have e: "chain_inv E B ok e bs" "known e bs = insert b (known c bs)" using new chain_inv_same[OF same] by simp_all
  have "map_of (orphan_pool e) h = Some b" using same by (simp add: same_store_def update_conv')
  with run(2) obtain k where "map_of (orphan_pool e) k = Some tip" by blast
  from attempt_switch_inv[OF run(1) e(1) pool_block(2)[OF e(1) this] this] e(2) show ?thesis by simp
qed

lemma append_fork_inv:
  assumes run: "append_fork E B b c = Some c'" and inv: "chain_inv E B ok c bs" and b: "ok b" "block_hash B b = Some h"
    "block_key E B h" "h \<notin> hashes B bs" "map_of (orphan_pool c) h = None"
  shows "\<exists>bs'. chain_inv E B ok c' bs' \<and> known c' bs' = insert b (known c bs)"
proof -
  from run obtain d tip i s e where d: "write_orphan B b ValidChainTip 0 c = Some d"
    and e: "attempt_attach_valid E B b 0 ValidChainTip d = Some (tip, i, s, e)"
    and c': "c' = e \<or> attempt_switch E B tip e = Some c'"
    by (auto simp: append_fork_def bind_eq_Some_conv split: if_split_asm)
  note same_e = attempt_attach_valid_same[OF e]
  have same: "same_store (c\<lparr>orphan_pool := AList.update h b (orphan_pool c)\<rparr>) e"
    using write_orphan_store[OF d b(2)] same_e same_store_trans by blast
  have "tip = b \<or> (\<exists>k. map_of (orphan_pool e) k = Some tip)"
    using attach_valid_tip[OF e] same_e by (simp add: same_store_def)
  with c' show ?thesis
    using switch_inv[OF same inv b] add_orphan_inv[OF inv b(1-4) disjI1[OF b(5)]] chain_inv_same[OF same] by auto
qed

lemma append_to_valid_tip_inv:
  assumes run: "append_to_valid_tip E B b p c = Some c'" and inv: "chain_inv E B ok c bs" and b: "ok b" "block_hash B b = Some h"
    "block_key E B h" "h \<notin> hashes B bs" "map_of (orphan_pool c) h = None"
  shows "\<exists>bs'. chain_inv E B ok c' bs' \<and> known c' bs' = insert b (known c bs)"
proof -
  from run obtain d tip i s e f k where d: "write_orphan B b ValidChainTip 0 (put_status p BelongsToValidChain c) = Some d"
    and e: "attempt_attach_valid E B b 0 ValidChainTip d = Some (tip, i, s, e)"
    and f: "recurse_inverse B b i (i = 0) e = Some f"
    and c': "attempt_switch E B tip (put_valid_tip k (f\<lparr>valid_tips := removeAll p (valid_tips f)\<rparr>)) = Some c'"
    by (auto simp: append_to_valid_tip_def bind_eq_Some_conv Let_def)
  let ?f = "put_valid_tip k (f\<lparr>valid_tips := removeAll p (valid_tips f)\<rparr>)"
  have same_f: "same_store d ?f"
    using attempt_attach_valid_same[OF e] recurse_inverse_same[OF f] by (simp add: same_store_def put_valid_tip_def)
  moreover have "same_store (c\<lparr>orphan_pool := AList.update h b (orphan_pool c)\<rparr>) d"
    using write_orphan_store[OF d b(2)] by (simp add: same_store_def put_status_def)
  ultimately have same: "same_store (c\<lparr>orphan_pool := AList.update h b (orphan_pool c)\<rparr>) ?f" using same_store_trans by blast
  have "tip = b \<or> (\<exists>k. map_of (orphan_pool ?f) k = Some tip)"
    using attach_valid_tip[OF e] same_f by (simp add: same_store_def)
  with switch_inv[OF same inv b c'] show ?thesis by blast
qed

lemma append_to_valid_inv:
  assumes run: "append_to_valid E B b h c = Some c'" and inv: "chain_inv E B ok c bs" and b: "ok b" "block_hash B b = Some h"
    "block_key E B h" "h \<notin> hashes B bs" "map_of (orphan_pool c) h = None"
  shows "\<exists>bs'. chain_inv E B ok c' bs' \<and> known c' bs' = insert b (known c bs)"
proof -
  from run obtain d tip i s e f where e: "attempt_attach_valid E B b 0 ValidChainTip (put_valid_tip h c) = Some (tip, i, s, d)"
    and d: "write_orphan B b s i d = Some e" and f: "recurse_inverse B tip i (i = 0) e = Some f"
    and c': "attempt_switch E B tip f = Some c'"
    by (auto simp: append_to_valid_def bind_eq_Some_conv Let_def)
  have cd: "same_store c d" using attempt_attach_valid_same[OF e] by simp
  have "same_store (c\<lparr>orphan_pool := AList.update h b (orphan_pool c)\<rparr>) e"
    using write_orphan_store[OF d b(2)] cd by (simp add: same_store_def)
  with recurse_inverse_same[OF f] have same: "same_store (c\<lparr>orphan_pool := AList.update h b (orphan_pool c)\<rparr>) f"
    using same_store_trans by blast
  have pool: "orphan_pool (put_valid_tip h c) = orphan_pool c" by (simp add: put_valid_tip_def)
  have "tip = b \<or> (\<exists>k. map_of (orphan_pool f) k = Some tip)"
    using attach_valid_tip[OF e] same b(5) unfolding pool by (auto simp: same_store_def update_conv') (metis option.distinct(1))
  with switch_inv[OF same inv b c'] show ?thesis by blast
qed

lemma orphan_only_inv:
  assumes same: "same_store (c\<lparr>orphan_pool := AList.update h b (orphan_pool c)\<rparr>) c'" and inv: "chain_inv E B ok c bs"
    and b: "ok b" "block_hash B b = Some h" "block_key E B h" "h \<notin> hashes B bs" "map_of (orphan_pool c) h = None"
  shows "\<exists>bs'. chain_inv E B ok c' bs' \<and> known c' bs' = insert b (known c bs)"
  using add_orphan_inv[OF inv b(1-4) disjI1[OF b(5)]] chain_inv_same[OF same] by auto

lemma append_to_orphan_inv:
  assumes run: "append_to_orphan E B b h p c = Some c'" and inv: "chain_inv E B ok c bs"
    and b: "ok b" "block_hash B b = Some h" "block_key E B h" "h \<notin> hashes B bs" "map_of (orphan_pool c) h = None"
  shows "\<exists>bs'. chain_inv E B ok c' bs' \<and> known c' bs' = insert b (known c bs)"
  using run append_to_valid_inv[OF _ inv b] append_to_valid_tip_inv[OF _ inv b]
    orphan_only_inv[OF append_to_disconnected_store[OF _ b(2)] inv b]
    orphan_only_inv[OF append_to_disconnected_tip_store[OF _ b(2)] inv b]
  unfolding append_to_orphan_def bind_eq_Some_conv by (auto split: OrphanType.split_asm) (metis OrphanType.exhaust)

lemma append_unconnected_inv:
  assumes run: "append_unconnected E B b h p c = Some c'" and inv: "chain_inv E B ok c bs"
    and b: "ok b" "block_hash B b = Some h" "block_key E B h" "h \<notin> hashes B bs" "map_of (orphan_pool c) h = None"
  shows "\<exists>bs'. chain_inv E B ok c' bs' \<and> known c' bs' = insert b (known c bs)"
proof -
  let ?d = "c\<lparr>orphan_pool := AList.update h b (orphan_pool c)\<rparr>"
  note new = add_orphan_inv[OF inv b(1-4) disjI1[OF b(5)]]
  have "map_of (orphan_pool ?d) h = Some b" by (simp add: update_conv')
  from add_orphan_inv[OF new(1) b(1-4) disjI2[OF this]] new(2) chain_inv_same[OF append_unconnected_store[OF run b(2)]]
  show ?thesis by auto
qed

text \<open>The whole operation.\<close>

lemma append_block_inv:
  assumes run: "append_block E B b c = Some (Inr c')" and inv: "chain_inv E B ok c bs"
    and b: "ok b" "block_hash B b = Some h" "block_key E B h"
  shows "\<exists>bs'. chain_inv E B ok c' bs' \<and> known c' bs' = insert b (known c bs)"
    "parent_hash B b = block_hash B (canonical_tip c) \<Longrightarrow>
      \<exists>xs. chain_inv E B ok c' (xs @ b # bs) \<and> known c' (xs @ b # bs) = insert b (known c bs)"
proof -
  from run b(2) have new: "map_of (orphan_pool c) h = None" "chain_get E c h = None"
    by (auto simp: append_block_def bind_eq_Some_conv Let_def split: if_split_asm)
  have h: "h \<notin> hashes B bs"
    using new(2) inv by (auto simp: chain_inv_def canonical_def stored_blocks_def hashes_def)
  have ext: "\<exists>xs. chain_inv E B ok c' (xs @ b # bs) \<and> known c' (xs @ b # bs) = insert b (known c bs)"
    if d: "write_block E B b c = Some d" "process_orphans E B n d = Some c'" for d n
  proof -
    note w = write_block_inv[OF d(1) inv b h disjI1[OF new(1)]]
    from process_orphans_extends[OF d(2) w(1)] w(2) show ?thesis by (simp add: extends_def)
  qed
  show "\<exists>bs'. chain_inv E B ok c' bs' \<and> known c' bs' = insert b (known c bs)"
    using run b(2)
  proof (cases rule: append_block_cases)
    case (tip d n)
    from tip(2,4) show ?thesis using ext by blast
  next
    case fork
    then show ?thesis using append_fork_inv[OF _ inv b h new(1)] by blast
  next
    case (orphan p)
    then show ?thesis using append_to_orphan_inv[OF _ inv b h new(1)] by blast
  next
    case (unconnected p)
    then show ?thesis using append_unconnected_inv[OF _ inv b h new(1)] by blast
  qed
  show "\<exists>xs. chain_inv E B ok c' (xs @ b # bs) \<and> known c' (xs @ b # bs) = insert b (known c bs)"
    if "parent_hash B b = block_hash B (canonical_tip c)"
    using run b(2)
  proof (cases rule: append_block_cases)
    case (tip d n)
    then show ?thesis by (intro ext)
  qed (use that in simp_all)
qed

lemma chain_new_inv:
  assumes "chain_new E B new_in_memory = Some c" "TIP_KEY E \<noteq> NULL_RLP_HASH"
  shows "chain_inv E B ok c []"
proof -
  obtain g where g: "block_hash B (b_genesis B) = Some g" using genesis_hash by blast
  have zero: "[0, 0, 0, 0, 0, 0, 0, 0] = encode_be_u64 0" by code_simp
  have "db_get (ce_null_rlp E) new_in_memory (TIP_KEY E) = None" using assms(2) by (simp add: db_get_def new_in_memory_def)
  with assms(1) have c: "canonical_tip c = b_genesis B" "orphan_pool c = []"
    "ch_db c = new_in_memory \<or> ch_db c = db_emplace new_in_memory (CANONICAL_HEIGHT_KEY E) (encode_be_u64 0)"
    by (auto simp: chain_new_def bind_eq_Some_conv zero[symmetric] split: option.split_asm)
  have empty: "stored_blocks E B ok (c\<lparr>ch_db := new_in_memory\<rparr>) []"
    using null_decode by (auto simp: stored_blocks_def chain_get_def db_get_def new_in_memory_def meta_keys_def)
  from stored_number[OF this, of "CANONICAL_HEIGHT_KEY E" 0]
  have "stored_blocks E B ok (c\<lparr>ch_db := db_emplace new_in_memory (CANONICAL_HEIGHT_KEY E) (encode_be_u64 0)\<rparr>) []"
    by (simp add: meta_keys_def)
  with empty c(3) have "stored_blocks E B ok c []"
    using stored_blocks_db[of c "c\<lparr>ch_db := new_in_memory\<rparr>" E B ok "[]"]
      stored_blocks_db[of c "c\<lparr>ch_db := db_emplace new_in_memory (CANONICAL_HEIGHT_KEY E) (encode_be_u64 0)\<rparr>" E B ok "[]"]
    by auto
  with c g show ?thesis by (simp add: chain_inv_def canonical_def pool_ok_def)
qed

section \<open>Reachable states\<close>

lemma reachable_inv:
  assumes "reachable_chain E B ok c" "TIP_KEY E \<noteq> NULL_RLP_HASH"
  shows "\<exists>bs. chain_inv E B ok c bs"
  using assms(1)
proof induction
  case (start c)
  then show ?case using chain_new_inv assms(2) by blast
next
  case (append c b c' h)
  then show ?case using append_block_inv(1) by blast
next
  case (rewind c h c')
  then obtain bs where "chain_inv E B ok c bs" by blast
  from this rewind(2) show ?case by (rule rewind_inv) blast
qed

lemma query_stored:
  assumes "chain_inv E B ok c bs"
  shows "b \<in> set bs \<Longrightarrow> block_hash B b = Some h \<Longrightarrow> query E B c h = Some (Some b)"
    "block_key E B k \<Longrightarrow> k \<notin> hashes B bs \<Longrightarrow> query E B c k = Some None"
proof -
  have st: "stored_blocks E B ok c bs" using assms by (simp add: chain_inv_def canonical_def)
  {
    assume "b \<in> set bs" "block_hash B b = Some h"
    with st obtain bytes where "chain_get E c h = Some bytes" "decode_block B bytes = Some b"
      unfolding stored_blocks_def by blast
    then show "query E B c h = Some (Some b)" by (simp add: query_def)
  next
    assume "block_key E B k" "k \<notin> hashes B bs"
    with st have "chain_get E c k = None" by (simp add: stored_blocks_def block_key_def)
    then show "query E B c k = Some None" by (simp add: query_def)
  }
qed

lemma accepted_once:
  assumes run: "append_block E B b c = Some (Inr c')" and inv: "chain_inv E B ok c bs"
    and b: "ok b" "block_hash B b = Some h" "block_key E B h" and again: "append_block E B b c' = Some r"
  shows "r = Inl AlreadyInChain \<or> r = Inl BadHeight"
proof -
  from append_block_inv(1)[OF run inv b] obtain bs' where bs': "chain_inv E B ok c' bs'" "b \<in> known c' bs'" by auto
  have "map_of (orphan_pool c') h \<noteq> None \<or> chain_get E c' h \<noteq> None"
  proof (cases "b \<in> set bs'")
    case True
    with bs'(1) b(2) show ?thesis unfolding chain_inv_def canonical_def stored_blocks_def by blast
  next
    case False
    with bs'(2) obtain k where k: "map_of (orphan_pool c') k = Some b" by (auto simp: known_def ran_def)
    with pool_block(2)[OF bs'(1) k] b(2) show ?thesis by simp
  qed
  with again b(2) show ?thesis by (auto simp: append_block_def bind_eq_Some_conv Let_def split: if_split_asm)
qed

lemma meta_parent_panics:
  assumes inv: "chain_inv E B ok c bs" and p: "parent_hash B b = Some p" "p \<in> meta_keys E" "chain_get E c p = Some bytes"
    and "block_hash B (canonical_tip c) \<noteq> Some p"
  shows "append_block E B b c \<noteq> Some (Inr c')"
proof -
  from inv p(2,3) have "decode_block B bytes = None" by (auto simp: chain_inv_def canonical_def stored_blocks_def)
  with p(1,3) assms(5) show ?thesis
    by (auto simp: append_block_def bind_eq_Some_conv Let_def split: if_split_asm)
qed

end

end
