(* ===== verification/Chain_Theorems.thy ===== *)
theory Chain_Theorems
  imports Chain_Refine
begin

text \<open>
  The properties of the chain of hard blocks.  \<open>chain_inv E B ok c bs\<close> is the abstraction relation: \<open>bs\<close> is
  the list of canonical blocks of the state \<open>c\<close>, the tip first, and \<open>known c bs\<close> the blocks that the state
  holds at all.  The value that the store returns for the hash of the empty trie node is the single byte
  \<open>0x80\<close>, the RLP encoding of the empty string.
\<close>

section \<open>The list of canonical blocks is determined by the state\<close>

fun blocks_from :: "cenv \<Rightarrow> 'b block_ops \<Rightarrow> 'b Chain \<Rightarrow> nat \<Rightarrow> hash \<Rightarrow> 'b list option" where
  "blocks_from E B c 0 t = None"
| "blocks_from E B c (Suc n) t = (if block_hash B (b_genesis B) = Some t then Some []
     else do {
       bytes \<leftarrow> chain_get E c t;
       b \<leftarrow> decode_block B bytes;
       p \<leftarrow> parent_hash B b;
       bs \<leftarrow> blocks_from E B c n p;
       Some (b # bs)
     })"

lemma stored_block_get:
  assumes "stored_blocks E B ok c bs" "b \<in> set bs" "block_hash B b = Some h"
  obtains bytes where "block_key E B h" "chain_get E c h = Some bytes" "decode_block B bytes = Some b"
  using assms unfolding stored_blocks_def by blast

lemma blocks_from_path:
  assumes "stored_blocks E B ok c bs'" "set bs \<subseteq> set bs'" "block_path B t bs g" "block_hash B (b_genesis B) = Some g"
    "blocks_from E B c n t = Some ys"
  shows "ys = bs"
  using assms(2,3,5)
proof (induction bs arbitrary: n t ys)
  case Nil
  then show ?case using assms(4) by (cases n) auto
next
  case (Cons b bs)
  then obtain p where b: "block_hash B b = Some t" "parent_hash B b = Some p" "block_path B p bs g" by auto
  have "b \<in> set bs'" using Cons.prems(1) by simp
  from assms(1) this b(1) obtain bytes where
    d: "block_key E B t" "chain_get E c t = Some bytes" "decode_block B bytes = Some b" by (rule stored_block_get)
  from Cons.prems(3) d b(2) obtain m zs where "blocks_from E B c m p = Some zs" "ys = b # zs"
    by (cases n) (auto simp: block_key_def bind_eq_Some_conv)
  with Cons.IH[OF _ b(3)] Cons.prems(1) show ?case by simp
qed

lemma blocks_from_canonical:
  assumes "chain_inv E B ok c bs" "block_hash B (canonical_tip c) = Some t" "blocks_from E B c n t = Some ys"
  shows "bs = ys"
  using assms blocks_from_path[of E B ok c bs bs] by (fastforce simp: chain_inv_def canonical_def)

text \<open>A hash occurs at one place of the list.\<close>

lemma split_at_hash:
  assumes "distinct (map f (xs @ b # ys))" "xs @ b # ys = xs' @ b' # ys'" "f b = f b'"
  shows "xs = xs' \<and> b = b' \<and> ys = ys'"
proof -
  have d: "distinct (xs @ b # ys)" "inj_on f (set (xs @ b # ys))" using assms(1) unfolding distinct_map by blast+
  have "b' \<in> set (xs @ b # ys)" unfolding assms(2) by simp
  with d(2) assms(3) have "b' = b" by (auto dest!: inj_onD)
  with d(1) assms(2) show ?thesis by (metis append_Cons_eq_iff distinct.simps(2) distinct_append not_distinct_conv_prefix)
qed

interpretation hard_chain: chain_laws "E\<lparr>ce_null_rlp := [128]\<rparr>" "hard_ops H T" "wf_hard T"
  for E H and T :: "'ts clock"
  by unfold_locales
    (simp_all add: hard.genesis_hash hard.stored_block hard.has_hash hard.has_parent hard.number_no_block hard.null_no_block)

section \<open>Sample blocks\<close>

definition sample_clock :: "unit clock" where
  "sample_clock = \<lparr>to_rfc3339 = (\<lambda>_. ''T''), ts_from_str = (\<lambda>_. Some ()), genesis_time = ()\<rparr>"

definition sample_cenv :: cenv where
  "sample_cenv = \<lparr>ce_hash = (\<lambda>bs. take 32 (255 # rev bs @ replicate 32 0)), ce_hex = (\<lambda>bs. map (\<lambda>b. char_of (unat b)) bs),
     ce_null_rlp = [128], ce_iter = (\<lambda>ks. ks), ce_sort = sort_key snd\<rparr>"

abbreviation sample_ops :: "unit HardBlock block_ops" where
  "sample_ops \<equiv> hard_ops (ce_hash sample_cenv) sample_clock"

definition sample_block :: "u8 \<Rightarrow> hash \<Rightarrow> u64 \<Rightarrow> unit HardBlock" where
  "sample_block k p n = \<lparr>hb_easy_block_hash = replicate 32 0, hb_height = n, hb_parent_hash = Some p,
     hb_merkle_root = Some (replicate 32 0), hb_hash = Some (replicate 32 k), hb_timestamp = ()\<rparr>"

definition sample_root :: hash where
  "sample_root = the (hb_hash (b_genesis sample_ops))"

definition sample_step :: "unit HardBlock Chain \<Rightarrow> unit HardBlock \<Rightarrow> unit HardBlock Chain option" where
  "sample_step c b = (case append_block sample_cenv sample_ops b c of Some (Inr c') \<Rightarrow> Some c' | _ \<Rightarrow> None)"

definition sample_append :: "unit HardBlock list \<Rightarrow> unit HardBlock Chain option" where
  "sample_append bs = do { c \<leftarrow> chain_new sample_cenv sample_ops new_in_memory; foldm sample_step c bs }"

lemma sample_hash [simp]:
  "block_hash (hard_ops H T) = hb_hash" "parent_hash (hard_ops H T) = hb_parent_hash" "b_height (hard_ops H T) = hb_height"
  by (simp_all add: hard_ops_def)

lemma sample_key: "replicate 32 k \<notin> {sample_root, NULL_RLP_HASH} \<Longrightarrow> k \<noteq> 255 \<Longrightarrow> block_key sample_cenv sample_ops (replicate 32 k)"
proof -
  assume k: "replicate 32 k \<notin> {sample_root, NULL_RLP_HASH}" "k \<noteq> 255"
  have first: "ce_hash sample_cenv m \<noteq> replicate 32 k" for m
  proof
    assume "ce_hash sample_cenv m = replicate 32 k"
    then have "hd (ce_hash sample_cenv m) = hd (replicate 32 k)" by simp
    with k(2) show False by (simp add: sample_cenv_def)
  qed
  have "block_hash sample_ops (b_genesis sample_ops) \<noteq> Some (replicate 32 k)" using k(1) by (auto simp: sample_root_def)
  with k first[THEN not_sym] show ?thesis
    by (auto simp: block_key_def meta_keys_def CANONICAL_HEIGHT_KEY_def block_height_key_def)
qed

lemma sample_time: "parse_timestamp sample_clock (as_bytes (to_rfc3339 sample_clock ())) = Some (Inr ())"
  "to_rfc3339 sample_clock () = ''T''"
  by code_simp+

lemma sample_block_wf: "length p = 32 \<Longrightarrow> wf_hard sample_clock (sample_block k p n)"
  using sample_time by (simp add: wf_hard_def sample_block_def)

definition sample_fine :: "unit HardBlock \<Rightarrow> bool" where
  "sample_fine b \<longleftrightarrow> wf_hard sample_clock b \<and> (\<exists>h. hb_hash b = Some h \<and> block_key sample_cenv sample_ops h)"

lemma sample_reachable:
  assumes "sample_append bs = Some c" "\<forall>b \<in> set bs. sample_fine b"
  shows "reachable_chain sample_cenv sample_ops (wf_hard sample_clock) c"
proof -
  have fold: "foldm sample_step d bs = Some c \<Longrightarrow> reachable_chain sample_cenv sample_ops (wf_hard sample_clock) d \<Longrightarrow>
     \<forall>b \<in> set bs. sample_fine b \<Longrightarrow> reachable_chain sample_cenv sample_ops (wf_hard sample_clock) c" for d
  proof (induction bs arbitrary: d)
    case (Cons b bs)
    from Cons.prems(1) obtain d' where "sample_step d b = Some d'" "foldm sample_step d' bs = Some c"
      by (auto simp: bind_eq_Some_conv)
    then have d': "append_block sample_cenv sample_ops b d = Some (Inr d')" "foldm sample_step d' bs = Some c"
      by (simp_all add: sample_step_def split: sum.split_asm option.split_asm)
    from Cons.prems(3) obtain h where "wf_hard sample_clock b" "hb_hash b = Some h" "block_key sample_cenv sample_ops h"
      by (auto simp: sample_fine_def)
    with reachable_chain.append[OF Cons.prems(2) d'(1)] have "reachable_chain sample_cenv sample_ops (wf_hard sample_clock) d'" by simp
    with Cons.IH[OF d'(2)] Cons.prems(3) show ?case by simp
  qed simp
  from assms(1) show ?thesis
    by (auto simp: sample_append_def bind_eq_Some_conv intro: fold[OF _ _ assms(2)] reachable_chain.start)
qed

lemma sample_inv:
  assumes "sample_append bs = Some c" "\<forall>b \<in> set bs. sample_fine b" "hb_hash (canonical_tip c) = Some t"
    "blocks_from sample_cenv sample_ops c n t = Some ys"
  shows "chain_inv sample_cenv sample_ops (wf_hard sample_clock) c ys"
proof -
  have E: "sample_cenv\<lparr>ce_null_rlp := [128]\<rparr> = sample_cenv" by (simp add: sample_cenv_def)
  have "TIP_KEY sample_cenv \<noteq> NULL_RLP_HASH" by code_simp
  with hard_chain.reachable_inv[of sample_cenv "ce_hash sample_cenv" sample_clock c] sample_reachable[OF assms(1,2)]
  obtain zs where zs: "chain_inv sample_cenv sample_ops (wf_hard sample_clock) c zs" by (auto simp: E)
  from blocks_from_canonical[OF zs _ assms(4)] assms(3) zs show ?thesis by simp
qed

lemma sample_block_fine:
  assumes "length p = 32" "k \<noteq> 255" "replicate 32 k \<noteq> sample_root"
  shows "sample_fine (sample_block k p n)"
proof -
  have "NULL_RLP_HASH ! 0 \<noteq> NULL_RLP_HASH ! 1" by code_simp
  then have "replicate 32 k \<noteq> NULL_RLP_HASH" by (metis nth_replicate numeral_eq_one_iff one_less_numeral_iff semiring_norm(76) zero_less_numeral)
  with assms sample_key[of k] sample_block_wf[of p k n] show ?thesis by (simp add: sample_fine_def sample_block_def)
qed

text \<open>A chain of two blocks, and a fork at the first block that becomes longer.\<close>

definition sample_fork :: "unit HardBlock list" where
  "sample_fork = [sample_block 1 sample_root 1, sample_block 2 (replicate 32 1) 2, sample_block 3 (replicate 32 1) 2,
     sample_block 4 (replicate 32 3) 3]"

lemma sample_fork_fine: "\<forall>b \<in> set sample_fork. sample_fine b"
proof -
  have "length sample_root = 32" "sample_root \<notin> {replicate 32 1, replicate 32 2, replicate 32 3, replicate 32 4}" by code_simp+
  then show ?thesis by (auto simp: sample_fork_def intro!: sample_block_fine)
qed

text \<open>A block whose hash is the key for the height of the block that follows it.\<close>

definition sample_height_key :: hash where
  "sample_height_key = block_height_key sample_cenv (replicate 16 2 @ replicate 16 3)"

definition sample_height_block :: "unit HardBlock" where
  "sample_height_block = (sample_block 1 sample_root 1)\<lparr>hb_hash := Some sample_height_key\<rparr>"

definition sample_height_child :: "unit HardBlock" where
  "sample_height_child = (sample_block 2 sample_height_key 2)\<lparr>hb_hash := Some (replicate 16 2 @ replicate 16 3)\<rparr>"

section \<open>The properties\<close>

text \<open>
  C25.  Every state that a chain of hard blocks reaches from an empty store, by rewinding and by accepted
  blocks that are well formed (parent hash, Merkle root and hash are set and the timestamp reads back) and whose
  hash is not a key of the chain's own entries (the canonical height, the height of some block, the empty trie
  node) nor the hash of the genesis block, is a chain: following the parent hashes from the canonical tip leads
  to the genesis block, no hash occurs twice, every block on the way is what a query for its hash returns, and
  no block is in the store and in the orphan pool at once.  The condition on the hashes is not checked by
  \<open>append_block\<close>, and without it the property fails.  The key of the tip is assumed to differ from the key of the
  empty node.
\<close>

theorem reachable_chain_connected:
  assumes "reachable_chain E (hard_ops H T) (wf_hard T) c" "ce_null_rlp E = [128]" "TIP_KEY E \<noteq> NULL_RLP_HASH"
  shows "\<exists>bs t g. hb_hash (canonical_tip c) = Some t \<and> hb_hash (b_genesis (hard_ops H T)) = Some g \<and>
    block_path (hard_ops H T) t bs g \<and> distinct (map hb_hash bs) \<and>
    (\<forall>b \<in> set bs. \<forall>h. hb_hash b = Some h \<longrightarrow> query E (hard_ops H T) c h = Some (Some b)) \<and>
    (\<forall>h b. map_of (orphan_pool c) h = Some b \<longrightarrow> hb_hash b = Some h \<and> query E (hard_ops H T) c h = Some None)"
proof -
  have E: "E\<lparr>ce_null_rlp := [128]\<rparr> = E" using assms(2) by simp
  from hard_chain.reachable_inv[of E H T c] assms(1,3) obtain bs where inv: "chain_inv E (hard_ops H T) (wf_hard T) c bs"
    by (auto simp: E)
  note q = hard_chain.query_stored[of E H T c bs, unfolded E, OF inv] and p = hard_chain.pool_block[of E H T c bs, unfolded E, OF inv]
  from inv obtain t g where "hb_hash (canonical_tip c) = Some t" "hb_hash (b_genesis (hard_ops H T)) = Some g"
    "block_path (hard_ops H T) t bs g" "distinct (map hb_hash bs)" by (auto simp: chain_inv_def canonical_def)
  with q p show ?thesis by (intro exI[of _ bs] exI[of _ t] exI[of _ g]) simp
qed

theorem reachable_chain_connected_witness:
  "\<exists>c. sample_append sample_fork = Some c \<and> ch_height c = 3 \<and> (\<exists>bs t g. hb_hash (canonical_tip c) = Some t \<and>
    hb_hash (b_genesis sample_ops) = Some g \<and> block_path sample_ops t bs g \<and> distinct (map hb_hash bs))"
proof -
  have "map_option ch_height (sample_append sample_fork) = Some 3" by code_simp
  then obtain c where c: "sample_append sample_fork = Some c" "ch_height c = 3" by auto
  have "ce_null_rlp sample_cenv = [128]" "TIP_KEY sample_cenv \<noteq> NULL_RLP_HASH" by code_simp+
  from reachable_chain_connected[OF sample_reachable[OF c(1) sample_fork_fine] this] c show ?thesis by blast
qed

text \<open>
  C26.  Appending refines adding one block.  Let the block be well formed, and its hash neither a key of the
  chain's own entries nor the hash of the genesis block (\<open>append_block\<close> does not check this).  When it is accepted
  it becomes known, no known block is lost, and the state is a chain again.  When it follows the tip, the
  canonical chain grows: the old blocks stay, the new one comes on top of them, and orphans may follow it.
\<close>

theorem append_refines:
  assumes "append_block E (hard_ops H T) b c = Some (Inr c')" "chain_inv E (hard_ops H T) (wf_hard T) c bs"
    "wf_hard T b" "hb_hash b = Some h" "block_key E (hard_ops H T) h" "ce_null_rlp E = [128]"
  shows "\<exists>bs'. chain_inv E (hard_ops H T) (wf_hard T) c' bs' \<and> known c' bs' = insert b (known c bs) \<and>
    (hb_parent_hash b = hb_hash (canonical_tip c) \<longrightarrow> (\<exists>xs. bs' = xs @ b # bs))"
proof -
  have E: "E\<lparr>ce_null_rlp := [128]\<rparr> = E" using assms(6) by simp
  note inv = hard_chain.append_block_inv[of E H T b c c' bs h, unfolded E, OF assms(1-3) _ assms(5)]
  show ?thesis
  proof (cases "hb_parent_hash b = hb_hash (canonical_tip c)")
    case True
    with inv(2) assms(4) show ?thesis by auto
  next
    case False
    with inv(1) assms(4) show ?thesis by auto
  qed
qed

theorem append_refines_witness:
  "\<exists>c c' bs'. sample_append (butlast sample_fork) = Some c \<and>
     append_block sample_cenv sample_ops (last sample_fork) c = Some (Inr c') \<and>
     chain_inv sample_cenv sample_ops (wf_hard sample_clock) c' bs' \<and>
     known c' bs' = insert (last sample_fork) (known c [sample_fork ! 1, sample_fork ! 0])"
proof -
  have "do { c \<leftarrow> sample_append (butlast sample_fork); r \<leftarrow> append_block sample_cenv sample_ops (last sample_fork) c;
      t \<leftarrow> hb_hash (canonical_tip c); Some (isl r, blocks_from sample_cenv sample_ops c 5 t) } =
    Some (False, Some [sample_fork ! 1, sample_fork ! 0])" by code_simp
  then obtain c c' t where c: "sample_append (butlast sample_fork) = Some c" "hb_hash (canonical_tip c) = Some t"
      "append_block sample_cenv sample_ops (last sample_fork) c = Some (Inr c')"
      "blocks_from sample_cenv sample_ops c 5 t = Some [sample_fork ! 1, sample_fork ! 0]"
    by (auto simp: bind_eq_Some_conv isl_def) (metis obj_sumE)
  have fine: "\<forall>b \<in> set (butlast sample_fork). sample_fine b" "sample_fine (last sample_fork)"
    using sample_fork_fine by (auto simp: sample_fork_def)
  have "ce_null_rlp sample_cenv = [128]" by code_simp
  with append_refines[OF c(3) sample_inv[OF c(1) fine(1) c(2,4)]] fine(2) c(1,3) show ?thesis
    by (auto simp: sample_fine_def)
qed

text \<open>
  What the unchecked hashes lead to.  Let the canonical tip have the hash under which the chain is going to
  store the height of the block that follows it, and let there be no orphans.  When the following block is
  accepted, the height is written over the old tip: its parent is no longer in the store, and a query for it
  panics.
\<close>

theorem height_entry_overwrites_parent:
  assumes "append_block E (hard_ops H T) b c = Some (Inr c')" "hb_hash b = Some h"
    "hb_hash (canonical_tip c) = Some (block_height_key E h)" "hb_parent_hash b = Some (block_height_key E h)"
    "max_orphan_height c = None" "disconnected_heads_mapping c = []" "block_height_key E h \<noteq> NULL_RLP_HASH"
    "ce_null_rlp E = [128]"
  shows "chain_get E c' (block_height_key E h) = Some (encode_be_u64 (ch_height c')) \<and>
    query E (hard_ops H T) c' (block_height_key E h) = None"
proof -
  have E: "E\<lparr>ce_null_rlp := [128]\<rparr> = E" using assms(8) by simp
  from assms(1-6) have "write_block E (hard_ops H T) b c = Some c'"
    by (auto simp: append_block_def process_orphans_def write_block_def forget_orphan_def lower_max_orphan_height_def
        write_canonical_height_def bind_eq_Some_conv Let_def split: if_split_asm option.split_asm)
  then obtain bytes n where w: "same_store (written E b h bytes n c) c'"
    by (rule hard_chain.write_block_split[of E H T, unfolded E]) (use assms(2) in simp)
  then have "ch_height c' = n" "chain_get E c' (block_height_key E h) = Some (encode_be_u64 n)"
    using assms(7) hard_chain.width_8[of n]
    by (simp_all add: same_store_get[OF w] chain_get_def written_def same_store_def db_get_def db_emplace_def)
  with hard_chain.number_decode[of H T n] show ?thesis by (simp add: query_def)
qed

theorem height_entry_overwrites_parent_witness:
  "\<exists>c c'. sample_append [sample_height_block] = Some c \<and> query sample_cenv sample_ops c sample_height_key = Some (Some sample_height_block) \<and>
     append_block sample_cenv sample_ops sample_height_child c = Some (Inr c') \<and>
     query sample_cenv sample_ops c' sample_height_key = None"
proof -
  have "do { c \<leftarrow> sample_append [sample_height_block]; r \<leftarrow> append_block sample_cenv sample_ops sample_height_child c;
      q \<leftarrow> query sample_cenv sample_ops c sample_height_key;
      Some (isl r, q, hb_hash (canonical_tip c), max_orphan_height c, disconnected_heads_mapping c) } =
    Some (False, Some sample_height_block, Some sample_height_key, None, [])" by code_simp
  then obtain c c' where c: "sample_append [sample_height_block] = Some c" "append_block sample_cenv sample_ops sample_height_child c = Some (Inr c')"
      "query sample_cenv sample_ops c sample_height_key = Some (Some sample_height_block)"
      "hb_hash (canonical_tip c) = Some sample_height_key" "max_orphan_height c = None" "disconnected_heads_mapping c = []"
    by (auto simp: bind_eq_Some_conv isl_def) (metis obj_sumE)
  have k: "sample_height_key = block_height_key sample_cenv (replicate 16 2 @ replicate 16 3)" "sample_height_key \<noteq> NULL_RLP_HASH"
    "ce_null_rlp sample_cenv = [128]" "hb_hash sample_height_child = Some (replicate 16 2 @ replicate 16 3)" "hb_parent_hash sample_height_child = Some sample_height_key"
    by code_simp+
  from height_entry_overwrites_parent[OF c(2) k(4)] c k show ?thesis by auto
qed

text \<open>
  C27.  Rewinding refines cutting the list of canonical blocks.  For every stored block below the tip the
  operation returns (the counter of the loop is a \<open>u64\<close>), and the block is the new tip; the blocks above it
  are in the orphan pool, which otherwise is what it was, and no block is lost.
\<close>

theorem rewind_refines:
  assumes "chain_inv E (hard_ops H T) (wf_hard T) c (x # xs @ b # ys)" "hb_hash b = Some h"
    "length xs < 2 ^ 64 - 1" "ce_null_rlp E = [128]"
  shows "\<exists>c'. rewind E (hard_ops H T) h c = Some (Inr c') \<and> chain_inv E (hard_ops H T) (wf_hard T) c' (b # ys) \<and>
    map_of (orphan_pool c') = pooled (hard_ops H T) (x # xs) (map_of (orphan_pool c)) \<and>
    known c' (b # ys) = known c (x # xs @ b # ys) \<and> canonical_tip c' = b \<and> ch_height c' = hb_height b"
proof -
  have E: "E\<lparr>ce_null_rlp := [128]\<rparr> = E" using assms(4) by simp
  from hard_chain.rewind_returns[of E H T c x xs b ys h, unfolded E, OF assms(1)] assms(2,3) obtain c' where
    run: "rewind E (hard_ops H T) h c = Some (Inr c')" by auto
  from assms(1) run obtain as a zs where
    r: "x # xs @ b # ys = as @ a # zs" "hb_hash a = Some h" "as \<noteq> []" "chain_inv E (hard_ops H T) (wf_hard T) c' (a # zs)"
      "known c' (a # zs) = known c (x # xs @ b # ys)"
      "map_of (orphan_pool c') = pooled (hard_ops H T) as (map_of (orphan_pool c))" "ch_height c' = hb_height a"
    by (rule hard_chain.rewind_inv[of E H T, unfolded E sample_hash])
  have "distinct (map hb_hash ((x # xs) @ b # ys))" using assms(1) by (simp add: chain_inv_def canonical_def)
  from split_at_hash[OF this, of as a zs] r(1,2) assms(2) have "as = x # xs" "a = b" "zs = ys" by auto
  with r(4-7) run show ?thesis by (auto simp: chain_inv_def canonical_def)
qed

theorem rewind_refines_witness:
  "\<exists>c c'. sample_append sample_fork = Some c \<and> rewind sample_cenv sample_ops (replicate 32 1) c = Some (Inr c') \<and>
     canonical_tip c' = sample_fork ! 0 \<and> ch_height c' = 1 \<and>
     known c' [sample_fork ! 0] = known c [sample_fork ! 3, sample_fork ! 2, sample_fork ! 0]"
proof -
  have "do { c \<leftarrow> sample_append sample_fork; t \<leftarrow> hb_hash (canonical_tip c); blocks_from sample_cenv sample_ops c 5 t } =
    Some [sample_fork ! 3, sample_fork ! 2, sample_fork ! 0]" by code_simp
  then obtain c t where c: "sample_append sample_fork = Some c" "hb_hash (canonical_tip c) = Some t"
      "blocks_from sample_cenv sample_ops c 5 t = Some [sample_fork ! 3, sample_fork ! 2, sample_fork ! 0]"
    by (auto simp: bind_eq_Some_conv)
  note inv = sample_inv[OF c(1) sample_fork_fine c(2,3)]
  have "ce_null_rlp sample_cenv = [128]" "hb_hash (sample_fork ! 0) = Some (replicate 32 1)" "hb_height (sample_fork ! 0) = 1"
    by code_simp+
  with rewind_refines[of sample_cenv "ce_hash sample_cenv" sample_clock c "sample_fork ! 3" "[sample_fork ! 2]" "sample_fork ! 0" "[]"
      "replicate 32 1"] inv c(1)
  show ?thesis by auto
qed

text \<open>
  A block is accepted once: after it has been accepted, appending it again never changes the state;
  whenever the operation returns, it returns an error.
\<close>

theorem append_once:
  assumes "append_block E (hard_ops H T) b c = Some (Inr c')" "chain_inv E (hard_ops H T) (wf_hard T) c bs"
    "wf_hard T b" "hb_hash b = Some h" "block_key E (hard_ops H T) h" "ce_null_rlp E = [128]"
    "append_block E (hard_ops H T) b c' = Some r"
  shows "r = Inl AlreadyInChain \<or> r = Inl BadHeight"
proof -
  have E: "E\<lparr>ce_null_rlp := [128]\<rparr> = E" using assms(6) by simp
  from hard_chain.accepted_once[of E H T b c c' bs h r, unfolded E, OF assms(1-3) _ assms(5,7)] assms(4) show ?thesis by simp
qed

theorem append_once_witness:
  "\<exists>c c' r. sample_append [] = Some c \<and> append_block sample_cenv sample_ops (sample_fork ! 0) c = Some (Inr c') \<and>
     append_block sample_cenv sample_ops (sample_fork ! 0) c' = Some r \<and> (r = Inl AlreadyInChain \<or> r = Inl BadHeight)"
proof -
  have "do { c \<leftarrow> sample_append []; c' \<leftarrow> sample_append [sample_fork ! 0];
      r \<leftarrow> append_block sample_cenv sample_ops (sample_fork ! 0) c'; t \<leftarrow> hb_hash (canonical_tip c);
      blocks_from sample_cenv sample_ops c 5 t } = Some []" by code_simp
  then obtain c c' r t where c: "sample_append [] = Some c" "sample_append [sample_fork ! 0] = Some c'"
      "append_block sample_cenv sample_ops (sample_fork ! 0) c' = Some r" "hb_hash (canonical_tip c) = Some t"
      "blocks_from sample_cenv sample_ops c 5 t = Some []"
    by (auto simp: bind_eq_Some_conv)
  then have run: "append_block sample_cenv sample_ops (sample_fork ! 0) c = Some (Inr c')"
    by (auto simp: sample_append_def sample_step_def bind_eq_Some_conv split: option.split_asm sum.split_asm)
  have "sample_fine (sample_fork ! 0)" using sample_fork_fine by (simp add: sample_fork_def)
  then obtain h where h: "wf_hard sample_clock (sample_fork ! 0)" "hb_hash (sample_fork ! 0) = Some h"
    "block_key sample_cenv sample_ops h" by (auto simp: sample_fine_def)
  have "ce_null_rlp sample_cenv = [128]" by code_simp
  from append_once[OF run sample_inv[OF c(1) _ c(4,5)] h this c(3)] run c(1,3) show ?thesis by auto
qed

text \<open>
  C28.  The longest chain wins.  Whenever the switch to a block of the orphan pool with a greater height than
  the canonical one returns, that block is the tip, and the canonical chain consists of blocks of the pool on
  top of the part it shares with the old chain; no block is lost.  For a block that is not higher nothing
  happens.
\<close>

theorem switch_to_longer:
  assumes "attempt_switch E (hard_ops H T) b c = Some c'" "chain_inv E (hard_ops H T) (wf_hard T) c bs"
    "hb_hash b = Some h" "map_of (orphan_pool c) h = Some b" "ce_null_rlp E = [128]"
  shows "if ch_height c < hb_height b then \<exists>xs y ys zs. bs = xs @ y # ys \<and> xs \<noteq> [] \<and>
      chain_inv E (hard_ops H T) (wf_hard T) c' (b # zs @ y # ys) \<and> known c' (b # zs @ y # ys) = known c bs \<and> canonical_tip c' = b
    else c' = c"
proof (cases "ch_height c < hb_height b")
  case True
  have E: "E\<lparr>ce_null_rlp := [128]\<rparr> = E" using assms(5) by simp
  from assms(1-4) True obtain xs y ys zs where r: "bs = xs @ y # ys" "xs \<noteq> []"
    "chain_inv E (hard_ops H T) (wf_hard T) c' (b # zs @ y # ys)" "known c' (b # zs @ y # ys) = known c bs"
    by (rule hard_chain.attempt_switch_longer[of E H T, unfolded E sample_hash])
  then have "canonical_tip c' = b" by (simp add: chain_inv_def canonical_def)
  with r True show ?thesis by auto
next
  case False
  with assms(1,3,4) show ?thesis by (auto simp: attempt_switch_def bind_eq_Some_conv split: if_split_asm)
qed

theorem switch_to_longer_witness:
  "\<exists>c d c'. sample_append (butlast sample_fork) = Some c \<and> write_orphan sample_ops (last sample_fork) ValidChainTip 0 c = Some d \<and>
     attempt_switch sample_cenv sample_ops (last sample_fork) d = Some c' \<and> canonical_tip d \<noteq> last sample_fork \<and>
     canonical_tip c' = last sample_fork"
proof -
  have "do { c \<leftarrow> sample_append (butlast sample_fork); d \<leftarrow> write_orphan sample_ops (last sample_fork) ValidChainTip 0 c;
      c' \<leftarrow> attempt_switch sample_cenv sample_ops (last sample_fork) d; t \<leftarrow> hb_hash (canonical_tip c);
      Some (blocks_from sample_cenv sample_ops c 5 t, map_of (orphan_pool c) (replicate 32 4),
        ch_height d < hb_height (last sample_fork), hb_height (canonical_tip d)) } =
    Some (Some [sample_fork ! 1, sample_fork ! 0], None, True, 2)" by code_simp
  then obtain c d c' t where c: "sample_append (butlast sample_fork) = Some c"
      "write_orphan sample_ops (last sample_fork) ValidChainTip 0 c = Some d"
      "attempt_switch sample_cenv sample_ops (last sample_fork) d = Some c'" "hb_hash (canonical_tip c) = Some t"
      "blocks_from sample_cenv sample_ops c 5 t = Some [sample_fork ! 1, sample_fork ! 0]"
      "map_of (orphan_pool c) (replicate 32 4) = None" "ch_height d < hb_height (last sample_fork)"
      "hb_height (canonical_tip d) = 2"
    by (auto simp: bind_eq_Some_conv)
  let ?h = "replicate 32 4 :: u8 list" and ?bs = "[sample_fork ! 1, sample_fork ! 0]"
  have E: "sample_cenv\<lparr>ce_null_rlp := [128]\<rparr> = sample_cenv" "ce_null_rlp sample_cenv = [128]" by (simp_all add: sample_cenv_def)
  have b: "hb_hash (last sample_fork) = Some ?h" "hb_height (last sample_fork) = 3" "?h \<notin> hashes sample_ops ?bs"
    by (simp_all add: sample_fork_def sample_block_def hashes_def)
  have fine: "\<forall>b \<in> set (butlast sample_fork). sample_fine b" "sample_fine (last sample_fork)"
    using sample_fork_fine by (auto simp: sample_fork_def)
  note inv = sample_inv[OF c(1) fine(1) c(4,5)] and same = write_orphan_store[OF c(2), unfolded sample_hash, OF b(1)]
  from hard_chain.add_orphan_inv(1)[of sample_cenv "ce_hash sample_cenv" sample_clock c ?bs "last sample_fork" ?h, unfolded E sample_hash, OF inv]
  have "chain_inv sample_cenv sample_ops (wf_hard sample_clock) d ?bs"
    using fine(2) b c(6) chain_inv_same(1)[OF same] by (auto simp: sample_fine_def)
  moreover have "map_of (orphan_pool d) ?h = Some (last sample_fork)" using same by (simp add: same_store_def update_conv')
  ultimately have "canonical_tip c' = last sample_fork"
    using switch_to_longer[OF c(3) _ b(1) _ E(2)] c(7) by auto
  with c(1-3,8) b(2) show ?thesis by auto
qed

text \<open>
  The tip is not persisted.  \<open>Chain::new\<close> looks for it under \<open>TIP_KEY\<close>, which no operation writes: on the
  store of any chain it starts again at the genesis block, with an empty orphan pool, while the blocks and the
  canonical height stay in the store.
\<close>

theorem restart_forgets_tip:
  assumes "chain_inv E (hard_ops H T) (wf_hard T) c bs" "TIP_KEY E \<notin> meta_keys E \<union> hashes (hard_ops H T) bs"
    "chain_new E (hard_ops H T) (ch_db c) = Some c'" "chain_get E c (CANONICAL_HEIGHT_KEY E) = Some (encode_be_u64 n)"
  shows "canonical_tip c' = b_genesis (hard_ops H T) \<and> ch_height c' = n \<and> ch_db c' = ch_db c \<and> orphan_pool c' = []"
proof -
  have "chain_get E c (TIP_KEY E) = None" using assms(1,2) by (simp add: chain_inv_def canonical_def stored_blocks_def)
  moreover have "decode_be_u64 (encode_be_u64 n) = Some n" using be_u64.dec_enc[of n "[]"] by simp
  ultimately show ?thesis using assms(3,4) by (auto simp: chain_new_def chain_get_def)
qed

theorem restart_forgets_tip_witness:
  "\<exists>c c'. sample_append [sample_fork ! 0] = Some c \<and> canonical_tip c = sample_fork ! 0 \<and>
     chain_new sample_cenv sample_ops (ch_db c) = Some c' \<and> canonical_tip c' = b_genesis sample_ops \<and> ch_height c' = 1"
proof -
  have "do { c \<leftarrow> sample_append [sample_fork ! 0]; c' \<leftarrow> chain_new sample_cenv sample_ops (ch_db c); t \<leftarrow> hb_hash (canonical_tip c);
      Some (blocks_from sample_cenv sample_ops c 5 t, chain_get sample_cenv c (CANONICAL_HEIGHT_KEY sample_cenv)) } =
    Some (Some [sample_fork ! 0], Some (encode_be_u64 1))" by code_simp
  then obtain c c' t where c: "sample_append [sample_fork ! 0] = Some c" "chain_new sample_cenv sample_ops (ch_db c) = Some c'"
      "hb_hash (canonical_tip c) = Some t" "blocks_from sample_cenv sample_ops c 5 t = Some [sample_fork ! 0]"
      "chain_get sample_cenv c (CANONICAL_HEIGHT_KEY sample_cenv) = Some (encode_be_u64 1)"
    by (auto simp: bind_eq_Some_conv)
  have inv: "chain_inv sample_cenv sample_ops (wf_hard sample_clock) c [sample_fork ! 0]"
    by (rule sample_inv[OF c(1) _ c(3,4)]) (use sample_fork_fine in \<open>simp add: sample_fork_def\<close>)
  have second: "block_height_key sample_cenv h ! 1 \<noteq> TIP_KEY sample_cenv ! 1" for h
    by (simp add: block_height_key_def TIP_KEY_def sample_cenv_def as_bytes_def)
  have "TIP_KEY sample_cenv \<notin> range (block_height_key sample_cenv)" by (rule notI, erule rangeE) (metis second)
  moreover have "TIP_KEY sample_cenv \<notin> {CANONICAL_HEIGHT_KEY sample_cenv, NULL_RLP_HASH, replicate 32 1}" by code_simp
  moreover have "hb_hash (sample_fork ! 0) = Some (replicate 32 1)" by (simp add: sample_fork_def sample_block_def)
  ultimately have "TIP_KEY sample_cenv \<notin> meta_keys sample_cenv \<union> hashes sample_ops [sample_fork ! 0]"
    by (simp add: meta_keys_def)
  from restart_forgets_tip[OF inv this c(2,5)] c(1,2) inv show ?thesis by (auto simp: chain_inv_def canonical_def)
qed

text \<open>
  What the chain stores for itself is never taken for a block: no block is accepted whose parent hash is
  one of the keys of the chain's own entries.
\<close>

theorem metadata_is_no_parent:
  assumes "chain_inv E (hard_ops H T) (wf_hard T) c bs" "hb_parent_hash b = Some p" "p \<in> meta_keys E"
    "chain_get E c p = Some bytes" "hb_hash (canonical_tip c) \<noteq> Some p" "ce_null_rlp E = [128]"
  shows "append_block E (hard_ops H T) b c \<noteq> Some (Inr c')"
proof -
  have E: "E\<lparr>ce_null_rlp := [128]\<rparr> = E" using assms(6) by simp
  from hard_chain.meta_parent_panics[of E H T c bs b p bytes c', unfolded E sample_hash, OF assms(1-5)] show ?thesis .
qed

theorem metadata_is_no_parent_witness:
  "\<exists>c. sample_append [] = Some c \<and> (let b = sample_block 1 (CANONICAL_HEIGHT_KEY sample_cenv) 1 in
     append_block sample_cenv sample_ops b c \<noteq> Some (Inr c) \<and> append_block sample_cenv sample_ops b c = None)"
proof -
  let ?p = "CANONICAL_HEIGHT_KEY sample_cenv" and ?b = "sample_block 1 (CANONICAL_HEIGHT_KEY sample_cenv) 1"
  have "do { c \<leftarrow> sample_append []; t \<leftarrow> hb_hash (canonical_tip c); bytes \<leftarrow> chain_get sample_cenv c ?p;
      Some (t \<noteq> ?p, append_block sample_cenv sample_ops ?b c = None, blocks_from sample_cenv sample_ops c 5 t) } =
    Some (True, True, Some [])" by code_simp
  then obtain c t bytes where c: "sample_append [] = Some c" "hb_hash (canonical_tip c) = Some t" "t \<noteq> ?p"
      "chain_get sample_cenv c ?p = Some bytes" "append_block sample_cenv sample_ops ?b c = None"
      "blocks_from sample_cenv sample_ops c 5 t = Some []"
    by (auto simp: bind_eq_Some_conv)
  have "hb_parent_hash ?b = Some ?p" "?p \<in> meta_keys sample_cenv" "ce_null_rlp sample_cenv = [128]"
    by (simp_all add: sample_block_def meta_keys_def sample_cenv_def)
  with metadata_is_no_parent[OF sample_inv[OF c(1) _ c(2,6)] _ _ c(4), of ?b c] c show ?thesis by simp
qed

text \<open>
  The height of an orphan that is not connected yet is not compared with its parent's, when the parent
  arrives: a block of height 6 whose parent is the block of height 1 becomes the tip, and the canonical
  height is then 2 although the tip says 6.
\<close>

theorem orphan_height_unchecked:
  "map_option (\<lambda>c. (ch_height c, hb_height (canonical_tip c)))
     (sample_append [sample_block 2 (replicate 32 1) 6, sample_block 1 sample_root 1]) = Some (2, 6)"
  by code_simp

end
