(* ===== verification/Siphash.thy ===== *)
theory Siphash
  imports Bin_Tools
begin

unbundle bit_operations_syntax

text \<open>
  \<open>miner/src/pow/siphash.rs\<close>: siphash 2-4 over a key of four words, and the blocks of 64 hashes that
  Cuckaroo takes its edges from.
\<close>

type_synonym sip_keys = "u64 \<times> u64 \<times> u64 \<times> u64"

definition SIPHASH_BLOCK_BITS :: nat where
  "SIPHASH_BLOCK_BITS = 6"

definition SIPHASH_BLOCK_SIZE :: u64 where
  "SIPHASH_BLOCK_SIZE = push_bit SIPHASH_BLOCK_BITS 1"

definition SIPHASH_BLOCK_MASK :: u64 where
  "SIPHASH_BLOCK_MASK = SIPHASH_BLOCK_SIZE - 1"

definition rotl :: "u64 \<Rightarrow> nat \<Rightarrow> u64" where
  "rotl num shift = push_bit shift num OR drop_bit (64 - shift) num"

datatype SipHash24 = SipHash24 u64 u64 u64 u64

fun sip_new :: "sip_keys \<Rightarrow> SipHash24" where
  "sip_new (a, b, c, d) = SipHash24 a b c d"

fun sip_round :: "SipHash24 \<Rightarrow> SipHash24" where
  "sip_round (SipHash24 v0 v1 v2 v3) = (
     let v0 = v0 + v1; v2 = v2 + v3;
       v1 = rotl v1 13; v3 = rotl v3 16;
       v1 = v1 XOR v0; v3 = v3 XOR v2;
       v0 = rotl v0 32;
       v2 = v2 + v1; v0 = v0 + v3;
       v1 = rotl v1 17; v3 = rotl v3 21;
       v1 = v1 XOR v2; v3 = v3 XOR v0;
       v2 = rotl v2 32
     in SipHash24 v0 v1 v2 v3)"

fun sip_absorb :: "u64 \<Rightarrow> SipHash24 \<Rightarrow> SipHash24" where
  "sip_absorb nonce (SipHash24 v0 v1 v2 v3) = SipHash24 v0 v1 v2 (v3 XOR nonce)"

fun sip_finish :: "u64 \<Rightarrow> SipHash24 \<Rightarrow> SipHash24" where
  "sip_finish nonce (SipHash24 v0 v1 v2 v3) = SipHash24 (v0 XOR nonce) v1 (v2 XOR 0xff) v3"

definition sip_hash :: "u64 \<Rightarrow> SipHash24 \<Rightarrow> SipHash24" where
  "sip_hash nonce s = (sip_round ^^ 4) (sip_finish nonce ((sip_round ^^ 2) (sip_absorb nonce s)))"

fun digest :: "SipHash24 \<Rightarrow> u64" where
  "digest (SipHash24 v0 v1 v2 v3) = (v0 XOR v1) XOR (v2 XOR v3)"

definition siphash24 :: "sip_keys \<Rightarrow> u64 \<Rightarrow> u64" where
  "siphash24 v nonce = digest (sip_hash nonce (sip_new v))"

text \<open>The range of the loop ends with a panic when its bound overflows.\<close>

definition siphash_block :: "sip_keys \<Rightarrow> u64 \<Rightarrow> u64 option" where
  "siphash_block v nonce = (
     let nonce0 = nonce AND NOT SIPHASH_BLOCK_MASK in do {
       _ \<leftarrow> checked_add nonce0 SIPHASH_BLOCK_SIZE;
       let (siphash, nonce_hash) = foldl
         (\<lambda>(siphash, nonce_hash) i. let n = nonce0 + word_of_nat i; siphash = sip_hash n siphash in
            (siphash, if n = nonce then digest siphash else nonce_hash))
         (sip_new v, 0) [0..<unat SIPHASH_BLOCK_SIZE];
       Some (if nonce = nonce0 + SIPHASH_BLOCK_MASK then digest siphash else nonce_hash XOR digest siphash)
     })"

section \<open>What a block is\<close>

lemma siphash_constants [simp]: "SIPHASH_BLOCK_SIZE = 64" "SIPHASH_BLOCK_MASK = 63"
  by (simp_all add: SIPHASH_BLOCK_SIZE_def SIPHASH_BLOCK_MASK_def SIPHASH_BLOCK_BITS_def push_bit_eq_mult)

text \<open>The shifts of the macro are a rotation.\<close>

lemma rotl_rotation:
  assumes "0 < n" "n < 64"
  shows "rotl x n = word_rotl n x"
proof (rule bit_word_eqI)
  fix k assume k: "k < LENGTH(64)"
  have rot: "bit (word_rotl n x) k \<longleftrightarrow> bit x ((k + (64 - n)) mod 64)" using assms k by (simp add: bit_word_rotl_iff)
  show "bit (rotl x n) k = bit (word_rotl n x) k"
  proof (cases "n \<le> k")
    case True
    have shift: "k + (64 - n) = (k - n) + 64" using True assms by simp
    have "(k + (64 - n)) mod 64 = k - n" unfolding shift using k by simp
    with True assms k show ?thesis unfolding rot by (auto simp: rotl_def bit_simps dest: bit_imp_le_length)
  next
    case False
    with assms k show ?thesis unfolding rot by (simp add: rotl_def bit_simps add.commute)
  qed
qed

text \<open>
  The value of a block is the hash at the place of the nonce, mixed with the hash at the end of the
  block; the hash at a place is the one of all places of the block before it.
\<close>

definition block_state :: "sip_keys \<Rightarrow> u64 \<Rightarrow> nat \<Rightarrow> SipHash24" where
  "block_state v start k = foldl (\<lambda>s i. sip_hash (start + word_of_nat i) s) (sip_new v) [0..<k]"

lemma block_state_Suc: "block_state v start (Suc k) = sip_hash (start + word_of_nat k) (block_state v start k)"
  by (simp add: block_state_def)

lemma block_loop:
  fixes start nonce :: u64
  assumes "nonce = start + word_of_nat p" "p < 64" "k \<le> 64"
  shows "foldl (\<lambda>(s, h) i. let n = start + word_of_nat i; s = sip_hash n s in (s, if n = nonce then digest s else h))
    (sip_new v, 0) [0..<k] = (block_state v start k, if p < k then digest (block_state v start (Suc p)) else 0)"
  using assms(3)
proof (induction k)
  case 0
  then show ?case by (simp add: block_state_def)
next
  case (Suc k)
  have "start + word_of_nat k = nonce \<longleftrightarrow> k = p"
    using Suc.prems assms(1,2) by (auto simp: word_of_nat_eq_iff take_bit_nat_eq_self)
  with Suc show ?case by (auto simp: Let_def block_state_Suc less_Suc_eq)
qed

lemma block_offset:
  fixes nonce :: u64
  defines "p \<equiv> unat (nonce AND 63)"
  shows "nonce = (nonce AND NOT 63) + word_of_nat p" "p < 64" "p = 63 \<longleftrightarrow> nonce = (nonce AND NOT 63) + 63"
proof -
  have "nonce AND 63 \<le> 63" by (rule word_and_le1)
  then show "p < 64" by (simp add: p_def word_le_nat_alt)
  have "(nonce AND NOT 63) + (nonce AND 63) = (nonce AND NOT 63) OR (nonce AND 63)"
    by (rule disjunctive_add) (auto simp: bit_simps)
  also have "\<dots> = nonce" by (rule bit_eqI) (auto simp: bit_simps)
  finally have sum: "(nonce AND NOT 63) + (nonce AND 63) = nonce" .
  then show split: "nonce = (nonce AND NOT 63) + word_of_nat p" by (simp add: p_def)
  have "p = 63 \<longleftrightarrow> nonce AND 63 = 63" by (simp add: p_def word_unat_eq_iff)
  also have "\<dots> \<longleftrightarrow> nonce = (nonce AND NOT 63) + 63" using sum by (metis add_left_cancel)
  finally show "p = 63 \<longleftrightarrow> nonce = (nonce AND NOT 63) + 63" .
qed

lemma siphash_block_spec:
  assumes "checked_add (nonce AND NOT 63) 64 = Some e"
  shows "siphash_block v nonce = Some (
    let start = nonce AND NOT 63; p = unat (nonce AND 63); last = digest (block_state v start 64) in
    if p = 63 then last else digest (block_state v start (Suc p)) XOR last)"
  using block_loop[OF block_offset(1,2), of 64 nonce v] block_offset(2,3)[of nonce] assms
  by (simp add: siphash_block_def Let_def)

end
