(* ===== verification/Cuckaroo.thy ===== *)
theory Cuckaroo
  imports Siphash
begin

unbundle bit_operations_syntax

text \<open>
  \<open>miner/src/pow/common.rs\<close>, \<open>cuckaroo.rs\<close> and \<open>error.rs\<close>, for the edge type \<open>u64\<close>, the one that is used: its
  casts do not fail.  A proof is a list of nonces; every nonce is an edge of a bipartite graph, between a
  node on the even and one on the odd positions of \<open>uvs\<close>, and the verifier follows the edges.
\<close>

datatype ErrorKind = Verification string | IntegerCast | IOError | EdgeAddition | Path | InvalidCycle nat
  | NoCycle | NoSolution

section \<open>Parameters\<close>

record CuckooParams =
  edge_bits :: u8
  proof_size :: nat
  num_edges :: u64
  siphash_keys :: sip_keys
  edge_mask :: u64

text \<open>\<open>read_u64\<close> from a cursor, four times; a hash has 32 bytes.\<close>

definition create_siphash_keys :: "(u8 list \<Rightarrow> u8 list) \<Rightarrow> u8 list \<Rightarrow> ErrorKind + sip_keys" where
  "create_siphash_keys hash_slice header = (
     let hb = hash_slice header in
     case (decode_le_u64 hb, decode_le_u64 (drop 8 hb), decode_le_u64 (drop 16 hb), decode_le_u64 (drop 24 hb)) of
       (Some a, Some b, Some c, Some d) \<Rightarrow> Inr (a, b, c, d)
     | _ \<Rightarrow> Inl IOError)"

definition set_header_nonce :: "(u8 list \<Rightarrow> u8 list) \<Rightarrow> u8 list \<Rightarrow> u32 option \<Rightarrow> ErrorKind + sip_keys" where
  "set_header_nonce hash_slice header nonce = (case nonce of
       Some n \<Rightarrow> create_siphash_keys hash_slice (header @ encode_le_u32 n)
     | None \<Rightarrow> create_siphash_keys hash_slice header)"

text \<open>A shift by 64 bits or more panics.\<close>

definition params_new :: "u8 \<Rightarrow> nat \<Rightarrow> CuckooParams option" where
  "params_new bits psize = (if 64 \<le> unat bits then None
     else let n = push_bit (unat bits) 1 in
       Some \<lparr>edge_bits = bits, proof_size = psize, num_edges = n, siphash_keys = (0, 0, 0, 0), edge_mask = n - 1\<rparr>)"

definition reset_header_nonce ::
  "(u8 list \<Rightarrow> u8 list) \<Rightarrow> u8 list \<Rightarrow> u32 option \<Rightarrow> CuckooParams \<Rightarrow> ErrorKind + CuckooParams" where
  "reset_header_nonce hash_slice header nonce P =
     map_sum id (\<lambda>keys. P\<lparr>siphash_keys := keys\<rparr>) (set_header_nonce hash_slice header nonce)"

definition sipnode :: "CuckooParams \<Rightarrow> u64 \<Rightarrow> u64 \<Rightarrow> bool \<Rightarrow> u64 option" where
  "sipnode P edge uorv shift = (if 2 ^ 63 \<le> edge then None
     else do {
       n \<leftarrow> checked_add (2 * edge) uorv;
       let masked = siphash24 (siphash_keys P) n AND edge_mask P;
       Some (if shift then push_bit 1 masked OR uorv else masked)
     })"

section \<open>Verification\<close>

text \<open>The first loop: the nonces are checked and their edges written to \<open>uvs\<close>.\<close>

fun verify_edges :: "CuckooParams \<Rightarrow> u64 list \<Rightarrow> nat list \<Rightarrow> u64 list \<times> u64 \<times> u64 \<Rightarrow>
     (ErrorKind + u64 list \<times> u64 \<times> u64) option" where
  "verify_edges P nonces [] s = Some (Inr s)"
| "verify_edges P nonces (n # ns) (uvs, xor0, xor1) = do {
     nonce \<leftarrow> index nonces n;
     if edge_mask P < nonce then Some (Inl (Verification ''edge too big''))
     else do {
       descends \<leftarrow> (if 0 < n then do { prev \<leftarrow> index nonces (n - 1); Some (nonce \<le> prev) } else Some False);
       if descends then Some (Inl (Verification ''edges not ascending''))
       else do {
         edge \<leftarrow> siphash_block (siphash_keys P) nonce;
         let u = edge AND edge_mask P;
         let v = drop_bit 32 edge AND edge_mask P;
         uvs \<leftarrow> index_set uvs (2 * n) u;
         uvs \<leftarrow> index_set uvs (2 * n + 1) v;
         verify_edges P nonces ns (uvs, xor0 XOR u, xor1 XOR v)
       }
     }
   }"

text \<open>The inner loop: the other position with the node of position \<open>i\<close>.\<close>

partial_function (option) match_loop :: "nat \<Rightarrow> u64 list \<Rightarrow> nat \<Rightarrow> nat \<Rightarrow> nat \<Rightarrow> (ErrorKind + nat) option" where
  "match_loop psize uvs i j k =
     (if psize = 0 then None
      else let k = (k + 2) mod (2 * psize) in
        if k = i then Some (Inr j)
        else do {
          x \<leftarrow> index uvs k;
          y \<leftarrow> index uvs i;
          if x = y then
            (if j \<noteq> i then Some (Inl (Verification ''branch in cycle'')) else match_loop psize uvs i k k)
          else match_loop psize uvs i j k
        })"

declare match_loop.simps [code]

text \<open>The outer loop: from one end of an edge to the other end of the edge that meets it.\<close>

partial_function (option) follow_cycle :: "nat \<Rightarrow> u64 list \<Rightarrow> nat \<Rightarrow> nat \<Rightarrow> (ErrorKind + nat) option" where
  "follow_cycle psize uvs i n = do {
     r \<leftarrow> match_loop psize uvs i i i;
     (case r of
        Inl e \<Rightarrow> Some (Inl e)
      | Inr j \<Rightarrow>
          if j = i then Some (Inl (Verification ''cycle dead ends''))
          else let i = j XOR 1; n = n + 1 in
            if i = 0 then Some (Inr n) else follow_cycle psize uvs i n)
   }"

declare follow_cycle.simps [code]

definition check_cycle :: "nat \<Rightarrow> u64 list \<Rightarrow> (ErrorKind + unit) option" where
  "check_cycle psize uvs = do {
     r \<leftarrow> follow_cycle psize uvs 0 0;
     (case r of
        Inl e \<Rightarrow> Some (Inl e)
      | Inr n \<Rightarrow> Some (if n = psize then Inr () else Inl (Verification ''cycle too short'')))
   }"

definition cuckaroo_verify :: "CuckooParams \<Rightarrow> u64 list \<Rightarrow> (ErrorKind + unit) option" where
  "cuckaroo_verify P nonces = do {
     r \<leftarrow> verify_edges P nonces [0..<length nonces] (replicate (2 * length nonces) 0, 0, 0);
     (case r of
        Inl e \<Rightarrow> Some (Inl e)
      | Inr (uvs, xor0, xor1) \<Rightarrow>
          if xor0 OR xor1 \<noteq> 0 then Some (Inl (Verification ''endpoints don't match up''))
          else check_cycle (proof_size P) uvs)
   }"

end
