(* ===== verification/Cuckaroo_Props.thy ===== *)
theory Cuckaroo_Props
  imports Cuckaroo
begin

unbundle bit_operations_syntax

text \<open>
  What the verifier of Cuckaroo accepts.  The positions of \<open>uvs\<close> are the ends of the edges; two positions of
  the same side with the same node are mates, and the verifier walks from a position over its mate to the
  other end of the mate's edge.  The walk never meets a position twice, hence it ends, and it covers all
  edges just when they form one cycle.
\<close>

section \<open>The search for the mate\<close>

definition mates :: "nat \<Rightarrow> u64 list \<Rightarrow> nat \<Rightarrow> nat set" where
  "mates N uvs i = {k. k < 2 * N \<and> k \<noteq> i \<and> even k = even i \<and> uvs ! k = uvs ! i}"

definition mate :: "nat \<Rightarrow> u64 list \<Rightarrow> nat \<Rightarrow> nat \<Rightarrow> bool" where
  "mate N uvs i j \<longleftrightarrow> mates N uvs i = {j}"

fun scan :: "u64 list \<Rightarrow> nat \<Rightarrow> nat \<Rightarrow> nat list \<Rightarrow> ErrorKind + nat" where
  "scan uvs i j [] = Inr j"
| "scan uvs i j (k # ks) = (if uvs ! k = uvs ! i
     then if j \<noteq> i then Inl (Verification ''branch in cycle'') else scan uvs i k ks
     else scan uvs i j ks)"

lemma scan_eq:
  assumes "i \<notin> set ks"
  shows "scan uvs i j ks = (case (if j = i then [] else [j]) @ filter (\<lambda>k. uvs ! k = uvs ! i) ks of
      [] \<Rightarrow> Inr i | [m] \<Rightarrow> Inr m | _ \<Rightarrow> Inl (Verification ''branch in cycle''))"
  using assms
proof (induction ks arbitrary: j)
  case Nil
  then show ?case by simp
next
  case (Cons k ks)
  then show ?case by (auto split: list.split)
qed

lemma round_trip:
  fixes i s N :: nat
  assumes "i < 2 * N" "0 < s" "s \<le> N"
  shows "(i + 2 * s) mod (2 * N) = i \<longleftrightarrow> s = N"
proof (cases "s = N")
  case True
  with assms(1) show ?thesis by simp
next
  case False
  with assms have "(i + 2 * s) mod (2 * N) = (if i + 2 * s < 2 * N then i + 2 * s else i + 2 * s - 2 * N)"
    by (auto simp: mod_if)
  with assms False show ?thesis by auto
qed

lemma match_loop_scan:
  assumes "0 < N" "i < 2 * N" "length uvs = 2 * N" "t < N"
  shows "match_loop N uvs i j ((i + 2 * t) mod (2 * N)) = Some (scan uvs i j (map (\<lambda>s. (i + 2 * s) mod (2 * N)) [Suc t..<N]))"
  using assms(4)
proof (induction "N - t" arbitrary: t j)
  case 0
  then show ?case by simp
next
  case (Suc d)
  let ?k = "(i + 2 * Suc t) mod (2 * N)"
  have k: "((i + 2 * t) mod (2 * N) + 2) mod (2 * N) = ?k" by (simp add: mod_simps)
  have home: "?k = i \<longleftrightarrow> Suc t = N" using round_trip[OF assms(2), of "Suc t"] Suc.prems by simp
  have "?k < 2 * N" using assms(1) by simp
  with assms(3) have idx: "index uvs ?k = Some (uvs ! ?k)" "index uvs i = Some (uvs ! i)" using assms(2) by simp_all
  show ?case
  proof (cases "Suc t = N")
    case True
    with assms(1) home show ?thesis by (subst match_loop.simps, unfold Let_def k) simp
  next
    case False
    with Suc.prems have t: "Suc t < N" by simp
    have "[Suc t..<N] = Suc t # [Suc (Suc t)..<N]" using t by (simp add: upt_conv_Cons)
    moreover have "match_loop N uvs i j ?k = Some (scan uvs i j (map (\<lambda>s. (i + 2 * s) mod (2 * N)) [Suc (Suc t)..<N]))" for j
      by (rule Suc.hyps(1)) (use Suc.hyps(2) t in simp_all)
    ultimately show ?thesis using False assms(1) home idx
      by (subst match_loop.simps, unfold Let_def k) simp
  qed
qed

lemma same_side:
  assumes "0 < N" "i < 2 * N"
  shows "set (map (\<lambda>s. (i + 2 * s) mod (2 * N)) [Suc 0..<N]) = {k. k < 2 * N \<and> k \<noteq> i \<and> even k = even i}"
    "distinct (map (\<lambda>s. (i + 2 * s) mod (2 * N)) [Suc 0..<N])"
proof -
  let ?f = "\<lambda>s. (i + 2 * s) mod (2 * N)"
  have f: "?f s = (if i + 2 * s < 2 * N then i + 2 * s else i + 2 * s - 2 * N)" if "s < N" for s
    using that assms by (auto simp: mod_if)
  show "distinct (map ?f [Suc 0..<N])"
    by (auto simp: distinct_map inj_on_def f split: if_splits)
  show "set (map ?f [Suc 0..<N]) = {k. k < 2 * N \<and> k \<noteq> i \<and> even k = even i}"
  proof (intro equalityI subsetI)
    fix k assume "k \<in> set (map ?f [Suc 0..<N])"
    with assms show "k \<in> {k. k < 2 * N \<and> k \<noteq> i \<and> even k = even i}" by (auto simp: f)
  next
    fix k assume "k \<in> {k. k < 2 * N \<and> k \<noteq> i \<and> even k = even i}"
    then have k: "k < 2 * N" "k \<noteq> i" "even k = even i" by auto
    define s where "s = (if i < k then (k - i) div 2 else N - (i - k) div 2)"
    have "i + 2 * s = (if i < k then k else k + 2 * N)"
      using k assms(2) unfolding s_def by (cases "even k") (auto elim!: evenE oddE simp: diff_mult_distrib2[symmetric])
    then have "?f s = k" using k(1) by (simp split: if_splits)
    moreover have "s \<in> set [Suc 0..<N]"
      using k assms by (auto simp: s_def diff_mult_distrib2[symmetric] elim!: evenE oddE split: if_splits)
    ultimately show "k \<in> set (map ?f [Suc 0..<N])" by force
  qed
qed

lemma match_loop_eq:
  assumes "0 < N" "i < 2 * N" "length uvs = 2 * N"
  shows "match_loop N uvs i i i = Some (if mates N uvs i = {} then Inr i
    else if is_singleton (mates N uvs i) then Inr (the_elem (mates N uvs i)) else Inl (Verification ''branch in cycle''))"
proof -
  let ?ks = "map (\<lambda>s. (i + 2 * s) mod (2 * N)) [Suc 0..<N]"
  let ?ms = "filter (\<lambda>k. uvs ! k = uvs ! i) ?ks"
  have ms: "set ?ms = mates N uvs i" "distinct ?ms" "i \<notin> set ?ks"
    using same_side[OF assms(1,2)] by (auto simp: mates_def simp del: set_map)
  have run: "match_loop N uvs i i i = Some (case ?ms of [] \<Rightarrow> Inr i | [m] \<Rightarrow> Inr m | _ \<Rightarrow> Inl (Verification ''branch in cycle''))"
    using match_loop_scan[OF assms, of 0 i] assms(1,2) scan_eq[OF ms(3), of uvs i] by simp
  show ?thesis
  proof (cases ?ms)
    case Nil
    with ms(1) run show ?thesis by simp
  next
    case (Cons m ms')
    show ?thesis
    proof (cases ms')
      case Nil
      with Cons ms(1) have "mates N uvs i = {m}" by simp
      with run Cons Nil show ?thesis by (simp add: is_singleton_def)
    next
      case (Cons m' ms'')
      with \<open>?ms = m # ms'\<close> ms(1,2) have "m \<in> mates N uvs i" "m' \<in> mates N uvs i" "m \<noteq> m'" by auto
      then have "\<not> is_singleton (mates N uvs i)" "mates N uvs i \<noteq> {}" by (auto simp: is_singleton_def)
      with run Cons \<open>?ms = m # ms'\<close> show ?thesis by simp
    qed
  qed
qed

section \<open>Walks\<close>

lemma mateD:
  assumes "mate N uvs i j"
  shows "j < 2 * N" "j \<noteq> i" "even j = even i" "uvs ! j = uvs ! i" "mates N uvs i = {j}"
  using assms unfolding mate_def mates_def by blast+

lemma mate_unique: "mate N uvs i j \<Longrightarrow> mate N uvs i k \<Longrightarrow> j = k"
  by (simp add: mate_def)

lemma mate_sym:
  assumes "mate N uvs i j" "i < 2 * N"
  shows "mate N uvs j i"
proof -
  note d = mateD[OF assms(1)]
  have "mates N uvs j = {i}"
  proof (intro equalityI subsetI)
    fix k assume "k \<in> mates N uvs j"
    then have k: "k < 2 * N" "k \<noteq> j" "even k = even i" "uvs ! k = uvs ! i" using d by (auto simp: mates_def)
    then have "k = i \<or> k \<in> mates N uvs i" by (auto simp: mates_def)
    with d(5) k(2) show "k \<in> {i}" by simp
  qed (use d assms(2) in \<open>auto simp: mates_def\<close>)
  then show ?thesis by (simp add: mate_def)
qed

text \<open>The other end of the edge of a position.\<close>

definition other_end :: "nat \<Rightarrow> nat" where
  "other_end i = (if even i then i + 1 else i - 1)"

lemma xor_1: "i XOR 1 = other_end i" for i :: nat
  unfolding xor_one_eq other_end_def by simp

lemma other_end_simps [simp]:
  "other_end (other_end i) = i" "other_end i \<noteq> i" "even (other_end i) = odd i" "other_end i div 2 = i div 2"
  "other_end i < 2 * N \<longleftrightarrow> i < 2 * N"
  by (auto simp: other_end_def elim!: evenE oddE)

text \<open>The positions the verifier is at, from the first one on.\<close>

definition walk :: "nat \<Rightarrow> u64 list \<Rightarrow> nat list \<Rightarrow> bool" where
  "walk N uvs xs \<longleftrightarrow> xs \<noteq> [] \<and> xs ! 0 = 0 \<and>
     (\<forall>a. Suc a < length xs \<longrightarrow> mate N uvs (xs ! a) (other_end (xs ! Suc a)) \<and> xs ! Suc a \<noteq> 0)"

lemma walk_less:
  assumes "walk N uvs xs" "0 < N" "a < length xs"
  shows "xs ! a < 2 * N"
proof (cases a)
  case 0
  with assms show ?thesis by (simp add: walk_def)
next
  case (Suc b)
  with assms(1,3) have "mate N uvs (xs ! b) (other_end (xs ! a))" by (simp add: walk_def)
  from mateD(1)[OF this] show ?thesis by simp
qed

lemma walk_inj:
  assumes w: "walk N uvs xs" and "0 < N" "a < b" "b < length xs"
  shows "xs ! a \<noteq> xs ! b"
  using assms(3,4)
proof (induction a arbitrary: b)
  case 0
  then obtain c where "b = Suc c" by (cases b) auto
  with 0 w show ?case by (simp add: walk_def)
next
  case (Suc a)
  then obtain c where c: "b = Suc c" "a < c" by (cases b) auto
  with w Suc.prems have "mate N uvs (xs ! a) (other_end (xs ! Suc a))" "mate N uvs (xs ! c) (other_end (xs ! b))" by (auto simp: walk_def)
  note m = this[THEN mate_sym]
  show ?case
  proof
    assume "xs ! Suc a = xs ! b"
    with m walk_less[OF w assms(2)] c Suc.prems have "xs ! a = xs ! c" by (auto dest: mate_unique)
    with Suc.IH[OF c(2)] c(1) Suc.prems(2) show False by simp
  qed
qed

lemma walk_distinct:
  assumes "walk N uvs xs" "0 < N"
  shows "distinct xs" "length xs \<le> 2 * N"
proof -
  show d: "distinct xs"
    unfolding distinct_conv_nth using walk_inj[OF assms] by (metis linorder_neqE_nat)
  have "set xs \<subseteq> {..<2 * N}" using walk_less[OF assms] by (auto simp: in_set_conv_nth)
  then have "card (set xs) \<le> 2 * N" by (metis card_mono card_lessThan finite_lessThan)
  with d show "length xs \<le> 2 * N" by (simp add: distinct_card)
qed

lemma walk_snoc:
  assumes "walk N uvs xs" "mate N uvs (last xs) j" "other_end j \<noteq> 0"
  shows "walk N uvs (xs @ [other_end j])"
  unfolding walk_def
proof (intro conjI allI impI)
  from assms(1) have xs: "xs \<noteq> []" by (simp add: walk_def)
  then show "xs @ [other_end j] \<noteq> []" "(xs @ [other_end j]) ! 0 = 0" using assms(1) by (simp_all add: walk_def nth_append)
  fix a assume a: "Suc a < length (xs @ [other_end j])"
  show "mate N uvs ((xs @ [other_end j]) ! a) (other_end ((xs @ [other_end j]) ! Suc a))" "(xs @ [other_end j]) ! Suc a \<noteq> 0"
  proof -
    have "a = length xs - 1 \<and> (xs @ [other_end j]) ! a = last xs \<and> (xs @ [other_end j]) ! Suc a = other_end j \<or>
        Suc a < length xs \<and> (xs @ [other_end j]) ! a = xs ! a \<and> (xs @ [other_end j]) ! Suc a = xs ! Suc a"
      using a xs by (cases "Suc a = length xs") (auto simp: nth_append last_conv_nth dest: sym)
    with assms show "mate N uvs ((xs @ [other_end j]) ! a) (other_end ((xs @ [other_end j]) ! Suc a))"
      "(xs @ [other_end j]) ! Suc a \<noteq> 0" by (auto simp: walk_def)
  qed
qed

text \<open>A walk that comes back to the first edge.\<close>

definition closed_walk :: "nat \<Rightarrow> u64 list \<Rightarrow> nat list \<Rightarrow> bool" where
  "closed_walk N uvs xs \<longleftrightarrow> walk N uvs xs \<and> mate N uvs (last xs) 1"

lemma follow_walk:
  assumes "walk N uvs xs" "0 < N" "length uvs = 2 * N"
  shows "\<exists>r. follow_cycle N uvs (last xs) (length xs - 1) = Some r \<and>
    (\<forall>n. r = Inr n \<longrightarrow> (\<exists>ys. closed_walk N uvs ys \<and> length ys = n)) \<and>
    ((\<forall>i < 2 * N. \<exists>j. mate N uvs i j) \<longrightarrow> \<not> isl r)"
  using assms(1)
proof (induction "2 * N - length xs" arbitrary: xs rule: less_induct)
  case less
  let ?i = "last xs"
  have xs: "xs \<noteq> []" using less.prems by (simp add: walk_def)
  have i: "?i < 2 * N" using walk_less[OF less.prems assms(2), of "length xs - 1"] xs by (simp add: last_conv_nth)
  show ?case
  proof (cases "is_singleton (mates N uvs ?i)")
    case False
    then have "\<nexists>j. mate N uvs ?i j" by (auto simp: mate_def is_singleton_def)
    with False i show ?thesis
      by (subst follow_cycle.simps) (auto simp: match_loop_eq[OF assms(2) i assms(3)])
  next
    case True
    then obtain j where j: "mate N uvs ?i j" by (auto simp: is_singleton_def mate_def)
    then have "j \<noteq> ?i" "mates N uvs ?i = {j}" using mateD(2,5)[OF j] by simp_all
    then have step: "follow_cycle N uvs ?i (length xs - 1) =
        (if other_end j = 0 then Some (Inr (length xs)) else follow_cycle N uvs (other_end j) (length xs))"
      using xs by (subst follow_cycle.simps) (simp add: match_loop_eq[OF assms(2) i assms(3)] xor_1[simplified] Let_def)
    show ?thesis
    proof (cases "other_end j = 0")
      case True
      then have "j = 1" by (auto simp: other_end_def le_Suc_eq split: if_splits)
      with j less.prems have "closed_walk N uvs xs" by (simp add: closed_walk_def)
      with step True show ?thesis by auto
    next
      case False
      note w = walk_snoc[OF less.prems j False]
      have "2 * N - length (xs @ [other_end j]) < 2 * N - length xs" using walk_distinct(2)[OF w assms(2)] by simp
      from less.hyps[OF this w] step False show ?thesis by simp
    qed
  qed
qed

section \<open>The edges of a closed walk\<close>

lemma walk_edges_inj:
  assumes w: "walk N uvs xs" and "0 < N" "a < b" "b < length xs"
  shows "xs ! b \<noteq> other_end (xs ! a)"
  using assms(3,4)
proof (induction "b - a" arbitrary: a b rule: less_induct)
  case less
  then obtain c where c: "b = Suc c" "a \<le> c" by (cases b) auto
  from w less.prems c have m: "mate N uvs (xs ! a) (other_end (xs ! Suc a))" "mate N uvs (xs ! c) (other_end (xs ! b))"
    by (auto simp: walk_def)
  show ?case
  proof
    assume eq: "xs ! b = other_end (xs ! a)"
    with m(2) have "mate N uvs (xs ! c) (xs ! a)" by simp
    from mate_sym[OF this] walk_less[OF w assms(2), of c] c less.prems have "mate N uvs (xs ! a) (xs ! c)" by simp
    from mate_unique[OF this m(1)] have c': "xs ! c = other_end (xs ! Suc a)" .
    show False
    proof (cases "Suc a < c")
      case True
      then have "c - Suc a < b - a" using c(1) by simp
      from less.hyps[OF this True] c(1) less.prems(2) c' show False by simp
    next
      case False
      with c have "c = a \<or> c = Suc a" by auto
      with c' mateD(2)[OF \<open>mate N uvs (xs ! a) (xs ! c)\<close>] show False by (metis other_end_simps(2))
    qed
  qed
qed

lemma walk_edges:
  assumes "walk N uvs xs" "0 < N"
  shows "inj_on (\<lambda>x. x div 2) (set xs)" "(\<lambda>x. x div 2) ` set xs \<subseteq> {..<N}" "card ((\<lambda>x. x div 2) ` set xs) = length xs"
proof -
  have same: "x = y \<or> x = other_end y" if "x div 2 = y div 2" for x y
    using that by (cases "even x"; cases "even y") (auto simp: other_end_def elim!: evenE oddE)
  have ne: "x \<noteq> other_end y" if xy: "x \<in> set xs" "y \<in> set xs" "x \<noteq> y" for x y
  proof -
    from xy obtain a b where a: "a < length xs" "xs ! a = x" "b < length xs" "xs ! b = y" "a \<noteq> b"
      by (auto simp: in_set_conv_nth)
    then show ?thesis using walk_edges_inj[OF assms, of a b] walk_edges_inj[OF assms, of b a]
      by (metis linorder_neqE_nat other_end_simps(1))
  qed
  show inj: "inj_on (\<lambda>x. x div 2) (set xs)" by (rule inj_onI) (use same ne in blast)
  show "(\<lambda>x. x div 2) ` set xs \<subseteq> {..<N}" using walk_less[OF assms] by (fastforce simp: in_set_conv_nth)
  show "card ((\<lambda>x. x div 2) ` set xs) = length xs"
    using card_image[OF inj] distinct_card[OF walk_distinct(1)[OF assms]] by simp
qed

section \<open>One cycle\<close>

text \<open>
  The graph of the edges \<open>uvs ! (2 * e)\<close>, \<open>uvs ! (2 * e + 1)\<close>: it is a cycle when exactly two edges meet at
  every node and every set of edges that is closed under meeting is empty or has all edges.
\<close>

definition meet :: "u64 list \<Rightarrow> nat \<Rightarrow> nat \<Rightarrow> bool" where
  "meet uvs e f \<longleftrightarrow> uvs ! (2 * e) = uvs ! (2 * f) \<or> uvs ! (2 * e + 1) = uvs ! (2 * f + 1)"

definition is_cycle :: "nat \<Rightarrow> u64 list \<Rightarrow> bool" where
  "is_cycle N uvs \<longleftrightarrow>
     (\<forall>e < N. card {f. f < N \<and> uvs ! (2 * f) = uvs ! (2 * e)} = 2 \<and>
        card {f. f < N \<and> uvs ! (2 * f + 1) = uvs ! (2 * e + 1)} = 2) \<and>
     (\<forall>S. S \<subseteq> {..<N} \<and> S \<noteq> {} \<and> (\<forall>e \<in> S. \<forall>f < N. meet uvs e f \<longrightarrow> f \<in> S) \<longrightarrow> S = {..<N})"

lemma mates_side:
  assumes "e < N" "s < 2"
  shows "mates N uvs (2 * e + s) = (\<lambda>f. 2 * f + s) ` ({f. f < N \<and> uvs ! (2 * f + s) = uvs ! (2 * e + s)} - {e})"
proof (intro equalityI subsetI)
  fix k assume k: "k \<in> mates N uvs (2 * e + s)"
  with assms(2) have "k mod 2 = s" by (auto simp: mates_def less_2_cases_iff mod_2_eq_odd)
  then obtain f where "k = 2 * f + s" by (metis mult_div_mod_eq)
  with k show "k \<in> (\<lambda>f. 2 * f + s) ` ({f. f < N \<and> uvs ! (2 * f + s) = uvs ! (2 * e + s)} - {e})"
    by (auto simp: mates_def)
qed (use assms in \<open>auto simp: mates_def\<close>)

lemma mate_iff_card:
  assumes "e < N" "s < 2"
  shows "(\<exists>j. mate N uvs (2 * e + s) j) \<longleftrightarrow> card {f. f < N \<and> uvs ! (2 * f + s) = uvs ! (2 * e + s)} = 2"
proof -
  let ?F = "{f. f < N \<and> uvs ! (2 * f + s) = uvs ! (2 * e + s)}"
  have fin: "finite ?F" "e \<in> ?F" using assms(1) by simp_all
  have "(\<exists>j. mate N uvs (2 * e + s) j) \<longleftrightarrow> card (mates N uvs (2 * e + s)) = 1"
    by (auto simp: mate_def card_1_singleton_iff)
  also have "card (mates N uvs (2 * e + s)) = card (?F - {e})"
    unfolding mates_side[OF assms] by (rule card_image) (simp add: inj_on_def)
  also have "\<dots> = card ?F - 1" using fin by simp
  also have "card ?F - 1 = 1 \<longleftrightarrow> card ?F = 2" by arith
  finally show ?thesis .
qed

lemma all_mates:
  "(\<forall>e < N. card {f. f < N \<and> uvs ! (2 * f) = uvs ! (2 * e)} = 2 \<and>
      card {f. f < N \<and> uvs ! (2 * f + 1) = uvs ! (2 * e + 1)} = 2) \<longleftrightarrow> (\<forall>i < 2 * N. \<exists>j. mate N uvs i j)"
proof -
  have pos: "(\<forall>i < 2 * N. P i) \<longleftrightarrow> (\<forall>e < N. P (2 * e + 0) \<and> P (2 * e + 1))" for P
  proof (intro iffI allI impI)
    fix i assume h: "\<forall>e < N. P (2 * e + 0) \<and> P (2 * e + 1)" "i < 2 * N"
    then show "P i" by (cases "even i") (auto elim!: evenE oddE)
  qed auto
  show ?thesis unfolding pos using mate_iff_card[of _ N 0 uvs] mate_iff_card[of _ N 1 uvs] by auto
qed

text \<open>The mate of an end of an edge of a closed walk is an end of an edge of the walk.\<close>

lemma closed_walk_mates:
  assumes w: "closed_walk N uvs ys" and "0 < N" "p div 2 \<in> (\<lambda>y. y div 2) ` set ys"
  shows "\<exists>q. mate N uvs p q \<and> q div 2 \<in> (\<lambda>y. y div 2) ` set ys"
proof -
  have walk: "walk N uvs ys" and ys: "ys \<noteq> []" "ys ! 0 = 0" "mate N uvs (last ys) 1" using w by (auto simp: closed_walk_def walk_def)
  from assms(3) obtain a where a: "a < length ys" "p div 2 = ys ! a div 2" by (auto simp: in_set_conv_nth)
  then have "p = ys ! a \<or> p = other_end (ys ! a)"
    by (cases "even p"; cases "even (ys ! a)") (auto simp: other_end_def elim!: evenE oddE)
  then show ?thesis
  proof
    assume p: "p = ys ! a"
    show ?thesis
    proof (cases "Suc a < length ys")
      case True
      with walk p have "mate N uvs p (other_end (ys ! Suc a))" by (simp add: walk_def)
      with True show ?thesis by (intro exI[of _ "other_end (ys ! Suc a)"]) auto
    next
      case False
      with a(1) p ys have "mate N uvs p 1" by (metis Suc_lessI diff_Suc_1 last_conv_nth)
      moreover have "0 \<in> set ys" using nth_mem[of 0 ys] ys by simp
      ultimately show ?thesis by (intro exI[of _ 1]) force
    qed
  next
    assume p: "p = other_end (ys ! a)"
    show ?thesis
    proof (cases a)
      case 0
      with p ys(2) have "p = 1" by (simp add: other_end_def)
      moreover have "last ys < 2 * N" using walk_less[OF walk assms(2), of "length ys - 1"] ys(1) by (simp add: last_conv_nth)
      ultimately have "mate N uvs p (last ys)" using mate_sym[OF ys(3)] by simp
      with ys(1) show ?thesis by auto
    next
      case (Suc b)
      with walk a(1) p have "mate N uvs (ys ! b) p" by (simp add: walk_def)
      from mate_sym[OF this] walk_less[OF walk assms(2), of b] Suc a(1) have "mate N uvs p (ys ! b)" by simp
      with Suc a(1) show ?thesis by (intro exI[of _ "ys ! b"]) simp
    qed
  qed
qed

lemma meet_mates:
  assumes "e < N" "f < N" "e \<noteq> f" "meet uvs e f"
  shows "\<exists>s < 2. 2 * f + s \<in> mates N uvs (2 * e + s)"
proof -
  from assms(4) have "\<exists>s < 2. uvs ! (2 * f + s) = uvs ! (2 * e + s)"
    unfolding meet_def by (metis One_nat_def Suc_1 add.right_neutral lessI zero_less_Suc)
  with assms(1-3) show ?thesis by (auto simp: mates_def)
qed

lemma mate_meets:
  assumes "mate N uvs p q"
  shows "meet uvs (p div 2) (q div 2)"
proof -
  note m = mateD[OF assms]
  show ?thesis using m(3,4) by (cases "even p") (auto simp: meet_def elim!: evenE oddE)
qed

lemma closed_walk_cycle:
  assumes w: "closed_walk N uvs ys" and "0 < N"
  shows "length ys = N \<longleftrightarrow> is_cycle N uvs"
proof
  let ?O = "(\<lambda>y. y div 2) ` set ys"
  have walk: "walk N uvs ys" and ys: "ys \<noteq> []" "ys ! 0 = 0" "mate N uvs (last ys) 1" using w by (auto simp: closed_walk_def walk_def)
  note O = walk_edges[OF walk assms(2)]
  {
    assume "length ys = N"
    with O(2,3) have all: "?O = {..<N}" by (metis card_lessThan card_subset_eq finite_lessThan)
    have "\<forall>i < 2 * N. \<exists>j. mate N uvs i j"
      using closed_walk_mates[OF assms] all by (metis lessThan_iff less_mult_imp_div_less mult.commute)
    moreover have "S = {..<N}" if S: "S \<subseteq> {..<N}" "S \<noteq> {}" "\<forall>e \<in> S. \<forall>f < N. meet uvs e f \<longrightarrow> f \<in> S" for S
    proof -
      have edge: "ys ! a div 2 < N" if "a < length ys" for a using walk_less[OF walk assms(2) that] by simp
      have step: "ys ! Suc a div 2 \<in> S" if "ys ! a div 2 \<in> S" "Suc a < length ys" for a
        using mate_meets[of N uvs "ys ! a" "other_end (ys ! Suc a)"] walk that S(3) edge[of "Suc a"] by (auto simp: walk_def)
      have up: "ys ! (a + d) div 2 \<in> S" if "ys ! a div 2 \<in> S" "a + d < length ys" for a d
        using that by (induction d) (auto dest: step)
      from S(1,2) all obtain e where "e \<in> S" "e \<in> ?O" by blast
      then obtain a where a: "a < length ys" "ys ! a div 2 \<in> S" by (auto simp: in_set_conv_nth)
      from up[OF a(2), of "length ys - 1 - a"] a(1) ys(1) have "last ys div 2 \<in> S" by (simp add: last_conv_nth)
      with S(3) mate_meets[OF ys(3)] assms(2) have "ys ! 0 div 2 \<in> S" using ys(2) by simp
      from up[OF this] have "\<forall>b < length ys. ys ! b div 2 \<in> S" by simp
      then have "?O \<subseteq> S" by (auto simp: in_set_conv_nth)
      with S(1) all show ?thesis by blast
    qed
    ultimately show "is_cycle N uvs" unfolding is_cycle_def all_mates by blast
  next
    assume cyc: "is_cycle N uvs"
    have "\<forall>e \<in> ?O. \<forall>f < N. meet uvs e f \<longrightarrow> f \<in> ?O"
    proof (intro ballI allI impI)
      fix e f assume e: "e \<in> ?O" "f < N" "meet uvs e f"
      then have "e < N" using O(2) by blast
      show "f \<in> ?O"
      proof (cases "e = f")
        case False
        from meet_mates[OF \<open>e < N\<close> e(2) False e(3)] obtain s where s: "s < 2" "2 * f + s \<in> mates N uvs (2 * e + s)" by blast
        from s(1) e(1) have "(2 * e + s) div 2 \<in> ?O" by simp
        from closed_walk_mates[OF assms this] obtain q where "mate N uvs (2 * e + s) q" "q div 2 \<in> ?O" by blast
        moreover from this s have "q = 2 * f + s" by (simp add: mate_def)
        moreover have "(2 * f + s) div 2 = f" using s(1) by simp
        ultimately show ?thesis by metis
      qed (use e(1) in simp)
    qed
    moreover have "?O \<noteq> {}" using ys(1) by simp
    ultimately have "?O = {..<N}" using cyc O(2) unfolding is_cycle_def by blast
    with O(3) show "length ys = N" by simp
  }
qed

lemma check_cycle_iff:
  assumes "0 < N" "length uvs = 2 * N"
  shows "\<exists>r. check_cycle N uvs = Some r" "check_cycle N uvs = Some (Inr ()) \<longleftrightarrow> is_cycle N uvs"
proof -
  have "walk N uvs [0]" by (simp add: walk_def)
  from follow_walk[OF this assms] obtain r where r: "follow_cycle N uvs 0 0 = Some r"
    "\<forall>n. r = Inr n \<longrightarrow> (\<exists>ys. closed_walk N uvs ys \<and> length ys = n)" "(\<forall>i < 2 * N. \<exists>j. mate N uvs i j) \<longrightarrow> \<not> isl r"
    by auto
  show "\<exists>r. check_cycle N uvs = Some r" by (simp add: check_cycle_def r(1) split: sum.split)
  show "check_cycle N uvs = Some (Inr ()) \<longleftrightarrow> is_cycle N uvs"
  proof (cases r)
    case (Inl e)
    with r(3) have "\<not> is_cycle N uvs" unfolding is_cycle_def all_mates by auto
    with Inl r(1) show ?thesis by (simp add: check_cycle_def)
  next
    case (Inr n)
    with r(2) obtain ys where "closed_walk N uvs ys" "length ys = n" by blast
    with closed_walk_cycle[OF _ assms(1)] Inr r(1) show ?thesis by (auto simp: check_cycle_def)
  qed
qed

section \<open>The edges of a proof\<close>

definition node :: "CuckooParams \<Rightarrow> nat \<Rightarrow> u64 \<Rightarrow> u64" where
  "node P side nonce = drop_bit (32 * side) (the (siphash_block (siphash_keys P) nonce)) AND edge_mask P"

definition proof_nodes :: "CuckooParams \<Rightarrow> u64 list \<Rightarrow> u64 list" where
  "proof_nodes P nonces = concat (map (\<lambda>x. [node P 0 x, node P 1 x]) nonces)"

definition well_ordered :: "CuckooParams \<Rightarrow> u64 list \<Rightarrow> bool" where
  "well_ordered P nonces \<longleftrightarrow> (\<forall>x \<in> set nonces. x \<le> edge_mask P) \<and> sorted_wrt (<) nonces"

definition xor_all :: "u64 list \<Rightarrow> u64" where
  "xor_all xs = foldl (XOR) 0 xs"

lemma length_proof_nodes [simp]: "length (proof_nodes P nonces) = 2 * length nonces"
  by (induction nonces) (simp_all add: proof_nodes_def)

lemma proof_nodes_snoc: "proof_nodes P (xs @ [x]) = proof_nodes P xs @ [node P 0 x, node P 1 x]"
  by (simp add: proof_nodes_def)

lemma proof_nodes_nth:
  "f < length nonces \<Longrightarrow> proof_nodes P nonces ! (2 * f) = node P 0 (nonces ! f)"
  "f < length nonces \<Longrightarrow> proof_nodes P nonces ! (2 * f + 1) = node P 1 (nonces ! f)"
proof -
  have "proof_nodes P nonces ! (2 * f) = node P 0 (nonces ! f) \<and> proof_nodes P nonces ! (2 * f + 1) = node P 1 (nonces ! f)"
    if "f < length nonces" using that
  proof (induction nonces arbitrary: f)
    case (Cons x xs)
    then show ?case by (cases f) (auto simp: proof_nodes_def)
  qed simp
  then show "f < length nonces \<Longrightarrow> proof_nodes P nonces ! (2 * f) = node P 0 (nonces ! f)"
    "f < length nonces \<Longrightarrow> proof_nodes P nonces ! (2 * f + 1) = node P 1 (nonces ! f)" by blast+
qed

lemma block_total:
  assumes "nonce \<le> m" "m \<le> 2 ^ 63"
  shows "\<exists>e. siphash_block v nonce = Some e"
proof -
  have "unat (nonce AND NOT 63) \<le> unat nonce" by (metis word_and_le2 word_le_nat_alt)
  also have "unat nonce \<le> 2 ^ 63" using assms by (simp add: word_le_nat_alt)
  finally have "checked_add (nonce AND NOT 63) 64 \<noteq> None" by (simp add: checked_add_def)
  then show ?thesis using siphash_block_spec by blast
qed

lemma well_ordered_snoc:
  "well_ordered P (xs @ [x]) \<longleftrightarrow> well_ordered P xs \<and> x \<le> edge_mask P \<and> (xs \<noteq> [] \<longrightarrow> last xs < x)"
proof -
  have "y \<le> last xs" if "sorted_wrt (<) xs" "y \<in> set xs" for y
    using that by (induction xs) (auto simp: less_imp_le)
  then show ?thesis unfolding well_ordered_def by (auto simp: sorted_wrt_append dest: le_less_trans)
qed

text \<open>The loop over the nonces: it returns, and without an error just when the nonces are small and ascend.\<close>

lemma verify_edges_eq:
  assumes mask: "edge_mask P \<le> 2 ^ 63" and "n \<le> length nonces" "well_ordered P (take n nonces)"
  shows "\<exists>r. verify_edges P nonces [n..<length nonces]
      (proof_nodes P (take n nonces) @ replicate (2 * (length nonces - n)) 0,
       xor_all (map (node P 0) (take n nonces)), xor_all (map (node P 1) (take n nonces))) = Some r \<and>
    (if well_ordered P nonces then r = Inr (proof_nodes P nonces, xor_all (map (node P 0) nonces), xor_all (map (node P 1) nonces))
     else isl r)"
  using assms(2,3)
proof (induction "length nonces - n" arbitrary: n)
  case 0
  then show ?case by simp
next
  case (Suc d)
  then have n: "n < length nonces" by simp
  let ?x = "nonces ! n" and ?xs = "take n nonces"
  have upt: "[n..<length nonces] = n # [Suc n..<length nonces]" using n by (simp add: upt_conv_Cons)
  have snoc: "take (Suc n) nonces = ?xs @ [?x]" using n by (simp add: take_Suc_conv_app_nth)
  have last: "last ?xs = nonces ! (n - 1)" if "0 < n" using that n by (subst last_conv_nth) auto
  have wo: "well_ordered P (take (Suc n) nonces) \<longleftrightarrow> ?x \<le> edge_mask P \<and> (0 < n \<longrightarrow> nonces ! (n - 1) < ?x)"
    using Suc.prems(2) last n unfolding snoc well_ordered_snoc by auto
  show ?case
  proof (cases "well_ordered P (take (Suc n) nonces)")
    case True
    with wo have x: "?x \<le> edge_mask P" "0 < n \<longrightarrow> nonces ! (n - 1) < ?x" by auto
    from block_total[OF x(1) mask] obtain e where e: "siphash_block (siphash_keys P) ?x = Some e" by blast
    have nodes: "node P 0 ?x = e AND edge_mask P" "node P 1 ?x = drop_bit 32 e AND edge_mask P" by (simp_all add: node_def e)
    let ?uvs = "proof_nodes P ?xs @ replicate (2 * (length nonces - n)) 0"
    have rep: "replicate (2 * (length nonces - n)) 0 = 0 # 0 # replicate (2 * (length nonces - Suc n)) 0"
      using n by (simp flip: replicate_Suc)
    have set: "do { uvs \<leftarrow> index_set ?uvs (2 * n) (node P 0 ?x); index_set uvs (2 * n + 1) (node P 1 ?x) } =
        Some (proof_nodes P (take (Suc n) nonces) @ replicate (2 * (length nonces - Suc n)) 0)"
      using n unfolding snoc proof_nodes_snoc rep by (simp add: index_set_def list_update_append)
    then obtain uvs1 where "index_set ?uvs (2 * n) (node P 0 ?x) = Some uvs1"
        "index_set uvs1 (2 * n + 1) (node P 1 ?x) = Some (proof_nodes P (take (Suc n) nonces) @ replicate (2 * (length nonces - Suc n)) 0)"
      by (auto simp: bind_eq_Some_conv)
    then have "verify_edges P nonces [n..<length nonces] (?uvs, a, b) = verify_edges P nonces [Suc n..<length nonces]
        (proof_nodes P (take (Suc n) nonces) @ replicate (2 * (length nonces - Suc n)) 0, a XOR node P 0 ?x, b XOR node P 1 ?x)" for a b
      using n x e unfolding upt nodes by (auto simp: not_le Let_def)
    moreover have "xor_all (map f (take (Suc n) nonces)) = xor_all (map f ?xs) XOR f ?x" for f
      by (simp add: snoc xor_all_def)
    ultimately show ?thesis using Suc.hyps(1)[of "Suc n"] Suc.hyps(2) n True by simp
  next
    case False
    then have "\<not> well_ordered P nonces" unfolding well_ordered_def by (metis in_set_takeD sorted_wrt_take)
    moreover from False wo have "edge_mask P < ?x \<or> 0 < n \<and> ?x \<le> nonces ! (n - 1)" by auto
    ultimately show ?thesis using n unfolding upt by auto
  qed
qed

text \<open>Every node of a cycle occurs twice on its side, so the exclusive or over a side vanishes.\<close>

lemma xor_all_Cons: "xor_all (x # xs) = x XOR xor_all xs"
proof -
  have "foldl (XOR) a xs = a XOR foldl (XOR) 0 xs" for a :: u64
  proof (induction xs arbitrary: a)
    case (Cons y ys)
    show ?case using Cons[of "a XOR y"] Cons[of "0 XOR y"] by (simp add: xor.assoc)
  qed simp
  from this[of x] show ?thesis by (simp add: xor_all_def)
qed

lemma xor_all_remove: "x \<in> set xs \<Longrightarrow> xor_all xs = x XOR xor_all (remove1 x xs)"
  by (induction xs) (auto simp: xor_all_Cons xor.left_commute)

lemma xor_all_pairs:
  assumes "\<forall>x. even (count_list xs x)"
  shows "xor_all xs = 0"
  using assms
proof (induction "length xs" arbitrary: xs rule: less_induct)
  case less
  show ?case
  proof (cases xs)
    case Nil
    then show ?thesis by (simp add: xor_all_def)
  next
    case (Cons x ys)
    with less.prems have "odd (count_list ys x)" by (metis count_list.simps(2) even_Suc even_plus_one_iff)
    then have x: "x \<in> set ys" by (metis count_notin even_zero)
    let ?zs = "remove1 x ys"
    have count: "count_list ?zs y = count_list ys y - (if x = y then 1 else 0)" for y
      by (induction ys) auto
    have "even (count_list ?zs y)" for y
    proof (cases "x = y")
      case True
      with count[of y] \<open>odd (count_list ys x)\<close> show ?thesis by (simp add: odd_pos)
    next
      case False
      with less.prems[rule_format, of y] count[of y] Cons show ?thesis by simp
    qed
    moreover have "length ?zs < length xs" using Cons x by (simp add: length_remove1)
    ultimately have "xor_all ?zs = 0" using less.hyps by blast
    with Cons xor_all_remove[OF x] show ?thesis by (simp add: xor_all_Cons)
  qed
qed

lemma cycle_counts:
  assumes "\<And>e. e < length us \<Longrightarrow> card {f. f < length us \<and> us ! f = us ! e} = 2"
  shows "xor_all us = 0"
proof (rule xor_all_pairs, intro allI)
  fix x
  have "count_list us x = card {f. f < length us \<and> us ! f = x}"
    by (simp add: count_list_eq_length_filter length_filter_conv_card eq_commute)
  then show "even (count_list us x)"
    using assms by (cases "x \<in> set us") (auto simp: in_set_conv_nth count_list_0_iff)
qed

lemma is_cycle_xor:
  assumes "is_cycle (length nonces) (proof_nodes P nonces)"
  shows "xor_all (map (node P 0) nonces) = 0" "xor_all (map (node P 1) nonces) = 0"
proof -
  let ?N = "length nonces"
  have "{f. f < ?N \<and> proof_nodes P nonces ! (2 * f) = proof_nodes P nonces ! (2 * e)} =
      {f. f < length (map (node P 0) nonces) \<and> map (node P 0) nonces ! f = map (node P 0) nonces ! e}"
    "{f. f < ?N \<and> proof_nodes P nonces ! (2 * f + 1) = proof_nodes P nonces ! (2 * e + 1)} =
      {f. f < length (map (node P 1) nonces) \<and> map (node P 1) nonces ! f = map (node P 1) nonces ! e}" if "e < ?N" for e
    using that proof_nodes_nth[of _ nonces P] by auto
  with assms show "xor_all (map (node P 0) nonces) = 0" "xor_all (map (node P 1) nonces) = 0"
    unfolding is_cycle_def by (auto intro!: cycle_counts)
qed

lemma cuckaroo_verify_spec:
  assumes "edge_mask P \<le> 2 ^ 63" "proof_size P = length nonces" "nonces \<noteq> []"
  shows "\<exists>r. cuckaroo_verify P nonces = Some r"
    "cuckaroo_verify P nonces = Some (Inr ()) \<longleftrightarrow>
      well_ordered P nonces \<and> is_cycle (length nonces) (proof_nodes P nonces)"
proof -
  let ?X0 = "xor_all (map (node P 0) nonces)" and ?X1 = "xor_all (map (node P 1) nonces)"
  from verify_edges_eq[OF assms(1), of 0 nonces] obtain r where
    r: "verify_edges P nonces [0..<length nonces] (replicate (2 * length nonces) 0, 0, 0) = Some r"
      "if well_ordered P nonces then r = Inr (proof_nodes P nonces, ?X0, ?X1) else isl r"
    by (auto simp: proof_nodes_def xor_all_def well_ordered_def)
  have cyc: "\<exists>r. check_cycle (length nonces) (proof_nodes P nonces) = Some r"
    "check_cycle (length nonces) (proof_nodes P nonces) = Some (Inr ()) \<longleftrightarrow> is_cycle (length nonces) (proof_nodes P nonces)"
    using check_cycle_iff[of "length nonces" "proof_nodes P nonces"] assms(3) by auto
  show "\<exists>r. cuckaroo_verify P nonces = Some r"
    using r cyc(1) by (auto simp: cuckaroo_verify_def assms(2) split: if_splits sum.splits)
  show "cuckaroo_verify P nonces = Some (Inr ()) \<longleftrightarrow>
      well_ordered P nonces \<and> is_cycle (length nonces) (proof_nodes P nonces)"
    using r cyc(2) is_cycle_xor[of nonces P] by (auto simp: cuckaroo_verify_def assms(2) isl_def split: if_splits)
qed

end
