(* ===== verification/Pow_Verify.thy ===== *)
theory Pow_Verify
  imports Cuckaroo_Props Vm_Types
begin

unbundle bit_operations_syntax

text \<open>
  \<open>miner/src/pow/proof.rs\<close> and \<open>miner/src/verify.rs\<close>: proofs, their difficulty, and the verification of a proof
  against a header.  The bits of a byte are read by the crate \<open>bitvec\<close> (parameter \<open>bits_get\<close>), hashing is the
  parameter \<open>hash_slice\<close>.
\<close>

definition MIN_EDGE_BITS :: u8 where
  "MIN_EDGE_BITS = 24"

definition MAX_EDGE_BITS :: u8 where
  "MAX_EDGE_BITS = 31"

definition PROOF_SIZE :: nat where
  "PROOF_SIZE = 42"

section \<open>Proofs\<close>

record Proof =
  pf_edge_bits :: u8
  pf_nonces :: "u64 list"

definition proof_new :: "u64 list \<Rightarrow> u8 \<Rightarrow> Proof" where
  "proof_new in_nonces bits = \<lparr>pf_edge_bits = bits, pf_nonces = sort in_nonces\<rparr>"

definition proof_zero :: "nat \<Rightarrow> Proof" where
  "proof_zero n = \<lparr>pf_edge_bits = MIN_EDGE_BITS, pf_nonces = replicate n 0\<rparr>"

text \<open>The numbers of the random generator are an argument.\<close>

definition proof_random :: "u32 list \<Rightarrow> Proof" where
  "proof_random rs = (
     let nonce_mask = push_bit (unat MIN_EDGE_BITS) 1 - 1 in
     \<lparr>pf_edge_bits = MIN_EDGE_BITS, pf_nonces = sort (map (\<lambda>r. ucast (r AND nonce_mask)) rs)\<rparr>)"

definition proof_hash :: "(u8 list \<Rightarrow> u8 list) \<Rightarrow> Proof \<Rightarrow> u8 list" where
  "proof_hash hash_slice p = hash_slice (pf_edge_bits p # concat (map encode_le_u64 (pf_nonces p)))"

text \<open>The loops over the bits of a byte, with the bound of the source, and over the bytes.\<close>

fun count_bits :: "bits_get \<Rightarrow> u8 \<Rightarrow> u8 list \<Rightarrow> u8 \<Rightarrow> (bool \<times> u8) option" where
  "count_bits bits_get byte [] d = Some (False, d)"
| "count_bits bits_get byte (i # is) d = do {
     b \<leftarrow> bits_get byte i;
     if b then Some (True, d)
     else do {
       d \<leftarrow> checked_add d 1;
       count_bits bits_get byte is d
     }
   }"

fun count_bytes :: "bits_get \<Rightarrow> u8 list \<Rightarrow> u8 \<Rightarrow> u8 option" where
  "count_bytes bits_get [] d = Some d"
| "count_bytes bits_get (byte # bytes) d = do {
     (stop, d) \<leftarrow> count_bits bits_get byte (map word_of_nat [0..<9]) d;
     if stop then Some d else count_bytes bits_get bytes d
   }"

definition to_difficulty :: "bits_get \<Rightarrow> (u8 list \<Rightarrow> u8 list) \<Rightarrow> Proof \<Rightarrow> u8 option" where
  "to_difficulty bits_get hash_slice p = do {
     difficulty \<leftarrow> count_bytes bits_get (proof_hash hash_slice p) 0;
     Some (if 1 > difficulty then 1 else difficulty)
   }"

section \<open>Verification against a header\<close>

datatype VerifyError = UnsupportedEdgeBits | InvalidProof | InvalidProofLength | LowDifficulty

text \<open>The contexts \<open>CUCKOO_24\<close> to \<open>CUCKOO_31\<close>, which keep the keys of the last header.\<close>

type_synonym contexts = "u8 \<Rightarrow> CuckooParams option"

definition cuckoo_contexts :: contexts where
  "cuckoo_contexts bits = (if MIN_EDGE_BITS \<le> bits \<and> bits \<le> MAX_EDGE_BITS then params_new bits PROOF_SIZE else None)"

definition pow_verify :: "bits_get \<Rightarrow> (u8 list \<Rightarrow> u8 list) \<Rightarrow> u8 list \<Rightarrow> u32 \<Rightarrow> u8 \<Rightarrow> Proof \<Rightarrow> contexts \<Rightarrow>
     ((VerifyError + unit) \<times> contexts) option" where
  "pow_verify bits_get hash_slice header nonce target_difficulty p ctxs =
     (if length (pf_nonces p) \<noteq> PROOF_SIZE then Some (Inl InvalidProofLength, ctxs)
      else if pf_edge_bits p < MIN_EDGE_BITS \<or> pf_edge_bits p > MAX_EDGE_BITS then Some (Inl UnsupportedEdgeBits, ctxs)
      else do {
        difficulty \<leftarrow> to_difficulty bits_get hash_slice p;
        if difficulty < target_difficulty then Some (Inl LowDifficulty, ctxs)
        else do {
          ctx \<leftarrow> ctxs (pf_edge_bits p);
          (case reset_header_nonce hash_slice header (Some nonce) ctx of
             Inl _ \<Rightarrow> None
           | Inr ctx \<Rightarrow> do {
               r \<leftarrow> cuckaroo_verify ctx (pf_nonces p);
               Some (case r of Inl _ \<Rightarrow> Inl InvalidProof | Inr _ \<Rightarrow> Inr (), ctxs(pf_edge_bits p \<mapsto> ctx))
             })
        }
      })"

section \<open>Difficulty\<close>

text \<open>The documented behaviour of \<open>bitvec\<close>: bits 0 to 7 are read, another index panics.\<close>

definition bits_law :: "bits_get \<Rightarrow> bool" where
  "bits_law g \<longleftrightarrow> (\<forall>b i. g b i = (if unat i < 8 then Some (bit b (unat i)) else None))"

text \<open>A byte with a bit set stops the count at that bit; a byte without one panics.\<close>

lemma bits_step:
  assumes "bits_law g" "k < 8" "d < 255"
  shows "count_bits g byte (map word_of_nat [k..<9]) (word_of_nat d) = (if bit byte k then Some (True, word_of_nat d)
    else count_bits g byte (map word_of_nat [Suc k..<9]) (word_of_nat (Suc d)))"
proof -
  have "[k..<9] = k # [Suc k..<9]" using assms(2) by (simp add: upt_conv_Cons)
  moreover have "g byte (word_of_nat k) = Some (bit byte k)" using assms(1,2) by (simp add: bits_law_def unat_of_nat)
  moreover have "checked_add (word_of_nat d) (1 :: u8) = Some (word_of_nat (Suc d))"
    using assms(3) by (simp add: checked_add_def unat_of_nat add.commute)
  ultimately show ?thesis by simp
qed

lemma count_bits_first:
  assumes "bits_law g" "k \<le> m" "m < 8" "bit byte m" "\<forall>i. k \<le> i \<and> i < m \<longrightarrow> \<not> bit byte i" "d + (m - k) < 255"
  shows "count_bits g byte (map word_of_nat [k..<9]) (word_of_nat d) = Some (True, word_of_nat (d + (m - k)))"
  using assms(2,5,6)
proof (induction "m - k" arbitrary: k d)
  case 0
  with assms(1,3,4) show ?case by (simp add: bits_step)
next
  case (Suc n)
  then have k: "k < m" "\<not> bit byte k" "k < 8" "d < 255" using assms(3) by auto
  have "count_bits g byte (map word_of_nat [Suc k..<9]) (word_of_nat (Suc d)) = Some (True, word_of_nat (Suc d + (m - Suc k)))"
    by (rule Suc.hyps(1)) (use Suc.hyps(2) Suc.prems k in auto)
  with k assms(1) show ?case by (simp add: bits_step Suc_diff_Suc del: of_nat_Suc of_nat_add)
qed

lemma count_bits_zero:
  assumes "bits_law g" "k \<le> 8" "d + (8 - k) < 255"
  shows "count_bits g 0 (map word_of_nat [k..<9]) (word_of_nat d) = None"
  using assms(2,3)
proof (induction "8 - k" arbitrary: k d)
  case 0
  then have "k = 8" by simp
  with assms(1) show ?case by (simp add: bits_law_def)
next
  case (Suc n)
  have "count_bits g 0 (map word_of_nat [Suc k..<9]) (word_of_nat (Suc d)) = None"
    by (rule Suc.hyps(1)) (use Suc.hyps(2) Suc.prems in auto)
  with assms(1) Suc show ?case by (simp add: bits_step del: of_nat_Suc)
qed

lemma difficulty_max: "to_difficulty g H p = map_option (max 1) (count_bytes g (proof_hash H p) 0)"
proof -
  have "(if 1 > d then 1 else d) = max 1 d" for d :: u8
    by (metis less_imp_le max.absorb1 max.absorb2 not_less)
  then show ?thesis by (cases "count_bytes g (proof_hash H p) 0") (simp_all add: to_difficulty_def)
qed

lemma difficulty_eq:
  assumes "bits_law g" "proof_hash H p = byte # bytes"
  shows "byte = 0 \<Longrightarrow> to_difficulty g H p = None"
    "m < 8 \<Longrightarrow> bit byte m \<Longrightarrow> \<forall>i < m. \<not> bit byte i \<Longrightarrow> to_difficulty g H p = Some (max 1 (word_of_nat m))"
  using assms count_bits_zero[OF assms(1), of 0 0] count_bits_first[OF assms(1), of 0 m byte 0]
  by (auto simp: difficulty_max simp del: upt_Suc)

lemma first_bit:
  assumes "byte \<noteq> (0 :: u8)"
  obtains m where "m < 8" "bit byte m" "\<forall>i < m. \<not> bit byte i"
proof -
  have ex: "\<exists>m. bit byte m"
  proof (rule ccontr)
    assume "\<nexists>m. bit byte m"
    then have "byte = 0" by (intro bit_eqI) simp
    with assms show False by simp
  qed
  have m: "bit byte (LEAST m. bit byte m)" "\<forall>i < (LEAST m. bit byte m). \<not> bit byte i"
    using LeastI_ex[OF ex] not_less_Least by blast+
  have "(LEAST m. bit byte m) < 8" using bit_imp_le_length[OF m(1)] by simp
  then show thesis using m by (rule that)
qed

lemma difficulty_bounds:
  assumes "bits_law g" "length (proof_hash H p) = 32" "to_difficulty g H p = Some d"
  shows "1 \<le> d" "d \<le> 7"
proof -
  from assms(2) obtain byte bytes where h: "proof_hash H p = byte # bytes" by (cases "proof_hash H p") auto
  with difficulty_eq(1)[OF assms(1) h] assms(3) have "byte \<noteq> 0" by auto
  then obtain m where "m < 8" "bit byte m" "\<forall>i < m. \<not> bit byte i" by (rule first_bit)
  with difficulty_eq(2)[OF assms(1) h] assms(3) have "d = max 1 (word_of_nat m)" "m < 8" by auto
  moreover have "unat (word_of_nat m :: u8) \<le> 7" using \<open>m < 8\<close> by (simp add: unat_of_nat)
  ultimately show "1 \<le> d" "d \<le> 7" by (auto simp: max_def word_le_nat_alt)
qed

section \<open>What is accepted\<close>

definition expected_params :: "u8 \<Rightarrow> sip_keys \<Rightarrow> CuckooParams" where
  "expected_params bits keys = \<lparr>edge_bits = bits, proof_size = 42, num_edges = 2 ^ unat bits, siphash_keys = keys,
     edge_mask = 2 ^ unat bits - 1\<rparr>"

definition contexts_ok :: "contexts \<Rightarrow> bool" where
  "contexts_ok ctxs \<longleftrightarrow> (\<forall>bits. 24 \<le> bits \<and> bits \<le> 31 \<longrightarrow> (\<exists>keys. ctxs bits = Some (expected_params bits keys)))"

lemma cuckoo_contexts_ok: "contexts_ok cuckoo_contexts"
  unfolding contexts_ok_def
proof (intro allI impI)
  fix bits :: u8 assume bits: "24 \<le> bits \<and> bits \<le> 31"
  then have "\<not> 64 \<le> unat bits" by (simp add: word_le_nat_alt)
  with bits show "\<exists>keys. cuckoo_contexts bits = Some (expected_params bits keys)"
    by (simp add: cuckoo_contexts_def params_new_def MIN_EDGE_BITS_def MAX_EDGE_BITS_def
        PROOF_SIZE_def expected_params_def push_bit_eq_mult Let_def)
qed

lemma expected_mask:
  assumes "bits \<le> 31"
  shows "edge_mask (expected_params bits keys) \<le> 2 ^ 63"
proof -
  have "unat bits \<in> set [0..<32]" using assms by (simp add: word_le_nat_alt)
  moreover have "list_all (\<lambda>n. (2 :: u64) ^ n - 1 \<le> 2 ^ 63) [0..<32]" by code_simp
  ultimately show ?thesis by (simp add: expected_params_def list_all_iff del: set_upt)
qed

text \<open>
  For a proof whose difficulty can be computed the verification returns, keeps the contexts, and accepts
  just the proofs of 42 ascending nonces in range whose edges, for the keys of this header and nonce, are
  one cycle.
\<close>

definition accepted_proof :: "sip_keys \<Rightarrow> u8 \<Rightarrow> u8 \<Rightarrow> Proof \<Rightarrow> bool" where
  "accepted_proof keys target difficulty p \<longleftrightarrow> length (pf_nonces p) = 42 \<and> 24 \<le> pf_edge_bits p \<and> pf_edge_bits p \<le> 31 \<and>
     target \<le> difficulty \<and> well_ordered (expected_params (pf_edge_bits p) keys) (pf_nonces p) \<and>
     is_cycle 42 (proof_nodes (expected_params (pf_edge_bits p) keys) (pf_nonces p))"

lemma pow_verify_spec:
  assumes "contexts_ok ctxs" "create_siphash_keys H (header @ encode_le_u32 nonce) = Inr keys" "to_difficulty g H p = Some d"
  shows "\<exists>r ctxs'. pow_verify g H header nonce target p ctxs = Some (r, ctxs') \<and> contexts_ok ctxs' \<and>
    (r = Inr () \<longleftrightarrow> accepted_proof keys target d p)"
proof (cases "length (pf_nonces p) = 42 \<and> 24 \<le> pf_edge_bits p \<and> pf_edge_bits p \<le> 31 \<and> target \<le> d")
  case False
  with assms(1,3) show ?thesis
    by (auto simp: pow_verify_def PROOF_SIZE_def MIN_EDGE_BITS_def MAX_EDGE_BITS_def accepted_proof_def not_le not_less)
next
  case True
  let ?b = "pf_edge_bits p" and ?n = "pf_nonces p"
  from True assms(1) obtain old where old: "ctxs ?b = Some (expected_params ?b old)" unfolding contexts_ok_def by blast
  let ?P = "expected_params ?b keys"
  have reset: "reset_header_nonce H header (Some nonce) (expected_params ?b old) = Inr ?P"
    using assms(2) by (simp add: reset_header_nonce_def set_header_nonce_def expected_params_def)
  have P: "edge_mask ?P \<le> 2 ^ 63" "proof_size ?P = length ?n" "?n \<noteq> []"
    using expected_mask[of ?b keys] True by (auto simp: expected_params_def)
  from cuckaroo_verify_spec(1)[OF P] obtain r where r: "cuckaroo_verify ?P ?n = Some r" by blast
  then have "pow_verify g H header nonce target p ctxs = Some (case r of Inl _ \<Rightarrow> Inl InvalidProof | Inr _ \<Rightarrow> Inr (), ctxs(?b \<mapsto> ?P))"
    using True assms(3) old reset leD[of 24 ?b] leD[of ?b 31] leD[of target d]
    by (simp add: pow_verify_def PROOF_SIZE_def MIN_EDGE_BITS_def MAX_EDGE_BITS_def)
  moreover have "contexts_ok (ctxs(?b \<mapsto> ?P))" using assms(1) unfolding contexts_ok_def by (metis fun_upd_apply)
  moreover have "r = Inr () \<longleftrightarrow> accepted_proof keys target d p"
    using cuckaroo_verify_spec(2)[OF P] r True by (auto simp: accepted_proof_def)
  ultimately show ?thesis by (cases r) auto
qed

text \<open>A hash of 32 bytes always gives keys.\<close>

lemma keys_total:
  assumes "length (H header) = 32"
  shows "\<exists>keys. create_siphash_keys H header = Inr keys"
  using assms by (simp add: create_siphash_keys_def decode_le_u64_def read_le_def Let_def)

end
