(* ===== verification/Miner.thy ===== *)
theory Miner
  imports Pow_Verify Text_Format
begin

text \<open>
  The control of the solvers: \<open>miner/src/plugin_type.rs\<close>, \<open>plugin.rs\<close>, \<open>shared_data.rs\<close>,
  \<open>solver_instance.rs\<close> and \<open>miner.rs\<close>.  The solvers themselves are plugins in another language: what a run
  of a plugin returns is a parameter.  A channel is the list of messages that were sent and not received
  yet.  A solver thread goes through the phases of \<open>solver_thread\<close>: each access to the shared data is a step of
  its own (\<open>solver_step\<close>), between which other threads may run.  A thread that has left its loop reads no more
  messages; what is sent to it then stays in its queue.
\<close>

section \<open>Plugins\<close>

datatype PluginType = Cuckoo19 | Cuckoo24 | Cuckoo25 | Cuckoo26 | Cuckoo27 | Cuckoo28 | Cuckoo29 | Cuckoo30 | Cuckoo31

fun plugin_repr :: "PluginType \<Rightarrow> nat" where
  "plugin_repr Cuckoo19 = 0"
| "plugin_repr Cuckoo24 = 1"
| "plugin_repr Cuckoo25 = 2"
| "plugin_repr Cuckoo26 = 3"
| "plugin_repr Cuckoo27 = 4"
| "plugin_repr Cuckoo28 = 5"
| "plugin_repr Cuckoo29 = 6"
| "plugin_repr Cuckoo30 = 7"
| "plugin_repr Cuckoo31 = 8"

text \<open>The plugins of the builds without tests.\<close>

definition PLUGINS_CPU_AVX :: "string list" where
  "PLUGINS_CPU_AVX = [''cuckaroo_cpu_avx2_24'', ''cuckaroo_cpu_avx2_25'', ''cuckaroo_cpu_avx2_26'',
     ''cuckaroo_cpu_avx2_27'', ''cuckaroo_cpu_avx2_28'', ''cuckaroo_cpu_avx2_29'', ''cuckaroo_cpu_avx2_30'',
     ''cuckaroo_cpu_avx2_31'']"

definition PLUGINS_CPU :: "string list" where
  "PLUGINS_CPU = [''cuckaroo_cpu_compat_24'', ''cuckaroo_cpu_compat_25'', ''cuckaroo_cpu_compat_26'',
     ''cuckaroo_cpu_compat_27'', ''cuckaroo_cpu_compat_28'', ''cuckaroo_cpu_compat_29'', ''cuckaroo_cpu_compat_30'',
     ''cuckaroo_cpu_compat_31'']"

definition PLUGINS_GPU :: "string list" where
  "PLUGINS_GPU = [''cuckaroo_cuda_19'', ''cuckaroo_cuda_24'', ''cuckaroo_cuda_25'', ''cuckaroo_cuda_26'',
     ''cuckaroo_cuda_27'', ''cuckaroo_cuda_28'', ''cuckaroo_cuda_29'', ''cuckaroo_cuda_30'', ''cuckaroo_cuda_31'']"

section \<open>Solutions and statistics\<close>

definition MAX_NAME_LEN :: nat where
  "MAX_NAME_LEN = 256"

definition MAX_SOLS :: nat where
  "MAX_SOLS = 4"

record Solution =
  sol_id :: u64
  sol_nonce :: u64
  sol_proof :: "u64 list"

definition solution_default :: Solution where
  "solution_default = \<lparr>sol_id = 0, sol_nonce = 0, sol_proof = replicate PROOF_SIZE 0\<rparr>"

definition solution_eq :: "Solution \<Rightarrow> Solution \<Rightarrow> bool" where
  "solution_eq a b \<longleftrightarrow> sol_proof a = sol_proof b"

record SolverSolutions =
  ss_edge_bits :: u32
  num_sols :: u32
  sols :: "Solution list"

definition solutions_default :: SolverSolutions where
  "solutions_default = \<lparr>ss_edge_bits = 0, num_sols = 0, sols = replicate MAX_SOLS solution_default\<rparr>"

record SolverStats =
  device_id :: u32
  stats_edge_bits :: u32
  plugin_name :: "u8 list"
  device_name :: "u8 list"
  has_errored :: bool
  error_reason :: "u8 list"
  iterations :: u32
  last_start_time :: u64
  last_end_time :: u64
  last_solution_time :: u64

definition stats_default :: SolverStats where
  "stats_default = \<lparr>device_id = 0, stats_edge_bits = 0, plugin_name = replicate MAX_NAME_LEN 0,
     device_name = replicate MAX_NAME_LEN 0, has_errored = False, error_reason = replicate MAX_NAME_LEN 0,
     iterations = 0, last_start_time = 0, last_end_time = 0, last_solution_time = 0\<rparr>"

text \<open>
  The first zero byte, or 0 when there is none; the bytes before it have no zero, so \<open>CString::new\<close> takes
  them, and \<open>to_str\<close> panics unless they are text.
\<close>

definition get_name :: "u8 list \<Rightarrow> string option" where
  "get_name c_str = (
     let i = (case find (\<lambda>j. c_str ! j = 0) [0..<length c_str] of Some j \<Rightarrow> j | None \<Rightarrow> 0) in
     from_utf8 (take i c_str))"

definition set_plugin_name :: "string \<Rightarrow> SolverStats \<Rightarrow> SolverStats option" where
  "set_plugin_name name s = (
     let c_vec = as_bytes name in
     if 0 \<in> set c_vec then None
     else do {
       bytes \<leftarrow> foldm (\<lambda>bytes i. index_set bytes i (c_vec ! i)) (plugin_name s) [0..<length c_vec];
       Some (s\<lparr>plugin_name := bytes\<rparr>)
     })"

section \<open>Jobs and the miner\<close>

record JobData =
  job_id :: u32
  job_height :: u64
  job_header :: "u8 list"
  job_difficulty :: u64
  solutions :: "SolverSolutions list"
  stats :: "SolverStats list"

definition job_data_new :: "nat \<Rightarrow> JobData" where
  "job_data_new num_solvers = \<lparr>job_id = 0, job_height = 0, job_header = [], job_difficulty = 1, solutions = [],
     stats = replicate num_solvers stats_default\<rparr>"

datatype ControlMessage = Stop | Pause | Resume | is_SolverStopped: SolverStopped nat

datatype MinerState = MinerStarting | Ready

datatype SolverState = Starting | Paused | Working

text \<open>
  A solver thread: the local variables of \<open>solver_thread\<close>, the place it has come to with what it has read so
  far (header, height, identifier of the job, target difficulty, nonce), and whether the thread it has
  started for the control messages still runs.
\<close>

datatype Phase =
    Spawned | Polling | Naming
  | ReadingHeader
  | ReadingHeight "u8 list"
  | ReadingJob "u8 list" u64
  | ReadingTarget "u8 list" u64 u32
  | Solving "u8 list" u64 u32 u64
  | Checking u64 u32 u64 u64
  | Publishing u32 u64 u64
  | Joining | Exited

record SolverThread =
  th_instance :: nat
  th_phase :: Phase
  th_paused :: bool
  th_iter_count :: u32
  th_stats :: SolverStats
  th_solutions :: SolverSolutions
  th_control :: bool

definition thread_new :: "nat \<Rightarrow> SolverThread" where
  "thread_new i = \<lparr>th_instance = i, th_phase = Spawned, th_paused = True, th_iter_count = 0, th_stats = stats_default,
     th_solutions = solutions_default, th_control = False\<rparr>"

record PurpleMiner =
  configs :: "string list"
  shared_data :: JobData
  control_txs :: "ControlMessage list list"
  solver_loop_txs :: "ControlMessage list list"
  solver_stopped_rxs :: "ControlMessage list list"
  solver_states :: "SolverState list"
  miner_state :: MinerState
  threads :: "SolverThread list"

definition miner_new :: "string list \<Rightarrow> PurpleMiner" where
  "miner_new plugins = \<lparr>configs = plugins, shared_data = job_data_new (length plugins), control_txs = [],
     solver_loop_txs = [], solver_stopped_rxs = [], solver_states = [], miner_state = MinerStarting, threads = []\<rparr>"

definition has_state :: "SolverState \<Rightarrow> PluginType \<Rightarrow> PurpleMiner \<Rightarrow> bool option" where
  "has_state s plugin m = do { state \<leftarrow> index (solver_states m) (plugin_repr plugin); Some (state = s) }"

abbreviation "is_starting \<equiv> has_state Starting"
abbreviation "is_paused \<equiv> has_state Paused"
abbreviation "is_working \<equiv> has_state Working"

text \<open>The parameter loads the library of a plugin; the threads start with the state \<open>Starting\<close>.\<close>

definition start_solvers :: "(string \<Rightarrow> 'e + unit) \<Rightarrow> PurpleMiner \<Rightarrow> ('e + unit) \<times> PurpleMiner" where
  "start_solvers load m = (case find (\<lambda>c. isl (load c)) (configs m) of
       Some c \<Rightarrow> (load c, m)
     | None \<Rightarrow> (Inr (), let n = length (configs m) in m\<lparr>control_txs := control_txs m @ replicate n [],
         solver_loop_txs := solver_loop_txs m @ replicate n [], solver_stopped_rxs := solver_stopped_rxs m @ replicate n [],
         solver_states := solver_states m @ replicate n Starting, threads := threads m @ map thread_new [0..<n],
         miner_state := Ready\<rparr>))"

definition send_all :: "ControlMessage \<Rightarrow> PurpleMiner \<Rightarrow> PurpleMiner" where
  "send_all msg m = m\<lparr>control_txs := map (\<lambda>q. q @ [msg]) (control_txs m),
     solver_loop_txs := map (\<lambda>q. q @ [msg]) (solver_loop_txs m)\<rparr>"

definition stop_solvers :: "PurpleMiner \<Rightarrow> PurpleMiner" where
  "stop_solvers m = send_all Stop m"

definition pause_solvers :: "PurpleMiner \<Rightarrow> PurpleMiner" where
  "pause_solvers m = send_all Pause m"

definition resume_solvers :: "PurpleMiner \<Rightarrow> PurpleMiner" where
  "resume_solvers m = send_all Resume m"

definition resume_solver :: "nat \<Rightarrow> PurpleMiner \<Rightarrow> PurpleMiner option" where
  "resume_solver i m = do {
     q \<leftarrow> index (solver_loop_txs m) i;
     txs \<leftarrow> index_set (solver_loop_txs m) i (q @ [Resume]);
     Some (m\<lparr>solver_loop_txs := txs\<rparr>)
   }"

definition notify :: "u32 \<Rightarrow> u64 \<Rightarrow> u8 list \<Rightarrow> u64 \<Rightarrow> PluginType \<Rightarrow> PurpleMiner \<Rightarrow> PurpleMiner option" where
  "notify job height header difficulty plugin m = (if plugin = Cuckoo19 then None
     else do {
       paused \<leftarrow> is_paused plugin m;
       let new_height = (height \<noteq> job_height (shared_data m) \<and> \<not> paused);
       let m = (if new_height then pause_solvers m else m);
       let paused = (paused \<or> new_height);
       let m = m\<lparr>shared_data := (shared_data m)\<lparr>job_id := job, job_height := height, job_header := header,
         job_difficulty := difficulty\<rparr>\<rparr>;
       if paused then resume_solver (plugin_repr plugin) m else Some m
     })"

definition get_solutions :: "PurpleMiner \<Rightarrow> SolverSolutions option \<times> PurpleMiner" where
  "get_solutions m = (case vec_pop (solutions (shared_data m)) of
       Some (sol, rest) \<Rightarrow> (Some sol, m\<lparr>shared_data := (shared_data m)\<lparr>solutions := rest\<rparr>\<rparr>)
     | None \<Rightarrow> (None, m))"

definition get_stats :: "PurpleMiner \<Rightarrow> SolverStats list" where
  "get_stats m = stats (shared_data m)"

section \<open>The solver threads\<close>

definition set_thread :: "nat \<Rightarrow> SolverThread \<Rightarrow> PurpleMiner \<Rightarrow> PurpleMiner" where
  "set_thread i t m = m\<lparr>threads := (threads m)[i := t]\<rparr>"

definition set_solver_state :: "nat \<Rightarrow> SolverState \<Rightarrow> PurpleMiner \<Rightarrow> PurpleMiner" where
  "set_solver_state i st m = m\<lparr>solver_states := (solver_states m)[i := st]\<rparr>"

text \<open>\<open>s.stats[instance].set_plugin_name(&solver.config.name)\<close>.\<close>

definition name_stats :: "nat \<Rightarrow> PurpleMiner \<Rightarrow> PurpleMiner option" where
  "name_stats instance_id m = do {
     name \<leftarrow> index (configs m) instance_id;
     st \<leftarrow> index (stats (shared_data m)) instance_id;
     st \<leftarrow> set_plugin_name name st;
     sts \<leftarrow> index_set (stats (shared_data m)) instance_id st;
     Some (m\<lparr>shared_data := (shared_data m)\<lparr>stats := sts\<rparr>\<rparr>)
   }"

text \<open>The start of the thread: its solver is marked as paused, and the control thread is started.\<close>

definition solver_init :: "nat \<Rightarrow> SolverThread \<Rightarrow> PurpleMiner \<Rightarrow> PurpleMiner option" where
  "solver_init i t m = do {
     m \<leftarrow> name_stats (th_instance t) m;
     Some (set_thread i (t\<lparr>th_phase := Polling, th_paused := True, th_iter_count := 0, th_control := True\<rparr>)
       (set_solver_state i Paused m))
   }"

text \<open>The control thread: it stops the plugin on \<open>Stop\<close> and \<open>Pause\<close>, and ends on \<open>Stop\<close>.\<close>

definition control_step :: "nat \<Rightarrow> PurpleMiner \<Rightarrow> PurpleMiner option" where
  "control_step i m = do {
     t \<leftarrow> index (threads m) i;
     q \<leftarrow> index (control_txs m) i;
     (if th_control t then (case q of
          [] \<Rightarrow> Some m
        | msg # rest \<Rightarrow>
            let m = m\<lparr>control_txs := (control_txs m)[i := rest]\<rparr> in
            Some (if msg = Stop then set_thread i (t\<lparr>th_control := False\<rparr>) m else m))
      else Some m)
   }"

text \<open>The head of the loop: one message if there is one; \<open>break\<close> on \<open>Stop\<close>, \<open>continue\<close> when paused.\<close>

definition solver_message :: "nat \<Rightarrow> SolverThread \<Rightarrow> PurpleMiner \<Rightarrow> (SolverThread \<times> PurpleMiner) option" where
  "solver_message i t m = do {
     q \<leftarrow> index (solver_loop_txs m) i;
     Some (case q of
         [] \<Rightarrow> (t, m)
       | msg # rest \<Rightarrow>
           let m = m\<lparr>solver_loop_txs := (solver_loop_txs m)[i := rest]\<rparr> in
           (case msg of
              Stop \<Rightarrow> (t\<lparr>th_phase := Joining\<rparr>, m)
            | Pause \<Rightarrow> (t\<lparr>th_paused := True\<rparr>, set_solver_state i Paused m)
            | Resume \<Rightarrow> (t\<lparr>th_paused := False\<rparr>, set_solver_state i Working m)
            | SolverStopped _ \<Rightarrow> (t, m)))
   }"

definition solver_poll :: "nat \<Rightarrow> SolverThread \<Rightarrow> PurpleMiner \<Rightarrow> PurpleMiner option" where
  "solver_poll i t m = do {
     (t, m) \<leftarrow> solver_message i t m;
     Some (set_thread i (if th_phase t = Joining \<or> th_paused t then t else t\<lparr>th_phase := Naming\<rparr>) m)
   }"

text \<open>
  What the thread does with the solutions of one run of its plugin: they are dropped if the height of the
  job has changed, filtered by their difficulty otherwise, marked with the nonce and the job, and queued.
\<close>

definition meets_target :: "bits_get \<Rightarrow> (u8 list \<Rightarrow> u8 list) \<Rightarrow> u64 \<Rightarrow> u32 \<Rightarrow> Solution \<Rightarrow> bool option" where
  "meets_target bits_get hash_slice target bits s = do {
     d \<leftarrow> to_difficulty bits_get hash_slice \<lparr>pf_edge_bits = ucast bits, pf_nonces = sol_proof s\<rparr>;
     Some (target \<le> ucast d)
   }"

fun filter_solutions :: "(Solution \<Rightarrow> bool option) \<Rightarrow> Solution list \<Rightarrow> Solution list option" where
  "filter_solutions ok [] = Some []"
| "filter_solutions ok (s # ss) = do {
     b \<leftarrow> ok s;
     rest \<leftarrow> filter_solutions ok ss;
     Some (if b then s # rest else rest)
   }"

definition queue_solutions ::
  "bits_get \<Rightarrow> (u8 list \<Rightarrow> u8 list) \<Rightarrow> u64 \<Rightarrow> u32 \<Rightarrow> u64 \<Rightarrow> SolverSolutions \<Rightarrow> JobData \<Rightarrow> JobData option" where
  "queue_solutions bits_get hash_slice target job nonce found s =
     (if num_sols found = 0 then Some s
      else if unat (num_sols found) > length (sols found) then None
      else do {
        filtered \<leftarrow> filter_solutions (meets_target bits_get hash_slice target (ss_edge_bits found))
          (take (unat (num_sols found)) (sols found));
        let filtered = map (\<lambda>ss. ss\<lparr>sol_nonce := nonce, sol_id := ucast job\<rparr>) filtered;
        Some (s\<lparr>solutions := solutions s @ [found\<lparr>num_sols := word_of_nat (length filtered),
          sols := filtered @ drop (length filtered) (sols found)\<rparr>]\<rparr>)
      })"

text \<open>The second component of the result: the plugin reported an error and the thread leaves its loop.\<close>

definition publish ::
  "bits_get \<Rightarrow> (u8 list \<Rightarrow> u8 list) \<Rightarrow> nat \<Rightarrow> string \<Rightarrow> u64 \<Rightarrow> u32 \<Rightarrow> u64 \<Rightarrow> u32 \<Rightarrow> SolverStats \<Rightarrow>
    SolverSolutions \<Rightarrow> JobData \<Rightarrow> (JobData \<times> bool) option" where
  "publish bits_get hash_slice instance_id name target job nonce iter_count st found s = do {
     let st = st\<lparr>iterations := iter_count\<rparr>;
     sts \<leftarrow> index_set (stats s) instance_id st;
     s \<leftarrow> queue_solutions bits_get hash_slice target job nonce found (s\<lparr>stats := sts\<rparr>);
     if has_errored st then do {
       st \<leftarrow> set_plugin_name name st;
       sts \<leftarrow> index_set (stats s) instance_id st;
       Some (s\<lparr>stats := sts\<rparr>, True)
     } else Some (s, False)
   }"

text \<open>
  The run of a plugin: its name, the header and the nonce, and the solutions and statistics before and after.
  The end of a turn resets the solutions; after \<open>break\<close> they are not used any more.
\<close>

type_synonym run_solver = "string \<Rightarrow> u8 list \<Rightarrow> u64 \<Rightarrow> SolverSolutions \<times> SolverStats \<Rightarrow> SolverSolutions \<times> SolverStats"

definition solver_run :: "run_solver \<Rightarrow> u64 \<Rightarrow> string \<Rightarrow> SolverThread \<Rightarrow> SolverThread option" where
  "solver_run run nonce name t = (case th_phase t of
       Solving header height job target \<Rightarrow> do {
         let (found, st) = run name header nonce (th_solutions t, th_stats t);
         n \<leftarrow> checked_add (th_iter_count t) 1;
         Some (t\<lparr>th_phase := Checking height job target nonce, th_iter_count := n, th_solutions := found, th_stats := st\<rparr>)
       }
     | _ \<Rightarrow> None)"

definition solver_publish :: "bits_get \<Rightarrow> (u8 list \<Rightarrow> u8 list) \<Rightarrow> nat \<Rightarrow> u32 \<Rightarrow> u64 \<Rightarrow> u64 \<Rightarrow> SolverThread \<Rightarrow>
    PurpleMiner \<Rightarrow> PurpleMiner option" where
  "solver_publish bits_get hash_slice i job target nonce t m = do {
     name \<leftarrow> index (configs m) (th_instance t);
     (s, errored) \<leftarrow> publish bits_get hash_slice (th_instance t) name target job nonce (th_iter_count t) (th_stats t)
       (th_solutions t) (shared_data m);
     Some (set_thread i (t\<lparr>th_phase := (if errored then Joining else Polling), th_solutions := solutions_default\<rparr>)
       (m\<lparr>shared_data := s\<rparr>))
   }"

text \<open>
  \<open>stop_handle.join()\<close> waits until the control thread has ended; then the plugin is unloaded and the end
  reported.
\<close>

definition solver_join :: "nat \<Rightarrow> SolverThread \<Rightarrow> PurpleMiner \<Rightarrow> PurpleMiner option" where
  "solver_join i t m = (if th_control t then Some m
     else do {
       q \<leftarrow> index (solver_stopped_rxs m) i;
       rxs \<leftarrow> index_set (solver_stopped_rxs m) i (q @ [SolverStopped (th_instance t)]);
       Some (set_thread i (t\<lparr>th_phase := Exited\<rparr>) (m\<lparr>solver_stopped_rxs := rxs\<rparr>))
     })"

definition solver_step :: "bits_get \<Rightarrow> (u8 list \<Rightarrow> u8 list) \<Rightarrow> run_solver \<Rightarrow> u64 \<Rightarrow> nat \<Rightarrow> PurpleMiner \<Rightarrow> PurpleMiner option" where
  "solver_step bits_get hash_slice run nonce i m = do {
     t \<leftarrow> index (threads m) i;
     let s = shared_data m;
     (case th_phase t of
        Spawned \<Rightarrow> solver_init i t m
      | Polling \<Rightarrow> solver_poll i t m
      | Naming \<Rightarrow> do { m \<leftarrow> name_stats (th_instance t) m; Some (set_thread i (t\<lparr>th_phase := ReadingHeader\<rparr>) m) }
      | ReadingHeader \<Rightarrow> Some (set_thread i (t\<lparr>th_phase := ReadingHeight (job_header s)\<rparr>) m)
      | ReadingHeight header \<Rightarrow> Some (set_thread i (t\<lparr>th_phase := ReadingJob header (job_height s)\<rparr>) m)
      | ReadingJob header height \<Rightarrow> Some (set_thread i (t\<lparr>th_phase := ReadingTarget header height (job_id s)\<rparr>) m)
      | ReadingTarget header height job \<Rightarrow>
          Some (set_thread i (t\<lparr>th_phase := Solving header height job (job_difficulty s)\<rparr>) m)
      | Solving header height job target \<Rightarrow> do {
          name \<leftarrow> index (configs m) (th_instance t);
          t \<leftarrow> solver_run run nonce name t;
          Some (set_thread i t m)
        }
      | Checking height job target nonce \<Rightarrow>
          Some (set_thread i (if height = job_height s then t\<lparr>th_phase := Publishing job target nonce\<rparr>
            else t\<lparr>th_phase := Polling, th_solutions := solutions_default\<rparr>) m)
      | Publishing job target nonce \<Rightarrow> solver_publish bits_get hash_slice i job target nonce t m
      | Joining \<Rightarrow> solver_join i t m
      | Exited \<Rightarrow> Some m)
   }"

text \<open>Steps of one thread while the others rest; \<open>nonces\<close> are the random numbers it draws.\<close>

fun solver_turns :: "bits_get \<Rightarrow> (u8 list \<Rightarrow> u8 list) \<Rightarrow> run_solver \<Rightarrow> (nat \<Rightarrow> u64) \<Rightarrow> nat \<Rightarrow> nat \<Rightarrow> PurpleMiner \<Rightarrow> PurpleMiner option" where
  "solver_turns bits_get hash_slice run nonces i 0 m = Some m"
| "solver_turns bits_get hash_slice run nonces i (Suc n) m = do {
     m \<leftarrow> solver_turns bits_get hash_slice run nonces i n m;
     solver_step bits_get hash_slice run (nonces n) i m
   }"

text \<open>\<open>wait_for_solver_shutdown\<close> returns when every solver has reported its end.\<close>

definition wait_for_solver_shutdown :: "PurpleMiner \<Rightarrow> PurpleMiner option" where
  "wait_for_solver_shutdown m =
     (if list_all (\<lambda>q. \<exists>msg \<in> set q. is_SolverStopped msg) (solver_stopped_rxs m)
      then Some (m\<lparr>solver_stopped_rxs := map (tl \<circ> dropWhile (\<lambda>msg. \<not> is_SolverStopped msg)) (solver_stopped_rxs m)\<rparr>)
      else None)"

section \<open>Names\<close>

lemma write_name:
  assumes "length xs \<le> length bytes" "k \<le> length xs"
  shows "foldm (\<lambda>bytes i. index_set bytes i (xs ! i)) bytes [0..<k] = Some (take k xs @ drop k bytes)"
  using assms(2)
proof (induction k)
  case (Suc k)
  with assms(1) have "(take k xs @ drop k bytes)[k := xs ! k] = take (Suc k) xs @ drop (Suc k) bytes"
    by (simp add: list_update_append take_Suc_conv_app_nth Cons_nth_drop_Suc[symmetric])
  with Suc assms(1) show ?case by (simp add: foldm_append index_set_def)
qed simp

text \<open>A name is read back unless it fills the buffer.\<close>

lemma plugin_name_roundtrip:
  assumes "0 \<notin> set (as_bytes name)" "length name < 256" "from_utf8 (as_bytes name) = Some name"
  shows "\<exists>s. set_plugin_name name stats_default = Some s \<and> get_name (plugin_name s) = Some name"
proof -
  let ?n = "length name" and ?b = "as_bytes name"
  have len: "length ?b = ?n" by (simp add: as_bytes_def)
  let ?bytes = "?b @ replicate (256 - ?n) 0"
  have "set_plugin_name name stats_default = Some (stats_default\<lparr>plugin_name := ?bytes\<rparr>)"
    using assms(1,2) write_name[of ?b "replicate 256 0" ?n] len
    by (simp add: set_plugin_name_def stats_default_def MAX_NAME_LEN_def Let_def)
  moreover have "find (\<lambda>j. ?bytes ! j = 0) [0..<length ?bytes] = Some ?n"
    unfolding find_Some_iff using assms(1,2) len
    by (intro exI[of _ ?n]) (auto simp: nth_append in_set_conv_nth)
  then have "get_name ?bytes = Some name" using assms(3) len by (simp add: get_name_def)
  ultimately show ?thesis by auto
qed

end
