(* ===== verification/Miner_Props.thy ===== *)
theory Miner_Props
  imports Miner
begin

text \<open>
  The miner with its solver threads as a transition system: the operations of \<open>PurpleMiner\<close>, the steps of the
  solver threads and of their control threads, in any order.  The invariant \<open>miner_ok\<close> ties the state
  that \<open>notify\<close> reads to the flag of the thread, and says that no index and no plugin name is out of range.
\<close>

section \<open>Steps\<close>

inductive miner_step :: "bits_get \<Rightarrow> (u8 list \<Rightarrow> u8 list) \<Rightarrow> run_solver \<Rightarrow> PurpleMiner \<Rightarrow> PurpleMiner \<Rightarrow> bool"
  for g :: bits_get and H :: "u8 list \<Rightarrow> u8 list" and run :: run_solver where
  start: "start_solvers (load :: string \<Rightarrow> unit + unit) m = (r, m') \<Longrightarrow> miner_step g H run m m'"
| solve: "solver_step g H run nonce i m = Some m' \<Longrightarrow> miner_step g H run m m'"
| control: "control_step i m = Some m' \<Longrightarrow> miner_step g H run m m'"
| notify: "notify job height header difficulty plugin m = Some m' \<Longrightarrow> miner_step g H run m m'"
| stop: "miner_step g H run m (stop_solvers m)"
| pause: "miner_step g H run m (pause_solvers m)"
| resume: "miner_step g H run m (resume_solvers m)"
| resume_one: "resume_solver i m = Some m' \<Longrightarrow> miner_step g H run m m'"
| collect: "get_solutions m = (r, m') \<Longrightarrow> miner_step g H run m m'"
| shutdown: "wait_for_solver_shutdown m = Some m' \<Longrightarrow> miner_step g H run m m'"

abbreviation miner_runs :: "bits_get \<Rightarrow> (u8 list \<Rightarrow> u8 list) \<Rightarrow> run_solver \<Rightarrow> PurpleMiner \<Rightarrow> PurpleMiner \<Rightarrow> bool" where
  "miner_runs g H run \<equiv> (miner_step g H run)\<^sup>*\<^sup>*"

text \<open>The name field of the statistics is an array of 256 bytes, also after a run of a plugin.\<close>

definition typed_stats :: "SolverStats \<Rightarrow> bool" where
  "typed_stats st \<longleftrightarrow> length (plugin_name st) = MAX_NAME_LEN"

definition typed_run :: "run_solver \<Rightarrow> bool" where
  "typed_run run \<longleftrightarrow> (\<forall>name header nonce found st. typed_stats st \<longrightarrow> typed_stats (snd (run name header nonce (found, st))))"

definition name_fine :: "string \<Rightarrow> bool" where
  "name_fine name \<longleftrightarrow> 0 \<notin> set (as_bytes name) \<and> length name \<le> MAX_NAME_LEN"

section \<open>The invariant\<close>

definition thread_ok :: "PurpleMiner \<Rightarrow> nat \<Rightarrow> bool" where
  "thread_ok m i \<longleftrightarrow> (let t = threads m ! i in th_instance t < length (configs m) \<and> typed_stats (th_stats t) \<and>
     solver_states m ! i = (if th_phase t = Spawned then Starting else if th_paused t then Paused else Working))"

definition miner_ok :: "PurpleMiner \<Rightarrow> bool" where
  "miner_ok m \<longleftrightarrow> length (solver_states m) = length (threads m) \<and> length (solver_loop_txs m) = length (threads m) \<and>
     length (control_txs m) = length (threads m) \<and> length (solver_stopped_rxs m) = length (threads m) \<and>
     length (stats (shared_data m)) = length (configs m) \<and> list_all name_fine (configs m) \<and>
     list_all typed_stats (stats (shared_data m)) \<and> (\<forall>i < length (threads m). thread_ok m i)"

lemma miner_new_ok: "list_all name_fine plugins \<Longrightarrow> miner_ok (miner_new plugins)"
  by (simp add: miner_ok_def miner_new_def job_data_new_def stats_default_def typed_stats_def list_all_iff)

lemma list_all_update: "list_all P xs \<Longrightarrow> P x \<Longrightarrow> list_all P (xs[i := x])"
  by (auto simp: list_all_iff dest: set_update_subset_insert[THEN subsetD])

text \<open>Operations that keep everything the invariant speaks about but the queues.\<close>

lemma miner_ok_queues:
  assumes "miner_ok m" "configs m' = configs m" "solver_states m' = solver_states m" "threads m' = threads m"
    "stats (shared_data m') = stats (shared_data m)" "length (solver_loop_txs m') = length (solver_loop_txs m)"
    "length (control_txs m') = length (control_txs m)" "length (solver_stopped_rxs m') = length (solver_stopped_rxs m)"
  shows "miner_ok m'"
  using assms by (simp add: miner_ok_def thread_ok_def)

lemma send_all_ok: "miner_ok m \<Longrightarrow> miner_ok (send_all msg m)"
  by (erule miner_ok_queues) (simp_all add: send_all_def)

lemma resume_solver_ok: "resume_solver i m = Some m' \<Longrightarrow> miner_ok m \<Longrightarrow> miner_ok m'"
  by (erule miner_ok_queues) (auto simp: resume_solver_def bind_eq_Some_conv index_set_def split: if_split_asm)

lemma notify_ok:
  assumes "notify job height header difficulty plugin m = Some m'" "miner_ok m"
  shows "miner_ok m'"
  using assms(1)
  by (intro miner_ok_queues[OF assms(2)])
    (auto simp: notify_def resume_solver_def pause_solvers_def send_all_def bind_eq_Some_conv index_set_def Let_def
      split: if_split_asm)

lemma start_solvers_ok:
  assumes "start_solvers load m = (r, m')" "miner_ok m"
  shows "miner_ok m'"
proof (cases "find (\<lambda>c. isl (load c)) (configs m)")
  case None
  with assms(1) have m': "m' = m\<lparr>control_txs := control_txs m @ replicate (length (configs m)) [],
      solver_loop_txs := solver_loop_txs m @ replicate (length (configs m)) [],
      solver_stopped_rxs := solver_stopped_rxs m @ replicate (length (configs m)) [],
      solver_states := solver_states m @ replicate (length (configs m)) Starting,
      threads := threads m @ map thread_new [0..<length (configs m)], miner_state := Ready\<rparr>"
    by (simp add: start_solvers_def Let_def)
  have "thread_ok m' i" if "i < length (threads m')" for i
  proof (cases "i < length (threads m)")
    case True
    with assms(2) show ?thesis by (simp add: m' miner_ok_def thread_ok_def nth_append)
  next
    case False
    with that assms(2) show ?thesis
      by (simp add: m' miner_ok_def thread_ok_def nth_append thread_new_def stats_default_def typed_stats_def)
  qed
  with assms(2) show ?thesis by (simp add: m' miner_ok_def)
qed (use assms in \<open>simp add: start_solvers_def\<close>)

lemma set_plugin_name_fine:
  assumes "name_fine name" "typed_stats st"
  obtains st' where "set_plugin_name name st = Some st'" "typed_stats st'"
proof -
  have "length (as_bytes name) = length name" by (simp add: as_bytes_def)
  with assms write_name[of "as_bytes name" "plugin_name st" "length (as_bytes name)"]
  have "foldm (\<lambda>bytes i. index_set bytes i (as_bytes name ! i)) (plugin_name st) [0..<length (as_bytes name)] =
      Some (as_bytes name @ drop (length name) (plugin_name st))"
    by (simp add: name_fine_def typed_stats_def)
  with assms show thesis
    by (intro that[of "st\<lparr>plugin_name := as_bytes name @ drop (length name) (plugin_name st)\<rparr>"])
      (simp_all add: set_plugin_name_def name_fine_def typed_stats_def as_bytes_def Let_def)
qed

lemma set_plugin_name_typed: "set_plugin_name name st = Some st' \<Longrightarrow> typed_stats st \<Longrightarrow> typed_stats st'"
proof -
  assume "set_plugin_name name st = Some st'" "typed_stats st"
  moreover have "foldm (\<lambda>bytes i. index_set bytes i (xs ! i)) ys is = Some zs \<Longrightarrow> length zs = length ys" for xs ys zs :: "u8 list" and "is"
    by (induction "is" arbitrary: ys) (auto simp: bind_eq_Some_conv index_set_def split: if_split_asm)
  ultimately show ?thesis
    by (auto simp: set_plugin_name_def Let_def bind_eq_Some_conv typed_stats_def split: if_split_asm)
qed

lemma name_stats_fine:
  assumes "miner_ok m" "j < length (configs m)"
  obtains sts where "name_stats j m = Some (m\<lparr>shared_data := (shared_data m)\<lparr>stats := sts\<rparr>\<rparr>)"
proof -
  from assms have "name_fine (configs m ! j)" "typed_stats (stats (shared_data m) ! j)" "j < length (stats (shared_data m))"
    by (simp_all add: miner_ok_def list_all_length)
  note j = this
  obtain st where "set_plugin_name (configs m ! j) (stats (shared_data m) ! j) = Some st"
    by (rule set_plugin_name_fine[OF j(1,2)])
  with j(3) assms(2) have "name_stats j m = Some (m\<lparr>shared_data := (shared_data m)\<lparr>stats := (stats (shared_data m))[j := st]\<rparr>\<rparr>)"
    by (simp add: name_stats_def index_set_def)
  then show thesis by (rule that)
qed

lemma name_stats_ok:
  assumes "name_stats j m = Some m'"
  shows "miner_ok m \<Longrightarrow> miner_ok m'" "threads m' = threads m" "solver_states m' = solver_states m"
    "solver_loop_txs m' = solver_loop_txs m" "configs m' = configs m"
proof -
  from assms obtain st st' where st: "index (stats (shared_data m)) j = Some st" "set_plugin_name (configs m ! j) st = Some st'"
    and m': "m' = m\<lparr>shared_data := (shared_data m)\<lparr>stats := (stats (shared_data m))[j := st']\<rparr>\<rparr>"
    by (auto simp: name_stats_def bind_eq_Some_conv index_set_def split: if_split_asm)
  from m' show "threads m' = threads m" "solver_states m' = solver_states m" "solver_loop_txs m' = solver_loop_txs m"
    "configs m' = configs m" by simp_all
  assume ok: "miner_ok m"
  with st(1) have "typed_stats st" by (auto simp: miner_ok_def list_all_length)
  from set_plugin_name_typed[OF st(2) this] ok show "miner_ok m'"
    by (auto simp: m' miner_ok_def thread_ok_def list_all_update)
qed

text \<open>A step of thread \<open>i\<close> changes its own entry and its own state.\<close>

lemma thread_update_ok:
  assumes "miner_ok m" "i < length (threads m)" "configs m' = configs m" "stats (shared_data m') = stats (shared_data m)"
    "threads m' = (threads m)[i := t]" "length (solver_states m') = length (solver_states m)"
    "\<And>j. j \<noteq> i \<Longrightarrow> solver_states m' ! j = solver_states m ! j"
    "length (solver_loop_txs m') = length (solver_loop_txs m)" "length (control_txs m') = length (control_txs m)"
    "length (solver_stopped_rxs m') = length (solver_stopped_rxs m)"
    "th_instance t = th_instance (threads m ! i)" "typed_stats (th_stats t)"
    "solver_states m' ! i = (if th_phase t = Spawned then Starting else if th_paused t then Paused else Working)"
  shows "miner_ok m'"
proof -
  have inst: "th_instance (threads m ! i) < length (configs m)"
    using assms(1,2) by (auto simp: miner_ok_def thread_ok_def Let_def)
  have "thread_ok m' j" if "j < length (threads m)" for j
  proof (cases "j = i")
    case True
    with assms(2,3,5,11-13) inst show ?thesis by (simp add: thread_ok_def Let_def)
  next
    case False
    from assms(1) that have "thread_ok m j" by (simp add: miner_ok_def)
    with False assms(3,5,7) show ?thesis by (simp add: thread_ok_def Let_def)
  qed
  with assms(1,3-6,8-10) show ?thesis by (simp add: miner_ok_def)
qed

lemma miner_ok_thread:
  assumes "miner_ok m" "index (threads m) i = Some t"
  shows "i < length (threads m)" "threads m ! i = t" "th_instance t < length (configs m)" "typed_stats (th_stats t)"
    "solver_states m ! i = (if th_phase t = Spawned then Starting else if th_paused t then Paused else Working)"
    "i < length (solver_states m)" "i < length (solver_loop_txs m)"
  using assms by (auto simp: miner_ok_def thread_ok_def Let_def)

lemma set_thread_ok:
  assumes "miner_ok m" "index (threads m) i = Some t" "th_instance t' = th_instance t" "typed_stats (th_stats t')"
    "th_phase t' \<noteq> Spawned" "th_phase t \<noteq> Spawned" "th_paused t' = th_paused t"
  shows "miner_ok (set_thread i t' m)"
proof -
  note t = miner_ok_thread[OF assms(1,2)]
  show ?thesis
    by (rule thread_update_ok[OF assms(1) t(1), where t = t'])
      (use assms t in \<open>simp_all add: set_thread_def\<close>)
qed

lemma solver_message_cases:
  assumes "solver_message i t m = Some (t', m')"
  obtains (none) "solver_loop_txs m ! i = []" "t' = t" "m' = m"
  | (message) msg rest st where "solver_loop_txs m ! i = msg # rest" "i < length (solver_loop_txs m)"
      "m' = m\<lparr>solver_loop_txs := (solver_loop_txs m)[i := rest], solver_states := st\<rparr>"
      "(t', st) = (case msg of Stop \<Rightarrow> (t\<lparr>th_phase := Joining\<rparr>, solver_states m)
         | Pause \<Rightarrow> (t\<lparr>th_paused := True\<rparr>, (solver_states m)[i := Paused])
         | Resume \<Rightarrow> (t\<lparr>th_paused := False\<rparr>, (solver_states m)[i := Working])
         | SolverStopped _ \<Rightarrow> (t, solver_states m))"
proof -
  from assms obtain q where q: "index (solver_loop_txs m) i = Some q"
    by (auto simp: solver_message_def bind_eq_Some_conv)
  show thesis
  proof (cases q)
    case Nil
    with q assms show thesis by (intro none) (simp_all add: solver_message_def)
  next
    case (Cons msg rest)
    with q assms show thesis
      by (intro message[of msg rest "solver_states m'"]; cases msg)
        (auto simp: solver_message_def set_solver_state_def)
  qed
qed

lemma solver_poll_ok:
  assumes "solver_poll i t m = Some m'" "miner_ok m" "index (threads m) i = Some t" "th_phase t = Polling"
  shows "miner_ok m'"
proof -
  note t = miner_ok_thread[OF assms(2,3)]
  from assms(1) obtain t1 m1 where msg: "solver_message i t m = Some (t1, m1)"
    and m': "m' = set_thread i (if th_phase t1 = Joining \<or> th_paused t1 then t1 else t1\<lparr>th_phase := Naming\<rparr>) m1"
    by (auto simp: solver_poll_def bind_eq_Some_conv)
  from msg show ?thesis
  proof (cases rule: solver_message_cases)
    case none
    show ?thesis unfolding m' none(2,3)
      by (rule set_thread_ok[OF assms(2,3)]) (use t assms(4) in auto)
  next
    case (message msg rest st)
    have t1: "st ! i = (if th_paused t1 then Paused else Working)" "th_phase t1 \<noteq> Spawned" "length st = length (solver_states m)"
        "th_instance t1 = th_instance t" "th_stats t1 = th_stats t" "j \<noteq> i \<Longrightarrow> st ! j = solver_states m ! j" for j
      using message(4) t assms(4) by (cases msg; simp)+
    let ?t = "if th_phase t1 = Joining \<or> th_paused t1 then t1 else t1\<lparr>th_phase := Naming\<rparr>"
    show ?thesis
      by (rule thread_update_ok[OF assms(2) t(1), where t = ?t])
        (use t t1 in \<open>simp_all add: m' message(3) set_thread_def\<close>)
  qed
qed


lemma queue_solutions_stats: "queue_solutions g H target job nonce found s = Some s' \<Longrightarrow> stats s' = stats s"
  by (auto simp: queue_solutions_def Let_def bind_eq_Some_conv split: if_split_asm)

lemma publish_typed:
  assumes "publish g H j name target job nonce n st found s = Some (s', errored)" "list_all typed_stats (stats s)" "typed_stats st"
  shows "list_all typed_stats (stats s')" "length (stats s') = length (stats s)"
proof -
  let ?st = "st\<lparr>iterations := n\<rparr>"
  have st: "typed_stats ?st" using assms(3) by (simp add: typed_stats_def)
  from assms(1) obtain d where q: "queue_solutions g H target job nonce found (s\<lparr>stats := (stats s)[j := ?st]\<rparr>) = Some d"
    and r: "s' = d \<or> (\<exists>st'. set_plugin_name name ?st = Some st' \<and> s' = d\<lparr>stats := (stats d)[j := st']\<rparr>)"
    by (auto simp: publish_def Let_def bind_eq_Some_conv index_set_def split: if_split_asm)
  from queue_solutions_stats[OF q] have d: "stats d = (stats s)[j := ?st]" by simp
  with r set_plugin_name_typed[OF _ st] assms(2) st show "list_all typed_stats (stats s')" "length (stats s') = length (stats s)"
    by (auto intro!: list_all_update)
qed

lemma miner_ok_stats:
  assumes "miner_ok m" "list_all typed_stats (stats s)" "length (stats s) = length (stats (shared_data m))"
  shows "miner_ok (m\<lparr>shared_data := s\<rparr>)"
  using assms by (simp add: miner_ok_def thread_ok_def)

lemma solver_init_ok:
  assumes "solver_init i t m = Some m'" "miner_ok m" "index (threads m) i = Some t"
  shows "miner_ok m'"
proof -
  from assms(1) obtain m1 where n: "name_stats (th_instance t) m = Some m1"
    and m': "m' = set_thread i (t\<lparr>th_phase := Polling, th_paused := True, th_iter_count := 0, th_control := True\<rparr>)
       (set_solver_state i Paused m1)"
    by (auto simp: solver_init_def bind_eq_Some_conv)
  note ok = name_stats_ok[OF n]
  have t: "index (threads m1) i = Some t" using assms(3) ok(2) by simp
  show ?thesis
    by (rule thread_update_ok[OF ok(1)[OF assms(2)], where i = i and
          t = "t\<lparr>th_phase := Polling, th_paused := True, th_iter_count := 0, th_control := True\<rparr>"])
      (use miner_ok_thread[OF ok(1)[OF assms(2)] t] in \<open>simp_all add: m' set_thread_def set_solver_state_def\<close>)
qed

lemma solver_publish_ok:
  assumes "solver_publish g H i job target nonce t m = Some m'" "miner_ok m" "index (threads m) i = Some t" "th_phase t \<noteq> Spawned"
  shows "miner_ok m'"
proof -
  note t = miner_ok_thread[OF assms(2,3)]
  from assms(1) obtain name s errored where
    p: "publish g H (th_instance t) name target job nonce (th_iter_count t) (th_stats t) (th_solutions t) (shared_data m) = Some (s, errored)"
    and m': "m' = set_thread i (t\<lparr>th_phase := (if errored then Joining else Polling), th_solutions := solutions_default\<rparr>)
       (m\<lparr>shared_data := s\<rparr>)"
    by (auto simp: solver_publish_def bind_eq_Some_conv)
  have "list_all typed_stats (stats (shared_data m))" using assms(2) by (simp add: miner_ok_def)
  from publish_typed[OF p this t(4)] have "miner_ok (m\<lparr>shared_data := s\<rparr>)" by (intro miner_ok_stats[OF assms(2)])
  then show ?thesis unfolding m' by (rule set_thread_ok[where t = t]) (use assms(3,4) t in simp_all)
qed

lemma solver_join_ok:
  assumes "solver_join i t m = Some m'" "miner_ok m" "index (threads m) i = Some t" "th_phase t \<noteq> Spawned"
  shows "miner_ok m'"
proof (cases "th_control t")
  case False
  with assms(1) obtain q where m': "m' = set_thread i (t\<lparr>th_phase := Exited\<rparr>)
      (m\<lparr>solver_stopped_rxs := (solver_stopped_rxs m)[i := q]\<rparr>)"
    by (auto simp: solver_join_def bind_eq_Some_conv index_set_def split: if_split_asm)
  have "miner_ok (m\<lparr>solver_stopped_rxs := (solver_stopped_rxs m)[i := q]\<rparr>)"
    by (rule miner_ok_queues[OF assms(2)]) simp_all
  then show ?thesis unfolding m'
    by (rule set_thread_ok[where t = t]) (use assms(3,4) miner_ok_thread[OF assms(2,3)] in simp_all)
qed (use assms in \<open>simp add: solver_join_def\<close>)

lemma solver_step_ok:
  assumes "solver_step g H run nonce i m = Some m'" "miner_ok m" "typed_run run"
  shows "miner_ok m'"
proof -
  from assms(1) obtain t where t: "index (threads m) i = Some t" by (auto simp: solver_step_def bind_eq_Some_conv)
  note thread = miner_ok_thread[OF assms(2) t]
  have set: "miner_ok (set_thread i t' m)" if "th_instance t' = th_instance t" "typed_stats (th_stats t')"
    "th_phase t' \<noteq> Spawned" "th_phase t \<noteq> Spawned" "th_paused t' = th_paused t" for t'
    using set_thread_ok[OF assms(2) t] that by blast
  show ?thesis
  proof (cases "th_phase t")
    case Spawned
    with assms(1) t solver_init_ok[OF _ assms(2) t] show ?thesis by (simp add: solver_step_def)
  next
    case Polling
    with assms(1) t solver_poll_ok[OF _ assms(2) t] show ?thesis by (simp add: solver_step_def)
  next
    case Naming
    with assms(1) t obtain m1 where n: "name_stats (th_instance t) m = Some m1" "m' = set_thread i (t\<lparr>th_phase := ReadingHeader\<rparr>) m1"
      by (auto simp: solver_step_def bind_eq_Some_conv)
    note ok = name_stats_ok[OF n(1)]
    from Naming t thread show ?thesis unfolding n(2)
      by (intro set_thread_ok[OF ok(1)[OF assms(2)], where t = t]) (simp_all add: ok(2))
  next
    case (Solving header height job target)
    with assms(1) t obtain name t' where t': "solver_run run nonce name t = Some t'" "m' = set_thread i t' m"
      by (auto simp: solver_step_def bind_eq_Some_conv)
    moreover have "typed_stats (snd (run name header nonce (th_solutions t, th_stats t)))"
      using assms(3) thread(4) by (simp add: typed_run_def)
    ultimately show ?thesis using Solving
      by (auto simp: solver_run_def bind_eq_Some_conv Let_def split: prod.split_asm intro!: set)
  next
    case (Publishing job target n)
    with assms(1) t solver_publish_ok[OF _ assms(2) t] show ?thesis by (simp add: solver_step_def)
  next
    case Joining
    with assms(1) t solver_join_ok[OF _ assms(2) t] show ?thesis by (simp add: solver_step_def)
  qed (use assms(1,2) t thread(4) in \<open>auto simp: solver_step_def split: if_split_asm intro!: set\<close>)
qed

lemma control_step_ok:
  assumes "control_step i m = Some m'" "miner_ok m"
  shows "miner_ok m'"
proof -
  from assms(1) obtain t where t: "index (threads m) i = Some t" by (auto simp: control_step_def bind_eq_Some_conv)
  let ?m = "\<lambda>rest. m\<lparr>control_txs := (control_txs m)[i := rest]\<rparr>"
  have q: "miner_ok (?m rest)" for rest by (rule miner_ok_queues[OF assms(2)]) simp_all
  note thread = miner_ok_thread[OF assms(2) t]
  have "miner_ok (set_thread i (t\<lparr>th_control := False\<rparr>) (?m rest))" for rest
    by (rule thread_update_ok[OF q, where i = i and t = "t\<lparr>th_control := False\<rparr>" and rest1 = rest])
      (use thread in \<open>simp_all add: set_thread_def\<close>)
  with assms t q show ?thesis
    by (auto simp: control_step_def bind_eq_Some_conv Let_def split: if_split_asm list.split_asm)
qed

lemma miner_step_ok:
  assumes "miner_step g H run m m'" "typed_run run" "miner_ok m"
  shows "miner_ok m'"
  using assms
proof cases
  case (collect r)
  from collect assms(3) show ?thesis
    by (intro miner_ok_queues[OF assms(3)]) (auto simp: get_solutions_def split: option.split_asm)
next
  case shutdown
  then show ?thesis
    by (intro miner_ok_queues[OF assms(3)]) (auto simp: wait_for_solver_shutdown_def split: if_split_asm)
qed (use assms(2,3) start_solvers_ok solver_step_ok control_step_ok notify_ok send_all_ok resume_solver_ok in
    \<open>auto simp: stop_solvers_def pause_solvers_def resume_solvers_def\<close>)

lemma miner_runs_ok:
  assumes "miner_runs g H run m m'" "typed_run run" "miner_ok m"
  shows "miner_ok m'"
  using assms(1) by induction (use assms(2,3) miner_step_ok in blast)+


section \<open>Waking a solver\<close>

text \<open>From the head of the loop to the next run of the plugin.\<close>

lemma set_thread_simps [simp]:
  "i < length (threads m) \<Longrightarrow> threads (set_thread i t m) ! i = t" "shared_data (set_thread i t m) = shared_data m"
  "configs (set_thread i t m) = configs m" "solver_loop_txs (set_thread i t m) = solver_loop_txs m"
  "solver_states (set_thread i t m) = solver_states m" "length (threads (set_thread i t m)) = length (threads m)"
  by (simp_all add: set_thread_def)

lemma naming_to_solving:
  assumes "solver_turns g H run nonces i k m0 = Some m" "miner_ok m" "index (threads m) i = Some t" "th_phase t = Naming"
    "job_header (shared_data m) = header" "job_height (shared_data m) = height" "job_id (shared_data m) = job"
    "job_difficulty (shared_data m) = target" "\<not> th_paused t"
  shows "\<exists>n m'. solver_turns g H run nonces i n m0 = Some m' \<and> solver_states m' ! i = Working \<and>
    (\<exists>t'. index (threads m') i = Some t' \<and> th_phase t' = Solving header height job target)"
proof -
  note t = miner_ok_thread[OF assms(2,3)]
  from name_stats_fine[OF assms(2) t(3)] obtain sts where
    n: "name_stats (th_instance t) m = Some (m\<lparr>shared_data := (shared_data m)\<lparr>stats := sts\<rparr>\<rparr>)" (is "_ = Some ?m") .
  have "solver_turns g H run nonces i (Suc (Suc (Suc (Suc (Suc k))))) m0 =
      Some (set_thread i (t\<lparr>th_phase := Solving header height job target\<rparr>) ?m)"
    using assms t(1) n by (simp add: solver_step_def set_thread_def)
  moreover have "solver_states (set_thread i (t\<lparr>th_phase := Solving header height job target\<rparr>) ?m) ! i = Working"
    using t(5) assms(4,9) by simp
  moreover have "index (threads (set_thread i (t\<lparr>th_phase := Solving header height job target\<rparr>) ?m)) i =
      Some (t\<lparr>th_phase := Solving header height job target\<rparr>)" using t(1) by (simp add: set_thread_def)
  ultimately show ?thesis by (intro exI conjI) (assumption, assumption, assumption, simp)
qed

lemma polling_to_solving:
  assumes "solver_turns g H run nonces i k m0 = Some m" "miner_ok m" "index (threads m) i = Some t" "th_phase t = Polling"
    "solver_loop_txs m ! i = msgs @ [Resume]" "Stop \<notin> set msgs" "typed_run run"
    "job_header (shared_data m) = header" "job_height (shared_data m) = height" "job_id (shared_data m) = job"
    "job_difficulty (shared_data m) = target"
  shows "\<exists>n m'. solver_turns g H run nonces i n m0 = Some m' \<and> solver_states m' ! i = Working \<and>
    (\<exists>t'. index (threads m') i = Some t' \<and> th_phase t' = Solving header height job target)"
  using assms
proof (induction msgs arbitrary: k m t)
  case (Nil k m t)
  note t = miner_ok_thread[OF Nil.prems(2,3)]
  let ?m = "set_thread i (t\<lparr>th_paused := False, th_phase := Naming\<rparr>)
     (set_solver_state i Working (m\<lparr>solver_loop_txs := (solver_loop_txs m)[i := []]\<rparr>))"
  have step: "solver_step g H run (nonces k) i m = Some ?m"
    using Nil.prems(3-5) t by (simp add: solver_step_def solver_poll_def solver_message_def)
  have ok: "miner_ok ?m" using solver_step_ok[OF step Nil.prems(2,7)] .
  have run: "solver_turns g H run nonces i (Suc k) m0 = Some ?m" using Nil.prems(1) step by simp
  show ?case
    by (rule naming_to_solving[OF run ok, where t = "t\<lparr>th_paused := False, th_phase := Naming\<rparr>"])
      (use Nil.prems t in \<open>simp_all add: set_solver_state_def\<close>)
next
  case (Cons msg msgs k m t)
  note t = miner_ok_thread[OF Cons.prems(2,3)]
  obtain t1 m1 where msg: "solver_message i t m = Some (t1, m1)" "th_phase t1 = Polling" "solver_loop_txs m1 ! i = msgs @ [Resume]"
      "shared_data m1 = shared_data m" "length (threads m1) = length (threads m)"
    using Cons.prems(3-6) t by (cases msg) (auto simp: solver_message_def set_solver_state_def)
  let ?t = "if th_paused t1 then t1 else t1\<lparr>th_phase := Naming\<rparr>"
  have step: "solver_step g H run (nonces k) i m = Some (set_thread i ?t m1)"
    using Cons.prems(3,4) msg(1,2) by (simp add: solver_step_def solver_poll_def)
  have run: "solver_turns g H run nonces i (Suc k) m0 = Some (set_thread i ?t m1)" using Cons.prems(1) step by simp
  note ok = solver_step_ok[OF step Cons.prems(2,7)]
  show ?case
  proof (cases "th_paused t1")
    case True
    show ?thesis
      by (rule Cons.IH[OF run ok, of t1]) (use True Cons.prems t msg in simp_all)
  next
    case False
    show ?thesis
      by (rule naming_to_solving[OF run ok, of ?t]) (use False Cons.prems t msg in simp_all)
  qed
qed

lemma notify_resumes:
  assumes "notify job height header difficulty plugin m = Some m'" "i = plugin_repr plugin"
    "solver_states m ! i = Paused \<or> height \<noteq> job_height (shared_data m)"
  shows "\<exists>msgs. solver_loop_txs m' ! i = solver_loop_txs m ! i @ msgs @ [Resume] \<and> set msgs \<subseteq> {Pause} \<and> threads m' = threads m \<and>
    job_id (shared_data m') = job \<and> job_height (shared_data m') = height \<and> job_header (shared_data m') = header \<and>
    job_difficulty (shared_data m') = difficulty"
  using assms
  by (auto simp: notify_def has_state_def resume_solver_def pause_solvers_def send_all_def bind_eq_Some_conv Let_def
      index_set_def index_eq_Some_iff split: if_split_asm)

section \<open>Threads that have left their loop\<close>

text \<open>
  Such a thread stays out of it; the steps it still takes do not touch the shared data, the states or the
  messages to the solvers.
\<close>

definition has_left :: "SolverThread \<Rightarrow> bool" where
  "has_left t \<longleftrightarrow> th_phase t \<in> {Joining, Exited}"

lemma left_step:
  assumes "solver_step g H run nonce i m = Some m'" "index (threads m) i = Some t" "has_left t"
  shows "shared_data m' = shared_data m \<and> solver_states m' = solver_states m \<and> solver_loop_txs m' = solver_loop_txs m \<and>
    (\<exists>t'. index (threads m') i = Some t' \<and> has_left t')"
  using assms
  by (auto simp: solver_step_def has_left_def solver_join_def set_thread_def bind_eq_Some_conv split: if_split_asm)

end
