(* ===== verification/Miner_Theorems.thy ===== *)
theory Miner_Theorems
  imports Miner_Props
begin

unbundle bit_operations_syntax

text \<open>The properties of the proof of work and of the control of the solvers.\<close>

section \<open>Proofs of work\<close>

text \<open>A test vector of the source.\<close>

lemma siphash_vector: "siphash24 (1, 2, 3, 4) 10 = 928382149599306901"
  by code_simp

text \<open>
  C29.  The walk over the edges of a proof always ends, and it accepts exactly the cycles: for every array of
  endpoints it returns, and it returns success just when two edges meet at every node and the edges are
  connected, that is when all of them form one cycle.
\<close>

theorem cycle_check_is_exact:
  assumes "0 < n" "length uvs = 2 * n"
  shows "(\<exists>r. check_cycle n uvs = Some r) \<and> (check_cycle n uvs = Some (Inr ()) \<longleftrightarrow> is_cycle n uvs)"
  using check_cycle_iff[OF assms] by blast

theorem cycle_check_is_exact_witness:
  "check_cycle 4 [10, 20, 10, 21, 11, 21, 11, 20] = Some (Inr ()) \<and> is_cycle 4 [10, 20, 10, 21, 11, 21, 11, 20] \<and>
   \<not> is_cycle 4 [10, 20, 10, 20, 11, 21, 11, 21]"
proof -
  have "check_cycle 4 [10, 20, 10, 21, 11, 21, 11, 20] = Some (Inr ())"
    "check_cycle 4 [10, 20, 10, 20, 11, 21, 11, 21] = Some (Inl (Verification ''cycle too short''))" by code_simp+
  with cycle_check_is_exact[of 4 "[10, 20, 10, 21, 11, 21, 11, 20]"]
    cycle_check_is_exact[of 4 "[10, 20, 10, 20, 11, 21, 11, 21]"] show ?thesis by simp
qed

text \<open>
  C30.  \<open>verify\<close> accepts exactly the valid proofs of work of a header.  Whenever the difficulty of the proof can be
  computed it returns, whatever the global contexts hold from earlier headers, and accepts just the proofs
  of 42 nonces that are in range and strictly ascending, with supported edge bits and enough
  difficulty, whose edges for the keys of this header and nonce are one cycle.
\<close>

theorem verify_accepts_proofs_of_work:
  assumes "contexts_ok ctxs" "create_siphash_keys H (header @ encode_le_u32 nonce) = Inr keys" "to_difficulty g H p = Some d"
  shows "\<exists>r ctxs'. pow_verify g H header nonce target p ctxs = Some (r, ctxs') \<and> contexts_ok ctxs' \<and>
    (r = Inr () \<longleftrightarrow> accepted_proof keys target d p)"
  by (rule pow_verify_spec[OF assms])

definition sample_bits :: bits_get where
  "sample_bits b i = (if unat i < 8 then Some (bit b (unat i)) else None)"

lemma sample_bits_law: "bits_law sample_bits"
  by (simp add: bits_law_def sample_bits_def)

definition sample_pow_hash :: "u8 list \<Rightarrow> u8 list" where
  "sample_pow_hash bs = 4 # replicate 31 0"

definition sample_proof :: Proof where
  "sample_proof = proof_new (map word_of_nat [0..<42]) 24"

theorem verify_accepts_proofs_of_work_witness:
  "\<exists>r ctxs'. pow_verify sample_bits sample_pow_hash [] 7 2 sample_proof cuckoo_contexts = Some (r, ctxs') \<and> contexts_ok ctxs' \<and>
     (r = Inr () \<longleftrightarrow> accepted_proof (4, 0, 0, 0) 2 2 sample_proof)"
proof (rule verify_accepts_proofs_of_work[OF cuckoo_contexts_ok])
  show "create_siphash_keys sample_pow_hash ([] @ encode_le_u32 7) = Inr (4, 0, 0, 0)"
    "to_difficulty sample_bits sample_pow_hash sample_proof = Some 2" by code_simp+
qed

text \<open>
  C31.  No proof reaches a difficulty above 7.  The loop over the bits of a byte reads a ninth bit, which
  panics, so a hash that starts with a zero byte, the hash of a hard proof, has no difficulty; every other one has
  between 1 and 7, and a target above 7 is never met.
\<close>

theorem difficulty_is_at_most_seven:
  assumes "bits_law g" "length (proof_hash H p) = 32"
  shows "(hd (proof_hash H p) = 0 \<longrightarrow> to_difficulty g H p = None) \<and>
    (hd (proof_hash H p) \<noteq> 0 \<longrightarrow> (\<exists>d. to_difficulty g H p = Some d \<and> 1 \<le> d \<and> d \<le> 7)) \<and>
    (7 < target \<longrightarrow> (\<forall>ctxs'. pow_verify g H header nonce target p ctxs \<noteq> Some (Inr (), ctxs')))"
proof (intro conjI impI allI)
  from assms(2) obtain byte bytes where h: "proof_hash H p = byte # bytes" by (cases "proof_hash H p") auto
  note eq = difficulty_eq[OF assms(1) h]
  show "to_difficulty g H p = None" if "hd (proof_hash H p) = 0" using that h eq(1) by simp
  show "\<exists>d. to_difficulty g H p = Some d \<and> 1 \<le> d \<and> d \<le> 7" if "hd (proof_hash H p) \<noteq> 0"
  proof -
    from that h have "byte \<noteq> 0" by simp
    then obtain m where "m < 8" "bit byte m" "\<forall>i < m. \<not> bit byte i" by (rule first_bit)
    with eq(2) difficulty_bounds[OF assms] show ?thesis by blast
  qed
  fix ctxs' assume target: "7 < target"
  have "d < target" if "to_difficulty g H p = Some d" for d
    using difficulty_bounds(2)[OF assms that] target by (rule le_less_trans)
  then show "pow_verify g H header nonce target p ctxs \<noteq> Some (Inr (), ctxs')"
    by (cases "to_difficulty g H p") (auto simp: pow_verify_def)
qed

theorem difficulty_is_at_most_seven_witness:
  "to_difficulty sample_bits (\<lambda>_. replicate 32 0) sample_proof = None \<and>
   pow_verify sample_bits sample_pow_hash [] 7 8 sample_proof cuckoo_contexts \<noteq> Some (Inr (), cuckoo_contexts)"
  using difficulty_is_at_most_seven[OF sample_bits_law, of "\<lambda>_. replicate 32 0" sample_proof]
    difficulty_is_at_most_seven[OF sample_bits_law, of sample_pow_hash sample_proof 8]
  by (simp add: proof_hash_def sample_pow_hash_def)

section \<open>The solvers\<close>

text \<open>
  C32.  A job wakes its solver.  In every state that the miner and its threads reach, let the thread of the solver
  of the plugin be at the head of its loop, with no \<open>Stop\<close> among the messages it has not read yet, and let its
  solver be paused or the job be for a new height.  Then, left alone, the thread does not panic and comes to the
  run of its plugin on this very job (its header, height, identifier and target), with its solver marked as
  working.  The names of the plugins are taken to fit their field, and a run of a plugin to keep the length of
  that field, which is an array in the source.
\<close>

theorem notify_wakes_solver:
  assumes "miner_runs g H run (miner_new plugins) m" "list_all name_fine plugins" "typed_run run"
    and "notify job height header difficulty plugin m = Some m'" "i = plugin_repr plugin"
    and "th_phase (threads m ! i) = Polling" "i < length (threads m)" "Stop \<notin> set (solver_loop_txs m ! i)"
    and "solver_states m ! i = Paused \<or> height \<noteq> job_height (shared_data m)"
  shows "\<exists>n m''. solver_turns g H run nonces i n m' = Some m'' \<and> solver_states m'' ! i = Working \<and>
    th_phase (threads m'' ! i) = Solving header height job difficulty"
proof -
  from miner_runs_ok[OF assms(1,3) miner_new_ok[OF assms(2)]] have ok: "miner_ok m'" by (rule notify_ok[OF assms(4)])
  from notify_resumes[OF assms(4,5,9)] obtain msgs where m': "solver_loop_txs m' ! i = (solver_loop_txs m ! i @ msgs) @ [Resume]"
    "set msgs \<subseteq> {Pause}" "threads m' = threads m" "job_id (shared_data m') = job" "job_height (shared_data m') = height"
    "job_header (shared_data m') = header" "job_difficulty (shared_data m') = difficulty" by auto
  have "Stop \<notin> set (solver_loop_txs m ! i @ msgs)" using m'(2) assms(8) by auto
  from polling_to_solving[of g H run nonces i 0 m' m', OF _ ok _ _ m'(1) this assms(3) m'(6,5,4,7)] m'(3) assms(6,7)
  show ?thesis by auto
qed

text \<open>A miner whose solver threads have started, and a plugin that finds nothing.\<close>

definition idle_run :: run_solver where
  "idle_run name header nonce r = r"

definition sample_miner :: PurpleMiner where
  "sample_miner = (snd (start_solvers (\<lambda>_. Inr () :: unit + unit) (miner_new PLUGINS_GPU)))"

definition polling_miner :: "PurpleMiner option" where
  "polling_miner = solver_step sample_bits sample_pow_hash idle_run 0 8 sample_miner"

lemma polling_miner_runs:
  assumes "polling_miner = Some m"
  shows "miner_runs sample_bits sample_pow_hash idle_run (miner_new PLUGINS_GPU) m"
proof -
  let ?step = "miner_step sample_bits sample_pow_hash idle_run"
  have "?step (miner_new PLUGINS_GPU) sample_miner" unfolding sample_miner_def
    by (rule miner_step.start[where load = "\<lambda>_. Inr ()"]) (rule prod.collapse[symmetric])
  moreover have "?step sample_miner m" using assms unfolding polling_miner_def by (rule miner_step.solve)
  ultimately show ?thesis by (blast intro: rtranclp_trans)
qed

theorem notify_wakes_solver_witness:
  "\<exists>m m' n m''. polling_miner = Some m \<and> notify 1 5 [] 3 Cuckoo31 m = Some m' \<and>
     solver_turns sample_bits sample_pow_hash idle_run (\<lambda>_. 7) 8 n m' = Some m'' \<and>
     th_phase (threads m'' ! 8) = Solving [] 5 1 3"
proof -
  have "do { m \<leftarrow> polling_miner; m' \<leftarrow> notify 1 5 [] 3 Cuckoo31 m; Some (th_phase (threads m ! 8), length (threads m),
      solver_loop_txs m ! 8, job_height (shared_data m)) } = Some (Polling, 9, [], 0)" by code_simp
  then obtain m m' where m: "polling_miner = Some m" "notify 1 5 [] 3 Cuckoo31 m = Some m'" "th_phase (threads m ! 8) = Polling"
      "length (threads m) = 9" "solver_loop_txs m ! 8 = []" "job_height (shared_data m) = 0"
    by (auto simp: bind_eq_Some_conv)
  have "list_all name_fine PLUGINS_GPU" by code_simp
  moreover have "typed_run idle_run" by (simp add: typed_run_def idle_run_def)
  ultimately show ?thesis
    using notify_wakes_solver[OF polling_miner_runs[OF m(1)] _ _ m(2), of 8 "\<lambda>_. 7"] m by auto
qed

text \<open>
  A job can be lost.  A solver that has not read a pause yet is still marked as working; a job for
  the same height that arrives then sends no resume, and the solver pauses.
\<close>

theorem job_behind_a_pause_is_lost:
  assumes "solver_states m ! i = Working" "i = plugin_repr plugin" "i < length (solver_states m)" "i < length (threads m)"
    "i < length (solver_loop_txs m)" "solver_loop_txs m ! i = []" "plugin \<noteq> Cuckoo19" "th_phase (threads m ! i) = Polling"
  shows "\<exists>m' m''. notify job (job_height (shared_data m)) header difficulty plugin (pause_solvers m) = Some m' \<and>
    solver_turns g H run nonces i 1 m' = Some m'' \<and> solver_states m'' ! i = Paused \<and> solver_loop_txs m'' ! i = [] \<and>
    th_phase (threads m'' ! i) = Polling \<and> th_paused (threads m'' ! i)"
  using assms
  by (auto simp: notify_def has_state_def pause_solvers_def send_all_def solver_step_def solver_poll_def solver_message_def
      set_solver_state_def set_thread_def Let_def)

definition working_miner :: PurpleMiner where
  "working_miner = sample_miner\<lparr>solver_states := replicate 9 Working,
     threads := map (\<lambda>i. (thread_new i)\<lparr>th_phase := Polling, th_paused := False\<rparr>) [0..<9]\<rparr>"

theorem job_behind_a_pause_is_lost_witness:
  "\<exists>m' m''. notify 1 0 [] 3 Cuckoo29 (pause_solvers working_miner) = Some m' \<and>
     solver_turns sample_bits sample_pow_hash idle_run (\<lambda>_. 7) 6 1 m' = Some m'' \<and> solver_states m'' ! 6 = Paused"
proof -
  have c: "job_height (shared_data working_miner) = 0" "solver_states working_miner ! 6 = Working" "6 < length (solver_states working_miner)"
    "6 < length (threads working_miner)" "6 < length (solver_loop_txs working_miner)" "solver_loop_txs working_miner ! 6 = []"
    "th_phase (threads working_miner ! 6) = Polling" by code_simp+
  have "6 = plugin_repr Cuckoo29" "Cuckoo29 \<noteq> Cuckoo19" by simp_all
  from job_behind_a_pause_is_lost[OF c(2) this(1) c(3-6) this(2) c(7), of 1 "[]" 3 sample_bits sample_pow_hash idle_run "\<lambda>_. 7"]
  show ?thesis unfolding c(1) by blast
qed

text \<open>
  A thread that has left its loop, after \<open>Stop\<close> or an error of its plugin, never returns to it, and nothing it
  still does touches the job, the state of its solver or its messages.
\<close>

theorem left_threads_stay_out:
  assumes "solver_turns g H run nonces i n m = Some m'" "i < length (threads m)" "has_left (threads m ! i)"
  shows "shared_data m' = shared_data m \<and> solver_states m' = solver_states m \<and> solver_loop_txs m' = solver_loop_txs m \<and>
    has_left (threads m' ! i) \<and> i < length (threads m')"
  using assms
proof (induction n arbitrary: m')
  case (Suc n)
  from Suc.prems(1) obtain m1 where run: "solver_turns g H run nonces i n m = Some m1"
    and step: "solver_step g H run (nonces n) i m1 = Some m'" by (auto simp: bind_eq_Some_conv)
  note IH = Suc.IH[OF run Suc.prems(2,3)]
  then have "index (threads m1) i = Some (threads m1 ! i)" by simp
  from left_step[OF step this] IH show ?case by auto
qed simp

theorem left_threads_stay_out_witness:
  "\<exists>m m'. m = working_miner\<lparr>threads := [(thread_new 0)\<lparr>th_phase := Joining\<rparr>]\<rparr> \<and>
     solver_turns sample_bits sample_pow_hash idle_run (\<lambda>_. 7) 0 1 m = Some m' \<and> has_left (threads m' ! 0)"
proof -
  let ?m = "working_miner\<lparr>threads := [(thread_new 0)\<lparr>th_phase := Joining\<rparr>]\<rparr>"
  have "solver_turns sample_bits sample_pow_hash idle_run (\<lambda>_. 7) 0 1 ?m \<noteq> None" by code_simp
  then obtain m' where m': "solver_turns sample_bits sample_pow_hash idle_run (\<lambda>_. 7) 0 1 ?m = Some m'" by blast
  from left_threads_stay_out[OF m'] m' show ?thesis by (simp add: has_left_def)
qed

text \<open>
  The header and the height of a job are read one after the other, the header first.  When a job for a new
  height arrives in between, the solver works on the old header, and since it has the new height its
  solutions are taken for valid ones of the new job.
\<close>

theorem old_header_under_new_job:
  assumes "notify job height header difficulty plugin m = Some m'" "i < length (threads m)" "t = threads m ! i"
    "th_phase t = ReadingHeight old" "th_iter_count t < 2 ^ 32 - 1" "th_instance t < length (configs m)"
  shows "\<exists>m''. solver_turns g H run nonces i 5 m' = Some m'' \<and>
    th_phase (threads m'' ! i) = Publishing job difficulty (nonces 3) \<and>
    (th_solutions (threads m'' ! i), th_stats (threads m'' ! i)) =
      run (configs m ! th_instance t) old (nonces 3) (th_solutions t, th_stats t)"
proof -
  have m': "threads m' = threads m" "configs m' = configs m" "job_id (shared_data m') = job" "job_height (shared_data m') = height"
      "job_difficulty (shared_data m') = difficulty"
    using assms(1) by (auto simp: notify_def resume_solver_def pause_solvers_def send_all_def bind_eq_Some_conv Let_def split: if_split_asm)
  have n: "checked_add (th_iter_count t) 1 = Some (th_iter_count t + 1)"
    using assms(5) by (simp add: checked_add_def word_less_nat_alt)
  show ?thesis
    using assms(2-4,6) m' n
    by (simp add: numeral_eq_Suc solver_step_def solver_run_def set_thread_def Let_def split: prod.split)
qed

theorem old_header_under_new_job_witness:
  "\<exists>m' m''. notify 2 5 [9] 3 Cuckoo29 (working_miner\<lparr>threads := map (\<lambda>i. (thread_new i)\<lparr>th_phase := ReadingHeight [1]\<rparr>) [0..<9]\<rparr>) = Some m' \<and>
     solver_turns sample_bits sample_pow_hash idle_run (\<lambda>_. 7) 6 5 m' = Some m'' \<and> th_phase (threads m'' ! 6) = Publishing 2 3 7"
proof -
  let ?m = "working_miner\<lparr>threads := map (\<lambda>i. (thread_new i)\<lparr>th_phase := ReadingHeight [1]\<rparr>) [0..<9]\<rparr>"
  have "notify 2 5 [9] 3 Cuckoo29 ?m \<noteq> None" by code_simp
  then obtain m' where m': "notify 2 5 [9] 3 Cuckoo29 ?m = Some m'" by blast
  have c: "6 < length (threads ?m)" "th_phase (threads ?m ! 6) = ReadingHeight [1]" "th_iter_count (threads ?m ! 6) < 2 ^ 32 - 1"
    "th_instance (threads ?m ! 6) < length (configs ?m)" by code_simp+
  from old_header_under_new_job[OF m' c(1) refl c(2-4), of sample_bits sample_pow_hash idle_run "\<lambda>_. 7"] m' show ?thesis by blast
qed

text \<open>
  In the builds for a processor the plugin type selects the wrong solver: these builds have no plugin
  for 19 bits, but the numbers of the plugin types start with it.  A job for 24 bits resumes the solver for
  25 bits, and a job for 31 bits panics.
\<close>

theorem cpu_plugins_are_shifted:
  assumes "plugins \<in> {PLUGINS_CPU, PLUGINS_CPU_AVX}" "snd (start_solvers load (miner_new plugins)) = m"
    "\<And>c. load c = Inr ()"
  shows "notify job height header difficulty Cuckoo31 m = None \<and> configs m ! plugin_repr Cuckoo24 = plugins ! 1 \<and>
    (\<exists>m'. notify job 1 header difficulty Cuckoo24 m = Some m' \<and> last (solver_loop_txs m' ! 1) = Resume \<and> solver_loop_txs m' ! 0 = [Pause])"
proof -
  have "find (\<lambda>c. isl (load c)) cs = None" for cs using assms(3) by (simp add: find_None_iff)
  moreover have "length plugins = 8" using assms(1) by (auto simp: PLUGINS_CPU_def PLUGINS_CPU_AVX_def)
  ultimately have m: "configs m = plugins" "shared_data m = job_data_new 8" "solver_loop_txs m = replicate 8 []"
    "control_txs m = replicate 8 []" "solver_states m = replicate 8 Starting"
    using assms(2) by (auto simp: start_solvers_def miner_new_def Let_def)
  show ?thesis
    by (auto simp: notify_def has_state_def m pause_solvers_def send_all_def resume_solver_def index_def index_set_def job_data_new_def Let_def)
qed

theorem cpu_plugins_are_shifted_witness:
  "notify 1 1 [] 3 Cuckoo31 (snd (start_solvers (\<lambda>_. Inr () :: unit + unit) (miner_new PLUGINS_CPU))) = None \<and>
   PLUGINS_CPU ! 1 = ''cuckaroo_cpu_compat_25''"
proof -
  have "PLUGINS_CPU ! 1 = ''cuckaroo_cpu_compat_25''" by (simp add: PLUGINS_CPU_def)
  with cpu_plugins_are_shifted[of PLUGINS_CPU "\<lambda>_. Inr () :: unit + unit" _ 1 1 "[]" 3] show ?thesis by simp
qed

text \<open>
  Solutions below the target are handed out.  When no solution of a run meets the target, the run is queued
  nevertheless: its number of solutions is 0, but its first entry is still the solution that was filtered out.
\<close>

theorem low_solutions_are_queued:
  assumes "num_sols found = 1" "sols found = s # rest" "meets_target g H target (ss_edge_bits found) s = Some False"
  shows "queue_solutions g H target job nonce found d = Some (d\<lparr>solutions := solutions d @ [found\<lparr>num_sols := 0\<rparr>]\<rparr>)"
proof -
  have "found\<lparr>num_sols := 0, sols := s # rest\<rparr> = found\<lparr>num_sols := 0\<rparr>" using assms(2) by (cases found) simp
  with assms show ?thesis by (simp add: queue_solutions_def)
qed

theorem low_solutions_are_queued_witness:
  "\<exists>d. queue_solutions sample_bits sample_pow_hash 6 1 9 (solutions_default\<lparr>num_sols := 1\<rparr>) (job_data_new 1) = Some d \<and>
     map (\<lambda>ss. (num_sols ss, sol_nonce (sols ss ! 0))) (solutions d) = [(0, 0)]"
proof -
  have "meets_target sample_bits sample_pow_hash 6 (ss_edge_bits (solutions_default\<lparr>num_sols := 1\<rparr>)) solution_default = Some False"
    by code_simp
  with low_solutions_are_queued[of "solutions_default\<lparr>num_sols := 1\<rparr>" solution_default "replicate 3 solution_default"
      sample_bits sample_pow_hash 6 1 9 "job_data_new 1"]
  show ?thesis by (simp add: solutions_default_def MAX_SOLS_def numeral_eq_Suc solution_default_def job_data_new_def)
qed

end
