(* ===== verification/Causality.thy ===== *)
theory Causality
  imports Text_Format
begin

text \<open>
  \<open>causality/src/lib.rs\<close>: the stamps that order events.  A stamp wraps a stamp of the crate \<open>itc\<close>
  (interval tree clocks), which is the parameter \<open>itc\<close>: its operations, its comparison \<open>leq\<close>, and its
  printing and parsing.
\<close>

record 's itc =
  itc_seed :: 's
  itc_fork :: "'s \<Rightarrow> 's \<times> 's"
  itc_join :: "'s \<Rightarrow> 's \<Rightarrow> 's"
  itc_event :: "'s \<Rightarrow> 's"
  itc_peek :: "'s \<Rightarrow> 's \<times> 's"
  itc_leq :: "'s \<Rightarrow> 's \<Rightarrow> bool"
  itc_display :: "'s \<Rightarrow> string"
  itc_from_str :: "string \<Rightarrow> 's option"

datatype 's Stamp = Stamp (itc_stamp: 's)

definition seed :: "'s itc \<Rightarrow> 's Stamp" where
  "seed I = Stamp (itc_seed I)"

definition fork :: "'s itc \<Rightarrow> 's Stamp \<Rightarrow> 's Stamp \<times> 's Stamp" where
  "fork I s = (let (s1, s2) = itc_fork I (itc_stamp s) in (Stamp s1, Stamp s2))"

definition stamp_join :: "'s itc \<Rightarrow> 's Stamp \<Rightarrow> 's Stamp \<Rightarrow> 's Stamp" where
  "stamp_join I s1 s2 = Stamp (itc_join I (itc_stamp s1) (itc_stamp s2))"

definition stamp_event :: "'s itc \<Rightarrow> 's Stamp \<Rightarrow> 's Stamp" where
  "stamp_event I s = Stamp (itc_event I (itc_stamp s))"

definition peek :: "'s itc \<Rightarrow> 's Stamp \<Rightarrow> 's Stamp" where
  "peek I s = (let (result, _) = itc_peek I (itc_stamp s) in Stamp result)"

definition happened_before :: "'s itc \<Rightarrow> 's Stamp \<Rightarrow> 's Stamp \<Rightarrow> bool" where
  "happened_before I s1 s2 \<longleftrightarrow> itc_leq I (itc_stamp s1) (itc_stamp s2) \<and> \<not> itc_leq I (itc_stamp s2) (itc_stamp s1)"

definition happened_after :: "'s itc \<Rightarrow> 's Stamp \<Rightarrow> 's Stamp \<Rightarrow> bool" where
  "happened_after I s1 s2 \<longleftrightarrow> \<not> itc_leq I (itc_stamp s1) (itc_stamp s2) \<and> itc_leq I (itc_stamp s2) (itc_stamp s1)"

definition concurrent :: "'s itc \<Rightarrow> 's Stamp \<Rightarrow> 's Stamp \<Rightarrow> bool" where
  "concurrent I s1 s2 \<longleftrightarrow> \<not> itc_leq I (itc_stamp s1) (itc_stamp s2) \<and> \<not> itc_leq I (itc_stamp s2) (itc_stamp s1)"

definition stamp_equal :: "'s itc \<Rightarrow> 's Stamp \<Rightarrow> 's Stamp \<Rightarrow> bool" where
  "stamp_equal I s1 s2 \<longleftrightarrow> itc_leq I (itc_stamp s1) (itc_stamp s2) \<and> itc_leq I (itc_stamp s2) (itc_stamp s1)"

definition stamp_to_bytes :: "'s itc \<Rightarrow> 's Stamp \<Rightarrow> u8 list" where
  "stamp_to_bytes I s = as_bytes (itc_display I (itc_stamp s))"

definition stamp_from_bytes :: "'s itc \<Rightarrow> u8 list \<Rightarrow> string + 's Stamp" where
  "stamp_from_bytes I bin = (case from_utf8 bin of
       Some s \<Rightarrow> (case itc_from_str I s of Some res \<Rightarrow> Inr (Stamp res) | None \<Rightarrow> Inl ''Invalid stamp'')
     | None \<Rightarrow> Inl ''The given bin is not a utf8 valid string'')"

section \<open>What the crate promises\<close>

definition itc_order :: "'s itc \<Rightarrow> bool" where
  "itc_order I \<longleftrightarrow> (\<forall>s. itc_leq I s s) \<and> (\<forall>s t u. itc_leq I s t \<longrightarrow> itc_leq I t u \<longrightarrow> itc_leq I s u)"

definition itc_text :: "'s itc \<Rightarrow> bool" where
  "itc_text I \<longleftrightarrow> (\<forall>s. itc_from_str I (itc_display I s) = Some s \<and> utf8_valid (as_bytes (itc_display I s)) \<and>
     itc_display I s \<noteq> [])"

lemmas comparison_defs = happened_before_def happened_after_def concurrent_def stamp_equal_def

text \<open>The four comparisons exclude each other and cover everything; happening before is a strict order.\<close>

lemma comparison_cases:
  "happened_before I s t \<or> happened_after I s t \<or> concurrent I s t \<or> stamp_equal I s t"
  "\<not> (happened_before I s t \<and> happened_after I s t)" "\<not> (happened_before I s t \<and> concurrent I s t)"
  "\<not> (happened_before I s t \<and> stamp_equal I s t)" "\<not> (happened_after I s t \<and> concurrent I s t)"
  "\<not> (happened_after I s t \<and> stamp_equal I s t)" "\<not> (concurrent I s t \<and> stamp_equal I s t)"
  by (auto simp: comparison_defs)

lemma happened_after_before: "happened_after I s t \<longleftrightarrow> happened_before I t s"
  by (auto simp: comparison_defs)

lemma happened_before_irrefl: "\<not> happened_before I s s"
  by (simp add: comparison_defs)

lemma happened_before_trans:
  "itc_order I \<Longrightarrow> happened_before I s t \<Longrightarrow> happened_before I t u \<Longrightarrow> happened_before I s u"
  by (auto simp: comparison_defs itc_order_def)

lemma stamp_equal_congruent:
  "itc_order I \<Longrightarrow> stamp_equal I s t \<Longrightarrow> happened_before I t u \<Longrightarrow> happened_before I s u"
  by (auto simp: comparison_defs itc_order_def)

lemma stamp_roundtrip: "itc_text I \<Longrightarrow> stamp_from_bytes I (stamp_to_bytes I s) = Inr s"
  by (simp add: itc_text_def stamp_from_bytes_def stamp_to_bytes_def from_utf8_as_bytes)

lemma stamp_bytes_not_empty: "itc_text I \<Longrightarrow> stamp_to_bytes I s \<noteq> []"
  by (simp add: itc_text_def stamp_to_bytes_def as_bytes_def)

end
