(* ===== verification/Network.thy ===== *)
theory Network
  imports Addresses "HOL-Library.AList"
begin

text \<open>
  The crate \<open>network\<close> without its event loop: \<open>packets/connect.rs\<close>, \<open>peer.rs\<close>, \<open>network.rs\<close>, \<open>mock.rs\<close> and
  the interface of \<open>interface.rs\<close>.  The record \<open>net_ext\<close> has the functions of \<open>rust_sodium\<close>: signatures
  and the session keys of a key exchange (the client's and the server's, \<open>None\<close> for a bad public key).  A
  new key pair for a peer is random: it is an argument of the operations that create a peer.  An address
  is a value of any type.
\<close>

type_synonym NodeId = "u8 list"
type_synonym kx_pair = "u8 list \<times> u8 list"

record net_ext =
  nx_sign :: "u8 list \<Rightarrow> u8 list \<Rightarrow> PrimitiveSig"
  nx_verify :: "u8 list \<Rightarrow> PrimitiveSig \<Rightarrow> u8 list \<Rightarrow> bool"
  client_sk :: "u8 list \<Rightarrow> u8 list \<Rightarrow> u8 list \<Rightarrow> (u8 list \<times> u8 list) option"
  server_sk :: "u8 list \<Rightarrow> u8 list \<Rightarrow> u8 list \<Rightarrow> (u8 list \<times> u8 list) option"

datatype NetworkErr = BadFormat | ConnectFailed | InvalidConnectPacket | PeerNotFound | MaximumPeersReached | NoPeers

section \<open>The connect packet\<close>

record Connect =
  cn_node_id :: "u8 list"
  cn_kx_key :: "u8 list"
  cn_signature :: "PrimitiveSig option"

definition PACKET_TYPE :: u8 where
  "PACKET_TYPE = 1"

definition connect_new :: "u8 list \<Rightarrow> u8 list \<Rightarrow> Connect" where
  "connect_new node_id kx_key = \<lparr>cn_node_id = node_id, cn_kx_key = kx_key, cn_signature = None\<rparr>"

definition connect_sign_message :: "Connect \<Rightarrow> u8 list" where
  "connect_sign_message c = cn_kx_key c @ cn_node_id c"

definition connect_sign :: "net_ext \<Rightarrow> u8 list \<Rightarrow> Connect \<Rightarrow> Connect" where
  "connect_sign X skey c = c\<lparr>cn_signature := Some (nx_sign X (connect_sign_message c) skey)\<rparr>"

definition connect_verify_sig :: "net_ext \<Rightarrow> Connect \<Rightarrow> bool" where
  "connect_verify_sig X c = (case cn_signature c of
       Some sig \<Rightarrow> nx_verify X (connect_sign_message c) sig (cn_node_id c)
     | None \<Rightarrow> False)"

definition connect_to_bytes :: "Connect \<Rightarrow> u8 list option" where
  "connect_to_bytes c = do {
     signature \<leftarrow> cn_signature c;
     Some ([PACKET_TYPE] @ cn_kx_key c @ cn_node_id c @ sig_inner signature)
   }"

text \<open>\<open>if buf.len() > n { buf.drain(..n) } else { return Err(BadFormat) }\<close>\<close>

definition packet_field :: "nat \<Rightarrow> u8 list \<Rightarrow> NetworkErr + u8 list \<times> u8 list" where
  "packet_field n buf = (if n < length buf then Inr (take n buf, drop n buf) else Inl BadFormat)"

definition connect_from_bytes :: "u8 list \<Rightarrow> NetworkErr + Connect" where
  "connect_from_bytes bin = (case bin of
       [] \<Rightarrow> Inl BadFormat
     | packet_type # buf \<Rightarrow>
         if packet_type \<noteq> PACKET_TYPE then Inl BadFormat
         else (case packet_field 32 buf of
             Inl e \<Rightarrow> Inl e
           | Inr (kx_key, buf) \<Rightarrow> (case packet_field 32 buf of
               Inl e \<Rightarrow> Inl e
             | Inr (node_id, buf) \<Rightarrow>
                 if length buf = 64 then
                   Inr \<lparr>cn_node_id = node_id, cn_kx_key = kx_key, cn_signature = Some (PrimitiveSig buf)\<rparr>
                 else Inl BadFormat)))"

section \<open>Peers\<close>

datatype ConnectionType = Client | Server

record 'a Peer =
  peer_id :: "NodeId option"
  connection_type :: ConnectionType
  peer_ip :: 'a
  sent_connect :: bool
  outbound_buffer :: "u8 list list"
  peer_pk :: "u8 list"
  peer_sk :: "u8 list"
  peer_rx :: "u8 list option"
  peer_tx :: "u8 list option"

definition peer_new :: "kx_pair \<Rightarrow> NodeId option \<Rightarrow> 'a \<Rightarrow> ConnectionType \<Rightarrow> 'a Peer" where
  "peer_new keys node ip ct = \<lparr>peer_id = node, connection_type = ct, peer_ip = ip, sent_connect = False,
     outbound_buffer = [], peer_pk = fst keys, peer_sk = snd keys, peer_rx = None, peer_tx = None\<rparr>"

definition set_id :: "NodeId \<Rightarrow> 'a Peer \<Rightarrow> 'a Peer" where
  "set_id node p = p\<lparr>peer_id := Some node\<rparr>"

definition set_session_keys :: "u8 list \<Rightarrow> u8 list \<Rightarrow> 'a Peer \<Rightarrow> 'a Peer" where
  "set_session_keys rx tx p = p\<lparr>peer_rx := Some rx, peer_tx := Some tx\<rparr>"

definition peer_eq :: "'a Peer \<Rightarrow> 'a Peer \<Rightarrow> bool" where
  "peer_eq p q = (case (peer_id p, peer_id q) of
       (Some id1, Some id2) \<Rightarrow> id1 = id2 \<and> peer_ip p = peer_ip q
     | _ \<Rightarrow> peer_ip p = peer_ip q)"

section \<open>The interface and the handler\<close>

text \<open>
  What the handler of a packet uses of the trait \<open>NetworkInterface\<close>: our id, the entry of a peer (the
  mutable reference is a read and a write) and sending a packet, which may panic.
\<close>

record ('n, 'a) iface =
  our_node_id :: "'n \<Rightarrow> NodeId"
  fetch_peer :: "'n \<Rightarrow> 'a \<Rightarrow> 'a Peer option"
  store_peer :: "'n \<Rightarrow> 'a \<Rightarrow> 'a Peer \<Rightarrow> 'n"
  send_unsigned :: "'n \<Rightarrow> NodeId \<Rightarrow> Connect \<Rightarrow> ((NetworkErr + unit) \<times> 'n) option"

definition connect_handle ::
  "net_ext \<Rightarrow> ('n, 'a) iface \<Rightarrow> 'n \<Rightarrow> 'a \<Rightarrow> Connect \<Rightarrow> ConnectionType \<Rightarrow> ((NetworkErr + unit) \<times> 'n) option" where
  "connect_handle X F n addr packet ct = (case fetch_peer F n addr of
       None \<Rightarrow> Some (Inl PeerNotFound, n)
     | Some peer \<Rightarrow>
         let result = (case ct of
             Client \<Rightarrow> client_sk X (peer_pk peer) (peer_sk peer) (cn_kx_key packet)
           | Server \<Rightarrow> server_sk X (peer_pk peer) (peer_sk peer) (cn_kx_key packet)) in
         (case result of
            None \<Rightarrow> Some (Inl InvalidConnectPacket, n)
          | Some (rx, tx) \<Rightarrow>
              let n = store_peer F n addr (peer\<lparr>peer_rx := Some rx, peer_tx := Some tx, sent_connect := True\<rparr>) in
              (case ct of
                 Client \<Rightarrow> Some (Inr (), n)
               | Server \<Rightarrow> do {
                   (r, n) \<leftarrow> send_unsigned F n (cn_node_id packet) (connect_new (our_node_id F n) (peer_pk peer));
                   (case r of Inr _ \<Rightarrow> Some (Inr (), n) | Inl _ \<Rightarrow> None)
                 })))"

text \<open>\<open>send_unsigned\<close>, the same in both networks, over their \<open>send_to_peer\<close>.\<close>

definition sign_and_send ::
  "net_ext \<Rightarrow> u8 list \<Rightarrow> ('n \<Rightarrow> NodeId \<Rightarrow> u8 list \<Rightarrow> ((NetworkErr + unit) \<times> 'n) option) \<Rightarrow>
    'n \<Rightarrow> NodeId \<Rightarrow> Connect \<Rightarrow> ((NetworkErr + unit) \<times> 'n) option" where
  "sign_and_send X skey send_to_peer n peer packet = do {
     let packet = (if cn_signature packet = None then connect_sign X skey packet else packet);
     bytes \<leftarrow> connect_to_bytes packet;
     send_to_peer n peer bytes
   }"

text \<open>The part of \<open>process_packet\<close> that the two networks share.\<close>

definition process_from_peer ::
  "net_ext \<Rightarrow> ('n, 'a) iface \<Rightarrow> 'n \<Rightarrow> 'a \<Rightarrow> u8 list \<Rightarrow> ((NetworkErr + unit) \<times> 'n) option" where
  "process_from_peer X F n addr packet = do {
     peer \<leftarrow> fetch_peer F n addr;
     if peer_id peer = None then (case connect_from_bytes packet of
         Inr c \<Rightarrow> connect_handle X F n addr c (connection_type peer)
       | Inl _ \<Rightarrow> Some (Inl InvalidConnectPacket, n))
     else Some (Inr (), n)
   }"

section \<open>The network\<close>

record 'a Network =
  peers :: "('a \<times> 'a Peer) list"
  node_id :: NodeId
  secret_key :: "u8 list"
  network_name :: string
  max_peers :: nat

definition network_new :: "NodeId \<Rightarrow> string \<Rightarrow> u8 list \<Rightarrow> nat \<Rightarrow> 'a Network" where
  "network_new node name skey n = \<lparr>peers = [], node_id = node, secret_key = skey, network_name = name, max_peers = n\<rparr>"

definition peer_count :: "'a Network \<Rightarrow> nat" where
  "peer_count n = length (peers n)"

definition add_peer :: "'a \<Rightarrow> 'a Peer \<Rightarrow> 'a Network \<Rightarrow> (NetworkErr + unit) \<times> 'a Network" where
  "add_peer addr peer n = (if peer_count n < max_peers n then (Inr (), n\<lparr>peers := AList.update addr peer (peers n)\<rparr>)
     else (Inl MaximumPeersReached, n))"

definition set_node_id :: "'a \<Rightarrow> NodeId \<Rightarrow> 'a Network \<Rightarrow> 'a Network option" where
  "set_node_id addr node n = do {
     peer \<leftarrow> map_of (peers n) addr;
     Some (n\<lparr>peers := AList.update addr (set_id node peer) (peers n)\<rparr>)
   }"

definition remove_peer_with_addr :: "'a \<Rightarrow> 'a Network \<Rightarrow> 'a Network" where
  "remove_peer_with_addr addr n = n\<lparr>peers := AList.delete addr (peers n)\<rparr>"

definition is_none_id :: "'a \<Rightarrow> 'a Network \<Rightarrow> bool option" where
  "is_none_id addr n = do { peer \<leftarrow> map_of (peers n) addr; Some (peer_id peer = None) }"

text \<open>\<open>send_to_peer\<close> is \<open>unimplemented!\<close>.\<close>

definition network_iface :: "net_ext \<Rightarrow> ('a Network, 'a) iface" where
  "network_iface X = \<lparr>our_node_id = node_id, fetch_peer = (\<lambda>n. map_of (peers n)),
     store_peer = (\<lambda>n addr peer. n\<lparr>peers := AList.update addr peer (peers n)\<rparr>),
     send_unsigned = (\<lambda>n. sign_and_send X (secret_key n) (\<lambda>n peer packet. None) n)\<rparr>"

definition process_packet :: "net_ext \<Rightarrow> 'a Network \<Rightarrow> 'a \<Rightarrow> u8 list \<Rightarrow> ((NetworkErr + unit) \<times> 'a Network) option" where
  "process_packet X n addr packet = process_from_peer X (network_iface X) n addr packet"

section \<open>The mock network\<close>

text \<open>
  The networks of one process share channels: a mailbox is the number of a channel, and the messages that
  were sent to a channel and not received are part of the state.  The receiving ends are alive, so sending
  does not fail.
\<close>

record 'a MockNetwork =
  mailboxes :: "(NodeId \<times> nat) list"
  mock_rx :: nat
  address_mappings :: "('a \<times> NodeId) list"
  mock_peers :: "('a \<times> 'a Peer) list"
  mock_ip :: 'a
  mock_node_id :: NodeId
  mock_secret_key :: "u8 list"
  mock_network_name :: string

type_synonym 'a channels = "nat \<Rightarrow> ('a \<times> u8 list) list"
type_synonym 'a mock_state = "'a MockNetwork \<times> 'a channels"

definition mock_new ::
  "NodeId \<Rightarrow> 'a \<Rightarrow> string \<Rightarrow> u8 list \<Rightarrow> nat \<Rightarrow> (NodeId \<times> nat) list \<Rightarrow> ('a \<times> NodeId) list \<Rightarrow> 'a MockNetwork" where
  "mock_new node ip name skey rx boxes addresses = \<lparr>mailboxes = boxes, mock_rx = rx, address_mappings = addresses,
     mock_peers = [], mock_ip = ip, mock_node_id = node, mock_secret_key = skey, mock_network_name = name\<rparr>"

definition channel_send :: "nat \<Rightarrow> 'a \<times> u8 list \<Rightarrow> 'a channels \<Rightarrow> 'a channels" where
  "channel_send c msg ch = ch(c := ch c @ [msg])"

definition mock_send_to_peer :: "'a mock_state \<Rightarrow> NodeId \<Rightarrow> u8 list \<Rightarrow> ((NetworkErr + unit) \<times> 'a mock_state) option" where
  "mock_send_to_peer s peer packet = (case map_of (mailboxes (fst s)) peer of
       Some c \<Rightarrow> Some (Inr (), fst s, channel_send c (mock_ip (fst s), packet) (snd s))
     | None \<Rightarrow> Some (Inl PeerNotFound, s))"

definition mock_send_to_all :: "'a mock_state \<Rightarrow> u8 list \<Rightarrow> (NetworkErr + unit) \<times> 'a mock_state" where
  "mock_send_to_all s packet = (if mailboxes (fst s) = [] then (Inl NoPeers, s)
     else (Inr (), fst s, foldl (\<lambda>ch (_, c). channel_send c (mock_ip (fst s), packet) ch) (snd s) (mailboxes (fst s))))"

definition mock_put :: "'a mock_state \<Rightarrow> 'a \<Rightarrow> 'a Peer \<Rightarrow> 'a mock_state" where
  "mock_put s addr peer = ((fst s)\<lparr>mock_peers := AList.update addr peer (mock_peers (fst s))\<rparr>, snd s)"

definition mock_iface :: "net_ext \<Rightarrow> ('a mock_state, 'a) iface" where
  "mock_iface X = \<lparr>our_node_id = (\<lambda>s. mock_node_id (fst s)), fetch_peer = (\<lambda>s. map_of (mock_peers (fst s))),
     store_peer = mock_put, send_unsigned = (\<lambda>s. sign_and_send X (mock_secret_key (fst s)) mock_send_to_peer s)\<rparr>"

definition mock_connect :: "net_ext \<Rightarrow> kx_pair \<Rightarrow> 'a mock_state \<Rightarrow> 'a \<Rightarrow> 'a mock_state option" where
  "mock_connect X keys s addr = do {
     let peer = peer_new keys None addr Client;
     let packet = connect_sign X (mock_secret_key (fst s)) (connect_new (mock_node_id (fst s)) (peer_pk peer));
     bytes \<leftarrow> connect_to_bytes packet;
     let s = mock_put s addr (peer\<lparr>sent_connect := True\<rparr>);
     node \<leftarrow> map_of (address_mappings (fst s)) addr;
     (r, s) \<leftarrow> mock_send_to_peer s node bytes;
     (case r of Inr _ \<Rightarrow> Some s | Inl _ \<Rightarrow> None)
   }"

definition mock_process_packet ::
  "net_ext \<Rightarrow> kx_pair \<Rightarrow> 'a mock_state \<Rightarrow> 'a \<Rightarrow> u8 list \<Rightarrow> ((NetworkErr + unit) \<times> 'a mock_state) option" where
  "mock_process_packet X keys s addr packet =
     (let s = (if map_of (mock_peers (fst s)) addr = None then mock_put s addr (peer_new keys None addr Server) else s) in
      process_from_peer X (mock_iface X) s addr packet)"

text \<open>One turn of the receive loop; disconnecting and banning are \<open>unimplemented!\<close>.\<close>

definition mock_receive :: "net_ext \<Rightarrow> kx_pair \<Rightarrow> 'a mock_state \<Rightarrow> 'a mock_state option" where
  "mock_receive X keys s = (case snd s (mock_rx (fst s)) of
       [] \<Rightarrow> Some s
     | (addr, packet) # rest \<Rightarrow> do {
         (r, s) \<leftarrow> mock_process_packet X keys (fst s, (snd s)(mock_rx (fst s) := rest)) addr packet;
         if r = Inl InvalidConnectPacket then None else Some s
       })"

end
