(* ===== verification/Events.thy ===== *)
theory Events
  imports Transactions Persistent_Db Causality Network
begin

text \<open>
  The crate \<open>events\<close>: \<open>heartbeat.rs\<close>, \<open>join.rs\<close>, \<open>leave.rs\<close> and the type \<open>Event\<close> of \<open>lib.rs\<close>, with
  \<open>crypto/src/blake_hasher.rs\<close>.  Hashing and signing messages of a heartbeat
  are unimplemented in the source.  Parameters beside those of the transactions: the clocks (\<open>itc\<close>), the
  root of a Merkle tree (\<open>merkle_light\<close>), bits of a byte (\<open>bitvec\<close>), and RLP on lists of \<open>u32\<close>, whose
  decoder panics (\<open>None\<close>) on other data.
\<close>

section \<open>Heartbeats\<close>

record ('d, 's) Heartbeat =
  beat_node_id :: NodeId
  beat_stamp :: "'s Stamp"
  beat_root_hash :: "hash option"
  beat_hash :: "hash option"
  beat_parent_hash :: hash
  beat_signature :: "PrimitiveSig option"
  beat_transactions :: "'d Tx list"

definition HEARTBEAT_TYPE :: u8 where
  "HEARTBEAT_TYPE = 0"

text \<open>\<open>BlakeHasher\<close>: the buffer of what was written; \<open>hash\<close> does not clear it.\<close>

definition blake_write :: "u8 list \<Rightarrow> u8 list \<Rightarrow> u8 list" where
  "blake_write buffer bytes = buffer @ bytes"

definition blake_hash :: "('h, 'd) env \<Rightarrow> u8 list \<Rightarrow> hash" where
  "blake_hash E buffer = e_hash E buffer"

fun txs_hashes :: "('h, 'd) env \<Rightarrow> u8 list \<Rightarrow> 'd Tx list \<Rightarrow> hash list option" where
  "txs_hashes E hasher [] = Some []"
| "txs_hashes E hasher (tx # txs) = do {
     message \<leftarrow> tx_compute_hash_message E tx;
     let hasher = blake_write hasher message;
     rest \<leftarrow> txs_hashes E hasher txs;
     Some (blake_hash E hasher # rest)
   }"

definition calculate_root_hash ::
  "('h, 'd) env \<Rightarrow> (hash list \<Rightarrow> hash option) \<Rightarrow> ('d, 's) Heartbeat \<Rightarrow> ('d, 's) Heartbeat option" where
  "calculate_root_hash E merkle_root b = do {
     hashes \<leftarrow> txs_hashes E [] (beat_transactions b);
     root \<leftarrow> merkle_root hashes;
     Some (b\<lparr>beat_root_hash := Some root\<rparr>)
   }"

fun encode_txs :: "('h, 'd) env \<Rightarrow> 'd Tx list \<Rightarrow> TxError + u8 list list" where
  "encode_txs E [] = Inr []"
| "encode_txs E (tx # txs) = (case tx_to_bytes E tx of
       Inl _ \<Rightarrow> Inl (Msg ''Bad transaction'')
     | Inr bytes \<Rightarrow> map_sum id (\<lambda>rest. bytes # rest) (encode_txs E txs))"

definition heartbeat_to_bytes :: "('h, 'd) env \<Rightarrow> 's itc \<Rightarrow> ('d, 's) Heartbeat \<Rightarrow> TxError + u8 list" where
  "heartbeat_to_bytes E I b = (case beat_root_hash b of
       None \<Rightarrow> Inl (Msg ''Root hash field is missing'')
     | Some root_hash \<Rightarrow> (case beat_hash b of
       None \<Rightarrow> Inl (Msg ''Hash field is missing'')
     | Some hash \<Rightarrow> (case beat_signature b of
       None \<Rightarrow> Inl (Msg ''Signature field is missing'')
     | Some signature \<Rightarrow> (case encode_txs E (beat_transactions b) of
       Inl err \<Rightarrow> Inl err
     | Inr txs \<Rightarrow>
         let transactions = e_rlp_encode E txs;
           stamp = stamp_to_bytes I (beat_stamp b) in
         Inr ([HEARTBEAT_TYPE] @ encode_be_u16 (word_of_nat (length stamp)) @
           encode_be_u32 (word_of_nat (length transactions)) @ beat_node_id b @ root_hash @
           beat_parent_hash b @ hash @ sig_inner signature @ stamp @ transactions)))))"

text \<open>
  The decoding of one transaction.  The source decodes them in parallel; with several bad ones it may
  report another one than the first.
\<close>

definition beat_tx :: "('h, 'd) env \<Rightarrow> u8 list \<Rightarrow> 'd Tx parsed" where
  "beat_tx E tx = do {
     tx_type \<leftarrow> index tx 0;
     if tx_type = 1 then parsed_as Tx_Call (or_msg ''Invalid call transaction'' (call_from_bytes E tx))
     else if tx_type = 2 then parsed_as Tx_OpenContract (open_contract_from_bytes E tx)
     else if tx_type = 3 then parsed_as Tx_Send (or_msg ''Invalid send transaction'' (send_from_bytes E tx))
     else if tx_type = 4 then parsed_as Tx_Pay (or_msg ''Invalid pay transaction'' (pay_from_bytes E tx))
     else if tx_type = 5 then
       parsed_as Tx_OpenMultiSig (or_msg ''Invalid open multi signature transaction'' (open_multi_sig_from_bytes E tx))
     else if tx_type = 6 then parsed_as Tx_OpenShares (or_msg ''Invalid shares transaction'' (open_shares_from_bytes E tx))
     else if tx_type = 7 then
       parsed_as Tx_IssueShares (or_msg ''Invalid create currency transaction'' (issue_from_bytes E tx))
     else if tx_type = 8 then
       parsed_as Tx_CreateCurrency (or_msg ''Invalid create currency transaction'' (create_currency_from_bytes E tx))
     else if tx_type = 9 then
       parsed_as Tx_CreateMintable (or_msg ''Invalid create mintable transaction'' (create_mintable_from_bytes E tx))
     else if tx_type = 10 then parsed_as Tx_Mint (or_msg ''Invalid mint transaction'' (mint_from_bytes E tx))
     else if tx_type = 11 then parsed_as Tx_Burn (or_msg ''Invalid burn transaction'' (burn_from_bytes E tx))
     else fail ''Bad transaction type''
   }"

fun decode_txs :: "('h, 'd) env \<Rightarrow> u8 list list \<Rightarrow> 'd Tx list parsed" where
  "decode_txs E [] = Some (Inr [])"
| "decode_txs E (tx # txs) = attempt (beat_tx E tx) (\<lambda>t. attempt (decode_txs E txs) (\<lambda>ts. Some (Inr (t # ts))))"

text \<open>The fields the events share: the type byte, a stamp, a signature.\<close>

definition event_type :: "u8 \<Rightarrow> u8 list \<Rightarrow> unit parsed" where
  "event_type expected bin = attempt (tx_u8 0 ''Bad event type'' bin) (\<lambda>t.
     if t \<noteq> expected then fail ''Bad event type'' else Some (Inr ()))"

definition to_sig :: "u8 list \<Rightarrow> PrimitiveSig parsed" where
  "to_sig bs = map_option Inr (sig_new bs)"

definition to_stamp :: "'s itc \<Rightarrow> u8 list \<Rightarrow> 's Stamp parsed" where
  "to_stamp I bs = or_msg ''Bad stamp'' (Some (stamp_from_bytes I bs))"

definition heartbeat_from_bytes :: "('h, 'd) env \<Rightarrow> 's itc \<Rightarrow> u8 list \<Rightarrow> ('d, 's) Heartbeat parsed" where
  "heartbeat_from_bytes E I bin =
     attempt (event_type HEARTBEAT_TYPE bin) (\<lambda>_.
     attempt (tx_u16 1 ''Bad stamp len'' bin) (\<lambda>stamp_len.
     attempt (tx_u32 3 ''Bad transaction len'' bin) (\<lambda>txs_len.
     attempt (tx_drain 7 bin) (\<lambda>(_, buf).
     attempt (field_msg ''Incorrect packet structure! Buffer size is smaller than the minimum size for the node id'' 32 buf) (\<lambda>(v, buf).
     attempt (to_hash v) (\<lambda>node_id.
     attempt (field_msg ''Incorrect packet structure! Buffer size is smaller than the minimum size for the root hash'' 32 buf) (\<lambda>(v, buf).
     attempt (to_hash v) (\<lambda>root_hash.
     attempt (field_msg ''Incorrect packet structure! Buffer size is smaller than the minimum size for the root hash'' 32 buf) (\<lambda>(v, buf).
     attempt (to_hash v) (\<lambda>parent_hash.
     attempt (field_msg ''Incorrect packet structure! Buffer size is smaller than the minimum size for the hash'' 32 buf) (\<lambda>(v, buf).
     attempt (to_hash v) (\<lambda>hash.
     attempt (field_msg ''Incorrect packet structure! Buffer size is smaller than the minimum size for the signature'' 64 buf) (\<lambda>(v, buf).
     attempt (to_sig v) (\<lambda>signature.
     attempt (field_msg ''Incorrect packet structure! Buffer size is smaller than the stamp length'' (unat stamp_len) buf) (\<lambda>(v, buf).
     attempt (to_stamp I v) (\<lambda>stamp.
     attempt (last_field_msg ''Incorrect packet structure! Buffer size is smaller than the size of the transactions'' (unat txs_len) buf) (\<lambda>v.
     attempt (decode_txs E (e_rlp_decode E v)) (\<lambda>transactions.
     Some (Inr \<lparr>beat_node_id = node_id, beat_stamp = stamp, beat_root_hash = Some root_hash, beat_hash = Some hash,
       beat_parent_hash = parent_hash, beat_signature = Some signature, beat_transactions = transactions\<rparr>)))))))))))))))))))"

section \<open>Joins\<close>

record 's Join =
  jn_node_id :: NodeId
  jn_stamp :: "'s Stamp"
  collector_address :: NormalAddress
  jn_proof :: "u32 list"
  parent_cg_hash :: "hash option"
  parent_join_hash :: "hash option"
  jn_hash :: "hash option"
  jn_signature :: "PrimitiveSig option"

definition JOIN_TYPE :: u8 where
  "JOIN_TYPE = 1"

text \<open>The bits of a byte, and RLP on lists of \<open>u32\<close>.\<close>

record join_ext =
  bit_get :: "u8 \<Rightarrow> nat \<Rightarrow> bool"
  bit_set :: "u8 \<Rightarrow> nat \<Rightarrow> bool \<Rightarrow> u8"
  u32s_encode :: "u32 list \<Rightarrow> u8 list"
  u32s_decode :: "u8 list \<Rightarrow> u32 list option"

definition hash_bytes :: "hash option \<Rightarrow> u8 list" where
  "hash_bytes h = (case h of Some h \<Rightarrow> h | None \<Rightarrow> [])"

definition join_to_bytes :: "join_ext \<Rightarrow> 's itc \<Rightarrow> 's Join \<Rightarrow> TxError + u8 list" where
  "join_to_bytes X I j = (case jn_hash j of
       None \<Rightarrow> Inl (Msg ''Hash field is missing'')
     | Some hash \<Rightarrow> (case jn_signature j of
       None \<Rightarrow> Inl (Msg ''Signature field is missing'')
     | Some signature \<Rightarrow>
         let proof_bin = u32s_encode X (jn_proof j);
           stamp = stamp_to_bytes I (jn_stamp j);
           bitmask = bit_set X (bit_set X 0 0 (parent_cg_hash j \<noteq> None)) 1 (parent_join_hash j \<noteq> None) in
         Inr ([JOIN_TYPE, bitmask] @ encode_be_u16 (word_of_nat (length stamp)) @
           encode_be_u16 (word_of_nat (length proof_bin)) @ jn_node_id j @ normal_to_bytes (collector_address j) @
           hash_bytes (parent_cg_hash j) @ hash_bytes (parent_join_hash j) @ hash @ sig_inner signature @ stamp @
           proof_bin)))"

text \<open>A hash that the bitmask announces.\<close>

definition masked_hash :: "bool \<Rightarrow> u8 list \<Rightarrow> (hash option \<times> u8 list) parsed" where
  "masked_hash present buf = (if present then
       attempt (field_msg ''Incorrect packet structure! Buffer size is smaller than the minimum size for the parent hash'' 32 buf) (\<lambda>(v, buf).
       attempt (to_hash v) (\<lambda>h. Some (Inr (Some h, buf))))
     else Some (Inr (None, buf)))"

definition join_from_bytes :: "join_ext \<Rightarrow> 's itc \<Rightarrow> u8 list \<Rightarrow> 's Join parsed" where
  "join_from_bytes X I bin =
     attempt (event_type JOIN_TYPE bin) (\<lambda>_.
     attempt (tx_u8 1 ''Bad event type'' bin) (\<lambda>bitmask.
     attempt (tx_u16 2 ''Bad stamp len'' bin) (\<lambda>stamp_len.
     attempt (tx_u16 4 ''Bad proof len'' bin) (\<lambda>proof_len.
     attempt (tx_drain 6 bin) (\<lambda>(_, buf).
     attempt (field_msg ''Incorrect packet structure! Buffer size is smaller than the minimum size for the node id'' 32 buf) (\<lambda>(v, buf).
     attempt (to_hash v) (\<lambda>node_id.
     attempt (field_msg ''Incorrect packet structure! Buffer size is smaller than the minimum size for the collector address'' 33 buf) (\<lambda>(v, buf).
     attempt (or_err (normal_from_bytes v)) (\<lambda>address.
     attempt (masked_hash (bit_get X bitmask 0) buf) (\<lambda>(cg, buf).
     attempt (masked_hash (bit_get X bitmask 1) buf) (\<lambda>(jh, buf).
     attempt (field_msg ''Incorrect packet structure! Buffer size is smaller than the minimum size for the hash'' 32 buf) (\<lambda>(v, buf).
     attempt (to_hash v) (\<lambda>hash.
     attempt (field_msg ''Incorrect packet structure! Buffer size is smaller than the minimum size for the signature'' 64 buf) (\<lambda>(v, buf).
     attempt (to_sig v) (\<lambda>signature.
     attempt (field_msg ''Incorrect packet structure! Buffer size is smaller than the stamp length'' (unat stamp_len) buf) (\<lambda>(v, buf).
     attempt (to_stamp I v) (\<lambda>stamp.
     attempt (last_field_msg ''Incorrect packet structure! Buffer size is smaller than the proof length'' (unat proof_len) buf) (\<lambda>v.
     attempt (map_option Inr (u32s_decode X v)) (\<lambda>p.
     Some (Inr \<lparr>jn_node_id = node_id, jn_stamp = stamp, collector_address = address, jn_proof = p,
       parent_cg_hash = cg, parent_join_hash = jh, jn_hash = Some hash, jn_signature = Some signature\<rparr>))))))))))))))))))))"

section \<open>Leaves\<close>

record 's Leave =
  lv_node_id :: NodeId
  lv_stamp :: "'s Stamp"
  lv_parent_hash :: hash
  lv_hash :: "hash option"
  lv_signature :: "PrimitiveSig option"

definition LEAVE_TYPE :: u8 where
  "LEAVE_TYPE = 2"

definition leave_to_bytes :: "'s itc \<Rightarrow> 's Leave \<Rightarrow> TxError + u8 list" where
  "leave_to_bytes I l = (case lv_hash l of
       None \<Rightarrow> Inl (Msg ''Hash field is missing'')
     | Some hash \<Rightarrow> (case lv_signature l of
       None \<Rightarrow> Inl (Msg ''Signature field is missing'')
     | Some signature \<Rightarrow>
         let stamp = stamp_to_bytes I (lv_stamp l) in
         Inr ([LEAVE_TYPE] @ encode_be_u16 (word_of_nat (length stamp)) @ lv_node_id l @ lv_parent_hash l @ hash @
           sig_inner signature @ stamp)))"

definition leave_from_bytes :: "'s itc \<Rightarrow> u8 list \<Rightarrow> 's Leave parsed" where
  "leave_from_bytes I bin =
     attempt (event_type LEAVE_TYPE bin) (\<lambda>_.
     attempt (tx_u16 1 ''Bad stamp len'' bin) (\<lambda>stamp_len.
     attempt (tx_drain 3 bin) (\<lambda>(_, buf).
     attempt (field_msg ''Incorrect packet structure! Buffer size is smaller than the minimum size for the node id'' 32 buf) (\<lambda>(v, buf).
     attempt (to_hash v) (\<lambda>node_id.
     attempt (field_msg ''Incorrect packet structure! Buffer size is smaller than the minimum size for the hash'' 32 buf) (\<lambda>(v, buf).
     attempt (to_hash v) (\<lambda>parent_hash.
     attempt (field_msg ''Incorrect packet structure! Buffer size is smaller than the minimum size for the hash'' 32 buf) (\<lambda>(v, buf).
     attempt (to_hash v) (\<lambda>hash.
     attempt (field_msg ''Incorrect packet structure! Buffer size is smaller than the minimum size for the signature'' 64 buf) (\<lambda>(v, buf).
     attempt (to_sig v) (\<lambda>signature.
     attempt (last_field_msg ''Incorrect packet structure! Buffer size is smaller than the stamp length'' (unat stamp_len) buf) (\<lambda>v.
     attempt (to_stamp I v) (\<lambda>stamp.
     Some (Inr \<lparr>lv_node_id = node_id, lv_stamp = stamp, lv_parent_hash = parent_hash, lv_hash = Some hash,
       lv_signature = Some signature\<rparr>))))))))))))))"

section \<open>Events\<close>

datatype ('d, 's) Event =
    Event_Heartbeat "('d, 's) Heartbeat"
  | Event_Join "'s Join"
  | Event_Leave "'s Leave"
  | Dummy NodeId hash "hash option" "'s Stamp"
  | Root

fun event_stamp :: "'s itc \<Rightarrow> ('d, 's) Event \<Rightarrow> 's Stamp" where
  "event_stamp I (Event_Heartbeat e) = beat_stamp e"
| "event_stamp I (Event_Join e) = jn_stamp e"
| "event_stamp I (Event_Leave e) = lv_stamp e"
| "event_stamp I (Dummy _ _ _ stamp) = stamp"
| "event_stamp I Root = seed I"

text \<open>The root has no node: \<open>unimplemented!\<close>.\<close>

fun event_node_id :: "('d, 's) Event \<Rightarrow> NodeId option" where
  "event_node_id (Event_Heartbeat e) = Some (beat_node_id e)"
| "event_node_id (Event_Join e) = Some (jn_node_id e)"
| "event_node_id (Event_Leave e) = Some (lv_node_id e)"
| "event_node_id (Dummy node _ _ _) = Some node"
| "event_node_id Root = None"

fun event_hash :: "('d, 's) Event \<Rightarrow> hash option" where
  "event_hash (Event_Heartbeat e) = beat_hash e"
| "event_hash (Event_Join e) = jn_hash e"
| "event_hash (Event_Leave e) = lv_hash e"
| "event_hash (Dummy _ h _ _) = Some h"
| "event_hash Root = Some NULL_HASH"

fun event_parent_hash :: "('d, 's) Event \<Rightarrow> hash option" where
  "event_parent_hash (Event_Heartbeat e) = Some (beat_parent_hash e)"
| "event_parent_hash (Event_Join e) = parent_cg_hash e"
| "event_parent_hash (Event_Leave e) = Some (lv_parent_hash e)"
| "event_parent_hash (Dummy _ _ parent _) = parent"
| "event_parent_hash Root = None"

text \<open>\<open>==\<close> on events compares their hashes and panics when one is missing.\<close>

definition event_eq :: "('d, 's) Event \<Rightarrow> ('d, 's) Event \<Rightarrow> bool option" where
  "event_eq a b = do { x \<leftarrow> event_hash a; y \<leftarrow> event_hash b; Some (x = y) }"

end
