(* ===== verification/Events_Props.thy ===== *)
theory Events_Props
  imports Events
begin

text \<open>
  The wire formats of the events round trip: each of them is an interpretation of the locale \<open>tx_codec\<close>
  of the transactions.
\<close>

lemma to_sig_eq [wire_simps]: "wf_sig s \<Longrightarrow> to_sig (sig_inner s) = Some (Inr s)"
  by (cases s) (simp add: to_sig_def sig_new_def wf_sig_def)

lemma to_stamp_eq [wire_simps]: "itc_text I \<Longrightarrow> to_stamp I (stamp_to_bytes I s) = Some (Inr s)"
  by (simp add: to_stamp_def stamp_roundtrip or_msg_def)

lemma u32_length [wire_simps]: "length bs < 2 ^ 32 \<Longrightarrow> unat (word_of_nat (length bs) :: u32) = length bs"
  by (simp add: unat_of_nat)

lemma sig_inner_width [wire_simps]: "wf_sig s \<Longrightarrow> length (sig_inner s) = 64" "wf_sig s \<Longrightarrow> sig_inner s \<noteq> []"
  by (auto simp: wf_sig_def)

lemma event_type_Inr: "event_type tag bytes = Some (Inr u) \<longleftrightarrow> (\<exists>rest. bytes = tag # rest)"
  by (cases bytes) (auto simp: event_type_def tx_u8_def attempt_eq_Inr)

lemma attempt_event_type: "attempt (event_type tag bytes) k = Some (Inr x) \<Longrightarrow> \<exists>rest. bytes = tag # rest"
  by (auto simp: attempt_eq_Inr event_type_Inr)

lemma event_type_Cons [simp]: "event_type tag (tag # rest) = Some (Inr ())"
  by (simp add: event_type_def tx_u8_def)

section \<open>Leaves\<close>

definition wf_leave :: "'s itc \<Rightarrow> 's Leave \<Rightarrow> bool" where
  "wf_leave I l \<longleftrightarrow> length (lv_node_id l) = 32 \<and> length (lv_parent_hash l) = 32 \<and>
     length (stamp_to_bytes I (lv_stamp l)) < 2 ^ 16 \<and> (\<exists>h. lv_hash l = Some h \<and> length h = 32) \<and>
     (\<exists>s. lv_signature l = Some s \<and> wf_sig s)"

lemma header_3:
  assumes "bytes = [a] @ encode_be_u16 w @ body"
  shows "event_type a bytes = Some (Inr ())" "tx_u16 1 m bytes = Some (Inr w)"
    "tx_drain 3 bytes = Some (Inr ([a] @ encode_be_u16 w, body))"
proof -
  show "tx_u16 1 m bytes = Some (Inr w)" by (rule read_at(1)[of _ _ _ body]) (simp add: assms)
  show "tx_drain 3 bytes = Some (Inr ([a] @ encode_be_u16 w, body))"
    using tx_drain_append[of "[a] @ encode_be_u16 w" 3 body] by (simp add: assms field_widths)
qed (simp add: assms)

lemma leave_roundtrip:
  assumes "itc_text I" "wf_leave I l"
  shows "\<exists>bytes. leave_to_bytes I l = Inr bytes \<and> leave_from_bytes I bytes = Some (Inr l)"
proof -
  from assms(2) obtain h s where h: "lv_hash l = Some h" "length h = 32" and s: "lv_signature l = Some s" "wf_sig s"
    by (auto simp: wf_leave_def)
  define bytes where "bytes = [LEAVE_TYPE] @ encode_be_u16 (word_of_nat (length (stamp_to_bytes I (lv_stamp l)))) @
    lv_node_id l @ lv_parent_hash l @ h @ sig_inner s @ stamp_to_bytes I (lv_stamp l)"
  have to: "leave_to_bytes I l = Inr bytes" using h s by (simp add: leave_to_bytes_def bytes_def Let_def)
  have "lv_parent_hash l \<noteq> []" "h \<noteq> []" using assms(2) h by (auto simp: wf_leave_def)
  then have "leave_from_bytes I bytes = Some (Inr l)"
    using assms h s stamp_bytes_not_empty[OF assms(1)]
    by (simp add: leave_from_bytes_def header_3[OF bytes_def] wf_leave_def wire_simps del: One_nat_def)
  with to show ?thesis by blast
qed

interpretation leave: tx_codec "leave_to_bytes I" "leave_from_bytes I" "\<lambda>l. itc_text I \<and> wf_leave I l" LEAVE_TYPE
  for I :: "'s itc"
proof
  show "\<exists>bytes. leave_to_bytes I l = Inr bytes \<and> leave_from_bytes I bytes = Some (Inr l)" if "itc_text I \<and> wf_leave I l" for l
    using leave_roundtrip that by blast
  show "\<exists>rest. bytes = LEAVE_TYPE # rest" if "leave_to_bytes I l = Inr bytes" for l bytes
    using that by (auto simp: leave_to_bytes_def Let_def split: option.split_asm)
  show "\<exists>rest. bytes = LEAVE_TYPE # rest" if "leave_from_bytes I bytes = Some (Inr l)" for l bytes
    using that unfolding leave_from_bytes_def by (rule attempt_event_type)
qed

section \<open>Joins\<close>

definition wf_join :: "join_ext \<Rightarrow> 's itc \<Rightarrow> 's Join \<Rightarrow> bool" where
  "wf_join X I j \<longleftrightarrow> length (jn_node_id j) = 32 \<and> wf_normal (collector_address j) \<and>
     length (stamp_to_bytes I (jn_stamp j)) < 2 ^ 16 \<and> length (u32s_encode X (jn_proof j)) < 2 ^ 16 \<and>
     pred_option (\<lambda>h. length h = 32) (parent_cg_hash j) \<and> pred_option (\<lambda>h. length h = 32) (parent_join_hash j) \<and>
     (\<exists>h. jn_hash j = Some h \<and> length h = 32) \<and> (\<exists>s. jn_signature j = Some s \<and> wf_sig s)"

definition join_law :: "join_ext \<Rightarrow> bool" where
  "join_law X \<longleftrightarrow> (\<forall>b i c. i < 8 \<longrightarrow> bit_get X (bit_set X b i c) i = c) \<and>
     (\<forall>b i j c. i < 8 \<longrightarrow> j < 8 \<longrightarrow> i \<noteq> j \<longrightarrow> bit_get X (bit_set X b i c) j = bit_get X b j) \<and>
     (\<forall>ns. u32s_decode X (u32s_encode X ns) = Some ns \<and> u32s_encode X ns \<noteq> [])"

lemma header_6:
  assumes "bytes = [a, b] @ encode_be_u16 w @ encode_be_u16 v @ body"
  shows "event_type a bytes = Some (Inr ())" "tx_u8 1 m bytes = Some (Inr b)" "tx_u16 2 m bytes = Some (Inr w)"
    "tx_u16 4 m bytes = Some (Inr v)"
    "tx_drain 6 bytes = Some (Inr ([a, b] @ encode_be_u16 w @ encode_be_u16 v, body))"
proof -
  show "tx_u16 2 m bytes = Some (Inr w)"
    by (rule read_at(1)[of _ _ _ "encode_be_u16 v @ body"]) (simp add: assms)
  show "tx_u16 4 m bytes = Some (Inr v)" by (rule read_at(1)[of _ _ _ body]) (simp add: assms field_widths)
  show "tx_drain 6 bytes = Some (Inr ([a, b] @ encode_be_u16 w @ encode_be_u16 v, body))"
    using tx_drain_append[of "[a, b] @ encode_be_u16 w @ encode_be_u16 v" 6 body] by (simp add: assms field_widths)
qed (simp_all add: assms tx_u8_def)

lemma masked_hash_append [wire_simps]:
  "pred_option (\<lambda>h. length h = 32) h \<Longrightarrow> rest \<noteq> [] \<Longrightarrow> masked_hash (\<exists>y. h = Some y) (hash_bytes h @ rest) = Some (Inr (h, rest))"
  by (cases h) (simp_all add: masked_hash_def hash_bytes_def wire_simps)

lemma join_roundtrip:
  assumes "join_law X" "itc_text I" "wf_join X I j"
  shows "\<exists>bytes. join_to_bytes X I j = Inr bytes \<and> join_from_bytes X I bytes = Some (Inr j)"
proof -
  from assms(3) obtain h s where h: "jn_hash j = Some h" "length h = 32" and s: "jn_signature j = Some s" "wf_sig s"
    by (auto simp: wf_join_def)
  define mask where "mask = bit_set X (bit_set X 0 0 (parent_cg_hash j \<noteq> None)) 1 (parent_join_hash j \<noteq> None)"
  have mask: "bit_get X mask 0 = (parent_cg_hash j \<noteq> None)" "bit_get X mask 1 = (parent_join_hash j \<noteq> None)"
    using assms(1) by (auto simp: mask_def join_law_def)
  define bytes where "bytes = [JOIN_TYPE, mask] @ encode_be_u16 (word_of_nat (length (stamp_to_bytes I (jn_stamp j)))) @
    encode_be_u16 (word_of_nat (length (u32s_encode X (jn_proof j)))) @ jn_node_id j @ normal_to_bytes (collector_address j) @
    hash_bytes (parent_cg_hash j) @ hash_bytes (parent_join_hash j) @ h @ sig_inner s @ stamp_to_bytes I (jn_stamp j) @
    u32s_encode X (jn_proof j)"
  have to: "join_to_bytes X I j = Inr bytes" using h s by (simp add: join_to_bytes_def bytes_def mask_def Let_def)
  have "normal_to_bytes (collector_address j) \<noteq> []" "h \<noteq> []" using h by (auto simp: normal_to_bytes_def)
  then have "join_from_bytes X I bytes = Some (Inr j)"
    using assms h s stamp_bytes_not_empty[OF assms(2)]
    by (simp add: join_from_bytes_def header_6[OF bytes_def] mask wf_join_def join_law_def wire_simps del: One_nat_def)
  with to show ?thesis by blast
qed

interpretation join: tx_codec "join_to_bytes X I" "join_from_bytes X I" "\<lambda>j. join_law X \<and> itc_text I \<and> wf_join X I j" JOIN_TYPE
  for X I
proof
  show "\<exists>bytes. join_to_bytes X I j = Inr bytes \<and> join_from_bytes X I bytes = Some (Inr j)"
    if "join_law X \<and> itc_text I \<and> wf_join X I j" for j using join_roundtrip that by blast
  show "\<exists>rest. bytes = JOIN_TYPE # rest" if "join_to_bytes X I j = Inr bytes" for j bytes
    using that by (auto simp: join_to_bytes_def Let_def split: option.split_asm)
  show "\<exists>rest. bytes = JOIN_TYPE # rest" if "join_from_bytes X I bytes = Some (Inr j)" for j bytes
    using that unfolding join_from_bytes_def by (rule attempt_event_type)
qed

section \<open>Heartbeats\<close>

definition wf_heartbeat :: "('h, 'd) env \<Rightarrow> 's itc \<Rightarrow> ('d, 's) Heartbeat \<Rightarrow> bool" where
  "wf_heartbeat E I b \<longleftrightarrow> length (beat_node_id b) = 32 \<and> length (beat_parent_hash b) = 32 \<and>
     length (stamp_to_bytes I (beat_stamp b)) < 2 ^ 16 \<and> list_all (wf_tx E) (beat_transactions b) \<and>
     (\<forall>txs. encode_txs E (beat_transactions b) = Inr txs \<longrightarrow> e_rlp_encode E txs \<noteq> [] \<and> length (e_rlp_encode E txs) < 2 ^ 32) \<and>
     (\<exists>h. beat_root_hash b = Some h \<and> length h = 32) \<and> (\<exists>h. beat_hash b = Some h \<and> length h = 32) \<and>
     (\<exists>s. beat_signature b = Some s \<and> wf_sig s)"

text \<open>The decoder of a heartbeat agrees with the decoder that goes by the type byte.\<close>

lemma parsed_as_Some_Inr: "parsed_as c m = Some (Inr x) \<longleftrightarrow> (\<exists>y. m = Some (Inr y) \<and> x = c y)"
  by (cases m rule: option.exhaust; cases "the m") (auto simp: parsed_as_def)

lemma or_msg_Some_Inr: "or_msg msg m = Some (Inr x) \<longleftrightarrow> m = Some (Inr x)"
  by (cases m rule: option.exhaust; cases "the m") (auto simp: or_msg_def)

lemma beat_tx_iff: "bytes \<noteq> [] \<Longrightarrow> beat_tx E bytes = Some (Inr tx) \<longleftrightarrow> tx_decode E bytes = Some (Inr tx)"
  by (cases bytes) (simp_all add: beat_tx_def tx_decode_def type_bytes parsed_as_Some_Inr or_msg_Some_Inr)

lemma txs_roundtrip:
  assumes "rlp_law E" "list_all (wf_tx E) txs"
  shows "\<exists>bs. encode_txs E txs = Inr bs \<and> decode_txs E bs = Some (Inr txs)"
  using assms(2)
proof (induction txs)
  case (Cons tx txs)
  from Cons.prems tx_round_trip[OF assms(1), of tx] obtain b
    where b: "tx_to_bytes E tx = Inr b" "tx_decode E b = Some (Inr tx)" by auto
  from b(2) have "b \<noteq> []" by (auto simp: tx_decode_def)
  with b(2) have "beat_tx E b = Some (Inr tx)" by (simp add: beat_tx_iff)
  with b Cons show ?case by auto
qed simp

lemma header_7:
  assumes "bytes = [a] @ encode_be_u16 w @ encode_be_u32 x @ body"
  shows "event_type a bytes = Some (Inr ())" "tx_u16 1 m bytes = Some (Inr w)" "tx_u32 3 m bytes = Some (Inr x)"
    "tx_drain 7 bytes = Some (Inr ([a] @ encode_be_u16 w @ encode_be_u32 x, body))"
proof -
  show "tx_u16 1 m bytes = Some (Inr w)"
    by (rule read_at(1)[of _ _ _ "encode_be_u32 x @ body"]) (simp add: assms)
  have "drop 3 bytes = encode_be_u32 x @ body" by (simp add: assms field_widths)
  then show "tx_u32 3 m bytes = Some (Inr x)" by (simp add: tx_u32_def read_be_encoded)
  show "tx_drain 7 bytes = Some (Inr ([a] @ encode_be_u16 w @ encode_be_u32 x, body))"
    using tx_drain_append[of "[a] @ encode_be_u16 w @ encode_be_u32 x" 7 body]
    by (simp add: assms field_widths be_u32.enc_width)
qed (simp add: assms)

lemma heartbeat_roundtrip:
  assumes "rlp_law E" "itc_text I" "wf_heartbeat E I b"
  shows "\<exists>bytes. heartbeat_to_bytes E I b = Inr bytes \<and> heartbeat_from_bytes E I bytes = Some (Inr b)"
proof -
  from assms(3) obtain r h s where r: "beat_root_hash b = Some r" "length r = 32" and h: "beat_hash b = Some h" "length h = 32"
    and s: "beat_signature b = Some s" "wf_sig s" by (auto simp: wf_heartbeat_def)
  from txs_roundtrip[OF assms(1), of "beat_transactions b"] assms(3) obtain txs
    where txs: "encode_txs E (beat_transactions b) = Inr txs" "decode_txs E txs = Some (Inr (beat_transactions b))"
    by (auto simp: wf_heartbeat_def)
  have rlp: "e_rlp_decode E (e_rlp_encode E txs) = txs" using assms(1) by (simp add: rlp_law_def)
  define bytes where "bytes = [HEARTBEAT_TYPE] @ encode_be_u16 (word_of_nat (length (stamp_to_bytes I (beat_stamp b)))) @
    encode_be_u32 (word_of_nat (length (e_rlp_encode E txs))) @ beat_node_id b @ r @ beat_parent_hash b @ h @ sig_inner s @
    stamp_to_bytes I (beat_stamp b) @ e_rlp_encode E txs"
  have to: "heartbeat_to_bytes E I b = Inr bytes" using r h s txs by (simp add: heartbeat_to_bytes_def bytes_def Let_def)
  have "r \<noteq> []" "h \<noteq> []" "beat_parent_hash b \<noteq> []" using r h assms(3) by (auto simp: wf_heartbeat_def)
  then have "heartbeat_from_bytes E I bytes = Some (Inr b)"
    using assms r h s txs rlp stamp_bytes_not_empty[OF assms(2)]
    by (simp add: heartbeat_from_bytes_def header_7[OF bytes_def] wf_heartbeat_def wire_simps del: One_nat_def)
  with to show ?thesis by blast
qed

interpretation heartbeat: tx_codec "heartbeat_to_bytes E I" "heartbeat_from_bytes E I"
  "\<lambda>b. rlp_law E \<and> itc_text I \<and> wf_heartbeat E I b" HEARTBEAT_TYPE
  for E I
proof
  show "\<exists>bytes. heartbeat_to_bytes E I b = Inr bytes \<and> heartbeat_from_bytes E I bytes = Some (Inr b)"
    if "rlp_law E \<and> itc_text I \<and> wf_heartbeat E I b" for b using heartbeat_roundtrip that by blast
  show "\<exists>rest. bytes = HEARTBEAT_TYPE # rest" if "heartbeat_to_bytes E I b = Inr bytes" for b bytes
    using that by (auto simp: heartbeat_to_bytes_def Let_def split: option.split_asm sum.split_asm)
  show "\<exists>rest. bytes = HEARTBEAT_TYPE # rest" if "heartbeat_from_bytes E I bytes = Some (Inr b)" for b bytes
    using that unfolding heartbeat_from_bytes_def by (rule attempt_event_type)
qed

section \<open>Merkle roots\<close>

text \<open>The hasher is not cleared between transactions: the hash of one covers all messages before it.\<close>

lemma txs_hashes_prefix:
  assumes "txs_hashes E buffer txs = Some hs" "map (tx_compute_hash_message E) txs = map Some ms"
  shows "hs = map (\<lambda>i. e_hash E (buffer @ concat (take (Suc i) ms))) [0..<length txs]"
  using assms
proof (induction txs arbitrary: buffer hs ms)
  case (Cons tx txs)
  then obtain m ms' where ms: "ms = m # ms'" "tx_compute_hash_message E tx = Some m"
    "map (tx_compute_hash_message E) txs = map Some ms'" by (cases ms) auto
  with Cons.prems(1) obtain rest where rest: "txs_hashes E (buffer @ m) txs = Some rest" "hs = e_hash E (buffer @ m) # rest"
    by (auto simp: blake_write_def blake_hash_def Let_def elim!: bind_SomeE)
  from Cons.IH[OF rest(1) ms(3)] rest(2) ms(1) show ?case
    by (simp add: map_upt_Suc del: upt_Suc)
qed simp

end
