(* ===== verification/Network_Props.thy ===== *)
theory Network_Props
  imports Network
begin

text \<open>
  The handshake.  The locale \<open>network_laws\<close> has what the handler of a connect packet relies on of a network,
  and both networks are instances of it.
\<close>

locale network_laws =
  fixes F :: "('n, 'a) iface"
  assumes fetch_store: "fetch_peer F (store_peer F n a p) b = (if b = a then Some p else fetch_peer F n b)"
    and node_store: "our_node_id F (store_peer F n a p) = our_node_id F n"
    and send_frame: "send_unsigned F n node c = Some (r, n') \<Longrightarrow> fetch_peer F n' = fetch_peer F n"
begin

text \<open>A handled packet sets the session keys of the peer and nothing else; the peer stays without an id.\<close>

lemma handle_peer:
  assumes "connect_handle X F n addr c ct = Some (Inr (), n')"
  shows "\<exists>p rx tx. fetch_peer F n addr = Some p \<and>
    (case ct of Client \<Rightarrow> client_sk | Server \<Rightarrow> server_sk) X (peer_pk p) (peer_sk p) (cn_kx_key c) = Some (rx, tx) \<and>
    fetch_peer F n' addr = Some (p\<lparr>peer_rx := Some rx, peer_tx := Some tx, sent_connect := True\<rparr>) \<and>
    (\<forall>b. b \<noteq> addr \<longrightarrow> fetch_peer F n' b = fetch_peer F n b)"
proof -
  from assms obtain p rx tx where p: "fetch_peer F n addr = Some p"
    "(case ct of Client \<Rightarrow> client_sk | Server \<Rightarrow> server_sk) X (peer_pk p) (peer_sk p) (cn_kx_key c) = Some (rx, tx)"
    by (cases ct) (auto simp: connect_handle_def Let_def split: option.split_asm)
  let ?q = "p\<lparr>peer_rx := Some rx, peer_tx := Some tx, sent_connect := True\<rparr>"
  have "fetch_peer F n' = fetch_peer F (store_peer F n addr ?q)"
    using assms p send_frame[of "store_peer F n addr ?q"]
    by (cases ct) (auto simp: connect_handle_def Let_def elim!: bind_SomeE split: sum.split_asm prod.split_asm)
  with p show ?thesis by (auto simp: fetch_store)
qed

text \<open>The signature of the packet has no influence.\<close>

lemma handle_unsigned: "connect_handle X F n addr (c\<lparr>cn_signature := sig\<rparr>) ct = connect_handle X F n addr c ct"
  by (auto simp: connect_handle_def Let_def split: option.split ConnectionType.split)

lemma process_peer:
  assumes "process_from_peer X F n addr packet = Some (Inr (), n')" "fetch_peer F n addr = Some p" "peer_id p = None"
  shows "\<exists>c rx tx. connect_from_bytes packet = Inr c \<and>
    fetch_peer F n' addr = Some (p\<lparr>peer_rx := Some rx, peer_tx := Some tx, sent_connect := True\<rparr>)"
proof -
  from assms obtain c where c: "connect_from_bytes packet = Inr c"
    "connect_handle X F n addr c (connection_type p) = Some (Inr (), n')"
    by (auto simp: process_from_peer_def split: sum.split_asm)
  with handle_peer[OF c(2)] assms(2) show ?thesis by auto
qed

text \<open>Whatever a peer sends afterwards is still read as a connect packet.\<close>

lemma process_again:
  assumes "process_from_peer X F n addr packet = Some (Inr (), n')" "fetch_peer F n addr = Some p" "peer_id p = None"
    "connect_from_bytes later = Inl e"
  shows "process_from_peer X F n' addr later = Some (Inl InvalidConnectPacket, n')"
  using process_peer[OF assms(1-3)] assms(3,4) by (auto simp: process_from_peer_def)

end

interpretation network: network_laws "network_iface X"
  for X
  by unfold_locales (auto simp: network_iface_def sign_and_send_def update_conv elim!: bind_SomeE)

interpretation mock: network_laws "mock_iface X"
  for X
  by unfold_locales
    (auto simp: mock_iface_def mock_put_def sign_and_send_def mock_send_to_peer_def update_conv
      elim!: bind_SomeE split: option.split_asm if_split_asm)

section \<open>Packets\<close>

definition wf_connect :: "Connect \<Rightarrow> bool" where
  "wf_connect c \<longleftrightarrow> length (cn_node_id c) = 32 \<and> length (cn_kx_key c) = 32 \<and> (\<exists>s. cn_signature c = Some s \<and> wf_sig s)"

lemma connect_roundtrip:
  assumes "wf_connect c"
  shows "\<exists>bytes. connect_to_bytes c = Some bytes \<and> connect_from_bytes bytes = Inr c"
proof -
  from assms obtain s where s: "cn_signature c = Some s" "length (sig_inner s) = 64" by (auto simp: wf_connect_def wf_sig_def)
  with assms show ?thesis
    by (cases c, cases s) (auto simp: connect_to_bytes_def connect_from_bytes_def packet_field_def wf_connect_def)
qed

lemma split_twice: "take m xs @ take n (drop m xs) @ drop (m + n) xs = xs"
  by (metis add.commute append_take_drop_id drop_drop)

lemma connect_from_bytes_wf: "connect_from_bytes bytes = Inr c \<Longrightarrow> wf_connect c \<and> connect_to_bytes c = Some bytes"
  by (auto simp: connect_from_bytes_def packet_field_def wf_connect_def wf_sig_def connect_to_bytes_def
      split_twice[of 32 _ 32, simplified] split: list.split_asm if_split_asm)

section \<open>Session keys\<close>

text \<open>The key exchange: both sides compute the same two keys, in opposite roles.\<close>

definition kx_law :: "net_ext \<Rightarrow> kx_pair set \<Rightarrow> bool" where
  "kx_law X pairs \<longleftrightarrow> (\<forall>(pk, sk) \<in> pairs. length pk = 32) \<and> (\<forall>(pk1, sk1) \<in> pairs. \<forall>(pk2, sk2) \<in> pairs. \<exists>rx tx.
     client_sk X pk1 sk1 pk2 = Some (rx, tx) \<and> server_sk X pk2 sk2 pk1 = Some (tx, rx))"

definition sign_law :: "net_ext \<Rightarrow> bool" where
  "sign_law X \<longleftrightarrow> (\<forall>m sk. wf_sig (nx_sign X m sk))"

lemma signed_connect:
  assumes "sign_law X" "length node = 32" "length key = 32"
  shows "\<exists>bytes. connect_to_bytes (connect_sign X skey (connect_new node key)) = Some bytes \<and>
    connect_from_bytes bytes = Inr (connect_sign X skey (connect_new node key))"
  using assms by (intro connect_roundtrip) (simp add: wf_connect_def connect_sign_def connect_new_def sign_law_def)

text \<open>The two nodes of a handshake: each can reach the other.\<close>

definition linked :: "'a MockNetwork \<Rightarrow> 'a MockNetwork \<Rightarrow> bool" where
  "linked m1 m2 \<longleftrightarrow> length (mock_node_id m1) = 32 \<and> length (mock_node_id m2) = 32 \<and> mock_rx m1 \<noteq> mock_rx m2 \<and>
     map_of (address_mappings m1) (mock_ip m2) = Some (mock_node_id m2) \<and>
     map_of (mailboxes m1) (mock_node_id m2) = Some (mock_rx m2) \<and>
     map_of (mailboxes m2) (mock_node_id m1) = Some (mock_rx m1) \<and> map_of (mock_peers m2) (mock_ip m1) = None"

lemma handshake:
  assumes laws: "kx_law X {k1, k2}" "sign_law X" and link: "linked m1 m2"
    and empty: "ch (mock_rx m1) = []" "ch (mock_rx m2) = []"
  shows "\<exists>m1' ch1 m2' ch2 m1'' ch3 p1 p2 rx tx.
    mock_connect X k1 (m1, ch) (mock_ip m2) = Some (m1', ch1) \<and> mock_receive X k2 (m2, ch1) = Some (m2', ch2) \<and>
    mock_receive X k (m1', ch2) = Some (m1'', ch3) \<and> ch3 (mock_rx m1) = [] \<and> ch3 (mock_rx m2) = [] \<and>
    map_of (mock_peers m1'') (mock_ip m2) = Some p2 \<and> map_of (mock_peers m2') (mock_ip m1) = Some p1 \<and>
    peer_rx p2 = Some rx \<and> peer_tx p2 = Some tx \<and> peer_rx p1 = Some tx \<and> peer_tx p1 = Some rx \<and>
    peer_id p1 = None \<and> peer_id p2 = None"
proof -
  let ?c1 = "connect_sign X (mock_secret_key m1) (connect_new (mock_node_id m1) (fst k1))"
  let ?c2 = "connect_sign X (mock_secret_key m2) (connect_new (mock_node_id m2) (fst k2))"
  have keys: "length (fst k1) = 32" "length (fst k2) = 32" using laws(1) by (auto simp: kx_law_def)
  from laws(1) obtain rx tx where kx: "client_sk X (fst k1) (snd k1) (fst k2) = Some (rx, tx)"
    "server_sk X (fst k2) (snd k2) (fst k1) = Some (tx, rx)" by (auto simp: kx_law_def split: prod.split_asm)
  from signed_connect[OF laws(2) _ keys(1), of "mock_node_id m1" "mock_secret_key m1"] link obtain b1
    where b1: "connect_to_bytes ?c1 = Some b1" "connect_from_bytes b1 = Inr ?c1" by (auto simp: linked_def)
  from signed_connect[OF laws(2) _ keys(2), of "mock_node_id m2" "mock_secret_key m2"] link obtain b2
    where b2: "connect_to_bytes ?c2 = Some b2" "connect_from_bytes b2 = Inr ?c2" by (auto simp: linked_def)
  let ?p = "(peer_new k1 None (mock_ip m2) Client)\<lparr>sent_connect := True\<rparr>"
  let ?q = "peer_new k2 None (mock_ip m1) Server"
  let ?m1 = "m1\<lparr>mock_peers := AList.update (mock_ip m2) ?p (mock_peers m1)\<rparr>"
  let ?ch1 = "channel_send (mock_rx m2) (mock_ip m1, b1) ch"
  have one: "mock_connect X k1 (m1, ch) (mock_ip m2) = Some (?m1, ?ch1)"
    using link b1(1) by (simp add: mock_connect_def mock_put_def mock_send_to_peer_def linked_def peer_new_def Let_def)
  let ?q' = "?q\<lparr>peer_rx := Some tx, peer_tx := Some rx, sent_connect := True\<rparr>"
  let ?m2 = "m2\<lparr>mock_peers := AList.update (mock_ip m1) ?q' (AList.update (mock_ip m1) ?q (mock_peers m2))\<rparr>"
  let ?ch2 = "channel_send (mock_rx m1) (mock_ip m2, b2) (?ch1(mock_rx m2 := []))"
  have two: "mock_receive X k2 (m2, ?ch1) = Some (?m2, ?ch2)"
    using link empty b1(2) b2(1) kx
    by (simp add: mock_receive_def mock_process_packet_def process_from_peer_def connect_handle_def channel_send_def mock_iface_def
        mock_put_def sign_and_send_def mock_send_to_peer_def linked_def peer_new_def connect_new_def connect_sign_def Let_def update_conv)
  let ?p' = "?p\<lparr>peer_rx := Some rx, peer_tx := Some tx, sent_connect := True\<rparr>"
  let ?m1' = "m1\<lparr>mock_peers := AList.update (mock_ip m2) ?p' (AList.update (mock_ip m2) ?p (mock_peers m1))\<rparr>"
  have three: "mock_receive X k (?m1, ?ch2) = Some (?m1', ?ch2(mock_rx m1 := []))"
    using link empty b2(2) kx
    by (simp add: mock_receive_def mock_process_packet_def process_from_peer_def connect_handle_def channel_send_def mock_iface_def
        mock_put_def linked_def peer_new_def connect_new_def connect_sign_def Let_def update_conv)
  show ?thesis
    by (rule exI[of _ ?m1], rule exI[of _ ?ch1], rule exI[of _ ?m2], rule exI[of _ ?ch2], rule exI[of _ ?m1'],
        rule exI[of _ "?ch2(mock_rx m1 := [])"], rule exI[of _ ?q'], rule exI[of _ ?p'], rule exI[of _ rx], rule exI[of _ tx])
      (use one two three link in \<open>simp add: linked_def channel_send_def peer_new_def update_conv\<close>)
qed

end
