(* ===== verification/Causal_Graph.thy ===== *)
theory Causal_Graph
  imports Events "HOL-Library.AList"
begin

text \<open>
  The crate \<open>consensus\<close> without the machine on top: \<open>parameters.rs\<close>, \<open>validation.rs\<close>, \<open>validator_state.rs\<close>,
  \<open>candidate.rs\<close> and \<open>causal_graph.rs\<close>.  The record \<open>cg_ext\<close> has the graph of the crate \<open>graphlib\<close> (vertices
  with ids, edges) and the iteration orders of the hash sets and hash maps, which are lists here.  Events
  in hash sets and maps are compared by their hashes.
\<close>

section \<open>Parameters\<close>

text \<open>
  The quotients are computed in \<open>f32\<close> and truncated.  The sum is below \<open>2 ^ 17\<close>, exact in \<open>f32\<close>; a quotient by 2
  is exact, and one by 3 that is no integer is further from one than it is rounded, so the results are those of
  integer division.  \<open>leave_requirement\<close> and \<open>leave_limit\<close> use logarithms and are not used.
\<close>

definition eligibility_requirement :: "u16 \<Rightarrow> u16" where
  "eligibility_requirement node_count = word_of_nat ((unat node_count + 1) div 2)"

definition heartbeat_requirement :: "u16 \<Rightarrow> u16" where
  "heartbeat_requirement node_count = word_of_nat ((unat node_count + 1) div 3)"

definition proposal_requirement :: "u16 \<Rightarrow> u16" where
  "proposal_requirement node_count = word_of_nat ((unat node_count + 1) div 2)"

definition required_proposals :: "u16 \<Rightarrow> u16 option" where
  "required_proposals node_count = checked_add node_count 1"

section \<open>Validators and candidates\<close>

datatype ValidationResp = Valid | NotValidator | NotAllowedToSend | InvalidStamp | CannotDetermineValidity

record 's ValidatorState =
  allowed_to_send :: bool
  remaining_blocks :: u64
  latest_stamp :: "'s Stamp"

definition validator_state_new :: "bool \<Rightarrow> u64 \<Rightarrow> 's Stamp \<Rightarrow> 's ValidatorState" where
  "validator_state_new allowed remaining stamp = \<lparr>allowed_to_send = allowed, remaining_blocks = remaining, latest_stamp = stamp\<rparr>"

record ('d, 's) Candidate =
  cand_event :: "('d, 's) Event"
  voters :: "(('d, 's) Event \<times> u16 \<times> NodeId list) list"
  voters_ids :: "NodeId list"
  votes :: u16
  proposals :: u16
  proposal_stage :: bool

definition candidate_new :: "('d, 's) Event \<Rightarrow> ('d, 's) Candidate" where
  "candidate_new e = \<lparr>cand_event = e, voters = [], voters_ids = [], votes = 0, proposals = 0, proposal_stage = False\<rparr>"

definition candidate_is_valid :: "u16 \<Rightarrow> ('d, 's) Candidate \<Rightarrow> bool" where
  "candidate_is_valid node_count c \<longleftrightarrow> proposal_requirement node_count \<le> proposals c"

definition same_candidate :: "('d, 's) Candidate \<Rightarrow> ('d, 's) Candidate \<Rightarrow> bool" where
  "same_candidate c d \<longleftrightarrow> event_hash (cand_event c) = event_hash (cand_event d)"

text \<open>\<open>insert\<close> of a hash set keeps an equal element; \<open>insert\<close> of a hash map keeps the key and replaces the value.\<close>

definition cand_insert :: "('d, 's) Candidate \<Rightarrow> ('d, 's) Candidate list \<Rightarrow> ('d, 's) Candidate list" where
  "cand_insert c cs = (if list_ex (same_candidate c) cs then cs else cs @ [c])"

definition cand_remove :: "('d, 's) Candidate \<Rightarrow> ('d, 's) Candidate list \<Rightarrow> ('d, 's) Candidate list" where
  "cand_remove c cs = filter (\<lambda>d. \<not> same_candidate c d) cs"

definition voter_insert ::
  "('d, 's) Event \<Rightarrow> (('d, 's) Event \<times> u16 \<times> NodeId list) list \<Rightarrow> (('d, 's) Event \<times> u16 \<times> NodeId list) list" where
  "voter_insert e vs = (if list_ex (\<lambda>(f, _). event_hash f = event_hash e) vs
     then map (\<lambda>(f, v). if event_hash f = event_hash e then (f, 0, []) else (f, v)) vs
     else vs @ [(e, 0, [])])"

definition voter_remove ::
  "('d, 's) Event \<Rightarrow> (('d, 's) Event \<times> u16 \<times> NodeId list) list \<Rightarrow> (('d, 's) Event \<times> u16 \<times> NodeId list) list" where
  "voter_remove e vs = filter (\<lambda>(f, _). event_hash f \<noteq> event_hash e) vs"

section \<open>The causal graph\<close>

record ('g, 'v, 'd, 's) cg_ext =
  g_new :: 'g
  g_add_vertex :: "'g \<Rightarrow> ('d, 's) Event \<Rightarrow> 'v \<times> 'g"
  g_fetch :: "'g \<Rightarrow> 'v \<Rightarrow> ('d, 's) Event option"
  g_add_edge :: "'g \<Rightarrow> 'v \<Rightarrow> 'v \<Rightarrow> 'g option"
  g_has_edge :: "'g \<Rightarrow> 'v \<Rightarrow> 'v \<Rightarrow> bool"
  g_in :: "'g \<Rightarrow> 'v \<Rightarrow> 'v list"
  g_out :: "'g \<Rightarrow> 'v \<Rightarrow> 'v list"
  g_remove :: "'g \<Rightarrow> 'v \<Rightarrow> 'g"
  g_retain :: "'g \<Rightarrow> (('d, 's) Event \<Rightarrow> bool) \<Rightarrow> 'g"
  g_count :: "'g \<Rightarrow> nat"
  it_pending :: "'v list \<Rightarrow> 'v list"
  it_ends :: "('v \<times> nat) list \<Rightarrow> ('v \<times> nat) list"
  it_candidates :: "('d, 's) Candidate list \<Rightarrow> ('d, 's) Candidate list"
  it_voters :: "(('d, 's) Event \<times> u16 \<times> NodeId list) list \<Rightarrow> (('d, 's) Event \<times> u16 \<times> NodeId list) list"

record ('g, 'v, 'd, 's) CausalGraph =
  graph :: 'g
  cg_node_id :: NodeId
  pending :: "'v list"
  ends :: "('v \<times> nat) list"
  lookup_table :: "hash \<rightharpoonup> 'v"
  highest_events :: "('d, 's) Event list \<times> nat"
  highest_following_events :: "('d, 's) Event list \<times> nat"
  root :: "('d, 's) Event"
  validators :: "(NodeId \<times> 's ValidatorState) list"
  next_largest :: NodeId
  candidates :: "('d, 's) Candidate list"
  test_mode :: bool

definition causal_graph_new ::
  "('g, 'v, 'd, 's) cg_ext \<Rightarrow> bool \<Rightarrow> NodeId \<Rightarrow> ('d, 's) Event \<Rightarrow> ('g, 'v, 'd, 's) CausalGraph option" where
  "causal_graph_new X test node root_event = do {
     let (v, g) = g_add_vertex X (g_new X) root_event;
     h \<leftarrow> event_hash root_event;
     Some \<lparr>graph = g, cg_node_id = node, pending = [], ends = [(v, 0)], lookup_table = [h \<mapsto> v],
       highest_events = ([root_event], 0), highest_following_events = ([], 0), root = root_event, validators = [],
       next_largest = node, candidates = [], test_mode = test\<rparr>
   }"

definition cg_is_valid ::
  "('g, 'v, 'd, 's) cg_ext \<Rightarrow> 's itc \<Rightarrow> ('g, 'v, 'd, 's) CausalGraph \<Rightarrow> ('d, 's) Event \<Rightarrow> ValidationResp option" where
  "cg_is_valid X I cg e = do {
     node \<leftarrow> event_node_id e;
     (case map_of (validators cg) node of
        None \<Rightarrow> Some NotValidator
      | Some st \<Rightarrow> do {
          parent \<leftarrow> event_parent_hash e;
          (case lookup_table cg parent of
             Some parent_id \<Rightarrow> do {
               parent \<leftarrow> g_fetch X (graph cg) parent_id;
               let oracle = stamp_event I (stamp_join I (latest_stamp st) (event_stamp I parent));
               if oracle \<noteq> event_stamp I e then Some InvalidStamp
               else if allowed_to_send st then Some Valid else Some NotAllowedToSend
             }
           | None \<Rightarrow> Some (if allowed_to_send st then CannotDetermineValidity else NotAllowedToSend))
        })
   }"

definition contains :: "('g, 'v, 'd, 's) CausalGraph \<Rightarrow> ('d, 's) Event \<Rightarrow> bool option" where
  "contains cg e = do { h \<leftarrow> event_hash e; Some (lookup_table cg h \<noteq> None) }"

definition validators_count :: "('g, 'v, 'd, 's) CausalGraph \<Rightarrow> nat" where
  "validators_count cg = length (validators cg)"

definition node_count :: "('g, 'v, 'd, 's) CausalGraph \<Rightarrow> u16" where
  "node_count cg = word_of_nat (validators_count cg)"

subsection \<open>Attaching pending events to an end\<close>

record ('g, 'v, 'd, 's) turn =
  t_cg :: "('g, 'v, 'd, 's) CausalGraph"
  t_queue :: "('v \<times> nat) list"
  t_remove :: "'v list"
  t_add :: "('v \<times> 'v) list"
  t_found :: bool
  t_invalid :: "('d, 's) Event list"

text \<open>The caches of the highest events.\<close>

definition cache_highest :: "('d, 's) Event \<Rightarrow> nat \<Rightarrow> ('d, 's) Event list \<times> nat \<Rightarrow> ('d, 's) Event list \<times> nat" where
  "cache_highest e n cache = (if snd cache < n then ([e], n) else if n = snd cache then (fst cache @ [e], n) else cache)"

definition cache_following ::
  "NodeId \<Rightarrow> ('d, 's) Event \<Rightarrow> nat \<Rightarrow> ('d, 's) Event list \<times> nat \<Rightarrow> (('d, 's) Event list \<times> nat) option" where
  "cache_following ours e n cache = (if n < snd cache then Some cache
     else do {
       node \<leftarrow> event_node_id e;
       Some (if node \<noteq> ours then cache_highest e n cache else cache)
     })"

text \<open>The body of the loop over the pending events.\<close>

definition match_pending ::
  "('g, 'v, 'd, 's) cg_ext \<Rightarrow> 's itc \<Rightarrow> 'v \<Rightarrow> nat \<Rightarrow> ('d, 's) Event \<Rightarrow> ('g, 'v, 'd, 's) turn \<Rightarrow> 'v \<Rightarrow>
    ('g, 'v, 'd, 's) turn option" where
  "match_pending X I end_id following current_end t e = do {
     current \<leftarrow> g_fetch X (graph (t_cg t)) e;
     resp \<leftarrow> (if test_mode (t_cg t) then Some Valid else cg_is_valid X I (t_cg t) current);
     if resp = Valid then
       if event_parent_hash current = event_hash current_end then do {
         let n = following + 1;
         hf \<leftarrow> cache_following (cg_node_id (t_cg t)) current n (highest_following_events (t_cg t));
         Some (t\<lparr>t_cg := (t_cg t)\<lparr>ends := AList.delete end_id (AList.update e n (ends (t_cg t))),
                   highest_events := cache_highest current n (highest_events (t_cg t)), highest_following_events := hf\<rparr>,
                 t_queue := (e, n) # t_queue t, t_remove := t_remove t @ [e], t_add := t_add t @ [(end_id, e)],
                 t_found := True\<rparr>)
       } else Some t
     else if resp = CannotDetermineValidity then Some t
     else Some (t\<lparr>t_invalid := t_invalid t @ [current]\<rparr>)
   }"

text \<open>When nothing matched the search goes on at the parent of the end.\<close>

definition step_back ::
  "('g, 'v, 'd, 's) cg_ext \<Rightarrow> 'g \<Rightarrow> 'v \<Rightarrow> nat \<Rightarrow> ('v \<times> nat) list \<Rightarrow> ('v \<times> nat) list option" where
  "step_back X g end_id following queue = (case g_in X g end_id of
       [] \<Rightarrow> Some queue
     | [n] \<Rightarrow> if following = 0 then None else Some ((n, following - 1) # queue)
     | _ \<Rightarrow> None)"

definition drop_invalid ::
  "('g, 'v, 'd, 's) CausalGraph \<Rightarrow> ('d, 's) Event \<Rightarrow> ('g, 'v, 'd, 's) CausalGraph option" where
  "drop_invalid cg e = do {
     h \<leftarrow> event_hash e;
     v \<leftarrow> lookup_table cg h;
     Some (cg\<lparr>pending := filter (\<lambda>p. p \<noteq> v) (pending cg)\<rparr>)
   }"

subsection \<open>Votes\<close>

text \<open>The first voter that the event follows and whose count does not include the node of the event.\<close>

fun vote_for_voter ::
  "'s itc \<Rightarrow> u16 \<Rightarrow> ('d, 's) Event \<Rightarrow> NodeId \<Rightarrow> (('d, 's) Event \<times> u16 \<times> NodeId list) list \<Rightarrow>
    ((('d, 's) Event \<times> u16 \<times> NodeId list) list \<times> bool) option" where
  "vote_for_voter I req event node [] = Some ([], False)"
| "vote_for_voter I req event node ((e, n, ids) # vs) =
     (if happened_before I (event_stamp I e) (event_stamp I event) \<and> node \<notin> set ids then do {
        n \<leftarrow> checked_add n 1;
        Some ((e, n, node # ids) # vs, req \<le> n)
      } else do {
        (vs, proposed) \<leftarrow> vote_for_voter I req event node vs;
        Some ((e, n, ids) # vs, proposed)
      })"

definition count_vote ::
  "'s itc \<Rightarrow> u16 \<Rightarrow> ('d, 's) Event \<Rightarrow> NodeId \<Rightarrow> ('d, 's) Candidate \<Rightarrow> ('d, 's) Candidate option" where
  "count_vote I nodes event node c = do {
     v \<leftarrow> checked_add (votes c) 1;
     let c = c\<lparr>votes := v, voters := voter_insert event (voters c), voters_ids := List.insert node (voters_ids c)\<rparr>;
     Some (if proposal_requirement nodes \<le> v then c\<lparr>proposal_stage := True\<rparr> else c)
   }"

definition count_proposal ::
  "('g, 'v, 'd, 's) cg_ext \<Rightarrow> 's itc \<Rightarrow> u16 \<Rightarrow> ('d, 's) Event \<Rightarrow> NodeId \<Rightarrow> ('d, 's) Candidate \<Rightarrow> ('d, 's) Candidate option" where
  "count_proposal X I nodes event node c = do {
     (vs, proposed) \<leftarrow> vote_for_voter I (proposal_requirement nodes) event node (it_voters X (voters c));
     if proposed then do {
       p \<leftarrow> checked_add (proposals c) 1;
       Some (c\<lparr>voters := voter_remove event vs, proposals := p\<rparr>)
     } else Some (c\<lparr>voters := vs\<rparr>)
   }"

definition replacement_of :: "(('d, 's) Candidate \<times> ('d, 's) Candidate) list \<Rightarrow> ('d, 's) Candidate \<Rightarrow> ('d, 's) Candidate" where
  "replacement_of rs c = (case find (\<lambda>(old, _). same_candidate c old) rs of Some (_, new) \<Rightarrow> new | None \<Rightarrow> c)"

fun visit_candidates ::
  "('g, 'v, 'd, 's) cg_ext \<Rightarrow> 's itc \<Rightarrow> u16 \<Rightarrow> ('d, 's) Event \<Rightarrow> NodeId \<Rightarrow> ('d, 's) Candidate list \<Rightarrow>
    (('d, 's) Candidate \<times> ('d, 's) Candidate) list \<times> ('d, 's) Candidate list \<Rightarrow>
    ((('d, 's) Candidate \<times> ('d, 's) Candidate) list \<times> ('d, 's) Candidate list) option" where
  "visit_candidates X I nodes event node [] s = Some s"
| "visit_candidates X I nodes event node (c # cs) (rs, adv) =
     (let follows = (happened_before I (event_stamp I (cand_event c)) (event_stamp I event) \<and> node \<notin> set (voters_ids c)) in
      if \<not> proposal_stage c \<and> follows then do {
        new \<leftarrow> count_vote I nodes event node (replacement_of rs c);
        Some ((c, new) # rs, adv)
      } else if proposal_stage c \<and> follows then do {
        new \<leftarrow> count_proposal X I nodes event node (replacement_of rs c);
        required \<leftarrow> required_proposals nodes;
        visit_candidates X I nodes event node cs ((c, new) # rs, if required \<le> proposals c then adv @ [c] else adv)
      } else visit_candidates X I nodes event node cs (rs, adv))"

definition apply_replacement ::
  "('d, 's) Candidate list \<Rightarrow> ('d, 's) Candidate \<times> ('d, 's) Candidate \<Rightarrow> ('d, 's) Candidate list" where
  "apply_replacement cs r = cand_insert (snd r) (cand_remove (fst r) cs)"

text \<open>The body of the loop over the new edges.\<close>

definition attach ::
  "('g, 'v, 'd, 's) cg_ext \<Rightarrow> 's itc \<Rightarrow> ('g, 'v, 'd, 's) CausalGraph \<times> ('d, 's) Candidate list \<Rightarrow> 'v \<times> 'v \<Rightarrow>
    (('g, 'v, 'd, 's) CausalGraph \<times> ('d, 's) Candidate list) option" where
  "attach X I s edge = (case s of (cg, adv) \<Rightarrow> do {
     g \<leftarrow> g_add_edge X (graph cg) (fst edge) (snd edge);
     let cg = cg\<lparr>graph := g\<rparr>;
     if test_mode cg then Some (cg, adv)
     else do {
       event \<leftarrow> g_fetch X g (snd edge);
       if event_parent_hash event = event_hash (root cg) then
         Some (cg\<lparr>candidates := cand_insert (candidate_new event) (candidates cg)\<rparr>, adv)
       else do {
         node \<leftarrow> event_node_id event;
         (rs, adv) \<leftarrow> visit_candidates X I (node_count cg) event node (it_candidates X (candidates cg)) ([], adv);
         Some (cg\<lparr>candidates := foldl apply_replacement (candidates cg) rs\<rparr>, adv)
       }
     }
   })"

subsection \<open>Ordered events\<close>

fun not_after ::
  "('g, 'v, 'd, 's) cg_ext \<Rightarrow> 's itc \<Rightarrow> 'g \<Rightarrow> 's Stamp \<Rightarrow> 'v list \<Rightarrow> 'v list option" where
  "not_after X I g stamp [] = Some []"
| "not_after X I g stamp (p # ps) = do {
     e \<leftarrow> g_fetch X g p;
     rest \<leftarrow> not_after X I g stamp ps;
     Some (if happened_after I (event_stamp I e) stamp then rest else p # rest)
   }"

definition advance ::
  "('g, 'v, 'd, 's) cg_ext \<Rightarrow> 's itc \<Rightarrow> ('g, 'v, 'd, 's) CausalGraph \<times> ('d, 's) Event list \<Rightarrow> ('d, 's) Candidate \<Rightarrow>
    (('g, 'v, 'd, 's) CausalGraph \<times> ('d, 's) Event list) option" where
  "advance X I s c = (case s of (cg, ordered) \<Rightarrow> do {
     h \<leftarrow> event_hash (cand_event c);
     v \<leftarrow> lookup_table cg h;
     let stamp = event_stamp I (cand_event c);
     let g = g_remove X (graph cg) v;
     ids \<leftarrow> not_after X I g stamp (pending cg);
     Some (cg\<lparr>candidates := cand_remove c (candidates cg), pending := filter (\<lambda>p. p \<notin> set ids) (pending cg),
       graph := g_retain X g (\<lambda>e. happened_after I (event_stamp I e) stamp),
       ends := filter (\<lambda>(v, _). v \<notin> set ids) (ends cg), root := cand_event c\<rparr>, ordered @ [cand_event c])
   })"

subsection \<open>Pushing an event\<close>

text \<open>One turn of the loop over the ends.\<close>

definition push_turn ::
  "('g, 'v, 'd, 's) cg_ext \<Rightarrow> 's itc \<Rightarrow> 'v \<times> nat \<Rightarrow> ('v \<times> nat) list \<Rightarrow> ('d, 's) Candidate list \<Rightarrow> ('d, 's) Event list \<Rightarrow>
    ('g, 'v, 'd, 's) CausalGraph \<Rightarrow>
    (('v \<times> nat) list \<times> ('d, 's) Candidate list \<times> ('d, 's) Event list \<times> ('g, 'v, 'd, 's) CausalGraph) option" where
  "push_turn X I current queue adv ordered cg = (case current of (end_id, following) \<Rightarrow> do {
     current_end \<leftarrow> g_fetch X (graph cg) end_id;
     t \<leftarrow> foldm (match_pending X I end_id following current_end)
       \<lparr>t_cg = cg, t_queue = queue, t_remove = [], t_add = [], t_found = False, t_invalid = []\<rparr> (it_pending X (pending cg));
     queue \<leftarrow> (if t_found t then Some (t_queue t) else step_back X (graph cg) end_id following (t_queue t));
     cg \<leftarrow> foldm drop_invalid (t_cg t) (t_invalid t);
     let cg = cg\<lparr>pending := filter (\<lambda>p. p \<notin> set (t_remove t)) (pending cg)\<rparr>;
     (cg, adv) \<leftarrow> foldm (attach X I) (cg, adv) (t_add t);
     (cg, ordered) \<leftarrow> (if test_mode cg then Some (cg, ordered) else foldm (advance X I) (cg, ordered) adv);
     Some (queue, adv, ordered, cg)
   })"

partial_function (option) push_loop ::
  "('g, 'v, 'd, 's) cg_ext \<Rightarrow> 's itc \<Rightarrow> ('v \<times> nat) list \<Rightarrow> ('d, 's) Candidate list \<Rightarrow> ('d, 's) Event list \<Rightarrow>
    ('g, 'v, 'd, 's) CausalGraph \<Rightarrow> (('d, 's) Event list \<times> ('g, 'v, 'd, 's) CausalGraph) option" where
  "push_loop X I queue adv ordered cg = (if pending cg = [] then Some (ordered, cg)
     else (case vec_pop queue of
         None \<Rightarrow> Some (ordered, cg)
       | Some (current, queue) \<Rightarrow> do {
           (queue, adv, ordered, cg) \<leftarrow> push_turn X I current queue adv ordered cg;
           push_loop X I queue adv ordered cg
         }))"

declare push_loop.simps [code]

definition cg_push ::
  "('g, 'v, 'd, 's) cg_ext \<Rightarrow> 's itc \<Rightarrow> ('d, 's) Event \<Rightarrow> ('g, 'v, 'd, 's) CausalGraph \<Rightarrow>
    (('d, 's) Event list \<times> ('g, 'v, 'd, 's) CausalGraph) option" where
  "cg_push X I event cg = do {
     _ \<leftarrow> event_parent_hash event;
     known \<leftarrow> contains cg event;
     h \<leftarrow> event_hash event;
     if known then None
     else do {
       let (v, g) = g_add_vertex X (graph cg) event;
       let cg = cg\<lparr>graph := g, lookup_table := (lookup_table cg)(h \<mapsto> v), pending := List.insert v (pending cg)\<rparr>;
       push_loop X I (it_ends X (ends cg)) [] [] cg
     }
   }"

end
