(* ===== verification/Consensus_Machine.thy ===== *)
theory Consensus_Machine
  imports Causal_Graph "HOL-Library.List_Lexorder"
begin

text \<open>
  The queries of \<open>consensus/src/causal_graph.rs\<close> and the machine of \<open>consensus_machine.rs\<close> on top of the
  graph, with the injection of validators.
\<close>

section \<open>Queries\<close>

text \<open>All of them take the first of the highest events; \<open>highest\<close> panics when there is none.\<close>

definition cg_highest :: "('g, 'v, 'd, 's) CausalGraph \<Rightarrow> ('d, 's) Event option" where
  "cg_highest cg = index (fst (highest_events cg)) 0"

text \<open>The outer \<open>None\<close> is a panic.\<close>

definition cg_highest_exclusive ::
  "('g, 'v, 'd, 's) cg_ext \<Rightarrow> ('g, 'v, 'd, 's) CausalGraph \<Rightarrow> NodeId \<Rightarrow> ('d, 's) Event option option" where
  "cg_highest_exclusive X cg node = do {
     h \<leftarrow> cg_highest cg;
     owner \<leftarrow> event_node_id h;
     if owner \<noteq> node then Some (Some h)
     else (case event_parent_hash h of
         None \<Rightarrow> Some None
       | Some p \<Rightarrow> do {
           v \<leftarrow> lookup_table cg p;
           e \<leftarrow> g_fetch X (graph cg) v;
           owner \<leftarrow> event_node_id e;
           if owner = node then None else Some (Some e)
         })
   }"

definition cg_highest_following :: "('g, 'v, 'd, 's) CausalGraph \<Rightarrow> ('d, 's) Event option" where
  "cg_highest_following cg = (case fst (highest_following_events cg) of [] \<Rightarrow> None | e # _ \<Rightarrow> Some e)"

text \<open>The loop over the neighbours of a vertex, and the loop over the queue.\<close>

fun visit_followers ::
  "('g, 'v, 'd, 's) cg_ext \<Rightarrow> 'g \<Rightarrow> NodeId \<Rightarrow> 'v \<times> nat \<Rightarrow> 'v list \<Rightarrow> ('v \<times> nat) list \<times> ('v \<times> nat) list \<Rightarrow>
    (('v \<times> nat) list \<times> ('v \<times> nat) list) option" where
  "visit_followers X g node current [] s = Some s"
| "visit_followers X g node current (n # ns) (queue, completed) = do {
     neighbor \<leftarrow> g_fetch X g n;
     ends_here \<leftarrow> (if g_out X g n = [] then do { owner \<leftarrow> event_node_id neighbor; Some (owner = node) } else Some False);
     visit_followers X g node current ns
       (if ends_here then (queue, completed @ [current]) else ((n, snd current + 1) # queue, completed))
   }"

partial_function (option) traverse_followers ::
  "('g, 'v, 'd, 's) cg_ext \<Rightarrow> 'g \<Rightarrow> NodeId \<Rightarrow> ('v \<times> nat) list \<Rightarrow> ('v \<times> nat) list \<Rightarrow> ('v \<times> nat) list option" where
  "traverse_followers X g node queue completed = (case vec_pop queue of
       None \<Rightarrow> Some completed
     | Some (current, queue) \<Rightarrow>
         if g_out X g (fst current) = [] then traverse_followers X g node queue (completed @ [current])
         else do {
           (queue, completed) \<leftarrow> visit_followers X g node current (g_out X g (fst current)) (queue, completed);
           traverse_followers X g node queue completed
         })"

declare traverse_followers.simps [code]

definition cg_compute_highest_following ::
  "('g, 'v, 'd, 's) cg_ext \<Rightarrow> ('g, 'v, 'd, 's) CausalGraph \<Rightarrow> NodeId \<Rightarrow> ('d, 's) Event \<Rightarrow> ('d, 's) Event option option" where
  "cg_compute_highest_following X cg node e = do {
     h \<leftarrow> event_hash e;
     (case lookup_table cg h of
        None \<Rightarrow> Some None
      | Some v \<Rightarrow>
          if g_out X (graph cg) v = [] then Some None
          else do {
            completed \<leftarrow> traverse_followers X (graph cg) node (map (\<lambda>n. (n, 1)) (g_out X (graph cg) v)) [];
            (case vec_pop (sort_key snd completed) of
               None \<Rightarrow> Some None
             | Some ((result, _), _) \<Rightarrow> do { r \<leftarrow> g_fetch X (graph cg) result; Some (Some r) })
          })
   }"

definition cg_is_direct_follower ::
  "('g, 'v, 'd, 's) cg_ext \<Rightarrow> ('g, 'v, 'd, 's) CausalGraph \<Rightarrow> ('d, 's) Event \<Rightarrow> ('d, 's) Event \<Rightarrow> bool option" where
  "cg_is_direct_follower X cg event1 event2 = do {
     h1 \<leftarrow> event_hash event1;
     h2 \<leftarrow> event_hash event2;
     Some (case (lookup_table cg h1, lookup_table cg h2) of
         (Some id1, Some id2) \<Rightarrow> g_has_edge X (graph cg) id2 id1
       | _ \<Rightarrow> False)
   }"

definition add_validator ::
  "NodeId \<Rightarrow> bool \<Rightarrow> 's Stamp \<Rightarrow> u64 \<Rightarrow> ('g, 'v, 'd, 's) CausalGraph \<Rightarrow> ('g, 'v, 'd, 's) CausalGraph" where
  "add_validator node can_send stamp allocated cg =
     cg\<lparr>validators := AList.update node (validator_state_new can_send allocated stamp) (validators cg)\<rparr>"

definition cg_empty :: "('g, 'v, 'd, 's) cg_ext \<Rightarrow> ('g, 'v, 'd, 's) CausalGraph \<Rightarrow> bool" where
  "cg_empty X cg \<longleftrightarrow> g_count X (graph cg) = 0"

section \<open>The machine\<close>

datatype CGError = AlreadyInCG | AlreadyJoined | NoEventFound | NoCandidateSetFound | InvalidEvent

record ('g, 'v, 'd, 's) ConsensusMachine =
  causal_graph :: "('g, 'v, 'd, 's) CausalGraph"
  epoch :: u64
  pool_blocks :: u64

definition machine_new ::
  "('g, 'v, 'd, 's) cg_ext \<Rightarrow> NodeId \<Rightarrow> u64 \<Rightarrow> u64 \<Rightarrow> ('d, 's) Event \<Rightarrow> ('g, 'v, 'd, 's) ConsensusMachine option" where
  "machine_new X node ep allocated root_event = do {
     cg \<leftarrow> causal_graph_new X False node root_event;
     Some \<lparr>causal_graph = cg, epoch = ep, pool_blocks = allocated\<rparr>
   }"

definition machine_is_valid ::
  "('g, 'v, 'd, 's) cg_ext \<Rightarrow> 's itc \<Rightarrow> ('g, 'v, 'd, 's) ConsensusMachine \<Rightarrow> ('d, 's) Event \<Rightarrow> ValidationResp option" where
  "machine_is_valid X I m e = cg_is_valid X I (causal_graph m) e"

definition machine_push ::
  "('g, 'v, 'd, 's) cg_ext \<Rightarrow> 's itc \<Rightarrow> ('d, 's) Event \<Rightarrow> ('g, 'v, 'd, 's) ConsensusMachine \<Rightarrow>
    ((CGError + ('d, 's) Event list) \<times> ('g, 'v, 'd, 's) ConsensusMachine) option" where
  "machine_push X I e m = do {
     known \<leftarrow> contains (causal_graph m) e;
     if known then Some (Inl AlreadyInCG, m)
     else do {
       (ordered, cg) \<leftarrow> cg_push X I e (causal_graph m);
       Some (Inr ordered, m\<lparr>causal_graph := cg\<rparr>)
     }
   }"

definition machine_highest :: "('g, 'v, 'd, 's) ConsensusMachine \<Rightarrow> ('d, 's) Event option" where
  "machine_highest m = cg_highest (causal_graph m)"

definition machine_highest_exclusive ::
  "('g, 'v, 'd, 's) cg_ext \<Rightarrow> ('g, 'v, 'd, 's) ConsensusMachine \<Rightarrow> NodeId \<Rightarrow> ('d, 's) Event option option" where
  "machine_highest_exclusive X m node = cg_highest_exclusive X (causal_graph m) node"

definition machine_highest_following :: "('g, 'v, 'd, 's) ConsensusMachine \<Rightarrow> ('d, 's) Event option" where
  "machine_highest_following m = cg_highest_following (causal_graph m)"

definition machine_compute_highest_following ::
  "('g, 'v, 'd, 's) cg_ext \<Rightarrow> ('g, 'v, 'd, 's) ConsensusMachine \<Rightarrow> NodeId \<Rightarrow> ('d, 's) Event \<Rightarrow> ('d, 's) Event option option" where
  "machine_compute_highest_following X m node e = cg_compute_highest_following X (causal_graph m) node e"

definition machine_is_direct_follower ::
  "('g, 'v, 'd, 's) cg_ext \<Rightarrow> ('g, 'v, 'd, 's) ConsensusMachine \<Rightarrow> ('d, 's) Event \<Rightarrow> ('d, 's) Event \<Rightarrow> bool option" where
  "machine_is_direct_follower X m event1 event2 = cg_is_direct_follower X (causal_graph m) event1 event2"

subsection \<open>Injection of validators\<close>

type_synonym 's forks = "('s Stamp \<times> NodeId option) list"
type_synonym 's pool = "(NodeId \<times> 's ValidatorState) list"

text \<open>
  The inner loop: the next entry of the fork stack, which is filled again from the forked stamps when it is
  empty.  With both empty the loop of the source would not end; that is \<open>None\<close> here.
\<close>

definition next_fork :: "'s forks \<Rightarrow> 's forks \<Rightarrow> (('s Stamp \<times> NodeId option) \<times> 's forks \<times> 's forks) option" where
  "next_fork stack forked = (case vec_pop stack of
       Some (f, rest) \<Rightarrow> Some (f, rest, forked)
     | None \<Rightarrow> map_option (\<lambda>(f, rest). (f, rest, [])) (vec_pop forked))"

definition inject_node ::
  "'s itc \<Rightarrow> (NodeId \<times> u64) list \<Rightarrow> 's forks \<times> 's forks \<times> 's pool \<Rightarrow> NodeId \<Rightarrow> ('s forks \<times> 's forks \<times> 's pool) option" where
  "inject_node I validator_set s node = (case s of (stack, forked, pool) \<Rightarrow> do {
     ((next, from), stack, forked) \<leftarrow> next_fork stack forked;
     allocated \<leftarrow> map_of validator_set node;
     (stamp, forked, pool) \<leftarrow> (case from of
         Some f \<Rightarrow> do {
           let (l, r) = fork I next;
           st \<leftarrow> map_of pool f;
           Some (r, forked @ [(l, Some f), (r, Some node)], AList.update f (st\<lparr>latest_stamp := l\<rparr>) pool)
         }
       | None \<Rightarrow> Some (next, forked @ [(next, Some node)], pool));
     let st = (case map_of pool node of Some st \<Rightarrow> st | None \<Rightarrow> validator_state_new True allocated (seed I));
     Some (stack, forked, AList.update node (st\<lparr>allowed_to_send := True, latest_stamp := stamp\<rparr>) pool)
   })"

definition inject ::
  "'s itc \<Rightarrow> (NodeId \<times> u64) list \<Rightarrow> u64 \<Rightarrow> ('g, 'v, 'd, 's) ConsensusMachine \<Rightarrow> ('g, 'v, 'd, 's) ConsensusMachine option" where
  "inject I validator_set allocated m = do {
     let all_node_ids = sort (map fst validator_set @ map fst (validators (causal_graph m)));
     (_, _, pool) \<leftarrow> foldm (inject_node I validator_set) ([(seed I, None)], [], validators (causal_graph m)) (rev all_node_ids);
     ep \<leftarrow> checked_add (epoch m) 1;
     Some (m\<lparr>causal_graph := (causal_graph m)\<lparr>validators := pool\<rparr>, epoch := ep, pool_blocks := allocated\<rparr>)
   }"

end
