(* ===== verification/Causal_Votes.thy ===== *)
theory Causal_Votes
  imports Causal_Graph
begin

text \<open>
  The counting of votes in the causal graph.  A candidate enters the proposal stage with the votes of half of
  the nodes, and from then on only the other half is counted for its voters, so every voter proposes at most
  once.  The invariant \<open>cand_ok\<close> states this, and every operation that changes candidates keeps it.
\<close>

definition majority :: "nat \<Rightarrow> nat" where
  "majority n = (n + 1) div 2"

lemma requirement_majority:
  assumes "n < 65535" "nodes = word_of_nat n"
  shows "unat (proposal_requirement nodes) = majority n" "\<exists>r. required_proposals nodes = Some r \<and> unat r = n + 1"
proof -
  have n: "unat nodes = n" using assms by (simp add: unat_of_nat)
  then show "unat (proposal_requirement nodes) = majority n"
    using assms(1) by (simp add: proposal_requirement_def majority_def unat_of_nat)
  show "\<exists>r. required_proposals nodes = Some r \<and> unat r = n + 1"
    using checked_add_Some_iff[of nodes 1 "word_of_nat (n + 1)"] n assms(1)
    by (intro exI[of _ "word_of_nat (n + 1)"]) (simp add: required_proposals_def unat_of_nat del: of_nat_Suc of_nat_add)
qed

type_synonym ('d, 's) voter = "('d, 's) Event \<times> u16 \<times> NodeId list"

definition voter_ok :: "NodeId set \<Rightarrow> ('d, 's) voter \<Rightarrow> bool" where
  "voter_ok others v \<longleftrightarrow> (case v of (e, k, ids) \<Rightarrow> unat k = length ids \<and> distinct ids \<and> set ids \<subseteq> others)"

definition undecided :: "nat \<Rightarrow> ('d, 's) voter list \<Rightarrow> nat" where
  "undecided r vs = length (filter (\<lambda>(e, k, ids). unat k < r) vs)"

definition cand_ok :: "NodeId set \<Rightarrow> ('d, 's) Candidate \<Rightarrow> bool" where
  "cand_ok N c \<longleftrightarrow> distinct (voters_ids c) \<and> set (voters_ids c) \<subseteq> N \<and> unat (votes c) = length (voters_ids c) \<and>
     list_all (voter_ok (N - set (voters_ids c))) (voters c) \<and>
     unat (proposals c) + undecided (majority (card N)) (voters c) \<le> unat (votes c) \<and>
     (if proposal_stage c then unat (votes c) = majority (card N)
      else unat (votes c) < majority (card N) \<and> list_all (\<lambda>(e, k, ids). k = 0 \<and> ids = []) (voters c))"

lemma candidate_new_ok: "finite N \<Longrightarrow> N \<noteq> {} \<Longrightarrow> cand_ok N (candidate_new e)"
  by (auto simp: cand_ok_def candidate_new_def undecided_def majority_def Suc_le_eq card_gt_0_iff)

lemma undecided_all: "0 < r \<Longrightarrow> list_all (\<lambda>(e, k, ids). k = 0 \<and> ids = []) vs \<Longrightarrow> undecided r vs = length vs"
  by (induction vs) (auto simp: undecided_def)

lemma voter_insert_fresh:
  assumes "list_all (\<lambda>(e, k, ids). k = 0 \<and> ids = []) vs"
  shows "list_all (\<lambda>(e, k, ids). k = 0 \<and> ids = []) (voter_insert e vs)" "length (voter_insert e vs) \<le> length vs + 1"
  using assms by (auto simp: voter_insert_def list_all_iff)

lemma count_vote_ok:
  assumes N: "finite N" "card N < 65535" "nodes = word_of_nat (card N)"
    and c: "cand_ok N c" "\<not> proposal_stage c" "node \<in> N" "node \<notin> set (voters_ids c)"
    and vote: "count_vote I nodes e node c = Some c'"
  shows "cand_ok N c'" "cand_event c' = cand_event c"
proof -
  let ?r = "majority (card N)"
  from vote obtain v where v: "checked_add (votes c) 1 = Some v"
    "c' = (if proposal_requirement nodes \<le> v then (\<lambda>c. c\<lparr>proposal_stage := True\<rparr>) else (\<lambda>c. c))
       (c\<lparr>votes := v, voters := voter_insert e (voters c), voters_ids := List.insert node (voters_ids c)\<rparr>)"
    by (auto simp: count_vote_def Let_def elim!: bind_SomeE split: if_split_asm)
  have fresh: "list_all (\<lambda>(e, k, ids). k = 0 \<and> ids = []) (voters c)" and less: "unat (votes c) < ?r"
    and sum: "unat (proposals c) + undecided ?r (voters c) \<le> unat (votes c)"
    using c(1,2) by (auto simp: cand_ok_def)
  have uv: "unat v = unat (votes c) + 1" using checked_add_Some_unat[OF v(1)] by simp
  have req: "proposal_requirement nodes \<le> v \<longleftrightarrow> unat (votes c) + 1 = ?r"
    using requirement_majority(1)[OF N(2,3)] uv less by (auto simp: word_le_nat_alt)
  note fresh' = voter_insert_fresh[OF fresh, of e]
  have ok: "list_all (voter_ok M) (voter_insert e (voters c))" for M
    using fresh'(1) by (auto simp: list_all_iff voter_ok_def)
  have "undecided ?r (voter_insert e (voters c)) \<le> undecided ?r (voters c) + 1"
    using fresh' undecided_all[of ?r] fresh less by (simp add: undecided_all)
  then show "cand_ok N c'"
    using c v(2) ok fresh'(1) req sum uv less by (auto simp: cand_ok_def)
  show "cand_event c' = cand_event c" using v(2) by auto
qed

lemma vote_for_voter_ok:
  assumes "vote_for_voter I req e node vs = Some (vs', proposed)" "list_all (voter_ok others) vs"
    and "finite others" "card others \<le> r" "node \<in> others" "unat req = r"
  shows "list_all (voter_ok others) vs' \<and> undecided r vs' + (if proposed then 1 else 0) = undecided r vs"
  using assms(1,2)
proof (induction vs arbitrary: vs' proposed)
  case Nil
  then show ?case by (simp add: undecided_def)
next
  case (Cons v vs)
  obtain f k ids where v: "v = (f, k, ids)" by (cases v)
  show ?case
  proof (cases "happened_before I (event_stamp I f) (event_stamp I e) \<and> node \<notin> set ids")
    case True
    with Cons.prems v obtain k' where k': "checked_add k 1 = Some k'" "vs' = (f, k', node # ids) # vs" "proposed = (req \<le> k')"
      by (auto elim!: bind_SomeE)
    have ids: "unat k = length ids" "distinct (node # ids)" "set (node # ids) \<subseteq> others"
      using Cons.prems(2) v True assms(5) by (auto simp: voter_ok_def)
    have "length (node # ids) \<le> card others" using card_mono[OF assms(3) ids(3)] distinct_card[OF ids(2)] by simp
    moreover have uk: "unat k' = unat k + 1" using checked_add_Some_unat[OF k'(1)] by simp
    ultimately show ?thesis
      using Cons.prems(2) v k' ids assms(4,6)
      by (auto simp: voter_ok_def undecided_def word_le_nat_alt)
  next
    case False
    with Cons.prems v obtain vs'' where "vote_for_voter I req e node vs = Some (vs'', proposed)" "vs' = v # vs''"
      by (auto elim!: bind_SomeE split: if_split_asm)
    with Cons.IH[of vs'' proposed] Cons.prems(2) v show ?thesis by (auto simp: undecided_def)
  qed
qed

lemma undecided_mset: "mset vs = mset ws \<Longrightarrow> undecided r vs = undecided r ws"
  unfolding undecided_def by (metis mset_filter size_mset)

lemma undecided_remove: "undecided r (voter_remove e vs) \<le> undecided r vs"
  by (induction vs) (auto simp: undecided_def voter_remove_def)

definition order_law :: "('g, 'v, 'd, 's) cg_ext \<Rightarrow> bool" where
  "order_law X \<longleftrightarrow> (\<forall>cs. mset (it_candidates X cs) = mset cs) \<and> (\<forall>vs. mset (it_voters X vs) = mset vs) \<and>
     (\<forall>ps. mset (it_pending X ps) = mset ps) \<and> (\<forall>es. mset (it_ends X es) = mset es)"

lemma minority: "card (N - S) \<le> majority (card N)" if "finite N" "S \<subseteq> N" "card S = majority (card N)"
  using that card_Diff_subset[of S N] by (auto simp: majority_def finite_subset)

lemma count_proposal_ok:
  assumes N: "finite N" "card N < 65535" "nodes = word_of_nat (card N)" and X: "order_law X"
    and c: "cand_ok N c" "proposal_stage c" "node \<in> N" "node \<notin> set (voters_ids c)"
    and vote: "count_proposal X I nodes e node c = Some c'"
  shows "cand_ok N c'" "cand_event c' = cand_event c"
proof -
  let ?r = "majority (card N)" and ?o = "N - set (voters_ids c)"
  from vote obtain vs proposed where vs: "vote_for_voter I (proposal_requirement nodes) e node (it_voters X (voters c)) = Some (vs, proposed)"
    and c': "if proposed then \<exists>p. checked_add (proposals c) 1 = Some p \<and> c' = c\<lparr>voters := voter_remove e vs, proposals := p\<rparr>
      else c' = c\<lparr>voters := vs\<rparr>"
    by (auto simp: count_proposal_def elim!: bind_SomeE split: if_split_asm)
  have perm: "mset (it_voters X (voters c)) = mset (voters c)" using X by (simp add: order_law_def)
  have "card ?o \<le> ?r" using c(1,2) N(1) by (intro minority) (auto simp: cand_ok_def distinct_card)
  moreover have "list_all (voter_ok ?o) (it_voters X (voters c))"
    using c(1) mset_eq_setD[OF perm] by (auto simp: cand_ok_def list_all_iff)
  ultimately have ok: "list_all (voter_ok ?o) vs" "undecided ?r vs + (if proposed then 1 else 0) = undecided ?r (voters c)"
    using vote_for_voter_ok[OF vs] N(1) c(3,4) requirement_majority(1)[OF N(2,3)] undecided_mset[OF perm] by auto
  have "list_all (voter_ok ?o) (voter_remove e vs)" using ok(1) by (auto simp: voter_remove_def list_all_iff)
  then show "cand_ok N c'"
    using c c' ok undecided_remove[of ?r e vs] checked_add_Some_unat[of "proposals c" 1]
    by (auto simp: cand_ok_def split: if_split_asm)
  show "cand_event c' = cand_event c" using c' by (auto split: if_split_asm)
qed

text \<open>No candidate gets the proposals it needs.\<close>

lemma few_proposals:
  assumes "finite N" "card N < 65535" "cand_ok N c"
  shows "unat (proposals c) < card N + 1"
  using assms by (auto simp: cand_ok_def majority_def split: if_split_asm)

section \<open>The set of candidates\<close>

definition cand_keys :: "('d, 's) Candidate list \<Rightarrow> hash option list" where
  "cand_keys cs = map (\<lambda>c. event_hash (cand_event c)) cs"

definition cands_ok :: "NodeId set \<Rightarrow> ('d, 's) Candidate list \<Rightarrow> bool" where
  "cands_ok N cs \<longleftrightarrow> list_all (cand_ok N) cs \<and> distinct (cand_keys cs)"

lemma cand_insert_ok: "cand_ok N c \<Longrightarrow> cands_ok N cs \<Longrightarrow> cands_ok N (cand_insert c cs)"
  by (auto simp: cands_ok_def cand_insert_def cand_keys_def same_candidate_def list_ex_iff)

lemma cand_remove_ok: "cands_ok N cs \<Longrightarrow> cands_ok N (cand_remove c cs)"
  by (auto simp: cands_ok_def cand_remove_def cand_keys_def list_all_iff distinct_map_filter)

lemma replacements_ok:
  "list_all (\<lambda>r. cand_ok N (snd r)) rs \<Longrightarrow> cands_ok N cs \<Longrightarrow> cands_ok N (foldl apply_replacement cs rs)"
  by (induction rs arbitrary: cs) (auto simp: apply_replacement_def intro!: cand_insert_ok cand_remove_ok)

lemma replacement_of_other:
  "event_hash (cand_event c) \<notin> (\<lambda>r. event_hash (cand_event (fst r))) ` set rs \<Longrightarrow> replacement_of rs c = c"
  by (auto simp: replacement_of_def same_candidate_def find_None_iff split: option.split)
    (metis (mono_tags, lifting) case_prodD find_Some_iff fst_conv image_eqI nth_mem)

lemma visit_candidates_ok:
  assumes N: "finite N" "card N < 65535" "nodes = word_of_nat (card N)" "node \<in> N" and X: "order_law X"
    and cs: "cands_ok N cs" "(\<lambda>r. event_hash (cand_event (fst r))) ` set rs \<inter> set (cand_keys cs) = {}"
      "list_all (\<lambda>r. cand_ok N (snd r)) rs"
    and visit: "visit_candidates X I nodes e node cs (rs, adv) = Some (rs', adv')"
  shows "list_all (\<lambda>r. cand_ok N (snd r)) rs' \<and> adv' = adv"
  using cs visit
proof (induction cs arbitrary: rs)
  case (Cons c cs)
  let ?f = "happened_before I (event_stamp I (cand_event c)) (event_stamp I e) \<and> node \<notin> set (voters_ids c)"
  have c: "cand_ok N c" "cands_ok N cs" "event_hash (cand_event c) \<notin> set (cand_keys cs)"
    using Cons.prems(1) by (auto simp: cands_ok_def cand_keys_def)
  have same: "replacement_of rs c = c" using Cons.prems(2) by (intro replacement_of_other) (auto simp: cand_keys_def)
  have disj: "(\<lambda>r. event_hash (cand_event (fst r))) ` set rs \<inter> set (cand_keys cs) = {}"
    using Cons.prems(2) by (auto simp: cand_keys_def)
  consider "\<not> ?f" | "?f" "\<not> proposal_stage c" | "?f" "proposal_stage c" by blast
  then show ?case
  proof cases
    case 1
    then have "visit_candidates X I nodes e node cs (rs, adv) = Some (rs', adv')"
      using Cons.prems(4) by (auto split: if_split_asm)
    with Cons.IH[OF c(2) disj Cons.prems(3)] show ?thesis by blast
  next
    case 2
    with Cons.prems(4) same obtain new where "count_vote I nodes e node c = Some new" "rs' = (c, new) # rs" "adv' = adv"
      by (auto elim!: bind_SomeE)
    with count_vote_ok(1)[OF N(1-3) c(1) 2(2) N(4)] 2(1) Cons.prems(3) show ?thesis by auto
  next
    case 3
    obtain r where r: "required_proposals nodes = Some r" "unat r = card N + 1" using requirement_majority(2)[OF N(2,3)] by blast
    have "\<not> r \<le> proposals c" using few_proposals[OF N(1,2) c(1)] r(2) by (simp add: word_le_nat_alt)
    with 3 Cons.prems(4) same r(1) obtain new where new: "count_proposal X I nodes e node c = Some new"
      "visit_candidates X I nodes e node cs ((c, new) # rs, adv) = Some (rs', adv')" by (auto elim!: bind_SomeE)
    from count_proposal_ok(1)[OF N(1-3) X c(1) 3(2) N(4) _ new(1)] 3(1)
    have "list_all (\<lambda>r. cand_ok N (snd r)) ((c, new) # rs)" using Cons.prems(3) by simp
    with Cons.IH[OF c(2) _ _ new(2)] disj c(3) show ?thesis by auto
  qed
qed simp

section \<open>Pushing\<close>

definition graph_frame :: "('g, 'v, 'd, 's) cg_ext \<Rightarrow> bool" where
  "graph_frame X \<longleftrightarrow> (\<forall>g a b g'. g_add_edge X g a b = Some g' \<longrightarrow> g_fetch X g' = g_fetch X g)"

abbreviation nodes_of :: "('g, 'v, 'd, 's) CausalGraph \<Rightarrow> NodeId set" where
  "nodes_of cg \<equiv> fst ` set (validators cg)"

definition voting_ok :: "('g, 'v, 'd, 's) CausalGraph \<Rightarrow> bool" where
  "voting_ok cg \<longleftrightarrow> \<not> test_mode cg \<and> distinct (map fst (validators cg)) \<and> length (validators cg) < 65535 \<and>
     cands_ok (nodes_of cg) (candidates cg)"

lemma voting_nodes:
  assumes "voting_ok cg"
  shows "finite (nodes_of cg)" "card (nodes_of cg) < 65535" "node_count cg = word_of_nat (card (nodes_of cg))"
  using assms distinct_card[of "map fst (validators cg)"] by (auto simp: voting_ok_def node_count_def validators_count_def)

text \<open>The event at the far end of a new edge is one of a validator.\<close>

definition edge_ok :: "('g, 'v, 'd, 's) cg_ext \<Rightarrow> ('g, 'v, 'd, 's) CausalGraph \<Rightarrow> 'v \<times> 'v \<Rightarrow> bool" where
  "edge_ok X cg edge \<longleftrightarrow> (\<exists>e node. g_fetch X (graph cg) (snd edge) = Some e \<and> event_node_id e = Some node \<and> node \<in> nodes_of cg)"

lemma valid_event_node:
  "cg_is_valid X I cg e = Some Valid \<Longrightarrow> \<exists>node. event_node_id e = Some node \<and> node \<in> nodes_of cg"
proof -
  assume "cg_is_valid X I cg e = Some Valid"
  then obtain node st where "event_node_id e = Some node" "map_of (validators cg) node = Some st"
    by (auto simp: cg_is_valid_def elim!: bind_SomeE split: option.split_asm)
  then show ?thesis by (force dest!: map_of_SomeD)
qed

definition same_votes :: "('g, 'v, 'd, 's) CausalGraph \<Rightarrow> ('g, 'v, 'd, 's) CausalGraph \<Rightarrow> bool" where
  "same_votes cg cg' \<longleftrightarrow> graph cg' = graph cg \<and> validators cg' = validators cg \<and> candidates cg' = candidates cg \<and>
     test_mode cg' = test_mode cg"

lemma match_pending_edges:
  assumes "match_pending X I end_id n current_end t e = Some t'" "\<not> test_mode cg" "same_votes cg (t_cg t)"
    "list_all (edge_ok X cg) (t_add t)"
  shows "same_votes cg (t_cg t') \<and> list_all (edge_ok X cg) (t_add t')"
proof -
  from assms(1) obtain current resp where c: "g_fetch X (graph (t_cg t)) e = Some current"
    "(if test_mode (t_cg t) then Some Valid else cg_is_valid X I (t_cg t) current) = Some resp"
    by (auto simp: match_pending_def elim!: bind_SomeE)
  have "edge_ok X cg (end_id, e)" if "resp = Valid"
    using c assms(2,3) that valid_event_node[of X I "t_cg t" current] by (auto simp: same_votes_def edge_ok_def)
  with assms c show ?thesis
    by (auto simp: match_pending_def same_votes_def Let_def elim!: bind_SomeE split: if_split_asm)
qed

lemma foldm_match_edges:
  assumes "foldm (match_pending X I end_id n current_end) t ps = Some t'" "\<not> test_mode cg" "same_votes cg (t_cg t)"
    "list_all (edge_ok X cg) (t_add t)"
  shows "same_votes cg (t_cg t') \<and> list_all (edge_ok X cg) (t_add t')"
  using assms(1,3,4)
proof (induction ps arbitrary: t)
  case (Cons p ps)
  then obtain u where u: "match_pending X I end_id n current_end t p = Some u"
    "foldm (match_pending X I end_id n current_end) u ps = Some t'" by (auto elim!: bind_SomeE)
  from match_pending_edges[OF u(1) assms(2) Cons.prems(2,3)] Cons.IH[OF u(2)] show ?case by blast
qed simp

lemma foldm_drop_votes: "foldm drop_invalid cg es = Some cg' \<Longrightarrow> same_votes cg cg'"
proof (induction es arbitrary: cg)
  case (Cons e es)
  then obtain u where u: "drop_invalid cg e = Some u" "foldm drop_invalid u es = Some cg'" by (auto elim!: bind_SomeE)
  from u(1) have "same_votes cg u" by (auto simp: drop_invalid_def same_votes_def elim!: bind_SomeE)
  with Cons.IH[OF u(2)] show ?case by (auto simp: same_votes_def)
qed (simp add: same_votes_def)

lemma attach_ok:
  assumes X: "order_law X" "graph_frame X" and ok: "voting_ok cg" "edge_ok X cg edge"
    and run: "attach X I (cg, adv) edge = Some (cg', adv')"
  shows "voting_ok cg' \<and> adv' = adv \<and> validators cg' = validators cg \<and> g_fetch X (graph cg') = g_fetch X (graph cg)"
proof -
  from ok(2) obtain e node where e: "g_fetch X (graph cg) (snd edge) = Some e" "event_node_id e = Some node" "node \<in> nodes_of cg"
    by (auto simp: edge_ok_def)
  from run obtain g where g: "g_add_edge X (graph cg) (fst edge) (snd edge) = Some g"
    by (auto simp: attach_def elim!: bind_SomeE)
  have fetch: "g_fetch X g = g_fetch X (graph cg)" using X(2) g by (auto simp: graph_frame_def)
  have mode: "\<not> test_mode cg" and cands: "cands_ok (nodes_of cg) (candidates cg)" using ok(1) by (auto simp: voting_ok_def)
  note N = voting_nodes[OF ok(1)]
  have "cands_ok (nodes_of cg) (candidates cg') \<and> adv' = adv \<and> graph cg' = g \<and> validators cg' = validators cg \<and> test_mode cg' = test_mode cg"
  proof (cases "event_parent_hash e = event_hash (root cg)")
    case True
    have "cand_ok (nodes_of cg) (candidate_new e)" using N(1) e(3) by (intro candidate_new_ok) auto
    from cand_insert_ok[OF this cands] show ?thesis
      using run g mode e fetch True by (auto simp: attach_def Let_def)
  next
    case False
    let ?cs = "it_candidates X (candidates cg)"
    have perm: "mset ?cs = mset (candidates cg)" using X(1) by (simp add: order_law_def)
    have "mset (cand_keys ?cs) = mset (cand_keys (candidates cg))" by (simp add: cand_keys_def perm)
    from mset_eq_imp_distinct_iff[OF this] have "cands_ok (nodes_of cg) ?cs"
      using cands mset_eq_setD[OF perm] by (simp add: cands_ok_def list_all_iff)
    moreover from run g mode e fetch False obtain rs where rs: "visit_candidates X I (node_count cg) e node ?cs ([], adv) = Some (rs, adv')"
      "cg' = cg\<lparr>graph := g, candidates := foldl apply_replacement (candidates cg) rs\<rparr>"
      by (auto simp: attach_def node_count_def validators_count_def Let_def elim!: bind_SomeE)
    ultimately show ?thesis
      using visit_candidates_ok[OF N e(3) X(1) _ _ _ rs(1)] replacements_ok[OF _ cands] by auto
  qed
  with ok(1) fetch show ?thesis by (auto simp: voting_ok_def)
qed

lemma foldm_attach_ok:
  assumes X: "order_law X" "graph_frame X" and ok: "voting_ok cg" "list_all (edge_ok X cg) es"
    and run: "foldm (attach X I) (cg, adv) es = Some (cg', adv')"
  shows "voting_ok cg' \<and> adv' = adv \<and> validators cg' = validators cg"
  using ok run
proof (induction es arbitrary: cg)
  case (Cons e es)
  then obtain u adv1 where u: "attach X I (cg, adv) e = Some (u, adv1)" "foldm (attach X I) (u, adv1) es = Some (cg', adv')"
    by (auto elim!: bind_SomeE)
  from attach_ok[OF X Cons.prems(1) _ u(1)] Cons.prems(2)
  have a: "voting_ok u" "adv1 = adv" "validators u = validators cg" "g_fetch X (graph u) = g_fetch X (graph cg)" by auto
  then have "list_all (edge_ok X u) es" using Cons.prems(2) by (simp add: list_all_iff edge_ok_def)
  with Cons.IH[OF a(1)] u(2) a show ?case by simp
qed simp

lemma push_turn_ok:
  assumes X: "order_law X" "graph_frame X" and ok: "voting_ok cg"
    and run: "push_turn X I current queue [] ordered cg = Some (queue', adv', ordered', cg')"
  shows "voting_ok cg' \<and> adv' = [] \<and> ordered' = ordered \<and> validators cg' = validators cg"
proof -
  obtain end_id n where current: "current = (end_id, n)" by (cases current)
  have mode: "\<not> test_mode cg" using ok by (simp add: voting_ok_def)
  from run current obtain end_ev t cg1 cg2 where
      t: "foldm (match_pending X I end_id n end_ev)
        \<lparr>t_cg = cg, t_queue = queue, t_remove = [], t_add = [], t_found = False, t_invalid = []\<rparr> (it_pending X (pending cg)) = Some t"
    and cg1: "foldm drop_invalid (t_cg t) (t_invalid t) = Some cg1"
    and cg2: "foldm (attach X I) (cg1\<lparr>pending := filter (\<lambda>p. p \<notin> set (t_remove t)) (pending cg1)\<rparr>, []) (t_add t) = Some (cg2, adv')"
    and last: "(if test_mode cg2 then Some (cg2, ordered) else foldm (advance X I) (cg2, ordered) adv') = Some (cg', ordered')"
    unfolding push_turn_def Let_def by (auto elim!: bind_SomeE)
  from foldm_match_edges[OF t mode] have m: "same_votes cg (t_cg t)" "list_all (edge_ok X cg) (t_add t)"
    by (auto simp: same_votes_def)
  let ?cg = "cg1\<lparr>pending := filter (\<lambda>p. p \<notin> set (t_remove t)) (pending cg1)\<rparr>"
  have s: "same_votes cg ?cg" using m(1) foldm_drop_votes[OF cg1] by (auto simp: same_votes_def)
  then have "voting_ok ?cg" "list_all (edge_ok X ?cg) (t_add t)"
    using ok m(2) by (auto simp: voting_ok_def same_votes_def edge_ok_def list_all_iff)
  from foldm_attach_ok[OF X this cg2] last s show ?thesis by (auto simp: same_votes_def voting_ok_def)
qed

lemma push_loop_ok:
  assumes X: "order_law X" "graph_frame X"
    and run: "push_loop X I queue adv ordered cg = Some r" and ok: "voting_ok cg" "adv = []"
  shows "voting_ok (snd r) \<and> fst r = ordered \<and> validators (snd r) = validators cg"
  using ok X
proof (induction rule: push_loop.raw_induct[OF _ run])
  case (1 loop X I queue adv ordered cg r)
  show ?case
  proof (cases "pending cg = [] \<or> queue = []")
    case True
    with "1"(2) "1"(3) show ?thesis by (auto split: if_split_asm)
  next
    case False
    then obtain queue' current where q: "queue = queue' @ [current]" by (cases queue rule: rev_cases) auto
    with "1"(2) False obtain queue1 adv1 ordered1 cg1 where
      t: "push_turn X I current queue' adv ordered cg = Some (queue1, adv1, ordered1, cg1)"
      and l: "loop X I queue1 adv1 ordered1 cg1 = Some r" by (auto elim!: bind_SomeE)
    from push_turn_ok[OF "1"(5,6,3) t[unfolded "1"(4)]] have "voting_ok cg1" "adv1 = []" "ordered1 = ordered" "validators cg1 = validators cg"
      by auto
    with "1"(1)[OF l] "1"(5,6) show ?thesis by auto
  qed
qed

text \<open>As long as the validators do not change, nothing is ordered.\<close>

lemma cg_push_ok:
  assumes X: "order_law X" "graph_frame X" and ok: "voting_ok cg" and run: "cg_push X I e cg = Some (ordered, cg')"
  shows "voting_ok cg' \<and> ordered = [] \<and> validators cg' = validators cg"
proof -
  from run obtain h v g where
    "push_loop X I (it_ends X (ends cg)) [] [] (cg\<lparr>graph := g, lookup_table := (lookup_table cg)(h \<mapsto> v),
       pending := List.insert v (pending cg)\<rparr>) = Some (ordered, cg')"
    by (auto simp: cg_push_def Let_def elim!: bind_SomeE split: if_split_asm prod.split_asm)
  from push_loop_ok[OF X this] ok show ?thesis by (auto simp: voting_ok_def)
qed

end
