(* ===== verification/Causal_Returns.thy ===== *)
theory Causal_Returns
  imports Causal_Votes
begin

text \<open>
  Pushing an event returns.  The attached events are a forest: every one but the root has a single parent, one
  step closer to the root, and the entries of the queue carry the distance to the root.  So the search
  backwards stops at the root, the counters do not overflow, and no lookup fails.
\<close>

section \<open>Counting does not overflow\<close>

lemma checked_Suc: "unat (k :: u16) < 65535 \<Longrightarrow> \<exists>k'. checked_add k 1 = Some k'"
  by (simp add: checked_add_def)

lemma count_vote_total:
  assumes "finite N" "card N < 65535" "cand_ok N c" "\<not> proposal_stage c"
  shows "\<exists>c'. count_vote I nodes e node c = Some c'"
proof -
  have "unat (votes c) < majority (card N)" using assms(3,4) by (simp add: cand_ok_def)
  then have "unat (votes c) < 65535" using assms(2) by (simp add: majority_def)
  with checked_Suc[of "votes c"] show ?thesis by (auto simp: count_vote_def Let_def)
qed

lemma vote_for_voter_total:
  assumes "list_all (voter_ok others) vs" "finite others" "card others < 65535" "node \<in> others"
  shows "\<exists>vs' proposed. vote_for_voter I req e node vs = Some (vs', proposed)"
  using assms(1)
proof (induction vs)
  case (Cons v vs)
  obtain f k ids where v: "v = (f, k, ids)" by (cases v)
  have "unat k < 65535"
  proof -
    have "unat k = length ids" "distinct ids" "set ids \<subseteq> others" using Cons.prems v by (auto simp: voter_ok_def)
    then have "unat k \<le> card others" using card_mono[OF assms(2)] distinct_card by metis
    with assms(3) show ?thesis by simp
  qed
  with checked_Suc[of k] Cons v show ?case by auto
qed auto

lemma count_proposal_total:
  assumes "finite N" "card N < 65535" "order_law X" "cand_ok N c" "node \<in> N" "node \<notin> set (voters_ids c)"
  shows "\<exists>c'. count_proposal X I nodes e node c = Some c'"
proof -
  let ?o = "N - set (voters_ids c)"
  have perm: "mset (it_voters X (voters c)) = mset (voters c)" using assms(3) by (simp add: order_law_def)
  have "list_all (voter_ok ?o) (it_voters X (voters c))"
    using assms(4) mset_eq_setD[OF perm] by (auto simp: cand_ok_def list_all_iff)
  moreover have "card ?o < 65535" using assms(1,2) card_mono[of N ?o] by auto
  ultimately obtain vs p where "vote_for_voter I (proposal_requirement nodes) e node (it_voters X (voters c)) = Some (vs, p)"
    using vote_for_voter_total[of ?o _ node] assms(1,5,6) by blast
  moreover have "unat (proposals c) < 65535" using few_proposals[OF assms(1,2,4)] assms(1,2,4)
    by (auto simp: cand_ok_def majority_def split: if_split_asm)
  ultimately show ?thesis using checked_Suc[of "proposals c"] by (auto simp: count_proposal_def)
qed

lemma visit_candidates_total:
  assumes N: "finite N" "card N < 65535" "nodes = word_of_nat (card N)" "node \<in> N" and X: "order_law X"
    and cs: "cands_ok N cs" "(\<lambda>r. event_hash (cand_event (fst r))) ` set rs \<inter> set (cand_keys cs) = {}"
  shows "\<exists>r. visit_candidates X I nodes e node cs (rs, adv) = Some r"
  using cs
proof (induction cs arbitrary: rs adv)
  case (Cons c cs)
  let ?f = "happened_before I (event_stamp I (cand_event c)) (event_stamp I e) \<and> node \<notin> set (voters_ids c)"
  have c: "cand_ok N c" "cands_ok N cs" "event_hash (cand_event c) \<notin> set (cand_keys cs)"
    using Cons.prems(1) by (auto simp: cands_ok_def cand_keys_def)
  have same: "replacement_of rs c = c" using Cons.prems(2) by (intro replacement_of_other) (auto simp: cand_keys_def)
  have disj: "(\<lambda>r. event_hash (cand_event (fst r))) ` set rs \<inter> set (cand_keys cs) = {}"
    using Cons.prems(2) by (auto simp: cand_keys_def)
  consider "\<not> ?f" | "?f" "\<not> proposal_stage c" | "?f" "proposal_stage c" by blast
  then show ?case
  proof cases
    case 1
    with Cons.IH[OF c(2) disj] show ?thesis by auto
  next
    case 2
    with count_vote_total[OF N(1,2) c(1), of I nodes e node] same show ?thesis by auto
  next
    case 3
    obtain r where r: "required_proposals nodes = Some r" using requirement_majority(2)[OF N(2,3)] by blast
    obtain new where new: "count_proposal X I nodes e node c = Some new"
      using count_proposal_total[OF N(1,2) X c(1) N(4)] 3(1) by blast
    have "(\<lambda>r. event_hash (cand_event (fst r))) ` set ((c, new) # rs) \<inter> set (cand_keys cs) = {}" using disj c(3) by auto
    from Cons.IH[OF c(2) this] 3 same r new show ?thesis by auto
  qed
qed simp

section \<open>The graph\<close>

text \<open>What the loop relies on of the graph: new vertices are new and without edges, and a first edge to a vertex is its only one.\<close>

definition graph_law :: "('g, 'v, 'd, 's) cg_ext \<Rightarrow> bool" where
  "graph_law X \<longleftrightarrow> (\<forall>v. g_fetch X (g_new X) v = None) \<and>
     (\<forall>g e v g'. g_add_vertex X g e = (v, g') \<longrightarrow> g_fetch X g v = None \<and> g_fetch X g' = (g_fetch X g)(v \<mapsto> e) \<and>
       g_in X g' = (g_in X g)(v := [])) \<and>
     (\<forall>g a b. g_fetch X g a \<noteq> None \<and> g_fetch X g b \<noteq> None \<longrightarrow> (\<exists>g'. g_add_edge X g a b = Some g' \<and>
       (g_in X g b = [] \<longrightarrow> g_in X g' = (g_in X g)(b := [a]))))"

definition wf_event :: "('d, 's) Event \<Rightarrow> bool" where
  "wf_event e \<longleftrightarrow> event_hash e \<noteq> None \<and> event_parent_hash e \<noteq> None \<and> event_node_id e \<noteq> None"

definition rooted :: "('g, 'v, 'd, 's) cg_ext \<Rightarrow> 'g \<Rightarrow> ('v \<rightharpoonup> nat) \<Rightarrow> bool" where
  "rooted X g depth \<longleftrightarrow> (\<forall>v k. depth v = Some k \<longrightarrow> g_fetch X g v \<noteq> None \<and>
     (case k of 0 \<Rightarrow> g_in X g v = [] | Suc j \<Rightarrow> (\<exists>u. g_in X g v = [u] \<and> depth u = Some j)))"

definition waiting :: "('g, 'v, 'd, 's) cg_ext \<Rightarrow> ('g, 'v, 'd, 's) CausalGraph \<Rightarrow> 'v \<Rightarrow> bool" where
  "waiting X cg v \<longleftrightarrow> g_in X (graph cg) v = [] \<and> (\<exists>e h. g_fetch X (graph cg) v = Some e \<and> wf_event e \<and>
     event_hash e = Some h \<and> lookup_table cg h = Some v)"

definition at_depth :: "('v \<rightharpoonup> nat) \<Rightarrow> ('v \<times> nat) list \<Rightarrow> bool" where
  "at_depth depth q \<longleftrightarrow> (\<forall>(v, n) \<in> set q. depth v = Some n)"

definition forest :: "('g, 'v, 'd, 's) cg_ext \<Rightarrow> ('g, 'v, 'd, 's) CausalGraph \<Rightarrow> ('v \<rightharpoonup> nat) \<Rightarrow> bool" where
  "forest X cg depth \<longleftrightarrow> rooted X (graph cg) depth \<and> at_depth depth (ends cg) \<and> distinct (pending cg) \<and>
     (\<forall>v \<in> set (pending cg). depth v = None \<and> waiting X cg v) \<and>
     (\<forall>h v. lookup_table cg h = Some v \<longrightarrow> g_fetch X (graph cg) v \<noteq> None)"

lemma attach_total:
  assumes X: "order_law X" "graph_law X" and ok: "voting_ok cg" "edge_ok X cg (a, b)"
    and g: "g_fetch X (graph cg) a \<noteq> None" "g_in X (graph cg) b = []" and frame: "graph_frame X"
  shows "\<exists>cg' adv'. attach X I (cg, adv) (a, b) = Some (cg', adv') \<and> g_in X (graph cg') = (g_in X (graph cg))(b := [a]) \<and>
    ends cg' = ends cg \<and> pending cg' = pending cg \<and> lookup_table cg' = lookup_table cg"
proof -
  from ok(2) obtain e node where e: "g_fetch X (graph cg) b = Some e" "event_node_id e = Some node" "node \<in> nodes_of cg"
    by (auto simp: edge_ok_def)
  from X(2) g e(1) obtain g' where g': "g_add_edge X (graph cg) a b = Some g'" "g_in X g' = (g_in X (graph cg))(b := [a])"
    unfolding graph_law_def by (metis option.discI)
  have fetch: "g_fetch X g' = g_fetch X (graph cg)" using frame g'(1) by (auto simp: graph_frame_def)
  have mode: "\<not> test_mode cg" and cands: "cands_ok (nodes_of cg) (candidates cg)" using ok(1) by (auto simp: voting_ok_def)
  let ?cs = "it_candidates X (candidates cg)"
  have perm: "mset ?cs = mset (candidates cg)" using X(1) by (simp add: order_law_def)
  have "mset (cand_keys ?cs) = mset (cand_keys (candidates cg))" by (simp add: cand_keys_def perm)
  from mset_eq_imp_distinct_iff[OF this] have "cands_ok (nodes_of cg) ?cs"
    using cands mset_eq_setD[OF perm] by (simp add: cands_ok_def list_all_iff)
  from visit_candidates_total[OF voting_nodes[OF ok(1)] e(3) X(1) this, of "[]" I e adv]
  obtain r where "visit_candidates X I (node_count cg) e node ?cs ([], adv) = Some r" by auto
  with g' e fetch mode show ?thesis by (cases r) (auto simp: attach_def Let_def node_count_def validators_count_def)
qed

lemma foldm_attach_total:
  assumes X: "order_law X" "graph_law X" "graph_frame X" and ok: "voting_ok cg" "list_all (edge_ok X cg) (map (Pair a) bs)"
    and g: "g_fetch X (graph cg) a \<noteq> None" "\<forall>b \<in> set bs. g_in X (graph cg) b = []" "distinct bs"
  shows "\<exists>cg' adv'. foldm (attach X I) (cg, adv) (map (Pair a) bs) = Some (cg', adv') \<and>
    g_in X (graph cg') = (\<lambda>v. if v \<in> set bs then [a] else g_in X (graph cg) v) \<and> g_fetch X (graph cg') = g_fetch X (graph cg) \<and>
    ends cg' = ends cg \<and> pending cg' = pending cg \<and> lookup_table cg' = lookup_table cg"
  using ok g
proof (induction bs arbitrary: cg adv)
  case (Cons b bs)
  then obtain cg1 adv1 where one: "attach X I (cg, adv) (a, b) = Some (cg1, adv1)"
    "g_in X (graph cg1) = (g_in X (graph cg))(b := [a])" "ends cg1 = ends cg" "pending cg1 = pending cg" "lookup_table cg1 = lookup_table cg"
    using attach_total[OF X(1,2) Cons.prems(1) _ Cons.prems(3) _ X(3), of b I adv] by auto
  have ok1: "voting_ok cg1" "validators cg1 = validators cg" "g_fetch X (graph cg1) = g_fetch X (graph cg)"
    using attach_ok[OF X(1,3) Cons.prems(1) _ one(1)] Cons.prems(2) by auto
  have "list_all (edge_ok X cg1) (map (Pair a) bs)" using Cons.prems(2) ok1 by (simp add: list_all_iff edge_ok_def)
  moreover have "\<forall>c \<in> set bs. g_in X (graph cg1) c = []" using Cons.prems(4,5) one(2) by auto
  ultimately obtain cg2 adv2 where "foldm (attach X I) (cg1, adv1) (map (Pair a) bs) = Some (cg2, adv2)"
    "g_in X (graph cg2) = (\<lambda>v. if v \<in> set bs then [a] else g_in X (graph cg1) v)" "g_fetch X (graph cg2) = g_fetch X (graph cg1)"
    "ends cg2 = ends cg1" "pending cg2 = pending cg1" "lookup_table cg2 = lookup_table cg1"
    using Cons.IH[OF ok1(1), of adv1] Cons.prems(3,5) ok1(3) by auto
  with one ok1 Cons.prems(5) show ?case by (auto simp: fun_eq_iff)
qed auto

section \<open>One turn\<close>

definition same_graph :: "('g, 'v, 'd, 's) CausalGraph \<Rightarrow> ('g, 'v, 'd, 's) CausalGraph \<Rightarrow> bool" where
  "same_graph cg cg' \<longleftrightarrow> graph cg' = graph cg \<and> lookup_table cg' = lookup_table cg \<and> validators cg' = validators cg"

lemma cg_is_valid_total:
  assumes "wf_event e" "\<forall>h v. lookup_table cg h = Some v \<longrightarrow> g_fetch X (graph cg) v \<noteq> None"
  shows "\<exists>r. cg_is_valid X I cg e = Some r"
proof -
  obtain node parent where e: "event_node_id e = Some node" "event_parent_hash e = Some parent"
    using assms(1) by (auto simp: wf_event_def)
  show ?thesis
  proof (cases "lookup_table cg parent")
    case None
    with e show ?thesis by (auto simp: cg_is_valid_def split: option.split)
  next
    case (Some v)
    with assms(2) obtain p where "g_fetch X (graph cg) v = Some p" by blast
    with e Some show ?thesis by (auto simp: cg_is_valid_def Let_def split: option.split)
  qed
qed

lemma update_entries: "set (AList.update k v al) \<subseteq> insert (k, v) (set al)"
  by (induction al) auto

lemma delete_entries: "set (AList.delete k al) \<subseteq> set al"
  by (induction al) auto

text \<open>The events that match, in the order in which they are visited.\<close>

definition matched ::
  "('g, 'v, 'd, 's) CausalGraph \<Rightarrow> 'v \<Rightarrow> nat \<Rightarrow> 'v list \<Rightarrow> ('g, 'v, 'd, 's) turn \<Rightarrow> ('g, 'v, 'd, 's) turn \<Rightarrow> 'v list \<Rightarrow> bool" where
  "matched cg end_id n ps t t' ms \<longleftrightarrow> distinct ms \<and> set ms \<subseteq> set ps \<and>
    same_graph cg (t_cg t') \<and> pending (t_cg t') = pending (t_cg t) \<and>
    set (ends (t_cg t')) \<subseteq> set (ends (t_cg t)) \<union> (\<lambda>v. (v, n + 1)) ` set ms \<and>
    set (t_queue t') = set (t_queue t) \<union> (\<lambda>v. (v, n + 1)) ` set ms \<and>
    t_remove t' = t_remove t @ ms \<and> t_add t' = t_add t @ map (Pair end_id) ms \<and> (t_found t' \<longleftrightarrow> t_found t \<or> ms \<noteq> []) \<and>
    (ms = [] \<longrightarrow> t_queue t' = t_queue t) \<and>
    (\<forall>e \<in> set (t_invalid t'). e \<in> set (t_invalid t) \<or> (\<exists>h v. event_hash e = Some h \<and> lookup_table cg h = Some v))"

lemma match_total:
  assumes "\<forall>h v. lookup_table cg h = Some v \<longrightarrow> g_fetch X (graph cg) v \<noteq> None" "\<forall>v \<in> set ps. waiting X cg v"
    "distinct ps" "same_graph cg (t_cg t)"
  shows "\<exists>t' ms. foldm (match_pending X I end_id n current_end) t ps = Some t' \<and> matched cg end_id n ps t t' ms"
  using assms(2-4)
proof (induction ps arbitrary: t)
  case Nil
  then show ?case by (intro exI[of _ t] exI[of _ "[]"]) (simp add: matched_def)
next
  case (Cons p ps)
  from Cons.prems(1) obtain e h where e: "g_fetch X (graph cg) p = Some e" "wf_event e" "event_hash e = Some h" "lookup_table cg h = Some p"
    by (auto simp: waiting_def)
  have sg: "graph (t_cg t) = graph cg" "lookup_table (t_cg t) = lookup_table cg" "validators (t_cg t) = validators cg"
    using Cons.prems(3) by (simp_all add: same_graph_def)
  obtain resp where resp: "(if test_mode (t_cg t) then Some Valid else cg_is_valid X I (t_cg t) e) = Some resp"
    using cg_is_valid_total[OF e(2), of "t_cg t" X I] assms(1) sg by (cases "test_mode (t_cg t)") auto
  let ?matches = "resp = Valid \<and> event_parent_hash e = event_hash current_end"
  have tail: "\<forall>v \<in> set ps. waiting X cg v" "distinct ps" "p \<notin> set ps" using Cons.prems by auto
  show ?case
  proof (cases ?matches)
    case True
    obtain node where "event_node_id e = Some node" using e(2) by (auto simp: wf_event_def)
    then have "cache_following (cg_node_id (t_cg t)) e (n + 1) (highest_following_events (t_cg t)) \<noteq> None"
      by (simp add: cache_following_def)
    then obtain hf where hf: "cache_following (cg_node_id (t_cg t)) e (n + 1) (highest_following_events (t_cg t)) = Some hf" by blast
    define u where "u = t\<lparr>t_cg := (t_cg t)\<lparr>ends := AList.delete end_id (AList.update p (n + 1) (ends (t_cg t))),
        highest_events := cache_highest e (n + 1) (highest_events (t_cg t)), highest_following_events := hf\<rparr>,
      t_queue := (p, n + 1) # t_queue t, t_remove := t_remove t @ [p], t_add := t_add t @ [(end_id, p)], t_found := True\<rparr>"
    have step: "match_pending X I end_id n current_end t p = Some u"
      using True e(1) sg resp hf by (simp add: match_pending_def u_def Let_def)
    have "same_graph cg (t_cg u)" using Cons.prems(3) by (simp add: u_def same_graph_def)
    from Cons.IH[OF tail(1,2) this] obtain t' ms where
      r: "foldm (match_pending X I end_id n current_end) u ps = Some t'" "matched cg end_id n ps u t' ms" by blast
    have "set (ends (t_cg u)) \<subseteq> insert (p, n + 1) (set (ends (t_cg t)))"
      using delete_entries[of end_id "AList.update p (n + 1) (ends (t_cg t))"] update_entries[of p "n + 1" "ends (t_cg t)"]
      by (auto simp: u_def)
    moreover have "t_remove u = t_remove t @ [p]" "t_add u = t_add t @ [(end_id, p)]" "t_found u" "pending (t_cg u) = pending (t_cg t)"
      "t_queue u = (p, n + 1) # t_queue t" "t_invalid u = t_invalid t" by (simp_all add: u_def)
    ultimately have "matched cg end_id n (p # ps) t t' (p # ms)" using r(2) tail(3) by (auto simp: matched_def)
    with r(1) step show ?thesis by auto
  next
    case False
    define u where "u = (if resp = Valid \<or> resp = CannotDetermineValidity then t else t\<lparr>t_invalid := t_invalid t @ [e]\<rparr>)"
    have step: "match_pending X I end_id n current_end t p = Some u"
      using False e(1) sg resp by (simp add: match_pending_def u_def)
    have u: "u = t \<or> u = t\<lparr>t_invalid := t_invalid t @ [e]\<rparr>" by (simp add: u_def)
    then have "same_graph cg (t_cg u)" using Cons.prems(3) by auto
    from Cons.IH[OF tail(1,2) this] obtain t' ms where
      r: "foldm (match_pending X I end_id n current_end) u ps = Some t'" "matched cg end_id n ps u t' ms" by blast
    have "t_cg u = t_cg t" "t_queue u = t_queue t" "t_remove u = t_remove t" "t_add u = t_add t" "t_found u = t_found t"
      "set (t_invalid u) \<subseteq> insert e (set (t_invalid t))" using u by auto
    with r(2) e(3,4) have "matched cg end_id n (p # ps) t t' ms" by (auto simp: matched_def)
    with r(1) step show ?thesis by auto
  qed
qed

lemma drop_total:
  assumes "\<forall>e \<in> set es. \<exists>h v. event_hash e = Some h \<and> lookup_table cg h = Some v"
  shows "\<exists>cg'. foldm drop_invalid cg es = Some cg' \<and> same_graph cg cg' \<and> ends cg' = ends cg \<and>
    (\<exists>P. pending cg' = filter P (pending cg))"
  using assms
proof (induction es arbitrary: cg)
  case Nil
  then show ?case by (auto simp: same_graph_def intro: exI[of _ "\<lambda>_. True"])
next
  case (Cons e es)
  then obtain h v where h: "event_hash e = Some h" "lookup_table cg h = Some v" by auto
  let ?u = "cg\<lparr>pending := filter (\<lambda>p. p \<noteq> v) (pending cg)\<rparr>"
  obtain cg' P where "foldm drop_invalid ?u es = Some cg'" "same_graph ?u cg'" "ends cg' = ends cg"
    "pending cg' = filter P (filter (\<lambda>p. p \<noteq> v) (pending cg))" using Cons.IH[of ?u] Cons.prems by auto
  moreover have "drop_invalid cg e = Some ?u" using h by (simp add: drop_invalid_def)
  ultimately show ?case by (auto simp: same_graph_def)
qed

lemma step_back_total:
  assumes "rooted X g depth" "depth v = Some n" "at_depth depth queue"
  shows "\<exists>queue'. step_back X g v n queue = Some queue' \<and> at_depth depth queue' \<and>
    sum_list (map (Suc \<circ> snd) queue') < sum_list (map (Suc \<circ> snd) (queue @ [(v, n)]))"
proof (cases n)
  case 0
  with assms(1,2) have "g_in X g v = []" by (force simp: rooted_def)
  with assms(3) show ?thesis by (simp add: step_back_def)
next
  case (Suc j)
  with assms obtain u where "g_in X g v = [u]" "depth u = Some j" by (force simp: rooted_def)
  with assms(3) Suc show ?thesis by (simp add: step_back_def at_depth_def)
qed

lemma push_turn_total:
  assumes X: "order_law X" "graph_law X" "graph_frame X" and ok: "voting_ok cg" and f: "forest X cg depth"
    and q: "at_depth depth (queue @ [current])"
  shows "\<exists>queue' adv' ordered' cg' depth'. push_turn X I current queue [] ordered cg = Some (queue', adv', ordered', cg') \<and>
    forest X cg' depth' \<and> at_depth depth' queue' \<and> (length (pending cg') < length (pending cg) \<or>
      length (pending cg') \<le> length (pending cg) \<and>
      sum_list (map (Suc \<circ> snd) queue') < sum_list (map (Suc \<circ> snd) (queue @ [current])))"
proof -
  obtain v n where current: "current = (v, n)" by (cases current)
  have f': "rooted X (graph cg) depth" "at_depth depth (ends cg)" "distinct (pending cg)"
    "\<forall>w \<in> set (pending cg). depth w = None \<and> waiting X cg w" "\<forall>h w. lookup_table cg h = Some w \<longrightarrow> g_fetch X (graph cg) w \<noteq> None"
    using f by (auto simp: forest_def)
  have vn: "depth v = Some n" "at_depth depth queue" using q current by (auto simp: at_depth_def)
  then obtain end_ev where end_ev: "g_fetch X (graph cg) v = Some end_ev" using f'(1) by (auto simp: rooted_def)
  let ?ps = "it_pending X (pending cg)"
  have perm: "mset ?ps = mset (pending cg)" using X(1) by (simp add: order_law_def)
  have ps: "set ?ps = set (pending cg)" "distinct ?ps" using mset_eq_setD[OF perm] mset_eq_imp_distinct_iff[OF perm] f'(3) by auto
  let ?t0 = "\<lparr>t_cg = cg, t_queue = queue, t_remove = [], t_add = [], t_found = False, t_invalid = []\<rparr>"
  obtain t ms where t: "foldm (match_pending X I v n end_ev) ?t0 ?ps = Some t" "distinct ms" "set ms \<subseteq> set (pending cg)"
    "same_graph cg (t_cg t)" "pending (t_cg t) = pending cg"
    "set (ends (t_cg t)) \<subseteq> set (ends cg) \<union> (\<lambda>w. (w, n + 1)) ` set ms"
    "set (t_queue t) = set queue \<union> (\<lambda>w. (w, n + 1)) ` set ms" "t_remove t = ms" "t_add t = map (Pair v) ms"
    "t_found t \<longleftrightarrow> ms \<noteq> []" "ms = [] \<longrightarrow> t_queue t = queue"
    "\<forall>e \<in> set (t_invalid t). \<exists>h w. event_hash e = Some h \<and> lookup_table cg h = Some w"
    using match_total[of cg X ?ps ?t0 I v n end_ev] f'(4,5) ps by (auto simp: same_graph_def matched_def)
  define depth' where "depth' = (\<lambda>w. if w \<in> set ms then Some (n + 1) else depth w)"
  have old: "depth' w = Some k" if "depth w = Some k" for w k using that t(3) f'(4) by (auto simp: depth'_def)
  obtain cg1 P where cg1: "foldm drop_invalid (t_cg t) (t_invalid t) = Some cg1" "same_graph (t_cg t) cg1" "ends cg1 = ends (t_cg t)"
    "pending cg1 = filter P (pending cg)"
    using drop_total[of "t_invalid t" "t_cg t"] t(4,5,12) by (auto simp: same_graph_def)
  let ?cg = "cg1\<lparr>pending := filter (\<lambda>p. p \<notin> set (t_remove t)) (pending cg1)\<rparr>"
  have sg: "graph cg1 = graph cg" "lookup_table cg1 = lookup_table cg" "validators cg1 = validators cg"
    using t(4) cg1(2) by (auto simp: same_graph_def)
  have "same_votes cg (t_cg t)" "list_all (edge_ok X cg) (t_add t)"
    using foldm_match_edges[OF t(1), of cg] ok by (auto simp: voting_ok_def same_votes_def)
  then have ok1: "voting_ok ?cg" "list_all (edge_ok X ?cg) (map (Pair v) ms)"
    using ok foldm_drop_votes[OF cg1(1)] t(9) by (auto simp: voting_ok_def same_votes_def edge_ok_def list_all_iff)
  have base: "graph ?cg = graph cg" "lookup_table ?cg = lookup_table cg" "ends ?cg = ends (t_cg t)"
    "pending ?cg = filter (\<lambda>p. p \<notin> set ms) (filter P (pending cg))" using sg cg1(3,4) t(8) by simp_all
  have fresh: "\<forall>b \<in> set ms. g_in X (graph cg) b = []" using t(3) f'(4) by (auto simp: waiting_def)
  obtain cg2 adv2 where cg2: "foldm (attach X I) (?cg, []) (t_add t) = Some (cg2, adv2)"
    "g_in X (graph cg2) = (\<lambda>w. if w \<in> set ms then [v] else g_in X (graph cg) w)" "g_fetch X (graph cg2) = g_fetch X (graph cg)"
    "ends cg2 = ends (t_cg t)" "pending cg2 = filter (\<lambda>p. p \<notin> set ms) (filter P (pending cg))" "lookup_table cg2 = lookup_table cg"
    using foldm_attach_total[OF X ok1, of I "[]", unfolded base] end_ev fresh t(2,9) by auto
  have adv: "adv2 = []" using foldm_attach_ok[OF X(1,3) ok1 cg2(1)[unfolded t(9)]] by simp
  obtain queue' where queue': "(if t_found t then Some (t_queue t) else step_back X (graph cg) v n (t_queue t)) = Some queue'"
    "at_depth depth' queue'" "ms = [] \<Longrightarrow> sum_list (map (Suc \<circ> snd) queue') < sum_list (map (Suc \<circ> snd) (queue @ [current]))"
  proof (cases "ms = []")
    case True
    with step_back_total[OF f'(1) vn] t(10,11) current that show ?thesis by (auto simp: depth'_def)
  next
    case False
    have "at_depth depth' (t_queue t)" using vn(2) old t(7) by (auto simp: at_depth_def depth'_def)
    with False t(10) that show ?thesis by auto
  qed
  have run: "push_turn X I current queue [] ordered cg = Some (queue', adv2, ordered, cg2)"
    using end_ev t(1) queue'(1) cg1(1) cg2(1) adv unfolding push_turn_def current by (simp add: Let_def)
  have "rooted X (graph cg2) depth'"
    unfolding rooted_def
  proof (intro allI impI)
    fix w k
    assume w: "depth' w = Some k"
    show "g_fetch X (graph cg2) w \<noteq> None \<and> (case k of 0 \<Rightarrow> g_in X (graph cg2) w = [] |
      Suc j \<Rightarrow> \<exists>u. g_in X (graph cg2) w = [u] \<and> depth' u = Some j)"
    proof (cases "w \<in> set ms")
      case True
      with w t(3) f'(4) old[OF vn(1)] show ?thesis by (auto simp: depth'_def cg2 waiting_def)
    next
      case False
      with w f'(1) old show ?thesis by (fastforce simp: depth'_def cg2 rooted_def split: nat.split)
    qed
  qed
  moreover have "at_depth depth' (ends cg2)"
  proof -
    have "depth' w = Some k" if "(w, k) \<in> set (ends (t_cg t))" for w k
    proof -
      from that t(6) consider "(w, k) \<in> set (ends cg)" | "w \<in> set ms" "k = n + 1" by auto
      then show ?thesis
      proof cases
        case 1
        with f'(2) show ?thesis by (intro old) (auto simp: at_depth_def)
      qed (simp add: depth'_def)
    qed
    then show ?thesis by (auto simp: at_depth_def cg2)
  qed
  ultimately have "forest X cg2 depth'"
    using f'(3-5) by (auto simp: forest_def cg2 depth'_def waiting_def)
  moreover have "length (pending cg2) \<le> length (pending cg)" unfolding cg2(5) by (meson le_trans length_filter_le)
  moreover have "length (pending cg2) < length (pending cg)" if "ms \<noteq> []"
  proof -
    from that t(3) obtain x where "x \<in> set (pending cg)" "x \<in> set ms" by (cases ms) auto
    then show ?thesis unfolding cg2(5) filter_filter by (intro length_filter_less) auto
  qed
  ultimately show ?thesis using run queue'(2,3) by blast
qed

section \<open>The loop\<close>

lemma push_loop_total:
  assumes X: "order_law X" "graph_law X" "graph_frame X"
    and "voting_ok cg" "forest X cg depth" "at_depth depth queue"
  shows "\<exists>ordered' cg' depth'. push_loop X I queue [] ordered cg = Some (ordered', cg') \<and> forest X cg' depth'"
  using assms(4-6)
proof (induction "(queue, cg)" arbitrary: queue cg depth ordered
    rule: wf_induct_rule[OF wf_measures[of "[\<lambda>(q, cg). length (pending cg), \<lambda>(q, cg). sum_list (map (Suc \<circ> snd) q)]"]])
  case 1
  show ?case
  proof (cases "pending cg = [] \<or> queue = []")
    case True
    with 1 show ?thesis by (subst push_loop.simps) auto
  next
    case False
    then obtain rest current where q: "queue = rest @ [current]" by (cases queue rule: rev_cases) auto
    from push_turn_total[OF X "1.prems"(1,2), of rest current I ordered] "1.prems"(3) q obtain queue' adv' ordered' cg' depth' where
      t: "push_turn X I current rest [] ordered cg = Some (queue', adv', ordered', cg')" "forest X cg' depth'" "at_depth depth' queue'"
      and less: "length (pending cg') < length (pending cg) \<or> length (pending cg') \<le> length (pending cg) \<and>
        sum_list (map (Suc \<circ> snd) queue') < sum_list (map (Suc \<circ> snd) queue)" by blast
    from push_turn_ok[OF X(1,3) "1.prems"(1) t(1)] have "voting_ok cg'" "adv' = []" by auto
    moreover from less have "((queue', cg'), queue, cg) \<in>
        measures [\<lambda>(q, cg). length (pending cg), \<lambda>(q, cg). sum_list (map (Suc \<circ> snd) q)]" by auto
    ultimately have "\<exists>o' c' d'. push_loop X I queue' adv' ordered' cg' = Some (o', c') \<and> forest X c' d'"
      using "1.hyps"[of queue' cg' depth' ordered'] t(2,3) by blast
    with t(1) False q show ?thesis by (subst push_loop.simps) auto
  qed
qed

lemma forest_new_vertex:
  assumes "graph_law X" "forest X cg depth" "wf_event e" "event_hash e = Some h" "lookup_table cg h = None"
    "g_add_vertex X (graph cg) e = (v, g)"
  shows "forest X (cg\<lparr>graph := g, lookup_table := (lookup_table cg)(h \<mapsto> v), pending := List.insert v (pending cg)\<rparr>) depth"
proof -
  have g: "g_fetch X (graph cg) v = None" "g_fetch X g = (g_fetch X (graph cg))(v \<mapsto> e)" "g_in X g = (g_in X (graph cg))(v := [])"
    using assms(1,6) by (auto simp: graph_law_def)
  let ?cg = "cg\<lparr>graph := g, lookup_table := (lookup_table cg)(h \<mapsto> v), pending := List.insert v (pending cg)\<rparr>"
  have new: "depth v = None" using assms(2) g(1) unfolding forest_def rooted_def by (metis option.exhaust)
  have "rooted X g depth"
    unfolding rooted_def
  proof (intro allI impI)
    fix w k
    assume w: "depth w = Some k"
    with new have "w \<noteq> v" by auto
    then have same: "g_in X g w = g_in X (graph cg) w" "g_fetch X g w = g_fetch X (graph cg) w" by (simp_all add: g(2,3))
    from w assms(2) show "g_fetch X g w \<noteq> None \<and> (case k of 0 \<Rightarrow> g_in X g w = [] | Suc j \<Rightarrow> \<exists>u. g_in X g w = [u] \<and> depth u = Some j)"
      unfolding same forest_def rooted_def by blast
  qed
  moreover have "waiting X ?cg w" if "w \<in> set (pending cg)" for w
  proof -
    from that assms(2) have "waiting X cg w" by (simp add: forest_def)
    then obtain f k where f: "g_in X (graph cg) w = []" "g_fetch X (graph cg) w = Some f" "wf_event f" "event_hash f = Some k"
      "lookup_table cg k = Some w" by (auto simp: waiting_def)
    moreover from this have "w \<noteq> v" "k \<noteq> h" using g(1) assms(5) by auto
    ultimately show ?thesis by (simp add: waiting_def g(2,3))
  qed
  moreover have "waiting X ?cg v" using assms(3,4) by (simp add: waiting_def g(2,3))
  ultimately show ?thesis
    using assms(2) new g(2) by (simp add: forest_def)
qed

lemma cg_push_total:
  assumes X: "order_law X" "graph_law X" "graph_frame X"
    and ok: "voting_ok cg" "forest X cg depth" and e: "wf_event e" "contains cg e = Some False"
  shows "\<exists>ordered cg' depth'. cg_push X I e cg = Some (ordered, cg') \<and> forest X cg' depth'"
proof -
  obtain h where h: "event_hash e = Some h" "lookup_table cg h = None" using e by (auto simp: contains_def wf_event_def)
  obtain v g where g: "g_add_vertex X (graph cg) e = (v, g)" by (cases "g_add_vertex X (graph cg) e")
  let ?cg = "cg\<lparr>graph := g, lookup_table := (lookup_table cg)(h \<mapsto> v), pending := List.insert v (pending cg)\<rparr>"
  have perm: "mset (it_ends X (ends cg)) = mset (ends cg)" using X(1) by (simp add: order_law_def)
  have "at_depth depth (it_ends X (ends cg))" using ok(2) mset_eq_setD[OF perm] by (simp add: forest_def at_depth_def)
  moreover have "voting_ok ?cg" using ok(1) by (simp add: voting_ok_def)
  ultimately obtain ordered cg' depth' where "push_loop X I (it_ends X (ends cg)) [] [] ?cg = Some (ordered, cg')" "forest X cg' depth'"
    using push_loop_total[OF X _ forest_new_vertex[OF X(2) ok(2) e(1) h g], of "it_ends X (ends cg)" I "[]"] by auto
  with e h g show ?thesis by (auto simp: cg_push_def wf_event_def contains_def Let_def)
qed

lemma new_forest:
  assumes "graph_law X" "causal_graph_new X test node root_event = Some cg"
  shows "\<exists>depth. forest X cg depth"
proof -
  obtain v g h where g: "g_add_vertex X (g_new X) root_event = (v, g)"
    "cg = \<lparr>graph = g, cg_node_id = node, pending = [], ends = [(v, 0)], lookup_table = [h \<mapsto> v],
       highest_events = ([root_event], 0), highest_following_events = ([], 0), root = root_event, validators = [],
       next_largest = node, candidates = [], test_mode = test\<rparr>"
    using assms(2) by (auto simp: causal_graph_new_def Let_def elim!: bind_SomeE split: prod.split_asm)
  have "g_fetch X g v \<noteq> None" "g_in X g v = []" using assms(1) g(1) by (auto simp: graph_law_def)
  then show ?thesis by (intro exI[of _ "[v \<mapsto> 0]"]) (auto simp: forest_def rooted_def at_depth_def g(2) split: if_split_asm)
qed

end
