(* ===== verification/Consensus_Props.thy ===== *)
theory Consensus_Props
  imports Consensus_Machine Causal_Returns "HOL-Library.Sublist"
begin

text \<open>
  The injection of validators: the stamps it hands out are the leaves of a binary tree of forks, so no two
  validators share a part of the id space.
\<close>

section \<open>Paths of forks\<close>

definition at_path :: "'s itc \<Rightarrow> bool list \<Rightarrow> 's Stamp" where
  "at_path I p = foldl (\<lambda>s b. (if b then snd else fst) (fork I s)) (seed I) p"

lemma at_path_simps [simp]:
  "at_path I [] = seed I" "at_path I (p @ [False]) = fst (fork I (at_path I p))" "at_path I (p @ [True]) = snd (fork I (at_path I p))"
  by (simp_all add: at_path_def)

text \<open>No path is a prefix of another one.\<close>

definition separate :: "NodeId set \<Rightarrow> (NodeId \<Rightarrow> bool list) \<Rightarrow> bool" where
  "separate N path \<longleftrightarrow> (\<forall>a \<in> N. \<forall>b \<in> N. a \<noteq> b \<longrightarrow> \<not> prefix (path a) (path b))"

lemma separate_fork:
  assumes "separate N path" "f \<in> N" "node \<notin> N"
  shows "separate (insert node N) (path(f := path f @ [False], node := path f @ [True]))"
proof -
  have apart: "\<not> prefix (path a) (path f @ [b])" "\<not> prefix (path f @ [b]) (path a)" if "a \<in> N" "a \<noteq> f" for a b
  proof -
    have "\<not> prefix (path a) (path f)" "\<not> prefix (path f) (path a)" using assms(1,2) that by (auto simp: separate_def)
    then show "\<not> prefix (path a) (path f @ [b])" "\<not> prefix (path f @ [b]) (path a)"
      by (auto simp: prefix_snoc dest: append_prefixD)
  qed
  with assms show ?thesis by (auto simp: separate_def)
qed

section \<open>Injection\<close>

text \<open>
  The state of the loop over the nodes: the two stacks together have one entry for every validator so far, its
  stamp, and the stamps are those at the paths.
\<close>

definition inject_inv :: "'s itc \<Rightarrow> (NodeId \<Rightarrow> bool list) \<Rightarrow> 's forks \<times> 's forks \<times> 's pool \<Rightarrow> bool" where
  "inject_inv I path s \<longleftrightarrow> (case s of (stack, forked, pool) \<Rightarrow>
     distinct (map fst pool) \<and> separate (fst ` set pool) path \<and>
     mset (stack @ forked) = mset (map (\<lambda>(v, st). (latest_stamp st, Some v)) pool) \<and>
     (\<forall>(v, st) \<in> set pool. allowed_to_send st \<and> latest_stamp st = at_path I (path v)))"

lemma next_fork_Some:
  "next_fork stack forked = Some (f, stack', forked') \<Longrightarrow> mset (stack @ forked) = add_mset f (mset (stack' @ forked'))"
  by (auto simp: next_fork_def vec_pop_eq_Some_iff split: option.split_asm prod.split_asm)

lemma next_fork_None: "next_fork stack forked = None \<longleftrightarrow> stack = [] \<and> forked = []"
  by (auto simp: next_fork_def split: option.split)

lemma delete_fresh: "f \<notin> fst ` set pool \<Longrightarrow> AList.delete f pool = pool"
  by (induction pool) auto

lemma pool_split:
  assumes "distinct (map fst pool)" "map_of pool f = Some st"
  shows "mset (map h pool) = add_mset (h (f, st)) (mset (map h (AList.delete f pool)))"
proof -
  from assms have "mset pool = add_mset (f, st) (mset (AList.delete f pool))"
  proof (induction pool)
    case (Cons p pool)
    then show ?case by (cases p) (auto simp: delete_fresh split: if_split_asm)
  qed simp
  then show ?thesis by simp
qed

lemma update_old:
  "distinct (map fst pool) \<Longrightarrow> map_of pool f = Some st \<Longrightarrow> mset (AList.update f st' pool) = add_mset (f, st') (mset (AList.delete f pool))"
proof (induction pool)
  case (Cons p pool)
  then show ?case by (cases p) (auto simp: delete_fresh split: if_split_asm)
qed simp

lemma update_new: "map_of pool f = None \<Longrightarrow> AList.update f st pool = pool @ [(f, st)]"
  by (induction pool) (auto split: if_split_asm)

lemma inject_step:
  assumes "inject_inv I path (stack, forked, pool)" "pool \<noteq> []" "map_of pool node = None" "map_of vset node = Some a"
  shows "\<exists>s path'. inject_node I vset (stack, forked, pool) node = Some s \<and> inject_inv I path' s \<and>
    fst ` set (snd (snd s)) = insert node (fst ` set pool) \<and> snd (snd s) \<noteq> []"
proof -
  let ?h = "\<lambda>(v, st). (latest_stamp st, Some v)"
  have inv: "distinct (map fst pool)" "separate (fst ` set pool) path" "mset (stack @ forked) = mset (map ?h pool)"
    "\<forall>(v, st) \<in> set pool. allowed_to_send st \<and> latest_stamp st = at_path I (path v)"
    using assms(1) by (auto simp: inject_inv_def)
  have "stack @ forked \<noteq> []" using inv(3) assms(2) by auto
  then obtain nx src stack' forked' where n: "next_fork stack forked = Some ((nx, src), stack', forked')"
    using next_fork_None[of stack forked] by (cases "next_fork stack forked") auto
  from next_fork_Some[OF n] inv(3) have m: "mset (map ?h pool) = add_mset (nx, src) (mset (stack' @ forked'))" by simp
  then have "(nx, src) \<in> set (map ?h pool)" by (metis set_mset_mset union_single_eq_member)
  then obtain f st where f: "(f, st) \<in> set pool" "nx = latest_stamp st" "src = Some f" by auto
  then have get: "map_of pool f = Some st" and st: "allowed_to_send st" "nx = at_path I (path f)"
    using inv(1,4) by auto
  have node: "node \<notin> fst ` set pool" using assms(3) by (simp add: map_of_eq_None_iff)
  have "node \<noteq> f" using assms(3) get by auto
  note node = node this
  define st1 where "st1 = st\<lparr>latest_stamp := fst (fork I nx)\<rparr>"
  define st2 where "st2 = (validator_state_new True a (seed I))\<lparr>allowed_to_send := True, latest_stamp := snd (fork I nx)\<rparr>"
  define pool' where "pool' = AList.update f st1 pool @ [(node, st2)]"
  define path' where "path' = path(f := path f @ [False], node := path f @ [True])"
  have old: "mset (AList.update f st1 pool) = add_mset (f, st1) (mset (AList.delete f pool))" by (rule update_old[OF inv(1) get])
  have run: "inject_node I vset (stack, forked, pool) node =
    Some (stack', forked' @ [(fst (fork I nx), Some f), (snd (fork I nx), Some node)], pool')"
    using n f(3) get assms(3,4) node(2)
    by (simp add: inject_node_def update_conv update_new pool'_def st1_def st2_def Let_def split_def)
  have "map fst (AList.update f st1 pool) = map fst pool" using get by (induction pool) (auto split: if_split_asm)
  then have keys: "map fst pool' = map fst pool @ [node]" by (simp add: pool'_def)
  have "mset (stack' @ forked') = mset (map ?h (AList.delete f pool))"
    using m pool_split[OF inv(1) get, of ?h] f(2,3) by simp
  then have stacks: "mset (stack' @ forked' @ [(fst (fork I nx), Some f), (snd (fork I nx), Some node)]) = mset (map ?h pool')"
    using old by (simp add: pool'_def st1_def st2_def mset_map)
  have "set (AList.update f st1 pool) = insert (f, st1) (set (AList.delete f pool))"
    using arg_cong[OF old, of set_mset] by simp
  then have entries: "set pool' = {(node, st2), (f, st1)} \<union> {(k, s). (k, s) \<in> set pool \<and> k \<noteq> f}"
    by (auto simp: pool'_def AList.delete_eq)
  have "\<forall>(v, st) \<in> set pool'. allowed_to_send st \<and> latest_stamp st = at_path I (path' v)"
  proof safe
    fix v s assume "(v, s) \<in> set pool'"
    then consider "v = node" "s = st2" | "v = f" "s = st1" | "v \<noteq> f" "v \<noteq> node" "(v, s) \<in> set pool"
      using entries node(1) by force
    then show "allowed_to_send s" "latest_stamp s = at_path I (path' v)"
      using inv(4) st node(2) by (cases; auto simp: st1_def st2_def path'_def validator_state_new_def)+
  qed
  moreover have "separate (fst ` set pool') path'"
    using separate_fork[OF inv(2) _ node(1), of f] f(1) keys by (metis list.set_map path'_def rev_image_eqI fst_conv set_append list.simps(15) empty_set Un_insert_right sup_bot_right)
  moreover have "distinct (map fst pool')" using keys inv(1) node(1) by simp
  ultimately have "inject_inv I path' (stack', forked' @ [(fst (fork I nx), Some f), (snd (fork I nx), Some node)], pool')"
    using stacks by (simp add: inject_inv_def)
  moreover have "fst ` set pool' = insert node (fst ` set pool)" using keys by (metis list.set_map set_append list.simps(15) empty_set Un_insert_right sup_bot_right)
  ultimately show ?thesis using run by (intro exI[of _ "(stack', forked' @ [(fst (fork I nx), Some f), (snd (fork I nx), Some node)], pool')"]) (auto simp: pool'_def)
qed

lemma inject_first:
  assumes "map_of vset node = Some a"
  shows "\<exists>s. inject_node I vset ([(seed I, None)], [], []) node = Some s \<and> inject_inv I (\<lambda>_. []) s \<and>
    fst ` set (snd (snd s)) = {node} \<and> snd (snd s) \<noteq> []"
  using assms by (simp add: inject_node_def next_fork_def vec_pop_def inject_inv_def separate_def Let_def)

lemma inject_rest:
  assumes "inject_inv I path s" "snd (snd s) \<noteq> []" "distinct nodes" "set nodes \<inter> fst ` set (snd (snd s)) = {}"
    "set nodes \<subseteq> fst ` set vset"
  shows "\<exists>s' path'. foldm (inject_node I vset) s nodes = Some s' \<and> inject_inv I path' s' \<and>
    fst ` set (snd (snd s')) = set nodes \<union> fst ` set (snd (snd s))"
  using assms
proof (induction nodes arbitrary: s path)
  case Nil
  then show ?case by auto
next
  case (Cons node nodes)
  obtain stack forked pool where s: "s = (stack, forked, pool)" by (cases s)
  have new: "map_of pool node = None" using Cons.prems(4) s by (simp add: map_of_eq_None_iff)
  obtain a where "map_of vset node = Some a" using Cons.prems(5) by (cases "map_of vset node") (auto simp: map_of_eq_None_iff)
  with inject_step[OF _ _ new] Cons.prems(1,2) s obtain u path1 where u: "inject_node I vset s node = Some u" "inject_inv I path1 u"
    "fst ` set (snd (snd u)) = insert node (fst ` set pool)" "snd (snd u) \<noteq> []" by force
  from Cons.IH[OF u(2,4)] Cons.prems(3-5) u(3) s obtain s' path' where
    "foldm (inject_node I vset) u nodes = Some s'" "inject_inv I path' s'"
    "fst ` set (snd (snd s')) = set nodes \<union> fst ` set (snd (snd u))" by auto
  with u(1,3) s show ?case by auto
qed

lemma inject_fresh:
  assumes "distinct nodes" "set nodes \<subseteq> fst ` set vset"
  shows "\<exists>s path. foldm (inject_node I vset) ([(seed I, None)], [], []) nodes = Some s \<and>
    fst ` set (snd (snd s)) = set nodes \<and> distinct (map fst (snd (snd s))) \<and> separate (set nodes) path \<and>
    (\<forall>(v, st) \<in> set (snd (snd s)). allowed_to_send st \<and> latest_stamp st = at_path I (path v))"
proof (cases nodes)
  case Nil
  then show ?thesis by (simp add: separate_def)
next
  case (Cons node rest)
  with assms(2) obtain a where "map_of vset node = Some a" by (cases "map_of vset node") (auto simp: map_of_eq_None_iff)
  from inject_first[OF this, of I] obtain u where u: "inject_node I vset ([(seed I, None)], [], []) node = Some u"
    "inject_inv I (\<lambda>_. []) u" "fst ` set (snd (snd u)) = {node}" "snd (snd u) \<noteq> []" by blast
  from inject_rest[OF u(2,4), of rest vset] assms Cons u(3) obtain s path where
    "foldm (inject_node I vset) u rest = Some s" "inject_inv I path s" "fst ` set (snd (snd s)) = set nodes" by auto
  with u(1) Cons show ?thesis by (cases s) (auto simp: inject_inv_def)
qed

lemma inject_into_empty:
  assumes "distinct (map fst vset)" "validators (causal_graph m) = []" "epoch m \<noteq> - 1"
  shows "\<exists>m' path. inject I vset allocated m = Some m' \<and> epoch m' = epoch m + 1 \<and> pool_blocks m' = allocated \<and>
    nodes_of (causal_graph m') = fst ` set vset \<and> distinct (map fst (validators (causal_graph m'))) \<and>
    separate (fst ` set vset) path \<and>
    (\<forall>(v, st) \<in> set (validators (causal_graph m')). allowed_to_send st \<and> latest_stamp st = at_path I (path v)) \<and>
    causal_graph m' = (causal_graph m)\<lparr>validators := validators (causal_graph m')\<rparr>"
proof -
  let ?nodes = "rev (sort (map fst vset))"
  from inject_fresh[of ?nodes vset I] assms(1) obtain stack forked pool path where
    run: "foldm (inject_node I vset) ([(seed I, None)], [], []) ?nodes = Some (stack, forked, pool)" and
    pool: "fst ` set pool = fst ` set vset" "distinct (map fst pool)" "separate (fst ` set vset) path"
      "\<forall>(v, st) \<in> set pool. allowed_to_send st \<and> latest_stamp st = at_path I (path v)" by auto
  have "epoch m < - 1" using assms(3) by (simp add: word_order.not_eq_extremum)
  then have "unat (epoch m) < 2 ^ 64 - 1" by (simp add: word_less_nat_alt unsigned_minus_1_eq_mask mask_eq_exp_minus_1)
  then have "checked_add (epoch m) 1 = Some (epoch m + 1)" by (simp add: checked_add_def)
  then have "inject I vset allocated m = Some (m\<lparr>causal_graph := (causal_graph m)\<lparr>validators := pool\<rparr>, epoch := epoch m + 1,
    pool_blocks := allocated\<rparr>)" using run assms(2) by (simp add: inject_def)
  with pool show ?thesis by auto
qed

text \<open>An injection has to name all present validators again.\<close>

lemma foldm_visits: "foldm f s xs = Some t \<Longrightarrow> x \<in> set xs \<Longrightarrow> \<exists>u u'. f u x = Some u'"
proof (induction xs arbitrary: s)
  case (Cons y ys)
  from Cons.prems(1) obtain s' where "f s y = Some s'" "foldm f s' ys = Some t" by (auto elim!: bind_SomeE)
  with Cons show ?case by auto
qed simp

lemma inject_forgotten:
  assumes "v \<in> nodes_of (causal_graph m)" "v \<notin> fst ` set vset"
  shows "inject I vset allocated m = None"
proof (rule ccontr)
  assume "inject I vset allocated m \<noteq> None"
  then obtain s where "foldm (inject_node I vset) ([(seed I, None)], [], validators (causal_graph m))
    (rev (sort (map fst vset @ map fst (validators (causal_graph m))))) = Some s"
    by (auto simp: inject_def Let_def elim!: bind_SomeE)
  from foldm_visits[OF this, of v] assms(1) obtain u u' where "inject_node I vset u v = Some u'" by auto
  moreover have "map_of vset v = None" using assms(2) by (simp add: map_of_eq_None_iff)
  ultimately show False by (auto simp: inject_node_def elim!: bind_SomeE split: prod.split_asm)
qed

section \<open>A machine with a fixed set of validators\<close>

fun push_all ::
  "('g, 'v, 'd, 's) cg_ext \<Rightarrow> 's itc \<Rightarrow> ('d, 's) Event list \<Rightarrow> ('g, 'v, 'd, 's) ConsensusMachine \<Rightarrow>
    ((CGError + ('d, 's) Event list) list \<times> ('g, 'v, 'd, 's) ConsensusMachine) option" where
  "push_all X I [] m = Some ([], m)"
| "push_all X I (e # es) m = do {
     (r, m) \<leftarrow> machine_push X I e m;
     (rs, m) \<leftarrow> push_all X I es m;
     Some (r # rs, m)
   }"

lemma machine_push_ok:
  assumes "order_law X" "graph_frame X" "voting_ok (causal_graph m)" "machine_push X I e m = Some (r, m')"
  shows "voting_ok (causal_graph m') \<and> r \<in> {Inl AlreadyInCG, Inr []}"
  using assms(3,4) cg_push_ok[OF assms(1-3)]
  by (auto simp: machine_push_def elim!: bind_SomeE split: if_split_asm)

lemma push_all_ok:
  assumes "order_law X" "graph_frame X" "voting_ok (causal_graph m)" "push_all X I es m = Some (rs, m')"
  shows "voting_ok (causal_graph m') \<and> set rs \<subseteq> {Inl AlreadyInCG, Inr []}"
  using assms(3,4)
proof (induction es arbitrary: m rs)
  case (Cons e es)
  then obtain r m1 rs1 where r: "machine_push X I e m = Some (r, m1)" "push_all X I es m1 = Some (rs1, m')" "rs = r # rs1"
    by (auto elim!: bind_SomeE)
  from machine_push_ok[OF assms(1,2) Cons.prems(1) r(1)] Cons.IH[OF _ r(2)] r(3) show ?case by auto
qed simp

lemma machine_new_fields:
  assumes "machine_new X node ep blocks root_event = Some m"
  shows "validators (causal_graph m) = []" "candidates (causal_graph m) = []" "\<not> test_mode (causal_graph m)" "epoch m = ep"
  using assms by (auto simp: machine_new_def causal_graph_new_def Let_def elim!: bind_SomeE split: prod.split_asm)

lemma injected_voting_ok:
  assumes "machine_new X node ep blocks root_event = Some m0" "distinct (map fst vset)" "length vset < 65535"
    "inject I vset allocated m0 = Some m" "ep \<noteq> - 1"
  shows "voting_ok (causal_graph m)"
proof -
  note m0 = machine_new_fields[OF assms(1)]
  from inject_into_empty[OF assms(2) m0(1), of I allocated] assms(4,5) m0(4)
  have m: "nodes_of (causal_graph m) = fst ` set vset" "distinct (map fst (validators (causal_graph m)))"
    "causal_graph m = (causal_graph m0)\<lparr>validators := validators (causal_graph m)\<rparr>" by auto
  have "length (validators (causal_graph m)) = length vset"
    using distinct_card[OF m(2)] distinct_card[OF assms(2)] m(1) by simp
  moreover have "candidates (causal_graph m) = []" "\<not> test_mode (causal_graph m)"
    using m0(2,3) by (subst m(3); simp)+
  ultimately show ?thesis using m(2) assms(3) by (simp add: voting_ok_def cands_ok_def cand_keys_def)
qed

text \<open>Pushing well-formed events returns.\<close>

lemma push_all_total:
  assumes X: "order_law X" "graph_law X" "graph_frame X"
    and "voting_ok (causal_graph m)" "forest X (causal_graph m) depth" "list_all wf_event es"
  shows "\<exists>r. push_all X I es m = Some r"
  using assms(4-6)
proof (induction es arbitrary: m depth)
  case (Cons e es)
  then have e: "wf_event e" "list_all wf_event es" by simp_all
  then obtain known where known: "contains (causal_graph m) e = Some known" by (auto simp: contains_def wf_event_def)
  have "\<exists>r m1 depth1. machine_push X I e m = Some (r, m1) \<and> forest X (causal_graph m1) depth1"
  proof (cases known)
    case True
    with known Cons.prems(2) show ?thesis by (auto simp: machine_push_def)
  next
    case False
    with known cg_push_total[OF X Cons.prems(1,2) e(1), of I] show ?thesis by (force simp: machine_push_def)
  qed
  then obtain r m1 depth1 where m1: "machine_push X I e m = Some (r, m1)" "forest X (causal_graph m1) depth1" by blast
  from machine_push_ok[OF X(1,3) Cons.prems(1) m1(1)] Cons.IH[OF _ m1(2) e(2)] m1(1) show ?case by auto
qed simp

lemma injected_forest:
  assumes "graph_law X" "machine_new X node ep blocks root_event = Some m0" "inject I vset allocated m0 = Some m"
  shows "\<exists>depth. forest X (causal_graph m) depth"
proof -
  obtain cg where "causal_graph_new X False node root_event = Some cg" "causal_graph m0 = cg"
    using assms(2) by (auto simp: machine_new_def elim!: bind_SomeE)
  with new_forest[OF assms(1)] obtain depth where "forest X (causal_graph m0) depth" by blast
  moreover obtain pool where "causal_graph m = (causal_graph m0)\<lparr>validators := pool\<rparr>"
    using assms(3) by (auto simp: inject_def Let_def elim!: bind_SomeE)
  ultimately have "forest X (causal_graph m) depth" by (simp add: forest_def waiting_def)
  then show ?thesis by blast
qed

end
