(* ===== verification/Protocol_Theorems.thy ===== *)
theory Protocol_Theorems
  imports Events_Props Network_Props Consensus_Props Sample_Env
begin

text \<open>The properties of events, of the handshake between nodes and of the consensus.\<close>

section \<open>Events\<close>

text \<open>
  C35.  The wire formats of the three types of events round trip, for every content of well-formed fields
  (the transactions in a heartbeat included), and no two events of any type have the same bytes.
\<close>

theorem events_round_trip:
  assumes "rlp_law E" "itc_text I" "join_law X"
  shows "(wf_heartbeat E I b \<longrightarrow> (\<exists>bs. heartbeat_to_bytes E I b = Inr bs \<and> heartbeat_from_bytes E I bs = Some (Inr b))) \<and>
    (wf_join X I j \<longrightarrow> (\<exists>bs. join_to_bytes X I j = Inr bs \<and> join_from_bytes X I bs = Some (Inr j))) \<and>
    (wf_leave I l \<longrightarrow> (\<exists>bs. leave_to_bytes I l = Inr bs \<and> leave_from_bytes I bs = Some (Inr l))) \<and>
    \<not> (heartbeat_to_bytes E I b = Inr bs \<and> join_to_bytes X I j = Inr bs) \<and>
    \<not> (heartbeat_to_bytes E I b = Inr bs \<and> leave_to_bytes I l = Inr bs) \<and>
    \<not> (join_to_bytes X I j = Inr bs \<and> leave_to_bytes I l = Inr bs)"
proof -
  have "HEARTBEAT_TYPE \<noteq> JOIN_TYPE" "HEARTBEAT_TYPE \<noteq> LEAVE_TYPE" "JOIN_TYPE \<noteq> LEAVE_TYPE"
    by (simp_all add: HEARTBEAT_TYPE_def JOIN_TYPE_def LEAVE_TYPE_def)
  then have "\<not> (heartbeat_to_bytes E I b = Inr bs \<and> join_to_bytes X I j = Inr bs)"
    "\<not> (heartbeat_to_bytes E I b = Inr bs \<and> leave_to_bytes I l = Inr bs)"
    "\<not> (join_to_bytes X I j = Inr bs \<and> leave_to_bytes I l = Inr bs)"
    using heartbeat.enc_tag[of E I b bs] join.enc_tag[of X I j bs] leave.enc_tag[of I l bs] by auto
  with assms show ?thesis using heartbeat.enc_dec join.enc_dec leave.enc_dec by blast
qed

text \<open>A clock that counts events, and its text.\<close>

definition sample_itc :: "nat itc" where
  "sample_itc = \<lparr>itc_seed = 0, itc_fork = (\<lambda>s. (s, s)), itc_join = max, itc_event = Suc, itc_peek = (\<lambda>s. (s, s)),
     itc_leq = (\<le>), itc_display = (\<lambda>s. replicate (s + 1) (CHR ''x'')),
     itc_from_str = (\<lambda>t. if t \<noteq> [] \<and> set t = {CHR ''x''} then Some (length t - 1) else None)\<rparr>"

lemma sample_itc_laws: "itc_order sample_itc" "itc_text sample_itc"
proof -
  have "utf8_valid (as_bytes (replicate n (CHR ''x'')))" for n
    by (intro utf8_ascii) (simp add: as_bytes_def list_all_iff)
  then show "itc_text sample_itc" by (simp add: itc_text_def sample_itc_def del: replicate_Suc)
qed (simp add: itc_order_def sample_itc_def)

fun sample_groups :: "u8 list \<Rightarrow> u32 list" where
  "sample_groups (a # b # c # d # rest) = (case read_be 4 [a, b, c, d] of Some n \<Rightarrow> n # sample_groups rest | None \<Rightarrow> [])"
| "sample_groups _ = []"

lemma sample_groups_encode: "sample_groups (encode_be_u32 n @ rest) = n # sample_groups rest"
proof -
  obtain a b c d where e: "encode_be_u32 n = [a, b, c, d]"
    using be_u32.enc_width[of n] by (auto simp: numeral_eq_Suc length_Suc_conv)
  with read_be_encoded(2)[of n "[]"] show ?thesis by simp
qed

definition sample_join_ext :: join_ext where
  "sample_join_ext = \<lparr>bit_get = (\<lambda>b i. bit b i), bit_set = (\<lambda>b i c. if c then set_bit i b else unset_bit i b),
     u32s_encode = (\<lambda>ns. 0 # concat (map encode_be_u32 ns)), u32s_decode = (\<lambda>bs. Some (sample_groups (tl bs)))\<rparr>"

lemma sample_join_law: "join_law sample_join_ext"
proof -
  have "sample_groups (concat (map encode_be_u32 ns)) = ns" for ns
    by (induction ns) (simp_all add: sample_groups_encode)
  then show ?thesis by (auto simp: join_law_def sample_join_ext_def bit_set_bit_iff bit_unset_bit_iff)
qed

definition sample_leave :: "nat Leave" where
  "sample_leave = \<lparr>lv_node_id = replicate 32 1, lv_stamp = Stamp 3, lv_parent_hash = replicate 32 2,
     lv_hash = Some (replicate 32 3), lv_signature = Some (PrimitiveSig (replicate 64 4))\<rparr>"

definition sample_joining :: "nat Join" where
  "sample_joining = \<lparr>jn_node_id = replicate 32 1, jn_stamp = Stamp 3, collector_address = NormalAddress (replicate 32 5),
     jn_proof = [7, 8], parent_cg_hash = None, parent_join_hash = Some (replicate 32 6), jn_hash = Some (replicate 32 3),
     jn_signature = Some (PrimitiveSig (replicate 64 4))\<rparr>"

theorem events_round_trip_witness:
  "\<exists>bs cs. leave_to_bytes sample_itc sample_leave = Inr bs \<and> leave_from_bytes sample_itc bs = Some (Inr sample_leave) \<and>
     join_to_bytes sample_join_ext sample_itc sample_joining = Inr cs \<and>
     join_from_bytes sample_join_ext sample_itc cs = Some (Inr sample_joining)"
proof -
  have "length (stamp_to_bytes sample_itc (Stamp 3)) = 4" "length (u32s_encode sample_join_ext [7, 8]) = 9"
    by (simp_all add: stamp_to_bytes_def sample_itc_def as_bytes_def sample_join_ext_def be_u32.enc_width)
  then have "wf_leave sample_itc sample_leave" "wf_join sample_join_ext sample_itc sample_joining"
    by (simp_all add: wf_leave_def wf_join_def sample_leave_def sample_joining_def wf_sig_def wf_normal_def)
  with events_round_trip[OF sample_laws(5) sample_itc_laws(2) sample_join_law] show ?thesis by blast
qed

section \<open>The handshake\<close>


definition sample_net :: net_ext where
  "sample_net = \<lparr>nx_sign = (\<lambda>m sk. PrimitiveSig (replicate 64 7)), nx_verify = (\<lambda>m sig pk. sig_inner sig = replicate 64 7),
     client_sk = (\<lambda>pk sk other. Some (pk @ other, other @ pk)), server_sk = (\<lambda>pk sk other. Some (pk @ other, other @ pk))\<rparr>"

definition sample_pair :: "u8 \<Rightarrow> kx_pair" where
  "sample_pair b = (replicate 32 b, replicate 32 b)"

lemma sample_net_laws: "kx_law sample_net {sample_pair a, sample_pair b}" "sign_law sample_net"
  by (simp_all add: kx_law_def sample_net_def sample_pair_def sign_law_def wf_sig_def)

definition sample_mock :: "nat \<Rightarrow> nat MockNetwork" where
  "sample_mock i = mock_new (replicate 32 (word_of_nat i)) i ''net'' [] i
     [(replicate 32 1, 1), (replicate 32 2, 2)] [(1, replicate 32 1), (2, replicate 32 2)]"



text \<open>
  The mock network that the tests of the crate use has a \<open>send_to_peer\<close>, and there the exchange runs to its end:
  after the client has connected and both sides have read one message, they have matching keys, and no
  message is left over.
\<close>

theorem mock_handshake_completes:
  assumes "kx_law X {k1, k2}" "sign_law X" "linked m1 m2" "ch (mock_rx m1) = []" "ch (mock_rx m2) = []"
  shows "\<exists>m1' ch1 m2' ch2 m1'' ch3 p1 p2 rx tx.
    mock_connect X k1 (m1, ch) (mock_ip m2) = Some (m1', ch1) \<and> mock_receive X k2 (m2, ch1) = Some (m2', ch2) \<and>
    mock_receive X k (m1', ch2) = Some (m1'', ch3) \<and> ch3 (mock_rx m1) = [] \<and> ch3 (mock_rx m2) = [] \<and>
    map_of (mock_peers m1'') (mock_ip m2) = Some p2 \<and> map_of (mock_peers m2') (mock_ip m1) = Some p1 \<and>
    peer_rx p2 = Some rx \<and> peer_tx p2 = Some tx \<and> peer_rx p1 = Some tx \<and> peer_tx p1 = Some rx"
  using handshake[OF assms, of k] by blast

theorem mock_handshake_completes_witness:
  "\<exists>m1' ch1 m2' ch2. mock_connect sample_net (sample_pair 5) (sample_mock 1, \<lambda>_. []) 2 = Some (m1', ch1) \<and>
     mock_receive sample_net (sample_pair 6) (sample_mock 2, ch1) = Some (m2', ch2) \<and>
     (\<exists>p. map_of (mock_peers m2') 1 = Some p \<and> peer_rx p \<noteq> None)"
proof -
  have ip: "mock_ip (sample_mock 1) = 1" "mock_ip (sample_mock 2) = 2" by (simp_all add: sample_mock_def mock_new_def)
  have "linked (sample_mock 1) (sample_mock 2)" by (simp add: linked_def sample_mock_def mock_new_def)
  from mock_handshake_completes[OF sample_net_laws(1)[of 5 6] sample_net_laws(2) this, of "\<lambda>_. []" "sample_pair 5", unfolded ip]
  show ?thesis by fastforce
qed

text \<open>
  C37.  A connect packet is not authenticated.  Whatever signature a packet carries, a network handles it in
  the same way, so the node id in it is whatever the sender wrote; and as the handler stores no id for the peer,
  every later packet of it that is not a connect packet is refused as an invalid connect packet.
\<close>

theorem connect_is_not_authenticated:
  assumes "connect_from_bytes packet = Inr c" "wf_sig sig" "connect_to_bytes (c\<lparr>cn_signature := Some sig\<rparr>) = Some forged"
    "map_of (peers n) addr = Some p" "peer_id p = None"
  shows "process_packet X n addr forged = process_packet X n addr packet \<and>
    (process_packet X n addr packet = Some (Inr (), n') \<longrightarrow> is_none_id addr n' = Some True \<and>
       (\<forall>later e. connect_from_bytes later = Inl e \<longrightarrow> process_packet X n' addr later = Some (Inl InvalidConnectPacket, n')))"
proof -
  have fetch: "fetch_peer (network_iface X) m a = map_of (peers m) a" for m :: "'a Network" and a
    by (simp add: network_iface_def)
  have "wf_connect (c\<lparr>cn_signature := Some sig\<rparr>)" using connect_from_bytes_wf[OF assms(1)] assms(2) by (simp add: wf_connect_def)
  from connect_roundtrip[OF this] assms(3) have forged: "connect_from_bytes forged = Inr (c\<lparr>cn_signature := Some sig\<rparr>)" by simp
  then have "process_packet X n addr forged = process_packet X n addr packet"
    using assms(1,4,5) by (simp add: process_packet_def process_from_peer_def fetch network.handle_unsigned)
  moreover have "is_none_id addr n' = Some True \<and>
      (\<forall>later e. connect_from_bytes later = Inl e \<longrightarrow> process_packet X n' addr later = Some (Inl InvalidConnectPacket, n'))"
    if run: "process_packet X n addr packet = Some (Inr (), n')"
  proof -
    note run' = run[unfolded process_packet_def] assms(4)[folded fetch] assms(5)
    from network.process_peer[OF run'] assms(5) network.process_again[OF run'] show ?thesis
      by (auto simp: fetch is_none_id_def process_packet_def)
  qed
  ultimately show ?thesis by blast
qed

definition sample_client :: "nat Network" where
  "sample_client = snd (add_peer 2 (peer_new (sample_pair 5) None 2 Client) (network_new (replicate 32 1) ''net'' [] 8))"

definition sample_connect :: Connect where
  "sample_connect = \<lparr>cn_node_id = replicate 32 2, cn_kx_key = replicate 32 6, cn_signature = Some (PrimitiveSig (replicate 64 7))\<rparr>"

theorem connect_is_not_authenticated_witness:
  "\<exists>packet forged n'. connect_to_bytes sample_connect = Some packet \<and>
     connect_to_bytes (sample_connect\<lparr>cn_signature := Some (PrimitiveSig (replicate 64 0))\<rparr>) = Some forged \<and>
     process_packet sample_net sample_client 2 forged = Some (Inr (), n') \<and>
     process_packet sample_net n' 2 [9] = Some (Inl InvalidConnectPacket, n')"
proof -
  have wf: "wf_connect sample_connect" by (simp add: wf_connect_def sample_connect_def wf_sig_def)
  from connect_roundtrip[OF this] obtain packet where
    p: "connect_to_bytes sample_connect = Some packet" "connect_from_bytes packet = Inr sample_connect" by blast
  let ?f = "sample_connect\<lparr>cn_signature := Some (PrimitiveSig (replicate 64 0))\<rparr>"
  obtain forged where f: "connect_to_bytes ?f = Some forged" by (simp add: connect_to_bytes_def)
  let ?p = "peer_new (sample_pair 5) None 2 Client"
  have peer: "map_of (peers sample_client) 2 = Some ?p" "peer_id ?p = None"
    by (simp_all add: sample_client_def add_peer_def network_new_def peer_count_def peer_new_def)
  have "connect_from_bytes [9] = Inl BadFormat" by (simp add: connect_from_bytes_def PACKET_TYPE_def)
  moreover have "\<exists>n'. process_packet sample_net sample_client 2 packet = Some (Inr (), n')"
    using p(2) peer by (simp add: process_packet_def process_from_peer_def network_iface_def connect_handle_def sample_net_def peer_new_def)
  then obtain n' where "process_packet sample_net sample_client 2 packet = Some (Inr (), n')" by blast
  moreover have "wf_sig (PrimitiveSig (replicate 64 0))" by (simp add: wf_sig_def)
  ultimately show ?thesis
    using connect_is_not_authenticated[OF p(2) _ f peer, of sample_net n'] p(1) f by metis
qed

text \<open>
  A node cannot accept connections: \<open>send_to_peer\<close> of the network is not implemented, and a valid
  connect packet on a connection that the peer opened is answered, which panics.
\<close>

theorem server_panics_on_connect:
  assumes "map_of (peers n) addr = Some p" "peer_id p = None" "connection_type p = Server" "connect_from_bytes packet = Inr c"
  shows "process_packet X n addr packet = Some (Inl InvalidConnectPacket, n) \<or> process_packet X n addr packet = None"
  using assms
  by (auto simp: process_packet_def process_from_peer_def network_iface_def connect_handle_def sign_and_send_def Let_def
      elim!: bind_SomeE split: option.split)

theorem server_panics_on_connect_witness:
  "\<exists>packet. connect_to_bytes sample_connect = Some packet \<and>
     process_packet sample_net (sample_client\<lparr>peers := [(2, peer_new (sample_pair 5) None 2 Server)]\<rparr>) 2 packet = None"
proof -
  have "wf_connect sample_connect" by (simp add: wf_connect_def sample_connect_def wf_sig_def)
  from connect_roundtrip[OF this] obtain packet where
    p: "connect_to_bytes sample_connect = Some packet" "connect_from_bytes packet = Inr sample_connect" by blast
  let ?n = "sample_client\<lparr>peers := [(2, peer_new (sample_pair 5) None 2 Server)]\<rparr>"
  have "process_packet sample_net ?n 2 packet \<noteq> Some (Inl InvalidConnectPacket, ?n)"
    using p(2) by (auto simp: process_packet_def process_from_peer_def network_iface_def connect_handle_def sample_net_def peer_new_def
        sign_and_send_def elim!: bind_SomeE)
  with server_panics_on_connect[of ?n 2 "peer_new (sample_pair 5) None 2 Server" packet sample_connect sample_net] p
  show ?thesis by (auto simp: peer_new_def)
qed

end
