(* ===== verification/Consensus_Theorems.thy ===== *)
theory Consensus_Theorems
  imports Protocol_Theorems
begin

text \<open>The properties of the consensus, and a concrete graph for their witnesses.\<close>

section \<open>A graph\<close>

text \<open>Vertices are positions of a list, removed ones are empty; edges are a list of pairs.\<close>

type_synonym sample_graph = "(int, nat) Event option list \<times> (nat \<times> nat) list"

definition sample_fetch :: "sample_graph \<Rightarrow> nat \<Rightarrow> (int, nat) Event option" where
  "sample_fetch g v = (if v < length (fst g) then fst g ! v else None)"

definition sample_add_vertex :: "sample_graph \<Rightarrow> (int, nat) Event \<Rightarrow> nat \<times> sample_graph" where
  "sample_add_vertex g e = (length (fst g), (fst g @ [Some e],
     filter (\<lambda>(x, y). x \<noteq> length (fst g) \<and> y \<noteq> length (fst g)) (snd g)))"

definition sample_in :: "sample_graph \<Rightarrow> nat \<Rightarrow> nat list" where
  "sample_in g b = map fst (filter (\<lambda>(x, y). y = b \<and> sample_fetch g x \<noteq> None) (snd g))"

definition kept :: "('a \<Rightarrow> bool) \<Rightarrow> 'a option \<Rightarrow> bool" where
  "kept P x = (case x of Some e \<Rightarrow> P e | None \<Rightarrow> False)"

definition sample_cg :: "(sample_graph, nat, int, nat) cg_ext" where
  "sample_cg = \<lparr>g_new = ([], []), g_add_vertex = sample_add_vertex, g_fetch = sample_fetch,
     g_add_edge = (\<lambda>g a b. if sample_fetch g a = None \<or> sample_fetch g b = None then None
       else Some (fst g, List.insert (a, b) (snd g))),
     g_has_edge = (\<lambda>g a b. (a, b) \<in> set (snd g)), g_in = sample_in,
     g_out = (\<lambda>g a. map snd (filter (\<lambda>(x, y). x = a) (snd g))),
     g_remove = (\<lambda>g v. ((fst g)[v := None], filter (\<lambda>(x, y). x \<noteq> v \<and> y \<noteq> v) (snd g))),
     g_retain = (\<lambda>g P. (map (\<lambda>x. case x of Some e \<Rightarrow> if P e then x else None | None \<Rightarrow> None) (fst g),
       filter (\<lambda>(x, y). kept P (sample_fetch g x) \<and> kept P (sample_fetch g y)) (snd g))),
     g_count = (\<lambda>g. length (filter (\<lambda>x. x \<noteq> None) (fst g))),
     it_pending = rev, it_ends = (\<lambda>x. x), it_candidates = (\<lambda>x. x), it_voters = rev\<rparr>"

lemma sample_cg_laws: "order_law sample_cg" "graph_frame sample_cg"
  by (auto simp: order_law_def graph_frame_def sample_cg_def sample_fetch_def split: if_split_asm)

lemma sample_graph_law: "graph_law sample_cg"
proof -
  have fetch: "sample_fetch (snd (sample_add_vertex g e)) = (sample_fetch g)(fst (sample_add_vertex g e) \<mapsto> e)" for g e
    by (auto simp: fun_eq_iff sample_fetch_def sample_add_vertex_def nth_append)
  have edges: "filter (\<lambda>(x, y). y = w \<and> (F(n \<mapsto> e)) x \<noteq> None) (filter (\<lambda>(x, y). x \<noteq> n \<and> y \<noteq> n) es) =
      (if w = n then [] else filter (\<lambda>(x, y). y = w \<and> F x \<noteq> None) es)" if "F n = None"
    for F :: "nat \<Rightarrow> (int, nat) Event option" and n w e es
    using that by (induction es) (auto split: if_split_asm)
  have none: "sample_fetch g (fst (sample_add_vertex g e)) = None" for g e
    by (simp add: sample_fetch_def sample_add_vertex_def)
  have "sample_in (snd (sample_add_vertex g e)) = (sample_in g)(fst (sample_add_vertex g e) := [])" for g e
  proof
    fix w
    show "sample_in (snd (sample_add_vertex g e)) w = ((sample_in g)(fst (sample_add_vertex g e) := [])) w"
      using edges[of "sample_fetch g" "fst (sample_add_vertex g e)" w e "snd g", OF none] unfolding sample_in_def fetch
      by (simp add: sample_add_vertex_def)
  qed
  with none fetch have vertex: "sample_fetch g v = None \<and> sample_fetch g' = (sample_fetch g)(v \<mapsto> e) \<and> sample_in g' = (sample_in g)(v := [])"
    if "sample_add_vertex g e = (v, g')" for g e v g' using that by (metis fst_conv snd_conv)
  have edge: "sample_in (fst g, List.insert (a, b) (snd g)) = (sample_in g)(b := [a])"
    if "sample_fetch g a \<noteq> None" "sample_in g b = []" for g a b
  proof -
    have "(a, b) \<notin> set (snd g)" using that by (auto simp: sample_in_def filter_empty_conv)
    moreover have "sample_fetch (fst g, es) = sample_fetch g" for es by (simp add: fun_eq_iff sample_fetch_def)
    ultimately show ?thesis using that by (auto simp: sample_in_def fun_eq_iff)
  qed
  have "sample_fetch ([], []) v = None" for v by (simp add: sample_fetch_def)
  moreover have "sample_in (vs, List.insert (a, b) es) = (sample_in (vs, es))(b := [a])"
    if "sample_fetch (vs, es) a \<noteq> None" "sample_in (vs, es) b = []" for vs es a b
    using edge[OF that] by simp
  ultimately show ?thesis using vertex unfolding graph_law_def sample_cg_def by auto
qed

section \<open>Ordering\<close>

text \<open>
  C33.  Nothing is ever ordered.  Once the validators are injected, every sequence of events with a hash, a parent
  and a node is pushed to the machine without a panic and returns, and no sequence of events of any nodes and with
  any stamps makes it hand out an event of the total order: a candidate needs more proposals than there are nodes, but
  only the events of half of the nodes can propose.
\<close>

theorem nothing_is_ordered:
  assumes "order_law X" "graph_law X" "graph_frame X" "machine_new X node ep blocks root_event = Some m0" "ep \<noteq> - 1"
    "distinct (map fst vset)" "length vset < 65535" "inject I vset allocated m0 = Some m"
  shows "(list_all wf_event events \<longrightarrow> (\<exists>results m'. push_all X I events m = Some (results, m'))) \<and>
    (\<forall>results m'. push_all X I events m = Some (results, m') \<longrightarrow> set results \<subseteq> {Inl AlreadyInCG, Inr []})"
proof -
  note ok = injected_voting_ok[OF assms(4,6,7,8,5)]
  from injected_forest[OF assms(2,4,8)] push_all_total[OF assms(1-3) ok]
  have "\<exists>results m'. push_all X I events m = Some (results, m')" if "list_all wf_event events" using that by fastforce
  with push_all_ok[OF assms(1,3) ok] show ?thesis by blast
qed

definition sample_event :: "u8 \<Rightarrow> u8 \<Rightarrow> u8 \<Rightarrow> nat \<Rightarrow> (int, nat) Event" where
  "sample_event node h parent t = Dummy [node] [h] (Some [parent]) (Stamp t)"

definition sample_root :: "(int, nat) Event" where
  "sample_root = Dummy [0] [0] None (Stamp 0)"

definition sample_vset :: "(NodeId \<times> u64) list" where
  "sample_vset = [([1], 10), ([2], 10), ([3], 10)]"

definition sample_machine :: "(sample_graph, nat, int, nat) ConsensusMachine" where
  "sample_machine = the (do { m \<leftarrow> machine_new sample_cg [1] 0 100 sample_root; inject sample_itc sample_vset 50 m })"

definition sample_events :: "(int, nat) Event list" where
  "sample_events = [sample_event 1 10 0 1, sample_event 2 11 10 2, sample_event 3 12 11 3, sample_event 1 13 12 4]"

theorem nothing_is_ordered_witness:
  "\<exists>results m'. push_all sample_cg sample_itc sample_events sample_machine = Some (results, m') \<and> set results = {Inr []}"
proof -
  have "machine_new sample_cg [1] 0 100 sample_root \<noteq> None" by code_simp
  then obtain m0 where m0: "machine_new sample_cg [1] 0 100 sample_root = Some m0" by blast
  have "do { m \<leftarrow> machine_new sample_cg [1] 0 100 sample_root; inject sample_itc sample_vset 50 m } \<noteq> None"
    by code_simp
  with m0 have m: "inject sample_itc sample_vset 50 m0 = Some sample_machine" by (auto simp: sample_machine_def)
  have "list_all wf_event sample_events" by (simp add: sample_events_def sample_event_def wf_event_def)
  from nothing_is_ordered[OF sample_cg_laws(1) sample_graph_law sample_cg_laws(2) m0 _ _ _ m, of sample_events] this
  obtain rs m' where p: "push_all sample_cg sample_itc sample_events sample_machine = Some (rs, m')"
    and r: "set rs \<subseteq> {Inl AlreadyInCG, Inr []}" by (auto simp: sample_vset_def)
  have "map_option (\<lambda>r. fst r) (push_all sample_cg sample_itc sample_events sample_machine) = Some [Inr [], Inr [], Inr [], Inr []]"
    by code_simp
  with p show ?thesis by auto
qed

section \<open>Injection\<close>

text \<open>
  C34.  The first injection divides the ids.  It returns for every set of validators; each of them may then
  send, and has the stamp at the end of its own path of forks of the seed, and no path is a prefix of another
  one, so no validator has a stamp that overlaps with that of another one.
\<close>

theorem injection_divides_the_ids:
  assumes "distinct (map fst vset)" "validators (causal_graph m) = []" "epoch m \<noteq> - 1"
  shows "\<exists>m' path. inject I vset allocated m = Some m' \<and> epoch m' = epoch m + 1 \<and> pool_blocks m' = allocated \<and>
    fst ` set (validators (causal_graph m')) = fst ` set vset \<and>
    (\<forall>(v, st) \<in> set (validators (causal_graph m')). allowed_to_send st \<and> latest_stamp st = at_path I (path v)) \<and>
    (\<forall>v \<in> fst ` set vset. \<forall>w \<in> fst ` set vset. v \<noteq> w \<longrightarrow> \<not> prefix (path v) (path w))"
  using inject_into_empty[OF assms, of I allocated] unfolding separate_def by blast

theorem injection_divides_the_ids_witness:
  "\<exists>m m' (path :: NodeId \<Rightarrow> bool list). machine_new sample_cg [1] 0 100 sample_root = Some m \<and>
     inject sample_itc sample_vset 50 m = Some m' \<and> epoch m' = 1 \<and> \<not> prefix (path [1]) (path [2])"
proof -
  have "machine_new sample_cg [1] 0 100 sample_root \<noteq> None" by code_simp
  then obtain m where m: "machine_new sample_cg [1] 0 100 sample_root = Some m" by blast
  note new = machine_new_fields[OF m]
  have d: "distinct (map fst sample_vset)" "[1] \<in> fst ` set sample_vset" "[2] \<in> fst ` set sample_vset" by (simp_all add: sample_vset_def)
  have "epoch m \<noteq> - 1" using new(4) by simp
  from injection_divides_the_ids[OF d(1) new(1) this, of sample_itc 50] show ?thesis
  proof (elim exE conjE)
    fix m' and path :: "NodeId \<Rightarrow> bool list"
    assume run: "inject sample_itc sample_vset 50 m = Some m'" "epoch m' = epoch m + 1"
      and apart: "\<forall>v \<in> fst ` set sample_vset. \<forall>w \<in> fst ` set sample_vset. v \<noteq> w \<longrightarrow> \<not> prefix (path v) (path w)"
    from bspec[OF bspec[OF apart d(2)] d(3)] have "\<not> prefix (path [1]) (path [2])" by simp
    with run m new(4) show ?thesis by (intro exI[of _ m] exI[of _ m'] exI[of _ path]) simp
  qed
qed

text \<open>
  A later injection has to name all validators again: if one that is in the pool is not in the new set, the
  injection panics.
\<close>

theorem injection_must_name_the_pool:
  assumes "v \<in> fst ` set (validators (causal_graph m))" "v \<notin> fst ` set vset"
  shows "inject I vset allocated m = None"
  by (rule inject_forgotten[OF assms])

theorem injection_must_name_the_pool_witness: "inject sample_itc [([4], 10)] 50 sample_machine = None"
proof -
  have "[1] \<in> fst ` set (validators (causal_graph sample_machine))" by code_simp
  from injection_must_name_the_pool[OF this] show ?thesis by simp
qed

end
