(* ===== verification/Connection.thy ===== *)
theory Connection
  imports Network Persistent_Db
begin

text \<open>
  The running node: \<open>network/src/connection.rs\<close>, \<open>network/src/bootstrap.rs\<close> and the start of
  \<open>purple/main.rs\<close>.  A connection has a task that reads and a task that writes; each turn of their loops
  holds the lock of the network, so it is one step here.  A panic ends the task in which it happens, and
  nothing that follows in that task is run; the lock is released.  The socket is the list of the
  bytes that arrived and were not read yet, and the list of the buffers that were handed to it.
\<close>

definition PORT :: u16 where
  "PORT = 44034"

record 'a Socket =
  sock_addr :: 'a
  client_or_server :: ConnectionType
  refuse_connection :: bool
  reading :: bool
  writing :: bool
  incoming :: "u8 list"
  at_eof :: bool
  written :: "u8 list list"

record 'a Node =
  net :: "'a Network"
  accept_connections :: bool
  sockets :: "'a Socket list"

definition socket_new :: "'a \<Rightarrow> ConnectionType \<Rightarrow> 'a Socket" where
  "socket_new addr ct = \<lparr>sock_addr = addr, client_or_server = ct, refuse_connection = False, reading = True,
     writing = True, incoming = [], at_eof = False, written = []\<rparr>"

definition set_socket :: "nat \<Rightarrow> 'a Socket \<Rightarrow> 'a Node \<Rightarrow> 'a Node" where
  "set_socket i sock s = s\<lparr>sockets := (sockets s)[i := sock]\<rparr>"

section \<open>A new connection\<close>

text \<open>The part of \<open>process_connection\<close> that runs at once; a connection without an entry in the table goes on.\<close>

definition process_connection :: "kx_pair \<Rightarrow> 'a \<Rightarrow> ConnectionType \<Rightarrow> 'a Node \<Rightarrow> 'a Node" where
  "process_connection keys addr ct s = (case add_peer addr (peer_new keys None addr ct) (net s) of (r, n) \<Rightarrow>
     s\<lparr>net := n, accept_connections := (if r = Inl MaximumPeersReached then False else accept_connections s),
       sockets := sockets s @ [socket_new addr ct]\<rparr>)"

section \<open>The writer\<close>

definition write_connect :: "net_ext \<Rightarrow> 'a Network \<Rightarrow> ConnectionType \<Rightarrow> 'a Peer \<Rightarrow> (u8 list list \<times> 'a Peer) option" where
  "write_connect X n ct peer = (if ct = Client \<and> \<not> sent_connect peer then do {
       packet \<leftarrow> connect_to_bytes (connect_sign X (secret_key n) (connect_new (node_id n) (peer_pk peer)));
       Some ([packet], peer\<lparr>sent_connect := True\<rparr>)
     } else Some ([], peer))"

definition write_outbound :: "'a Peer \<Rightarrow> u8 list list \<times> 'a Peer" where
  "write_outbound peer = (case vec_pop (outbound_buffer peer) of
       Some (packet, rest) \<Rightarrow> ([packet], peer\<lparr>outbound_buffer := rest\<rparr>)
     | None \<Rightarrow> ([], peer))"

definition write_packets :: "net_ext \<Rightarrow> 'a Network \<Rightarrow> 'a Socket \<Rightarrow> (u8 list list \<times> 'a Peer) option" where
  "write_packets X n sock = do {
     peer \<leftarrow> map_of (peers n) (sock_addr sock);
     (first, peer) \<leftarrow> write_connect X n (client_or_server sock) peer;
     let (second, peer) = write_outbound peer;
     Some (first @ second, peer)
   }"

text \<open>One turn of the loop.  It ends only by a panic: errors of writing are logged.\<close>

definition socket_writer :: "net_ext \<Rightarrow> nat \<Rightarrow> 'a Node \<Rightarrow> 'a Node" where
  "socket_writer X i s = (let sock = sockets s ! i in
     case write_packets X (net s) sock of
       None \<Rightarrow> set_socket i (sock\<lparr>writing := False\<rparr>) s
     | Some (packets, peer) \<Rightarrow>
         (set_socket i (sock\<lparr>written := written sock @ packets\<rparr>) s)
         \<lparr>net := (net s)\<lparr>peers := AList.update (sock_addr sock) peer (peers (net s))\<rparr>\<rparr>)"

section \<open>The reader\<close>

text \<open>
  \<open>io::read_until\<close> of \<open>tokio\<close> is a parameter: a delimiter, the bytes that arrived and whether the stream has ended give
  the bytes that are taken and the rest, or waiting (\<open>None\<close>).
\<close>

type_synonym line_reader = "u8 \<Rightarrow> u8 list \<Rightarrow> bool \<Rightarrow> (u8 list \<times> u8 list) option"

text \<open>What follows the loop of the reader, whether it ended or failed.\<close>

definition connection_closed :: "nat \<Rightarrow> 'a Node \<Rightarrow> 'a Node" where
  "connection_closed i s = (let sock = sockets s ! i; n = remove_peer_with_addr (sock_addr sock) (net s) in
     (set_socket i (sock\<lparr>reading := False\<rparr>) s)
     \<lparr>net := n, accept_connections := (if peer_count n < max_peers n then True else accept_connections s)\<rparr>)"

text \<open>
  The network that a panic of \<open>process_packet\<close> leaves: the session keys are stored before the answer to a connect
  packet is sent, which is what panics.
\<close>

definition process_panic :: "net_ext \<Rightarrow> 'a Network \<Rightarrow> 'a \<Rightarrow> u8 list \<Rightarrow> 'a Network" where
  "process_panic X n addr packet = (case (map_of (peers n) addr, connect_from_bytes packet) of
       (Some peer, Inr c) \<Rightarrow> (case server_sk X (peer_pk peer) (peer_sk peer) (cn_kx_key c) of
           Some (rx, tx) \<Rightarrow> n\<lparr>peers := AList.update addr
             (peer\<lparr>peer_rx := Some rx, peer_tx := Some tx, sent_connect := True\<rparr>) (peers n)\<rparr>
         | None \<Rightarrow> n)
     | _ \<Rightarrow> n)"

text \<open>
  One turn of the loop; \<open>None\<close> is waiting for data.  An invalid connect packet flags the connection and bans the
  peer, and \<open>ban_ip\<close> is \<open>unimplemented!\<close>.
\<close>

definition socket_reader :: "net_ext \<Rightarrow> line_reader \<Rightarrow> nat \<Rightarrow> 'a Node \<Rightarrow> 'a Node option" where
  "socket_reader X R i s = (let sock = sockets s ! i in
     if refuse_connection sock then Some (connection_closed i s)
     else do {
       (message, rest) \<leftarrow> R 10 (incoming sock) (at_eof sock);
       if message = [] then Some (connection_closed i s)
       else (case process_packet X (net s) (sock_addr sock) message of
           None \<Rightarrow> Some ((set_socket i (sock\<lparr>reading := False, incoming := rest\<rparr>) s)
             \<lparr>net := process_panic X (net s) (sock_addr sock) message\<rparr>)
         | Some (result, n) \<Rightarrow>
             if result = Inl InvalidConnectPacket then
               Some ((set_socket i (sock\<lparr>refuse_connection := True, reading := False, incoming := rest\<rparr>) s)\<lparr>net := n\<rparr>)
             else Some ((set_socket i (sock\<lparr>incoming := rest\<rparr>) s)\<lparr>net := n\<rparr>))
     })"

section \<open>The steps of the node\<close>

text \<open>
  The listener takes a connection while the flag is set; \<open>connect_to_peer\<close> does not look at it.  Bytes arrive and
  streams end at any time, and reading may fail or time out at any time.
\<close>

datatype 'a action = Opened 'a ConnectionType | Received nat "u8 list" | Ended nat | Wrote nat | Read nat | Failed nat

inductive conn_step :: "net_ext \<Rightarrow> line_reader \<Rightarrow> 'a Node \<Rightarrow> 'a action \<Rightarrow> 'a Node \<Rightarrow> bool" for X R where
  listen: "accept_connections s \<Longrightarrow> conn_step X R s (Opened addr Server) (process_connection keys addr Server s)"
| connect: "conn_step X R s (Opened addr Client) (process_connection keys addr Client s)"
| arrive: "i < length (sockets s) \<Longrightarrow> sock = sockets s ! i \<Longrightarrow> \<not> at_eof sock \<Longrightarrow>
    conn_step X R s (Received i bytes) (set_socket i (sock\<lparr>incoming := incoming sock @ bytes\<rparr>) s)"
| hang_up: "i < length (sockets s) \<Longrightarrow> conn_step X R s (Ended i) (set_socket i ((sockets s ! i)\<lparr>at_eof := True\<rparr>) s)"
| write_turn: "i < length (sockets s) \<Longrightarrow> writing (sockets s ! i) \<Longrightarrow> conn_step X R s (Wrote i) (socket_writer X i s)"
| read_turn: "i < length (sockets s) \<Longrightarrow> reading (sockets s ! i) \<Longrightarrow> socket_reader X R i s = Some s' \<Longrightarrow>
    conn_step X R s (Read i) s'"
| read_error: "i < length (sockets s) \<Longrightarrow> reading (sockets s ! i) \<Longrightarrow> conn_step X R s (Failed i) (connection_closed i s)"

inductive conn_run :: "net_ext \<Rightarrow> line_reader \<Rightarrow> 'a Node \<Rightarrow> 'a action list \<Rightarrow> 'a Node \<Rightarrow> bool" for X R s where
  start: "conn_run X R s [] s"
| extend: "conn_run X R s ls t \<Longrightarrow> conn_step X R t l u \<Longrightarrow> conn_run X R s (ls @ [l]) u"

section \<open>The start of a node\<close>

definition BOOTNODES :: "string list" where
  "BOOTNODES = [''139.162.133.241:44034'']"

text \<open>
  The addresses that \<open>bootstrap\<close> connects to: first those of the cache, or the boot nodes when there is no
  cache; then, after a cache, the boot nodes if there is room.  Addresses are parsed by the argument \<open>parse\<close>,
  and the parsed list is unwrapped.
\<close>

definition bootstrap_first :: "(string \<Rightarrow> 'a option) \<Rightarrow> string list option \<Rightarrow> nat \<Rightarrow> 'a list option" where
  "bootstrap_first parse cache limit = (case cache of
       Some cache \<Rightarrow> do {
         cache \<leftarrow> those (map parse cache);
         Some (if limit < length cache then take limit cache else cache)
       }
     | None \<Rightarrow> do {
         bootnodes \<leftarrow> those (map parse BOOTNODES);
         Some (take limit bootnodes)
       })"

definition bootstrap_then :: "(string \<Rightarrow> 'a option) \<Rightarrow> string list option \<Rightarrow> nat \<Rightarrow> 'a Network \<Rightarrow> 'a list option" where
  "bootstrap_then parse cache limit n = (case cache of
       Some _ \<Rightarrow> if peer_count n < limit then those (map parse BOOTNODES) else Some []
     | None \<Rightarrow> Some [])"

text \<open>\<open>main.rs\<close>: the identity of the node, read from the store or created (the argument \<open>identity\<close>) and stored.\<close>

definition fetch_credentials ::
  "u8 list \<Rightarrow> (u8 list \<Rightarrow> u8 list) \<Rightarrow> u8 list \<times> u8 list \<Rightarrow> db \<Rightarrow> ((NodeId \<times> u8 list) \<times> db) option" where
  "fetch_credentials null_rlp hash_slice identity db =
     (let node_id_key = hash_slice (as_bytes ''node_id''); node_skey_key = hash_slice (as_bytes ''node_skey'') in
      case (db_get null_rlp db node_id_key, db_get null_rlp db node_skey_key) of
        (Some node, Some skey) \<Rightarrow> do {
          id_buf \<leftarrow> copy_from_slice 32 node;
          skey_buf \<leftarrow> copy_from_slice 64 skey;
          Some ((id_buf, skey_buf), db)
        }
      | _ \<Rightarrow> Some (identity, db_emplace (db_emplace db node_id_key (fst identity)) node_skey_key (snd identity)))"

definition DEFAULT_NETWORK_NAME :: string where
  "DEFAULT_NETWORK_NAME = ''purple''"

definition node_start :: "NodeId \<times> u8 list \<Rightarrow> string \<Rightarrow> nat \<Rightarrow> 'a Node" where
  "node_start identity name limit = \<lparr>net = network_new (fst identity) name (snd identity) limit,
     accept_connections = True, sockets = []\<rparr>"

end
