(* ===== verification/Connection_Props.thy ===== *)
theory Connection_Props
  imports Connection Network_Props
begin

text \<open>
  The table of peers of a running node.  Every step changes at most one entry of it, and only opening and
  closing a connection changes which addresses it has; an entry whose reader has ended without closing the
  connection stays.
\<close>

abbreviation table :: "'a Node \<Rightarrow> 'a list" where
  "table s \<equiv> map fst (peers (net s))"

lemma map_of_table: "map_of (peers (net s)) a \<noteq> None \<longleftrightarrow> a \<in> set (table s)"
  by (simp add: map_of_eq_None_iff)

section \<open>The effect of a turn on the network\<close>

text \<open>What a packet changes: nothing, or the session keys of the peer.\<close>

inductive keys_set :: "'a \<Rightarrow> 'a Network \<Rightarrow> 'a Network \<Rightarrow> bool" for a n where
  same: "keys_set a n n"
| set_keys: "map_of (peers n) a = Some p \<Longrightarrow>
    keys_set a n (n\<lparr>peers := AList.update a (p\<lparr>peer_rx := Some rx, peer_tx := Some tx, sent_connect := True\<rparr>) (peers n)\<rparr>)"

lemma process_keys_set: "process_packet X n a m = Some (r, n') \<Longrightarrow> keys_set a n n'"
  by (auto simp: process_packet_def process_from_peer_def network_iface_def connect_handle_def sign_and_send_def Let_def
      intro: keys_set.intros elim!: bind_SomeE split: if_split_asm sum.split_asm option.split_asm ConnectionType.split_asm prod.split_asm)

lemma panic_keys_set: "keys_set a n (process_panic X n a m)"
  by (auto simp: process_panic_def intro: keys_set.intros split: option.split sum.split)

text \<open>A step leaves the identity and the limit of the network as they are.\<close>

definition same_node :: "'a Network \<Rightarrow> 'a Network \<Rightarrow> bool" where
  "same_node n n' \<longleftrightarrow> node_id n' = node_id n \<and> secret_key n' = secret_key n \<and> max_peers n' = max_peers n"

text \<open>
  The entries: none of them has an id or packets to send, so the only thing that is ever written is the connect
  packet of a client.
\<close>

definition entry_ok :: "'a \<Rightarrow> 'a Peer \<Rightarrow> bool" where
  "entry_ok a p \<longleftrightarrow> peer_id p = None \<and> peer_ip p = a \<and> outbound_buffer p = []"

definition table_ok :: "'a Network \<Rightarrow> bool" where
  "table_ok n \<longleftrightarrow> distinct (map fst (peers n)) \<and> length (peers n) \<le> max_peers n \<and>
     (\<forall>a p. map_of (peers n) a = Some p \<longrightarrow> entry_ok a p)"

definition own_packet :: "net_ext \<Rightarrow> 'a Network \<Rightarrow> 'b Socket \<Rightarrow> u8 list \<Rightarrow> bool" where
  "own_packet X n sock packet \<longleftrightarrow> client_or_server sock = Client \<and>
     (\<exists>key. connect_to_bytes (connect_sign X (secret_key n) (connect_new (node_id n) key)) = Some packet)"

definition conn_ok :: "net_ext \<Rightarrow> 'a Node \<Rightarrow> bool" where
  "conn_ok X s \<longleftrightarrow> table_ok (net s) \<and> (\<not> accept_connections s \<longrightarrow> length (peers (net s)) = max_peers (net s)) \<and>
     (\<forall>sock \<in> set (sockets s). \<forall>packet \<in> set (written sock). own_packet X (net s) sock packet)"

lemma put_entry:
  assumes "table_ok n" "map_of (peers n) a = Some p" "entry_ok a q"
  shows "table_ok (n\<lparr>peers := AList.update a q (peers n)\<rparr>)" "map fst (AList.update a q (peers n)) = map fst (peers n)"
    "length (AList.update a q (peers n)) = length (peers n)"
proof -
  have "a \<in> fst ` set (peers n)" using assms(2) by (metis map_of_eq_None_iff option.distinct(1))
  then show k: "map fst (AList.update a q (peers n)) = map fst (peers n)" by (simp add: update_keys)
  then show l: "length (AList.update a q (peers n)) = length (peers n)" by (metis length_map)
  show "table_ok (n\<lparr>peers := AList.update a q (peers n)\<rparr>)" using assms k l by (auto simp: table_ok_def update_conv)
qed

lemma keys_set_ok:
  assumes "keys_set a n n'" "table_ok n"
  shows "table_ok n' \<and> map fst (peers n') = map fst (peers n) \<and> same_node n n'"
  using assms
proof cases
  case (set_keys p u v)
  with assms(2) have "entry_ok a (p\<lparr>peer_rx := Some x, peer_tx := Some y, sent_connect := True\<rparr>)" for x y
    by (auto simp: table_ok_def entry_ok_def)
  from put_entry[OF assms(2) set_keys(2) this] set_keys(1) show ?thesis by (simp add: same_node_def)
qed (simp_all add: same_node_def)

section \<open>One step\<close>

lemma opened_ok:
  assumes "conn_ok X s"
  shows "conn_ok X (process_connection keys a ct s)" "same_node (net s) (net (process_connection keys a ct s))"
    "set (table (process_connection keys a ct s)) \<subseteq> insert a (set (table s))"
    "set (table s) \<subseteq> set (table (process_connection keys a ct s))"
proof -
  let ?p = "peer_new keys None a ct"
  have "length (AList.update a ?p (peers (net s))) \<le> Suc (length (peers (net s)))"
    by (metis length_append_singleton length_map le_SucI order_refl update_keys)
  then have "table_ok (snd (add_peer a ?p (net s)))"
    using assms by (auto simp: conn_ok_def table_ok_def add_peer_def peer_count_def update_conv entry_ok_def peer_new_def
        intro: distinct_update)
  then show "conn_ok X (process_connection keys a ct s)"
    using assms by (auto simp: conn_ok_def process_connection_def add_peer_def peer_count_def socket_new_def own_packet_def
        table_ok_def split: if_split_asm)
  show "same_node (net s) (net (process_connection keys a ct s))"
    by (simp add: same_node_def process_connection_def add_peer_def)
  show "set (table (process_connection keys a ct s)) \<subseteq> insert a (set (table s))"
    "set (table s) \<subseteq> set (table (process_connection keys a ct s))"
    by (simp_all add: process_connection_def add_peer_def dom_update subset_insertI)
qed

text \<open>A turn that replaces one socket and keeps the table.\<close>

lemma turn_ok:
  assumes "conn_ok X s" "table_ok n" "map fst (peers n) = table s" "same_node (net s) n" "i < length (sockets s)"
    "client_or_server sock = client_or_server (sockets s ! i)"
    "\<And>packet. packet \<in> set (written sock) \<Longrightarrow> own_packet X (net s) sock packet"
  shows "conn_ok X ((set_socket i sock s)\<lparr>net := n\<rparr>)"
proof -
  have "length (peers n) = length (peers (net s))" using assms(3) by (metis length_map)
  moreover have "own_packet X n k packet \<longleftrightarrow> own_packet X (net s) k packet" for k :: "'a Socket" and packet
    using assms(4) by (simp add: own_packet_def same_node_def)
  ultimately show ?thesis
    using assms(1,2,4,7) set_update_subset_insert[of "sockets s" i sock]
    by (auto simp: conn_ok_def set_socket_def same_node_def)
qed

lemma written_ok:
  assumes "conn_ok X s" "i < length (sockets s)" "packet \<in> set (written (sockets s ! i))"
  shows "own_packet X (net s) (sockets s ! i) packet"
  using assms by (auto simp: conn_ok_def)

lemma net_self: "(set_socket i sock s)\<lparr>net := net s\<rparr> = set_socket i sock s"
  by (simp add: set_socket_def)

lemma idle_turn_ok:
  assumes "conn_ok X s" "i < length (sockets s)" "client_or_server sock = client_or_server (sockets s ! i)"
    "written sock = written (sockets s ! i)" "keys_set a (net s) n"
  shows "conn_ok X ((set_socket i sock s)\<lparr>net := n\<rparr>)" "map fst (peers n) = table s" "same_node (net s) n"
proof -
  have ok: "table_ok (net s)" using assms(1) by (simp add: conn_ok_def)
  note n = keys_set_ok[OF assms(5) ok]
  then show "map fst (peers n) = table s" "same_node (net s) n" by simp_all
  show "conn_ok X ((set_socket i sock s)\<lparr>net := n\<rparr>)"
    using written_ok[OF assms(1,2)] assms(3,4) n by (intro turn_ok[OF assms(1)]) (auto simp: own_packet_def assms(2))
qed

lemma writer_ok:
  assumes "conn_ok X s" "i < length (sockets s)"
  shows "conn_ok X (socket_writer X i s)" "table (socket_writer X i s) = table s"
    "same_node (net s) (net (socket_writer X i s))"
proof -
  let ?sock = "sockets s ! i"
  have ok: "table_ok (net s)" using assms(1) by (simp add: conn_ok_def)
  have "conn_ok X (socket_writer X i s) \<and> table (socket_writer X i s) = table s \<and>
    same_node (net s) (net (socket_writer X i s))"
  proof (cases "write_packets X (net s) ?sock")
    case None
    with idle_turn_ok(1)[OF assms _ _ keys_set.same, of "?sock\<lparr>writing := False\<rparr>"] show ?thesis
      by (simp add: socket_writer_def net_self same_node_def) (simp add: set_socket_def)
  next
    case (Some w)
    obtain packets q where w: "w = (packets, q)" by (cases w)
    with Some obtain p where p: "map_of (peers (net s)) (sock_addr ?sock) = Some p" "entry_ok (sock_addr ?sock) p"
      and step: "write_connect X (net s) (client_or_server ?sock) p = Some (packets, q)"
      using ok by (auto simp: write_packets_def write_outbound_def write_connect_def table_ok_def entry_ok_def
          elim!: bind_SomeE split: if_split_asm option.split_asm)
    from step p(2) have q: "entry_ok (sock_addr ?sock) q"
      by (auto simp: write_connect_def entry_ok_def elim!: bind_SomeE split: if_split_asm)
    from step have own: "own_packet X (net s) ?sock packet" if "packet \<in> set packets" for packet
      using that by (auto simp: write_connect_def own_packet_def elim!: bind_SomeE split: if_split_asm)
    let ?n = "(net s)\<lparr>peers := AList.update (sock_addr ?sock) q (peers (net s))\<rparr>"
    note n = put_entry[OF ok p(1) q]
    have "conn_ok X ((set_socket i (?sock\<lparr>written := written ?sock @ packets\<rparr>) s)\<lparr>net := ?n\<rparr>)"
      using own written_ok[OF assms] n assms(2)
      by (intro turn_ok[OF assms(1)]) (auto simp: own_packet_def same_node_def)
    with Some w n show ?thesis by (simp add: socket_writer_def Let_def same_node_def)
  qed
  then show "conn_ok X (socket_writer X i s)" "table (socket_writer X i s) = table s"
    "same_node (net s) (net (socket_writer X i s))" by simp_all
qed

lemma closed_ok:
  assumes "conn_ok X s" "i < length (sockets s)"
  shows "conn_ok X (connection_closed i s)" "table (connection_closed i s) = removeAll (sock_addr (sockets s ! i)) (table s)"
    "same_node (net s) (net (connection_closed i s))"
proof -
  let ?a = "sock_addr (sockets s ! i)"
  let ?n = "remove_peer_with_addr ?a (net s)"
  have len: "length (AList.delete ?a (peers (net s))) \<le> length (peers (net s))" by (rule length_delete_le)
  have ok: "table_ok (net s)" "\<not> accept_connections s \<longrightarrow> length (peers (net s)) = max_peers (net s)"
    using assms(1) by (simp_all add: conn_ok_def)
  with len have "table_ok ?n"
    by (auto simp: table_ok_def remove_peer_with_addr_def delete_conv distinct_delete split: if_split_asm)
  moreover have "own_packet X ?n k packet" if "k \<in> set ((sockets s)[i := (sockets s ! i)\<lparr>reading := False\<rparr>])"
      "packet \<in> set (written k)" for k packet
    using that assms(1) written_ok[OF assms] set_update_subset_insert[of "sockets s" i "(sockets s ! i)\<lparr>reading := False\<rparr>"]
    by (auto simp: conn_ok_def own_packet_def remove_peer_with_addr_def)
  moreover have "length (peers ?n) = max_peers ?n" if "\<not> accept_connections s" "\<not> peer_count ?n < max_peers ?n"
    using that ok len by (simp add: remove_peer_with_addr_def peer_count_def)
  ultimately show "conn_ok X (connection_closed i s)"
    by (auto simp: conn_ok_def connection_closed_def Let_def set_socket_def)
  show "table (connection_closed i s) = removeAll ?a (table s)" "same_node (net s) (net (connection_closed i s))"
    by (simp_all add: connection_closed_def remove_peer_with_addr_def delete_keys same_node_def Let_def)
qed

text \<open>The turns of the reader: it closes the connection, or it keeps the table.\<close>

lemma reader_cases:
  assumes "socket_reader X R i s = Some s'"
  obtains (closed) "s' = connection_closed i s"
  | (kept) n sock where "s' = (set_socket i sock s)\<lparr>net := n\<rparr>" "keys_set (sock_addr (sockets s ! i)) (net s) n"
      "client_or_server sock = client_or_server (sockets s ! i)" "written sock = written (sockets s ! i)"
      "sock_addr sock = sock_addr (sockets s ! i)" "reading sock \<longrightarrow> reading (sockets s ! i)"
proof -
  let ?sock = "sockets s ! i"
  show ?thesis
  proof (cases "s' = connection_closed i s")
    case False
    with assms obtain m rest where m: "R 10 (incoming ?sock) (at_eof ?sock) = Some (m, rest)" "\<not> refuse_connection ?sock" "m \<noteq> []"
      by (auto simp: socket_reader_def Let_def elim!: bind_SomeE split: if_split_asm)
    show ?thesis
    proof (cases "process_packet X (net s) (sock_addr ?sock) m")
      case None
      with assms m kept[OF _ panic_keys_set[of _ _ X m], of "?sock\<lparr>reading := False, incoming := rest\<rparr>"] show ?thesis
        by (simp add: socket_reader_def Let_def)
    next
      case (Some rn)
      with process_keys_set have n: "keys_set (sock_addr ?sock) (net s) (snd rn)" by (metis prod.collapse)
      with Some assms m kept[OF _ n, of "?sock\<lparr>refuse_connection := True, reading := False, incoming := rest\<rparr>"]
        kept[OF _ n, of "?sock\<lparr>incoming := rest\<rparr>"]
      show ?thesis by (cases rn) (auto simp: socket_reader_def Let_def split: if_split_asm)
    qed
  qed (rule closed)
qed

lemma reader_ok:
  assumes "conn_ok X s" "i < length (sockets s)" "socket_reader X R i s = Some s'"
  shows "conn_ok X s' \<and> same_node (net s) (net s') \<and> set (table s) - {sock_addr (sockets s ! i)} \<subseteq> set (table s') \<and>
    set (table s') \<subseteq> set (table s)"
  using assms(3)
proof (cases rule: reader_cases)
  case closed
  with closed_ok[OF assms(1,2)] show ?thesis by auto
next
  case (kept n sock)
  from idle_turn_ok[OF assms(1,2) kept(3,4,2)] kept(1) show ?thesis by auto
qed

lemma step_ok:
  assumes "conn_step X R s l s'" "conn_ok X s"
  shows "conn_ok X s' \<and> same_node (net s) (net s')"
  using assms
proof cases
  case (arrive i sock bytes)
  with idle_turn_ok(1)[OF assms(2) arrive(3) _ _ keys_set.same, of "sock\<lparr>incoming := incoming sock @ bytes\<rparr>"] show ?thesis
    by (simp add: net_self) (simp add: set_socket_def same_node_def)
next
  case (hang_up i)
  with idle_turn_ok(1)[OF assms(2) hang_up(3) _ _ keys_set.same, of "(sockets s ! i)\<lparr>at_eof := True\<rparr>"] show ?thesis
    by (simp add: net_self) (simp add: set_socket_def same_node_def)
next
  case (write_turn i)
  with writer_ok[OF assms(2) write_turn(3)] show ?thesis by simp
next
  case (read_turn i)
  with reader_ok[OF assms(2) read_turn(2)] show ?thesis by simp
next
  case (read_error i)
  with closed_ok[OF assms(2) read_error(3)] show ?thesis by simp
qed (simp_all add: opened_ok[OF assms(2)])

lemma run_ok:
  assumes "conn_run X R s ls s'" "conn_ok X s"
  shows "conn_ok X s' \<and> same_node (net s) (net s')"
  using assms
proof induction
  case (extend ls t l u)
  with step_ok[OF extend(2)] show ?case by (simp add: same_node_def)
qed (simp add: same_node_def)

lemma start_ok: "conn_ok X (node_start identity name limit)"
  by (simp add: conn_ok_def node_start_def network_new_def table_ok_def)

section \<open>Entries that nobody removes\<close>

definition abandoned :: "'a Node \<Rightarrow> 'a \<Rightarrow> bool" where
  "abandoned s a \<longleftrightarrow> a \<in> set (table s) \<and> (\<forall>sock \<in> set (sockets s). sock_addr sock = a \<longrightarrow> \<not> reading sock)"

lemma abandoned_reader: "abandoned s a \<Longrightarrow> i < length (sockets s) \<Longrightarrow> reading (sockets s ! i) \<Longrightarrow> sock_addr (sockets s ! i) \<noteq> a"
  by (auto simp: abandoned_def)

lemma abandoned_turn:
  assumes "abandoned s a" "a \<in> set (map fst (peers n))" "i < length (sockets s)" "sock_addr sock = sock_addr (sockets s ! i)"
    "reading sock \<longrightarrow> reading (sockets s ! i)"
  shows "abandoned ((set_socket i sock s)\<lparr>net := n\<rparr>) a"
  using assms set_update_subset_insert[of "sockets s" i sock] by (auto simp: abandoned_def set_socket_def)

lemma abandoned_closed:
  assumes "abandoned s a" "conn_ok X s" "i < length (sockets s)" "reading (sockets s ! i)"
  shows "abandoned (connection_closed i s) a"
proof -
  have "a \<in> set (table (connection_closed i s))"
    using closed_ok(2)[OF assms(2,3)] assms(1) abandoned_reader[OF assms(1,3,4)] by (auto simp: abandoned_def)
  with assms(1) set_update_subset_insert[of "sockets s" i "(sockets s ! i)\<lparr>reading := False\<rparr>"] show ?thesis
    by (auto simp: abandoned_def connection_closed_def Let_def set_socket_def)
qed

lemma abandoned_step:
  assumes "conn_step X R s l s'" "conn_ok X s" "abandoned s a" "\<And>ct. l \<noteq> Opened a ct"
  shows "abandoned s' a"
proof -
  have opened: "abandoned (process_connection keys b ct s) a" if "b \<noteq> a" for keys b ct
  proof -
    have "a \<in> set (table (process_connection keys b ct s))" using opened_ok(4)[OF assms(2), of keys b ct] assms(3)
      unfolding abandoned_def by blast
    with assms(3) that show ?thesis by (auto simp: abandoned_def process_connection_def socket_new_def split: prod.split)
  qed
  have a: "a \<in> set (table s)" using assms(3) by (simp add: abandoned_def)
  from assms(1) show ?thesis
  proof cases
    case (arrive i sock bytes)
    with abandoned_turn[OF assms(3) a arrive(3), of "sock\<lparr>incoming := incoming sock @ bytes\<rparr>"] show ?thesis by (simp add: net_self)
  next
    case (hang_up i)
    with abandoned_turn[OF assms(3) a hang_up(3), of "(sockets s ! i)\<lparr>at_eof := True\<rparr>"] show ?thesis by (simp add: net_self)
  next
    case (write_turn i)
    have "a \<in> set (table s')" using writer_ok(2)[OF assms(2) write_turn(3)] write_turn(2) a by simp
    with assms(3) write_turn set_update_subset_insert[of "sockets s" i] show ?thesis
      by (fastforce simp: abandoned_def socket_writer_def Let_def set_socket_def split: option.splits)
  next
    case (read_turn i)
    from read_turn(4) show ?thesis
    proof (cases rule: reader_cases)
      case closed
      with abandoned_closed[OF assms(3,2) read_turn(2,3)] show ?thesis by simp
    next
      case (kept n sock)
      with idle_turn_ok(2)[OF assms(2) read_turn(2) kept(3,4,2)] abandoned_turn[OF assms(3) _ read_turn(2) kept(5,6), of n] a
      show ?thesis by simp
    qed
  next
    case (read_error i)
    with abandoned_closed[OF assms(3,2) read_error(3,4)] show ?thesis by simp
  qed (metis opened assms(4))+
qed

text \<open>A node whose table is full of such entries, and which does not listen.\<close>

definition silent :: "'a set \<Rightarrow> 'a Node \<Rightarrow> bool" where
  "silent A s \<longleftrightarrow> \<not> accept_connections s \<and> (\<forall>a \<in> A. abandoned s a) \<and> card A = max_peers (net s)"

lemma silent_table:
  assumes "silent A s" "conn_ok X s"
  shows "set (table s) = A" "length (peers (net s)) = max_peers (net s)"
proof -
  have "card (set (table s)) = length (peers (net s))" "length (peers (net s)) \<le> max_peers (net s)"
    using assms(2) distinct_card[of "table s"] by (simp_all add: conn_ok_def table_ok_def)
  moreover have "A \<subseteq> set (table s)" using assms(1) by (auto simp: silent_def abandoned_def)
  moreover from this have "card A \<le> card (set (table s))" by (intro card_mono) auto
  ultimately show "set (table s) = A" "length (peers (net s)) = max_peers (net s)"
    using assms(1) card_subset_eq[of "set (table s)" A] by (auto simp: silent_def)
qed

lemma closing_stays_silent:
  assumes "silent A s" "conn_ok X s" "i < length (sockets s)" "reading (sockets s ! i)"
  shows "\<not> accept_connections (connection_closed i s)"
proof -
  have "sock_addr (sockets s ! i) \<notin> set (table s)"
    using abandoned_reader[OF _ assms(3,4)] assms(1) silent_table(1)[OF assms(1,2)] by (auto simp: silent_def)
  then have "AList.delete (sock_addr (sockets s ! i)) (peers (net s)) = peers (net s)" by (simp add: delete_id)
  then show ?thesis using assms(1) silent_table(2)[OF assms(1,2)]
    by (simp add: connection_closed_def remove_peer_with_addr_def peer_count_def silent_def Let_def set_socket_def)
qed

lemma silent_step:
  assumes "conn_step X R s l s'" "conn_ok X s" "silent A s" "\<And>a. a \<in> A \<Longrightarrow> l \<noteq> Opened a Client"
  shows "silent A s'"
proof -
  have deaf: "\<not> accept_connections s" using assms(3) by (simp add: silent_def)
  have "abandoned s' a" if "a \<in> A" for a
  proof -
    have "l \<noteq> Opened a ct" for ct
      using assms(1) deaf assms(4)[OF that] by (cases ct) (auto elim: conn_step.cases)
    with abandoned_step[OF assms(1,2)] assms(3) that show ?thesis by (simp add: silent_def)
  qed
  moreover from assms(1) have "\<not> accept_connections s'"
  proof cases
    case (read_turn i)
    from read_turn(4) show ?thesis
      by (cases rule: reader_cases) (use closing_stays_silent[OF assms(3,2) read_turn(2,3)] deaf in \<open>auto simp: set_socket_def\<close>)
  next
    case (read_error i)
    with closing_stays_silent[OF assms(3,2) read_error(3,4)] show ?thesis by simp
  qed (use deaf in \<open>auto simp: process_connection_def socket_writer_def set_socket_def Let_def split: prod.split option.split\<close>)
  moreover have "same_node (net s) (net s')" using step_ok[OF assms(1,2)] by simp
  ultimately show ?thesis using assms(3) by (simp add: silent_def same_node_def)
qed

lemma silent_run:
  assumes "conn_run X R s ls s'" "conn_ok X s" "silent A s" "\<And>a. a \<in> A \<Longrightarrow> Opened a Client \<notin> set ls"
  shows "silent A s'"
  using assms
proof induction
  case (extend ls t l u)
  have "silent A t" using extend by auto
  with silent_step[OF extend(2)] run_ok[OF extend(1)] extend show ?case by auto
qed

section \<open>A line ends the reader\<close>

text \<open>
  On a connection that a peer opened, every message ends the reader, whether it is a connect packet or not: the
  answer to a connect packet and the ban of a peer are both not implemented.
\<close>

lemma line_ends_reader:
  assumes "conn_ok X s" "i < length (sockets s)" "\<not> refuse_connection (sockets s ! i)"
    "R 10 (incoming (sockets s ! i)) (at_eof (sockets s ! i)) = Some (m, rest)" "m \<noteq> []"
    "map_of (peers (net s)) (sock_addr (sockets s ! i)) = Some p" "connection_type p = Server"
  shows "\<exists>s'. socket_reader X R i s = Some s' \<and> \<not> reading (sockets s' ! i) \<and> table s' = table s \<and>
    accept_connections s' = accept_connections s \<and> length (sockets s') = length (sockets s) \<and>
    (\<forall>j < length (sockets s). sock_addr (sockets s' ! j) = sock_addr (sockets s ! j) \<and> (j \<noteq> i \<longrightarrow> sockets s' ! j = sockets s ! j))"
proof -
  let ?a = "sock_addr (sockets s ! i)"
  have ok: "table_ok (net s)" "peer_id p = None" using assms(1,6) by (auto simp: conn_ok_def table_ok_def entry_ok_def)
  have bad: "r = Inl InvalidConnectPacket" if "process_packet X (net s) ?a m = Some (r, n)" for r n
    using that assms(6,7) ok(2)
    by (auto simp: process_packet_def process_from_peer_def network_iface_def connect_handle_def sign_and_send_def Let_def
        elim!: bind_SomeE split: option.split_asm sum.split_asm)
  show ?thesis
  proof (cases "process_packet X (net s) ?a m")
    case None
    with keys_set_ok[OF panic_keys_set ok(1), of X ?a m] assms show ?thesis
      by (simp add: socket_reader_def Let_def set_socket_def nth_list_update)
  next
    case (Some rn)
    obtain r n where rn: "rn = (r, n)" by (cases rn)
    from keys_set_ok[OF process_keys_set ok(1)] Some rn bad assms show ?thesis
      by (simp add: socket_reader_def Let_def set_socket_def nth_list_update)
  qed
qed

text \<open>One connection, one line.\<close>

definition visited :: "'a list \<Rightarrow> 'a Node \<Rightarrow> bool" where
  "visited as s \<longleftrightarrow> table s = as \<and> length (sockets s) = length as \<and> accept_connections s \<and> (\<forall>sock \<in> set (sockets s). \<not> reading sock)"

lemma visit:
  assumes ok: "conn_ok X s" and s: "visited as s" and a: "a \<notin> set as" "length as < max_peers (net s)"
    and m: "R 10 m False = Some (m, [])" "m \<noteq> []"
  shows "\<exists>s'. conn_run X R s [Opened a Server, Received (length as) m, Read (length as)] s' \<and> visited (as @ [a]) s'"
proof -
  define s1 where "s1 = process_connection ([], []) a Server s"
  define p where "p = peer_new ([], []) None a Server"
  define sock where "sock = (socket_new a Server)\<lparr>incoming := m\<rparr>"
  let ?i = "length (sockets s)"
  define s2 where "s2 = set_socket ?i sock s1"
  have len: "length (peers (net s)) = length as" using s by (metis length_map visited_def)
  have table: "map fst (AList.update a p (peers (net s))) = as @ [a]"
    using s a(1) by (simp add: visited_def update_keys)
  have s1: "net s1 = (net s)\<lparr>peers := AList.update a p (peers (net s))\<rparr>" "accept_connections s1"
    "sockets s1 = sockets s @ [socket_new a Server]"
    using a(2) len s by (simp_all add: s1_def p_def process_connection_def add_peer_def peer_count_def visited_def)
  have s2: "net s2 = net s1" "accept_connections s2" "sockets s2 = sockets s @ [sock]"
    by (simp_all add: s2_def set_socket_def s1)
  have sock: "sock_addr sock = a" "\<not> refuse_connection sock" "incoming sock = m" "\<not> at_eof sock" "reading sock"
    by (simp_all add: sock_def socket_new_def)
  have step1: "conn_step X R s (Opened a Server) s1" unfolding s1_def using s by (intro conn_step.listen) (simp add: visited_def)
  have step2: "conn_step X R s1 (Received ?i m) s2"
    using conn_step.arrive[of ?i s1 "socket_new a Server" X R m] by (simp add: s1 s2_def sock_def socket_new_def)
  have ok2: "conn_ok X s2" using step_ok[OF step2] step_ok[OF step1 ok] by simp
  have p: "map_of (peers (net s2)) (sock_addr (sockets s2 ! ?i)) = Some p" "connection_type p = Server"
    by (simp_all add: s2 s1 sock update_conv) (simp add: p_def peer_new_def)
  from line_ends_reader[where R = R, OF ok2 _ _ _ m(2) p, of "[]"] m(1) obtain s3 where s3: "socket_reader X R ?i s2 = Some s3"
    "\<not> reading (sockets s3 ! ?i)" "table s3 = table s2" "accept_connections s3 = accept_connections s2"
    "length (sockets s3) = length (sockets s2)" "\<forall>j < length (sockets s2). j \<noteq> ?i \<longrightarrow> sockets s3 ! j = sockets s2 ! j"
    by (auto simp: s2 sock)
  have step3: "conn_step X R s2 (Read ?i) s3" using s3(1) by (intro conn_step.read_turn) (simp_all add: s2 sock)
  note run = conn_run.extend[OF conn_run.extend[OF conn_run.extend[OF conn_run.start step1] step2] step3]
  have "\<not> reading sock" if "sock \<in> set (sockets s3)" for sock
  proof -
    from that obtain j where j: "j < length (sockets s3)" "sock = sockets s3 ! j" by (auto simp: in_set_conv_nth)
    show ?thesis
    proof (cases "j = ?i")
      case False
      with j s3(5,6) have "j < length (sockets s)" "sock = sockets s ! j" by (auto simp: s2 nth_append)
      with s show ?thesis by (simp add: visited_def)
    qed (use j s3(2) in simp)
  qed
  with s3 have "visited (as @ [a]) s3" using s by (simp add: visited_def s2 s1 table)
  moreover have "?i = length as" using s by (simp add: visited_def)
  ultimately show ?thesis using run by auto
qed

lemma run_trans: "conn_run X R s ls t \<Longrightarrow> conn_run X R t ls' u \<Longrightarrow> conn_run X R s (ls @ ls') u"
proof (rotate_tac, induction rule: conn_run.induct)
  case (extend ls' t' l u)
  then show ?case using conn_run.extend[of X R s "ls @ ls'" t' l u] by simp
qed simp

text \<open>Visitors, each with an address and a line.\<close>

definition visit_steps :: "('a \<times> u8 list) list \<Rightarrow> 'a action list" where
  "visit_steps vs = concat (map (\<lambda>(i, a, line). [Opened a Server, Received i line, Read i]) (enumerate 0 vs))"

lemma visits:
  assumes "distinct (map fst vs)" "length vs \<le> limit"
    "\<forall>line \<in> set (map snd vs). line \<noteq> [] \<and> R 10 line False = Some (line, [])"
  shows "\<exists>s. conn_run X R (node_start identity name limit) (visit_steps vs) s \<and> visited (map fst vs) s"
  using assms
proof (induction vs rule: rev_induct)
  case Nil
  then show ?case by (auto simp: visit_steps_def visited_def node_start_def network_new_def intro: conn_run.start)
next
  case (snoc v vs)
  obtain a line where v: "v = (a, line)" by (cases v)
  from snoc obtain s where s: "conn_run X R (node_start identity name limit) (visit_steps vs) s" "visited (map fst vs) s" by auto
  note ok = run_ok[OF s(1) start_ok]
  then have "max_peers (net s) = limit" by (simp add: same_node_def node_start_def network_new_def)
  with visit[where R = R, OF _ s(2), of X a line] ok snoc.prems v obtain s' where
    "conn_run X R s [Opened a Server, Received (length vs) line, Read (length vs)] s'" "visited (map fst vs @ [a]) s'" by force
  with run_trans[OF s(1)] show ?case by (fastforce simp: visit_steps_def enumerate_append_eq v)
qed

text \<open>With as many visitors as there are places, one more connection makes the node silent.\<close>

lemma silenced:
  assumes "distinct (map fst vs)" "length vs = limit" "b \<notin> set (map fst vs)"
    "\<forall>line \<in> set (map snd vs). line \<noteq> [] \<and> R 10 line False = Some (line, [])"
  shows "\<exists>s. conn_run X R (node_start identity name limit) (visit_steps vs @ [Opened b Server]) s \<and> silent (set (map fst vs)) s"
proof -
  obtain s where s: "conn_run X R (node_start identity name limit) (visit_steps vs) s" "visited (map fst vs) s"
    using visits[where R = R, OF assms(1) _ assms(4), of limit X identity name] assms(2) by blast
  have "max_peers (net s) = limit" using run_ok[OF s(1) start_ok] by (simp add: same_node_def node_start_def network_new_def)
  moreover have "length (peers (net s)) = limit" using s(2) assms(2) by (metis length_map visited_def)
  moreover have "card (set (map fst vs)) = limit" using assms(1,2) by (metis distinct_card length_map)
  ultimately have "silent (set (map fst vs)) (process_connection ([], []) b Server s)"
    using s(2) assms(3) unfolding silent_def abandoned_def visited_def
    by (auto simp: process_connection_def add_peer_def peer_count_def socket_new_def)
  moreover have "conn_step X R s (Opened b Server) (process_connection ([], []) b Server s)"
    using s(2) by (intro conn_step.listen) (simp add: visited_def)
  ultimately show ?thesis using conn_run.extend[OF s(1)] by blast
qed

section \<open>Messages\<close>

text \<open>Reading a line: everything up to the first delimiter, or all of it at the end of the stream.\<close>

definition read_law :: "line_reader \<Rightarrow> bool" where
  "read_law R \<longleftrightarrow> (\<forall>d bytes eof line rest. R d bytes eof = Some (line, rest) \<longleftrightarrow>
     line @ rest = bytes \<and> d \<notin> set (butlast line) \<and> (line \<noteq> [] \<and> last line = d \<or> d \<notin> set line \<and> rest = [] \<and> eof))"

lemma read_line: "read_law R \<Longrightarrow> line \<noteq> [] \<Longrightarrow> last line = d \<Longrightarrow> d \<notin> set (butlast line) \<Longrightarrow> R d line False = Some (line, [])"
  by (simp add: read_law_def)

text \<open>A connect packet has no delimiter: it is read as one only if it happens to end in one.\<close>

lemma connect_bytes_length: "connect_from_bytes line = Inr c \<Longrightarrow> length line = 129"
  using connect_from_bytes_wf[of line c] by (auto simp: wf_connect_def wf_sig_def connect_to_bytes_def)

lemma first_message_whole:
  assumes "read_law R" "connect_from_bytes packet = Inr c" "R 10 (packet @ later) eof = Some (line, rest)"
    "connect_from_bytes line = Inr c'"
  shows "line = packet \<and> rest = later"
proof -
  have "line @ rest = packet @ later" using assms(1,3) by (simp add: read_law_def)
  with connect_bytes_length[OF assms(2)] connect_bytes_length[OF assms(4)] show ?thesis by (simp add: append_eq_append_conv)
qed

lemma first_message:
  assumes "read_law R" "connect_from_bytes packet = Inr c"
  shows "(\<exists>line rest c'. R 10 (packet @ later) eof = Some (line, rest) \<and> connect_from_bytes line = Inr c') \<longleftrightarrow>
    10 \<notin> set (butlast packet) \<and> (last packet = 10 \<or> later = [] \<and> eof)"
proof -
  have "packet \<noteq> []" using connect_bytes_length[OF assms(2)] by auto
  moreover from this have "10 \<in> set packet \<longleftrightarrow> 10 \<in> set (butlast packet) \<or> last packet = 10"
    by (metis append_butlast_last_id in_set_butlastD last_in_set rotate1.simps(2) set_ConsD set_rotate1)
  moreover have "(\<exists>line rest c'. R 10 (packet @ later) eof = Some (line, rest) \<and> connect_from_bytes line = Inr c') \<longleftrightarrow>
      R 10 (packet @ later) eof = Some (packet, later)"
    using first_message_whole[OF assms] assms(2) by blast
  ultimately show ?thesis using assms(1) unfolding read_law_def by auto
qed

text \<open>A client has session keys after a turn just when the turn reads a connect packet.\<close>

lemma client_turn:
  assumes "\<not> refuse_connection sock" "sock = sockets s ! i" "map_of (peers (net s)) (sock_addr sock) = Some p"
    "peer_id p = None" "connection_type p = Client" "peer_rx p = None"
    "\<And>line rest c'. R 10 (incoming sock) (at_eof sock) = Some (line, rest) \<Longrightarrow> connect_from_bytes line = Inr c' \<Longrightarrow>
       client_sk X (peer_pk p) (peer_sk p) (cn_kx_key c') \<noteq> None"
  shows "(\<exists>s' q. socket_reader X R i s = Some s' \<and> map_of (peers (net s')) (sock_addr sock) = Some q \<and> peer_rx q \<noteq> None) \<longleftrightarrow>
    (\<exists>line rest c'. R 10 (incoming sock) (at_eof sock) = Some (line, rest) \<and> connect_from_bytes line = Inr c')"
proof (cases "R 10 (incoming sock) (at_eof sock)")
  case None
  with assms(1,2) show ?thesis by (simp add: socket_reader_def Let_def)
next
  case (Some r)
  obtain line rest where r: "r = (line, rest)" by (cases r)
  note turn = socket_reader_def process_packet_def process_from_peer_def network_iface_def connect_handle_def Let_def
  show ?thesis
  proof (cases "connect_from_bytes line")
    case (Inl e)
    with Some r assms(1-6) show ?thesis
      by (auto simp: turn connection_closed_def remove_peer_with_addr_def delete_conv set_socket_def)
  next
    case (Inr c)
    have "line \<noteq> []" using connect_bytes_length[OF Inr] by auto
    with Some r Inr assms(1-6) assms(7)[of line rest c] show ?thesis by (auto simp: turn update_conv)
  qed
qed

section \<open>The identity of a node\<close>

text \<open>Once created, the identity is found again.\<close>

lemma credentials_are_kept:
  assumes "length (fst identity) = 32" "length (snd identity) = 64" "fst identity \<noteq> NULL_RLP_HASH"
    "hash_slice (as_bytes ''node_id'') \<noteq> hash_slice (as_bytes ''node_skey'')"
    "hash_slice (as_bytes ''node_id'') \<noteq> NULL_RLP_HASH" "hash_slice (as_bytes ''node_skey'') \<noteq> NULL_RLP_HASH"
    "fetch_credentials null_rlp hash_slice identity db = Some (found, db')"
  shows "fetch_credentials null_rlp hash_slice other db' = Some (found, db')"
proof -
  have "snd identity \<noteq> NULL_RLP_HASH" using assms(2) by (auto simp: NULL_RLP_HASH_def)
  with assms show ?thesis
    by (auto simp: fetch_credentials_def Let_def db_get_emplace elim!: bind_SomeE split: option.split_asm)
qed

lemma bootstrap_first_bound: "bootstrap_first parse cache limit = Some as \<Longrightarrow> length as \<le> limit"
  by (auto simp: bootstrap_first_def elim!: bind_SomeE split: option.split_asm if_split_asm)

end
