(* ===== verification/Node_Theorems.thy ===== *)
theory Node_Theorems
  imports Connection_Props Protocol_Theorems
begin

text \<open>The properties of a running node: its table of peers, its connections and what it reads from them.\<close>

text \<open>
  C38.  The table of peers stays bounded.  In every state that a node reaches, whatever its peers send and in
  whichever order the tasks run, no address has two entries and there are at most as many as configured; the
  listener is off only when the table is full; no peer is ever identified; and the only thing that is written to
  a connection is the signed connect packet of this node, on connections that it opened.
\<close>

theorem peer_table_is_bounded:
  assumes "conn_run X R (node_start identity name limit) ls s"
  shows "distinct (map fst (peers (net s))) \<and> length (peers (net s)) \<le> limit \<and>
    (\<not> accept_connections s \<longrightarrow> length (peers (net s)) = limit) \<and>
    (\<forall>a p. map_of (peers (net s)) a = Some p \<longrightarrow> peer_id p = None \<and> peer_ip p = a) \<and>
    (\<forall>sock \<in> set (sockets s). \<forall>packet \<in> set (written sock). client_or_server sock = Client \<and>
      (\<exists>key. connect_to_bytes (connect_sign X (snd identity) (connect_new (fst identity) key)) = Some packet))"
  using run_ok[OF assms start_ok]
  by (auto simp: conn_ok_def table_ok_def entry_ok_def same_node_def own_packet_def node_start_def network_new_def)

text \<open>Reading a line, as an instance of the parameter.\<close>

definition sample_read_until :: line_reader where
  "sample_read_until d bytes eof = (case dropWhile (\<lambda>b. b \<noteq> d) bytes of
       x # rest \<Rightarrow> Some (takeWhile (\<lambda>b. b \<noteq> d) bytes @ [x], rest)
     | [] \<Rightarrow> if eof then Some (bytes, []) else None)"

lemma first_unique: "d \<notin> set us \<Longrightarrow> d \<notin> set ws \<Longrightarrow> ws @ d # rest = us @ d # vs \<Longrightarrow> ws = us \<and> rest = vs"
proof (induction ws arbitrary: us)
  case Nil
  then show ?case by (cases us) auto
next
  case (Cons w ws)
  then show ?case by (cases us) auto
qed

lemma sample_read_until_line:
  "sample_read_until d bytes eof = Some (line, rest) \<longleftrightarrow> line @ rest = bytes \<and> d \<notin> set (butlast line) \<and>
     (line \<noteq> [] \<and> last line = d \<or> d \<notin> set line \<and> rest = [] \<and> eof)"
proof (cases "d \<in> set bytes")
  case True
  then obtain us vs where b: "bytes = us @ d # vs" "d \<notin> set us" by (meson split_list_first)
  then have "takeWhile (\<lambda>b. b \<noteq> d) bytes = us" "dropWhile (\<lambda>b. b \<noteq> d) bytes = d # vs"
    by (induction us arbitrary: bytes) auto
  then have r: "sample_read_until d bytes eof = Some (line, rest) \<longleftrightarrow> line = us @ [d] \<and> rest = vs" by (auto simp: sample_read_until_def)
  show ?thesis
  proof (cases "line \<noteq> [] \<and> last line = d")
    case True
    then obtain ws where ws: "line = ws @ [d]" by (metis append_butlast_last_id)
    have "line @ rest = bytes \<and> d \<notin> set (butlast line) \<longleftrightarrow> line = us @ [d] \<and> rest = vs"
      using first_unique[OF b(2), of ws rest vs] ws b by auto
    with r True show ?thesis by simp
  next
    case False
    with r \<open>d \<in> set bytes\<close> show ?thesis by auto
  qed
next
  case False
  then have none: "dropWhile (\<lambda>b. b \<noteq> d) bytes = []" by auto
  have "sample_read_until d bytes eof = Some (line, rest) \<longleftrightarrow> eof \<and> line = bytes \<and> rest = []"
    unfolding sample_read_until_def none by auto
  with False show ?thesis by (auto dest: in_set_butlastD)
qed

lemma sample_read_law: "read_law sample_read_until"
  unfolding read_law_def using sample_read_until_line by blast

definition sample_start :: "nat Node" where
  "sample_start = node_start (replicate 32 1, []) DEFAULT_NETWORK_NAME 8"

definition sample_connecting :: "nat Node" where
  "sample_connecting = process_connection (sample_pair 5) 2 Client sample_start"

theorem peer_table_is_bounded_witness:
  "\<exists>s ls. conn_run sample_net sample_read_until sample_start ls s \<and> sockets s \<noteq> [] \<and> written (sockets s ! 0) \<noteq> [] \<and> distinct (map fst (peers (net s))) \<and>
     length (peers (net s)) \<le> 8"
proof -
  let ?s = "socket_writer sample_net 0 sample_connecting"
  have one: "conn_step sample_net sample_read_until sample_start (Opened 2 Client) sample_connecting"
    unfolding sample_connecting_def by (rule conn_step.connect)
  have two: "conn_step sample_net sample_read_until sample_connecting (Wrote 0) ?s"
    by (rule conn_step.write_turn)
      (simp_all add: sample_connecting_def sample_start_def node_start_def process_connection_def add_peer_def peer_count_def
        network_new_def socket_new_def)
  note run = conn_run.extend[OF conn_run.extend[OF conn_run.start one] two]
  have "written (sockets ?s ! 0) \<noteq> []" "sockets ?s \<noteq> []"
    by (simp_all add: sample_connecting_def sample_start_def node_start_def process_connection_def add_peer_def peer_count_def
        network_new_def socket_new_def socket_writer_def set_socket_def write_packets_def write_connect_def write_outbound_def
        peer_new_def connect_to_bytes_def connect_sign_def connect_new_def)
  with run peer_table_is_bounded[OF run[unfolded sample_start_def]] show ?thesis by blast
qed

text \<open>
  C39.  A few lines silence a node.  Any message on a connection that a peer opened ends the task that reads it by
  a panic, which leaves its entry in the table.  So as many peers as there are places, each of them sending one
  line of any content, and one more connection bring a node into a state in which it does not listen, and it does
  not listen again: as long as it does not itself connect to one of these addresses, the table keeps just their
  entries, and no open connection has one.
\<close>

theorem lines_silence_the_node:
  assumes "read_law R" "distinct (map fst visitors)" "length visitors = limit" "b \<notin> set (map fst visitors)"
    "\<forall>line \<in> set (map snd visitors). line \<noteq> [] \<and> last line = 10 \<and> 10 \<notin> set (butlast line)"
  shows "\<exists>s. conn_run X R (node_start identity name limit) (visit_steps visitors @ [Opened b Server]) s \<and>
    \<not> accept_connections s \<and>
    (\<forall>ls' s'. conn_run X R s ls' s' \<and> (\<forall>a \<in> set (map fst visitors). Opened a Client \<notin> set ls') \<longrightarrow>
      \<not> accept_connections s' \<and> set (map fst (peers (net s'))) = set (map fst visitors) \<and>
      (\<forall>sock \<in> set (sockets s'). reading sock \<longrightarrow> sock_addr sock \<notin> set (map fst visitors)))"
proof -
  let ?A = "set (map fst visitors)"
  have "\<forall>line \<in> set (map snd visitors). line \<noteq> [] \<and> R 10 line False = Some (line, [])"
    using assms(5) read_line[OF assms(1)] by blast
  from silenced[where R = R, OF assms(2-4) this, of X identity name] obtain s where
    run: "conn_run X R (node_start identity name limit) (visit_steps visitors @ [Opened b Server]) s" and quiet: "silent ?A s" by blast
  note ok = run_ok[OF run start_ok, THEN conjunct1]
  have "\<not> accept_connections s' \<and> set (map fst (peers (net s'))) = ?A \<and> (\<forall>sock \<in> set (sockets s'). reading sock \<longrightarrow> sock_addr sock \<notin> ?A)"
    if "conn_run X R s ls' s'" "\<forall>a \<in> ?A. Opened a Client \<notin> set ls'" for ls' s'
  proof -
    have q: "silent ?A s'" using silent_run[OF that(1) ok quiet] that(2) by blast
    with silent_table(1)[OF q run_ok[OF that(1) ok, THEN conjunct1]] show ?thesis
      unfolding silent_def abandoned_def by blast
  qed
  with run quiet show ?thesis unfolding silent_def by blast
qed

definition sample_visitors :: "(nat \<times> u8 list) list" where
  "sample_visitors = [(1, [71, 10]), (2, [10])]"

theorem lines_silence_the_node_witness:
  "\<exists>s. conn_run sample_net sample_read_until (node_start ([], []) ''net'' 2) (visit_steps sample_visitors @ [Opened 3 Server]) s \<and>
     \<not> accept_connections s \<and> set (map fst (peers (net s))) = {1, 2}"
proof -
  have v: "distinct (map fst sample_visitors)" "length sample_visitors = 2" "3 \<notin> set (map fst sample_visitors)"
    "set (map fst sample_visitors) = {1, 2}" by (auto simp: sample_visitors_def)
  have "\<forall>line \<in> set (map snd sample_visitors). line \<noteq> [] \<and> last line = 10 \<and> 10 \<notin> set (butlast line)"
    by (simp add: sample_visitors_def)
  from lines_silence_the_node[OF sample_read_law v(1-3) this, of sample_net "([], [])" "''net''"] obtain s where
    s: "conn_run sample_net sample_read_until (node_start ([], []) ''net'' 2) (visit_steps sample_visitors @ [Opened 3 Server]) s"
      "\<not> accept_connections s"
      "\<forall>ls' s'. conn_run sample_net sample_read_until s ls' s' \<and> (\<forall>a \<in> set (map fst sample_visitors). Opened a Client \<notin> set ls') \<longrightarrow>
         \<not> accept_connections s' \<and> set (map fst (peers (net s'))) = set (map fst sample_visitors) \<and>
         (\<forall>sock \<in> set (sockets s'). reading sock \<longrightarrow> sock_addr sock \<notin> set (map fst sample_visitors))" by blast
  from s(3)[rule_format, of "[]" s] conn_run.start[of sample_net sample_read_until s] s(1,2) v(4) show ?thesis by auto
qed

text \<open>
  C40.  Connect packets are not framed.  The reader takes messages up to a newline byte off the stream, but a
  packet is written without one: a client whose stream starts with a valid connect packet has session keys after
  the turn that reads it just when the packet happens to end in a newline byte, or ends the stream, and has no other
  newline byte.
\<close>

theorem connect_packet_needs_a_newline:
  assumes "read_law R" "connect_to_bytes c = Some packet" "wf_connect c" "sock = sockets s ! i"
    "\<not> refuse_connection sock" "incoming sock = packet @ later" "map_of (peers (net s)) (sock_addr sock) = Some p"
    "peer_id p = None" "connection_type p = Client" "peer_rx p = None"
    "client_sk X (peer_pk p) (peer_sk p) (cn_kx_key c) \<noteq> None"
  shows "(\<exists>s' q. socket_reader X R i s = Some s' \<and> map_of (peers (net s')) (sock_addr sock) = Some q \<and> peer_rx q \<noteq> None) \<longleftrightarrow>
    10 \<notin> set (butlast packet) \<and> (last packet = 10 \<or> later = [] \<and> at_eof sock)"
proof -
  have c: "connect_from_bytes packet = Inr c" using connect_roundtrip[OF assms(3)] assms(2) by auto
  have "client_sk X (peer_pk p) (peer_sk p) (cn_kx_key c') \<noteq> None"
    if "R 10 (incoming sock) (at_eof sock) = Some (line, rest)" "connect_from_bytes line = Inr c'" for line rest c'
  proof -
    have "line = packet" using first_message_whole[OF assms(1) c that(1)[unfolded assms(6)] that(2)] by simp
    with that(2) c assms(11) show ?thesis by simp
  qed
  from client_turn[OF assms(5,4,7-10) this] first_message[OF assms(1) c, of later "at_eof sock"] assms(6) show ?thesis by simp
qed

definition sample_reading :: "u8 list \<Rightarrow> nat Node" where
  "sample_reading bytes = set_socket 0 ((sockets sample_connecting ! 0)\<lparr>incoming := bytes\<rparr>) sample_connecting"

theorem connect_packet_needs_a_newline_witness:
  "\<exists>packet. connect_to_bytes sample_connect = Some packet \<and>
     \<not> (\<exists>s' q. socket_reader sample_net sample_read_until 0 (sample_reading (packet @ [10])) = Some s' \<and>
       map_of (peers (net s')) 2 = Some q \<and> peer_rx q \<noteq> None)"
proof -
  have wf: "wf_connect sample_connect" by (simp add: wf_connect_def sample_connect_def wf_sig_def)
  obtain packet where p: "connect_to_bytes sample_connect = Some packet" "last packet = 7"
    by (simp add: connect_to_bytes_def sample_connect_def)
  let ?s = "sample_reading (packet @ [10])"
  note defs = sample_reading_def sample_connecting_def sample_start_def node_start_def process_connection_def add_peer_def
    peer_count_def network_new_def socket_new_def set_socket_def
  have sock: "\<not> refuse_connection (sockets ?s ! 0)" "incoming (sockets ?s ! 0) = packet @ [10]" "sock_addr (sockets ?s ! 0) = 2"
    "map_of (peers (net ?s)) 2 = Some (peer_new (sample_pair 5) None 2 Client)" by (simp_all add: defs)
  from connect_packet_needs_a_newline[OF sample_read_law p(1) wf refl sock(1,2), of "peer_new (sample_pair 5) None 2 Client" sample_net]
    sock(3,4) p show ?thesis by (simp add: peer_new_def sample_net_def)
qed

end
