(* ===== verification/Jump.thy ===== *)
theory Jump
  imports Bin_Tools
begin

unbundle bit_operations_syntax

text \<open>
  \<open>jump/src/lib.rs\<close>: the bucket of a key.  The hash of a key and the function \<open>JumpConsistentHash\<close>, which is
  linked from C, are parameters.
\<close>

definition bytes_to_uint :: "u8 list \<Rightarrow> u64" where
  "bytes_to_uint bin = foldl (\<lambda>result byte. push_bit 8 result + ucast byte) 0 bin"

definition jump_bytes :: "(u8 list \<Rightarrow> u8 list) \<Rightarrow> (u64 \<Rightarrow> 32 word \<Rightarrow> 32 word) \<Rightarrow> u8 list \<Rightarrow> 32 word \<Rightarrow> 32 word" where
  "jump_bytes hash_slice jump_ch key buckets = jump_ch (bytes_to_uint (hash_slice key)) buckets"

text \<open>
  The integer is read in big endian order.  Only the last eight bytes of a hash matter, the others are shifted
  out.
\<close>

lemma bytes_to_uint_be: "bytes_to_uint bin = le_word (rev bin)"
proof (induction bin rule: rev_induct)
  case (snoc b bin)
  have "push_bit 8 r AND ucast b = 0" for r :: u64 by (rule bit_word_eqI) (auto simp: bit_simps dest: bit_imp_le_length)
  then have "push_bit 8 r + ucast b = ucast b OR push_bit 8 r" for r :: u64
    by (simp add: disjunctive_add_eq_or or.commute)
  with snoc show ?case by (simp add: bytes_to_uint_def)
qed (simp add: bytes_to_uint_def)

lemma bytes_to_uint_encode: "bytes_to_uint (encode_be_u64 n) = n"
  by (simp add: bytes_to_uint_be encode_be_u64_def le_word_le_bytes take_bit_word_eq_self)

lemma le_word_append: "le_word (low @ high) = (le_word low OR push_bit (8 * length low) (le_word high) :: 'a::len word)"
proof (induction low)
  case (Cons b low)
  then show ?case by (simp add: push_bit_or or.assoc)
qed simp

lemma bytes_to_uint_suffix: "length low = 8 \<Longrightarrow> bytes_to_uint (high @ low) = bytes_to_uint low"
  by (simp add: bytes_to_uint_be le_word_append push_bit_word_beyond)

end
