(* ===== verification/Spec2Isabelle.thy ===== *)
theory Spec2Isabelle
  imports Contract_Theorems Account_Theorems Ledger_Theorems Chain_Theorems Miner_Theorems Consensus_Theorems Node_Theorems Jump
begin

text \<open>
  A verification of the Purple library (\<open>src/\<close> of the repository), a blockchain node in Rust: a
  bytecode machine for contracts, accounts and their balances and shares, the transactions that
  change them, and the chain, consensus and network code around them.

  \<^bold>\<open>Parts and theories.\<close>  Paths are relative to \<open>src/\<close>; a definition has the name of the function
  it models, with a prefix where several files use the same name.

  \<^item> \<open>Prelude\<close>: slices, vectors, checked arithmetic and monadic loops of the Rust standard library.
  \<^item> \<open>Util\<close>: \<open>util/quicksort\<close>, \<open>util/recursive\<close>.  \<open>Bin_Tools\<close>: \<open>util/bin-tools\<close>, with the locale
    \<open>fixed_codec\<close> interpreted for every integer width and byte order.
  \<^item> \<open>Instruction_Set\<close>, \<open>Vm_Stack\<close> (locale \<open>lifo\<close>), \<open>Vm_Types\<close>: opcodes, transitions, stacks,
    frames, types and values of \<open>purple_vm\<close>.
  \<^item> \<open>Validator\<close>, \<open>Validator_Props\<close>: the validator automaton of \<open>code/validator.rs\<close>;
    \<open>Code_Function\<close>, \<open>Code\<close>: block lengths and contracts (\<open>code/function.rs\<close>, \<open>code/import.rs\<close>,
    \<open>code/mod.rs\<close>).
  \<^item> \<open>Vm_Args\<close>, \<open>Virtual_Machine\<close>, \<open>Vm_Props\<close>: \<open>virtual_machine.rs\<close>, one definition per
    instruction, \<open>vm_step\<close> for the body of the loop and \<open>execute\<close> for the loop; \<open>Vm_Control\<close>: the invariant of
    its call stack; \<open>Gas\<close>: \<open>gas.rs\<close>.
  \<^item> \<open>Text_Format\<close>, \<open>Balance\<close>, \<open>Shares\<close>, \<open>Share_Map\<close>, \<open>Addresses\<close> (locale \<open>tagged_codec\<close>),
    \<open>Multi_Sig\<close>: the crate \<open>account\<close> and the signature type of \<open>crypto\<close>.
  \<^item> \<open>Ledger\<close>: the state trie as the transactions see it; \<open>Tx_Common\<close>: \<open>transactions/src/macros.rs\<close>
    and the code the transactions repeat, with the locale \<open>tx_codec\<close> for their wire formats;
    \<open>Tx_Send\<close>, \<open>Tx_Burn\<close>, \<open>Tx_Mint\<close>, \<open>Tx_Pay\<close>, \<open>Tx_Issue_Shares\<close>, \<open>Tx_Create_Currency\<close>,
    \<open>Tx_Create_Mintable\<close> (with \<open>Tx_Create\<close>), \<open>Tx_Open_Multi_Sig\<close>, \<open>Tx_Open_Shares\<close>, \<open>Tx_Open_Contract\<close>
    (with \<open>Tx_Open\<close>), \<open>Tx_Call\<close>: one file of \<open>transactions/src\<close> each, with its record, \<open>validate\<close> and
    \<open>apply\<close> where it has them, signing, hashing and wire format, and an interpretation of \<open>tx_codec\<close>;
    \<open>Tx_Unique\<close>: \<open>create_unique.rs\<close> and \<open>change_minter.rs\<close>, which only sign and hash; \<open>Tx_Genesis\<close>:
    \<open>genesis.rs\<close>; \<open>Transactions\<close>: the type \<open>Tx\<close> of \<open>lib.rs\<close>.
  \<^item> \<open>Persistent_Db\<close>: the memory store of \<open>persistence/src/persistent_db.rs\<close>; \<open>Blocks\<close>: \<open>chain/src/block.rs\<close>,
    \<open>easy_chain/block.rs\<close> and \<open>hard_chain/block.rs\<close>, with the locale \<open>block_laws\<close> for what the chain relies
    on, interpreted for hard blocks; \<open>Chain\<close>, \<open>Chain_Append\<close>: \<open>chain/src/chain.rs\<close>; \<open>Chain_Props\<close>,
    \<open>Chain_Refine\<close> (locale \<open>chain_laws\<close>): the state of the chain against the list of its canonical blocks.
  \<^item> \<open>Siphash\<close>, \<open>Cuckaroo\<close>, \<open>Cuckaroo_Props\<close>, \<open>Pow_Verify\<close>: \<open>miner/src/pow\<close> and \<open>miner/src/verify.rs\<close>, the
    cycles a proof of work has to show; \<open>Miner\<close>: the control of the solvers (\<open>plugin_type.rs\<close>, \<open>plugin.rs\<close>,
    \<open>shared_data.rs\<close>, \<open>solver_instance.rs\<close>, \<open>miner.rs\<close>) with the solver threads, each access to the shared data a
    step; \<open>Miner_Props\<close>: the miner and its threads as the step relation \<open>miner_step\<close>, and its invariant.
  \<^item> \<open>Causality\<close>: the stamps of \<open>causality\<close>; \<open>Events\<close>, \<open>Events_Props\<close>: the three events of \<open>events\<close>, their
    wire formats again interpretations of \<open>tx_codec\<close>.
  \<^item> \<open>Network\<close>, \<open>Network_Props\<close>: connect packets, peers and the two networks of \<open>network\<close>, with the locale
    \<open>network_laws\<close> for what the handler of a packet relies on, interpreted for the network and for the mock.
    \<open>Connection\<close>, \<open>Connection_Props\<close>: \<open>connection.rs\<close>, \<open>bootstrap.rs\<close> and the start of \<open>purple/main.rs\<close>, a node as the
    step relation \<open>conn_step\<close> over its network, its flag for accepting connections and its sockets.
  \<^item> \<open>Jump\<close>: \<open>jump/src/lib.rs\<close>.
  \<^item> \<open>Causal_Graph\<close>, \<open>Consensus_Machine\<close>: \<open>consensus/src\<close>; \<open>Causal_Votes\<close>, \<open>Causal_Returns\<close>,
    \<open>Consensus_Props\<close>: the invariant of the votes, that pushing an event returns, and the ids that an injection hands out.
  \<^item> \<open>Sample_Env\<close>: a concrete instance of the third-party code for the witnesses.
  \<^item> \<open>Contract_Theorems\<close>, \<open>Account_Theorems\<close>, \<open>Ledger_Theorems\<close>, \<open>Chain_Theorems\<close>, \<open>Miner_Theorems\<close>,
    \<open>Protocol_Theorems\<close>, \<open>Consensus_Theorems\<close>, \<open>Node_Theorems\<close> and this theory: the properties.

  \<^bold>\<open>Conventions.\<close>  A panic (\<open>unwrap\<close> of nothing, an index out of range, overflow of checked
  arithmetic, \<open>panic!\<close>) is \<open>None\<close>; an \<open>Err\<close> is \<open>Inl\<close>.  Integers keep their width.  What an
  overflowing \<open>+\<close> or \<open>-\<close> does is up to the profile: for the additions of the virtual machine, where the source
  does not guard against it, this is the parameter \<open>x_overflow_checks\<close>; elsewhere (heights, counters, nonces) the
  definitions panic, as in a build with overflow checks.  A struct is a record, a function that
  mutates it returns the new one, and a mutation of the trie is passed on from insert to insert in
  the order of the source.

  \<^bold>\<open>Parameters.\<close>  Code outside the repository is an argument of the definitions that use it: the
  record \<open>env\<close> (trie, hexadecimal encoding, decimals, RLP, hashing, signatures, iteration order of hash
  maps), \<open>vm_ext\<close> (bits of a byte, floating point addition, the overflow checks of the build), \<open>cenv\<close> and \<open>clock\<close> (hashing, iteration
  order and unstable sorting for the chain; timestamps), \<open>lru\<close> (the block cache), \<open>bits_get\<close> and \<open>hash_slice\<close>
  (bits of a byte and hashing for proofs of work), \<open>run_solver\<close> (a run of a plugin), \<open>itc\<close> (interval tree clocks), \<open>join_ext\<close> (RLP of lists of
  numbers), \<open>net_ext\<close> (signatures and key exchange), \<open>line_reader\<close> (reading from a socket), \<open>cg_ext\<close> (the graph, iteration
  orders) and the C function behind \<open>jump\<close>.  What the properties rely on is
  stated as \<open>trie_law\<close> (a successful insert is seen by later reads of its key only), \<open>trie_total\<close>,
  \<open>hex_law\<close> (two lower case digits for a byte), \<open>decimal_law\<close> (addition, subtraction and comparison of
  numbers, printing and parsing keep the number) and \<open>rlp_law\<close>; \<open>Sample_Env.sample_laws\<close> shows that they
  hold together.  Further laws are \<open>bits_law\<close>, \<open>typed_run\<close> (a plugin keeps the length of a name field), \<open>itc_order\<close> (comparison is a preorder) and \<open>itc_text\<close> (printed
  clocks parse), \<open>join_law\<close> (RLP of numbers round trips), \<open>kx_law\<close> and \<open>sign_law\<close> (the two ends of a key
  exchange derive the same keys, a signature has 64 bytes), \<open>read_law\<close> (a line ends at the first
  delimiter), \<open>order_law\<close> (iteration visits every entry once), \<open>graph_law\<close> and
  \<open>graph_frame\<close> (adding vertices and edges changes nothing else); the witnesses of the theorems that use them give an instance.

  \<^bold>\<open>Loops.\<close>  Recursion over bytes, instructions, entries and keys is structural or has a measure.
  The loop of \<open>execute\<close> may run forever: it takes fuel, one unit for every instruction, and the
  properties of it hold for every amount of fuel; \<open>execute_fuel_irrelevant\<close> shows that more fuel does
  not change a result.  The loops of the chain along parent hashes are partial functions, as the hashes of
  blocks are not verified and parents may form a cycle: \<open>None\<close> there is a panic or no result, and
  \<open>rewind_refines\<close> shows that rewinding returns.  The loop over the heights of orphans has a measure.  The walk
  over the edges of a proof (\<open>match_loop\<close>, \<open>follow_cycle\<close>) is a partial function that is proved to return for
  every proof.  So is \<open>push_loop\<close> of the causal graph, which is proved to return for well-formed events on a graph that
  obeys \<open>graph_law\<close>; \<open>traverse_followers\<close> is a partial function over the same graph.

  \<^bold>\<open>What is shown.\<close>  \<open>Contract_Theorems\<close>: in every state of an execution the frames lead back to the start
  through the blocks and calls that opened them; when execution fails and with which error; the
  effect of calls, stores and loads, arguments, arithmetic and blocks; what the validator and the validation of a
  contract accept; places where code and documentation, or two parts of the code, disagree; modules and
  opcodes.  \<open>Account_Theorems\<close>: sorting, codecs, addresses and shares.  \<open>Ledger_Theorems\<close>: the exact effect
  of transactions on the ledger, where that effect loses or creates money, that a valid burn applies,
  that a currency is created once, what a signature leaves open, and the round trips of the wire
  formats.  \<open>Chain_Theorems\<close>: every state that is reached with hashes outside the chain's own keys is a chain of
  stored blocks that ends at the genesis block, and what another hash destroys; appending a block and rewinding refine adding and removing blocks of a list, no accepted block is
  lost or accepted twice, and a longer chain wins; what is lost on a restart, and which heights are not
  checked.  \<open>Miner_Theorems\<close>: a proof is accepted exactly when its edges form one cycle; a job wakes a solver whose
  thread is in its loop, a thread that has left its loop stays out, and two ways in which a job goes wrong.  \<open>Protocol_Theorems\<close>: events round trip, the two ends of a key exchange compute matching keys,
  although the server of the node cannot answer, and what a connect packet does not authenticate.  \<open>Consensus_Theorems\<close>: how votes are counted and why no
  candidate is ever ordered, and that injected validators own disjoint parts of the id space.  \<open>Node_Theorems\<close>: the
  table of peers stays bounded in every interleaving of the tasks, how a few lines end all of it, and that packets
  are not framed.  This theory: what opening an account means for the transactions that follow, and genesis.

  \<^bold>\<open>Not modelled.\<close>  Printing and logging; \<open>arbitrary\<close> generators and test code; floating point addition
  itself, and the two requirements of \<open>consensus/src/parameters.rs\<close> that take logarithms and are not used;
  functions whose body is \<open>unimplemented!\<close>, other than as panics where they are called.  The scheduling of tasks and the
  sockets are steps that may happen at any time; partial writes are not distinguished.  The
  RocksDB wrapper, the plugins of \<open>miner\<close> and their configuration, the command line of the node and opening its
  database are input and output or bindings to other languages.  The trie codec of \<open>persistence\<close> only serves the
  trie crate, which is a parameter.
\<close>

section \<open>From opening an account to using it\<close>

text \<open>
  C24.  An account opened by \<open>OpenMultiSig\<close> obeys its keys: a multi signature is accepted for it in the
  new state exactly when at least two keys are required, no more than there are, and each of the first
  required signatures is one of some key of the transaction that opened the account.
\<close>

theorem multi_sig_account_obeys_its_keys:
  assumes laws: "trie_law E" "hex_law E" "decimal_law E val" "rlp_law E" "\<And>xs. e_rlp_encode E xs \<noteq> []"
    and run: "open_multi_sig_apply E tx t = Some t'" and a: "oms_address tx = Some a"
    and keys: "list_all wf_normal (oms_keys tx)"
  shows "validate_signature E t' (Account_Address.MultiSig a) (Some (MultiSigSig m)) message = Some True \<longleftrightarrow>
    2 \<le> oms_required_keys tx \<and> unat (oms_required_keys tx) \<le> length (oms_keys tx) \<and>
    unat (oms_required_keys tx) \<le> length (msigs m) \<and>
    (\<forall>sig \<in> set (take (unat (oms_required_keys tx)) (msigs m)). \<exists>k \<in> set (oms_keys tx). e_verify E message sig (pkey k))"
proof (cases "2 \<le> oms_required_keys tx \<and> unat (oms_required_keys tx) \<le> length (oms_keys tx)")
  case True
  then show ?thesis
    using open_multi_sig_governs[OF assms]
      msig_verify_iff[of "oms_required_keys tx" "map pkey (oms_keys tx)" "e_verify E" m message]
    by (simp add: check_multi_sig_def verified_by_def not_less)
next
  case False
  then show ?thesis
    using open_multi_sig_governs[OF assms] by (auto simp: check_multi_sig_def msig_verify_def not_le)
qed

definition sample_open_multi_sig :: "int OpenMultiSig" where
  "sample_open_multi_sig = \<lparr>oms_creator = NormalAddress (replicate 32 1),
     oms_keys = [NormalAddress (replicate 32 1), NormalAddress (replicate 32 2)], oms_required_keys = 2,
     oms_amount = Balance 30, oms_asset_hash = replicate 32 7, oms_fee = Balance 1, oms_fee_hash = replicate 32 8,
     oms_nonce = 0, oms_address = Some (MultiSigAddress (replicate 32 5)), oms_hash = None, oms_signature = None\<rparr>"

lemma sample_creator: "normal_to_bytes (NormalAddress (replicate 32 n)) = address_to_bytes (sample_address n)"
  by (simp add: sample_address_def)

lemma sample_ledger_other:
  assumes "\<And>n. b \<noteq> address_to_bytes (sample_address n)"
  shows "map_of sample_ledger (nonce_key sample_env b) = None" "map_of sample_ledger (cur_key sample_env b c) = None"
  using assms by (simp_all add: sample_ledger_def sample_account_def)

theorem multi_sig_account_obeys_its_keys_witness:
  "\<exists>t'. open_multi_sig_apply sample_env sample_open_multi_sig sample_ledger = Some t' \<and>
     validate_signature sample_env t' (Account_Address.MultiSig (MultiSigAddress (replicate 32 5)))
       (Some (MultiSigSig (MultiSig [PrimitiveSig (replicate 64 1), PrimitiveSig (replicate 64 2)]))) [] = Some True"
proof -
  have b: "multi_sig_to_bytes (MultiSigAddress (replicate 32 5)) \<noteq> address_to_bytes (sample_address n)" for n
    by (simp add: sample_address_def normal_to_bytes_def multi_sig_to_bytes_def)
  have "open_multi_sig_apply sample_env sample_open_multi_sig sample_ledger \<noteq> None"
    by (simp add: open_multi_sig_apply_def open_account_def open_multi_sig_entries_def sample_open_multi_sig_def
        sample_run sample_creator sample_ledger_other[OF b])
  then obtain t' where run: "open_multi_sig_apply sample_env sample_open_multi_sig sample_ledger = Some t'" by blast
  have "list_all wf_normal (oms_keys sample_open_multi_sig)"
    by (simp add: sample_open_multi_sig_def wf_normal_def)
  from multi_sig_account_obeys_its_keys[OF sample_laws(1,3,4,5,6) run _ this,
      of "MultiSigAddress (replicate 32 5)"] run
  show ?thesis by (auto simp: sample_open_multi_sig_def sample_env_def)
qed

text \<open>
  \<open>OpenShares\<close> sets up the company: in the new state its stock is recognised as the stock of the new
  address, every shareholder owns exactly its shares, and shares and share map are stored.
\<close>

theorem company_opens_with_its_shares:
  assumes laws: "trie_law E" "hex_law E" "decimal_law E val" "\<And>xs. e_rlp_encode E xs \<noteq> []"
      "\<And>es. mset (e_iter E es) = mset es"
    and run: "open_shares_apply E tx t = Some t'" and a: "os_address tx = Some a" "os_stock_hash tx = Some g" "g \<noteq> []"
    and stock: "g \<noteq> os_asset_hash tx" "g \<noteq> os_fee_hash tx"
    and sm: "distinct (map fst (sm_entries (os_share_map tx)))"
  shows "e_get E t' (dot_key (e_hex E g) ''adr'') = Some (Some (shareholders_to_bytes a)) \<and>
    e_get E t' (dot_key (e_hex E (shareholders_to_bytes a)) ''s'') = Some (Some (shares_to_bytes (os_shares tx))) \<and>
    e_get E t' (dot_key (e_hex E (shareholders_to_bytes a)) ''sm'') =
      Some (Some (sm_to_bytes (e_rlp_encode E) (e_iter E) (os_share_map tx))) \<and>
    (\<forall>(b, v) \<in> set (sm_entries (os_share_map tx)).
      e_get E t' (cur_key E (normal_to_bytes b) g) = Some (Some (encode_be_u32 v)))"
  using open_shares_opens[OF assms] by auto

definition sample_open_shares :: "int OpenShares" where
  "sample_open_shares = \<lparr>os_creator = NormalAddress (replicate 32 1), os_shares = shares_new 100 200 60,
     os_share_map = \<lparr>sm_entries = [(NormalAddress (replicate 32 1), 60), (NormalAddress (replicate 32 2), 40)], sm_issued = 100\<rparr>,
     os_amount = Balance 30, os_asset_hash = replicate 32 7, os_fee = Balance 1, os_fee_hash = replicate 32 8,
     os_nonce = 0, os_address = Some (ShareholdersAddress (replicate 32 5)), os_hash = None,
     os_stock_hash = Some (replicate 32 9), os_signature = None\<rparr>"

theorem company_opens_with_its_shares_witness:
  "\<exists>t'. open_shares_apply sample_env sample_open_shares sample_ledger = Some t' \<and>
     e_get sample_env t' (cur_key sample_env (address_to_bytes (sample_address 2)) (replicate 32 9)) =
       Some (Some (encode_be_u32 40))"
proof -
  have b: "shareholders_to_bytes (ShareholdersAddress (replicate 32 5)) \<noteq> address_to_bytes (sample_address n)" for n
    by (simp add: sample_address_def normal_to_bytes_def shareholders_to_bytes_def)
  have iter: "e_iter sample_env = (\<lambda>es. es)" by (simp add: sample_env_def)
  have "open_shares_apply sample_env sample_open_shares sample_ledger \<noteq> None"
    by (simp add: open_shares_apply_def open_account_def open_shares_before_def open_shares_after_def
        allocate_shares_def allocate_shareholder_def sm_keys_def sm_get_def put_share_map_def iter
        sample_open_shares_def sample_run sample_creator sample_ledger_other[OF b])
  then obtain t' where run: "open_shares_apply sample_env sample_open_shares sample_ledger = Some t'" by blast
  from company_opens_with_its_shares[OF sample_laws(1,3,4,6,7) run,
      of "ShareholdersAddress (replicate 32 5)" "replicate 32 9"] run
  show ?thesis by (auto simp: sample_open_shares_def sample_creator)
qed

text \<open>
  Genesis runs once and leaves the main currency incomplete: applied to a fresh state it gives the
  treasury the whole coin supply, whatever treasury balance it was built with, and lists the main currency, but
  stores no precision for it, which is what the creation of a currency looks at; a second run panics.
\<close>

theorem genesis_sets_up_the_treasury:
  assumes laws: "trie_law E" "hex_law E" "rlp_law E" "\<And>xs. e_rlp_encode E xs \<noteq> []"
    and run: "genesis_apply E g t = Some t'" and stock: "gen_treasury_stock_hash g \<noteq> []"
    and fresh: "e_get E t (dot_key (e_hex E (gen_asset_hash g)) ''p'') = Some None"
    and whole: "whole_balance E (gen_coin_supply g) = Some b"
  shows "stored E val t' (cur_key E (shareholders_to_bytes (gen_treasury_address g)) (gen_asset_hash g)) = val (balance_inner b) \<and>
    registered E t' (gen_asset_hash g) \<and> e_get E t' (dot_key (e_hex E (gen_asset_hash g)) ''p'') = Some None \<and>
    genesis_apply E g' t' = None"
proof -
  note entries = genesis_entries[OF laws(1,2,4) run stock]
  have "stored E val t' (cur_key E (shareholders_to_bytes (gen_treasury_address g)) (gen_asset_hash g)) = val (balance_inner b)"
    using balance_must_parse[OF whole[unfolded whole_balance_def]] by (simp add: stored_def entries(3))
  moreover have "registered E t' (gen_asset_hash g)"
    unfolding registered_def using entries(5) laws(3)
    by (intro exI[of _ 0] exI[of _ "e_rlp_encode E [gen_asset_hash g]"]) (simp add: rlp_law_def)
  moreover have "genesis_apply E g' t' = None" using entries(2) by (simp add: genesis_apply_def)
  ultimately show ?thesis using entries(6) fresh by simp
qed

definition sample_genesis :: "int Genesis" where
  "sample_genesis = \<lparr>gen_treasury_balance = Balance 25, gen_treasury_address = ShareholdersAddress (replicate 32 5),
     gen_treasury_shares = shares_new 100 100 80, gen_treasury_share_map = sm_new,
     gen_treasury_stock_hash = replicate 32 9, gen_asset_hash = replicate 32 7, gen_coin_supply = 100\<rparr>"

theorem genesis_sets_up_the_treasury_witness:
  "\<exists>t'. genesis_apply sample_env sample_genesis [] = Some t' \<and>
     stored sample_env (\<lambda>d. d) t' (cur_key sample_env
       (shareholders_to_bytes (ShareholdersAddress (replicate 32 5))) (replicate 32 7)) = 100 \<and>
     genesis_apply sample_env sample_genesis t' = None"
proof -
  have "genesis_apply sample_env sample_genesis [] \<noteq> None"
    by (simp add: genesis_apply_def put_share_map_def Let_def)
  then obtain t' where run: "genesis_apply sample_env sample_genesis [] = Some t'" by blast
  have whole: "whole_balance sample_env 100 = Some (Balance 100)" by code_simp
  from genesis_sets_up_the_treasury[OF sample_laws(1,3,5,6) run, of "Balance 100" "\<lambda>d. d" sample_genesis] whole run
  show ?thesis by (auto simp: sample_genesis_def)
qed

end
